(* ===== verification/Go_Prelude.thy ===== *)
theory Go_Prelude
  imports Main "HOL-Library.Word" "HOL-Library.AList"
begin

text \<open>
  What the development shares: Go's fixed-width integers as words, the outcome of a Go call
  (a value, an error, or a run-time panic), byte strings, big-endian integers as
  \<^verbatim>\<open>encoding/binary\<close> reads and writes them, and Go maps as association lists with distinct
  keys. The collections \<open>res_simps\<close> and \<open>wire_simps\<close> hold the rewrite rules the component
  proofs use.
\<close>

unbundle bit_operations_syntax

named_theorems res_simps \<open>rules for outcomes of Go calls\<close>
named_theorems wire_simps \<open>rules for byte-level encodings\<close>

section \<open>Machine integers and strings\<close>

type_synonym byte = "8 word"
type_synonym uint16 = "16 word"
type_synonym uint32 = "32 word"
type_synonym uint64 = "64 word"

text \<open>A Go string is a sequence of bytes; a HOL \<^typ>\<open>char\<close> is one byte.\<close>

definition bytes_of_string :: "string \<Rightarrow> byte list" where
  "bytes_of_string s = map of_char s"

definition string_of_bytes :: "byte list \<Rightarrow> string" where
  "string_of_bytes bs = map (\<lambda>b. char_of (unat b)) bs"

text \<open>\<^verbatim>\<open>fmt.Sprintf("%v", n)\<close> of an integer.\<close>

fun decimal :: "nat \<Rightarrow> string" where
  "decimal n = (if n < 10 then [char_of (48 + n)] else decimal (n div 10) @ [char_of (48 + n mod 10)])"

declare decimal.simps [simp del]

definition decimal_int :: "int \<Rightarrow> string" where
  "decimal_int i = (if i < 0 then CHR ''-'' # decimal (nat (- i)) else decimal (nat i))"

section \<open>Outcomes: value, error, panic\<close>

text \<open>
  \<open>Err\<close> is a non-nil \<^verbatim>\<open>error\<close> result. \<open>Panic\<close> is a run-time panic: a nil dereference, an
  index or slice bound out of range, a failed type assertion.
\<close>

datatype ('e, 'a) res = OK 'a | Err 'e | Panic

fun bind_res :: "('e, 'a) res \<Rightarrow> ('a \<Rightarrow> ('e, 'b) res) \<Rightarrow> ('e, 'b) res" where
  "bind_res (OK x) f = f x"
| "bind_res (Err e) f = Err e"
| "bind_res Panic f = Panic"

text \<open>Wrapping an error (\<^verbatim>\<open>fmt.Errorf("...: %w", err)\<close>).\<close>

fun map_err :: "('e \<Rightarrow> 'f) \<Rightarrow> ('e, 'a) res \<Rightarrow> ('f, 'a) res" where
  "map_err g (OK x) = OK x"
| "map_err g (Err e) = Err (g e)"
| "map_err g Panic = Panic"

fun is_ok :: "('e, 'a) res \<Rightarrow> bool" where
  "is_ok (OK _) = True"
| "is_ok _ = False"

section \<open>Big-endian integers\<close>

fun nat_be :: "nat \<Rightarrow> nat \<Rightarrow> byte list" where
  "nat_be 0 x = []"
| "nat_be (Suc n) x = nat_be n (x div 256) @ [word_of_nat x]"

definition be_nat :: "byte list \<Rightarrow> nat" where
  "be_nat bs = foldl (\<lambda>a b. 256 * a + unat b) 0 bs"

text \<open>\<^verbatim>\<open>binary.BigEndian.PutUint\<close>/\<^verbatim>\<open>AppendUint\<close> and \<^verbatim>\<open>binary.BigEndian.Uint\<close>, at a width of
  \<open>n\<close> bytes; the reader looks at the first \<open>n\<close> bytes of the slice.\<close>

definition be_put :: "nat \<Rightarrow> 'a::len word \<Rightarrow> byte list" where
  "be_put n w = nat_be n (unat w)"

definition be_get :: "nat \<Rightarrow> byte list \<Rightarrow> 'a::len word" where
  "be_get n bs = word_of_nat (be_nat (take n bs))"

section \<open>Lemmas\<close>

lemma bind_res_cong [fundef_cong]:
  assumes "m = m'" and "\<And>x. m' = OK x \<Longrightarrow> f x = g x"
  shows "bind_res m f = bind_res m' g"
  using assms by (cases m') auto

lemma bind_res_eq_OK [res_simps]: "bind_res m f = OK y \<longleftrightarrow> (\<exists>x. m = OK x \<and> f x = OK y)"
  by (cases m) auto

lemma bind_res_eq_Panic [res_simps]:
  "bind_res m f = Panic \<longleftrightarrow> m = Panic \<or> (\<exists>x. m = OK x \<and> f x = Panic)"
  by (cases m) auto

lemma bind_res_eq_Err [res_simps]:
  "bind_res m f = Err e \<longleftrightarrow> m = Err e \<or> (\<exists>x. m = OK x \<and> f x = Err e)"
  by (cases m) auto

lemma map_err_eq_OK [res_simps, simp]: "map_err g m = OK y \<longleftrightarrow> m = OK y"
  by (cases m) auto

lemma map_err_eq_Panic [res_simps, simp]: "map_err g m = Panic \<longleftrightarrow> m = Panic"
  by (cases m) auto

lemma is_ok_iff: "is_ok m \<longleftrightarrow> (\<exists>x. m = OK x)"
  by (cases m) auto

lemma char_of_unat_of_char [simp]: "char_of (unat (of_char c :: byte)) = c"
proof -
  have "(of_char c :: byte) = word_of_nat (of_char c)"
    by (simp only: of_nat_of_char)
  moreover have "(of_char c :: nat) < 256"
    by simp
  ultimately have "unat (of_char c :: byte) = of_char c"
    by (simp add: unat_of_nat)
  then show ?thesis by simp
qed

lemma of_char_char_of_unat [simp]: "of_char (char_of (unat (b :: byte))) = b"
proof -
  have "unat b < 256" using unsigned_less [of b] by simp
  then have "(of_char (char_of (unat b)) :: nat) = unat b" by simp
  moreover have "(of_char (char_of (unat b)) :: byte) = word_of_nat (of_char (char_of (unat b)))"
    by (simp only: of_nat_of_char)
  ultimately show ?thesis by (simp only: of_nat_unat ucast_id)
qed

lemma bytes_string_inverse [simp]: "bytes_of_string (string_of_bytes bs) = bs"
  by (induction bs) (simp_all add: bytes_of_string_def string_of_bytes_def)

lemma string_bytes_inverse [simp]: "string_of_bytes (bytes_of_string s) = s"
  by (induction s) (simp_all add: bytes_of_string_def string_of_bytes_def)

lemma length_bytes_of_string [simp]: "length (bytes_of_string s) = length s"
  by (simp add: bytes_of_string_def)

lemma length_string_of_bytes [simp]: "length (string_of_bytes bs) = length bs"
  by (simp add: string_of_bytes_def)

lemma bytes_of_string_Nil [simp]: "bytes_of_string [] = []" "string_of_bytes [] = []"
  by (simp_all add: bytes_of_string_def string_of_bytes_def)

lemma unat_byte_less: "unat (b :: byte) < 256"
  using unsigned_less [of b] by simp

lemma length_nat_be [simp]: "length (nat_be n x) = n"
  by (induction n arbitrary: x) auto

lemma be_nat_Nil [simp]: "be_nat [] = 0"
  by (simp add: be_nat_def)

lemma be_nat_snoc [simp]: "be_nat (bs @ [b]) = 256 * be_nat bs + unat b"
  by (simp add: be_nat_def)

lemma be_nat_nat_be: "be_nat (nat_be n x) = x mod 256 ^ n"
proof (induction n arbitrary: x)
  case 0
  then show ?case by simp
next
  case (Suc n)
  have "be_nat (nat_be (Suc n) x) = 256 * (x div 256 mod 256 ^ n) + x mod 256"
    by (simp add: Suc.IH unat_of_nat)
  also have "\<dots> = x mod (256 * 256 ^ n)"
    by (simp add: mod_mult2_eq)
  finally show ?case by simp
qed

lemma be_nat_less: "be_nat bs < 256 ^ length bs"
proof (induction bs rule: rev_induct)
  case Nil
  then show ?case by simp
next
  case (snoc b bs)
  have "unat b < 256" by (rule unat_byte_less)
  with snoc show ?case by simp
qed

lemma nat_be_be_nat: "nat_be (length bs) (be_nat bs) = bs"
proof (induction bs rule: rev_induct)
  case Nil
  then show ?case by simp
next
  case (snoc b bs)
  have "unat b < 256" by (rule unat_byte_less)
  then have "(256 * be_nat bs + unat b) div 256 = be_nat bs" by simp
  moreover have "(word_of_nat (256 * be_nat bs + unat b) :: byte) = b"
  proof -
    have a: "(256 :: byte) = 0" by simp
    show ?thesis
      by (simp only: of_nat_add of_nat_mult of_nat_numeral of_nat_unat ucast_id a
          mult_zero_left add_0)
  qed
  ultimately show ?case using snoc by simp
qed

lemma length_be_put [simp]: "length (be_put n w) = n"
  by (simp add: be_put_def)

lemma be_get_put [wire_simps]:
  fixes w :: "'a::len word"
  assumes "LENGTH('a) \<le> 8 * n"
  shows "be_get n (be_put n w @ rest) = w"
proof -
  have "unat w < 2 ^ LENGTH('a)" by (rule unsigned_less)
  also have "\<dots> \<le> 2 ^ (8 * n)" using assms by (intro power_increasing) auto
  also have "(2::nat) ^ (8 * n) = 256 ^ n" by (simp add: power_mult)
  finally have "unat w mod 256 ^ n = unat w" by simp
  then show ?thesis by (simp add: be_get_def be_put_def be_nat_nat_be)
qed

lemma be_put_get [wire_simps]:
  assumes "LENGTH('a) = 8 * n" and "n \<le> length bs"
  shows "be_put n (be_get n bs :: 'a::len word) = take n bs"
proof -
  have n: "length (take n bs) = n" using assms(2) by simp
  have "be_nat (take n bs) < 256 ^ n" using be_nat_less [of "take n bs"] n by simp
  also have "(256::nat) ^ n = 2 ^ LENGTH('a)" using assms(1) by (simp add: power_mult)
  finally have "unat (word_of_nat (be_nat (take n bs)) :: 'a word) = be_nat (take n bs)"
    by (simp add: unat_of_nat)
  with n show ?thesis
    using nat_be_be_nat [of "take n bs"] by (simp add: be_put_def be_get_def)
qed

section \<open>Go maps\<close>

text \<open>
  A Go map is a finite map whose iteration order is not specified. It is kept as an
  association list with distinct keys: \<^const>\<open>AList.update\<close> is \<^verbatim>\<open>m[k] = v\<close>,
  \<^const>\<open>AList.delete\<close> is \<^verbatim>\<open>delete(m, k)\<close>, \<^const>\<open>map_of\<close> is \<^verbatim>\<open>v, ok := m[k]\<close>.
  Operations that range over a map take the order as an argument. The contract the
  components rely on is the locale below.
\<close>

type_synonym ('k, 'v) gomap = "('k \<times> 'v) list"

definition map_vals :: "('v \<Rightarrow> 'w) \<Rightarrow> ('k, 'v) gomap \<Rightarrow> ('k, 'w) gomap" where
  "map_vals f m = map (\<lambda>(k, v). (k, f v)) m"

text \<open>An iteration order: what \<^verbatim>\<open>range m\<close> may do is visit every key exactly once.\<close>

definition iteration_order :: "('a list \<Rightarrow> 'a list) \<Rightarrow> bool" where
  "iteration_order ord \<longleftrightarrow> (\<forall>xs. distinct xs \<longrightarrow> distinct (ord xs) \<and> set (ord xs) = set xs)"

locale keyed_store =
  fixes empty :: "'m"
    and put :: "'k \<Rightarrow> 'v \<Rightarrow> 'm \<Rightarrow> 'm"
    and del :: "'k \<Rightarrow> 'm \<Rightarrow> 'm"
    and get :: "'m \<Rightarrow> 'k \<Rightarrow> 'v option"
    and keys :: "'m \<Rightarrow> 'k list"
    and invar :: "'m \<Rightarrow> bool"
  assumes get_empty: "get empty = (\<lambda>_. None)"
    and get_put: "get (put k v m) = (get m)(k \<mapsto> v)"
    and get_del: "invar m \<Longrightarrow> get (del k m) = (get m)(k := None)"
    and set_keys: "set (keys m) = dom (get m)"
    and distinct_keys: "invar m \<Longrightarrow> distinct (keys m)"
    and invar_empty: "invar empty"
    and invar_put: "invar m \<Longrightarrow> invar (put k v m)"
    and invar_del: "invar m \<Longrightarrow> invar (del k m)"
begin

lemma store_get_put_same: "get (put k v m) k = Some v"
  by (simp add: get_put)

lemma store_get_put_other: "j \<noteq> k \<Longrightarrow> get (put k v m) j = get m j"
  by (simp add: get_put)

lemma store_get_del_same: "invar m \<Longrightarrow> get (del k m) k = None"
  by (simp add: get_del)

lemma store_get_del_other: "invar m \<Longrightarrow> j \<noteq> k \<Longrightarrow> get (del k m) j = get m j"
  by (simp add: get_del)

lemma store_keys_put: "set (keys (put k v m)) = insert k (set (keys m))"
  by (simp add: set_keys get_put)

lemma store_keys_del: "invar m \<Longrightarrow> set (keys (del k m)) = set (keys m) - {k}"
  by (auto simp: set_keys get_del split: if_splits)

lemma store_get_puts:
  "get (fold (\<lambda>(k, v). put k v) kvs m) = get m ++ map_of (rev kvs)"
proof (induction kvs arbitrary: m)
  case Nil
  then show ?case by simp
next
  case (Cons kv kvs)
  then show ?case by (cases kv) (auto simp: get_put map_add_def fun_eq_iff split: option.splits)
qed

end

interpretation amap: keyed_store "[]" AList.update AList.delete map_of "map fst"
  "\<lambda>m. distinct (map fst m)"
proof unfold_locales
  fix m :: "('a \<times> 'b) list" and k :: 'a and v :: 'b
  show "map_of (AList.update k v m) = (map_of m)(k \<mapsto> v)" by (rule update_conv')
  show "map_of (AList.delete k m) = (map_of m)(k := None)" by (rule delete_conv')
  show "set (map fst m) = dom (map_of m)" by (simp add: dom_map_of_conv_image_fst)
  show "distinct (map fst m) \<Longrightarrow> distinct (map fst (AList.update k v m))"
    by (rule distinct_update)
  show "distinct (map fst m) \<Longrightarrow> distinct (map fst (AList.delete k m))"
    by (rule distinct_delete)
qed auto

lemma map_of_map_vals [simp]: "map_of (map_vals f m) k = map_option f (map_of m k)"
  by (simp add: map_vals_def map_of_map)

lemma keys_map_vals [simp]: "map fst (map_vals f m) = map fst m"
  by (simp add: map_vals_def comp_def case_prod_unfold)

lemma iteration_orderD:
  assumes "iteration_order ord" and "distinct xs"
  shows "distinct (ord xs)" and "set (ord xs) = set xs"
  using assms by (auto simp: iteration_order_def)

lemma iteration_order_id [simp]: "iteration_order (\<lambda>xs. xs)"
  by (simp add: iteration_order_def)

lemma iteration_order_rev [simp]: "iteration_order rev"
  by (simp add: iteration_order_def)

end
