(* ===== verification/Go_Float.thy ===== *)
theory Go_Float
  imports Go_Prelude
begin

text \<open>
  Go's \<^verbatim>\<open>float32\<close> and \<^verbatim>\<open>float64\<close> as IEEE 754 bit patterns, which is how the codec moves them
  (\<^verbatim>\<open>math.Float64bits\<close>). Modelled are the operations the program uses: the NaN and infinity
  tests, the ordering, the widening of a \<^verbatim>\<open>float32\<close> and the conversion of an integer to a
  \<^verbatim>\<open>float64\<close>, which rounds to nearest, ties to even.
\<close>

type_synonym float32 = "32 word"
type_synonym float64 = "64 word"

section \<open>Classification and order\<close>

definition f64_mag :: "float64 \<Rightarrow> nat" where
  "f64_mag w = unat w mod 2 ^ 63"

definition f64_neg :: "float64 \<Rightarrow> bool" where
  "f64_neg w \<longleftrightarrow> 2 ^ 63 \<le> unat w"

definition f64_is_nan :: "float64 \<Rightarrow> bool" where
  "f64_is_nan w \<longleftrightarrow> 2047 * 2 ^ 52 < f64_mag w"

definition f64_is_inf :: "float64 \<Rightarrow> bool" where
  "f64_is_inf w \<longleftrightarrow> f64_mag w = 2047 * 2 ^ 52"

text \<open>Sign and magnitude as an integer: the order of the finite and infinite values; both
  zeros have key 0.\<close>

definition f64_key :: "float64 \<Rightarrow> int" where
  "f64_key w = (if f64_neg w then - int (f64_mag w) else int (f64_mag w))"

definition f64_less :: "float64 \<Rightarrow> float64 \<Rightarrow> bool" where
  "f64_less a b \<longleftrightarrow> \<not> f64_is_nan a \<and> \<not> f64_is_nan b \<and> f64_key a < f64_key b"

section \<open>Conversions\<close>

fun top_bit :: "nat \<Rightarrow> nat" where
  "top_bit n = (if n \<le> 1 then 0 else Suc (top_bit (n div 2)))"

declare top_bit.simps [simp del]

definition round_half_even :: "nat \<Rightarrow> nat \<Rightarrow> nat" where
  "round_half_even m sh =
     (let q = m div 2 ^ sh; r = m mod 2 ^ sh; half = 2 ^ (sh - 1)
      in if half < r \<or> (r = half \<and> odd q) then q + 1 else q)"

text \<open>The bits of the nearest double to a natural number: exponent field above, 52 fraction
  bits below; a significand that rounds up to \<open>2 ^ 53\<close> carries into the exponent.\<close>

definition f64_nat_bits :: "nat \<Rightarrow> nat" where
  "f64_nat_bits m =
     (if m = 0 then 0
      else let k = top_bit m;
               sig = (if k \<le> 52 then m * 2 ^ (52 - k) else round_half_even m (k - 52))
           in (k + 1022) * 2 ^ 52 + sig)"

definition f64_of_int :: "int \<Rightarrow> float64" where
  "f64_of_int i = (if i < 0 then word_of_nat (2 ^ 63 + f64_nat_bits (nat (- i)))
                   else word_of_nat (f64_nat_bits (nat i)))"

definition f32_to_f64 :: "float32 \<Rightarrow> float64" where
  "f32_to_f64 w =
     (let s = unat w div 2 ^ 31; e = unat w div 2 ^ 23 mod 256; m = unat w mod 2 ^ 23
      in word_of_nat (s * 2 ^ 63 +
           (if e = 255 then 2047 * 2 ^ 52 + (if m = 0 then 0 else 2 ^ 51 + (m mod 2 ^ 22) * 2 ^ 29)
            else if e = 0 then
              (if m = 0 then 0
               else let k = top_bit m in (k + 874) * 2 ^ 52 + (m - 2 ^ k) * 2 ^ (52 - k))
            else (e + 896) * 2 ^ 52 + m * 2 ^ 29)))"

section \<open>Integers that a double holds exactly\<close>

lemma top_bit_bounds: "0 < n \<Longrightarrow> 2 ^ top_bit n \<le> n \<and> n < 2 ^ Suc (top_bit n)"
proof (induction n rule: top_bit.induct)
  case (1 n)
  show ?case
  proof (cases "n \<le> 1")
    case True
    with "1.prems" show ?thesis by (simp add: top_bit.simps)
  next
    case False
    with "1.IH" have "2 ^ top_bit (n div 2) \<le> n div 2 \<and> n div 2 < 2 ^ Suc (top_bit (n div 2))"
      by simp
    moreover from False have "top_bit n = Suc (top_bit (n div 2))" by (simp add: top_bit.simps)
    ultimately show ?thesis by simp linarith
  qed
qed

lemma top_bit_less:
  assumes "0 < m" and "m < 2 ^ n"
  shows "top_bit m < n"
proof -
  have "(2::nat) ^ top_bit m < 2 ^ n" using top_bit_bounds [OF assms(1)] assms(2) by linarith
  then show ?thesis by simp
qed

lemma top_bit_mono:
  assumes "0 < a" and "a \<le> b"
  shows "top_bit a \<le> top_bit b"
proof -
  have "(2::nat) ^ top_bit a < 2 ^ Suc (top_bit b)"
    using top_bit_bounds [of a] top_bit_bounds [of b] assms by linarith
  then have "top_bit a < Suc (top_bit b)" by (rule power_less_imp_less_exp [rotated]) simp
  then show ?thesis by simp
qed

lemma sig_bounds:
  assumes "0 < m" and "top_bit m \<le> 52"
  shows "2 ^ 52 \<le> m * 2 ^ (52 - top_bit m)" and "m * 2 ^ (52 - top_bit m) < 2 ^ 53"
proof -
  let ?k = "top_bit m"
  have p: "(2::nat) ^ ?k * 2 ^ (52 - ?k) = 2 ^ 52"
    using assms(2) by (simp flip: power_add)
  have b: "2 ^ ?k \<le> m" "m < 2 * 2 ^ ?k" using top_bit_bounds [OF assms(1)] by simp_all
  from b(1) have "2 ^ ?k * 2 ^ (52 - ?k) \<le> m * 2 ^ (52 - ?k)" by (rule mult_le_mono1)
  then show "2 ^ 52 \<le> m * 2 ^ (52 - ?k)" by (simp only: p)
  from b(2) have "m * 2 ^ (52 - ?k) < 2 * 2 ^ ?k * 2 ^ (52 - ?k)" by simp
  also have "\<dots> = 2 * 2 ^ 52" by (simp only: p mult.assoc)
  finally show "m * 2 ^ (52 - ?k) < 2 ^ 53" by simp
qed

lemma f64_nat_bits_strict_mono:
  assumes "a < b" and "b < 2 ^ 53"
  shows "f64_nat_bits a < f64_nat_bits b"
proof (cases "a = 0")
  case True
  with assms show ?thesis by (simp add: f64_nat_bits_def Let_def)
next
  case False
  let ?j = "top_bit a" and ?k = "top_bit b"
  have k: "?k \<le> 52" using top_bit_less [of b 53] assms by simp
  have j: "?j \<le> ?k" using top_bit_mono [of a b] False assms(1) by simp
  have sa: "a * 2 ^ (52 - ?j) < 2 ^ 53" using sig_bounds(2) [of a] False j k by simp
  have sb: "2 ^ 52 \<le> b * 2 ^ (52 - ?k)" using sig_bounds(1) [of b] assms(1) k by simp
  have "(?j + 1022) * 2 ^ 52 + a * 2 ^ (52 - ?j) < (?k + 1022) * 2 ^ 52 + b * 2 ^ (52 - ?k)"
  proof (cases "?j = ?k")
    case True
    with assms(1) show ?thesis by simp
  next
    case False
    with j have "Suc ?j \<le> ?k" by simp
    then have "(Suc ?j + 1022) * 2 ^ 52 \<le> (?k + 1022) * 2 ^ 52" by (intro mult_le_mono1) simp
    with sa sb show ?thesis by simp
  qed
  with False assms(1) j k show ?thesis by (simp add: f64_nat_bits_def Let_def)
qed

lemma f64_nat_bits_bound: "m < 2 ^ 53 \<Longrightarrow> f64_nat_bits m < 2047 * 2 ^ 52"
proof -
  assume "m < 2 ^ 53"
  show ?thesis
  proof (cases "m = 0")
    case True
    then show ?thesis by (simp add: f64_nat_bits_def)
  next
    case False
    have k: "top_bit m \<le> 52" using top_bit_less [of m 53] False \<open>m < 2 ^ 53\<close> by simp
    have "m * 2 ^ (52 - top_bit m) < 2 ^ 53" using sig_bounds(2) [of m] False k by simp
    moreover have "(top_bit m + 1022) * 2 ^ 52 \<le> 1074 * 2 ^ 52" using k by (intro mult_le_mono1) simp
    ultimately show ?thesis using False k by (simp add: f64_nat_bits_def Let_def)
  qed
qed

lemma f64_of_int_exact:
  assumes "\<bar>i\<bar> < 2 ^ 53"
  shows "\<not> f64_is_nan (f64_of_int i)"
    and "f64_key (f64_of_int i) = sgn i * int (f64_nat_bits (nat \<bar>i\<bar>))"
proof -
  have "nat \<bar>i\<bar> < 2 ^ 53" using assms by simp
  then have b: "f64_nat_bits (nat \<bar>i\<bar>) < 2047 * 2 ^ 52" by (rule f64_nat_bits_bound)
  have z: "f64_nat_bits 0 = 0" by (simp add: f64_nat_bits_def)
  have u: "unat (f64_of_int i) = (if i < 0 then 2 ^ 63 else 0) + f64_nat_bits (nat \<bar>i\<bar>)"
  proof -
    have w: "unat (word_of_nat n :: float64) = n" if "n < 2 ^ 64" for n
      using that by (simp add: unat_of_nat)
    show ?thesis using b w [of "2 ^ 63 + f64_nat_bits (nat (- i))"] w [of "f64_nat_bits (nat i)"]
      by (cases "i < 0") (simp_all add: f64_of_int_def)
  qed
  then have m: "f64_mag (f64_of_int i) = f64_nat_bits (nat \<bar>i\<bar>)"
    using b by (cases "i < 0") (simp_all add: f64_mag_def)
  with b show "\<not> f64_is_nan (f64_of_int i)" by (simp add: f64_is_nan_def)
  have "f64_neg (f64_of_int i) \<longleftrightarrow> i < 0" using u b by (auto simp: f64_neg_def)
  with m z show "f64_key (f64_of_int i) = sgn i * int (f64_nat_bits (nat \<bar>i\<bar>))"
    by (auto simp: f64_key_def sgn_if)
qed

lemma f64_less_of_int:
  assumes "\<bar>i\<bar> < 2 ^ 53" and "\<bar>j\<bar> < 2 ^ 53"
  shows "f64_less (f64_of_int i) (f64_of_int j) \<longleftrightarrow> i < j"
proof -
  have z: "f64_nat_bits 0 = 0" by (simp add: f64_nat_bits_def)
  have pos: "0 < n \<Longrightarrow> n < 2 ^ 53 \<Longrightarrow> 0 < f64_nat_bits n" for n
    using f64_nat_bits_strict_mono [of 0 n] z by simp
  have mono: "f64_nat_bits a < f64_nat_bits b \<longleftrightarrow> a < b" if "a < 2 ^ 53" "b < 2 ^ 53" for a b
    using f64_nat_bits_strict_mono that by (metis less_asym linorder_neqE_nat)
  define a where "a = nat \<bar>i\<bar>"
  define b where "b = nat \<bar>j\<bar>"
  have ab: "a < 2 ^ 53" "b < 2 ^ 53" using assms by (simp_all add: a_def b_def)
  have "sgn i * int (f64_nat_bits a) < sgn j * int (f64_nat_bits b) \<longleftrightarrow> i < j"
  proof (cases "i = 0 \<or> j = 0")
    case True
    then show ?thesis using pos [OF _ ab(1)] pos [OF _ ab(2)] z
      by (auto simp: a_def b_def sgn_if)
  next
    case False
    then have "0 < f64_nat_bits a" "0 < f64_nat_bits b"
      using pos [OF _ ab(1)] pos [OF _ ab(2)] by (auto simp: a_def b_def)
    then show ?thesis using False mono [OF ab] mono [OF ab(2,1)]
      by (auto simp: a_def b_def sgn_if)
  qed
  then show ?thesis using assms by (simp add: f64_less_def f64_of_int_exact a_def b_def)
qed

lemma f64_less_irrefl: "\<not> f64_less a a"
  by (simp add: f64_less_def)

lemma f64_less_trans: "f64_less a b \<Longrightarrow> f64_less b c \<Longrightarrow> f64_less a c"
  by (auto simp: f64_less_def)

lemma f64_nan_unordered: "f64_is_nan a \<Longrightarrow> \<not> f64_less a b \<and> \<not> f64_less b a"
  by (simp add: f64_less_def)

end
