(* ===== verification/Secs2_Item.thy ===== *)
theory Secs2_Item
  imports Go_Float
begin

text \<open>
  SECS-II items (\<^verbatim>\<open>pkg/message/secs2/format.go\<close>, \<^verbatim>\<open>item.go\<close>). A Go \<^verbatim>\<open>interface{}\<close> holds one of
  the dynamic types the program stores in it; \<^verbatim>\<open>*Item\<close> is an option, \<open>None\<close> for nil, and every
  method of a nil item that reads a field panics.
\<close>

section \<open>Formats\<close>

type_synonym Format = byte

definition FormatList :: Format where "FormatList = 0x00"
definition FormatBinary :: Format where "FormatBinary = 0x20"
definition FormatBoolean :: Format where "FormatBoolean = 0x24"
definition FormatASCII :: Format where "FormatASCII = 0x40"
definition FormatJIS8 :: Format where "FormatJIS8 = 0x44"
definition FormatI8 :: Format where "FormatI8 = 0x60"
definition FormatI1 :: Format where "FormatI1 = 0x64"
definition FormatI2 :: Format where "FormatI2 = 0x68"
definition FormatI4 :: Format where "FormatI4 = 0x70"
definition FormatF8 :: Format where "FormatF8 = 0x80"
definition FormatF4 :: Format where "FormatF4 = 0x90"
definition FormatU8 :: Format where "FormatU8 = 0xA0"
definition FormatU1 :: Format where "FormatU1 = 0xA4"
definition FormatU2 :: Format where "FormatU2 = 0xA8"
definition FormatU4 :: Format where "FormatU4 = 0xB0"

lemmas format_defs = FormatList_def FormatBinary_def FormatBoolean_def FormatASCII_def
  FormatJIS8_def FormatI8_def FormatI1_def FormatI2_def FormatI4_def FormatF8_def FormatF4_def
  FormatU8_def FormatU1_def FormatU2_def FormatU4_def

definition formatMask :: byte where "formatMask = 0xFC"
definition lengthBitsMask :: byte where "lengthBitsMask = 0x03"

definition Format_String :: "Format \<Rightarrow> string" where
  "Format_String f =
     (if f = FormatList then ''L''
      else if f = FormatBinary then ''B''
      else if f = FormatBoolean then ''BOOLEAN''
      else if f = FormatASCII then ''A''
      else if f = FormatJIS8 then ''J''
      else if f = FormatI8 then ''I8''
      else if f = FormatI1 then ''I1''
      else if f = FormatI2 then ''I2''
      else if f = FormatI4 then ''I4''
      else if f = FormatF8 then ''F8''
      else if f = FormatF4 then ''F4''
      else if f = FormatU8 then ''U8''
      else if f = FormatU1 then ''U1''
      else if f = FormatU2 then ''U2''
      else if f = FormatU4 then ''U4''
      else ''UNKNOWN'')"

definition itemSize :: "Format \<Rightarrow> nat" where
  "itemSize f =
     (if f \<in> {FormatBoolean, FormatBinary, FormatI1, FormatU1} then 1
      else if f \<in> {FormatI2, FormatU2} then 2
      else if f \<in> {FormatI4, FormatU4, FormatF4} then 4
      else if f \<in> {FormatI8, FormatU8, FormatF8} then 8
      else 0)"

section \<open>Items\<close>

text \<open>
  \<open>VNilItem\<close> is a nil \<^verbatim>\<open>*Item\<close> inside an interface (the interface itself is not nil), \<open>VNil\<close>
  the nil interface. \<open>VOther t s\<close> is any other dynamic type \<open>t\<close>, which the program only prints
  with \<^verbatim>\<open>%v\<close>, as \<open>s\<close>. Signed integers are words read as two's complement.
\<close>

datatype Item = MkItem (it_format: Format) (it_values: "goval list")
and goval =
    VNil
  | VItem Item
  | VNilItem
  | VString string
  | VBytes "byte list"
  | VBool bool
  | VInt uint64
  | VInt8 byte
  | VInt16 uint16
  | VInt32 uint32
  | VInt64 uint64
  | VUint uint64
  | VUint8 byte
  | VUint16 uint16
  | VUint32 uint32
  | VUint64 uint64
  | VFloat32 float32
  | VFloat64 float64
  | VOther string string

type_synonym item_ptr = "Item option"

definition ptr_val :: "item_ptr \<Rightarrow> goval" where
  "ptr_val p = (case p of None \<Rightarrow> VNilItem | Some it \<Rightarrow> VItem it)"

datatype secs2_error =
    ErrNilItem
  | ErrUnsupportedFormat Format
  | ErrDataTooLong nat
  | ErrNotItem nat
  | ErrListElement nat secs2_error
  | ErrWrongFormat Format string
  | ErrTooManyValues Format nat
  | ErrNaNOrInf Format nat
  | ErrTrailing nat nat
  | ErrUnexpectedEnd nat
  | ErrZeroLengthBytes nat
  | ErrLengthBytes nat
  | ErrNotEnoughData Format
  | ErrNotMultiple Format nat
  | ErrAtOffset nat secs2_error
  | ErrInvalidBody

subsection \<open>Constructors\<close>

definition NewList :: "item_ptr list \<Rightarrow> Item" where
  "NewList items = MkItem FormatList (map ptr_val items)"

definition NewASCII :: "string \<Rightarrow> Item" where
  "NewASCII s = MkItem FormatASCII [VString s]"

definition NewBinary :: "byte list \<Rightarrow> Item" where
  "NewBinary data = MkItem FormatBinary [VBytes data]"

definition NewBoolean :: "bool list \<Rightarrow> Item" where
  "NewBoolean vals = MkItem FormatBoolean (map VBool vals)"

definition NewI1 :: "byte list \<Rightarrow> Item" where
  "NewI1 vals = MkItem FormatI1 (map VInt8 vals)"

definition NewI2 :: "uint16 list \<Rightarrow> Item" where
  "NewI2 vals = MkItem FormatI2 (map VInt16 vals)"

definition NewI4 :: "uint32 list \<Rightarrow> Item" where
  "NewI4 vals = MkItem FormatI4 (map VInt32 vals)"

definition NewI8 :: "uint64 list \<Rightarrow> Item" where
  "NewI8 vals = MkItem FormatI8 (map VInt64 vals)"

definition NewU1 :: "byte list \<Rightarrow> Item" where
  "NewU1 vals = MkItem FormatU1 (map VUint8 vals)"

definition NewU2 :: "uint16 list \<Rightarrow> Item" where
  "NewU2 vals = MkItem FormatU2 (map VUint16 vals)"

definition NewU4 :: "uint32 list \<Rightarrow> Item" where
  "NewU4 vals = MkItem FormatU4 (map VUint32 vals)"

definition NewU8 :: "uint64 list \<Rightarrow> Item" where
  "NewU8 vals = MkItem FormatU8 (map VUint64 vals)"

definition NewF4 :: "float32 list \<Rightarrow> Item" where
  "NewF4 vals = MkItem FormatF4 (map VFloat32 vals)"

definition NewF8 :: "float64 list \<Rightarrow> Item" where
  "NewF8 vals = MkItem FormatF8 (map VFloat64 vals)"

lemmas new_item_defs = NewList_def NewASCII_def NewBinary_def NewBoolean_def NewI1_def NewI2_def
  NewI4_def NewI8_def NewU1_def NewU2_def NewU4_def NewU8_def NewF4_def NewF8_def

subsection \<open>Type assertions\<close>

text \<open>\<^verbatim>\<open>v.(T)\<close>: \<open>None\<close> where the assertion fails.\<close>

fun as_item_ptr :: "goval \<Rightarrow> item_ptr option" where
  "as_item_ptr (VItem it) = Some (Some it)"
| "as_item_ptr VNilItem = Some None"
| "as_item_ptr _ = None"

fun as_string :: "goval \<Rightarrow> string option" where
  "as_string (VString s) = Some s"
| "as_string _ = None"

fun as_bytes :: "goval \<Rightarrow> byte list option" where
  "as_bytes (VBytes b) = Some b"
| "as_bytes _ = None"

fun as_bool :: "goval \<Rightarrow> bool option" where
  "as_bool (VBool b) = Some b"
| "as_bool _ = None"

fun as_float32 :: "goval \<Rightarrow> float32 option" where
  "as_float32 (VFloat32 w) = Some w"
| "as_float32 _ = None"

fun as_float64 :: "goval \<Rightarrow> float64 option" where
  "as_float64 (VFloat64 w) = Some w"
| "as_float64 _ = None"

text \<open>An unchecked assertion panics, here over a whole slice.\<close>

definition assert_all :: "(goval \<Rightarrow> 'a option) \<Rightarrow> goval list \<Rightarrow> ('e, 'a list) res" where
  "assert_all cast vs = (case those (map cast vs) of None \<Rightarrow> Panic | Some xs \<Rightarrow> OK xs)"

subsection \<open>Accessors\<close>

fun Item_Format :: "item_ptr \<Rightarrow> (secs2_error, Format) res" where
  "Item_Format None = Panic"
| "Item_Format (Some (MkItem f vs)) = OK f"

fun Len :: "item_ptr \<Rightarrow> (secs2_error, nat) res" where
  "Len None = Panic"
| "Len (Some (MkItem f vs)) =
     (if f = FormatASCII then
        (case vs of [] \<Rightarrow> OK 0
         | v # _ \<Rightarrow> (case as_string v of None \<Rightarrow> Panic | Some s \<Rightarrow> OK (length s)))
      else if f = FormatBinary then
        (case vs of [] \<Rightarrow> OK 0
         | v # _ \<Rightarrow> (case as_bytes v of None \<Rightarrow> Panic | Some b \<Rightarrow> OK (length b)))
      else OK (length vs))"

fun Items :: "item_ptr \<Rightarrow> (secs2_error, item_ptr list) res" where
  "Items None = Panic"
| "Items (Some (MkItem f vs)) = (if f \<noteq> FormatList then OK [] else assert_all as_item_ptr vs)"

fun ItemAt :: "item_ptr \<Rightarrow> int \<Rightarrow> (secs2_error, item_ptr) res" where
  "ItemAt None i = Panic"
| "ItemAt (Some (MkItem f vs)) i =
     (if f \<noteq> FormatList \<or> i < 0 \<or> int (length vs) \<le> i then OK None
      else (case as_item_ptr (vs ! nat i) of None \<Rightarrow> Panic | Some p \<Rightarrow> OK p))"

fun ToASCII :: "item_ptr \<Rightarrow> (secs2_error, string) res" where
  "ToASCII None = Panic"
| "ToASCII (Some (MkItem f vs)) =
     (if f \<noteq> FormatASCII then Err (ErrWrongFormat f ''ASCII'')
      else (case vs of [] \<Rightarrow> OK []
            | v # _ \<Rightarrow> (case as_string v of None \<Rightarrow> Panic | Some s \<Rightarrow> OK s)))"

fun ToBinary :: "item_ptr \<Rightarrow> (secs2_error, byte list) res" where
  "ToBinary None = Panic"
| "ToBinary (Some (MkItem f vs)) =
     (if f \<noteq> FormatBinary then Err (ErrWrongFormat f ''Binary'')
      else (case vs of [] \<Rightarrow> OK []
            | v # _ \<Rightarrow> (case as_bytes v of None \<Rightarrow> Panic | Some b \<Rightarrow> OK b)))"

fun ToBooleans :: "item_ptr \<Rightarrow> (secs2_error, bool list) res" where
  "ToBooleans None = Panic"
| "ToBooleans (Some (MkItem f vs)) =
     (if f \<noteq> FormatBoolean then Err (ErrWrongFormat f ''Boolean'') else assert_all as_bool vs)"

text \<open>The type switches of \<^verbatim>\<open>ToUint64s\<close>, \<^verbatim>\<open>ToInt64s\<close> and \<^verbatim>\<open>ToFloat64s\<close>: they look at the
  dynamic types only, never at the format.\<close>

fun to_uint64 :: "goval \<Rightarrow> uint64 option" where
  "to_uint64 (VUint8 n) = Some (ucast n)"
| "to_uint64 (VUint16 n) = Some (ucast n)"
| "to_uint64 (VUint32 n) = Some (ucast n)"
| "to_uint64 (VUint64 n) = Some n"
| "to_uint64 _ = None"

fun to_int64 :: "goval \<Rightarrow> uint64 option" where
  "to_int64 (VInt8 n) = Some (scast n)"
| "to_int64 (VInt16 n) = Some (scast n)"
| "to_int64 (VInt32 n) = Some (scast n)"
| "to_int64 (VInt64 n) = Some n"
| "to_int64 _ = None"

fun to_float64 :: "goval \<Rightarrow> float64 option" where
  "to_float64 (VFloat32 w) = Some (f32_to_f64 w)"
| "to_float64 (VFloat64 w) = Some w"
| "to_float64 _ = None"

definition switch_all ::
  "(goval \<Rightarrow> 'a option) \<Rightarrow> string \<Rightarrow> Format \<Rightarrow> goval list \<Rightarrow> (secs2_error, 'a list) res" where
  "switch_all cast wanted f vs =
     (case those (map cast vs) of None \<Rightarrow> Err (ErrWrongFormat f wanted) | Some xs \<Rightarrow> OK xs)"

fun ToUint64s :: "item_ptr \<Rightarrow> (secs2_error, uint64 list) res" where
  "ToUint64s None = Panic"
| "ToUint64s (Some (MkItem f vs)) = switch_all to_uint64 ''unsigned integer'' f vs"

fun ToInt64s :: "item_ptr \<Rightarrow> (secs2_error, uint64 list) res" where
  "ToInt64s None = Panic"
| "ToInt64s (Some (MkItem f vs)) = switch_all to_int64 ''signed integer'' f vs"

fun ToFloat64s :: "item_ptr \<Rightarrow> (secs2_error, float64 list) res" where
  "ToFloat64s None = Panic"
| "ToFloat64s (Some (MkItem f vs)) = switch_all to_float64 ''float'' f vs"

subsection \<open>Validation\<close>

text \<open>The float loops: the first element that is NaN or infinite is reported; a value of
  another type fails the assertion.\<close>

fun check_floats :: "(goval \<Rightarrow> float64 option) \<Rightarrow> Format \<Rightarrow> nat \<Rightarrow> goval list \<Rightarrow>
    (secs2_error, unit) res" where
  "check_floats cast f i [] = OK ()"
| "check_floats cast f i (v # vs) =
     (case cast v of None \<Rightarrow> Panic
      | Some w \<Rightarrow> if f64_is_nan w \<or> f64_is_inf w then Err (ErrNaNOrInf f i)
                  else check_floats cast f (Suc i) vs)"

definition check_single :: "Format \<Rightarrow> goval list \<Rightarrow> (secs2_error, unit) res" where
  "check_single f vs = (if 1 < length vs then Err (ErrTooManyValues f (length vs)) else OK ())"

fun Validate_item :: "Item \<Rightarrow> (secs2_error, unit) res"
and Validate_elements :: "nat \<Rightarrow> goval list \<Rightarrow> (secs2_error, unit) res" where
  "Validate_item (MkItem f vs) =
     (if f = FormatList then Validate_elements 0 vs
      else if f = FormatASCII then check_single f vs
      else if f = FormatBinary then check_single f vs
      else if f = FormatF4 then check_floats (\<lambda>v. map_option f32_to_f64 (as_float32 v)) f 0 vs
      else if f = FormatF8 then check_floats as_float64 f 0 vs
      else OK ())"
| "Validate_elements i [] = OK ()"
| "Validate_elements i (v # vs) =
     (case v of
        VItem it \<Rightarrow> bind_res (map_err (ErrListElement i) (Validate_item it))
                      (\<lambda>_. Validate_elements (Suc i) vs)
      | VNilItem \<Rightarrow> Err (ErrListElement i ErrNilItem)
      | _ \<Rightarrow> Err (ErrNotItem i))"

definition Validate :: "item_ptr \<Rightarrow> (secs2_error, unit) res" where
  "Validate p = (case p of None \<Rightarrow> Err ErrNilItem | Some it \<Rightarrow> Validate_item it)"

section \<open>Well-formed items\<close>

text \<open>
  The shapes the constructors and the decoder build: the dynamic types agree with the format
  all the way down, and there is no nil child. Every length fits the 24-bit length field.
\<close>

fun elem_ok :: "Format \<Rightarrow> goval \<Rightarrow> bool" where
  "elem_ok f (VBool _) \<longleftrightarrow> f = FormatBoolean"
| "elem_ok f (VInt8 _) \<longleftrightarrow> f = FormatI1"
| "elem_ok f (VInt16 _) \<longleftrightarrow> f = FormatI2"
| "elem_ok f (VInt32 _) \<longleftrightarrow> f = FormatI4"
| "elem_ok f (VInt64 _) \<longleftrightarrow> f = FormatI8"
| "elem_ok f (VUint8 _) \<longleftrightarrow> f = FormatU1"
| "elem_ok f (VUint16 _) \<longleftrightarrow> f = FormatU2"
| "elem_ok f (VUint32 _) \<longleftrightarrow> f = FormatU4"
| "elem_ok f (VUint64 _) \<longleftrightarrow> f = FormatU8"
| "elem_ok f (VFloat32 _) \<longleftrightarrow> f = FormatF4"
| "elem_ok f (VFloat64 _) \<longleftrightarrow> f = FormatF8"
| "elem_ok f _ \<longleftrightarrow> False"

definition numeric_formats :: "Format list" where
  "numeric_formats = [FormatBoolean, FormatI1, FormatI2, FormatI4, FormatI8, FormatU1, FormatU2,
     FormatU4, FormatU8, FormatF4, FormatF8]"

definition max_len :: nat where "max_len = 0xFFFFFF"

fun wf_item :: "Item \<Rightarrow> bool"
and wf_child :: "goval \<Rightarrow> bool" where
  "wf_item (MkItem f vs) \<longleftrightarrow>
     (if f = FormatList then length vs \<le> max_len \<and> (\<forall>v \<in> set vs. wf_child v)
      else if f = FormatASCII then
        (case vs of [] \<Rightarrow> True | [VString s] \<Rightarrow> length s \<le> max_len | _ \<Rightarrow> False)
      else if f = FormatBinary then
        (case vs of [] \<Rightarrow> True | [VBytes b] \<Rightarrow> length b \<le> max_len | _ \<Rightarrow> False)
      else f \<in> set numeric_formats \<and> length vs * itemSize f \<le> max_len \<and>
        (\<forall>v \<in> set vs. elem_ok f v))"
| "wf_child (VItem it) \<longleftrightarrow> wf_item it"
| "wf_child _ \<longleftrightarrow> False"

text \<open>
  The two spellings of an empty string and of empty bytes (no value, or one empty value)
  are one value for every accessor; \<open>norm_item\<close> chooses the one the decoder builds.
\<close>

fun norm_item :: "Item \<Rightarrow> Item"
and norm_child :: "goval \<Rightarrow> goval" where
  "norm_item (MkItem f vs) =
     (if f = FormatList then MkItem f (map norm_child vs)
      else if f = FormatASCII \<and> vs = [VString []] then MkItem f []
      else if f = FormatBinary \<and> vs = [VBytes []] then MkItem f []
      else MkItem f vs)"
| "norm_child (VItem it) = VItem (norm_item it)"
| "norm_child v = v"

end
