(* ===== verification/Secs2_Codec.thy ===== *)
theory Secs2_Codec
  imports Secs2_Item
begin

text \<open>
  The SECS-II codec (\<^verbatim>\<open>pkg/message/secs2/encode.go\<close>, \<^verbatim>\<open>decode.go\<close>, \<^verbatim>\<open>codec.go\<close>): the encoder, the
  offset-driven decoder with its termination proof, and the facts about both that need no
  round trip: the encoder only appends, it cannot panic on a well-formed item, the decoder
  stays inside its input and makes progress.
\<close>

section \<open>Encoding\<close>

definition encodeHeader :: "byte list \<Rightarrow> Format \<Rightarrow> nat \<Rightarrow> (secs2_error, byte list) res" where
  "encodeHeader buf format dataLen =
     (if 0xFFFFFF < dataLen then Err (ErrDataTooLong dataLen)
      else
        let numLenBytes = (if dataLen \<le> 0xFF then 1 else if dataLen \<le> 0xFFFF then 2 else 3);
            formatByte = format OR numLenBytes;
            buf = buf @ [formatByte]
        in OK (buf @
             (if numLenBytes = 3 then
                [word_of_nat (drop_bit 16 dataLen), word_of_nat (drop_bit 8 dataLen),
                 word_of_nat dataLen]
              else if numLenBytes = 2 then
                [word_of_nat (drop_bit 8 dataLen), word_of_nat dataLen]
              else [word_of_nat dataLen])))"

text \<open>The element loops: each element is asserted to its type, then appended.\<close>

fun append_elems ::
  "(goval \<Rightarrow> byte list option) \<Rightarrow> goval list \<Rightarrow> byte list \<Rightarrow> (secs2_error, byte list) res" where
  "append_elems enc [] buf = OK buf"
| "append_elems enc (v # vs) buf =
     (case enc v of None \<Rightarrow> Panic | Some bs \<Rightarrow> append_elems enc vs (buf @ bs))"

fun enc_bool :: "goval \<Rightarrow> byte list option" where
  "enc_bool (VBool b) = Some [if b then 1 else 0]"
| "enc_bool _ = None"

fun enc_i1 :: "goval \<Rightarrow> byte list option" where
  "enc_i1 (VInt8 n) = Some [n]"
| "enc_i1 _ = None"

fun enc_i2 :: "goval \<Rightarrow> byte list option" where
  "enc_i2 (VInt16 n) = Some (be_put 2 n)"
| "enc_i2 _ = None"

fun enc_i4 :: "goval \<Rightarrow> byte list option" where
  "enc_i4 (VInt32 n) = Some (be_put 4 n)"
| "enc_i4 _ = None"

fun enc_i8 :: "goval \<Rightarrow> byte list option" where
  "enc_i8 (VInt64 n) = Some (be_put 8 n)"
| "enc_i8 _ = None"

fun enc_u1 :: "goval \<Rightarrow> byte list option" where
  "enc_u1 (VUint8 n) = Some [n]"
| "enc_u1 _ = None"

fun enc_u2 :: "goval \<Rightarrow> byte list option" where
  "enc_u2 (VUint16 n) = Some (be_put 2 n)"
| "enc_u2 _ = None"

fun enc_u4 :: "goval \<Rightarrow> byte list option" where
  "enc_u4 (VUint32 n) = Some (be_put 4 n)"
| "enc_u4 _ = None"

fun enc_u8 :: "goval \<Rightarrow> byte list option" where
  "enc_u8 (VUint64 n) = Some (be_put 8 n)"
| "enc_u8 _ = None"

fun enc_f4 :: "goval \<Rightarrow> byte list option" where
  "enc_f4 (VFloat32 w) = Some (be_put 4 w)"
| "enc_f4 _ = None"

fun enc_f8 :: "goval \<Rightarrow> byte list option" where
  "enc_f8 (VFloat64 w) = Some (be_put 8 w)"
| "enc_f8 _ = None"

definition encodeASCII :: "goval list \<Rightarrow> byte list \<Rightarrow> (secs2_error, byte list) res" where
  "encodeASCII vs buf =
     (case (case vs of [] \<Rightarrow> Some [] | v # _ \<Rightarrow> as_string v) of
        None \<Rightarrow> Panic
      | Some s \<Rightarrow> bind_res (encodeHeader buf FormatASCII (length s))
                    (\<lambda>buf. OK (buf @ bytes_of_string s)))"

definition encodeBinary :: "goval list \<Rightarrow> byte list \<Rightarrow> (secs2_error, byte list) res" where
  "encodeBinary vs buf =
     (case (case vs of [] \<Rightarrow> Some [] | v # _ \<Rightarrow> as_bytes v) of
        None \<Rightarrow> Panic
      | Some data \<Rightarrow> bind_res (encodeHeader buf FormatBinary (length data))
                       (\<lambda>buf. OK (buf @ data)))"

definition encodeBoolean :: "goval list \<Rightarrow> byte list \<Rightarrow> (secs2_error, byte list) res" where
  "encodeBoolean vs buf =
     bind_res (encodeHeader buf FormatBoolean (length vs)) (append_elems enc_bool vs)"

definition encodeI1 :: "goval list \<Rightarrow> byte list \<Rightarrow> (secs2_error, byte list) res" where
  "encodeI1 vs buf = bind_res (encodeHeader buf FormatI1 (length vs)) (append_elems enc_i1 vs)"

definition encodeI2 :: "goval list \<Rightarrow> byte list \<Rightarrow> (secs2_error, byte list) res" where
  "encodeI2 vs buf = bind_res (encodeHeader buf FormatI2 (length vs * 2)) (append_elems enc_i2 vs)"

definition encodeI4 :: "goval list \<Rightarrow> byte list \<Rightarrow> (secs2_error, byte list) res" where
  "encodeI4 vs buf = bind_res (encodeHeader buf FormatI4 (length vs * 4)) (append_elems enc_i4 vs)"

definition encodeI8 :: "goval list \<Rightarrow> byte list \<Rightarrow> (secs2_error, byte list) res" where
  "encodeI8 vs buf = bind_res (encodeHeader buf FormatI8 (length vs * 8)) (append_elems enc_i8 vs)"

definition encodeU1 :: "goval list \<Rightarrow> byte list \<Rightarrow> (secs2_error, byte list) res" where
  "encodeU1 vs buf = bind_res (encodeHeader buf FormatU1 (length vs)) (append_elems enc_u1 vs)"

definition encodeU2 :: "goval list \<Rightarrow> byte list \<Rightarrow> (secs2_error, byte list) res" where
  "encodeU2 vs buf = bind_res (encodeHeader buf FormatU2 (length vs * 2)) (append_elems enc_u2 vs)"

definition encodeU4 :: "goval list \<Rightarrow> byte list \<Rightarrow> (secs2_error, byte list) res" where
  "encodeU4 vs buf = bind_res (encodeHeader buf FormatU4 (length vs * 4)) (append_elems enc_u4 vs)"

definition encodeU8 :: "goval list \<Rightarrow> byte list \<Rightarrow> (secs2_error, byte list) res" where
  "encodeU8 vs buf = bind_res (encodeHeader buf FormatU8 (length vs * 8)) (append_elems enc_u8 vs)"

definition encodeF4 :: "goval list \<Rightarrow> byte list \<Rightarrow> (secs2_error, byte list) res" where
  "encodeF4 vs buf = bind_res (encodeHeader buf FormatF4 (length vs * 4)) (append_elems enc_f4 vs)"

definition encodeF8 :: "goval list \<Rightarrow> byte list \<Rightarrow> (secs2_error, byte list) res" where
  "encodeF8 vs buf = bind_res (encodeHeader buf FormatF8 (length vs * 8)) (append_elems enc_f8 vs)"

text \<open>\<^verbatim>\<open>encodeItem\<close> and the loop of \<^verbatim>\<open>encodeList\<close>. A nil child passes the checked assertion
  \<^verbatim>\<open>v.(*Item)\<close> and the recursive call dereferences it.\<close>

fun encodeItem :: "Item \<Rightarrow> byte list \<Rightarrow> (secs2_error, byte list) res"
and encodeElements :: "nat \<Rightarrow> goval list \<Rightarrow> byte list \<Rightarrow> (secs2_error, byte list) res" where
  "encodeItem (MkItem f vs) buf =
     (if f = FormatList then
        bind_res (encodeHeader buf FormatList (length vs)) (\<lambda>buf. encodeElements 0 vs buf)
      else if f = FormatASCII then encodeASCII vs buf
      else if f = FormatBinary then encodeBinary vs buf
      else if f = FormatBoolean then encodeBoolean vs buf
      else if f = FormatI1 then encodeI1 vs buf
      else if f = FormatI2 then encodeI2 vs buf
      else if f = FormatI4 then encodeI4 vs buf
      else if f = FormatI8 then encodeI8 vs buf
      else if f = FormatU1 then encodeU1 vs buf
      else if f = FormatU2 then encodeU2 vs buf
      else if f = FormatU4 then encodeU4 vs buf
      else if f = FormatU8 then encodeU8 vs buf
      else if f = FormatF4 then encodeF4 vs buf
      else if f = FormatF8 then encodeF8 vs buf
      else Err (ErrUnsupportedFormat f))"
| "encodeElements i [] buf = OK buf"
| "encodeElements i (v # vs) buf =
     (case v of
        VItem child \<Rightarrow> bind_res (map_err (ErrListElement i) (encodeItem child buf))
                         (\<lambda>buf. encodeElements (Suc i) vs buf)
      | VNilItem \<Rightarrow> Panic
      | _ \<Rightarrow> Err (ErrNotItem i))"

definition Encode :: "item_ptr \<Rightarrow> (secs2_error, byte list) res" where
  "Encode p = (case p of None \<Rightarrow> Err ErrNilItem | Some item \<Rightarrow> encodeItem item [])"

definition Codec_Encode :: "goval \<Rightarrow> (secs2_error, byte list) res" where
  "Codec_Encode body =
     (case as_item_ptr body of None \<Rightarrow> Err ErrInvalidBody | Some item \<Rightarrow> Encode item)"

section \<open>Decoding\<close>

text \<open>The format byte and the length bytes, up to the dispatch on the format. The result is
  the format, the offset of the payload and the length field.\<close>

definition decode_prefix :: "byte list \<Rightarrow> nat \<Rightarrow> (secs2_error, Format \<times> nat \<times> nat) res" where
  "decode_prefix data offset =
     (if length data \<le> offset then Err (ErrUnexpectedEnd offset)
      else
        let formatByte = data ! offset;
            format = formatByte AND formatMask;
            numLenBytes = unat (formatByte AND lengthBitsMask);
            offset = offset + 1
        in if numLenBytes = 0 then Err (ErrZeroLengthBytes (offset - 1))
           else if length data < offset + numLenBytes then Err (ErrLengthBytes offset)
           else
             let dataLen =
                   (if numLenBytes = 1 then unat (data ! offset)
                    else if numLenBytes = 2 then
                      push_bit 8 (unat (data ! offset)) OR unat (data ! (offset + 1))
                    else if numLenBytes = 3 then
                      push_bit 16 (unat (data ! offset)) OR
                      push_bit 8 (unat (data ! (offset + 1))) OR unat (data ! (offset + 2))
                    else 0)
             in OK (format, offset + numLenBytes, dataLen))"

definition decodeASCII :: "byte list \<Rightarrow> nat \<Rightarrow> nat \<Rightarrow> (secs2_error, Item \<times> nat) res" where
  "decodeASCII data offset dataLen =
     (if length data < offset + dataLen then Err (ErrNotEnoughData FormatASCII)
      else OK (MkItem FormatASCII
                 (if 0 < dataLen then [VString (string_of_bytes (take dataLen (drop offset data)))]
                  else []),
               offset + dataLen))"

definition decodeBinary :: "byte list \<Rightarrow> nat \<Rightarrow> nat \<Rightarrow> (secs2_error, Item \<times> nat) res" where
  "decodeBinary data offset dataLen =
     (if length data < offset + dataLen then Err (ErrNotEnoughData FormatBinary)
      else OK (MkItem FormatBinary
                 (if 0 < dataLen then [VBytes (take dataLen (drop offset data))] else []),
               offset + dataLen))"

text \<open>The numeric decoders are one text at three element sizes; those of one byte do not
  check divisibility.\<close>

definition decode_bytes ::
  "Format \<Rightarrow> (byte \<Rightarrow> goval) \<Rightarrow> byte list \<Rightarrow> nat \<Rightarrow> nat \<Rightarrow> (secs2_error, Item \<times> nat) res" where
  "decode_bytes f conv data offset dataLen =
     (if length data < offset + dataLen then Err (ErrNotEnoughData f)
      else OK (MkItem f (map (\<lambda>i. conv (data ! (offset + i))) [0..<dataLen]), offset + dataLen))"

definition decode_words ::
  "nat \<Rightarrow> Format \<Rightarrow> (byte list \<Rightarrow> goval) \<Rightarrow> byte list \<Rightarrow> nat \<Rightarrow> nat \<Rightarrow>
     (secs2_error, Item \<times> nat) res" where
  "decode_words k f conv data offset dataLen =
     (if dataLen mod k \<noteq> 0 then Err (ErrNotMultiple f dataLen)
      else if length data < offset + dataLen then Err (ErrNotEnoughData f)
      else OK (MkItem f (map (\<lambda>i. conv (drop (offset + i * k) data)) [0..<dataLen div k]),
               offset + dataLen))"

definition decodeBoolean :: "byte list \<Rightarrow> nat \<Rightarrow> nat \<Rightarrow> (secs2_error, Item \<times> nat) res" where
  "decodeBoolean = decode_bytes FormatBoolean (\<lambda>b. VBool (b \<noteq> 0))"

definition decodeI1 :: "byte list \<Rightarrow> nat \<Rightarrow> nat \<Rightarrow> (secs2_error, Item \<times> nat) res" where
  "decodeI1 = decode_bytes FormatI1 VInt8"

definition decodeI2 :: "byte list \<Rightarrow> nat \<Rightarrow> nat \<Rightarrow> (secs2_error, Item \<times> nat) res" where
  "decodeI2 = decode_words 2 FormatI2 (\<lambda>b. VInt16 (be_get 2 b))"

definition decodeI4 :: "byte list \<Rightarrow> nat \<Rightarrow> nat \<Rightarrow> (secs2_error, Item \<times> nat) res" where
  "decodeI4 = decode_words 4 FormatI4 (\<lambda>b. VInt32 (be_get 4 b))"

definition decodeI8 :: "byte list \<Rightarrow> nat \<Rightarrow> nat \<Rightarrow> (secs2_error, Item \<times> nat) res" where
  "decodeI8 = decode_words 8 FormatI8 (\<lambda>b. VInt64 (be_get 8 b))"

definition decodeU1 :: "byte list \<Rightarrow> nat \<Rightarrow> nat \<Rightarrow> (secs2_error, Item \<times> nat) res" where
  "decodeU1 = decode_bytes FormatU1 VUint8"

definition decodeU2 :: "byte list \<Rightarrow> nat \<Rightarrow> nat \<Rightarrow> (secs2_error, Item \<times> nat) res" where
  "decodeU2 = decode_words 2 FormatU2 (\<lambda>b. VUint16 (be_get 2 b))"

definition decodeU4 :: "byte list \<Rightarrow> nat \<Rightarrow> nat \<Rightarrow> (secs2_error, Item \<times> nat) res" where
  "decodeU4 = decode_words 4 FormatU4 (\<lambda>b. VUint32 (be_get 4 b))"

definition decodeU8 :: "byte list \<Rightarrow> nat \<Rightarrow> nat \<Rightarrow> (secs2_error, Item \<times> nat) res" where
  "decodeU8 = decode_words 8 FormatU8 (\<lambda>b. VUint64 (be_get 8 b))"

definition decodeF4 :: "byte list \<Rightarrow> nat \<Rightarrow> nat \<Rightarrow> (secs2_error, Item \<times> nat) res" where
  "decodeF4 = decode_words 4 FormatF4 (\<lambda>b. VFloat32 (be_get 4 b))"

definition decodeF8 :: "byte list \<Rightarrow> nat \<Rightarrow> nat \<Rightarrow> (secs2_error, Item \<times> nat) res" where
  "decodeF8 = decode_words 8 FormatF8 (\<lambda>b. VFloat64 (be_get 8 b))"

text \<open>The branches of the dispatch that do not recurse.\<close>

definition decode_scalar ::
  "Format \<Rightarrow> byte list \<Rightarrow> nat \<Rightarrow> nat \<Rightarrow> (secs2_error, Item \<times> nat) res" where
  "decode_scalar f data offset dataLen =
     (if f = FormatASCII then decodeASCII data offset dataLen
      else if f = FormatBinary then decodeBinary data offset dataLen
      else if f = FormatBoolean then decodeBoolean data offset dataLen
      else if f = FormatI1 then decodeI1 data offset dataLen
      else if f = FormatI2 then decodeI2 data offset dataLen
      else if f = FormatI4 then decodeI4 data offset dataLen
      else if f = FormatI8 then decodeI8 data offset dataLen
      else if f = FormatU1 then decodeU1 data offset dataLen
      else if f = FormatU2 then decodeU2 data offset dataLen
      else if f = FormatU4 then decodeU4 data offset dataLen
      else if f = FormatU8 then decodeU8 data offset dataLen
      else if f = FormatF4 then decodeF4 data offset dataLen
      else if f = FormatF8 then decodeF8 data offset dataLen
      else Err (ErrUnsupportedFormat f))"

lemmas decode_scalar_defs = decodeASCII_def decodeBinary_def decodeBoolean_def decodeI1_def
  decodeI2_def decodeI4_def decodeI8_def decodeU1_def decodeU2_def decodeU4_def decodeU8_def
  decodeF4_def decodeF8_def

text \<open>
  \<^verbatim>\<open>decodeItem\<close> and the loop of \<^verbatim>\<open>decodeList\<close> (element index, elements left). The offset of
  one iteration is the one the previous child returned, so termination rests on the fact
  that a successful child moves the offset forward.
\<close>

function decodeItem :: "byte list \<Rightarrow> nat \<Rightarrow> (secs2_error, Item \<times> nat) res"
and decodeElements :: "byte list \<Rightarrow> nat \<Rightarrow> nat \<Rightarrow> nat \<Rightarrow> (secs2_error, goval list \<times> nat) res" where
  "decodeItem data offset =
     bind_res (decode_prefix data offset) (\<lambda>(format, offset, dataLen).
       if format = FormatList then
         bind_res (decodeElements data offset 0 dataLen) (\<lambda>(items, offset).
           OK (MkItem FormatList items, offset))
       else decode_scalar format data offset dataLen)"
| "decodeElements data offset i 0 = OK ([], offset)"
| "decodeElements data offset i (Suc count) =
     bind_res (map_err (ErrListElement i) (decodeItem data offset)) (\<lambda>(child, offset).
       bind_res (decodeElements data offset (Suc i) count) (\<lambda>(items, offset).
         OK (VItem child # items, offset)))"
  by pat_completeness auto

lemma decode_prefix_OK:
  assumes "decode_prefix data offset = OK (f, off, n)"
  shows "offset < off" and "off \<le> length data"
  using assms by (auto simp: decode_prefix_def Let_def split: if_splits)

lemma decode_scalar_OK:
  assumes "decode_scalar f data offset n = OK (it, off)"
  shows "off = offset + n" and "offset + n \<le> length data" and "it_format it = f"
  using assms
  by (auto simp: decode_scalar_def decode_scalar_defs decode_bytes_def decode_words_def
      split: if_splits)

lemma decode_progress:
  shows "decodeItem_decodeElements_dom (Inl (data, offset)) \<Longrightarrow>
      decodeItem data offset = OK (it, n) \<Longrightarrow> offset < n \<and> n \<le> length data"
    and "decodeItem_decodeElements_dom (Inr (data, off, i, c)) \<Longrightarrow>
      decodeElements data off i c = OK (vs, m) \<Longrightarrow>
      off \<le> m \<and> (off \<le> length data \<longrightarrow> m \<le> length data)"
proof (induction arbitrary: it n and vs m rule: decodeItem_decodeElements.pinduct)
  case (1 data offset)
  then obtain f off k where p: "decode_prefix data offset = OK (f, off, k)"
    by (auto simp: decodeItem.psimps res_simps)
  show ?case
  proof (cases "f = FormatList")
    case True
    with 1 p obtain vs where "decodeElements data off 0 k = OK (vs, n)"
      by (auto simp: decodeItem.psimps res_simps)
    with "1.IH" [OF p refl refl True] decode_prefix_OK [OF p] show ?thesis by fastforce
  next
    case False
    with 1 p have "decode_scalar f data off k = OK (it, n)"
      by (auto simp: decodeItem.psimps res_simps)
    with decode_prefix_OK [OF p] decode_scalar_OK show ?thesis by fastforce
  qed
next
  case (2 data offset i)
  then show ?case by (simp add: decodeElements.psimps)
next
  case (3 data offset i count)
  then obtain child off where c: "decodeItem data offset = OK (child, off)"
    by (auto simp: decodeElements.psimps res_simps)
  with 3 obtain vs' where "decodeElements data off (Suc i) count = OK (vs', m)"
    by (auto simp: decodeElements.psimps res_simps)
  moreover have "offset < off \<and> off \<le> length data" using "3.IH"(1) c by simp
  ultimately show ?case using "3.IH"(2) [of "(child, off)" child off] c by fastforce
qed

lemma decode_dom: "All decodeItem_decodeElements_dom"
proof (relation "measures
    [\<lambda>x. case x of Inl (data, offset) \<Rightarrow> length data - offset
         | Inr (data, offset, i, c) \<Rightarrow> length data - offset,
     \<lambda>x. case x of Inl _ \<Rightarrow> 0 | Inr (data, offset, i, c) \<Rightarrow> c]", goal_cases)
  case 1
  show ?case by simp
next
  case (2 data offset x f y off k)
  then show ?case using decode_prefix_OK [of data offset f off k] by auto
next
  case (3 data offset i count)
  then show ?case by simp
next
  case (4 data offset i count x child off)
  then have "offset < off \<and> off \<le> length data"
    using decode_progress(1) [of data offset child off] by simp
  then show ?case by auto
qed

termination decodeItem
  by (rule decode_dom)

lemmas decodeItem_moves = decode_progress(1) [OF decode_dom [rule_format]]
lemmas decodeElements_moves = decode_progress(2) [OF decode_dom [rule_format]]

declare decodeItem.simps [simp del]

definition Decode :: "byte list \<Rightarrow> (secs2_error, Item) res" where
  "Decode data =
     bind_res (decodeItem data 0) (\<lambda>(item, n).
       if n \<noteq> length data then Err (ErrTrailing n (length data)) else OK item)"

definition Codec_Decode :: "byte list \<Rightarrow> (secs2_error, goval) res" where
  "Codec_Decode data = bind_res (Decode data) (\<lambda>item. OK (VItem item))"

text \<open>\<^verbatim>\<open>DecodeMulti\<close>: items one after another until the input is used up.\<close>

function DecodeMulti_from :: "byte list \<Rightarrow> nat \<Rightarrow> (secs2_error, Item list) res" where
  "DecodeMulti_from data offset =
     (if offset < length data then
        bind_res (map_err (ErrAtOffset offset) (decodeItem data offset)) (\<lambda>(item, n).
          bind_res (DecodeMulti_from data n) (\<lambda>items. OK (item # items)))
      else OK [])"
  by pat_completeness auto
termination
proof (relation "measure (\<lambda>(data, offset). length data - offset)", goal_cases)
  case 1
  show ?case by simp
next
  case (2 data offset x item n)
  then have "offset < n"
    using decodeItem_moves [of data offset item n] by simp
  with 2 show ?case by simp
qed

declare DecodeMulti_from.simps [simp del]

definition DecodeMulti :: "byte list \<Rightarrow> (secs2_error, Item list) res" where
  "DecodeMulti data = DecodeMulti_from data 0"

section \<open>What the decoder cannot do\<close>

text \<open>No input makes the decoder panic.\<close>

lemma decode_prefix_no_panic: "decode_prefix data offset \<noteq> Panic"
  by (simp add: decode_prefix_def Let_def)

text \<open>Relational reasoning on the dispatch that leaves the thirteen decoders folded.\<close>

lemma if_rel:
  assumes "R a b" and "R x y"
  shows "R (if c then a else x) (if c then b else y)"
  using assms by simp

lemma decode_scalar_rel:
  assumes "R (decodeASCII data offset n) (decodeASCII data' offset' n')"
    and "R (decodeBinary data offset n) (decodeBinary data' offset' n')"
    and "R (decodeBoolean data offset n) (decodeBoolean data' offset' n')"
    and "R (decodeI1 data offset n) (decodeI1 data' offset' n')"
    and "R (decodeI2 data offset n) (decodeI2 data' offset' n')"
    and "R (decodeI4 data offset n) (decodeI4 data' offset' n')"
    and "R (decodeI8 data offset n) (decodeI8 data' offset' n')"
    and "R (decodeU1 data offset n) (decodeU1 data' offset' n')"
    and "R (decodeU2 data offset n) (decodeU2 data' offset' n')"
    and "R (decodeU4 data offset n) (decodeU4 data' offset' n')"
    and "R (decodeU8 data offset n) (decodeU8 data' offset' n')"
    and "R (decodeF4 data offset n) (decodeF4 data' offset' n')"
    and "R (decodeF8 data offset n) (decodeF8 data' offset' n')"
    and "R (Err (ErrUnsupportedFormat f)) (Err (ErrUnsupportedFormat f))"
  shows "R (decode_scalar f data offset n) (decode_scalar f data' offset' n')"
  unfolding decode_scalar_def by (intro if_rel [of R] assms)

lemma decode_bytes_no_panic: "decode_bytes f conv data offset n \<noteq> Panic"
  by (simp add: decode_bytes_def)

lemma decode_words_no_panic: "decode_words k f conv data offset n \<noteq> Panic"
  by (simp add: decode_words_def)

lemma decode_scalar_no_panic: "decode_scalar f data offset n \<noteq> Panic"
  by (rule decode_scalar_rel [where R = "\<lambda>r _. r \<noteq> Panic"])
    (simp_all add: decode_scalar_defs decode_bytes_no_panic decode_words_no_panic)

lemma decode_no_panic:
  shows "decodeItem data offset \<noteq> Panic" and "decodeElements data off i c \<noteq> Panic"
proof (induction data offset and data off i c rule: decodeItem_decodeElements.induct)
  case (1 data offset)
  show ?case
    using "1" decode_prefix_no_panic decode_scalar_no_panic
    by (auto simp: decodeItem.simps [of data offset] res_simps split: if_splits)
next
  case (3 data offset i count)
  then show ?case by (auto simp: res_simps)
qed simp

text \<open>What follows an item does not change how the item is read.\<close>

lemma decode_prefix_append:
  assumes "decode_prefix data offset = OK x"
  shows "decode_prefix (data @ more) offset = OK x"
  using assms by (auto simp: decode_prefix_def Let_def nth_append split: if_splits)

lemma decode_words_append:
  assumes "decode_words k f conv data offset n = OK x"
    and "\<And>b. k \<le> length b \<Longrightarrow> conv (b @ more) = conv b"
  shows "decode_words k f conv (data @ more) offset n = OK x"
proof -
  from assms(1) have m: "n mod k = 0" "offset + n \<le> length data"
    and x: "x = (MkItem f (map (\<lambda>i. conv (drop (offset + i * k) data)) [0..<n div k]), offset + n)"
    by (auto simp: decode_words_def split: if_splits)
  have "conv (drop (offset + i * k) (data @ more)) = conv (drop (offset + i * k) data)"
    if i: "i < n div k" for i
  proof -
    from i have "Suc i * k \<le> n div k * k" by (intro mult_le_mono1) simp
    with m have "offset + i * k + k \<le> length data" by (simp add: minus_mod_eq_div_mult [symmetric])
    then show ?thesis by (simp add: assms(2))
  qed
  with m x show ?thesis by (simp add: decode_words_def)
qed

lemma decode_bytes_append:
  "decode_bytes f conv data offset n = OK x \<Longrightarrow> decode_bytes f conv (data @ more) offset n = OK x"
  by (auto simp: decode_bytes_def nth_append split: if_splits)

lemma be_get_append: "n \<le> length b \<Longrightarrow> be_get n (b @ more) = be_get n b"
  by (simp add: be_get_def)

lemma decode_scalar_append:
  assumes "decode_scalar f data offset n = OK x"
  shows "decode_scalar f (data @ more) offset n = OK x"
proof -
  have more: "decodeASCII data offset n = OK x \<Longrightarrow> decodeASCII (data @ more) offset n = OK x"
    "decodeBinary data offset n = OK x \<Longrightarrow> decodeBinary (data @ more) offset n = OK x"
    by (auto simp: decodeASCII_def decodeBinary_def split: if_splits)
  have "decode_scalar f data offset n = OK x \<longrightarrow> decode_scalar f (data @ more) offset n = OK x"
    by (rule decode_scalar_rel [where R = "\<lambda>r r'. r = OK x \<longrightarrow> r' = OK x"])
      (use more in \<open>simp_all add: decodeBoolean_def decodeI1_def decodeI2_def decodeI4_def
         decodeI8_def decodeU1_def decodeU2_def decodeU4_def decodeU8_def decodeF4_def decodeF8_def
         decode_bytes_append decode_words_append be_get_append\<close>)
  with assms show ?thesis by simp
qed

lemma decode_append:
  shows "decodeItem data offset = OK (it, n) \<Longrightarrow> decodeItem (data @ more) offset = OK (it, n)"
    and "decodeElements data off i c = OK (vs, m) \<Longrightarrow>
      decodeElements (data @ more) off i c = OK (vs, m)"
proof (induction data offset and data off i c arbitrary: it n and vs m
    rule: decodeItem_decodeElements.induct)
  case (1 data offset)
  then obtain f off k where p: "decode_prefix data offset = OK (f, off, k)"
    by (auto simp: decodeItem.simps [of data] res_simps)
  with 1 show ?case
    by (auto simp: decodeItem.simps decode_prefix_append [OF p] decode_scalar_append res_simps
        split: if_splits)
next
  case (3 data offset i count)
  then show ?case by (fastforce simp: res_simps)
qed simp

end
