(* ===== verification/Secs2_Roundtrip.thy ===== *)
theory Secs2_Roundtrip
  imports Secs2_Codec
begin

text \<open>
  The codec against a reference encoding. \<open>item_bytes\<close> describes the wire form of an item
  without a buffer or offsets; the encoder appends exactly these bytes, the decoder reads
  them back wherever they stand in its input, and everything the decoder accepts is a
  well-formed item in normal form.
\<close>

section \<open>The reference encoding\<close>

definition len_count :: "nat \<Rightarrow> nat" where
  "len_count n = (if n \<le> 0xFF then 1 else if n \<le> 0xFFFF then 2 else 3)"

definition header_bytes :: "Format \<Rightarrow> nat \<Rightarrow> byte list" where
  "header_bytes f n = (f OR word_of_nat (len_count n)) # nat_be (len_count n) n"

fun elem_bytes :: "goval \<Rightarrow> byte list" where
  "elem_bytes (VBool b) = [if b then 1 else 0]"
| "elem_bytes (VInt8 n) = [n]"
| "elem_bytes (VInt16 n) = be_put 2 n"
| "elem_bytes (VInt32 n) = be_put 4 n"
| "elem_bytes (VInt64 n) = be_put 8 n"
| "elem_bytes (VUint8 n) = [n]"
| "elem_bytes (VUint16 n) = be_put 2 n"
| "elem_bytes (VUint32 n) = be_put 4 n"
| "elem_bytes (VUint64 n) = be_put 8 n"
| "elem_bytes (VFloat32 w) = be_put 4 w"
| "elem_bytes (VFloat64 w) = be_put 8 w"
| "elem_bytes (VString s) = bytes_of_string s"
| "elem_bytes (VBytes b) = b"
| "elem_bytes _ = []"

abbreviation payload :: "goval list \<Rightarrow> byte list" where
  "payload vs \<equiv> concat (map elem_bytes vs)"

fun item_bytes :: "Item \<Rightarrow> byte list"
and child_bytes :: "goval \<Rightarrow> byte list" where
  "item_bytes (MkItem f vs) =
     (if f = FormatList then header_bytes f (length vs) @ concat (map child_bytes vs)
      else header_bytes f (length (payload vs)) @ payload vs)"
| "child_bytes (VItem it) = item_bytes it"
| "child_bytes _ = []"

section \<open>Headers\<close>

definition all_formats :: "Format list" where
  "all_formats = FormatList # FormatASCII # FormatBinary # numeric_formats"

lemma push_bit_or_add:
  assumes "b < 256"
  shows "push_bit 8 a OR b = 256 * a + (b::nat)"
proof -
  have "take_bit 8 b = b" using assms by (simp add: take_bit_nat_eq_self)
  then have "\<not> bit (push_bit 8 a) n \<or> \<not> bit b n" for n
    by (metis bit_push_bit_iff bit_take_bit_iff not_le)
  then have "push_bit 8 a OR b = push_bit 8 a + b" by (rule disjunctive_add [symmetric])
  then show ?thesis by (simp add: push_bit_eq_mult)
qed

lemma push_bit_or_add3:
  assumes "b < 256" and "c < 256"
  shows "push_bit 16 a OR push_bit 8 b OR c = 256 * (256 * a + b) + (c::nat)"
proof -
  have "push_bit 16 a OR push_bit 8 b OR c = push_bit 8 (push_bit 8 a OR b) OR c"
    by (simp add: push_bit_or or.assoc)
  then show ?thesis using assms by (simp only: push_bit_or_add)
qed

lemma format_mask:
  assumes "f \<in> set all_formats" and "k \<in> {1, 2, 3}"
  shows "(f OR word_of_nat k) AND formatMask = f"
    and "unat ((f OR word_of_nat k) AND lengthBitsMask) = k"
  using assms
  by (auto simp: all_formats_def numeric_formats_def format_defs formatMask_def lengthBitsMask_def)

lemma len_count_range: "len_count n \<in> {1, 2, 3}"
  by (simp add: len_count_def)

lemma less_len_count: "n \<le> max_len \<Longrightarrow> n < 256 ^ len_count n"
  by (simp add: len_count_def max_len_def)

lemma nat_be_small:
  "nat_be 1 x = [word_of_nat x]"
  "nat_be 2 x = [word_of_nat (drop_bit 8 x), word_of_nat x]"
  "nat_be 3 x = [word_of_nat (drop_bit 16 x), word_of_nat (drop_bit 8 x), word_of_nat x]"
proof -
  have "nat_be (Suc 0) x = [word_of_nat x]" "nat_be (Suc (Suc 0)) x = [word_of_nat (x div 256), word_of_nat x]"
    "nat_be (Suc (Suc (Suc 0))) x = [word_of_nat (x div 65536), word_of_nat (x div 256), word_of_nat x]"
    by (simp_all add: div_mult2_eq [symmetric])
  then show "nat_be 1 x = [word_of_nat x]"
    "nat_be 2 x = [word_of_nat (drop_bit 8 x), word_of_nat x]"
    "nat_be 3 x = [word_of_nat (drop_bit 16 x), word_of_nat (drop_bit 8 x), word_of_nat x]"
    by (simp_all only: drop_bit_eq_div numeral_2_eq_2 [symmetric] numeral_3_eq_3 [symmetric]
        One_nat_def) simp_all
qed

lemma encodeHeader_bytes:
  assumes "n \<le> max_len"
  shows "encodeHeader buf f n = OK (buf @ header_bytes f n)"
proof -
  consider "n \<le> 0xFF" | "0xFF < n \<and> n \<le> 0xFFFF" | "0xFFFF < n" by linarith
  then show ?thesis using assms
    by cases (simp_all add: encodeHeader_def header_bytes_def len_count_def max_len_def
        nat_be_small del: One_nat_def)
qed

lemma take_drop_small:
  "i < length xs \<Longrightarrow> take 1 (drop i xs) = [xs ! i]"
  "i + 1 < length xs \<Longrightarrow> take 2 (drop i xs) = [xs ! i, xs ! (i + 1)]"
  "i + 2 < length xs \<Longrightarrow> take 3 (drop i xs) = [xs ! i, xs ! (i + 1), xs ! (i + 2)]"
  by (simp_all add: numeral_2_eq_2 numeral_3_eq_3 Cons_nth_drop_Suc [symmetric])

lemma be_nat_small:
  "be_nat [a] = unat a"
  "be_nat [a, b] = push_bit 8 (unat a) OR unat b"
  "be_nat [a, b, c] = push_bit 16 (unat a) OR push_bit 8 (unat b) OR unat c"
  using unat_byte_less push_bit_or_add push_bit_or_add3 by (simp_all add: be_nat_def)

lemma length_bits_cases: "unat (b AND lengthBitsMask) \<in> {0, 1, 2, 3}"
proof -
  have "b AND lengthBitsMask = take_bit 2 b"
    by (simp add: lengthBitsMask_def take_bit_eq_mask mask_eq_exp_minus_1)
  then have "unat (b AND lengthBitsMask) = take_bit 2 (unat b)" by (simp add: unsigned_take_bit_eq)
  also have "\<dots> < 4" using take_bit_nat_less_exp [of 2 "unat b"] by simp
  finally show ?thesis by auto
qed

text \<open>The prefix in closed form: the length field is the big-endian number behind the format
  byte.\<close>

lemma decode_prefix_eq:
  assumes "offset < length data"
    and "k = unat (data ! offset AND lengthBitsMask)" and "k \<noteq> 0"
    and "offset + 1 + k \<le> length data"
  shows "decode_prefix data offset = OK (data ! offset AND formatMask, offset + 1 + k,
     be_nat (take k (drop (offset + 1) data)))"
proof -
  have k: "k \<in> {1, 2, 3}" using assms(2,3) length_bits_cases [of "data ! offset"] by auto
  then show ?thesis using assms
    by (auto simp: decode_prefix_def Let_def take_drop_small be_nat_small simp del: One_nat_def)
qed

lemma decode_prefix_header:
  assumes "f \<in> set all_formats" and "n \<le> max_len"
  shows "decode_prefix (pre @ header_bytes f n @ post) (length pre) =
     OK (f, length pre + length (header_bytes f n), n)"
proof -
  let ?data = "pre @ header_bytes f n @ post" and ?k = "len_count n"
  have h: "?data ! length pre = f OR word_of_nat ?k" by (simp add: nth_append header_bytes_def)
  have l: "length (header_bytes f n) = 1 + ?k" by (simp add: header_bytes_def)
  have t: "take ?k (drop (length pre + 1) ?data) = nat_be ?k n" by (simp add: header_bytes_def)
  have n: "be_nat (nat_be ?k n) = n"
    using less_len_count [OF assms(2)] by (simp add: be_nat_nat_be)
  note masks = format_mask [OF assms(1) len_count_range [of n]]
  have "decode_prefix ?data (length pre) = OK (?data ! length pre AND formatMask,
      length pre + 1 + ?k, be_nat (take ?k (drop (length pre + 1) ?data)))"
  proof (rule decode_prefix_eq)
    show "?k = unat (?data ! length pre AND lengthBitsMask)" by (simp only: h masks)
    show "?k \<noteq> 0" using len_count_range [of n] by auto
  qed (simp_all add: l)
  then show ?thesis by (simp only: h masks t n l add.assoc)
qed

section \<open>The encoder writes the reference encoding\<close>

lemma elem_length: "elem_ok f v \<Longrightarrow> length (elem_bytes v) = itemSize f"
  by (cases v) (auto simp: itemSize_def format_defs)

lemma payload_length:
  "\<forall>v \<in> set vs. elem_ok f v \<Longrightarrow> length (payload vs) = length vs * itemSize f"
  by (induction vs) (auto simp: elem_length)

lemma enc_elem:
  "elem_ok FormatBoolean v \<Longrightarrow> enc_bool v = Some (elem_bytes v)"
  "elem_ok FormatI1 v \<Longrightarrow> enc_i1 v = Some (elem_bytes v)"
  "elem_ok FormatI2 v \<Longrightarrow> enc_i2 v = Some (elem_bytes v)"
  "elem_ok FormatI4 v \<Longrightarrow> enc_i4 v = Some (elem_bytes v)"
  "elem_ok FormatI8 v \<Longrightarrow> enc_i8 v = Some (elem_bytes v)"
  "elem_ok FormatU1 v \<Longrightarrow> enc_u1 v = Some (elem_bytes v)"
  "elem_ok FormatU2 v \<Longrightarrow> enc_u2 v = Some (elem_bytes v)"
  "elem_ok FormatU4 v \<Longrightarrow> enc_u4 v = Some (elem_bytes v)"
  "elem_ok FormatU8 v \<Longrightarrow> enc_u8 v = Some (elem_bytes v)"
  "elem_ok FormatF4 v \<Longrightarrow> enc_f4 v = Some (elem_bytes v)"
  "elem_ok FormatF8 v \<Longrightarrow> enc_f8 v = Some (elem_bytes v)"
  by (cases v; simp add: format_defs)+

lemma append_elems_payload:
  "(\<And>v. v \<in> set vs \<Longrightarrow> enc v = Some (elem_bytes v)) \<Longrightarrow>
     append_elems enc vs buf = OK (buf @ payload vs)"
  by (induction vs arbitrary: buf) auto

lemma encode_header_elems:
  assumes "\<And>v. v \<in> set vs \<Longrightarrow> enc v = Some (elem_bytes v)" and "length (payload vs) = n"
    and "n \<le> max_len"
  shows "bind_res (encodeHeader buf f n) (append_elems enc vs) =
     OK (buf @ header_bytes f (length (payload vs)) @ payload vs)"
  using assms by (simp add: encodeHeader_bytes append_elems_payload)

lemma format_distinct [simp]: "distinct all_formats" "FormatList \<notin> set numeric_formats"
  "FormatASCII \<notin> set numeric_formats" "FormatBinary \<notin> set numeric_formats"
  "FormatASCII \<noteq> FormatList" "FormatBinary \<noteq> FormatList" "FormatBinary \<noteq> FormatASCII"
  "FormatList \<noteq> FormatASCII" "FormatList \<noteq> FormatBinary" "FormatASCII \<noteq> FormatBinary"
  "FormatList \<noteq> FormatBoolean" "FormatASCII \<noteq> FormatBoolean" "FormatBinary \<noteq> FormatBoolean"
  "FormatBoolean \<noteq> FormatList" "FormatBoolean \<noteq> FormatASCII" "FormatBoolean \<noteq> FormatBinary"
  by (simp_all add: all_formats_def numeric_formats_def format_defs)

lemma numeric_format_cases:
  assumes "f \<in> set numeric_formats"
  obtains "f = FormatBoolean" | "f = FormatI1" | "f = FormatI2" | "f = FormatI4" | "f = FormatI8"
    | "f = FormatU1" | "f = FormatU2" | "f = FormatU4" | "f = FormatU8" | "f = FormatF4"
    | "f = FormatF8"
  using assms by (auto simp: numeric_formats_def)

lemma encode_numeric:
  assumes "f \<in> set numeric_formats" and "length vs * itemSize f \<le> max_len"
    and "\<forall>v \<in> set vs. elem_ok f v"
  shows "encodeItem (MkItem f vs) buf = OK (buf @ item_bytes (MkItem f vs))"
proof -
  have len: "length (payload vs) = length vs * itemSize f" by (rule payload_length [OF assms(3)])
  have ok: "v \<in> set vs \<Longrightarrow> elem_ok f v" for v using assms(3) by blast
  from assms(1) show ?thesis
  proof (cases f rule: numeric_format_cases)
    case 1
    with len ok assms(2) show ?thesis
      by (simp add: encodeBoolean_def encode_header_elems enc_elem itemSize_def format_defs)
  qed (use len ok assms(2) in \<open>simp_all add: encodeI1_def encodeI2_def encodeI4_def encodeI8_def
      encodeU1_def encodeU2_def encodeU4_def encodeU8_def encodeF4_def encodeF8_def
      encode_header_elems enc_elem itemSize_def format_defs\<close>)
qed

text \<open>The three shapes a well-formed item has.\<close>

lemma wf_item_cases:
  assumes "wf_item (MkItem f vs)"
  obtains (List) "f = FormatList" "length vs \<le> max_len" "\<forall>v \<in> set vs. wf_child v"
  | (ASCII_empty) "f = FormatASCII" "vs = []"
  | (ASCII) s where "f = FormatASCII" "vs = [VString s]" "length s \<le> max_len"
  | (Binary_empty) "f = FormatBinary" "vs = []"
  | (Binary) b where "f = FormatBinary" "vs = [VBytes b]" "length b \<le> max_len"
  | (Numeric) "f \<in> set numeric_formats" "length vs * itemSize f \<le> max_len"
      "\<forall>v \<in> set vs. elem_ok f v"
proof -
  have "(\<forall>a b. xs \<noteq> a # b) = (xs = [])" for xs :: "goval list" by (cases xs) auto
  with assms that show ?thesis by (auto split: if_splits list.splits goval.splits)
qed

lemma encode_bytes:
  shows "wf_item it \<Longrightarrow> encodeItem it buf = OK (buf @ item_bytes it)"
    and "\<forall>v \<in> set vs. wf_child v \<Longrightarrow>
      encodeElements i vs buf' = OK (buf' @ concat (map child_bytes vs))"
proof (induction it buf and i vs buf' rule: encodeItem_encodeElements.induct)
  case (1 f vs buf)
  from \<open>wf_item (MkItem f vs)\<close> show ?case
  proof (cases rule: wf_item_cases)
    case List
    with 1 show ?thesis by (simp add: encodeHeader_bytes)
  next
    case Numeric
    then show ?thesis by (rule encode_numeric)
  qed (simp_all add: encodeASCII_def encodeBinary_def encodeHeader_bytes max_len_def)
next
  case (3 i v vs buf)
  then show ?case by (cases v) auto
qed simp

section \<open>The decoder reads the reference encoding\<close>

lemma decode_words_payload:
  assumes "\<And>v. v \<in> set vs \<Longrightarrow> length (elem_bytes v) = k"
    and "\<And>v rest. v \<in> set vs \<Longrightarrow> conv (elem_bytes v @ rest) = v" and "0 < k"
  shows "decode_words k f conv (pre @ payload vs @ post) (length pre) (length vs * k) =
     OK (MkItem f vs, length pre + length vs * k)"
proof -
  have "map (\<lambda>i. conv (drop (length pre + i * k) (pre @ payload vs @ post))) [0..<length vs] = vs"
    using assms(1,2)
  proof (induction vs arbitrary: pre)
    case (Cons v vs)
    have l: "length (elem_bytes v) = k" by (simp add: Cons.prems)
    have "map (\<lambda>i. conv (drop (length pre + i * k) (pre @ payload (v # vs) @ post)))
        [0..<Suc (length vs)] = v # map (\<lambda>i. conv (drop (length (pre @ elem_bytes v) + i * k)
          ((pre @ elem_bytes v) @ payload vs @ post))) [0..<length vs]"
      by (simp add: upt_conv_Cons map_Suc_upt [symmetric] Cons.prems(2) comp_def l add.assoc
          del: upt_Suc)
    also have "\<dots> = v # vs" using Cons.IH Cons.prems by simp
    finally show ?case by simp
  qed simp
  moreover have "length (payload vs) = length vs * k"
    using assms(1) by (induction vs) simp_all
  ultimately show ?thesis using assms(3) by (simp add: decode_words_def)
qed

lemma decode_bytes_words: "decode_bytes f conv = decode_words 1 f (\<lambda>b. conv (hd b))"
  by (auto simp: decode_bytes_def decode_words_def fun_eq_iff hd_drop_conv_nth)

text \<open>One reader for the eleven numeric formats.\<close>

definition elem_read :: "Format \<Rightarrow> byte list \<Rightarrow> goval" where
  "elem_read f b =
     (if f = FormatBoolean then VBool (hd b \<noteq> 0)
      else if f = FormatI1 then VInt8 (hd b)
      else if f = FormatI2 then VInt16 (be_get 2 b)
      else if f = FormatI4 then VInt32 (be_get 4 b)
      else if f = FormatI8 then VInt64 (be_get 8 b)
      else if f = FormatU1 then VUint8 (hd b)
      else if f = FormatU2 then VUint16 (be_get 2 b)
      else if f = FormatU4 then VUint32 (be_get 4 b)
      else if f = FormatU8 then VUint64 (be_get 8 b)
      else if f = FormatF4 then VFloat32 (be_get 4 b)
      else VFloat64 (be_get 8 b))"

lemma decode_scalar_numeric:
  assumes "f \<in> set numeric_formats"
  shows "decode_scalar f data offset n = decode_words (itemSize f) f (elem_read f) data offset n"
  using assms
  by (cases f rule: numeric_format_cases)
    (simp_all add: decode_scalar_def decode_scalar_defs decode_bytes_words
      elem_read_def [abs_def] itemSize_def format_defs)

lemma elem_read_bytes:
  assumes "f \<in> set numeric_formats" and "elem_ok f v"
  shows "elem_read f (elem_bytes v @ r) = v"
  using assms by (cases v) (simp_all add: elem_read_def format_defs be_get_put)

lemma elem_ok_read: "f \<in> set numeric_formats \<Longrightarrow> elem_ok f (elem_read f b)"
  by (cases f rule: numeric_format_cases) (simp_all add: elem_read_def format_defs)

lemma itemSize_pos: "f \<in> set numeric_formats \<Longrightarrow> 0 < itemSize f"
  by (cases f rule: numeric_format_cases) (simp_all add: itemSize_def format_defs)

lemma decode_numeric:
  assumes "f \<in> set numeric_formats" and "\<forall>v \<in> set vs. elem_ok f v"
  shows "decode_scalar f (pre @ payload vs @ post) (length pre) (length vs * itemSize f) =
     OK (MkItem f vs, length pre + length vs * itemSize f)"
  unfolding decode_scalar_numeric [OF assms(1)]
  by (rule decode_words_payload) (use assms in \<open>auto simp: elem_length elem_read_bytes itemSize_pos\<close>)

text \<open>The decoder at any position of its input.\<close>

lemma decode_header:
  assumes "f \<in> set all_formats" and "n \<le> max_len"
  shows "decodeItem (pre @ header_bytes f n @ rest) (length pre) =
     (if f = FormatList then
        bind_res (decodeElements ((pre @ header_bytes f n) @ rest)
            (length (pre @ header_bytes f n)) 0 n) (\<lambda>(items, off). OK (MkItem FormatList items, off))
      else decode_scalar f ((pre @ header_bytes f n) @ rest) (length (pre @ header_bytes f n)) n)"
  by (simp add: decodeItem.simps [of "pre @ header_bytes f n @ rest"] decode_prefix_header [OF assms])

lemma decode_scalar_bytes:
  assumes "wf_item (MkItem f vs)" and "f \<noteq> FormatList"
  shows "decodeItem (pre @ item_bytes (MkItem f vs) @ post) (length pre) =
     OK (norm_item (MkItem f vs), length pre + length (item_bytes (MkItem f vs)))"
  using assms(1)
proof (cases rule: wf_item_cases)
  case List
  with assms(2) show ?thesis by simp
next
  case Numeric
  then have "length (payload vs) = length vs * itemSize f" by (intro payload_length)
  moreover have "norm_item (MkItem f vs) = MkItem f vs" using Numeric by auto
  ultimately show ?thesis
    using Numeric assms(2) decode_numeric [of f vs "pre @ header_bytes f (length vs * itemSize f)" post]
      decode_header [of f "length vs * itemSize f" pre "payload vs @ post"]
    by (simp add: all_formats_def add.assoc)
next
  case ASCII_empty
  then show ?thesis using decode_header [of f 0 pre post]
    by (simp add: all_formats_def decode_scalar_def decodeASCII_def)
next
  case (ASCII s)
  then show ?thesis using decode_header [of f "length s" pre "bytes_of_string s @ post"]
    by (simp add: all_formats_def decode_scalar_def decodeASCII_def)
next
  case Binary_empty
  then show ?thesis using decode_header [of f 0 pre post]
    by (simp add: all_formats_def decode_scalar_def decodeBinary_def)
next
  case (Binary b)
  then show ?thesis using decode_header [of f "length b" pre "b @ post"]
    by (simp add: all_formats_def decode_scalar_def decodeBinary_def)
qed

lemma decode_bytes_item:
  shows "wf_item it \<Longrightarrow> decodeItem (pre @ item_bytes it @ post) (length pre) =
      OK (norm_item it, length pre + length (item_bytes it))"
    and "wf_child v \<Longrightarrow> \<exists>it. v = VItem it \<and> norm_child v = VItem (norm_item it) \<and>
      (\<forall>pre post. decodeItem (pre @ child_bytes v @ post) (length pre) =
        OK (norm_item it, length pre + length (child_bytes v)))"
proof (induction it and v arbitrary: pre post)
  case (MkItem f vs)
  show ?case
  proof (cases "f = FormatList")
    case False
    with MkItem.prems show ?thesis by (rule decode_scalar_bytes)
  next
    case True
    with MkItem.prems have n: "length vs \<le> max_len" and wf: "\<forall>v \<in> set vs. wf_child v" by simp_all
    have "decodeElements (p @ concat (map child_bytes vs) @ post) (length p) i (length vs) =
        OK (map norm_child vs, length p + length (concat (map child_bytes vs)))" for p i
      using wf MkItem.IH
    proof (induction vs arbitrary: p i)
      case (Cons v vs)
      then obtain it where v: "norm_child v = VItem (norm_item it)"
        "decodeItem (p @ child_bytes v @ concat (map child_bytes vs) @ post) (length p) =
          OK (norm_item it, length p + length (child_bytes v))"
        by (metis list.set_intros(1))
      with Cons.IH [of "p @ child_bytes v" "Suc i"] Cons.prems show ?case by (simp add: add.assoc)
    qed simp
    from this [of "pre @ header_bytes f (length vs)" 0] show ?thesis
      using True n decode_header [of f "length vs" pre "concat (map child_bytes vs) @ post"]
      by (simp add: all_formats_def add.assoc)
  qed
qed auto

section \<open>What the decoder accepts\<close>

lemma len_count_le:
  assumes "n < 256 ^ k" and "k \<in> {1, 2, 3}"
  shows "len_count n \<le> k" and "n \<le> max_len"
  using assms by (auto simp: len_count_def max_len_def)

lemma decode_prefix_bounds:
  assumes "decode_prefix data offset = OK (f, off, n)"
  shows "n \<le> max_len" and "offset + length (header_bytes f n) \<le> off"
proof -
  let ?k = "unat (data ! offset AND lengthBitsMask)"
  from assms have k: "offset < length data" "?k \<noteq> 0" "offset + 1 + ?k \<le> length data"
    by (auto simp: decode_prefix_def Let_def split: if_splits)
  with length_bits_cases [of "data ! offset"] have r: "?k \<in> {1, 2, 3}" by auto
  from decode_prefix_eq [OF k(1) refl k(2,3)] assms
  have eq: "off = offset + 1 + ?k" "n = be_nat (take ?k (drop (offset + 1) data))" by simp_all
  have "n < 256 ^ length (take ?k (drop (offset + 1) data))" unfolding eq(2) by (rule be_nat_less)
  also have "length (take ?k (drop (offset + 1) data)) = ?k" using k(3) by simp
  finally have "n < 256 ^ ?k" .
  from len_count_le [OF this r] eq(1)
  show "n \<le> max_len" "offset + length (header_bytes f n) \<le> off"
    by (simp_all add: header_bytes_def)
qed

lemma decode_scalar_formats:
  assumes "decode_scalar f data offset n = OK x"
  shows "f = FormatASCII \<or> f = FormatBinary \<or> f \<in> set numeric_formats"
proof (rule ccontr)
  assume "\<not> ?thesis"
  then have "decode_scalar f data offset n = Err (ErrUnsupportedFormat f)"
    by (simp add: decode_scalar_def numeric_formats_def)
  with assms show False by simp
qed

lemma decode_words_wf:
  assumes "f \<in> set numeric_formats" and "n \<le> max_len"
    and "decode_words (itemSize f) f (elem_read f) data offset n = OK (it, off)"
  shows "wf_item it" and "norm_item it = it" and "length (item_bytes it) = length (header_bytes f n) + n"
proof -
  let ?vs = "map (\<lambda>i. elem_read f (drop (offset + i * itemSize f) data)) [0..<n div itemSize f]"
  from assms(3) have it: "it = MkItem f ?vs" and n: "n div itemSize f * itemSize f = n"
    by (auto simp: decode_words_def split: if_splits)
  have f: "f \<noteq> FormatList" "f \<noteq> FormatASCII" "f \<noteq> FormatBinary" using assms(1) by auto
  have ok: "\<forall>v \<in> set ?vs. elem_ok f v" using elem_ok_read [OF assms(1)] by auto
  have "length (payload ?vs) = n" using payload_length [OF ok] n by simp
  with f show "length (item_bytes it) = length (header_bytes f n) + n"
    unfolding it item_bytes.simps by simp
  show "wf_item it" unfolding it wf_item.simps using f assms(1,2) ok n by simp
  show "norm_item it = it" unfolding it norm_item.simps using f by simp
qed

lemma decode_scalar_wf:
  assumes "decode_scalar f data offset n = OK (it, off)" and "n \<le> max_len"
  shows "wf_item it \<and> norm_item it = it \<and>
     length (item_bytes it) = length (header_bytes f n) + n"
proof -
  from decode_scalar_formats [OF assms(1)]
  consider "f = FormatASCII" | "f = FormatBinary" | "f \<in> set numeric_formats" by blast
  then show ?thesis
  proof cases
    case 3
    with decode_words_wf [OF this assms(2)] assms(1) show ?thesis
      by (simp add: decode_scalar_numeric)
  qed (use assms in \<open>auto simp: decode_scalar_def decodeASCII_def decodeBinary_def
         string_of_bytes_def split: if_splits\<close>)
qed

lemma decode_wf:
  shows "decodeItem data offset = OK (it, n) \<Longrightarrow>
      wf_item it \<and> norm_item it = it \<and> offset + length (item_bytes it) \<le> n"
    and "decodeElements data off i c = OK (vs, m) \<Longrightarrow>
      length vs = c \<and> (\<forall>v \<in> set vs. wf_child v \<and> norm_child v = v) \<and>
      off + length (concat (map child_bytes vs)) \<le> m"
proof (induction data offset and data off i c arbitrary: it n and vs m
    rule: decodeItem_decodeElements.induct)
  case (1 data offset)
  then obtain f off k where p: "decode_prefix data offset = OK (f, off, k)"
    by (auto simp: decodeItem.simps [of data] res_simps)
  note bounds = decode_prefix_bounds [OF p]
  show ?case
  proof (cases "f = FormatList")
    case True
    with "1.prems" p obtain vs where "decodeElements data off 0 k = OK (vs, n)"
      and it: "it = MkItem FormatList vs"
      by (auto simp: decodeItem.simps [of data] res_simps)
    with "1.IH" [OF p refl refl True] bounds True show ?thesis by (auto simp: map_idI)
  next
    case False
    with "1.prems" p have d: "decode_scalar f data off k = OK (it, n)"
      by (simp add: decodeItem.simps [of data])
    with decode_scalar_wf [OF d bounds(1)] decode_scalar_OK [OF d] bounds(2) show ?thesis by simp
  qed
next
  case (3 data offset i count)
  then obtain child off vs' where c: "decodeItem data offset = OK (child, off)"
    "decodeElements data off (Suc i) count = OK (vs', m)" "vs = VItem child # vs'"
    by (auto simp: res_simps)
  with "3.IH"(1) [of child off] "3.IH"(2) [of "(child, off)" child off vs' m] show ?case by auto
qed simp

section \<open>Which items the encoder accepts\<close>

text \<open>Items whose dynamic types agree with their formats, of any length: what the constructors
  build.\<close>

fun typed_item :: "Item \<Rightarrow> bool"
and typed_child :: "goval \<Rightarrow> bool" where
  "typed_item (MkItem f vs) \<longleftrightarrow>
     (if f = FormatList then \<forall>v \<in> set vs. typed_child v
      else if f = FormatASCII then (case vs of [] \<Rightarrow> True | [VString s] \<Rightarrow> True | _ \<Rightarrow> False)
      else if f = FormatBinary then (case vs of [] \<Rightarrow> True | [VBytes b] \<Rightarrow> True | _ \<Rightarrow> False)
      else f \<in> set numeric_formats \<and> (\<forall>v \<in> set vs. elem_ok f v))"
| "typed_child (VItem it) \<longleftrightarrow> typed_item it"
| "typed_child _ \<longleftrightarrow> False"

lemma encodeHeader_too_long:
  "max_len < n \<Longrightarrow> encodeHeader buf f n = Err (ErrDataTooLong n)"
  by (simp add: encodeHeader_def max_len_def)

lemma encode_numeric_too_long:
  assumes "f \<in> set numeric_formats" and "max_len < length vs * itemSize f"
  shows "encodeItem (MkItem f vs) buf = Err (ErrDataTooLong (length vs * itemSize f))"
  using assms(1)
  by (cases f rule: numeric_format_cases)
    (use assms(2) in \<open>simp_all add: encodeBoolean_def encodeI1_def encodeI2_def encodeI4_def
       encodeI8_def encodeU1_def encodeU2_def encodeU4_def encodeU8_def encodeF4_def encodeF8_def
       encodeHeader_too_long itemSize_def format_defs\<close>)

lemma encode_too_long:
  shows "typed_item it \<Longrightarrow> \<not> wf_item it \<Longrightarrow> \<exists>e. encodeItem it buf = Err e"
    and "\<forall>v \<in> set vs. typed_child v \<Longrightarrow> \<not> (\<forall>v \<in> set vs. wf_child v) \<Longrightarrow>
      \<exists>e. encodeElements i vs buf' = Err e"
proof (induction it buf and i vs buf' rule: encodeItem_encodeElements.induct)
  case (1 f vs buf)
  consider "f = FormatList" "max_len < length vs" | "f = FormatList" "length vs \<le> max_len"
    | "f = FormatASCII" | "f = FormatBinary" | "f \<in> set numeric_formats"
    using "1.prems"(1) by (auto split: if_splits) linarith
  then show ?case
  proof cases
    case 2
    with 1 show ?thesis by (simp add: encodeHeader_bytes)
  next
    case 5
    with "1.prems" have "max_len < length vs * itemSize f" by (auto split: if_splits)
    with encode_numeric_too_long [OF 5] show ?thesis by blast
  qed (use "1.prems" in \<open>auto simp: encodeHeader_too_long encodeASCII_def encodeBinary_def
         split: list.splits goval.splits\<close>)
next
  case (3 i v vs buf)
  then obtain it where v: "v = VItem it" "typed_item it" by (cases v) auto
  show ?case
  proof (cases "wf_item it")
    case True
    with v 3 encode_bytes(1) [OF True] show ?thesis by auto
  next
    case False
    with v "3.IH"(1) [OF v(1,2)] show ?thesis by auto
  qed
qed simp

section \<open>Properties of the codec\<close>

text \<open>Evaluation of the codec on concrete bytes, and of well-formedness on concrete items.\<close>

lemmas decode_eval = Decode_def decodeItem.simps decode_prefix_def decode_scalar_def
  decode_scalar_defs decode_bytes_def decode_words_def formatMask_def lengthBitsMask_def
  format_defs string_of_bytes_def Let_def char_of_def bit_Suc_0_iff

lemmas wf_eval = new_item_defs ptr_val_def format_defs numeric_formats_def max_len_def
  itemSize_def

lemma Encode_wf: "wf_item it \<Longrightarrow> Encode (Some it) = OK (item_bytes it)"
  using encode_bytes(1) [of it "[]"] by (simp add: Encode_def)

lemma Decode_item_bytes: "wf_item it \<Longrightarrow> Decode (item_bytes it) = OK (norm_item it)"
  using decode_bytes_item(1) [of it "[]" "[]"] by (simp add: Decode_def)

lemma Decode_OK_wf: "Decode bs = OK it \<Longrightarrow> wf_item it \<and> norm_item it = it"
  using decode_wf(1) by (fastforce simp: Decode_def res_simps split: if_splits)

text \<open>C1. Encoding and decoding are inverse: every well-formed item encodes, and decoding the
  bytes gives the item back, up to the two spellings of an empty string.\<close>

theorem encode_decode_roundtrip:
  assumes "wf_item it"
  shows "\<exists>bs. Encode (Some it) = OK bs \<and> Decode bs = OK (norm_item it)"
  using assms Encode_wf Decode_item_bytes by blast

theorem encode_decode_roundtrip_witness:
  "wf_item (NewList [Some (NewASCII ''AB''), Some (NewU4 [7, 70000])]) \<and>
   (\<exists>bs. Encode (Some (NewList [Some (NewASCII ''AB''), Some (NewU4 [7, 70000])])) = OK bs \<and>
      Decode bs = OK (norm_item (NewList [Some (NewASCII ''AB''), Some (NewU4 [7, 70000])])))"
proof -
  have wf: "wf_item (NewList [Some (NewASCII ''AB''), Some (NewU4 [7, 70000])])"
    by (simp add: wf_eval)
  with encode_decode_roundtrip show ?thesis by blast
qed

text \<open>Everything the decoder accepts can be encoded again: the bytes are no longer than the
  input, and they decode to the same item.\<close>

theorem decode_reencode:
  assumes "Decode bs = OK it"
  shows "\<exists>bs'. Encode (Some it) = OK bs' \<and> Decode bs' = OK it \<and> length bs' \<le> length bs"
proof -
  from assms have d: "decodeItem bs 0 = OK (it, length bs)"
    by (auto simp: Decode_def res_simps split: if_splits)
  note wf = decode_wf(1) [OF d]
  with Encode_wf [of it] Decode_item_bytes [of it] show ?thesis by auto
qed

theorem decode_reencode_witness:
  "Decode [0x43, 0, 0, 1, 65] = OK (NewASCII ''A'') \<and>
   (\<exists>bs'. Encode (Some (NewASCII ''A'')) = OK bs' \<and> Decode bs' = OK (NewASCII ''A'') \<and>
      length bs' \<le> 5)"
proof -
  have "Decode [0x43, 0, 0, 1, 65] = OK (NewASCII ''A'')"
    by (simp add: decode_eval new_item_defs)
  with decode_reencode [of "[0x43, 0, 0, 1, 65]"] show ?thesis by auto
qed

lemma those_norm_child:
  "those (map (as_item_ptr \<circ> norm_child) vs) =
     map_option (map (map_option norm_item)) (those (map as_item_ptr vs))"
proof (induction vs)
  case (Cons v vs)
  then show ?case by (cases v) (auto simp: option.map_comp comp_def)
qed simp

text \<open>The normal form the decoder chooses cannot be observed through the accessors of its
  format: length, text, bytes, booleans and children are those of the original item, the
  children up to the same normal form.\<close>

theorem norm_item_accessors:
  "Len (Some (norm_item it)) = Len (Some it) \<and>
   ToASCII (Some (norm_item it)) = ToASCII (Some it) \<and>
   ToBinary (Some (norm_item it)) = ToBinary (Some it) \<and>
   ToBooleans (Some (norm_item it)) = ToBooleans (Some it) \<and>
   Items (Some (norm_item it)) =
     bind_res (Items (Some it)) (\<lambda>ps. OK (map (map_option norm_item) ps))"
proof -
  obtain f vs where it: "it = MkItem f vs" by (cases it)
  show ?thesis
    by (auto simp: it assert_all_def those_norm_child split: option.splits)
qed

lemma DecodeMulti_from_items:
  assumes "\<forall>it \<in> set its. wf_item it"
  shows "DecodeMulti_from (pre @ concat (map item_bytes its)) (length pre) = OK (map norm_item its)"
  using assms
proof (induction its arbitrary: pre)
  case Nil
  then show ?case by (simp add: DecodeMulti_from.simps)
next
  case (Cons it its)
  have "item_bytes it \<noteq> []" by (cases it) (simp add: header_bytes_def)
  with Cons decode_bytes_item(1) [of it pre "concat (map item_bytes its)"]
    Cons.IH [of "pre @ item_bytes it"]
  show ?case by (subst DecodeMulti_from.simps) (simp add: add.assoc)
qed

text \<open>The encoding is self-delimiting: \<^verbatim>\<open>DecodeMulti\<close> splits any sequence of encoded items
  into exactly these items.\<close>

theorem decode_multi_encoded:
  assumes "\<forall>it \<in> set its. wf_item it"
  shows "\<exists>bss. map (\<lambda>it. Encode (Some it)) its = map OK bss \<and>
     DecodeMulti (concat bss) = OK (map norm_item its)"
proof (intro exI conjI)
  show "map (\<lambda>it. Encode (Some it)) its = map OK (map item_bytes its)"
    using assms by (simp add: Encode_wf)
  show "DecodeMulti (concat (map item_bytes its)) = OK (map norm_item its)"
    using DecodeMulti_from_items [OF assms, of "[]"] by (simp add: DecodeMulti_def)
qed

theorem decode_multi_encoded_witness:
  "\<exists>bss. map (\<lambda>it. Encode (Some it)) [NewU1 [5], NewASCII [], NewList []] = map OK bss \<and>
     DecodeMulti (concat bss) = OK [NewU1 [5], MkItem FormatASCII [], NewList []]"
  using decode_multi_encoded [of "[NewU1 [5], NewASCII [], NewList []]"]
  by (simp add: wf_eval)

text \<open>A truncated message is an error and never a panic: no proper prefix of an encoded item
  decodes.\<close>

theorem decode_truncated:
  assumes "wf_item it" and "Encode (Some it) = OK bs" and "k < length bs"
  shows "\<exists>e. Decode (take k bs) = Err e"
proof (cases "Decode (take k bs)")
  case (OK it')
  then have "decodeItem (take k bs) 0 = OK (it', k)"
    using assms(3) by (auto simp: Decode_def res_simps split: if_splits)
  then have "decodeItem bs 0 = OK (it', k)"
    using decode_append(1) [of "take k bs" 0 it' k "drop k bs"] by simp
  moreover have "decodeItem bs 0 = OK (norm_item it, length bs)"
    using decode_bytes_item(1) [of it "[]" "[]"] Encode_wf assms by simp
  ultimately show ?thesis using assms(3) by simp
next
  case Panic
  then show ?thesis
    using decode_no_panic(1) [of "take k bs" 0]
    by (auto simp: Decode_def res_simps split: if_splits)
qed blast

theorem decode_truncated_witness:
  "\<exists>e. Decode (take 3 [0x41, 2, 65, 66]) = Err e"
proof -
  have "wf_item (NewASCII ''AB'')" by (simp add: wf_eval)
  moreover have "Encode (Some (NewASCII ''AB'')) = OK [0x41, 2, 65, 66]"
    by (simp add: Encode_def encodeASCII_def encodeHeader_def new_item_defs format_defs
        bytes_of_string_def of_char_def)
  ultimately show ?thesis using decode_truncated [of _ "[0x41, 2, 65, 66]" 3] by simp
qed


text \<open>On items as the constructors build them the encoder never panics: it returns the bytes
  exactly when every length fits the 24-bit length field, and an error otherwise.\<close>

theorem encode_accepts:
  assumes "typed_item it"
  shows "if wf_item it then Encode (Some it) = OK (item_bytes it)
     else \<exists>e. Encode (Some it) = Err e"
  using assms Encode_wf encode_too_long(1) by (auto simp: Encode_def)

theorem encode_accepts_witness:
  "Encode (Some (NewList [Some (NewI2 [0xFFFF])])) = OK [1, 1, 0x69, 2, 0xFF, 0xFF]"
proof -
  have "typed_item (NewList [Some (NewI2 [0xFFFF])])" by (simp add: wf_eval)
  moreover have "wf_item (NewList [Some (NewI2 [0xFFFF])])" by (simp add: wf_eval)
  moreover have "item_bytes (NewList [Some (NewI2 [0xFFFF])]) = [1, 1, 0x69, 2, 0xFF, 0xFF]"
    by (simp add: new_item_defs ptr_val_def format_defs header_bytes_def len_count_def be_put_def
        nat_be_small(2) drop_bit_eq_div)
  ultimately show ?thesis using encode_accepts [of "NewList [Some (NewI2 [0xFFFF])]"] by simp
qed

end
