(* ===== verification/Hsms_Message.thy ===== *)
theory Hsms_Message
  imports Go_Prelude
begin

text \<open>
  HSMS messages (\<^verbatim>\<open>pkg/transport/hsms/message.go\<close>) and their framing on the connection
  (\<^verbatim>\<open>readMessage\<close> of \<^verbatim>\<open>session.go\<close>, \<^verbatim>\<open>maxMessageSize\<close> of \<^verbatim>\<open>config.go\<close>). The connection is the
  sequence of bytes the peer sends before it closes; \<^verbatim>\<open>io.ReadFull\<close> takes a prefix of it.
\<close>

section \<open>Messages\<close>

type_synonym SType = byte

definition STypeDataMessage :: SType where "STypeDataMessage = 0"
definition STypeSelectReq :: SType where "STypeSelectReq = 1"
definition STypeSelectRsp :: SType where "STypeSelectRsp = 2"
definition STypeDeselectReq :: SType where "STypeDeselectReq = 3"
definition STypeDeselectRsp :: SType where "STypeDeselectRsp = 4"
definition STypeLinktestReq :: SType where "STypeLinktestReq = 5"
definition STypeLinktestRsp :: SType where "STypeLinktestRsp = 6"
definition STypeRejectReq :: SType where "STypeRejectReq = 7"
definition STypeSeparateReq :: SType where "STypeSeparateReq = 9"

lemmas stype_defs = STypeDataMessage_def STypeSelectReq_def STypeSelectRsp_def STypeDeselectReq_def
  STypeDeselectRsp_def STypeLinktestReq_def STypeLinktestRsp_def STypeRejectReq_def
  STypeSeparateReq_def

definition SelectStatusSuccess :: byte where "SelectStatusSuccess = 0"
definition SelectStatusAlreadyActive :: byte where "SelectStatusAlreadyActive = 1"
definition SelectStatusNotReady :: byte where "SelectStatusNotReady = 2"
definition SelectStatusAlreadyUsed :: byte where "SelectStatusAlreadyUsed = 3"
definition RejectReasonEntityNotSelected :: byte where "RejectReasonEntityNotSelected = 4"

record Header =
  SessionID :: uint16
  WBit :: bool
  Stream :: byte
  Function :: byte
  PType :: byte
  HSType :: SType
  SystemID :: uint32

record Message =
  MHeader :: Header
  MData :: "byte list"

definition zero_header :: Header where
  "zero_header = \<lparr>SessionID = 0, WBit = False, Stream = 0, Function = 0, PType = 0, HSType = 0,
     SystemID = 0\<rparr>"

definition zero_message :: Message where
  "zero_message = \<lparr>MHeader = zero_header, MData = []\<rparr>"

definition headerLen :: nat where "headerLen = 10"
definition minMessageLen :: nat where "minMessageLen = 14"

definition IsControlMessage :: "Message \<Rightarrow> bool" where
  "IsControlMessage m \<longleftrightarrow> HSType (MHeader m) \<noteq> STypeDataMessage"

datatype hsms_error =
    ErrTooShort nat
  | ErrExceedsData nat nat
  | ErrTooSmall nat
  | ErrExceedsMax nat nat
  | ErrEOF
  | ErrUnexpectedEOF
  | ErrNoConnection
  | ErrWrite
  | ErrState
  | ErrUnexpectedType SType
  | ErrSelectRejected byte
  | ErrTimeout uint32
  | ErrCtxDone
  | ErrSessionClosed
  | ErrDial
  | ErrListen

text \<open>\<^verbatim>\<open>MarshalBinary\<close>. The length is computed in 32 bits; a buffer that ends before the
  header panics at the first write past it, and \<^verbatim>\<open>copy\<close> stops at the end of the buffer.\<close>

definition MarshalBinary :: "Message \<Rightarrow> (hsms_error, byte list) res" where
  "MarshalBinary m =
     (let h = MHeader m;
          msgLen = (word_of_nat (headerLen + length (MData m)) :: uint32);
          n = unat (4 + msgLen);
          b6 = (if WBit h then (Stream h AND 0x7F) OR 0x80 else Stream h AND 0x7F)
      in if n < minMessageLen then Panic
         else OK (be_put 4 msgLen @ be_put 2 (SessionID h) @
                  [b6, Function h, PType h, HSType h] @ be_put 4 (SystemID h) @
                  take (n - 14) (MData m)))"

definition UnmarshalBinary :: "Message \<Rightarrow> byte list \<Rightarrow> (hsms_error, Message) res" where
  "UnmarshalBinary m data =
     (if length data < minMessageLen then Err (ErrTooShort (length data))
      else
        let msgLen = (be_get 4 data :: uint32) in
        if length data < unat msgLen + 4 then Err (ErrExceedsData (unat msgLen) (length data - 4))
        else if unat msgLen < headerLen then Err (ErrTooSmall (unat msgLen))
        else
          let h = \<lparr>SessionID = be_get 2 (drop 4 data), WBit = (data ! 6 AND 0x80 \<noteq> 0),
                   Stream = data ! 6 AND 0x7F, Function = data ! 7, PType = data ! 8,
                   HSType = data ! 9, SystemID = be_get 4 (drop 10 data)\<rparr>;
              dataLen = unat msgLen - headerLen
          in OK \<lparr>MHeader = h,
                  MData = (if 0 < dataLen then take dataLen (drop 14 data) else MData m)\<rparr>)"

section \<open>Constructors\<close>

definition NewSelectReq :: "uint16 \<Rightarrow> uint32 \<Rightarrow> Message" where
  "NewSelectReq sessionID systemID = zero_message\<lparr>MHeader := zero_header\<lparr>SessionID := sessionID,
     HSType := STypeSelectReq, SystemID := systemID\<rparr>\<rparr>"

definition NewSelectRsp :: "uint16 \<Rightarrow> uint32 \<Rightarrow> byte \<Rightarrow> Message" where
  "NewSelectRsp sessionID systemID status = zero_message\<lparr>MHeader := zero_header\<lparr>
     SessionID := sessionID, Stream := status, HSType := STypeSelectRsp, SystemID := systemID\<rparr>\<rparr>"

definition NewDeselectReq :: "uint16 \<Rightarrow> uint32 \<Rightarrow> Message" where
  "NewDeselectReq sessionID systemID = zero_message\<lparr>MHeader := zero_header\<lparr>
     SessionID := sessionID, HSType := STypeDeselectReq, SystemID := systemID\<rparr>\<rparr>"

definition NewDeselectRsp :: "uint16 \<Rightarrow> uint32 \<Rightarrow> byte \<Rightarrow> Message" where
  "NewDeselectRsp sessionID systemID status = zero_message\<lparr>MHeader := zero_header\<lparr>
     SessionID := sessionID, Stream := status, HSType := STypeDeselectRsp, SystemID := systemID\<rparr>\<rparr>"

definition NewLinktestReq :: "uint32 \<Rightarrow> Message" where
  "NewLinktestReq systemID = zero_message\<lparr>MHeader := zero_header\<lparr>SessionID := 0xFFFF,
     HSType := STypeLinktestReq, SystemID := systemID\<rparr>\<rparr>"

definition NewLinktestRsp :: "uint32 \<Rightarrow> Message" where
  "NewLinktestRsp systemID = zero_message\<lparr>MHeader := zero_header\<lparr>SessionID := 0xFFFF,
     HSType := STypeLinktestRsp, SystemID := systemID\<rparr>\<rparr>"

definition NewSeparateReq :: "uint16 \<Rightarrow> uint32 \<Rightarrow> Message" where
  "NewSeparateReq sessionID systemID = zero_message\<lparr>MHeader := zero_header\<lparr>
     SessionID := sessionID, HSType := STypeSeparateReq, SystemID := systemID\<rparr>\<rparr>"

definition NewRejectReq :: "uint16 \<Rightarrow> uint32 \<Rightarrow> SType \<Rightarrow> byte \<Rightarrow> Message" where
  "NewRejectReq sessionID systemID offending reason = zero_message\<lparr>MHeader := zero_header\<lparr>
     SessionID := sessionID, Stream := offending, Function := reason, HSType := STypeRejectReq,
     SystemID := systemID\<rparr>\<rparr>"

definition NewDataMessage ::
  "uint16 \<Rightarrow> byte \<Rightarrow> byte \<Rightarrow> bool \<Rightarrow> uint32 \<Rightarrow> byte list \<Rightarrow> Message" where
  "NewDataMessage sessionID stream function wbit systemID data =
     \<lparr>MHeader = zero_header\<lparr>SessionID := sessionID, WBit := wbit, Stream := stream,
        Function := function, HSType := STypeDataMessage, SystemID := systemID\<rparr>,
      MData = data\<rparr>"

lemmas new_message_defs = NewSelectReq_def NewSelectRsp_def NewDeselectReq_def NewDeselectRsp_def
  NewLinktestReq_def NewLinktestRsp_def NewSeparateReq_def NewRejectReq_def NewDataMessage_def
  zero_message_def zero_header_def

section \<open>Framing\<close>

definition defaultMaxMessageSize :: nat where "defaultMaxMessageSize = 16 * 1024 * 1024"

definition maxMessageSize :: "int \<Rightarrow> nat" where
  "maxMessageSize limit = (if 0 < limit then nat limit else defaultMaxMessageSize)"

definition read_full :: "nat \<Rightarrow> byte list \<Rightarrow> (hsms_error, byte list \<times> byte list) res" where
  "read_full n wire =
     (if n \<le> length wire then OK (take n wire, drop n wire)
      else if wire = [] then Err ErrEOF else Err ErrUnexpectedEOF)"

definition readMessage :: "nat \<Rightarrow> byte list \<Rightarrow> (hsms_error, Message \<times> byte list) res" where
  "readMessage maxSize wire =
     bind_res (read_full 4 wire) (\<lambda>(lenBuf, wire).
       let msgLen = (be_get 4 lenBuf :: uint32) in
       if unat msgLen < headerLen then Err (ErrTooSmall (unat msgLen))
       else if maxSize < unat msgLen then Err (ErrExceedsMax (unat msgLen) maxSize)
       else
         let n = unat (4 + msgLen) in
         if n < 4 then Panic
         else
           bind_res (read_full (n - 4) wire) (\<lambda>(body, wire).
             bind_res (UnmarshalBinary zero_message (lenBuf @ body)) (\<lambda>msg. OK (msg, wire))))"

text \<open>The messages a connection yields until the first error, with that error: what the loop of
  \<^verbatim>\<open>readLoop\<close> reads.\<close>

lemma readMessage_shorter:
  assumes "readMessage maxSize wire = OK (m, rest)"
  shows "length rest + 14 \<le> length wire"
  using assms
  by (auto simp: readMessage_def read_full_def Let_def res_simps UnmarshalBinary_def headerLen_def
      minMessageLen_def split: if_splits)

function read_messages :: "nat \<Rightarrow> byte list \<Rightarrow> Message list \<times> hsms_error option" where
  "read_messages maxSize wire =
     (case readMessage maxSize wire of
        OK x \<Rightarrow> (let (ms, e) = read_messages maxSize (snd x) in (fst x # ms, e))
      | Err e \<Rightarrow> ([], Some e)
      | Panic \<Rightarrow> ([], None))"
  by pat_completeness auto
termination
proof (relation "measure (\<lambda>(maxSize, wire). length wire)", goal_cases)
  case (2 maxSize wire x)
  then show ?case using readMessage_shorter [of maxSize wire "fst x" "snd x"] by simp
qed simp

declare read_messages.simps [simp del]

section \<open>Lemmas\<close>

text \<open>The wire form of a message whose length fits the length field.\<close>

definition stream_byte :: "Header \<Rightarrow> byte" where
  "stream_byte h = (if WBit h then (Stream h AND 0x7F) OR 0x80 else Stream h AND 0x7F)"

definition frame :: "Message \<Rightarrow> byte list" where
  "frame m =
     be_put 4 (word_of_nat (10 + length (MData m)) :: uint32) @ be_put 2 (SessionID (MHeader m)) @
     [stream_byte (MHeader m), Function (MHeader m), PType (MHeader m), HSType (MHeader m)] @
     be_put 4 (SystemID (MHeader m)) @ MData m"

definition fits :: "Message \<Rightarrow> bool" where
  "fits m \<longleftrightarrow> 14 + length (MData m) < 2 ^ 32"

lemma length_frame [simp]: "length (frame m) = 14 + length (MData m)"
  by (simp add: frame_def)

lemma unat_msgLen [simp]:
  assumes "fits m"
  shows "unat (10 + word_of_nat (length (MData m)) :: uint32) = 10 + length (MData m)"
    and "unat (14 + word_of_nat (length (MData m)) :: uint32) = 14 + length (MData m)"
proof -
  have l: "14 + length (MData m) < 4294967296" using assms by (simp add: fits_def)
  have "unat (word_of_nat (10 + length (MData m)) :: uint32) = 10 + length (MData m)"
    "unat (word_of_nat (14 + length (MData m)) :: uint32) = 14 + length (MData m)"
    using l by (simp_all only: unat_of_nat) simp_all
  then show "unat (10 + word_of_nat (length (MData m)) :: uint32) = 10 + length (MData m)"
    and "unat (14 + word_of_nat (length (MData m)) :: uint32) = 14 + length (MData m)"
    by simp_all
qed

lemma MarshalBinary_frame: "fits m \<Longrightarrow> MarshalBinary m = OK (frame m)"
  by (simp add: MarshalBinary_def Let_def headerLen_def minMessageLen_def frame_def
      stream_byte_def)

lemma stream_byte_bits:
  assumes "Stream h < 128"
  shows "stream_byte h AND 0x7F = Stream h" and "(stream_byte h AND 0x80 \<noteq> 0) = WBit h"
proof -
  have "Stream h AND 0x7F = take_bit 7 (Stream h)"
    by (simp add: take_bit_eq_mask mask_eq_exp_minus_1)
  also have "\<dots> = Stream h"
    using assms by (simp add: word_unat_eq_iff word_less_nat_alt unsigned_take_bit_eq take_bit_nat_eq_self)
  finally have s: "Stream h AND 0x7F = Stream h" .
  then show "stream_byte h AND 0x7F = Stream h"
    by (simp add: stream_byte_def and.assoc bit.conj_disj_distrib2)
  have "Stream h AND 0x80 = Stream h AND (0x7F AND 0x80)" unfolding and.assoc [symmetric] s by simp
  then show "(stream_byte h AND 0x80 \<noteq> 0) = WBit h"
    by (simp add: stream_byte_def s bit.conj_disj_distrib2)
qed

lemma frame_parts:
  "take 4 (frame m) = be_put 4 (word_of_nat (10 + length (MData m)) :: uint32)"
  "drop 4 (frame m @ rest) = be_put 2 (SessionID (MHeader m)) @ drop 6 (frame m) @ rest"
  "frame m ! 6 = stream_byte (MHeader m)" "frame m ! 7 = Function (MHeader m)"
  "frame m ! 8 = PType (MHeader m)" "frame m ! 9 = HSType (MHeader m)"
  "drop 10 (frame m) = be_put 4 (SystemID (MHeader m)) @ MData m"
  "drop 14 (frame m) = MData m"
  by (simp_all add: frame_def nth_append)

lemma be_get_frame:
  "fits m \<Longrightarrow> be_get 4 (frame m @ rest) = (word_of_nat (10 + length (MData m)) :: uint32)"
  unfolding frame_def append.assoc by (rule be_get_put) simp

lemma UnmarshalBinary_frame:
  assumes "fits m" and "Stream (MHeader m) < 128"
  shows "UnmarshalBinary zero_message (frame m) = OK m"
proof -
  have "be_get 4 (frame m) = (word_of_nat (10 + length (MData m)) :: uint32)"
    using be_get_frame [OF assms(1), of "[]"] by simp
  moreover have "be_get 2 (drop 4 (frame m)) = SessionID (MHeader m)"
    using be_get_put [of 2 "SessionID (MHeader m)"] frame_parts(2) [of m "[]"] by simp
  moreover have "be_get 4 (drop 10 (frame m)) = SystemID (MHeader m)"
    using be_get_put [of 4 "SystemID (MHeader m)"] by (simp add: frame_parts)
  ultimately show ?thesis
    using assms
    by (simp add: UnmarshalBinary_def minMessageLen_def headerLen_def Let_def
        frame_parts stream_byte_bits zero_message_def)
qed

lemma readMessage_frame:
  assumes "fits m" and "Stream (MHeader m) < 128" and "10 + length (MData m) \<le> maxSize"
  shows "readMessage maxSize (frame m @ rest) = OK (m, rest)"
proof -
  have g: "be_get 4 (take 4 (frame m)) = (word_of_nat (10 + length (MData m)) :: uint32)"
    using be_get_frame [OF assms(1), of "[]"] by (simp add: be_get_def)
  have "take 4 (frame m) @ take (10 + length (MData m)) (drop 4 (frame m)) = frame m"
    by (simp add: take_drop)
  with assms g show ?thesis
    by (simp add: readMessage_def read_full_def headerLen_def Let_def
        UnmarshalBinary_frame)
qed

section \<open>Properties\<close>

text \<open>Marshalling and unmarshalling an HSMS message are inverse when the stream number fits its
  seven bits and the frame length fits 32 bits.\<close>

theorem hsms_marshal_roundtrip:
  assumes "Stream (MHeader m) < 128" and "fits m"
  shows "\<exists>bs. MarshalBinary m = OK bs \<and> UnmarshalBinary zero_message bs = OK m"
  using assms MarshalBinary_frame UnmarshalBinary_frame by blast

theorem hsms_marshal_roundtrip_witness:
  "\<exists>bs. MarshalBinary (NewDataMessage 1 1 3 True 7 [1, 0]) = OK bs \<and>
     UnmarshalBinary zero_message bs = OK (NewDataMessage 1 1 3 True 7 [1, 0])"
  using hsms_marshal_roundtrip [of "NewDataMessage 1 1 3 True 7 [1, 0]"]
  by (simp add: new_message_defs fits_def)

lemma read_messages_frames:
  assumes "\<forall>m \<in> set ms. Stream (MHeader m) < 128 \<and> 10 + length (MData m) \<le> maxSize \<and> fits m"
  shows "read_messages maxSize (concat (map frame ms) @ rest) =
     (let (ms', e) = read_messages maxSize rest in (ms @ ms', e))"
  using assms
proof (induction ms)
  case (Cons m ms)
  then show ?case
    by (subst read_messages.simps) (simp add: readMessage_frame case_prod_unfold Let_def)
qed simp

text \<open>C11. Framing: from a connection that carries marshalled messages one after another, the read
  loop gets exactly these messages in order, whatever the segmentation, and then the end of the
  stream.\<close>

theorem read_loop_reframes:
  assumes "\<forall>m \<in> set ms. Stream (MHeader m) < 128 \<and> 10 + length (MData m) \<le> maxSize \<and> fits m"
  shows "\<exists>bss. map MarshalBinary ms = map OK bss \<and>
     read_messages maxSize (concat bss) = (ms, Some ErrEOF)"
proof (intro exI conjI)
  show "map MarshalBinary ms = map OK (map frame ms)"
    using assms by (simp add: MarshalBinary_frame)
  have "read_messages maxSize [] = ([], Some ErrEOF)"
    by (simp add: read_messages.simps readMessage_def read_full_def)
  then show "read_messages maxSize (concat (map frame ms)) = (ms, Some ErrEOF)"
    using read_messages_frames [OF assms, of "[]"] by simp
qed

theorem read_loop_reframes_witness:
  "\<exists>bss. map MarshalBinary [NewSelectReq 1 1, NewDataMessage 1 1 1 True 2 []] = map OK bss \<and>
     read_messages 16777216 (concat bss) =
       ([NewSelectReq 1 1, NewDataMessage 1 1 1 True 2 []], Some ErrEOF)"
  using read_loop_reframes [of "[NewSelectReq 1 1, NewDataMessage 1 1 1 True 2 []]" 16777216]
  by (simp add: new_message_defs fits_def)

lemma and_7F_less: "(b :: byte) AND 0x7F < 128"
proof -
  have "b AND 0x7F = take_bit 7 b" by (simp add: take_bit_eq_mask mask_eq_exp_minus_1)
  moreover have "take_bit 7 (unat b) < 128" using take_bit_nat_less_exp [of 7 "unat b"] by simp
  ultimately show ?thesis by (simp add: word_less_nat_alt unsigned_take_bit_eq)
qed

lemma UnmarshalBinary_whole:
  assumes "10 \<le> unat (be_get 4 data :: uint32)" and "length data = 4 + unat (be_get 4 data :: uint32)"
  shows "\<exists>m. UnmarshalBinary zero_message data = OK m \<and>
     length (MData m) = unat (be_get 4 data :: uint32) - 10 \<and> Stream (MHeader m) < 128"
  using assms and_7F_less [of "data ! 6"]
  by (simp add: UnmarshalBinary_def minMessageLen_def headerLen_def Let_def zero_message_def)

text \<open>The size limit holds for whatever arrives: a message that is read has a body that fits
  the limit, so at most four bytes more than the limit are buffered for it; with a limit below
  the 32-bit range the reader never panics.\<close>

theorem readMessage_bounded:
  assumes "maxSize < 2 ^ 32 - 4"
  shows "case readMessage maxSize wire of
     OK (m, rest) \<Rightarrow> headerLen + length (MData m) \<le> maxSize \<and> Stream (MHeader m) < 128 \<and>
       (\<exists>used. wire = used @ rest \<and> length used = 14 + length (MData m))
   | Err e \<Rightarrow> True | Panic \<Rightarrow> False"
proof (cases "4 \<le> length wire")
  case False
  then show ?thesis by (auto simp: readMessage_def read_full_def)
next
  case True
  let ?w = "be_get 4 (take 4 wire) :: uint32"
  have n: "unat (4 + ?w) = 4 + unat ?w" if "unat ?w \<le> maxSize"
  proof -
    have "unat (4 :: uint32) + unat ?w < 2 ^ LENGTH(32)" using that assms by simp
    then have "unat (4 + ?w) = unat (4 :: uint32) + unat ?w" by (simp only: unat_add_lem)
    then show ?thesis by simp
  qed
  consider "unat ?w < 10" | "maxSize < unat ?w"
    | (short) "10 \<le> unat ?w" "unat ?w \<le> maxSize" "length wire - 4 < unat ?w"
    | (ok) "10 \<le> unat ?w" "unat ?w \<le> maxSize" "unat ?w + 4 \<le> length wire"
    using True by linarith
  then show ?thesis
  proof cases
    case ok
    let ?data = "take (4 + unat ?w) wire"
    have d: "take 4 wire @ take (unat ?w) (drop 4 wire) = ?data" by (simp add: take_add)
    have "be_get 4 ?data = ?w" by (simp add: be_get_def min_def)
    then obtain m where m: "UnmarshalBinary zero_message ?data = OK m"
      "length (MData m) = unat ?w - 10" "Stream (MHeader m) < 128"
      using UnmarshalBinary_whole [of ?data] ok by auto
    with ok True n d have "readMessage maxSize wire = OK (m, drop (4 + unat ?w) wire)"
      by (simp add: readMessage_def read_full_def headerLen_def Let_def add.commute)
    with m ok show ?thesis
      by (auto simp: headerLen_def intro!: exI [of _ ?data])
  qed (use True n in \<open>auto simp: readMessage_def read_full_def headerLen_def Let_def\<close>)
qed

theorem readMessage_bounded_witness:
  "case readMessage 16777216 [0, 0, 0, 9] of
     OK (m, rest) \<Rightarrow> headerLen + length (MData m) \<le> 16777216 \<and> Stream (MHeader m) < 128 \<and>
       (\<exists>used. [0, 0, 0, 9] = used @ rest \<and> length used = 14 + length (MData m))
   | Err e \<Rightarrow> True | Panic \<Rightarrow> False"
  using readMessage_bounded [of 16777216 "[0, 0, 0, 9]"] by simp

end
