(* ===== verification/Hsms_Session.thy ===== *)
theory Hsms_Session
  imports Hsms_Message
begin

text \<open>
  The HSMS session (\<^verbatim>\<open>pkg/transport/hsms/session.go\<close>, \<^verbatim>\<open>config.go\<close>, \<^verbatim>\<open>transport.State\<close>): the
  operations as functions on the session state, and their interleaving as a step relation. A
  call that blocks (\<^verbatim>\<open>sendAndWait\<close>) is two steps, its begin and its end; in between the
  goroutine is an entry of \<open>ss_waiting\<close>. Everything between two blocking points is one step. What
  the network decides (a dial, an accept, a write that fails) is an argument of the operation.
\<close>

section \<open>Configuration\<close>

datatype Role = RoleActive | RolePassive

type_synonym ip = "byte list"

record Config =
  cfg_Role :: Role
  cfg_SessionID :: uint16
  cfg_T3 :: int
  cfg_T5 :: int
  cfg_T6 :: int
  cfg_T7 :: int
  cfg_T8 :: int
  cfg_LinktestInterval :: int
  cfg_TLS :: bool
  cfg_AllowedPeers :: "ip list"
  cfg_MaxConnections :: int
  cfg_MaxMessageRate :: int
  cfg_MaxMessageSize :: int
  cfg_SessionTTL :: int
  cfg_Auditor :: bool

definition second :: int where "second = 1000000000"

definition DefaultConfig :: "Role \<Rightarrow> uint16 \<Rightarrow> Config" where
  "DefaultConfig role sessionID =
     \<lparr>cfg_Role = role, cfg_SessionID = sessionID, cfg_T3 = 45 * second, cfg_T5 = 10 * second,
      cfg_T6 = 5 * second, cfg_T7 = 10 * second, cfg_T8 = 5 * second,
      cfg_LinktestInterval = 30 * second, cfg_TLS = False, cfg_AllowedPeers = [],
      cfg_MaxConnections = 0, cfg_MaxMessageRate = 0, cfg_MaxMessageSize = 0, cfg_SessionTTL = 0,
      cfg_Auditor = False\<rparr>"

definition SecureConfig :: "Role \<Rightarrow> uint16 \<Rightarrow> bool \<Rightarrow> Config" where
  "SecureConfig role sessionID tlsConfig =
     (DefaultConfig role sessionID)\<lparr>cfg_TLS := tlsConfig, cfg_MaxConnections := 10,
        cfg_MaxMessageRate := 1000, cfg_MaxMessageSize := 16 * 1024 * 1024,
        cfg_SessionTTL := 24 * 3600 * second\<rparr>"

text \<open>\<^verbatim>\<open>net.IP.Equal\<close>: an IPv4 address equals its IPv6-mapped form.\<close>

definition v4InV6Prefix :: ip where
  "v4InV6Prefix = [0, 0, 0, 0, 0, 0, 0, 0, 0, 0, 0xFF, 0xFF]"

definition ip_Equal :: "ip \<Rightarrow> ip \<Rightarrow> bool" where
  "ip_Equal a b =
     (if length a = length b then a = b
      else if length a = 4 \<and> length b = 16 then take 12 b = v4InV6Prefix \<and> drop 12 b = a
      else if length a = 16 \<and> length b = 4 then take 12 a = v4InV6Prefix \<and> drop 12 a = b
      else False)"

definition isAllowed :: "ip \<Rightarrow> ip list \<Rightarrow> bool" where
  "isAllowed addr allowlist = list_ex (\<lambda>a. ip_Equal a addr) allowlist"

section \<open>State\<close>

datatype State = StateDisconnected | StateConnecting | StateConnected | StateSelected

fun state_ord :: "State \<Rightarrow> nat" where
  "state_ord StateDisconnected = 0"
| "state_ord StateConnecting = 1"
| "state_ord StateConnected = 2"
| "state_ord StateSelected = 3"

datatype audit_event =
    AuthFailed
  | TLSHandshakeOK
  | ConnectionRejected string
  | SessionExpired
  | MalformedMessage hsms_error
  | RateLimited
  | UnauthorizedMessage byte byte

record Conn =
  c_peer :: ip
  c_open :: bool

datatype wait_kind = WSelect | WLinktest | WSend

record waiter =
  w_chan :: nat
  w_sys :: uint32
  w_kind :: wait_kind

text \<open>\<open>ss_chans\<close> are the reply channels (capacity one) and what is buffered in them; \<open>ss_sent\<close>
  are the frames written to the connection; \<open>ss_started\<close> says that the loops were started and
  \<open>ss_cancelled\<close> that their context was cancelled.\<close>

record Session =
  ss_config :: Config
  ss_state :: State
  ss_conn :: "Conn option"
  ss_listener :: "bool option"
  ss_nextSystemID :: uint32
  ss_pending :: "(uint32, nat) gomap"
  ss_chans :: "(nat, Message) gomap"
  ss_nextChan :: nat
  ss_waiting :: "waiter list"
  ss_inbound :: "Message list"
  ss_started :: bool
  ss_cancelled :: bool
  ss_done :: bool
  ss_closed :: bool
  ss_sent :: "byte list list"
  ss_audit :: "audit_event list"

definition inbound_cap :: nat where "inbound_cap = 256"

definition NewSession :: "Config \<Rightarrow> Session" where
  "NewSession config =
     \<lparr>ss_config = config, ss_state = StateDisconnected, ss_conn = None, ss_listener = None,
      ss_nextSystemID = 0, ss_pending = [], ss_chans = [], ss_nextChan = 0, ss_waiting = [],
      ss_inbound = [], ss_started = False, ss_cancelled = False, ss_done = False,
      ss_closed = False, ss_sent = [], ss_audit = []\<rparr>"

definition audit :: "audit_event \<Rightarrow> Session \<Rightarrow> Session" where
  "audit e s = (if cfg_Auditor (ss_config s) then s\<lparr>ss_audit := ss_audit s @ [e]\<rparr> else s)"

section \<open>Connecting\<close>

definition startLoops :: "Session \<Rightarrow> Session" where
  "startLoops s = s\<lparr>ss_started := True, ss_cancelled := False\<rparr>"

definition connectActive ::
  "bool \<Rightarrow> bool \<Rightarrow> ip \<Rightarrow> Session \<Rightarrow> Session \<times> (hsms_error, unit) res" where
  "connectActive dial_ok tls_ok peer s =
     (if \<not> dial_ok then (s, Err ErrDial)
      else if cfg_TLS (ss_config s) \<and> \<not> tls_ok then (audit AuthFailed s, Err ErrDial)
      else
        let s = (if cfg_TLS (ss_config s) then audit TLSHandshakeOK s else s)
        in (s\<lparr>ss_conn := Some \<lparr>c_peer = peer, c_open = True\<rparr>\<rparr>, OK ()))"

definition listenPassive :: "bool \<Rightarrow> Session \<Rightarrow> Session \<times> (hsms_error, unit) res" where
  "listenPassive listen_ok s =
     (if listen_ok then (s\<lparr>ss_listener := Some True\<rparr>, OK ()) else (s, Err ErrListen))"

definition Connect ::
  "bool \<Rightarrow> bool \<Rightarrow> ip \<Rightarrow> Session \<Rightarrow> Session \<times> (hsms_error, unit) res" where
  "Connect net_ok tls_ok peer s =
     (if ss_state s \<noteq> StateDisconnected then (s, Err ErrState)
      else
        let s = s\<lparr>ss_state := StateConnecting\<rparr> in
        case cfg_Role (ss_config s) of
          RoleActive \<Rightarrow>
            (case connectActive net_ok tls_ok peer s of
               (s, OK _) \<Rightarrow> (startLoops (s\<lparr>ss_state := StateConnected\<rparr>), OK ())
             | (s, r) \<Rightarrow> (s\<lparr>ss_state := StateDisconnected\<rparr>, r))
        | RolePassive \<Rightarrow>
            (case listenPassive net_ok s of
               (s, OK _) \<Rightarrow> (s, OK ())
             | (s, r) \<Rightarrow> (s\<lparr>ss_state := StateDisconnected\<rparr>, r)))"

text \<open>\<^verbatim>\<open>acceptAndRun\<close> after \<^verbatim>\<open>Accept\<close> returned a connection from \<open>peer\<close>. A refused peer is closed
  and the accept is repeated.\<close>

definition acceptAndRun :: "ip \<Rightarrow> Session \<Rightarrow> Session" where
  "acceptAndRun peer s =
     (if cfg_AllowedPeers (ss_config s) \<noteq> [] \<and> \<not> isAllowed peer (cfg_AllowedPeers (ss_config s)) then
        audit (ConnectionRejected ''IP not in allowlist'') s
      else
        startLoops (s\<lparr>ss_conn := Some \<lparr>c_peer = peer, c_open = True\<rparr>, ss_state := StateConnected\<rparr>))"

definition Close :: "Session \<Rightarrow> Session" where
  "Close s =
     (if ss_closed s then s
      else s\<lparr>ss_closed := True, ss_cancelled := (if ss_started s then True else ss_cancelled s),
             ss_conn := map_option (\<lambda>c. c\<lparr>c_open := False\<rparr>) (ss_conn s),
             ss_listener := map_option (\<lambda>_. False) (ss_listener s),
             ss_state := StateDisconnected, ss_done := True\<rparr>)"

section \<open>Writing and waiting\<close>

text \<open>\<open>w\<close> says whether the operating system accepts the write; a closed connection never does.\<close>

definition writeMessage :: "bool \<Rightarrow> Message \<Rightarrow> Session \<Rightarrow> (hsms_error, Session) res" where
  "writeMessage w msg s =
     bind_res (MarshalBinary msg) (\<lambda>data.
       case ss_conn s of
         None \<Rightarrow> Err ErrNoConnection
       | Some c \<Rightarrow> if c_open c \<and> w then OK (s\<lparr>ss_sent := ss_sent s @ [data]\<rparr>) else Err ErrWrite)"

text \<open>\<^verbatim>\<open>sendAndWait\<close> up to its \<^verbatim>\<open>select\<close>, and its two ends: a reply in the channel, or the timer
  or the context. Both ends run the deferred delete, which removes the entry of this system id
  whichever call put it there.\<close>

definition sendAndWait_begin ::
  "bool \<Rightarrow> wait_kind \<Rightarrow> Message \<Rightarrow> Session \<Rightarrow> Session \<times> (hsms_error, unit) res" where
  "sendAndWait_begin w kind msg s =
     (let ch = ss_nextChan s; sys = SystemID (MHeader msg);
          s = s\<lparr>ss_nextChan := Suc ch, ss_pending := AList.update sys ch (ss_pending s)\<rparr>
      in case writeMessage w msg s of
           OK s \<Rightarrow> (s\<lparr>ss_waiting := ss_waiting s @ [\<lparr>w_chan = ch, w_sys = sys, w_kind = kind\<rparr>]\<rparr>, OK ())
         | Err e \<Rightarrow> (s\<lparr>ss_pending := AList.delete sys (ss_pending s)\<rparr>, Err e)
         | Panic \<Rightarrow> (s\<lparr>ss_pending := AList.delete sys (ss_pending s)\<rparr>, Panic))"

definition end_wait :: "waiter \<Rightarrow> Session \<Rightarrow> Session" where
  "end_wait wt s = s\<lparr>ss_pending := AList.delete (w_sys wt) (ss_pending s),
     ss_waiting := remove1 wt (ss_waiting s)\<rparr>"

definition next_sys :: "Session \<Rightarrow> Session \<times> uint32" where
  "next_sys s = (let n = ss_nextSystemID s + 1 in (s\<lparr>ss_nextSystemID := n\<rparr>, n))"

definition Select_begin :: "bool \<Rightarrow> Session \<Rightarrow> Session \<times> (hsms_error, unit) res" where
  "Select_begin w s =
     (if ss_state s \<noteq> StateConnected then (s, Err ErrState)
      else let (s, systemID) = next_sys s
           in sendAndWait_begin w WSelect (NewSelectReq (cfg_SessionID (ss_config s)) systemID) s)"

definition Select_finish :: "Message \<Rightarrow> Session \<Rightarrow> Session \<times> (hsms_error, unit) res" where
  "Select_finish rsp s =
     (if HSType (MHeader rsp) \<noteq> STypeSelectRsp then
        (s, Err (ErrUnexpectedType (HSType (MHeader rsp))))
      else if Stream (MHeader rsp) \<noteq> SelectStatusSuccess then
        (s, Err (ErrSelectRejected (Stream (MHeader rsp))))
      else (s\<lparr>ss_state := StateSelected\<rparr>, OK ()))"

definition Send :: "bool \<Rightarrow> byte list \<Rightarrow> Session \<Rightarrow> Session \<times> (hsms_error, unit) res" where
  "Send w data s =
     (if ss_state s \<noteq> StateSelected then (s, Err ErrState)
      else case writeMessage w \<lparr>MHeader = zero_header\<lparr>SessionID := cfg_SessionID (ss_config s),
             HSType := STypeDataMessage\<rparr>, MData = data\<rparr> s of
             OK s \<Rightarrow> (s, OK ()) | Err e \<Rightarrow> (s, Err e) | Panic \<Rightarrow> (s, Panic))"

definition assign_sys :: "Message \<Rightarrow> Session \<Rightarrow> Session \<times> Message" where
  "assign_sys msg s =
     (if SystemID (MHeader msg) = 0 then
        let (s, n) = next_sys s in (s, msg\<lparr>MHeader := (MHeader msg)\<lparr>SystemID := n\<rparr>\<rparr>)
      else (s, msg))"

definition SendMessage_begin ::
  "bool \<Rightarrow> Message \<Rightarrow> Session \<Rightarrow> Session \<times> (hsms_error, unit) res" where
  "SendMessage_begin w msg s =
     (if ss_state s \<noteq> StateSelected \<and> HSType (MHeader msg) = STypeDataMessage then (s, Err ErrState)
      else
        let (s, msg) = assign_sys msg s; h = MHeader msg
        in if HSType h \<in> {STypeLinktestReq, STypeDeselectReq, STypeSelectReq} then
             sendAndWait_begin w WSend msg s
           else if HSType h = STypeDataMessage \<and> WBit h \<and> Function h mod 2 = 1 then
             sendAndWait_begin w WSend msg s
           else (case writeMessage w msg s of
                   OK s \<Rightarrow> (s, OK ()) | Err e \<Rightarrow> (s, Err e) | Panic \<Rightarrow> (s, Panic)))"

text \<open>\<^verbatim>\<open>Receive\<close>/\<^verbatim>\<open>ReceiveMessage\<close> when a message is buffered.\<close>

definition ReceiveMessage :: "Session \<Rightarrow> (Message \<times> Session) option" where
  "ReceiveMessage s =
     (case ss_inbound s of [] \<Rightarrow> None | m # ms \<Rightarrow> Some (m, s\<lparr>ss_inbound := ms\<rparr>))"

section \<open>Incoming messages\<close>

text \<open>A write whose failure is only logged and ends the handler.\<close>

definition or_return ::
  "(hsms_error, Session) res \<Rightarrow> Session \<Rightarrow> (Session \<Rightarrow> Session) \<Rightarrow> (hsms_error, Session) res" where
  "or_return r s k = (case r of OK s' \<Rightarrow> OK (k s') | Err _ \<Rightarrow> OK s | Panic \<Rightarrow> Panic)"

definition rejectNotSelected :: "bool \<Rightarrow> Message \<Rightarrow> Session \<Rightarrow> (hsms_error, Session) res" where
  "rejectNotSelected w msg s =
     (let h = MHeader msg; s = audit (UnauthorizedMessage (Stream h) (Function h)) s;
          rsp = NewRejectReq (SessionID h) (SystemID h) STypeDataMessage RejectReasonEntityNotSelected
      in or_return (writeMessage w rsp s) s (\<lambda>s. s))"

definition handleSelectReq :: "bool \<Rightarrow> Message \<Rightarrow> Session \<Rightarrow> (hsms_error, Session) res" where
  "handleSelectReq w msg s =
     (let status = (if ss_state s = StateSelected then SelectStatusAlreadyActive
                    else SelectStatusSuccess);
          rsp = NewSelectRsp (SessionID (MHeader msg)) (SystemID (MHeader msg)) status
      in or_return (writeMessage w rsp s) s
           (\<lambda>s. if status = SelectStatusSuccess then s\<lparr>ss_state := StateSelected\<rparr> else s))"

definition handleDeselectReq :: "bool \<Rightarrow> Message \<Rightarrow> Session \<Rightarrow> (hsms_error, Session) res" where
  "handleDeselectReq w msg s =
     (let rsp = NewDeselectRsp (SessionID (MHeader msg)) (SystemID (MHeader msg)) 0
      in or_return (writeMessage w rsp s) s (\<lambda>s. s\<lparr>ss_state := StateConnected\<rparr>))"

definition handleMessage :: "bool \<Rightarrow> Message \<Rightarrow> Session \<Rightarrow> (hsms_error, Session) res" where
  "handleMessage w msg s =
     (let h = MHeader msg in
      case map_of (ss_pending s) (SystemID h) of
        Some ch \<Rightarrow>
          OK (case map_of (ss_chans s) ch of
                None \<Rightarrow> s\<lparr>ss_chans := AList.update ch msg (ss_chans s)\<rparr>
              | Some _ \<Rightarrow> s)
      | None \<Rightarrow>
          if HSType h = STypeDataMessage then
            (if ss_state s \<noteq> StateSelected then rejectNotSelected w msg s
             else if length (ss_inbound s) < inbound_cap then
               OK (s\<lparr>ss_inbound := ss_inbound s @ [msg]\<rparr>)
             else OK s)
          else if HSType h = STypeSelectReq then handleSelectReq w msg s
          else if HSType h = STypeDeselectReq then handleDeselectReq w msg s
          else if HSType h = STypeLinktestReq then
            or_return (writeMessage w (NewLinktestRsp (SystemID h)) s) s (\<lambda>s. s)
          else if HSType h = STypeSeparateReq then OK (Close s)
          else OK s)"

text \<open>One iteration of \<^verbatim>\<open>readLoop\<close>: what \<^verbatim>\<open>readMessage\<close> returned and, when there is a rate limiter,
  whether it allowed the message. The loop ends (with the deferred \<^verbatim>\<open>Close\<close>) on every error.\<close>

definition readLoop_step ::
  "bool \<Rightarrow> bool \<Rightarrow> (hsms_error, Message) res \<Rightarrow> Session \<Rightarrow> (hsms_error, Session) res" where
  "readLoop_step allow w r s =
     (case r of
        Err e \<Rightarrow>
          OK (if ss_closed s then s
              else if e = ErrEOF then Close s
              else Close (audit (MalformedMessage e) s))
      | Panic \<Rightarrow> Panic
      | OK msg \<Rightarrow>
          if 0 < cfg_MaxMessageRate (ss_config s) \<and> \<not> allow then OK (audit RateLimited s)
          else handleMessage w msg s)"

section \<open>Timers\<close>

definition t7_fires :: "Session \<Rightarrow> Session" where
  "t7_fires s =
     (if ss_state s = StateSelected \<or> ss_closed s then s
      else Close (audit (ConnectionRejected ''T7 not-selected timeout'') s))"

definition sessionTTL_fires :: "Session \<Rightarrow> Session" where
  "sessionTTL_fires s = Close (audit SessionExpired s)"

definition linktest_tick :: "bool \<Rightarrow> Session \<Rightarrow> Session \<times> (hsms_error, unit) res" where
  "linktest_tick w s =
     (if state_ord (ss_state s) < state_ord StateConnected then (s, OK ())
      else
        let (s, systemID) = next_sys s in
        case sendAndWait_begin w WLinktest (NewLinktestReq systemID) s of
          (s, OK _) \<Rightarrow> (s, OK ())
        | (s, Err e) \<Rightarrow> (Close s, Err e)
        | (s, Panic) \<Rightarrow> (s, Panic))"

text \<open>The goroutine that waited goes on: \<^verbatim>\<open>Select\<close> looks at the reply, the linktest loop closes the
  session when there was none.\<close>

definition wait_reply :: "waiter \<Rightarrow> Message \<Rightarrow> Session \<Rightarrow> Session" where
  "wait_reply wt rsp s =
     (let s = end_wait wt s in
      case w_kind wt of WSelect \<Rightarrow> fst (Select_finish rsp s) | WLinktest \<Rightarrow> s | WSend \<Rightarrow> s)"

definition wait_fails :: "waiter \<Rightarrow> Session \<Rightarrow> Session" where
  "wait_fails wt s =
     (let s = end_wait wt s in
      case w_kind wt of WSelect \<Rightarrow> s | WLinktest \<Rightarrow> Close s | WSend \<Rightarrow> s)"

section \<open>Interleaving\<close>

datatype session_event =
    EvConnect bool bool ip
  | EvAccept ip
  | EvSelect bool
  | EvReply waiter
  | EvWaitFails waiter
  | EvRead bool bool "(hsms_error, Message) res"
  | EvSend bool "byte list"
  | EvSendMessage bool Message
  | EvReceive Message
  | EvT7
  | EvTTL
  | EvLinktest bool
  | EvClose

inductive session_step :: "Session \<Rightarrow> session_event \<Rightarrow> Session \<Rightarrow> bool" where
  step_connect: "session_step s (EvConnect n t peer) (fst (Connect n t peer s))"
| step_accept: "ss_listener s = Some True \<Longrightarrow> ss_state s = StateConnecting \<Longrightarrow>
    session_step s (EvAccept peer) (acceptAndRun peer s)"
| step_select: "session_step s (EvSelect w) (fst (Select_begin w s))"
| step_reply: "wt \<in> set (ss_waiting s) \<Longrightarrow> map_of (ss_chans s) (w_chan wt) = Some rsp \<Longrightarrow>
    session_step s (EvReply wt) (wait_reply wt rsp s)"
| step_wait_fails: "wt \<in> set (ss_waiting s) \<Longrightarrow> session_step s (EvWaitFails wt) (wait_fails wt s)"
| step_read: "ss_started s \<Longrightarrow> readLoop_step a w r s = OK s' \<Longrightarrow>
    session_step s (EvRead a w r) s'"
| step_send: "session_step s (EvSend w data) (fst (Send w data s))"
| step_sendmessage: "session_step s (EvSendMessage w msg) (fst (SendMessage_begin w msg s))"
| step_receive: "ReceiveMessage s = Some (m, s') \<Longrightarrow> session_step s (EvReceive m) s'"
| step_t7: "ss_started s \<Longrightarrow> 0 < cfg_T7 (ss_config s) \<Longrightarrow> session_step s EvT7 (t7_fires s)"
| step_ttl: "ss_started s \<Longrightarrow> 0 < cfg_SessionTTL (ss_config s) \<Longrightarrow>
    session_step s EvTTL (sessionTTL_fires s)"
| step_linktest: "ss_started s \<Longrightarrow> 0 < cfg_LinktestInterval (ss_config s) \<Longrightarrow>
    session_step s (EvLinktest w) (fst (linktest_tick w s))"
| step_close: "session_step s EvClose (Close s)"

inductive session_run :: "Session \<Rightarrow> session_event list \<Rightarrow> Session \<Rightarrow> bool" where
  run_Nil: "session_run s [] s"
| run_snoc: "session_run s es t \<Longrightarrow> session_step t e u \<Longrightarrow> session_run s (es @ [e]) u"

section \<open>What the operations leave alone\<close>

lemma audit_frame [simp]:
  "ss_config (audit e s) = ss_config s"
  "ss_state (audit e s) = ss_state s"
  "ss_conn (audit e s) = ss_conn s"
  "ss_listener (audit e s) = ss_listener s"
  "ss_nextSystemID (audit e s) = ss_nextSystemID s"
  "ss_pending (audit e s) = ss_pending s"
  "ss_chans (audit e s) = ss_chans s"
  "ss_nextChan (audit e s) = ss_nextChan s"
  "ss_waiting (audit e s) = ss_waiting s"
  "ss_inbound (audit e s) = ss_inbound s"
  "ss_started (audit e s) = ss_started s"
  "ss_cancelled (audit e s) = ss_cancelled s"
  "ss_done (audit e s) = ss_done s"
  "ss_closed (audit e s) = ss_closed s"
  "ss_sent (audit e s) = ss_sent s"
  by (simp_all add: audit_def)

lemma startLoops_frame [simp]:
  "ss_config (startLoops s) = ss_config s"
  "ss_state (startLoops s) = ss_state s"
  "ss_conn (startLoops s) = ss_conn s"
  "ss_listener (startLoops s) = ss_listener s"
  "ss_nextSystemID (startLoops s) = ss_nextSystemID s"
  "ss_pending (startLoops s) = ss_pending s"
  "ss_chans (startLoops s) = ss_chans s"
  "ss_nextChan (startLoops s) = ss_nextChan s"
  "ss_waiting (startLoops s) = ss_waiting s"
  "ss_inbound (startLoops s) = ss_inbound s"
  "ss_done (startLoops s) = ss_done s"
  "ss_closed (startLoops s) = ss_closed s"
  "ss_sent (startLoops s) = ss_sent s"
  "ss_audit (startLoops s) = ss_audit s"
  by (simp_all add: startLoops_def)

lemma Close_frame [simp]:
  "ss_config (Close s) = ss_config s"
  "ss_nextSystemID (Close s) = ss_nextSystemID s"
  "ss_pending (Close s) = ss_pending s"
  "ss_chans (Close s) = ss_chans s"
  "ss_nextChan (Close s) = ss_nextChan s"
  "ss_waiting (Close s) = ss_waiting s"
  "ss_inbound (Close s) = ss_inbound s"
  "ss_started (Close s) = ss_started s"
  "ss_sent (Close s) = ss_sent s"
  "ss_audit (Close s) = ss_audit s"
  by (simp_all add: Close_def)

lemma writeMessage_OKD:
  assumes "writeMessage w m s = OK s'"
  shows "\<exists>d c. MarshalBinary m = OK d \<and> s' = s\<lparr>ss_sent := ss_sent s @ [d]\<rparr> \<and>
     ss_conn s = Some c \<and> c_open c \<and> w"
  using assms by (auto simp: writeMessage_def res_simps split: option.splits if_splits)

lemma sendAndWait_frame [simp]:
  "ss_config (fst (sendAndWait_begin w k m s)) = ss_config s"
  "ss_state (fst (sendAndWait_begin w k m s)) = ss_state s"
  "ss_conn (fst (sendAndWait_begin w k m s)) = ss_conn s"
  "ss_listener (fst (sendAndWait_begin w k m s)) = ss_listener s"
  "ss_nextSystemID (fst (sendAndWait_begin w k m s)) = ss_nextSystemID s"
  "ss_chans (fst (sendAndWait_begin w k m s)) = ss_chans s"
  "ss_inbound (fst (sendAndWait_begin w k m s)) = ss_inbound s"
  "ss_started (fst (sendAndWait_begin w k m s)) = ss_started s"
  "ss_cancelled (fst (sendAndWait_begin w k m s)) = ss_cancelled s"
  "ss_done (fst (sendAndWait_begin w k m s)) = ss_done s"
  "ss_closed (fst (sendAndWait_begin w k m s)) = ss_closed s"
  "ss_audit (fst (sendAndWait_begin w k m s)) = ss_audit s"
  by (auto simp: sendAndWait_begin_def Let_def split: res.splits dest!: writeMessage_OKD)

lemma next_sys_eq: "next_sys s = (s\<lparr>ss_nextSystemID := ss_nextSystemID s + 1\<rparr>, ss_nextSystemID s + 1)"
  by (simp add: next_sys_def Let_def)

lemma control_fits [simp]: "MData m = [] \<Longrightarrow> fits m"
  by (simp add: fits_def)

lemma new_message_data [simp]:
  "MData (NewSelectReq a b) = []" "MData (NewSelectRsp a b c) = []" "MData (NewDeselectRsp a b c) = []"
  "MData (NewLinktestReq b) = []" "MData (NewLinktestRsp b) = []"
  "MData (NewRejectReq a b c d) = []"
  by (simp_all add: new_message_defs)

text \<open>Answering with a control message cannot panic: the frame is written, or the failed write
  is logged.\<close>

lemma or_return_control:
  assumes "MData rsp = []"
  shows "or_return (writeMessage w rsp s) t k =
     OK (case ss_conn s of
           None \<Rightarrow> t
         | Some c \<Rightarrow> if c_open c \<and> w then k (s\<lparr>ss_sent := ss_sent s @ [frame rsp]\<rparr>) else t)"
  using assms
  by (auto simp: or_return_def writeMessage_def MarshalBinary_frame split: option.splits)

lemma Connect_frame [simp]:
  "ss_config (fst (Connect n t peer s)) = ss_config s"
  "ss_nextSystemID (fst (Connect n t peer s)) = ss_nextSystemID s"
  "ss_pending (fst (Connect n t peer s)) = ss_pending s"
  "ss_chans (fst (Connect n t peer s)) = ss_chans s"
  "ss_nextChan (fst (Connect n t peer s)) = ss_nextChan s"
  "ss_waiting (fst (Connect n t peer s)) = ss_waiting s"
  "ss_inbound (fst (Connect n t peer s)) = ss_inbound s"
  "ss_done (fst (Connect n t peer s)) = ss_done s"
  "ss_closed (fst (Connect n t peer s)) = ss_closed s"
  "ss_sent (fst (Connect n t peer s)) = ss_sent s"
  by (auto simp: Connect_def connectActive_def listenPassive_def Let_def split: Role.splits)

lemma acceptAndRun_frame [simp]:
  "ss_config (acceptAndRun peer s) = ss_config s"
  "ss_listener (acceptAndRun peer s) = ss_listener s"
  "ss_nextSystemID (acceptAndRun peer s) = ss_nextSystemID s"
  "ss_pending (acceptAndRun peer s) = ss_pending s"
  "ss_chans (acceptAndRun peer s) = ss_chans s"
  "ss_nextChan (acceptAndRun peer s) = ss_nextChan s"
  "ss_waiting (acceptAndRun peer s) = ss_waiting s"
  "ss_inbound (acceptAndRun peer s) = ss_inbound s"
  "ss_done (acceptAndRun peer s) = ss_done s"
  "ss_closed (acceptAndRun peer s) = ss_closed s"
  "ss_sent (acceptAndRun peer s) = ss_sent s"
  by (simp_all add: acceptAndRun_def)

lemma Select_begin_frame [simp]:
  "ss_config (fst (Select_begin w s)) = ss_config s"
  "ss_state (fst (Select_begin w s)) = ss_state s"
  "ss_conn (fst (Select_begin w s)) = ss_conn s"
  "ss_listener (fst (Select_begin w s)) = ss_listener s"
  "ss_chans (fst (Select_begin w s)) = ss_chans s"
  "ss_inbound (fst (Select_begin w s)) = ss_inbound s"
  "ss_started (fst (Select_begin w s)) = ss_started s"
  "ss_cancelled (fst (Select_begin w s)) = ss_cancelled s"
  "ss_done (fst (Select_begin w s)) = ss_done s"
  "ss_closed (fst (Select_begin w s)) = ss_closed s"
  "ss_audit (fst (Select_begin w s)) = ss_audit s"
  by (simp_all add: Select_begin_def next_sys_eq)

lemma Select_finish_frame [simp]:
  "ss_config (fst (Select_finish rsp s)) = ss_config s"
  "ss_conn (fst (Select_finish rsp s)) = ss_conn s"
  "ss_listener (fst (Select_finish rsp s)) = ss_listener s"
  "ss_nextSystemID (fst (Select_finish rsp s)) = ss_nextSystemID s"
  "ss_pending (fst (Select_finish rsp s)) = ss_pending s"
  "ss_chans (fst (Select_finish rsp s)) = ss_chans s"
  "ss_nextChan (fst (Select_finish rsp s)) = ss_nextChan s"
  "ss_waiting (fst (Select_finish rsp s)) = ss_waiting s"
  "ss_inbound (fst (Select_finish rsp s)) = ss_inbound s"
  "ss_started (fst (Select_finish rsp s)) = ss_started s"
  "ss_cancelled (fst (Select_finish rsp s)) = ss_cancelled s"
  "ss_done (fst (Select_finish rsp s)) = ss_done s"
  "ss_closed (fst (Select_finish rsp s)) = ss_closed s"
  "ss_sent (fst (Select_finish rsp s)) = ss_sent s"
  "ss_audit (fst (Select_finish rsp s)) = ss_audit s"
  by (simp_all add: Select_finish_def)

lemma end_wait_frame [simp]:
  "ss_config (end_wait wt s) = ss_config s"
  "ss_state (end_wait wt s) = ss_state s"
  "ss_conn (end_wait wt s) = ss_conn s"
  "ss_listener (end_wait wt s) = ss_listener s"
  "ss_nextSystemID (end_wait wt s) = ss_nextSystemID s"
  "ss_chans (end_wait wt s) = ss_chans s"
  "ss_nextChan (end_wait wt s) = ss_nextChan s"
  "ss_inbound (end_wait wt s) = ss_inbound s"
  "ss_started (end_wait wt s) = ss_started s"
  "ss_cancelled (end_wait wt s) = ss_cancelled s"
  "ss_done (end_wait wt s) = ss_done s"
  "ss_closed (end_wait wt s) = ss_closed s"
  "ss_sent (end_wait wt s) = ss_sent s"
  "ss_audit (end_wait wt s) = ss_audit s"
  by (simp_all add: end_wait_def)

lemma wait_reply_frame [simp]:
  "ss_config (wait_reply wt rsp s) = ss_config s"
  "ss_conn (wait_reply wt rsp s) = ss_conn s"
  "ss_listener (wait_reply wt rsp s) = ss_listener s"
  "ss_nextSystemID (wait_reply wt rsp s) = ss_nextSystemID s"
  "ss_chans (wait_reply wt rsp s) = ss_chans s"
  "ss_nextChan (wait_reply wt rsp s) = ss_nextChan s"
  "ss_inbound (wait_reply wt rsp s) = ss_inbound s"
  "ss_started (wait_reply wt rsp s) = ss_started s"
  "ss_cancelled (wait_reply wt rsp s) = ss_cancelled s"
  "ss_done (wait_reply wt rsp s) = ss_done s"
  "ss_closed (wait_reply wt rsp s) = ss_closed s"
  "ss_sent (wait_reply wt rsp s) = ss_sent s"
  "ss_audit (wait_reply wt rsp s) = ss_audit s"
  by (auto simp: wait_reply_def Let_def split: wait_kind.splits)

lemma wait_fails_frame [simp]:
  "ss_config (wait_fails wt s) = ss_config s"
  "ss_nextSystemID (wait_fails wt s) = ss_nextSystemID s"
  "ss_chans (wait_fails wt s) = ss_chans s"
  "ss_nextChan (wait_fails wt s) = ss_nextChan s"
  "ss_inbound (wait_fails wt s) = ss_inbound s"
  "ss_started (wait_fails wt s) = ss_started s"
  "ss_sent (wait_fails wt s) = ss_sent s"
  "ss_audit (wait_fails wt s) = ss_audit s"
  by (auto simp: wait_fails_def Let_def split: wait_kind.splits)

lemma Send_frame [simp]:
  "ss_config (fst (Send w d s)) = ss_config s"
  "ss_state (fst (Send w d s)) = ss_state s"
  "ss_conn (fst (Send w d s)) = ss_conn s"
  "ss_listener (fst (Send w d s)) = ss_listener s"
  "ss_nextSystemID (fst (Send w d s)) = ss_nextSystemID s"
  "ss_pending (fst (Send w d s)) = ss_pending s"
  "ss_chans (fst (Send w d s)) = ss_chans s"
  "ss_nextChan (fst (Send w d s)) = ss_nextChan s"
  "ss_waiting (fst (Send w d s)) = ss_waiting s"
  "ss_inbound (fst (Send w d s)) = ss_inbound s"
  "ss_started (fst (Send w d s)) = ss_started s"
  "ss_cancelled (fst (Send w d s)) = ss_cancelled s"
  "ss_done (fst (Send w d s)) = ss_done s"
  "ss_closed (fst (Send w d s)) = ss_closed s"
  "ss_audit (fst (Send w d s)) = ss_audit s"
  by (auto simp: Send_def split: res.splits dest!: writeMessage_OKD)

lemma assign_sys_frame [simp]:
  "ss_config (fst (assign_sys msg s)) = ss_config s"
  "ss_state (fst (assign_sys msg s)) = ss_state s"
  "ss_conn (fst (assign_sys msg s)) = ss_conn s"
  "ss_listener (fst (assign_sys msg s)) = ss_listener s"
  "ss_pending (fst (assign_sys msg s)) = ss_pending s"
  "ss_chans (fst (assign_sys msg s)) = ss_chans s"
  "ss_nextChan (fst (assign_sys msg s)) = ss_nextChan s"
  "ss_waiting (fst (assign_sys msg s)) = ss_waiting s"
  "ss_inbound (fst (assign_sys msg s)) = ss_inbound s"
  "ss_started (fst (assign_sys msg s)) = ss_started s"
  "ss_cancelled (fst (assign_sys msg s)) = ss_cancelled s"
  "ss_done (fst (assign_sys msg s)) = ss_done s"
  "ss_closed (fst (assign_sys msg s)) = ss_closed s"
  "ss_sent (fst (assign_sys msg s)) = ss_sent s"
  "ss_audit (fst (assign_sys msg s)) = ss_audit s"
  by (simp_all add: assign_sys_def next_sys_eq)

lemma assign_sys_message [simp]:
  "HSType (MHeader (snd (assign_sys msg s))) = HSType (MHeader msg)"
  "MData (snd (assign_sys msg s)) = MData msg"
  by (simp_all add: assign_sys_def next_sys_eq)

lemma SendMessage_begin_frame [simp]:
  "ss_config (fst (SendMessage_begin w msg s)) = ss_config s"
  "ss_state (fst (SendMessage_begin w msg s)) = ss_state s"
  "ss_conn (fst (SendMessage_begin w msg s)) = ss_conn s"
  "ss_listener (fst (SendMessage_begin w msg s)) = ss_listener s"
  "ss_chans (fst (SendMessage_begin w msg s)) = ss_chans s"
  "ss_inbound (fst (SendMessage_begin w msg s)) = ss_inbound s"
  "ss_started (fst (SendMessage_begin w msg s)) = ss_started s"
  "ss_cancelled (fst (SendMessage_begin w msg s)) = ss_cancelled s"
  "ss_done (fst (SendMessage_begin w msg s)) = ss_done s"
  "ss_closed (fst (SendMessage_begin w msg s)) = ss_closed s"
  "ss_audit (fst (SendMessage_begin w msg s)) = ss_audit s"
  by (auto simp: SendMessage_begin_def case_prod_unfold Let_def split: res.splits
      dest!: writeMessage_OKD)

lemma t7_frame [simp]:
  "ss_config (t7_fires s) = ss_config s"
  "ss_nextSystemID (t7_fires s) = ss_nextSystemID s"
  "ss_pending (t7_fires s) = ss_pending s"
  "ss_chans (t7_fires s) = ss_chans s"
  "ss_nextChan (t7_fires s) = ss_nextChan s"
  "ss_waiting (t7_fires s) = ss_waiting s"
  "ss_inbound (t7_fires s) = ss_inbound s"
  "ss_started (t7_fires s) = ss_started s"
  "ss_sent (t7_fires s) = ss_sent s"
  by (simp_all add: t7_fires_def)

lemma ttl_frame [simp]:
  "ss_config (sessionTTL_fires s) = ss_config s"
  "ss_nextSystemID (sessionTTL_fires s) = ss_nextSystemID s"
  "ss_pending (sessionTTL_fires s) = ss_pending s"
  "ss_chans (sessionTTL_fires s) = ss_chans s"
  "ss_nextChan (sessionTTL_fires s) = ss_nextChan s"
  "ss_waiting (sessionTTL_fires s) = ss_waiting s"
  "ss_inbound (sessionTTL_fires s) = ss_inbound s"
  "ss_started (sessionTTL_fires s) = ss_started s"
  "ss_sent (sessionTTL_fires s) = ss_sent s"
  by (simp_all add: sessionTTL_fires_def)

lemma linktest_tick_eq:
  "fst (linktest_tick w s) =
     (if state_ord (ss_state s) < state_ord StateConnected then s
      else let s1 = s\<lparr>ss_nextSystemID := ss_nextSystemID s + 1\<rparr>;
               r = sendAndWait_begin w WLinktest (NewLinktestReq (ss_nextSystemID s + 1)) s1
           in if is_ok (snd r) then fst r else Close (fst r))"
proof -
  have "snd (sendAndWait_begin w k (NewLinktestReq n) t) \<noteq> Panic" for k n t
    by (auto simp: sendAndWait_begin_def writeMessage_def MarshalBinary_frame Let_def
        split: res.splits option.splits)
  then show ?thesis
    by (auto simp: linktest_tick_def next_sys_eq Let_def split: prod.splits res.splits)
      (metis snd_conv)+
qed

lemma linktest_frame [simp]:
  "ss_config (fst (linktest_tick w s)) = ss_config s"
  "ss_chans (fst (linktest_tick w s)) = ss_chans s"
  "ss_inbound (fst (linktest_tick w s)) = ss_inbound s"
  "ss_started (fst (linktest_tick w s)) = ss_started s"
  "ss_audit (fst (linktest_tick w s)) = ss_audit s"
  by (simp_all add: linktest_tick_eq Let_def)

section \<open>Invariants\<close>

definition inbound_ok :: "Session \<Rightarrow> bool" where
  "inbound_ok s \<longleftrightarrow> length (ss_inbound s) \<le> inbound_cap \<and>
     (\<forall>m \<in> set (ss_inbound s). \<not> IsControlMessage m)"

lemma handleMessage_inbound:
  assumes "handleMessage w m s = OK s'" and "inbound_ok s"
  shows "inbound_ok s'"
  using assms
  by (auto simp: handleMessage_def handleSelectReq_def handleDeselectReq_def rejectNotSelected_def
      Let_def or_return_control inbound_ok_def IsControlMessage_def split: if_splits option.splits)

lemma session_step_inbound:
  assumes "session_step s e s'" and "inbound_ok s"
  shows "inbound_ok s'"
  using assms
proof cases
  case (step_read a w r)
  then show ?thesis
    using assms(2) handleMessage_inbound
    by (auto simp: readLoop_step_def split: if_splits res.splits) (auto simp: inbound_ok_def)
next
  case (step_receive m)
  then show ?thesis
    using assms(2) by (auto simp: inbound_ok_def ReceiveMessage_def split: list.splits)
qed (simp_all add: inbound_ok_def)

text \<open>A session on which no Select took place: it is not Selected, nothing was delivered and no
  data message was sent (byte 9 of a frame is its SType).\<close>

definition control_only :: "byte list list \<Rightarrow> bool" where
  "control_only fs \<longleftrightarrow> (\<forall>f \<in> set fs. f ! 9 \<noteq> STypeDataMessage)"

definition unselected :: "Session \<Rightarrow> bool" where
  "unselected s \<longleftrightarrow> ss_state s \<noteq> StateSelected \<and> ss_inbound s = [] \<and> control_only (ss_sent s)"

fun select_event :: "session_event \<Rightarrow> bool" where
  "select_event (EvRead a w (OK m)) \<longleftrightarrow> HSType (MHeader m) = STypeSelectReq"
| "select_event (EvReply wt) \<longleftrightarrow> w_kind wt = WSelect"
| "select_event _ \<longleftrightarrow> False"

lemma MarshalBinary_SType: "MarshalBinary m = OK d \<Longrightarrow> d ! 9 = HSType (MHeader m)"
  by (auto simp: MarshalBinary_def Let_def nth_append split: if_splits)

lemma frame_SType [simp]: "frame m ! 9 = HSType (MHeader m)"
  by (simp add: frame_parts)

lemma new_message_stype [simp]:
  "HSType (MHeader (NewSelectReq a b)) = STypeSelectReq"
  "HSType (MHeader (NewSelectRsp a b c)) = STypeSelectRsp"
  "HSType (MHeader (NewDeselectRsp a b c)) = STypeDeselectRsp"
  "HSType (MHeader (NewLinktestReq b)) = STypeLinktestReq"
  "HSType (MHeader (NewLinktestRsp b)) = STypeLinktestRsp"
  "HSType (MHeader (NewRejectReq a b c d)) = STypeRejectReq"
  by (simp_all add: new_message_defs)

lemma stype_distinct [simp]:
  "STypeSelectReq \<noteq> STypeDataMessage" "STypeSelectRsp \<noteq> STypeDataMessage"
  "STypeDeselectRsp \<noteq> STypeDataMessage" "STypeLinktestReq \<noteq> STypeDataMessage"
  "STypeLinktestRsp \<noteq> STypeDataMessage" "STypeRejectReq \<noteq> STypeDataMessage"
  "STypeDataMessage \<noteq> STypeSelectReq" "STypeDeselectReq \<noteq> STypeDataMessage"
  by (simp_all add: stype_defs)

lemma writeMessage_control_only:
  assumes "writeMessage w m s = OK s'" and "HSType (MHeader m) \<noteq> STypeDataMessage"
    and "control_only (ss_sent s)"
  shows "control_only (ss_sent s')"
  using assms writeMessage_OKD [OF assms(1)] MarshalBinary_SType by (auto simp: control_only_def)

lemma sendAndWait_control_only:
  assumes "HSType (MHeader m) \<noteq> STypeDataMessage" and "control_only (ss_sent s)"
  shows "control_only (ss_sent (fst (sendAndWait_begin w k m s)))"
  using assms writeMessage_control_only
  by (fastforce simp: sendAndWait_begin_def Let_def split: res.splits)

lemma handleMessage_before_select:
  assumes "map_of (ss_pending s) (SystemID (MHeader msg)) = None"
    and "HSType (MHeader msg) = STypeDataMessage" and "ss_state s \<noteq> StateSelected"
  shows "handleMessage w msg s =
     (let s' = audit (UnauthorizedMessage (Stream (MHeader msg)) (Function (MHeader msg))) s
      in OK (if \<exists>c. ss_conn s = Some c \<and> c_open c \<and> w
             then s'\<lparr>ss_sent := ss_sent s @ [frame (NewRejectReq (SessionID (MHeader msg))
                    (SystemID (MHeader msg)) STypeDataMessage RejectReasonEntityNotSelected)]\<rparr>
             else s'))"
  using assms
  by (auto simp: handleMessage_def rejectNotSelected_def Let_def or_return_control
      split: option.splits)

lemma handleMessage_unselected:
  assumes "handleMessage w m s = OK s'" and "HSType (MHeader m) \<noteq> STypeSelectReq" and "unselected s"
  shows "unselected s'"
  using assms
  by (auto simp: handleMessage_def handleDeselectReq_def rejectNotSelected_def Let_def
      or_return_control unselected_def control_only_def Close_def split: if_splits option.splits)

lemma Close_state: "ss_state (Close s) = (if ss_closed s then ss_state s else StateDisconnected)"
  by (simp add: Close_def)

lemma session_step_unselected:
  assumes "session_step s e s'" and "\<not> select_event e" and "unselected s"
  shows "unselected s'"
  using assms(1)
proof cases
  case (step_read a w r)
  then show ?thesis
    using assms(2,3) handleMessage_unselected
    by (auto simp: readLoop_step_def unselected_def Close_state split: if_splits res.splits)
next
  case (step_receive m)
  then show ?thesis using assms(3) by (simp add: unselected_def ReceiveMessage_def)
next
  case (step_select w)
  then show ?thesis
    using assms(3) by (auto simp: unselected_def Select_begin_def next_sys_eq
        intro!: sendAndWait_control_only)
next
  case (step_sendmessage w msg)
  then show ?thesis
    using assms(3) writeMessage_control_only [of w "snd (assign_sys msg s)" "fst (assign_sys msg s)"]
    by (auto simp: unselected_def SendMessage_begin_def case_prod_unfold Let_def split: res.splits
        intro!: sendAndWait_control_only dest!: writeMessage_OKD)
next
  case (step_linktest w)
  then show ?thesis
    using assms(3)
    by (auto simp: unselected_def linktest_tick_eq Let_def Close_state
        intro!: sendAndWait_control_only)
next
  case (step_connect n t peer)
  then show ?thesis
    using assms(3)
    by (auto simp: unselected_def Connect_def connectActive_def listenPassive_def Let_def
        split: Role.splits)
next
  case (step_reply wt rsp)
  then show ?thesis
    using assms(2,3) by (auto simp: unselected_def wait_reply_def Let_def split: wait_kind.splits)
next
  case (step_wait_fails wt)
  then show ?thesis
    using assms(3) by (auto simp: unselected_def wait_fails_def Let_def Close_state
        split: wait_kind.splits)
next
  case (step_send w data)
  then show ?thesis using assms(3) by (simp add: unselected_def Send_def)
qed (use assms(3) in \<open>auto simp: unselected_def acceptAndRun_def t7_fires_def sessionTTL_fires_def
       Close_state\<close>)

text \<open>Transactions. A channel belongs to one system id: whatever is buffered in the channel of a
  waiting call carries the system id of its request.\<close>

definition wait_inv :: "Session \<Rightarrow> bool" where
  "wait_inv s \<longleftrightarrow>
     distinct (map fst (ss_pending s)) \<and>
     (\<forall>wt \<in> set (ss_waiting s). w_chan wt < ss_nextChan s) \<and>
     (\<forall>sys ch. map_of (ss_pending s) sys = Some ch \<longrightarrow>
        ch < ss_nextChan s \<and> (\<forall>wt \<in> set (ss_waiting s). w_chan wt = ch \<longrightarrow> w_sys wt = sys)) \<and>
     (\<forall>ch m. map_of (ss_chans s) ch = Some m \<longrightarrow>
        ch < ss_nextChan s \<and>
        (\<forall>wt \<in> set (ss_waiting s). w_chan wt = ch \<longrightarrow> SystemID (MHeader m) = w_sys wt))"

lemma wait_inv_cong:
  assumes "ss_pending s' = ss_pending s" "ss_waiting s' = ss_waiting s" "ss_chans s' = ss_chans s"
    "ss_nextChan s' = ss_nextChan s"
  shows "wait_inv s' = wait_inv s"
  using assms by (simp add: wait_inv_def)

lemma wait_inv_simps [simp]:
  "wait_inv (Close s) = wait_inv s" "wait_inv (s\<lparr>ss_nextSystemID := n\<rparr>) = wait_inv s"
  "wait_inv (s\<lparr>ss_sent := f\<rparr>) = wait_inv s" "wait_inv (fst (assign_sys msg s)) = wait_inv s"
  by (rule wait_inv_cong; simp)+

lemma gomap_lookup:
  "map_of (AList.update a b p) k = (if k = a then Some b else map_of p k)"
  "map_of (AList.delete a p) k = (if k = a then None else map_of p k)"
  by (simp_all add: update_conv' delete_conv')

lemma sendAndWait_begin_inv:
  assumes "wait_inv s"
  shows "wait_inv (fst (sendAndWait_begin w k m s))"
proof -
  let ?sys = "SystemID (MHeader m)"
  let ?s1 = "s\<lparr>ss_nextChan := Suc (ss_nextChan s),
     ss_pending := AList.update ?sys (ss_nextChan s) (ss_pending s)\<rparr>"
  have "wait_inv (?s1\<lparr>ss_pending := AList.delete ?sys (ss_pending ?s1)\<rparr>)"
    using assms unfolding wait_inv_def
    by (simp add: gomap_lookup distinct_update distinct_delete less_Suc_eq del: map_of_eq_Some_iff)
  moreover have "wait_inv (?s1\<lparr>ss_sent := f, ss_waiting := ss_waiting s @
      [\<lparr>w_chan = ss_nextChan s, w_sys = ?sys, w_kind = k\<rparr>]\<rparr>)" for f
    using assms unfolding wait_inv_def
    by (simp add: gomap_lookup distinct_update less_Suc_eq ball_Un del: map_of_eq_Some_iff)
      (metis less_irrefl)
  ultimately show ?thesis
    by (auto simp: sendAndWait_begin_def Let_def split: res.splits dest!: writeMessage_OKD)
qed

lemma end_wait_inv:
  assumes "wait_inv s"
  shows "wait_inv (end_wait wt s)"
proof -
  have "set (remove1 wt (ss_waiting s)) \<subseteq> set (ss_waiting s)" by (rule set_remove1_subset)
  then show ?thesis
    using assms by (auto simp: wait_inv_def end_wait_def delete_conv' distinct_delete)
qed

lemma handleMessage_inv:
  assumes "handleMessage w m s = OK s'" and "wait_inv s"
  shows "wait_inv s'"
proof (cases "map_of (ss_pending s) (SystemID (MHeader m))")
  case None
  then have "ss_pending s' = ss_pending s \<and> ss_waiting s' = ss_waiting s \<and>
      ss_chans s' = ss_chans s \<and> ss_nextChan s' = ss_nextChan s"
    using assms(1)
    by (auto simp: handleMessage_def handleSelectReq_def handleDeselectReq_def
        rejectNotSelected_def Let_def or_return_control split: if_splits option.splits)
  then show ?thesis using wait_inv_cong assms(2) by metis
next
  case (Some ch)
  then have "s' = (case map_of (ss_chans s) ch of
      None \<Rightarrow> s\<lparr>ss_chans := AList.update ch m (ss_chans s)\<rparr> | Some _ \<Rightarrow> s)"
    using assms(1) by (simp add: handleMessage_def Let_def)
  then show ?thesis
    using assms(2) Some by (auto simp: wait_inv_def update_conv' split: option.splits)
qed

lemma session_step_wait_inv:
  assumes "session_step s e s'" and "wait_inv s"
  shows "wait_inv s'"
  using assms(1)
proof cases
  case (step_read a w r)
  then show ?thesis
    using assms(2) handleMessage_inv
    by (auto simp: readLoop_step_def split: if_splits res.splits) (auto simp: wait_inv_def)
next
  case (step_receive m)
  then show ?thesis
    using assms(2) by (auto simp: wait_inv_def ReceiveMessage_def split: list.splits)
next
  case (step_select w)
  then show ?thesis
    using assms(2) by (auto simp: Select_begin_def next_sys_eq intro: sendAndWait_begin_inv)
next
  case (step_sendmessage w msg)
  then show ?thesis
    using assms(2)
    by (auto simp: SendMessage_begin_def case_prod_unfold Let_def split: res.splits
        dest!: writeMessage_OKD intro: sendAndWait_begin_inv)
next
  case (step_linktest w)
  then show ?thesis
    using assms(2) sendAndWait_begin_inv [of "s\<lparr>ss_nextSystemID := ss_nextSystemID s + 1\<rparr>" w
        WLinktest "NewLinktestReq (ss_nextSystemID s + 1)"]
    by (simp add: linktest_tick_eq Let_def)
next
  case (step_reply wt rsp)
  then have "ss_pending s' = ss_pending (end_wait wt s)" "ss_waiting s' = ss_waiting (end_wait wt s)"
    "ss_chans s' = ss_chans (end_wait wt s)" "ss_nextChan s' = ss_nextChan (end_wait wt s)"
    by (auto simp: wait_reply_def Let_def split: wait_kind.splits)
  with end_wait_inv [OF assms(2)] wait_inv_cong show ?thesis by metis
next
  case (step_wait_fails wt)
  then have "ss_pending s' = ss_pending (end_wait wt s)" "ss_waiting s' = ss_waiting (end_wait wt s)"
    "ss_chans s' = ss_chans (end_wait wt s)" "ss_nextChan s' = ss_nextChan (end_wait wt s)"
    by (auto simp: wait_fails_def Let_def split: wait_kind.splits)
  with end_wait_inv [OF assms(2)] wait_inv_cong show ?thesis by metis
qed (use assms(2) in \<open>simp_all add: wait_inv_def\<close>)

text \<open>The address filter of the passive side.\<close>

definition peer_ok :: "Session \<Rightarrow> bool" where
  "peer_ok s \<longleftrightarrow> cfg_Role (ss_config s) = RolePassive \<longrightarrow> cfg_AllowedPeers (ss_config s) \<noteq> [] \<longrightarrow>
     (\<forall>c. ss_conn s = Some c \<longrightarrow> isAllowed (c_peer c) (cfg_AllowedPeers (ss_config s)))"

lemma handleMessage_frame:
  assumes "handleMessage w m s = OK s'"
  shows "ss_config s' = ss_config s" and "map_option c_peer (ss_conn s') = map_option c_peer (ss_conn s)"
  using assms
  by (auto simp: handleMessage_def handleSelectReq_def handleDeselectReq_def rejectNotSelected_def
      Let_def or_return_control Close_def option.map_comp comp_def split: if_splits option.splits)

lemma Close_peer [simp]: "map_option c_peer (ss_conn (Close s)) = map_option c_peer (ss_conn s)"
  by (auto simp: Close_def option.map_comp comp_def)

lemma peer_ok_alt:
  "peer_ok s \<longleftrightarrow> cfg_Role (ss_config s) = RolePassive \<longrightarrow> cfg_AllowedPeers (ss_config s) \<noteq> [] \<longrightarrow>
     (\<forall>a. map_option c_peer (ss_conn s) = Some a \<longrightarrow> isAllowed a (cfg_AllowedPeers (ss_config s)))"
  by (auto simp: peer_ok_def)

lemma session_step_peer_ok:
  assumes "session_step s e s'" and "peer_ok s"
  shows "peer_ok s' \<and> ss_config s' = ss_config s"
  using assms(1)
proof cases
  case (step_read a w r)
  then have "ss_config s' = ss_config s" "map_option c_peer (ss_conn s') = map_option c_peer (ss_conn s)"
    using handleMessage_frame by (auto simp: readLoop_step_def split: if_splits res.splits)
  then show ?thesis using assms(2) by (simp add: peer_ok_alt)
next
  case (step_receive m)
  then show ?thesis using assms(2) by (auto simp: peer_ok_def ReceiveMessage_def split: list.splits)
next
  case (step_connect n t peer)
  then show ?thesis
    using assms(2)
    by (auto simp: peer_ok_def Connect_def connectActive_def listenPassive_def Let_def
        split: Role.splits)
next
  case (step_accept peer)
  then show ?thesis using assms(2) by (auto simp: peer_ok_def acceptAndRun_def)
next
  case (step_wait_fails wt)
  then have "map_option c_peer (ss_conn s') = map_option c_peer (ss_conn s)"
    by (auto simp: wait_fails_def Let_def split: wait_kind.splits)
  then show ?thesis using assms(2) step_wait_fails by (simp add: peer_ok_alt)
next
  case (step_linktest w)
  then have "map_option c_peer (ss_conn s') = map_option c_peer (ss_conn s)"
    by (auto simp: linktest_tick_eq Let_def)
  then show ?thesis using assms(2) step_linktest by (simp add: peer_ok_alt)
qed (use assms(2) in \<open>simp_all add: peer_ok_alt t7_fires_def sessionTTL_fires_def
       del: map_option_eq_Some\<close>)

section \<open>Runs\<close>

lemma session_run_invariant:
  assumes "session_run s es t" and "J s" and "\<And>s e s'. session_step s e s' \<Longrightarrow> J s \<Longrightarrow> J s'"
  shows "J t"
  using assms by (induction rule: session_run.induct) auto

lemma session_run_guarded:
  assumes "session_run s es t" and "J s" and "\<forall>e \<in> set es. G e"
    and "\<And>s e s'. session_step s e s' \<Longrightarrow> G e \<Longrightarrow> J s \<Longrightarrow> J s'"
  shows "J t"
  using assms by (induction rule: session_run.induct) auto

lemma new_session_invs:
  "inbound_ok (NewSession c)" "unselected (NewSession c)" "wait_inv (NewSession c)"
  "peer_ok (NewSession c)"
  by (simp_all add: NewSession_def inbound_ok_def unselected_def wait_inv_def peer_ok_def
      control_only_def inbound_cap_def)

text \<open>C2. A peer that skips the Select procedure cannot drive the equipment: in every run of a
  session without a Select (no Select.req is read and no own Select is answered) the session is
  never Selected, no data message reaches the application and none is sent.\<close>

theorem no_select_no_delivery:
  assumes "session_run (NewSession c) es s" and "\<forall>e \<in> set es. \<not> select_event e"
  shows "ss_state s \<noteq> StateSelected \<and> ss_inbound s = [] \<and>
     (\<forall>f \<in> set (ss_sent s). f ! 9 \<noteq> STypeDataMessage)"
proof -
  have "unselected s"
    by (rule session_run_guarded [where J = unselected, OF assms(1) new_session_invs(2) assms(2)])
      (rule session_step_unselected)
  then show ?thesis by (simp add: unselected_def control_only_def)
qed

definition passive_config :: Config where
  "passive_config = (DefaultConfig RolePassive 1)\<lparr>cfg_AllowedPeers := [[10, 0, 0, 1]], cfg_Auditor := True\<rparr>"

text \<open>A concrete run: the equipment listens, a peer connects and sends a data message at once.\<close>

definition intruder_events :: "session_event list" where
  "intruder_events = [EvConnect True True [], EvAccept [10, 0, 0, 1],
     EvRead True True (OK (NewDataMessage 1 2 41 True 9 []))]"

definition intruder_state :: Session where
  "intruder_state =
     (NewSession passive_config)\<lparr>ss_state := StateConnected,
        ss_conn := Some \<lparr>c_peer = [10, 0, 0, 1], c_open = True\<rparr>, ss_listener := Some True,
        ss_started := True,
        ss_sent := [frame (NewRejectReq 1 9 STypeDataMessage RejectReasonEntityNotSelected)],
        ss_audit := [UnauthorizedMessage 2 41]\<rparr>"

lemma intruder_run: "session_run (NewSession passive_config) intruder_events intruder_state"
proof -
  let ?s0 = "NewSession passive_config"
  let ?s1 = "fst (Connect True True [] ?s0)"
  let ?s2 = "acceptAndRun [10, 0, 0, 1] ?s1"
  note evals = NewSession_def passive_config_def DefaultConfig_def Connect_def listenPassive_def
    acceptAndRun_def isAllowed_def ip_Equal_def startLoops_def audit_def Let_def
  have "session_run ?s0 [EvConnect True True []] ?s1"
    using run_snoc [OF run_Nil step_connect] by simp
  moreover have "session_step ?s1 (EvAccept [10, 0, 0, 1]) ?s2"
    by (rule step_accept) (simp_all add: evals)
  moreover have "session_step ?s2 (EvRead True True (OK (NewDataMessage 1 2 41 True 9 [])))
      intruder_state"
  proof (rule step_read)
    let ?m = "NewDataMessage 1 2 41 True 9 []"
    have "handleMessage True ?m ?s2 = OK intruder_state"
      by (subst handleMessage_before_select)
        (simp_all add: evals intruder_state_def new_message_defs)
    then show "readLoop_step True True (OK ?m) ?s2 = OK intruder_state"
      by (simp add: readLoop_step_def)
  qed (simp add: evals)
  ultimately show ?thesis
    using run_snoc [OF run_snoc] by (fastforce simp: intruder_events_def)
qed

theorem no_select_no_delivery_witness:
  "ss_state intruder_state \<noteq> StateSelected \<and> ss_inbound intruder_state = [] \<and>
     list_all (\<lambda>f. f ! 9 \<noteq> STypeDataMessage) (ss_sent intruder_state)"
  unfolding list_all_iff
  by (rule no_select_no_delivery [OF intruder_run])
    (simp add: intruder_events_def new_message_defs stype_defs)

text \<open>C6. Transactions match: in every run, the message handed to a waiting call carries the
  system id of the request that call sent.\<close>

theorem reply_matches_request:
  assumes "session_run (NewSession c) es s" and "wt \<in> set (ss_waiting s)"
    and "map_of (ss_chans s) (w_chan wt) = Some rsp"
  shows "SystemID (MHeader rsp) = w_sys wt"
proof -
  have "wait_inv s"
    by (rule session_run_invariant [where J = wait_inv, OF assms(1) new_session_invs(3)])
      (rule session_step_wait_inv)
  with assms(2,3) show ?thesis by (simp add: wait_inv_def)
qed

definition active_config :: Config where
  "active_config = DefaultConfig RoleActive 1"

definition select_waiter :: waiter where
  "select_waiter = \<lparr>w_chan = 0, w_sys = 1, w_kind = WSelect\<rparr>"

text \<open>A concrete run of the active side up to the moment the answer to its Select.req is buffered.\<close>

definition select_events :: "session_event list" where
  "select_events = [EvConnect True True [10, 0, 0, 2], EvSelect True,
     EvRead True True (OK (NewSelectRsp 1 1 SelectStatusSuccess))]"

definition selecting_state :: "(nat, Message) gomap \<Rightarrow> Session" where
  "selecting_state chans =
     (NewSession active_config)\<lparr>ss_state := StateConnected,
        ss_conn := Some \<lparr>c_peer = [10, 0, 0, 2], c_open = True\<rparr>, ss_nextSystemID := 1,
        ss_pending := [(1, 0)], ss_chans := chans, ss_nextChan := 1,
        ss_waiting := [select_waiter], ss_started := True,
        ss_sent := [frame (NewSelectReq 1 1)]\<rparr>"

lemma select_run:
  "session_run (NewSession active_config) select_events
     (selecting_state [(0, NewSelectRsp 1 1 SelectStatusSuccess)])"
proof -
  let ?s0 = "NewSession active_config"
  let ?s1 = "fst (Connect True True [10, 0, 0, 2] ?s0)"
  note evals = NewSession_def active_config_def DefaultConfig_def Connect_def connectActive_def
    startLoops_def Let_def selecting_state_def
  have sys: "SystemID (MHeader (NewSelectReq a b)) = b" "SystemID (MHeader (NewSelectRsp a b c)) = b"
    for a b c by (simp_all add: new_message_defs)
  have "session_run ?s0 [EvConnect True True [10, 0, 0, 2]] ?s1"
    using run_snoc [OF run_Nil step_connect] by simp
  moreover have "fst (Select_begin True ?s1) = selecting_state []"
    by (simp add: Select_begin_def next_sys_eq sendAndWait_begin_def writeMessage_def
        MarshalBinary_frame evals sys select_waiter_def)
  then have "session_step ?s1 (EvSelect True) (selecting_state [])" by (metis step_select)
  moreover have "session_step (selecting_state [])
      (EvRead True True (OK (NewSelectRsp 1 1 SelectStatusSuccess)))
      (selecting_state [(0, NewSelectRsp 1 1 SelectStatusSuccess)])"
    by (rule step_read) (simp_all add: readLoop_step_def handleMessage_def sys evals)
  ultimately show ?thesis
    using run_snoc [OF run_snoc] by (fastforce simp: select_events_def)
qed

theorem reply_matches_request_witness:
  "SystemID (MHeader (NewSelectRsp 1 1 SelectStatusSuccess)) = w_sys select_waiter"
  by (rule reply_matches_request [OF select_run]) (simp_all add: selecting_state_def select_waiter_def)

text \<open>A \<^verbatim>\<open>Select\<close> that finishes after the session was closed leaves the closed session in
  state SELECTED: the peer answers the Select.req and separates before the waiting call goes on.\<close>

theorem select_after_close:
  "\<exists>c es s. session_run (NewSession c) es s \<and> ss_closed s \<and> ss_state s = StateSelected"
proof -
  let ?s = "selecting_state [(0, NewSelectRsp 1 1 SelectStatusSuccess)]"
  let ?e = "EvRead True True (OK (NewSeparateReq 1 7))"
  have "session_step ?s ?e (Close ?s)"
    by (rule step_read)
      (simp_all add: readLoop_step_def handleMessage_def selecting_state_def NewSession_def
        active_config_def DefaultConfig_def new_message_defs stype_defs)
  moreover have "session_step (Close ?s) (EvReply select_waiter)
      (wait_reply select_waiter (NewSelectRsp 1 1 SelectStatusSuccess) (Close ?s))"
    by (rule step_reply) (simp_all add: selecting_state_def select_waiter_def)
  ultimately have "session_run (NewSession active_config)
      ((select_events @ [?e]) @ [EvReply select_waiter])
      (wait_reply select_waiter (NewSelectRsp 1 1 SelectStatusSuccess) (Close ?s))"
    by (intro run_snoc [OF run_snoc [OF select_run]])
  moreover have "ss_closed (wait_reply select_waiter (NewSelectRsp 1 1 SelectStatusSuccess) (Close ?s))"
    by (simp add: Close_def)
  moreover have "ss_state (wait_reply select_waiter (NewSelectRsp 1 1 SelectStatusSuccess) (Close ?s)) =
      StateSelected"
    by (simp add: wait_reply_def Select_finish_def select_waiter_def new_message_defs
        SelectStatusSuccess_def)
  ultimately show ?thesis by blast
qed

text \<open>A data message that is no reply and arrives before Select is answered with Reject.req
  (reason: entity not selected), recorded by the auditor, and leaves state, queue and
  transactions as they were.\<close>

theorem data_before_select_rejected:
  assumes "HSType (MHeader msg) = STypeDataMessage" and "ss_state s \<noteq> StateSelected"
    and "map_of (ss_pending s) (SystemID (MHeader msg)) = None"
    and "ss_conn s = Some c" and "c_open c"
  shows "handleMessage True msg s =
     OK (s\<lparr>ss_sent := ss_sent s @ [frame (NewRejectReq (SessionID (MHeader msg))
              (SystemID (MHeader msg)) STypeDataMessage RejectReasonEntityNotSelected)],
           ss_audit := ss_audit s @ (if cfg_Auditor (ss_config s) then
              [UnauthorizedMessage (Stream (MHeader msg)) (Function (MHeader msg))] else [])\<rparr>)"
  using assms by (simp add: handleMessage_before_select audit_def Let_def)

theorem data_before_select_rejected_witness:
  "handleMessage True (NewDataMessage 1 2 41 True 9 []) (selecting_state []) =
     OK ((selecting_state [])\<lparr>ss_sent := [frame (NewSelectReq 1 1), frame (NewRejectReq 1 9
        STypeDataMessage RejectReasonEntityNotSelected)], ss_audit := []\<rparr>)"
  using data_before_select_rejected [of "NewDataMessage 1 2 41 True 9 []" "selecting_state []"]
  by (simp add: selecting_state_def NewSession_def active_config_def DefaultConfig_def
      new_message_defs)

text \<open>Select.req: on an open connection the session answers with success and becomes Selected,
  or, when it is Selected already, answers with the status already-active; the response
  carries session id and system id of the request.\<close>

theorem select_request_answered:
  assumes "map_of (ss_pending s) sys = None" and "ss_conn s = Some c" and "c_open c"
  shows "handleMessage True (NewSelectReq sid sys) s =
     OK (s\<lparr>ss_sent := ss_sent s @ [frame (NewSelectRsp sid sys
             (if ss_state s = StateSelected then SelectStatusAlreadyActive else SelectStatusSuccess))],
           ss_state := StateSelected\<rparr>)"
proof -
  have "SystemID (MHeader (NewSelectReq sid sys)) = sys" "SessionID (MHeader (NewSelectReq sid sys)) = sid"
    by (simp_all add: new_message_defs)
  then show ?thesis
    using assms by (auto simp: handleMessage_def handleSelectReq_def Let_def or_return_control
        SelectStatusSuccess_def SelectStatusAlreadyActive_def)
qed

theorem select_request_answered_witness:
  "handleMessage True (NewSelectReq 1 5) intruder_state =
     OK (intruder_state\<lparr>ss_sent := ss_sent intruder_state @ [frame (NewSelectRsp 1 5 SelectStatusSuccess)],
           ss_state := StateSelected\<rparr>)"
  using select_request_answered [of intruder_state 5 "\<lparr>c_peer = [10, 0, 0, 1], c_open = True\<rparr>" 1]
  by (simp add: intruder_state_def NewSession_def)

text \<open>The T7 timer: when it fires on a connection that is not Selected and not closed, the
  session is closed, its connection is closed and its state is Disconnected; otherwise nothing
  changes.\<close>

theorem t7_drops_unselected:
  "if ss_state s = StateSelected \<or> ss_closed s then t7_fires s = s
   else ss_closed (t7_fires s) \<and> ss_state (t7_fires s) = StateDisconnected \<and> ss_done (t7_fires s) \<and>
     (\<forall>c. ss_conn (t7_fires s) = Some c \<longrightarrow> \<not> c_open c) \<and>
     ss_inbound (t7_fires s) = ss_inbound s \<and> ss_sent (t7_fires s) = ss_sent s"
  by (auto simp: t7_fires_def Close_def)

theorem t7_drops_unselected_witness:
  "ss_closed (t7_fires intruder_state) \<and> ss_state (t7_fires intruder_state) = StateDisconnected"
  using t7_drops_unselected [of intruder_state]
  by (simp add: intruder_state_def NewSession_def)

text \<open>The inbound queue is bounded and typed: in every run it holds at most 256 messages, all
  of them data messages.\<close>

theorem inbound_bounded:
  assumes "session_run (NewSession c) es s"
  shows "length (ss_inbound s) \<le> 256 \<and> (\<forall>m \<in> set (ss_inbound s). \<not> IsControlMessage m)"
proof -
  have "inbound_ok s"
    by (rule session_run_invariant [where J = inbound_ok, OF assms new_session_invs(1)])
      (rule session_step_inbound)
  then show ?thesis by (simp add: inbound_ok_def inbound_cap_def)
qed

theorem inbound_bounded_witness:
  "length (ss_inbound intruder_state) \<le> 256 \<and>
   list_all (\<lambda>m. \<not> IsControlMessage m) (ss_inbound intruder_state)"
  unfolding list_all_iff by (rule inbound_bounded [OF intruder_run])

text \<open>C40. Address filter: in every run of a passive session with a non-empty allowlist, the
  connection in use comes from an allowed address.\<close>

theorem allowlist_enforced:
  assumes "session_run (NewSession cfg) es s" and "cfg_Role cfg = RolePassive"
    and "cfg_AllowedPeers cfg \<noteq> []" and "ss_conn s = Some c"
  shows "\<exists>a \<in> set (cfg_AllowedPeers cfg). ip_Equal a (c_peer c)"
proof -
  have "peer_ok s \<and> ss_config s = cfg"
    by (rule session_run_invariant [where J = "\<lambda>s. peer_ok s \<and> ss_config s = cfg", OF assms(1)])
      (use new_session_invs(4) session_step_peer_ok in \<open>auto simp: NewSession_def\<close>)
  with assms show ?thesis by (auto simp: peer_ok_def isAllowed_def list_ex_iff)
qed

theorem allowlist_enforced_witness:
  "\<exists>a \<in> set (cfg_AllowedPeers passive_config). ip_Equal a [10, 0, 0, 1]"
  using allowlist_enforced [OF intruder_run, of "\<lparr>c_peer = [10, 0, 0, 1], c_open = True\<rparr>"]
  by (simp add: intruder_state_def passive_config_def DefaultConfig_def)

end
