(* ===== verification/Gem_State.thy ===== *)
theory Gem_State
  imports Go_Prelude
begin

text \<open>
  The GEM communication and control state machine (\<^verbatim>\<open>pkg/driver/gem/state.go\<close>). Every method
  holds the mutex for its whole body, so each is one step. The registered callback is a flag;
  the calls it receives are the list \<open>sm_notified\<close>.
\<close>

section \<open>States and transitions\<close>

datatype CommState = CommDisabled | CommWaitCRA | CommWaitDelay | CommCommunicating

datatype ControlState =
    ControlOfflineEquipment | ControlOfflineHost | ControlOnlineLocal | ControlOnlineRemote

record StateMachine =
  sm_commState :: CommState
  sm_controlState :: ControlState
  sm_onChange :: bool
  sm_notified :: "(CommState \<times> ControlState) list"

datatype gem_error =
    ErrCommState CommState
  | ErrControlState ControlState
  | ErrUnknownECID uint32
  | ErrNotNumeric uint32
  | ErrBelowMinimum uint32
  | ErrAboveMaximum uint32
  | ErrUnknownSVID uint32
  | ErrUnknownCEID uint32
  | ErrUnknownRPTID uint32
  | ErrUnknownALID uint32
  | ErrPolicy byte byte
  | ErrUnsupportedMessage byte byte

definition NewStateMachine :: StateMachine where
  "NewStateMachine = \<lparr>sm_commState = CommDisabled, sm_controlState = ControlOfflineEquipment,
     sm_onChange = False, sm_notified = []\<rparr>"

definition OnChange :: "StateMachine \<Rightarrow> StateMachine" where
  "OnChange sm = sm\<lparr>sm_onChange := True\<rparr>"

definition notifyChange :: "StateMachine \<Rightarrow> StateMachine" where
  "notifyChange sm =
     (if sm_onChange sm
      then sm\<lparr>sm_notified := sm_notified sm @ [(sm_commState sm, sm_controlState sm)]\<rparr> else sm)"

definition EnableComm :: "StateMachine \<Rightarrow> (gem_error, StateMachine) res" where
  "EnableComm sm =
     (if sm_commState sm \<noteq> CommDisabled then Err (ErrCommState (sm_commState sm))
      else OK (notifyChange (sm\<lparr>sm_commState := CommWaitCRA\<rparr>)))"

definition DisableComm :: "StateMachine \<Rightarrow> StateMachine" where
  "DisableComm sm = notifyChange
     (sm\<lparr>sm_commState := CommDisabled, sm_controlState := ControlOfflineEquipment\<rparr>)"

definition CommEstablished :: "StateMachine \<Rightarrow> (gem_error, StateMachine) res" where
  "CommEstablished sm =
     (if sm_commState sm \<noteq> CommWaitCRA then Err (ErrCommState (sm_commState sm))
      else OK (notifyChange (sm\<lparr>sm_commState := CommCommunicating\<rparr>)))"

definition CommFailed :: "StateMachine \<Rightarrow> (gem_error, StateMachine) res" where
  "CommFailed sm =
     (if sm_commState sm \<noteq> CommWaitCRA then Err (ErrCommState (sm_commState sm))
      else OK (notifyChange (sm\<lparr>sm_commState := CommWaitDelay\<rparr>)))"

definition RetryComm :: "StateMachine \<Rightarrow> (gem_error, StateMachine) res" where
  "RetryComm sm =
     (if sm_commState sm \<noteq> CommWaitDelay then Err (ErrCommState (sm_commState sm))
      else OK (notifyChange (sm\<lparr>sm_commState := CommWaitCRA\<rparr>)))"

definition GoOnlineLocal :: "StateMachine \<Rightarrow> (gem_error, StateMachine) res" where
  "GoOnlineLocal sm =
     (if sm_commState sm \<noteq> CommCommunicating then Err (ErrCommState (sm_commState sm))
      else OK (notifyChange (sm\<lparr>sm_controlState := ControlOnlineLocal\<rparr>)))"

definition GoOnlineRemote :: "StateMachine \<Rightarrow> (gem_error, StateMachine) res" where
  "GoOnlineRemote sm =
     (if sm_commState sm \<noteq> CommCommunicating then Err (ErrCommState (sm_commState sm))
      else OK (notifyChange (sm\<lparr>sm_controlState := ControlOnlineRemote\<rparr>)))"

definition GoOffline :: "StateMachine \<Rightarrow> (gem_error, StateMachine) res" where
  "GoOffline sm =
     (if sm_controlState sm \<noteq> ControlOnlineLocal \<and> sm_controlState sm \<noteq> ControlOnlineRemote
      then Err (ErrControlState (sm_controlState sm))
      else OK (notifyChange (sm\<lparr>sm_controlState := ControlOfflineEquipment\<rparr>)))"

definition IsOnline :: "StateMachine \<Rightarrow> bool" where
  "IsOnline sm \<longleftrightarrow> sm_controlState sm = ControlOnlineLocal \<or> sm_controlState sm = ControlOnlineRemote"

definition IsCommunicating :: "StateMachine \<Rightarrow> bool" where
  "IsCommunicating sm \<longleftrightarrow> sm_commState sm = CommCommunicating"

lemmas sm_op_defs = EnableComm_def DisableComm_def CommEstablished_def CommFailed_def RetryComm_def
  GoOnlineLocal_def GoOnlineRemote_def GoOffline_def

section \<open>Reachable states\<close>

text \<open>A call that returns an error leaves the machine as it is, so only successful calls are
  steps.\<close>

inductive sm_step :: "StateMachine \<Rightarrow> StateMachine \<Rightarrow> bool" where
  "EnableComm sm = OK sm' \<Longrightarrow> sm_step sm sm'"
| "sm_step sm (DisableComm sm)"
| "CommEstablished sm = OK sm' \<Longrightarrow> sm_step sm sm'"
| "CommFailed sm = OK sm' \<Longrightarrow> sm_step sm sm'"
| "RetryComm sm = OK sm' \<Longrightarrow> sm_step sm sm'"
| "GoOnlineLocal sm = OK sm' \<Longrightarrow> sm_step sm sm'"
| "GoOnlineRemote sm = OK sm' \<Longrightarrow> sm_step sm sm'"
| "GoOffline sm = OK sm' \<Longrightarrow> sm_step sm sm'"
| "sm_step sm (OnChange sm)"

inductive sm_reachable :: "StateMachine \<Rightarrow> bool" where
  sm_init: "sm_reachable NewStateMachine"
| sm_next: "sm_reachable sm \<Longrightarrow> sm_step sm sm' \<Longrightarrow> sm_reachable sm'"

inductive_cases sm_stepE: "sm_step sm sm'"

lemma notifyChange_frame [simp]:
  "sm_commState (notifyChange sm) = sm_commState sm"
  "sm_controlState (notifyChange sm) = sm_controlState sm"
  "sm_onChange (notifyChange sm) = sm_onChange sm"
  by (simp_all add: notifyChange_def)

text \<open>Online means communicating, the host never holds the offline state, and the last
  notification is the current state.\<close>

definition sm_inv :: "StateMachine \<Rightarrow> bool" where
  "sm_inv sm \<longleftrightarrow>
     (IsOnline sm \<longrightarrow> IsCommunicating sm) \<and> sm_controlState sm \<noteq> ControlOfflineHost \<and>
     (sm_notified sm \<noteq> [] \<longrightarrow>
        sm_onChange sm \<and> last (sm_notified sm) = (sm_commState sm, sm_controlState sm))"

lemma sm_step_inv:
  assumes "sm_step sm sm'" and "sm_inv sm"
  shows "sm_inv sm'"
  using assms
  by (cases rule: sm_step.cases)
    (auto simp: sm_op_defs sm_inv_def IsOnline_def IsCommunicating_def notifyChange_def OnChange_def
      split: if_splits)

lemma sm_reachable_inv: "sm_reachable sm \<Longrightarrow> sm_inv sm"
  by (induction rule: sm_reachable.induct)
    (simp_all add: sm_step_inv, simp add: sm_inv_def NewStateMachine_def IsOnline_def)

lemma sm_reachable_steps: "sm_step\<^sup>*\<^sup>* NewStateMachine sm \<Longrightarrow> sm_reachable sm"
  by (induction rule: rtranclp_induct) (auto intro: sm_reachable.intros)

text \<open>In every reachable state of the GEM state machine, equipment that is online is
  communicating, the control state OFFLINE/HOST is never entered, and the last notification
  sent to the observer is the current pair of states.\<close>

theorem gem_online_communicating:
  assumes "sm_reachable sm"
  shows "(IsOnline sm \<longrightarrow> IsCommunicating sm) \<and> sm_controlState sm \<noteq> ControlOfflineHost \<and>
     (sm_notified sm \<noteq> [] \<longrightarrow> last (sm_notified sm) = (sm_commState sm, sm_controlState sm))"
  using sm_reachable_inv [OF assms] by (simp add: sm_inv_def)

definition sm_online :: StateMachine where
  "sm_online = \<lparr>sm_commState = CommCommunicating, sm_controlState = ControlOnlineRemote,
     sm_onChange = True, sm_notified = [(CommWaitCRA, ControlOfflineEquipment),
       (CommCommunicating, ControlOfflineEquipment), (CommCommunicating, ControlOnlineRemote)]\<rparr>"

lemma sm_online_reachable: "sm_reachable sm_online"
proof -
  have e: "EnableComm (OnChange NewStateMachine) = OK (sm_online\<lparr>sm_commState := CommWaitCRA,
      sm_controlState := ControlOfflineEquipment, sm_notified := take 1 (sm_notified sm_online)\<rparr>)"
    and c: "CommEstablished (sm_online\<lparr>sm_commState := CommWaitCRA,
      sm_controlState := ControlOfflineEquipment, sm_notified := take 1 (sm_notified sm_online)\<rparr>) =
      OK (sm_online\<lparr>sm_controlState := ControlOfflineEquipment,
        sm_notified := take 2 (sm_notified sm_online)\<rparr>)"
    and g: "GoOnlineRemote (sm_online\<lparr>sm_controlState := ControlOfflineEquipment,
        sm_notified := take 2 (sm_notified sm_online)\<rparr>) = OK sm_online"
    by (simp_all add: sm_op_defs notifyChange_def sm_online_def OnChange_def NewStateMachine_def)
  show ?thesis
    by (rule sm_next [OF sm_next [OF sm_next [OF sm_next [OF sm_init]]]])
      (rule sm_step.intros(9) sm_step.intros(1) [OF e] sm_step.intros(3) [OF c]
        sm_step.intros(7) [OF g])+
qed

theorem gem_online_communicating_witness:
  "IsOnline sm_online \<and> IsCommunicating sm_online"
  using gem_online_communicating [OF sm_online_reachable] by (simp add: sm_online_def IsOnline_def)

text \<open>No state is a dead end: from every state some sequence of calls leads to
  COMMUNICATING and ONLINE/REMOTE, and \<^verbatim>\<open>DisableComm\<close> leads back to the initial pair of states.\<close>

theorem gem_can_go_online:
  "(\<exists>sm'. sm_step\<^sup>*\<^sup>* sm sm' \<and> sm_commState sm' = CommCommunicating \<and>
      sm_controlState sm' = ControlOnlineRemote) \<and>
   sm_commState (DisableComm sm) = sm_commState NewStateMachine \<and>
   sm_controlState (DisableComm sm) = sm_controlState NewStateMachine"
proof -
  have online: "\<exists>sm'. sm_step\<^sup>*\<^sup>* sm sm' \<and> sm_commState sm' = CommCommunicating \<and>
      sm_controlState sm' = ControlOnlineRemote" if "sm_commState sm = CommCommunicating" for sm
  proof (intro exI conjI r_into_rtranclp)
    show "sm_step sm (notifyChange (sm\<lparr>sm_controlState := ControlOnlineRemote\<rparr>))"
      using that by (intro sm_step.intros(7)) (simp add: GoOnlineRemote_def)
  qed (simp_all add: that)
  have cra: "\<exists>sm'. sm_step sm sm' \<and> sm_commState sm' = CommCommunicating"
    if "sm_commState sm = CommWaitCRA" for sm
    using that sm_step.intros(3) [of sm] by (auto simp: CommEstablished_def intro!: exI)
  have dis: "\<exists>sm'. sm_step sm sm' \<and> sm_commState sm' = CommWaitCRA"
    if "sm_commState sm = CommDisabled" for sm
    using that sm_step.intros(1) [of sm] by (auto simp: EnableComm_def intro!: exI)
  have del: "\<exists>sm'. sm_step sm sm' \<and> sm_commState sm' = CommWaitCRA"
    if "sm_commState sm = CommWaitDelay" for sm
    using that sm_step.intros(5) [of sm] by (auto simp: RetryComm_def intro!: exI)
  have "\<exists>sm'. sm_step\<^sup>*\<^sup>* sm sm' \<and> sm_commState sm' = CommCommunicating \<and>
      sm_controlState sm' = ControlOnlineRemote"
    by (cases "sm_commState sm") (meson online cra dis del converse_rtranclp_into_rtranclp)+
  then show ?thesis by (simp add: DisableComm_def NewStateMachine_def)
qed

end
