(* ===== verification/Gem_Variables.thy ===== *)
theory Gem_Variables
  imports Gem_State Secs2_Item
begin

text \<open>
  Equipment constants and status variables (\<^verbatim>\<open>pkg/driver/gem/variable.go\<close>). The store keeps the
  records by value; a status variable with a provider is computed by it on every read. Range
  checks compare float64 images, as the code does.
\<close>

section \<open>The store\<close>

record EquipmentConstant =
  ECID :: uint32
  ec_Name :: string
  ec_Value :: goval
  MinValue :: goval
  MaxValue :: goval
  ec_Units :: string

record StatusVariable =
  SVID :: uint32
  sv_Name :: string
  sv_Value :: goval
  sv_Units :: string
  sv_update :: "(unit \<Rightarrow> goval) option"

record VariableStore =
  vs_ecs :: "(uint32, EquipmentConstant) gomap"
  vs_svs :: "(uint32, StatusVariable) gomap"

definition NewVariableStore :: VariableStore where
  "NewVariableStore = \<lparr>vs_ecs = [], vs_svs = []\<rparr>"

section \<open>Equipment constants\<close>

definition DefineEC :: "EquipmentConstant \<Rightarrow> VariableStore \<Rightarrow> VariableStore" where
  "DefineEC ec vs = vs\<lparr>vs_ecs := AList.update (ECID ec) ec (vs_ecs vs)\<rparr>"

definition GetEC :: "uint32 \<Rightarrow> VariableStore \<Rightarrow> EquipmentConstant option" where
  "GetEC ecid vs = map_of (vs_ecs vs) ecid"

fun numeric :: "goval \<Rightarrow> float64 option" where
  "numeric (VFloat64 w) = Some w"
| "numeric (VFloat32 w) = Some (f32_to_f64 w)"
| "numeric (VInt n) = Some (f64_of_int (sint n))"
| "numeric (VInt8 n) = Some (f64_of_int (sint n))"
| "numeric (VInt16 n) = Some (f64_of_int (sint n))"
| "numeric (VInt32 n) = Some (f64_of_int (sint n))"
| "numeric (VInt64 n) = Some (f64_of_int (sint n))"
| "numeric (VUint n) = Some (f64_of_int (uint n))"
| "numeric (VUint8 n) = Some (f64_of_int (uint n))"
| "numeric (VUint16 n) = Some (f64_of_int (uint n))"
| "numeric (VUint32 n) = Some (f64_of_int (uint n))"
| "numeric (VUint64 n) = Some (f64_of_int (uint n))"
| "numeric _ = None"

definition checkECRange :: "EquipmentConstant \<Rightarrow> goval \<Rightarrow> (gem_error, unit) res" where
  "checkECRange ec v =
     (case numeric v of
        None \<Rightarrow>
          if MinValue ec \<noteq> VNil \<or> MaxValue ec \<noteq> VNil then Err (ErrNotNumeric (ECID ec)) else OK ()
      | Some x \<Rightarrow>
          if (case numeric (MinValue ec) of None \<Rightarrow> False | Some lo \<Rightarrow> f64_less x lo)
            then Err (ErrBelowMinimum (ECID ec))
          else if (case numeric (MaxValue ec) of None \<Rightarrow> False | Some hi \<Rightarrow> f64_less hi x)
            then Err (ErrAboveMaximum (ECID ec))
          else OK ())"

definition SetEC :: "uint32 \<Rightarrow> goval \<Rightarrow> VariableStore \<Rightarrow> (gem_error, VariableStore) res" where
  "SetEC ecid v vs =
     (case map_of (vs_ecs vs) ecid of
        None \<Rightarrow> Err (ErrUnknownECID ecid)
      | Some ec \<Rightarrow> bind_res (checkECRange ec v) (\<lambda>_.
          OK (vs\<lparr>vs_ecs := AList.update ecid (ec\<lparr>ec_Value := v\<rparr>) (vs_ecs vs)\<rparr>)))"

definition ListECIDs :: "(uint32 list \<Rightarrow> uint32 list) \<Rightarrow> VariableStore \<Rightarrow> uint32 list" where
  "ListECIDs ord vs = ord (map fst (vs_ecs vs))"

section \<open>Status variables\<close>

definition DefineSV :: "StatusVariable \<Rightarrow> VariableStore \<Rightarrow> VariableStore" where
  "DefineSV sv vs = vs\<lparr>vs_svs := AList.update (SVID sv) sv (vs_svs vs)\<rparr>"

definition DefineSVDynamic ::
  "uint32 \<Rightarrow> string \<Rightarrow> string \<Rightarrow> (unit \<Rightarrow> goval) \<Rightarrow> VariableStore \<Rightarrow> VariableStore" where
  "DefineSVDynamic svid name units fn vs =
     vs\<lparr>vs_svs := AList.update svid \<lparr>SVID = svid, sv_Name = name, sv_Value = VNil,
          sv_Units = units, sv_update = Some fn\<rparr> (vs_svs vs)\<rparr>"

definition GetSV :: "uint32 \<Rightarrow> VariableStore \<Rightarrow> goval option" where
  "GetSV svid vs =
     (case map_of (vs_svs vs) svid of
        None \<Rightarrow> None
      | Some sv \<Rightarrow> Some (case sv_update sv of Some f \<Rightarrow> f () | None \<Rightarrow> sv_Value sv))"

definition SetSV :: "uint32 \<Rightarrow> goval \<Rightarrow> VariableStore \<Rightarrow> (gem_error, VariableStore) res" where
  "SetSV svid v vs =
     (case map_of (vs_svs vs) svid of
        None \<Rightarrow> Err (ErrUnknownSVID svid)
      | Some sv \<Rightarrow> OK (vs\<lparr>vs_svs := AList.update svid (sv\<lparr>sv_Value := v\<rparr>) (vs_svs vs)\<rparr>))"

definition ListSVIDs :: "(uint32 list \<Rightarrow> uint32 list) \<Rightarrow> VariableStore \<Rightarrow> uint32 list" where
  "ListSVIDs ord vs = ord (map fst (vs_svs vs))"

definition GetSVInfo :: "uint32 \<Rightarrow> VariableStore \<Rightarrow> StatusVariable option" where
  "GetSVInfo svid vs = map_of (vs_svs vs) svid"

definition GetECInfo :: "uint32 \<Rightarrow> VariableStore \<Rightarrow> EquipmentConstant option" where
  "GetECInfo ecid vs = map_of (vs_ecs vs) ecid"

section \<open>Operations and runs\<close>

text \<open>What a client may do to the store. \<^verbatim>\<open>DefineEC\<close> registers a constant with any value.\<close>

inductive vs_step :: "VariableStore \<Rightarrow> VariableStore \<Rightarrow> bool" where
  "SetEC ecid v vs = OK vs' \<Longrightarrow> vs_step vs vs'"
| "vs_step vs (DefineSV sv vs)"
| "vs_step vs (DefineSVDynamic svid name units fn vs)"
| "SetSV svid v vs = OK vs' \<Longrightarrow> vs_step vs vs'"

definition vs_inv :: "VariableStore \<Rightarrow> bool" where
  "vs_inv vs \<longleftrightarrow> distinct (map fst (vs_ecs vs)) \<and> distinct (map fst (vs_svs vs)) \<and>
     (\<forall>k ec. map_of (vs_ecs vs) k = Some ec \<longrightarrow> checkECRange ec (ec_Value ec) = OK ())"

lemma checkECRange_value [simp]:
  "checkECRange (ec\<lparr>ec_Value := v\<rparr>) w = checkECRange ec w"
  by (simp add: checkECRange_def split: option.split)

lemma map_of_update: "map_of (AList.update a b p) k = (if k = a then Some b else map_of p k)"
  by (simp add: update_conv')

lemma vs_step_inv:
  assumes "vs_step vs vs'" and "vs_inv vs"
  shows "vs_inv vs'"
  using assms
  by (cases rule: vs_step.cases)
    (auto simp: vs_inv_def SetEC_def SetSV_def DefineSV_def DefineSVDynamic_def map_of_update
      distinct_update res_simps split: option.splits if_splits)

lemma vs_steps_inv:
  assumes "vs_step\<^sup>*\<^sup>* vs vs'" and "vs_inv vs"
  shows "vs_inv vs'"
  using assms by (induction rule: rtranclp_induct) (auto intro: vs_step_inv)

text \<open>What the check guarantees when constant and bounds are integers below \<open>2 ^ 53\<close>, of whatever
  integer types: the value lies in the closed interval.\<close>

fun goval_int :: "goval \<Rightarrow> int option" where
  "goval_int (VInt n) = Some (sint n)"
| "goval_int (VInt8 n) = Some (sint n)"
| "goval_int (VInt16 n) = Some (sint n)"
| "goval_int (VInt32 n) = Some (sint n)"
| "goval_int (VInt64 n) = Some (sint n)"
| "goval_int (VUint n) = Some (uint n)"
| "goval_int (VUint8 n) = Some (uint n)"
| "goval_int (VUint16 n) = Some (uint n)"
| "goval_int (VUint32 n) = Some (uint n)"
| "goval_int (VUint64 n) = Some (uint n)"
| "goval_int _ = None"

lemma numeric_int: "goval_int v = Some i \<Longrightarrow> numeric v = Some (f64_of_int i)"
  by (cases v) auto

lemma checkECRange_int:
  assumes "goval_int v = Some i" "goval_int (MinValue ec) = Some lo" "goval_int (MaxValue ec) = Some hi"
    and "\<bar>i\<bar> < 2 ^ 53" "\<bar>lo\<bar> < 2 ^ 53" "\<bar>hi\<bar> < 2 ^ 53"
  shows "checkECRange ec v = OK () \<longleftrightarrow> lo \<le> i \<and> i \<le> hi"
  using assms by (auto simp: checkECRange_def numeric_int f64_less_of_int not_less)

section \<open>Properties\<close>

definition ec_pressure :: EquipmentConstant where
  "ec_pressure = \<lparr>ECID = 10, ec_Name = ''Pressure'', ec_Value = VInt 5, MinValue = VInt 0,
     MaxValue = VInt 100, ec_Units = ''mTorr''\<rparr>"

text \<open>\<^verbatim>\<open>SetEC\<close> on every branch: an unknown constant or a value the range check refuses is an
  error; otherwise exactly the value of this constant changes, and its bounds stay.\<close>

theorem SetEC_spec:
  "case GetEC ecid vs of
     None \<Rightarrow> SetEC ecid v vs = Err (ErrUnknownECID ecid)
   | Some ec \<Rightarrow>
      (case checkECRange ec v of
         OK _ \<Rightarrow> (\<exists>vs'. SetEC ecid v vs = OK vs' \<and> GetEC ecid vs' = Some (ec\<lparr>ec_Value := v\<rparr>) \<and>
                 (\<forall>k. k \<noteq> ecid \<longrightarrow> GetEC k vs' = GetEC k vs) \<and> vs_svs vs' = vs_svs vs)
       | Err e \<Rightarrow> SetEC ecid v vs = Err e
       | Panic \<Rightarrow> False)"
  by (auto simp: SetEC_def GetEC_def map_of_update checkECRange_def split: option.splits)

theorem SetEC_spec_witness:
  "\<exists>vs'. SetEC 10 (VInt 7) (DefineEC ec_pressure NewVariableStore) = OK vs' \<and>
     GetEC 10 vs' = Some (ec_pressure\<lparr>ec_Value := VInt 7\<rparr>)"
proof -
  have "checkECRange ec_pressure (VInt 7) = OK ()"
    by (subst checkECRange_int [of _ 7 _ 0 100]) (simp_all add: ec_pressure_def)
  then show ?thesis
    using SetEC_spec [of 10 "VInt 7" "DefineEC ec_pressure NewVariableStore"]
    by (auto simp: DefineEC_def NewVariableStore_def GetEC_def ec_pressure_def)
qed

text \<open>A process parameter with integer bounds cannot leave them: from a store whose constants
  satisfy their range checks, whatever sequence of updates follows, an integer constant with
  integer bounds (all below \<open>2 ^ 53\<close>) lies between its bounds.\<close>

theorem ec_stays_in_range:
  assumes "vs_inv vs" and "vs_step\<^sup>*\<^sup>* vs vs'" and "GetEC k vs' = Some ec"
    and "goval_int (ec_Value ec) = Some i" "goval_int (MinValue ec) = Some lo"
      "goval_int (MaxValue ec) = Some hi"
    and "\<bar>i\<bar> < 2 ^ 53" "\<bar>lo\<bar> < 2 ^ 53" "\<bar>hi\<bar> < 2 ^ 53"
  shows "lo \<le> i \<and> i \<le> hi"
proof -
  have "checkECRange ec (ec_Value ec) = OK ()"
    using vs_steps_inv [OF assms(2,1)] assms(3) by (simp add: vs_inv_def GetEC_def)
  then show ?thesis using checkECRange_int assms(4-9) by blast
qed

theorem ec_stays_in_range_witness:
  "\<exists>vs' ec. SetEC 10 (VInt 7) (DefineEC ec_pressure NewVariableStore) = OK vs' \<and> GetEC 10 vs' = Some ec \<and>
     (\<exists>i. goval_int (ec_Value ec) = Some i \<and> 0 \<le> i \<and> i \<le> 100)"
proof -
  let ?vs = "DefineEC ec_pressure NewVariableStore" and ?ec = "ec_pressure\<lparr>ec_Value := VInt 7\<rparr>"
  have c: "checkECRange ec_pressure (VInt 5) = OK ()" "checkECRange ec_pressure (VInt 7) = OK ()"
    by (subst checkECRange_int [of _ 5 _ 0 100] checkECRange_int [of _ 7 _ 0 100];
        simp add: ec_pressure_def)+
  have inv: "vs_inv ?vs"
    using c(1) by (simp add: vs_inv_def DefineEC_def NewVariableStore_def ec_pressure_def)
  obtain vs' where vs': "SetEC 10 (VInt 7) ?vs = OK vs'" "GetEC 10 vs' = Some ?ec"
    using c(2) by (simp add: SetEC_def GetEC_def DefineEC_def NewVariableStore_def ec_pressure_def)
  have "vs_step\<^sup>*\<^sup>* ?vs vs'" using vs_step.intros(1) [OF vs'(1)] by blast
  from ec_stays_in_range [OF inv this vs'(2), of 7 0 100] vs' show ?thesis
    by (simp add: ec_pressure_def)
qed

text \<open>The range check has gaps: a NaN passes every pair of bounds, and an integer above the
  maximum passes when its float64 image is rounded onto the maximum.\<close>

theorem ec_range_gaps:
  "checkECRange ec (VFloat64 0x7FF8000000000000) = OK () \<and>
   checkECRange (ec_pressure\<lparr>MaxValue := VInt64 9007199254740992\<rparr>) (VInt64 9007199254740993) =
     OK ()"
proof
  have "f64_is_nan 0x7FF8000000000000" by (simp add: f64_is_nan_def f64_mag_def)
  then show "checkECRange ec (VFloat64 0x7FF8000000000000) = OK ()"
    using f64_nan_unordered by (simp add: checkECRange_def split: option.split)
  have "f64_of_int 9007199254740993 = f64_of_int 9007199254740992" "f64_of_int 0 = 0"
    "f64_of_int 9007199254740992 = 0x4340000000000000"
    by (simp_all add: f64_of_int_def f64_nat_bits_def top_bit.simps round_half_even_def Let_def)
  then show "checkECRange (ec_pressure\<lparr>MaxValue := VInt64 9007199254740992\<rparr>)
      (VInt64 9007199254740993) = OK ()"
    by (simp add: checkECRange_def ec_pressure_def f64_less_def f64_key_def f64_neg_def f64_mag_def)
qed

end
