(* ===== verification/Gem_Events.thy ===== *)
theory Gem_Events
  imports Gem_Variables
begin

text \<open>
  Collection events, reports and their links (\<^verbatim>\<open>pkg/driver/gem/event.go\<close>), and the contract of a
  registry whose entries can be enabled one by one or all at once, which the event manager and
  the alarm manager share.
\<close>

section \<open>Registries with an enabled flag\<close>

locale switch_registry =
  fixes lookup :: "'s \<Rightarrow> uint32 \<Rightarrow> 'i option"
    and on :: "'i \<Rightarrow> bool"
    and switch :: "bool \<Rightarrow> 'i \<Rightarrow> 'i"
    and enable :: "uint32 \<Rightarrow> bool \<Rightarrow> 's \<Rightarrow> (gem_error, 's) res"
    and enable_all :: "bool \<Rightarrow> 's \<Rightarrow> 's"
  assumes on_switch: "on (switch b i) = b"
    and switch_switch: "switch b (switch c i) = switch b i"
    and enable_known: "lookup s k = Some i \<Longrightarrow>
      \<exists>s'. enable k b s = OK s' \<and> lookup s' = (lookup s)(k \<mapsto> switch b i)"
    and enable_unknown: "lookup s k = None \<Longrightarrow> \<exists>e. enable k b s = Err e"
    and enable_all_lookup: "lookup (enable_all b s) k = map_option (switch b) (lookup s k)"
begin

lemma enable_OK:
  assumes "enable k b s = OK s'"
  shows "\<exists>i. lookup s k = Some i \<and> lookup s' = (lookup s)(k \<mapsto> switch b i)"
proof (cases "lookup s k")
  case None
  with enable_unknown [OF None, of b] assms show ?thesis by auto
next
  case (Some i)
  with enable_known [OF Some, of b] assms show ?thesis by auto
qed

lemma enable_effect:
  assumes "enable k b s = OK s'" and "lookup s' j = Some i'"
  shows "if j = k then on i' = b else lookup s j = Some i'"
  using enable_OK [OF assms(1)] assms(2) by (auto simp: on_switch split: if_splits)

lemma enable_known_iff: "(\<exists>s'. enable k b s = OK s') \<longleftrightarrow> lookup s k \<noteq> None"
  using enable_known enable_unknown by (metis not_None_eq res.distinct(1))

lemma enable_last_wins:
  assumes "enable k b s = OK s'" and "enable k c s' = OK s''" and "enable k c s = OK t"
  shows "lookup s'' = lookup t"
  using enable_OK [OF assms(1)] enable_OK [OF assms(2)] enable_OK [OF assms(3)]
  by (auto simp: switch_switch fun_eq_iff)

lemma enable_all_on: "lookup (enable_all b s) k = Some i \<Longrightarrow> on i = b"
  by (auto simp: enable_all_lookup on_switch)

lemma enable_all_dom: "dom (lookup (enable_all b s)) = dom (lookup s)"
  by (auto simp: enable_all_lookup dom_def)

end

section \<open>The event manager\<close>

record CollectionEvent =
  CEID :: uint32
  ce_Name :: string
  ce_Enabled :: bool
  ce_ReportIDs :: "uint32 list"

record ReportDef =
  RPTID :: uint32
  VIDs :: "uint32 list"

record EventManager =
  em_events :: "(uint32, CollectionEvent) gomap"
  em_reports :: "(uint32, ReportDef) gomap"

definition NewEventManager :: EventManager where
  "NewEventManager = \<lparr>em_events = [], em_reports = []\<rparr>"

definition DefineReport :: "uint32 \<Rightarrow> uint32 list \<Rightarrow> EventManager \<Rightarrow> EventManager" where
  "DefineReport rptid vids em =
     em\<lparr>em_reports := AList.update rptid \<lparr>RPTID = rptid, VIDs = vids\<rparr> (em_reports em)\<rparr>"

definition DeleteReport :: "uint32 \<Rightarrow> EventManager \<Rightarrow> EventManager" where
  "DeleteReport rptid em = em\<lparr>em_reports := AList.delete rptid (em_reports em)\<rparr>"

definition DeleteAllReports :: "EventManager \<Rightarrow> EventManager" where
  "DeleteAllReports em =
     em\<lparr>em_reports := [], em_events := map_vals (\<lambda>ce. ce\<lparr>ce_ReportIDs := []\<rparr>) (em_events em)\<rparr>"

definition GetReport :: "uint32 \<Rightarrow> EventManager \<Rightarrow> ReportDef option" where
  "GetReport rptid em = map_of (em_reports em) rptid"

definition DefineEvent :: "uint32 \<Rightarrow> string \<Rightarrow> EventManager \<Rightarrow> EventManager" where
  "DefineEvent ceid name em =
     em\<lparr>em_events := AList.update ceid \<lparr>CEID = ceid, ce_Name = name, ce_Enabled = True,
          ce_ReportIDs = []\<rparr> (em_events em)\<rparr>"

definition GetEvent :: "EventManager \<Rightarrow> uint32 \<Rightarrow> CollectionEvent option" where
  "GetEvent em ceid = map_of (em_events em) ceid"

definition LinkEventReport ::
  "uint32 \<Rightarrow> uint32 list \<Rightarrow> EventManager \<Rightarrow> (gem_error, EventManager) res" where
  "LinkEventReport ceid rptids em =
     (case map_of (em_events em) ceid of
        None \<Rightarrow> Err (ErrUnknownCEID ceid)
      | Some ce \<Rightarrow>
          (case find (\<lambda>r. map_of (em_reports em) r = None) rptids of
             Some r \<Rightarrow> Err (ErrUnknownRPTID r)
           | None \<Rightarrow>
               OK (em\<lparr>em_events := AList.update ceid (ce\<lparr>ce_ReportIDs := rptids\<rparr>) (em_events em)\<rparr>)))"

definition EnableEvent :: "uint32 \<Rightarrow> bool \<Rightarrow> EventManager \<Rightarrow> (gem_error, EventManager) res" where
  "EnableEvent ceid enabled em =
     (case map_of (em_events em) ceid of
        None \<Rightarrow> Err (ErrUnknownCEID ceid)
      | Some ce \<Rightarrow>
          OK (em\<lparr>em_events := AList.update ceid (ce\<lparr>ce_Enabled := enabled\<rparr>) (em_events em)\<rparr>))"

definition EnableAllEvents :: "bool \<Rightarrow> EventManager \<Rightarrow> EventManager" where
  "EnableAllEvents enabled em =
     em\<lparr>em_events := map_vals (\<lambda>ce. ce\<lparr>ce_Enabled := enabled\<rparr>) (em_events em)\<rparr>"

definition IsEventEnabled :: "uint32 \<Rightarrow> EventManager \<Rightarrow> bool" where
  "IsEventEnabled ceid em =
     (case map_of (em_events em) ceid of None \<Rightarrow> False | Some ce \<Rightarrow> ce_Enabled ce)"

text \<open>\<^verbatim>\<open>GetEventReportVIDs\<close>: the linked reports in link order; one that was deleted since is
  skipped.\<close>

definition GetEventReportVIDs ::
  "uint32 \<Rightarrow> EventManager \<Rightarrow> (gem_error, (uint32 \<times> uint32 list) list) res" where
  "GetEventReportVIDs ceid em =
     (case map_of (em_events em) ceid of
        None \<Rightarrow> Err (ErrUnknownCEID ceid)
      | Some ce \<Rightarrow>
          if \<not> ce_Enabled ce then OK []
          else OK (List.map_filter
                 (\<lambda>r. map_option (\<lambda>rpt. (RPTID rpt, VIDs rpt)) (map_of (em_reports em) r))
                 (ce_ReportIDs ce)))"

interpretation events: switch_registry GetEvent ce_Enabled "\<lambda>b ce. ce\<lparr>ce_Enabled := b\<rparr>" EnableEvent
  EnableAllEvents
proof unfold_locales
  fix em :: EventManager and k b ce
  show "GetEvent em k = Some ce \<Longrightarrow>
      \<exists>s'. EnableEvent k b em = OK s' \<and> GetEvent s' = (GetEvent em)(k \<mapsto> ce\<lparr>ce_Enabled := b\<rparr>)"
    by (auto simp: GetEvent_def EnableEvent_def map_of_update fun_eq_iff)
  show "GetEvent em k = None \<Longrightarrow> \<exists>e. EnableEvent k b em = Err e"
    by (simp add: GetEvent_def EnableEvent_def)
  show "GetEvent (EnableAllEvents b em) k = map_option (\<lambda>ce. ce\<lparr>ce_Enabled := b\<rparr>) (GetEvent em k)"
    by (simp add: GetEvent_def EnableAllEvents_def)
qed simp_all

section \<open>Invariant\<close>

text \<open>Keys are distinct and every report is stored under its own id.\<close>

definition em_inv :: "EventManager \<Rightarrow> bool" where
  "em_inv em \<longleftrightarrow> distinct (map fst (em_events em)) \<and> distinct (map fst (em_reports em)) \<and>
     (\<forall>k r. map_of (em_reports em) k = Some r \<longrightarrow> RPTID r = k) \<and>
     (\<forall>k e. map_of (em_events em) k = Some e \<longrightarrow> CEID e = k)"

lemma em_inv_ops:
  "em_inv NewEventManager"
  "em_inv em \<Longrightarrow> em_inv (DefineReport r vids em)"
  "em_inv em \<Longrightarrow> em_inv (DeleteReport r em)"
  "em_inv em \<Longrightarrow> em_inv (DeleteAllReports em)"
  "em_inv em \<Longrightarrow> em_inv (DefineEvent ceid name em)"
  "em_inv em \<Longrightarrow> em_inv (EnableAllEvents b em)"
  by (auto simp: em_inv_def NewEventManager_def DefineReport_def DeleteReport_def
      DeleteAllReports_def DefineEvent_def EnableAllEvents_def map_of_update delete_conv'
      distinct_update distinct_delete split: if_splits)

lemma em_inv_partial_ops:
  "em_inv em \<Longrightarrow> LinkEventReport ceid rs em = OK em' \<Longrightarrow> em_inv em'"
  "em_inv em \<Longrightarrow> EnableEvent ceid b em = OK em' \<Longrightarrow> em_inv em'"
  by (auto simp: em_inv_def LinkEventReport_def EnableEvent_def map_of_update distinct_update
      split: option.splits if_splits)

lemma map_filter_total:
  "(\<And>x. x \<in> set xs \<Longrightarrow> f x = Some (g x)) \<Longrightarrow> List.map_filter f xs = map g xs"
  by (induction xs) (simp_all add: map_filter_simps)

section \<open>Properties\<close>

text \<open>Linking is all or nothing, and what was linked is what is reported: the call succeeds
  exactly when the event and all reports exist, and then the reports of the enabled event are
  the linked ones, complete, in the given order, each with its variables.\<close>

theorem link_then_report:
  assumes "em_inv em"
  shows "if (\<exists>ce. GetEvent em ceid = Some ce) \<and> (\<forall>r \<in> set rs. \<exists>rpt. GetReport r em = Some rpt)
     then \<exists>em' em''. LinkEventReport ceid rs em = OK em' \<and> EnableEvent ceid True em' = OK em'' \<and>
       GetEventReportVIDs ceid em'' = OK (map (\<lambda>r. (r, VIDs (the (GetReport r em)))) rs)
     else \<exists>e. LinkEventReport ceid rs em = Err e"
proof (cases "(\<exists>ce. GetEvent em ceid = Some ce) \<and> (\<forall>r \<in> set rs. \<exists>rpt. GetReport r em = Some rpt)")
  case True
  then obtain ce where ce: "map_of (em_events em) ceid = Some ce" by (auto simp: GetEvent_def)
  have def: "\<exists>rpt. map_of (em_reports em) r = Some rpt \<and> RPTID rpt = r" if "r \<in> set rs" for r
    using True that assms unfolding GetReport_def em_inv_def by blast
  have "find (\<lambda>r. map_of (em_reports em) r = None) rs = None"
    using def by (auto simp: find_None_iff)
  moreover have "List.map_filter (\<lambda>r. map_option (\<lambda>rpt. (RPTID rpt, VIDs rpt))
      (map_of (em_reports em) r)) rs = map (\<lambda>r. (r, VIDs (the (GetReport r em)))) rs"
    using def by (intro map_filter_total) (force simp: GetReport_def)
  ultimately show ?thesis
    using True ce by (simp add: LinkEventReport_def EnableEvent_def GetEventReportVIDs_def map_of_update)
next
  case False
  then have "map_of (em_events em) ceid = None \<or> (\<exists>r \<in> set rs. map_of (em_reports em) r = None)"
    by (auto simp: GetEvent_def GetReport_def)
  then show ?thesis
    using False by (auto simp: LinkEventReport_def find_None_iff split: option.splits)
qed

theorem link_then_report_witness:
  "\<exists>em' em''. LinkEventReport 1 [5] (DefineReport 5 [100, 101] (DefineEvent 1 ''start'' NewEventManager))
       = OK em' \<and> EnableEvent 1 True em' = OK em'' \<and>
     GetEventReportVIDs 1 em'' = OK [(5, [100, 101])]"
proof -
  let ?em = "DefineReport 5 [100, 101] (DefineEvent 1 ''start'' NewEventManager)"
  have "em_inv ?em" by (intro em_inv_ops)
  from link_then_report [OF this, of 1 "[5]"] show ?thesis
    by (simp add: GetEvent_def GetReport_def DefineEvent_def DefineReport_def NewEventManager_def)
qed

text \<open>Deleting all reports leaves no report and no link: every known event then reports
  nothing, also after reports are defined again.\<close>

theorem delete_all_reports_clears:
  "GetReport r (DeleteAllReports em) = None \<and>
   (case GetEvent em ceid of
      None \<Rightarrow> True
    | Some ce \<Rightarrow>
        GetEventReportVIDs ceid (DefineReport r vids (DeleteAllReports em)) = OK [])"
  by (auto simp: GetReport_def GetEvent_def DeleteAllReports_def DefineReport_def
      GetEventReportVIDs_def map_filter_simps split: option.splits)

text \<open>Enabling: \<^verbatim>\<open>EnableEvent\<close> succeeds exactly on known events, sets the flag of that event and
  leaves every other event alone; \<^verbatim>\<open>EnableAllEvents\<close> gives every known event the flag.\<close>

theorem enable_event_spec:
  "((\<exists>em'. EnableEvent k b em = OK em') \<longleftrightarrow> GetEvent em k \<noteq> None) \<and>
   (EnableEvent k b em = OK em' \<longrightarrow> GetEvent em' j = Some ce \<longrightarrow>
      (if j = k then ce_Enabled ce = b else GetEvent em j = Some ce)) \<and>
   (GetEvent (EnableAllEvents b em) j = Some ce \<longrightarrow> ce_Enabled ce = b)"
  using events.enable_known_iff events.enable_effect events.enable_all_on by blast

theorem enable_event_spec_witness:
  "\<exists>em'. EnableEvent 1 False (DefineEvent 1 ''start'' NewEventManager) = OK em'"
  using enable_event_spec [of 1 False "DefineEvent 1 ''start'' NewEventManager"]
  by (simp add: GetEvent_def DefineEvent_def NewEventManager_def)

end
