(* ===== verification/Gem_Alarms.thy ===== *)
theory Gem_Alarms
  imports Gem_Events
begin

text \<open>
  Alarms (\<^verbatim>\<open>pkg/driver/gem/alarm.go\<close>) and the safety interlock that turns a severe alarm into a
  state transition (\<^verbatim>\<open>safety.go\<close>).
\<close>

section \<open>The alarm manager\<close>

definition AlarmPersonalSafety :: byte where "AlarmPersonalSafety = 0x80"
definition AlarmEquipSafety :: byte where "AlarmEquipSafety = 0x40"
definition AlarmParameter :: byte where "AlarmParameter = 0x20"
definition AlarmProcess :: byte where "AlarmProcess = 0x10"
definition AlarmEquipStatus :: byte where "AlarmEquipStatus = 0x08"
definition AlarmAttention :: byte where "AlarmAttention = 0x04"

datatype AlarmState = AlarmCleared | AlarmSet

record Alarm =
  ALID :: uint32
  al_Name :: string
  al_Text :: string
  Severity :: byte
  al_State :: AlarmState
  al_Enabled :: bool
  al_CEID :: uint32
  ClearCEID :: uint32

type_synonym AlarmManager = "(uint32, Alarm) gomap"

definition NewAlarmManager :: AlarmManager where "NewAlarmManager = []"

definition DefineAlarm :: "Alarm \<Rightarrow> AlarmManager \<Rightarrow> AlarmManager" where
  "DefineAlarm alarm am =
     (let alarm = (if al_Enabled alarm = False then alarm\<lparr>al_Enabled := True\<rparr> else alarm)
      in AList.update (ALID alarm) alarm am)"

definition GetAlarm :: "AlarmManager \<Rightarrow> uint32 \<Rightarrow> Alarm option" where
  "GetAlarm am alid = map_of am alid"

definition SetAlarm :: "uint32 \<Rightarrow> AlarmManager \<Rightarrow> (gem_error, AlarmManager \<times> Alarm) res" where
  "SetAlarm alid am =
     (case map_of am alid of
        None \<Rightarrow> Err (ErrUnknownALID alid)
      | Some a \<Rightarrow> let a = a\<lparr>al_State := AlarmSet\<rparr> in OK (AList.update alid a am, a))"

definition ClearAlarm :: "uint32 \<Rightarrow> AlarmManager \<Rightarrow> (gem_error, AlarmManager \<times> Alarm) res" where
  "ClearAlarm alid am =
     (case map_of am alid of
        None \<Rightarrow> Err (ErrUnknownALID alid)
      | Some a \<Rightarrow> let a = a\<lparr>al_State := AlarmCleared\<rparr> in OK (AList.update alid a am, a))"

definition EnableAlarm :: "uint32 \<Rightarrow> bool \<Rightarrow> AlarmManager \<Rightarrow> (gem_error, AlarmManager) res" where
  "EnableAlarm alid enabled am =
     (case map_of am alid of
        None \<Rightarrow> Err (ErrUnknownALID alid)
      | Some a \<Rightarrow> OK (AList.update alid (a\<lparr>al_Enabled := enabled\<rparr>) am))"

definition EnableAllAlarms :: "bool \<Rightarrow> AlarmManager \<Rightarrow> AlarmManager" where
  "EnableAllAlarms enabled am = map_vals (\<lambda>a. a\<lparr>al_Enabled := enabled\<rparr>) am"

definition alarms_in :: "(uint32 list \<Rightarrow> uint32 list) \<Rightarrow> AlarmManager \<Rightarrow> Alarm list" where
  "alarms_in ord am = List.map_filter (map_of am) (ord (map fst am))"

definition ListAlarms :: "(uint32 list \<Rightarrow> uint32 list) \<Rightarrow> AlarmManager \<Rightarrow> Alarm list" where
  "ListAlarms ord am = alarms_in ord am"

definition ListActiveAlarms :: "(uint32 list \<Rightarrow> uint32 list) \<Rightarrow> AlarmManager \<Rightarrow> Alarm list" where
  "ListActiveAlarms ord am = filter (\<lambda>a. al_State a = AlarmSet) (alarms_in ord am)"

interpretation alarms: switch_registry GetAlarm al_Enabled "\<lambda>b a. a\<lparr>al_Enabled := b\<rparr>" EnableAlarm
  EnableAllAlarms
proof unfold_locales
  fix am :: AlarmManager and k b a
  show "GetAlarm am k = Some a \<Longrightarrow>
      \<exists>s'. EnableAlarm k b am = OK s' \<and> GetAlarm s' = (GetAlarm am)(k \<mapsto> a\<lparr>al_Enabled := b\<rparr>)"
    by (auto simp: GetAlarm_def EnableAlarm_def map_of_update fun_eq_iff)
  show "GetAlarm am k = None \<Longrightarrow> \<exists>e. EnableAlarm k b am = Err e"
    by (simp add: GetAlarm_def EnableAlarm_def)
  show "GetAlarm (EnableAllAlarms b am) k = map_option (\<lambda>a. a\<lparr>al_Enabled := b\<rparr>) (GetAlarm am k)"
    by (simp add: GetAlarm_def EnableAllAlarms_def)
qed simp_all

section \<open>The safety interlock\<close>

datatype AlarmAction = AlarmActionLogOnly | AlarmActionForceIdle | AlarmActionForceOffline

text \<open>The interlock holds a pointer to the state machine of the handler: the machine is threaded
  through \<open>Evaluate\<close>. Calls of the optional callback are recorded in \<open>si_called\<close>.\<close>

record SafetyInterlock =
  Threshold :: byte
  Action :: AlarmAction
  si_OnSafetyAlarm :: bool
  si_called :: "(Alarm \<times> AlarmAction) list"

definition NewSafetyInterlock :: SafetyInterlock where
  "NewSafetyInterlock = \<lparr>Threshold = AlarmEquipSafety, Action = AlarmActionForceOffline,
     si_OnSafetyAlarm = False, si_called = []\<rparr>"

definition Evaluate ::
  "Alarm \<Rightarrow> SafetyInterlock \<Rightarrow> StateMachine \<Rightarrow> bool \<times> SafetyInterlock \<times> StateMachine" where
  "Evaluate alarm si sm =
     (if al_State alarm \<noteq> AlarmSet then (False, si, sm)
      else if Severity alarm AND Threshold si = 0 \<and> Severity alarm < Threshold si then (False, si, sm)
      else
        let sm = (case Action si of
                    AlarmActionForceOffline \<Rightarrow>
                      if IsOnline sm then (case GoOffline sm of OK sm' \<Rightarrow> sm' | _ \<Rightarrow> sm) else sm
                  | AlarmActionForceIdle \<Rightarrow> sm
                  | AlarmActionLogOnly \<Rightarrow> sm);
            si = (if si_OnSafetyAlarm si
                  then si\<lparr>si_called := si_called si @ [(alarm, Action si)]\<rparr> else si)
        in (True, si, sm))"

definition SetThreshold :: "byte \<Rightarrow> SafetyInterlock \<Rightarrow> SafetyInterlock" where
  "SetThreshold threshold si = si\<lparr>Threshold := threshold\<rparr>"

definition SetAction :: "AlarmAction \<Rightarrow> SafetyInterlock \<Rightarrow> SafetyInterlock" where
  "SetAction action si = si\<lparr>Action := action\<rparr>"

section \<open>Lemmas\<close>

lemma set_alarms_in:
  assumes "iteration_order ord" and "distinct (map fst am)"
  shows "set (alarms_in ord am) = ran (map_of am)"
proof -
  have "set (ord (map fst am)) = fst ` set am"
    using iteration_orderD(2) [OF assms] by simp
  then show ?thesis
    by (force simp: alarms_in_def List.map_filter_def ran_def dom_map_of_conv_image_fst [symmetric])
qed

lemma and_power_le:
  fixes s :: byte
  assumes "s AND 2 ^ k \<noteq> 0" and "k < 8"
  shows "2 ^ k \<le> s"
proof -
  from assms(1) have "bit s k" by (simp add: and_exp_eq_0_iff_not_bit)
  then have "odd (unat s div 2 ^ k)" by (simp add: bit_unsigned_iff flip: bit_iff_odd)
  then have "2 ^ k \<le> unat s" by (metis div_less even_zero not_le)
  moreover have "(2::nat) ^ k < 2 ^ 8" using assms(2) by (intro power_strict_increasing) auto
  then have "unat (word_of_nat (2 ^ k) :: byte) = 2 ^ k" by (simp only: unat_of_nat) simp
  then have "unat (2 ^ k :: byte) = 2 ^ k" by simp
  ultimately show ?thesis by (simp add: word_le_nat_alt)
qed

lemma Evaluate_trigger:
  assumes "Threshold si = 2 ^ k" and "k < 8"
  shows "fst (Evaluate alarm si sm) \<longleftrightarrow> al_State alarm = AlarmSet \<and> 2 ^ k \<le> Severity alarm"
  using assms and_power_le [of "Severity alarm" k] by (auto simp: Evaluate_def Let_def)

section \<open>Properties\<close>

text \<open>The safety interlock with a single-bit threshold triggers exactly on set alarms whose
  severity has that bit or a higher one; when it triggers with the action force-offline, the
  equipment is not online afterwards, and when it does not trigger nothing changes.\<close>

theorem interlock_forces_offline:
  assumes "Threshold si = 2 ^ k" and "k < 8"
  shows "case Evaluate alarm si sm of (triggered, si', sm') \<Rightarrow>
     (triggered \<longleftrightarrow> al_State alarm = AlarmSet \<and> 2 ^ k \<le> Severity alarm) \<and>
     (triggered \<and> Action si = AlarmActionForceOffline \<longrightarrow> \<not> IsOnline sm') \<and>
     (triggered \<and> Action si \<noteq> AlarmActionForceOffline \<longrightarrow> sm' = sm) \<and>
     (\<not> triggered \<longrightarrow> si' = si \<and> sm' = sm)"
proof -
  have "\<not> IsOnline (snd (snd (Evaluate alarm si sm)))"
    if "fst (Evaluate alarm si sm)" "Action si = AlarmActionForceOffline"
    using that by (auto simp: Evaluate_def Let_def GoOffline_def IsOnline_def split: if_splits)
  moreover have "snd (snd (Evaluate alarm si sm)) = sm"
    if "Action si \<noteq> AlarmActionForceOffline"
    using that by (auto simp: Evaluate_def Let_def split: AlarmAction.split)
  moreover have "\<not> fst (Evaluate alarm si sm) \<Longrightarrow> snd (Evaluate alarm si sm) = (si, sm)"
    by (auto simp: Evaluate_def Let_def)
  ultimately show ?thesis using Evaluate_trigger [OF assms, of alarm sm] by (auto split: prod.split)
qed

definition alarm_leak :: Alarm where
  "alarm_leak = \<lparr>ALID = 1, al_Name = ''Leak'', al_Text = ''gas leak'', Severity = 0x80,
     al_State = AlarmSet, al_Enabled = True, al_CEID = 0, ClearCEID = 0\<rparr>"

theorem interlock_forces_offline_witness:
  "\<not> IsOnline (snd (snd (Evaluate alarm_leak NewSafetyInterlock sm_online)))"
proof -
  have "Threshold NewSafetyInterlock = 2 ^ 6"
    by (simp add: NewSafetyInterlock_def AlarmEquipSafety_def)
  from interlock_forces_offline [OF this, of alarm_leak sm_online] show ?thesis
    by (simp add: alarm_leak_def NewSafetyInterlock_def case_prod_unfold)
qed

text \<open>Setting and clearing: for a known alarm \<^verbatim>\<open>SetAlarm\<close> and \<^verbatim>\<open>ClearAlarm\<close> change the state of
  exactly this alarm and return it; the list of active alarms then contains it or not, whatever
  the iteration order; an unknown alarm is an error.\<close>

theorem alarm_set_clear:
  assumes "iteration_order ord" and "distinct (map fst am)"
  shows "case GetAlarm am k of
     None \<Rightarrow> SetAlarm k am = Err (ErrUnknownALID k) \<and> ClearAlarm k am = Err (ErrUnknownALID k)
   | Some a \<Rightarrow>
      (\<exists>am'. SetAlarm k am = OK (am', a\<lparr>al_State := AlarmSet\<rparr>) \<and>
         set (ListActiveAlarms ord am') = insert (a\<lparr>al_State := AlarmSet\<rparr>)
           {b. \<exists>j. j \<noteq> k \<and> GetAlarm am j = Some b \<and> al_State b = AlarmSet}) \<and>
      (\<exists>am'. ClearAlarm k am = OK (am', a\<lparr>al_State := AlarmCleared\<rparr>) \<and>
         set (ListActiveAlarms ord am') =
           {b. \<exists>j. j \<noteq> k \<and> GetAlarm am j = Some b \<and> al_State b = AlarmSet})"
proof (cases "GetAlarm am k")
  case None
  then show ?thesis by (simp add: SetAlarm_def ClearAlarm_def GetAlarm_def)
next
  case (Some a)
  have active: "set (ListActiveAlarms ord (AList.update k b am)) =
      {c. (c = b \<or> (\<exists>j. j \<noteq> k \<and> GetAlarm am j = Some c)) \<and> al_State c = AlarmSet}" for b
  proof -
    have "set (alarms_in ord (AList.update k b am)) = ran ((map_of am)(k \<mapsto> b))"
      using set_alarms_in [OF assms(1) distinct_update [OF assms(2)], of k b]
      by (simp add: update_conv')
    then show ?thesis by (auto simp: ListActiveAlarms_def ran_def GetAlarm_def split: if_splits)
  qed
  have "SetAlarm k am = OK (AList.update k (a\<lparr>al_State := AlarmSet\<rparr>) am, a\<lparr>al_State := AlarmSet\<rparr>)"
    "ClearAlarm k am =
      OK (AList.update k (a\<lparr>al_State := AlarmCleared\<rparr>) am, a\<lparr>al_State := AlarmCleared\<rparr>)"
    using Some by (simp_all add: SetAlarm_def ClearAlarm_def GetAlarm_def Let_def)
  with Some show ?thesis by (auto simp: active)
qed

theorem alarm_set_clear_witness:
  "\<exists>am'. ClearAlarm 1 (DefineAlarm alarm_leak NewAlarmManager) =
     OK (am', alarm_leak\<lparr>al_State := AlarmCleared\<rparr>) \<and> set (ListActiveAlarms rev am') = {}"
proof -
  let ?am = "DefineAlarm alarm_leak NewAlarmManager"
  have am: "distinct (map fst ?am)" "GetAlarm ?am 1 = Some alarm_leak"
    "j \<noteq> 1 \<Longrightarrow> GetAlarm ?am j = None" for j
    by (simp_all add: DefineAlarm_def NewAlarmManager_def GetAlarm_def alarm_leak_def)
  then have "{b. \<exists>j. j \<noteq> 1 \<and> GetAlarm ?am j = Some b \<and> al_State b = AlarmSet} = {}" by auto
  with alarm_set_clear [OF iteration_order_rev am(1), of 1] am(2) show ?thesis by simp
qed

end
