(* ===== verification/Security_Policy.thy ===== *)
theory Security_Policy
  imports Go_Prelude
begin

text \<open>
  The access policy of a session (\<^verbatim>\<open>pkg/security/policy.go\<close>): which stream/function pairs a peer
  may send. A nil policy is \<open>None\<close>.
\<close>

type_synonym SFPair = "byte \<times> byte"

record SessionPolicy =
  AllowedMessages :: "SFPair list"
  DeniedMessages :: "SFPair list"
  ReadOnly :: bool

definition writeMessages :: "SFPair list" where
  "writeMessages = [(2, 15), (2, 33), (2, 35), (2, 37), (2, 41), (1, 15), (1, 17), (5, 3)]"

definition IsAllowed :: "SessionPolicy option \<Rightarrow> byte \<Rightarrow> byte \<Rightarrow> bool" where
  "IsAllowed p stream function =
     (case p of
        None \<Rightarrow> True
      | Some p \<Rightarrow>
          let sf = (stream, function) in
          if ReadOnly p \<and> list_ex (\<lambda>w. w = sf) writeMessages then False
          else if list_ex (\<lambda>d. d = sf) (DeniedMessages p) then False
          else if AllowedMessages p \<noteq> [] then list_ex (\<lambda>a. a = sf) (AllowedMessages p)
          else True)"

definition ReadOnlyPolicy :: "SessionPolicy option" where
  "ReadOnlyPolicy = Some \<lparr>AllowedMessages = [], DeniedMessages = [], ReadOnly = True\<rparr>"

definition MonitorPolicy :: "SessionPolicy option" where
  "MonitorPolicy = Some \<lparr>AllowedMessages = [(1, 1), (1, 3), (1, 11), (1, 13), (2, 13), (2, 29),
     (5, 5), (5, 7)], DeniedMessages = [], ReadOnly = False\<rparr>"

definition FullAccessPolicy :: "SessionPolicy option" where
  "FullAccessPolicy = None"

lemma IsAllowed_iff:
  "IsAllowed (Some p) s f \<longleftrightarrow>
     \<not> (ReadOnly p \<and> (s, f) \<in> set writeMessages) \<and> (s, f) \<notin> set (DeniedMessages p) \<and>
     (AllowedMessages p = [] \<or> (s, f) \<in> set (AllowedMessages p))"
  by (auto simp: IsAllowed_def Let_def list_ex_iff)

text \<open>The policy decides as a set expression: nil allows everything; otherwise a pair passes
  exactly when it is not a write under read-only, not denied, and allowed where an allowlist is
  set. In particular neither the read-only nor the monitor policy lets a write message through.\<close>

theorem policy_decision:
  "(IsAllowed p s f \<longleftrightarrow>
     (case p of None \<Rightarrow> True
      | Some q \<Rightarrow> \<not> (ReadOnly q \<and> (s, f) \<in> set writeMessages) \<and> (s, f) \<notin> set (DeniedMessages q) \<and>
          (AllowedMessages q = [] \<or> (s, f) \<in> set (AllowedMessages q)))) \<and>
   ((s, f) \<in> set writeMessages \<longrightarrow> \<not> IsAllowed ReadOnlyPolicy s f \<and> \<not> IsAllowed MonitorPolicy s f)"
proof
  show "IsAllowed p s f \<longleftrightarrow>
     (case p of None \<Rightarrow> True
      | Some q \<Rightarrow> \<not> (ReadOnly q \<and> (s, f) \<in> set writeMessages) \<and> (s, f) \<notin> set (DeniedMessages q) \<and>
          (AllowedMessages q = [] \<or> (s, f) \<in> set (AllowedMessages q)))"
    by (cases p) (simp add: IsAllowed_def, simp add: IsAllowed_iff)
  show "(s, f) \<in> set writeMessages \<longrightarrow> \<not> IsAllowed ReadOnlyPolicy s f \<and> \<not> IsAllowed MonitorPolicy s f"
    by (auto simp: ReadOnlyPolicy_def MonitorPolicy_def IsAllowed_iff writeMessages_def)
qed

theorem policy_decision_witness:
  "\<not> IsAllowed ReadOnlyPolicy 2 41 \<and> \<not> IsAllowed MonitorPolicy 2 41"
  using policy_decision [of None 2 41] by (simp add: writeMessages_def)

end
