(* ===== verification/Gem_Handler.thy ===== *)
theory Gem_Handler
  imports Gem_Alarms Security_Policy Secs2_Roundtrip Hsms_Message
begin

text \<open>
  The GEM message handler (\<^verbatim>\<open>pkg/driver/gem/handler.go\<close>) with the command manager
  (\<^verbatim>\<open>command.go\<close>). Messages handed to \<^verbatim>\<open>session.SendMessage\<close> are appended to \<open>h_outbox\<close>; whether
  the call returns nil is an argument (\<open>send_ok\<close>). Registered command and custom handlers are
  functions; executed commands are recorded in \<open>h_executed\<close>. The order in which Go ranges over a
  map is an argument (\<open>ord\<close>).
\<close>

section \<open>Remote commands\<close>

type_synonym CommandStatus = byte

definition CommandOK :: CommandStatus where "CommandOK = 0"
definition CommandInvalidCommand :: CommandStatus where "CommandInvalidCommand = 1"
definition CommandCannotPerform :: CommandStatus where "CommandCannotPerform = 2"
definition CommandParameterError :: CommandStatus where "CommandParameterError = 3"

type_synonym CommandParam = "string \<times> goval"
type_synonym CommandHandlerFunc = "CommandParam list \<Rightarrow> CommandStatus"

type_synonym CommandManager = "(string, CommandHandlerFunc option) gomap"

definition NewCommandManager :: CommandManager where "NewCommandManager = []"

definition cmd_Register :: "string \<Rightarrow> CommandHandlerFunc option \<Rightarrow> CommandManager \<Rightarrow> CommandManager" where
  "cmd_Register name handler cm = AList.update name handler cm"

text \<open>\<^verbatim>\<open>Execute\<close>: an unknown command is a status, a registered nil handler a nil call.\<close>

definition Execute :: "CommandManager \<Rightarrow> string \<Rightarrow> CommandParam list \<Rightarrow> ('e, CommandStatus) res" where
  "Execute cm name params =
     (case map_of cm name of
        None \<Rightarrow> OK CommandInvalidCommand
      | Some None \<Rightarrow> Panic
      | Some (Some handler) \<Rightarrow> OK (handler params))"

definition ListCommands :: "(string list \<Rightarrow> string list) \<Rightarrow> CommandManager \<Rightarrow> string list" where
  "ListCommands ord cm = ord (map fst cm)"

definition HasCommand :: "string \<Rightarrow> CommandManager \<Rightarrow> bool" where
  "HasCommand name cm \<longleftrightarrow> map_of cm name \<noteq> None"

section \<open>The handler\<close>

datatype handler_error =
    EBody secs2_error
  | EIndexed nat secs2_error
  | EEncode secs2_error
  | ESend
  | ECustom string
  | EGem gem_error

record Handler =
  h_sessionID :: uint16
  h_state :: StateMachine
  h_vars :: VariableStore
  h_events :: EventManager
  h_alarms :: AlarmManager
  h_commands :: CommandManager
  h_mdln :: string
  h_softrev :: string
  h_policy :: "SessionPolicy option"
  h_auditor :: bool
  h_interlock :: "SafetyInterlock option"
  h_customHandlers :: "(SFPair, Message \<Rightarrow> (handler_error, item_ptr) res) gomap"
  h_outbox :: "Message list"
  h_denied :: "SFPair list"
  h_executed :: "(string \<times> CommandParam list) list"
  h_eventsSent :: "(uint32 \<times> uint32) list"
  h_alarmsSent :: "(uint32 \<times> bool) list"

definition NewHandler :: "uint16 \<Rightarrow> string \<Rightarrow> string \<Rightarrow> Handler" where
  "NewHandler sessionID mdln softrev =
     \<lparr>h_sessionID = sessionID, h_state = NewStateMachine, h_vars = NewVariableStore,
      h_events = NewEventManager, h_alarms = NewAlarmManager, h_commands = NewCommandManager,
      h_mdln = mdln, h_softrev = softrev, h_policy = MonitorPolicy, h_auditor = False,
      h_interlock = None, h_customHandlers = [], h_outbox = [], h_denied = [], h_executed = [],
      h_eventsSent = [], h_alarmsSent = []\<rparr>"

definition SetPolicy :: "SessionPolicy option \<Rightarrow> Handler \<Rightarrow> Handler" where
  "SetPolicy p h = h\<lparr>h_policy := p\<rparr>"

definition SetSafetyInterlock :: "SafetyInterlock option \<Rightarrow> Handler \<Rightarrow> Handler" where
  "SetSafetyInterlock si h = h\<lparr>h_interlock := si\<rparr>"

definition OnMessage ::
  "byte \<Rightarrow> byte \<Rightarrow> (Message \<Rightarrow> (handler_error, item_ptr) res) \<Rightarrow> Handler \<Rightarrow> Handler" where
  "OnMessage stream function fn h =
     h\<lparr>h_customHandlers := AList.update (stream, function) fn (h_customHandlers h)\<rparr>"

section \<open>Values as items\<close>

fun valueToItem :: "goval \<Rightarrow> item_ptr" where
  "valueToItem VNil = Some (NewList [])"
| "valueToItem (VItem it) = Some it"
| "valueToItem VNilItem = None"
| "valueToItem (VString s) = Some (NewASCII s)"
| "valueToItem (VInt n) = Some (NewI4 [ucast n])"
| "valueToItem (VInt32 n) = Some (NewI4 [n])"
| "valueToItem (VInt64 n) = Some (NewI8 [n])"
| "valueToItem (VUint32 n) = Some (NewU4 [n])"
| "valueToItem (VUint64 n) = Some (NewU8 [n])"
| "valueToItem (VFloat32 w) = Some (NewF4 [w])"
| "valueToItem (VFloat64 w) = Some (NewF8 [w])"
| "valueToItem (VBool b) = Some (NewBoolean [b])"
| "valueToItem (VBytes b) = Some (NewBinary b)"
| "valueToItem (VInt8 n) = Some (NewASCII (decimal_int (sint n)))"
| "valueToItem (VInt16 n) = Some (NewASCII (decimal_int (sint n)))"
| "valueToItem (VUint n) = Some (NewASCII (decimal_int (uint n)))"
| "valueToItem (VUint8 n) = Some (NewASCII (decimal_int (uint n)))"
| "valueToItem (VUint16 n) = Some (NewASCII (decimal_int (uint n)))"
| "valueToItem (VOther t s) = Some (NewASCII s)"

section \<open>Loops and lookups shared by the handlers\<close>

text \<open>\<^verbatim>\<open>for _, x := range xs\<close> with \<^verbatim>\<open>continue\<close> as \<open>OK s\<close>.\<close>

fun for_each :: "('a \<Rightarrow> 's \<Rightarrow> ('e, 's) res) \<Rightarrow> 'a list \<Rightarrow> 's \<Rightarrow> ('e, 's) res" where
  "for_each f [] s = OK s"
| "for_each f (x # xs) s = bind_res (f x s) (for_each f xs)"

text \<open>\<^verbatim>\<open>for i, x := range xs\<close> that fills a slice.\<close>

fun collect :: "(nat \<Rightarrow> 'a \<Rightarrow> ('e, 'b) res) \<Rightarrow> nat \<Rightarrow> 'a list \<Rightarrow> ('e, 'b list) res" where
  "collect f i [] = OK []"
| "collect f i (x # xs) = bind_res (f i x) (\<lambda>y. bind_res (collect f (Suc i) xs) (\<lambda>ys. OK (y # ys)))"

text \<open>\<^verbatim>\<open>x, err := f(); if err != nil { ... }\<close>: the error itself is dropped.\<close>

fun on_err :: "('e, 'a) res \<Rightarrow> ('f, 'b) res \<Rightarrow> ('a \<Rightarrow> ('f, 'b) res) \<Rightarrow> ('f, 'b) res" where
  "on_err (OK x) alt k = k x"
| "on_err (Err e) alt k = alt"
| "on_err Panic alt k = Panic"

lemma on_err_eq_OK [res_simps]:
  "on_err r alt k = OK y \<longleftrightarrow> (\<exists>x. r = OK x \<and> k x = OK y) \<or> (\<exists>e. r = Err e \<and> alt = OK y)"
  by (cases r) auto

text \<open>\<^verbatim>\<open>uint32(ids[0])\<close>.\<close>

definition first_id :: "uint64 list \<Rightarrow> ('e, uint32) res" where
  "first_id ids = (case ids of [] \<Rightarrow> Panic | x # _ \<Rightarrow> OK (ucast x))"

text \<open>\<^verbatim>\<open>ids, err := it.ToUint64s(); if err != nil { continue }; id := uint32(ids[0])\<close>.\<close>

definition with_id :: "item_ptr \<Rightarrow> 's \<Rightarrow> (uint32 \<Rightarrow> (handler_error, 's) res) \<Rightarrow> (handler_error, 's) res" where
  "with_id p s k = on_err (ToUint64s p) (OK s) (\<lambda>ids. bind_res (first_id ids) k)"

text \<open>The same as an indexed lookup whose error is returned.\<close>

definition index_id :: "nat \<Rightarrow> item_ptr \<Rightarrow> (handler_error, uint32) res" where
  "index_id i p = bind_res (map_err (EIndexed i) (ToUint64s p)) first_id"

text \<open>A slice of \<^verbatim>\<open>it.Len()\<close> ids filled from \<^verbatim>\<open>it.Items()\<close>: what is no id stays 0.\<close>

definition id_list :: "item_ptr \<Rightarrow> (handler_error, uint32 list) res" where
  "id_list p =
     bind_res (map_err EBody (Len p)) (\<lambda>n.
     bind_res (map_err EBody (Items p)) (\<lambda>cs.
     bind_res (collect (\<lambda>_ c. with_id c 0 OK) 0 cs) (\<lambda>ids.
       OK (ids @ replicate (n - length cs) 0))))"

text \<open>A pair \<^verbatim>\<open>L,2 {id, arg}\<close> of a request: shorter ones are skipped.\<close>

definition with_pair ::
  "item_ptr \<Rightarrow> 's \<Rightarrow> (uint32 \<Rightarrow> item_ptr \<Rightarrow> (handler_error, 's) res) \<Rightarrow> (handler_error, 's) res" where
  "with_pair p s k =
     bind_res (map_err EBody (Len p)) (\<lambda>n.
       if n < 2 then OK s
       else bind_res (map_err EBody (ItemAt p 0)) (\<lambda>p0.
         with_id p0 s (\<lambda>x. bind_res (map_err EBody (ItemAt p 1)) (k x))))"

section \<open>Stream 1\<close>

definition ack :: "byte \<Rightarrow> Item" where
  "ack b = NewBinary [b]"

definition sv_value :: "Handler \<Rightarrow> uint32 \<Rightarrow> goval" where
  "sv_value h svid = (case GetSV svid (h_vars h) of None \<Rightarrow> VNil | Some v \<Rightarrow> v)"

definition handleS1F1 :: "Handler \<Rightarrow> Item" where
  "handleS1F1 h = NewList [Some (NewASCII (h_mdln h)), Some (NewASCII (h_softrev h))]"

definition handleS1F3 ::
  "(uint32 list \<Rightarrow> uint32 list) \<Rightarrow> byte list \<Rightarrow> Handler \<Rightarrow> (handler_error, Item) res" where
  "handleS1F3 ord data h =
     (if data = [] then
        OK (NewList (map (\<lambda>svid. valueToItem (sv_value h svid)) (ListSVIDs ord (h_vars h))))
      else
        bind_res (map_err EBody (Decode data)) (\<lambda>body.
        bind_res (map_err EBody (Len (Some body))) (\<lambda>n.
        bind_res (map_err EBody (Items (Some body))) (\<lambda>cs.
        bind_res (collect (\<lambda>i c. bind_res (index_id i c) (\<lambda>svid.
          OK (valueToItem (sv_value h svid)))) 0 cs) (\<lambda>items.
          OK (NewList (items @ replicate (n - length cs) None)))))))"

definition handleS1F11 :: "(uint32 list \<Rightarrow> uint32 list) \<Rightarrow> Handler \<Rightarrow> (handler_error, Item) res" where
  "handleS1F11 ord h =
     bind_res (collect (\<lambda>_ svid.
       case GetSVInfo svid (h_vars h) of
         None \<Rightarrow> Panic
       | Some info \<Rightarrow> OK (Some (NewList [Some (NewU4 [svid]), Some (NewASCII (sv_Name info)),
                                       Some (NewASCII (sv_Units info))])))
       0 (ListSVIDs ord (h_vars h))) (\<lambda>items. OK (NewList items))"

text \<open>Both calls' errors are ignored.\<close>

definition ok_or :: "'s \<Rightarrow> ('e, 's) res \<Rightarrow> 's" where
  "ok_or s r = (case r of OK s' \<Rightarrow> s' | _ \<Rightarrow> s)"

definition handleS1F13 :: "Handler \<Rightarrow> Handler \<times> Item" where
  "handleS1F13 h =
     (let sm = ok_or (h_state h) (EnableComm (h_state h));
          sm = ok_or sm (CommEstablished sm)
      in (h\<lparr>h_state := sm\<rparr>,
          NewList [Some (ack 0), Some (NewList [Some (NewASCII (h_mdln h)), Some (NewASCII (h_softrev h))])]))"

definition handleS1F15 :: "Handler \<Rightarrow> Handler \<times> Item" where
  "handleS1F15 h =
     (case GoOffline (h_state h) of OK sm \<Rightarrow> (h\<lparr>h_state := sm\<rparr>, ack 0) | _ \<Rightarrow> (h, ack 1))"

definition handleS1F17 :: "Handler \<Rightarrow> Handler \<times> Item" where
  "handleS1F17 h =
     (case GoOnlineRemote (h_state h) of OK sm \<Rightarrow> (h\<lparr>h_state := sm\<rparr>, ack 0) | _ \<Rightarrow> (h, ack 1))"

section \<open>Stream 2\<close>

definition decode_body :: "byte list \<Rightarrow> (handler_error, item_ptr \<times> nat) res" where
  "decode_body data =
     bind_res (map_err EBody (Decode data)) (\<lambda>body.
       bind_res (map_err EBody (Len (Some body))) (\<lambda>n. OK (Some body, n)))"

definition handleS2F13 ::
  "(uint32 list \<Rightarrow> uint32 list) \<Rightarrow> byte list \<Rightarrow> Handler \<Rightarrow> (handler_error, Item) res" where
  "handleS2F13 ord data h =
     (if data = [] then
        bind_res (collect (\<lambda>_ ecid. case GetEC ecid (h_vars h) of
            None \<Rightarrow> Panic | Some ec \<Rightarrow> OK (valueToItem (ec_Value ec))) 0 (ListECIDs ord (h_vars h)))
          (\<lambda>items. OK (NewList items))
      else
        bind_res (decode_body data) (\<lambda>(body, n).
        bind_res (map_err EBody (Items body)) (\<lambda>cs.
        bind_res (collect (\<lambda>i c. bind_res (index_id i c) (\<lambda>ecid.
          OK (case GetEC ecid (h_vars h) of
                Some ec \<Rightarrow> valueToItem (ec_Value ec) | None \<Rightarrow> Some (NewList [])))) 0 cs) (\<lambda>items.
          OK (NewList (items @ replicate (n - length cs) None))))))"

definition handleS2F15 :: "byte list \<Rightarrow> Handler \<Rightarrow> (handler_error, Handler \<times> Item) res" where
  "handleS2F15 data h =
     bind_res (map_err EBody (Decode data)) (\<lambda>body.
     bind_res (map_err EBody (Items (Some body))) (\<lambda>pairs.
     bind_res (for_each (\<lambda>pair vars.
         with_pair pair vars (\<lambda>ecid v. OK (ok_or vars (SetEC ecid (ptr_val v) vars))))
       pairs (h_vars h)) (\<lambda>vars.
       OK (h\<lparr>h_vars := vars\<rparr>, ack 0))))"

definition handleS2F29 :: "(uint32 list \<Rightarrow> uint32 list) \<Rightarrow> Handler \<Rightarrow> (handler_error, Item) res" where
  "handleS2F29 ord h =
     bind_res (collect (\<lambda>_ ecid.
       case GetEC ecid (h_vars h) of
         None \<Rightarrow> Panic
       | Some ec \<Rightarrow> OK (Some (NewList [Some (NewU4 [ecid]), Some (NewASCII (ec_Name ec)),
            valueToItem (MinValue ec), valueToItem (MaxValue ec), valueToItem (ec_Value ec),
            Some (NewASCII (ec_Units ec))])))
       0 (ListECIDs ord (h_vars h))) (\<lambda>items. OK (NewList items))"

text \<open>One report definition of S2F33: an empty list of variables deletes the report.\<close>

definition define_report :: "item_ptr \<Rightarrow> EventManager \<Rightarrow> (handler_error, EventManager) res" where
  "define_report rptDef em =
     with_pair rptDef em (\<lambda>rptid vidList.
       bind_res (map_err EBody (Len vidList)) (\<lambda>n.
         if n = 0 then OK (DeleteReport rptid em)
         else bind_res (id_list vidList) (\<lambda>vids. OK (DefineReport rptid vids em))))"

definition handleS2F33 :: "byte list \<Rightarrow> Handler \<Rightarrow> (handler_error, Handler \<times> Item) res" where
  "handleS2F33 data h =
     bind_res (decode_body data) (\<lambda>(body, n).
       if n < 2 then OK (h, ack 1)
       else
         bind_res (map_err EBody (ItemAt body 1)) (\<lambda>reportList.
         bind_res (map_err EBody (Len reportList)) (\<lambda>m.
           if m = 0 then OK (h\<lparr>h_events := DeleteAllReports (h_events h)\<rparr>, ack 0)
           else
             bind_res (map_err EBody (Items reportList)) (\<lambda>defs.
             bind_res (for_each define_report defs (h_events h)) (\<lambda>em.
               OK (h\<lparr>h_events := em\<rparr>, ack 0))))))"

definition link_event :: "item_ptr \<Rightarrow> EventManager \<Rightarrow> (handler_error, EventManager) res" where
  "link_event link em =
     with_pair link em (\<lambda>ceid rptList.
       bind_res (id_list rptList) (\<lambda>rptids. OK (ok_or em (LinkEventReport ceid rptids em))))"

definition handleS2F35 :: "byte list \<Rightarrow> Handler \<Rightarrow> (handler_error, Handler \<times> Item) res" where
  "handleS2F35 data h =
     bind_res (decode_body data) (\<lambda>(body, n).
       if n < 2 then OK (h, ack 1)
       else
         bind_res (map_err EBody (ItemAt body 1)) (\<lambda>linkList.
         bind_res (map_err EBody (Items linkList)) (\<lambda>links.
         bind_res (for_each link_event links (h_events h)) (\<lambda>em.
           OK (h\<lparr>h_events := em\<rparr>, ack 0)))))"

definition handleS2F37 :: "byte list \<Rightarrow> Handler \<Rightarrow> (handler_error, Handler \<times> Item) res" where
  "handleS2F37 data h =
     bind_res (decode_body data) (\<lambda>(body, n).
       if n < 2 then OK (h, ack 1)
       else
         bind_res (map_err EBody (ItemAt body 0)) (\<lambda>flag.
           on_err (ToBooleans flag) (OK (h, ack 1)) (\<lambda>enableFlags.
               let enabled = (enableFlags \<noteq> [] \<and> hd enableFlags) in
               bind_res (map_err EBody (ItemAt body 1)) (\<lambda>ceidList.
               bind_res (map_err EBody (Len ceidList)) (\<lambda>m.
                 if m = 0 then OK (h\<lparr>h_events := EnableAllEvents enabled (h_events h)\<rparr>, ack 0)
                 else
                   bind_res (map_err EBody (Items ceidList)) (\<lambda>ceids.
                   bind_res (for_each (\<lambda>c em. with_id c em (\<lambda>ceid.
                       OK (ok_or em (EnableEvent ceid enabled em)))) ceids (h_events h)) (\<lambda>em.
                     OK (h\<lparr>h_events := em\<rparr>, ack 0))))))))"

definition command_reply :: "CommandStatus \<Rightarrow> Item" where
  "command_reply status = NewList [Some (ack status), Some (NewList [])]"

definition command_params :: "item_ptr list \<Rightarrow> (handler_error, CommandParam list) res" where
  "command_params ps =
     for_each (\<lambda>p params.
       bind_res (map_err EBody (Len p)) (\<lambda>n.
         if n < 2 then OK params
         else
           bind_res (map_err EBody (ItemAt p 0)) (\<lambda>p0.
           bind_res (on_err (ToASCII p0) (OK []) OK) (\<lambda>nm.
           bind_res (map_err EBody (ItemAt p 1)) (\<lambda>v. OK (params @ [(nm, ptr_val v)])))))) ps []"

definition handleS2F41 :: "byte list \<Rightarrow> Handler \<Rightarrow> (handler_error, Handler \<times> Item) res" where
  "handleS2F41 data h =
     bind_res (decode_body data) (\<lambda>(body, n).
       if n < 2 then OK (h, command_reply CommandParameterError)
       else
         bind_res (map_err EBody (ItemAt body 0)) (\<lambda>p0.
           on_err (ToASCII p0) (OK (h, command_reply CommandParameterError)) (\<lambda>cmdName.
               bind_res (map_err EBody (ItemAt body 1)) (\<lambda>paramList.
               bind_res (map_err EBody (Items paramList)) (\<lambda>ps.
               bind_res (command_params ps) (\<lambda>params.
               bind_res (Execute (h_commands h) cmdName params) (\<lambda>status.
                 OK (h\<lparr>h_executed := h_executed h @
                        (if HasCommand cmdName (h_commands h) then [(cmdName, params)] else [])\<rparr>,
                     command_reply status))))))))"

section \<open>Stream 5\<close>

definition handleS5F3 :: "byte list \<Rightarrow> Handler \<Rightarrow> (handler_error, Handler \<times> Item) res" where
  "handleS5F3 data h =
     bind_res (decode_body data) (\<lambda>(body, n).
       if n < 2 then OK (h, ack 1)
       else
         bind_res (map_err EBody (ItemAt body 0)) (\<lambda>p0.
           on_err (ToBinary p0) (OK (h, ack 1)) (\<lambda>aledBytes.
               let enabled = (aledBytes \<noteq> [] \<and> hd aledBytes AND 0x80 \<noteq> 0) in
               bind_res (map_err EBody (ItemAt body 1)) (\<lambda>p1.
                 on_err (ToUint64s p1) (OK (h, ack 1)) (\<lambda>alids.
                 bind_res (first_id alids) (\<lambda>alid.
                 on_err (EnableAlarm alid enabled (h_alarms h)) (OK (h, ack 1)) (\<lambda>am.
                   OK (h\<lparr>h_alarms := am\<rparr>, ack 0))))))))"

definition alcd :: "byte \<Rightarrow> bool \<Rightarrow> byte" where
  "alcd severity is_set = (if is_set then severity OR 0x80 else severity)"

definition alarm_item :: "Alarm \<Rightarrow> item_ptr" where
  "alarm_item a = Some (NewList [Some (ack (alcd (Severity a) (al_State a = AlarmSet))),
     Some (NewU4 [ALID a]), Some (NewASCII (al_Text a))])"

definition handleS5F5 :: "(uint32 list \<Rightarrow> uint32 list) \<Rightarrow> Handler \<Rightarrow> Item" where
  "handleS5F5 ord h = NewList (map alarm_item (ListAlarms ord (h_alarms h)))"

definition handleS5F7 :: "(uint32 list \<Rightarrow> uint32 list) \<Rightarrow> Handler \<Rightarrow> Item" where
  "handleS5F7 ord h = NewList (map alarm_item (filter al_Enabled (ListAlarms ord (h_alarms h))))"

section \<open>Dispatch\<close>

definition keep :: "Handler \<Rightarrow> (handler_error, Item) res \<Rightarrow> (handler_error, Handler \<times> Item) res" where
  "keep h r = bind_res r (\<lambda>it. OK (h, it))"

text \<open>The switch over the built-in handlers; \<open>None\<close> is its default branch.\<close>

definition builtin ::
  "(uint32 list \<Rightarrow> uint32 list) \<Rightarrow> byte \<Rightarrow> byte \<Rightarrow> byte list \<Rightarrow> Handler \<Rightarrow>
     (handler_error, Handler \<times> Item) res option" where
  "builtin ord s f data h =
     (if (s, f) = (1, 1) then Some (OK (h, handleS1F1 h))
      else if (s, f) = (1, 3) then Some (keep h (handleS1F3 ord data h))
      else if (s, f) = (1, 11) then Some (keep h (handleS1F11 ord h))
      else if (s, f) = (1, 13) then Some (OK (handleS1F13 h))
      else if (s, f) = (1, 15) then Some (OK (handleS1F15 h))
      else if (s, f) = (1, 17) then Some (OK (handleS1F17 h))
      else if (s, f) = (2, 13) then Some (keep h (handleS2F13 ord data h))
      else if (s, f) = (2, 15) then Some (handleS2F15 data h)
      else if (s, f) = (2, 29) then Some (keep h (handleS2F29 ord h))
      else if (s, f) = (2, 33) then Some (handleS2F33 data h)
      else if (s, f) = (2, 35) then Some (handleS2F35 data h)
      else if (s, f) = (2, 37) then Some (handleS2F37 data h)
      else if (s, f) = (2, 41) then Some (handleS2F41 data h)
      else if (s, f) = (5, 3) then Some (handleS5F3 data h)
      else if (s, f) = (5, 5) then Some (OK (h, handleS5F5 ord h))
      else if (s, f) = (5, 7) then Some (OK (h, handleS5F7 ord h))
      else None)"

definition sendReply ::
  "bool \<Rightarrow> Message \<Rightarrow> byte \<Rightarrow> byte \<Rightarrow> item_ptr \<Rightarrow> Handler \<Rightarrow> Handler \<times> (handler_error, unit) res" where
  "sendReply send_ok req stream function body h =
     (case (case body of None \<Rightarrow> OK [] | Some _ \<Rightarrow> Encode body) of
        Err e \<Rightarrow> (h, Err (EEncode e))
      | Panic \<Rightarrow> (h, Panic)
      | OK data \<Rightarrow>
          (h\<lparr>h_outbox := h_outbox h @ [NewDataMessage (SessionID (MHeader req)) stream function False
               (SystemID (MHeader req)) data]\<rparr>,
           if send_ok then OK () else Err ESend))"

definition HandleMessage ::
  "(uint32 list \<Rightarrow> uint32 list) \<Rightarrow> bool \<Rightarrow> Message \<Rightarrow> Handler \<Rightarrow>
     Handler \<times> (handler_error, unit) res" where
  "HandleMessage ord send_ok msg h =
     (if IsControlMessage msg then (h, OK ())
      else
        let s = Stream (MHeader msg); f = Function (MHeader msg); wbit = WBit (MHeader msg) in
        if \<not> IsAllowed (h_policy h) s f then
          let h = (if h_auditor h then h\<lparr>h_denied := h_denied h @ [(s, f)]\<rparr> else h)
          in if wbit then sendReply send_ok msg s 0 None h else (h, OK ())
        else
          case map_of (h_customHandlers h) (s, f) of
            Some fn \<Rightarrow>
              (case fn msg of
                 Err e \<Rightarrow> (h, Err e)
               | Panic \<Rightarrow> (h, Panic)
               | OK None \<Rightarrow> (h, OK ())
               | OK (Some it) \<Rightarrow>
                   if wbit then sendReply send_ok msg s (f + 1) (Some it) h else (h, OK ()))
          | None \<Rightarrow>
              (case builtin ord s f (MData msg) h of
                 None \<Rightarrow> (h, OK ())
               | Some (Err e) \<Rightarrow> (h, Err e)
               | Some Panic \<Rightarrow> (h, Panic)
               | Some (OK (h', it)) \<Rightarrow>
                   if wbit then sendReply send_ok msg s (f + 1) (Some it) h' else (h', OK ())))"

section \<open>Messages the equipment sends\<close>

definition alarm_report :: "Alarm \<Rightarrow> bool \<Rightarrow> Item" where
  "alarm_report a is_set = NewList [Some (ack (alcd (Severity a) is_set)), Some (NewU4 [ALID a]),
     Some (NewASCII (al_Text a))]"

text \<open>Encoding a primary message and handing it to the session; the callbacks run when the call
  returned no error.\<close>

definition send_primary ::
  "bool \<Rightarrow> byte \<Rightarrow> byte \<Rightarrow> Item \<Rightarrow> (Handler \<Rightarrow> Handler) \<Rightarrow> Handler \<Rightarrow>
     Handler \<times> (handler_error, unit) res" where
  "send_primary send_ok stream function body callbacks h =
     (case Encode (Some body) of
        Err e \<Rightarrow> (h, Err (EEncode e))
      | Panic \<Rightarrow> (h, Panic)
      | OK data \<Rightarrow>
          let h = h\<lparr>h_outbox := h_outbox h @
                [NewDataMessage (h_sessionID h) stream function True 0 data]\<rparr>
          in if send_ok then (callbacks h, OK ()) else (h, Err ESend))"

definition SendAlarm :: "bool \<Rightarrow> uint32 \<Rightarrow> bool \<Rightarrow> Handler \<Rightarrow> Handler \<times> (handler_error, unit) res" where
  "SendAlarm send_ok alid is_set h =
     (case (if is_set then SetAlarm alid (h_alarms h) else ClearAlarm alid (h_alarms h)) of
        Err e \<Rightarrow> (h, Err (EGem e))
      | Panic \<Rightarrow> (h, Panic)
      | OK (am, alarm) \<Rightarrow>
          let h = h\<lparr>h_alarms := am\<rparr>;
              h = (case h_interlock h of
                     Some si \<Rightarrow>
                       if is_set then
                         (case Evaluate alarm si (h_state h) of
                            (_, si, sm) \<Rightarrow> h\<lparr>h_interlock := Some si, h_state := sm\<rparr>)
                       else h
                   | None \<Rightarrow> h)
          in if \<not> al_Enabled alarm then (h, OK ())
             else send_primary send_ok 5 1 (alarm_report alarm is_set)
                    (\<lambda>h. h\<lparr>h_alarmsSent := h_alarmsSent h @ [(alid, is_set)]\<rparr>) h)"

definition event_report :: "uint32 \<Rightarrow> uint32 \<Rightarrow> (uint32 \<times> uint32 list) list \<Rightarrow> Handler \<Rightarrow> Item" where
  "event_report dataID ceid reportVIDs h =
     NewList [Some (NewU4 [dataID]), Some (NewU4 [ceid]),
       Some (NewList (map (\<lambda>(rptid, vids). Some (NewList [Some (NewU4 [rptid]),
         Some (NewList (map (\<lambda>vid. valueToItem (sv_value h vid)) vids))])) reportVIDs))]"

definition SendEvent ::
  "bool \<Rightarrow> uint32 \<Rightarrow> uint32 \<Rightarrow> Handler \<Rightarrow> Handler \<times> (handler_error, unit) res" where
  "SendEvent send_ok dataID ceid h =
     (if \<not> IsEventEnabled ceid (h_events h) then (h, OK ())
      else
        case GetEventReportVIDs ceid (h_events h) of
          Err e \<Rightarrow> (h, Err (EGem e))
        | Panic \<Rightarrow> (h, Panic)
        | OK reportVIDs \<Rightarrow>
            send_primary send_ok 6 11 (event_report dataID ceid reportVIDs h)
              (\<lambda>h. h\<lparr>h_eventsSent := h_eventsSent h @ [(dataID, ceid)]\<rparr>) h)"

end
