(* ===== verification/Gem_Handler_Props.thy ===== *)
theory Gem_Handler_Props
  imports Gem_Handler
begin

text \<open>
  What the message handler guarantees: access control, the invariants of the stores it drives,
  the correlation of replies, and the effect of the requests on the wire.
\<close>

section \<open>What the parts leave alone\<close>

lemma sendReply_frame:
  assumes "sendReply ok req s f body h = (h', r)"
  shows "h' = h \<or> (\<exists>d. h' = h\<lparr>h_outbox := h_outbox h @ [NewDataMessage (SessionID (MHeader req)) s f
     False (SystemID (MHeader req)) d]\<rparr>)"
  using assms unfolding sendReply_def by (auto split: res.splits option.splits)

lemma for_each_inv:
  assumes "\<And>x s s'. J s \<Longrightarrow> f x s = OK s' \<Longrightarrow> J s'" and "J s" and "for_each f xs s = OK s'"
  shows "J s'"
  using assms(2,3)
proof (induction xs arbitrary: s)
  case (Cons x xs)
  then show ?case using assms(1) by (auto simp: res_simps)
qed simp

lemma with_id_OK:
  assumes "with_id p s k = OK s'"
  shows "s' = s \<or> (\<exists>x. k x = OK s')"
  using assms by (auto simp: with_id_def res_simps)

lemma with_pair_OK:
  assumes "with_pair p s k = OK s'"
  shows "s' = s \<or> (\<exists>x q. k x q = OK s')"
  using assms by (auto simp: with_pair_def res_simps split: if_splits dest!: with_id_OK)

lemma ok_or_cases: "ok_or s r = s \<or> r = OK (ok_or s r)"
  by (cases r) (auto simp: ok_or_def)

lemma builtin_keep [simp]: "keep h r = OK (h', it) \<Longrightarrow> h' = h"
  by (auto simp: keep_def res_simps)

text \<open>Each handler changes only the component it is about.\<close>

lemma handleS2F15_frame:
  "handleS2F15 data h = OK (h', it) \<Longrightarrow> \<exists>v. h' = h\<lparr>h_vars := v\<rparr>"
  by (auto simp: handleS2F15_def res_simps)

lemma handle_events_frame:
  "handleS2F33 data h = OK (h', it) \<Longrightarrow> \<exists>e. h' = h\<lparr>h_events := e\<rparr>"
  "handleS2F35 data h = OK (h', it) \<Longrightarrow> \<exists>e. h' = h\<lparr>h_events := e\<rparr>"
  "handleS2F37 data h = OK (h', it) \<Longrightarrow> \<exists>e. h' = h\<lparr>h_events := e\<rparr>"
proof -
  have same: "\<exists>e. h = h\<lparr>h_events := e\<rparr>" by (rule exI [of _ "h_events h"]) simp
  show "handleS2F33 data h = OK (h', it) \<Longrightarrow> \<exists>e. h' = h\<lparr>h_events := e\<rparr>"
    using same by (auto simp: handleS2F33_def res_simps split: if_splits)
  show "handleS2F35 data h = OK (h', it) \<Longrightarrow> \<exists>e. h' = h\<lparr>h_events := e\<rparr>"
    using same by (auto simp: handleS2F35_def res_simps split: if_splits)
  show "handleS2F37 data h = OK (h', it) \<Longrightarrow> \<exists>e. h' = h\<lparr>h_events := e\<rparr>"
    using same by (auto simp: handleS2F37_def res_simps Let_def split: if_splits)
qed

lemma handleS2F41_frame:
  assumes "handleS2F41 data h = OK (h', it)"
  shows "\<exists>l. h' = h\<lparr>h_executed := h_executed h @ l\<rparr>"
proof -
  have "\<exists>l. h = h\<lparr>h_executed := h_executed h @ l\<rparr>" by (rule exI [of _ "[]"]) simp
  then show ?thesis
    using assms by (auto simp: handleS2F41_def res_simps split: if_splits)
qed

lemma handleS5F3_frame:
  assumes "handleS5F3 data h = OK (h', it)"
  shows "\<exists>a. h' = h\<lparr>h_alarms := a\<rparr>"
proof -
  have "\<exists>a. h = h\<lparr>h_alarms := a\<rparr>" by (rule exI [of _ "h_alarms h"]) simp
  then show ?thesis
    using assms by (auto simp: handleS5F3_def res_simps Let_def split: if_splits)
qed

section \<open>Invariant\<close>

definition handler_inv :: "Handler \<Rightarrow> bool" where
  "handler_inv h \<longleftrightarrow> sm_inv (h_state h) \<and> em_inv (h_events h) \<and> distinct (map fst (h_alarms h)) \<and>
     distinct (map fst (vs_ecs (h_vars h))) \<and> distinct (map fst (vs_svs (h_vars h)))"

lemma SetEC_distinct:
  "SetEC k v vs = OK vs' \<Longrightarrow> distinct (map fst (vs_ecs vs)) \<Longrightarrow>
     distinct (map fst (vs_ecs vs')) \<and> vs_svs vs' = vs_svs vs"
  by (auto simp: SetEC_def res_simps distinct_update split: option.splits)

lemma handleS2F15_inv:
  assumes "handleS2F15 data h = OK (h', it)" and "handler_inv h"
  shows "handler_inv h'"
proof -
  let ?J = "\<lambda>vs. distinct (map fst (vs_ecs vs)) \<and> vs_svs vs = vs_svs (h_vars h)"
  let ?f = "\<lambda>pair vars. with_pair pair vars (\<lambda>ecid v. OK (ok_or vars (SetEC ecid (ptr_val v) vars)))"
  from assms(1) obtain pairs vars where fe: "for_each ?f pairs (h_vars h) = OK vars"
    and h': "h' = h\<lparr>h_vars := vars\<rparr>"
    by (auto simp: handleS2F15_def res_simps)
  have "?J s'" if "?J s" "?f x s = OK s'" for x s s'
    using that with_pair_OK [OF that(2)] ok_or_cases [of s] SetEC_distinct by (metis res.inject(1))
  then have "?J vars"
    by (rule for_each_inv [where J = ?J and f = ?f, OF _ _ fe]) (use assms(2) in \<open>simp_all add: handler_inv_def\<close>)
  with h' assms(2) show ?thesis by (simp add: handler_inv_def)
qed

lemma LinkEnable_inv:
  "em_inv em \<Longrightarrow> em_inv (ok_or em (LinkEventReport c rs em))"
  "em_inv em \<Longrightarrow> em_inv (ok_or em (EnableEvent c b em))"
  using ok_or_cases [of em] em_inv_partial_ops by metis+

lemma define_report_inv:
  assumes "define_report p em = OK em'" and "em_inv em"
  shows "em_inv em'"
  using with_pair_OK [OF assms(1) [unfolded define_report_def]] assms(2)
  by (auto simp: res_simps em_inv_ops split: if_splits)

lemma link_event_inv:
  assumes "link_event p em = OK em'" and "em_inv em"
  shows "em_inv em'"
  using with_pair_OK [OF assms(1) [unfolded link_event_def]] assms(2)
  by (auto simp: res_simps LinkEnable_inv)

lemma enable_event_inv:
  assumes "with_id c em (\<lambda>ceid. OK (ok_or em (EnableEvent ceid b em))) = OK em'" and "em_inv em"
  shows "em_inv em'"
  using with_id_OK [OF assms(1)] assms(2) LinkEnable_inv(2) by auto

lemma events_loops_inv:
  assumes "em_inv em"
  shows "for_each define_report xs em = OK em' \<Longrightarrow> em_inv em'"
    and "for_each link_event xs em = OK em' \<Longrightarrow> em_inv em'"
    and "for_each (\<lambda>c em. with_id c em (\<lambda>ceid. OK (ok_or em (EnableEvent ceid b em)))) xs em = OK em' \<Longrightarrow>
      em_inv em'"
  by (rule for_each_inv [where J = em_inv, OF _ assms], rule define_report_inv, assumption+)
    (rule for_each_inv [where J = em_inv, OF _ assms], rule link_event_inv, assumption+,
     rule for_each_inv [where J = em_inv, OF _ assms], rule enable_event_inv, assumption+)

lemma handle_events_inv:
  assumes "em_inv (h_events h)"
  shows "handleS2F33 data h = OK (h', it) \<Longrightarrow> em_inv (h_events h')"
    and "handleS2F35 data h = OK (h', it) \<Longrightarrow> em_inv (h_events h')"
    and "handleS2F37 data h = OK (h', it) \<Longrightarrow> em_inv (h_events h')"
proof -
  show "handleS2F33 data h = OK (h', it) \<Longrightarrow> em_inv (h_events h')"
    using assms em_inv_ops(4) [OF assms]
    by (auto simp: handleS2F33_def res_simps split: if_splits dest: events_loops_inv(1) [OF assms])
  show "handleS2F35 data h = OK (h', it) \<Longrightarrow> em_inv (h_events h')"
    using assms
    by (auto simp: handleS2F35_def res_simps split: if_splits dest: events_loops_inv(2) [OF assms])
  show "handleS2F37 data h = OK (h', it) \<Longrightarrow> em_inv (h_events h')"
    using assms em_inv_ops(6) [OF assms]
    by (auto simp: handleS2F37_def res_simps Let_def split: if_splits
        dest: events_loops_inv(3) [OF assms])
qed

lemma handle_state_inv:
  assumes "sm_inv (h_state h)"
  shows "sm_inv (h_state (fst (handleS1F13 h)))" "sm_inv (h_state (fst (handleS1F15 h)))"
    "sm_inv (h_state (fst (handleS1F17 h)))"
proof -
  have ok: "sm_inv (ok_or sm (EnableComm sm)) \<and> sm_inv (ok_or sm (CommEstablished sm))"
    if "sm_inv sm" for sm
    using that ok_or_cases [of sm] sm_step_inv sm_step.intros(1,3) by metis
  then show "sm_inv (h_state (fst (handleS1F13 h)))"
    using assms by (simp add: handleS1F13_def Let_def)
  show "sm_inv (h_state (fst (handleS1F15 h)))" "sm_inv (h_state (fst (handleS1F17 h)))"
    using assms
    by (auto simp: handleS1F15_def handleS1F17_def split: res.splits
        dest: sm_step_inv [OF sm_step.intros(7)] sm_step_inv [OF sm_step.intros(8)])
qed

lemma handle_state_frame:
  "\<exists>sm. fst (handleS1F13 h) = h\<lparr>h_state := sm\<rparr>"
  "\<exists>sm. fst (handleS1F15 h) = h\<lparr>h_state := sm\<rparr>"
  "\<exists>sm. fst (handleS1F17 h) = h\<lparr>h_state := sm\<rparr>"
proof -
  have same: "\<exists>sm. h = h\<lparr>h_state := sm\<rparr>" by (rule exI [of _ "h_state h"]) simp
  then show "\<exists>sm. fst (handleS1F13 h) = h\<lparr>h_state := sm\<rparr>"
    "\<exists>sm. fst (handleS1F15 h) = h\<lparr>h_state := sm\<rparr>" "\<exists>sm. fst (handleS1F17 h) = h\<lparr>h_state := sm\<rparr>"
    by (auto simp: handleS1F13_def handleS1F15_def handleS1F17_def Let_def split: res.splits)
qed

lemma handleS5F3_inv:
  assumes "handleS5F3 data h = OK (h', it)" and "distinct (map fst (h_alarms h))"
  shows "distinct (map fst (h_alarms h'))"
  using assms
  by (auto simp: handleS5F3_def res_simps Let_def EnableAlarm_def distinct_update
      split: if_splits option.splits)

text \<open>The switch, one component at a time.\<close>

lemma builtin_cases:
  assumes "builtin ord s f data h = Some (OK (h', it))"
  obtains (same) "h' = h"
  | (S1F13) "(s, f) = (1, 13)" "h' = fst (handleS1F13 h)"
  | (S1F15) "(s, f) = (1, 15)" "h' = fst (handleS1F15 h)"
  | (S1F17) "(s, f) = (1, 17)" "h' = fst (handleS1F17 h)"
  | (S2F15) "(s, f) = (2, 15)" "handleS2F15 data h = OK (h', it)"
  | (S2F33) "(s, f) = (2, 33)" "handleS2F33 data h = OK (h', it)"
  | (S2F35) "(s, f) = (2, 35)" "handleS2F35 data h = OK (h', it)"
  | (S2F37) "(s, f) = (2, 37)" "handleS2F37 data h = OK (h', it)"
  | (S2F41) "(s, f) = (2, 41)" "handleS2F41 data h = OK (h', it)"
  | (S5F3) "(s, f) = (5, 3)" "handleS5F3 data h = OK (h', it)"
proof -
  have keep: "h' = h" if "keep h r = OK (h', it)" for r using that builtin_keep by blast
  show thesis
    using assms that unfolding builtin_def
    by (auto split: if_splits dest: keep)
qed

lemma builtin_inv:
  assumes "builtin ord s f data h = Some (OK (h', it))" and "handler_inv h"
  shows "handler_inv h'"
  using assms(1)
proof (cases rule: builtin_cases)
  case S1F13
  then show ?thesis
    using assms(2) handle_state_inv(1) [of h] handle_state_frame(1) [of h]
    by (auto simp: handler_inv_def)
next
  case S1F15
  then show ?thesis
    using assms(2) handle_state_inv(2) [of h] handle_state_frame(2) [of h]
    by (auto simp: handler_inv_def)
next
  case S1F17
  then show ?thesis
    using assms(2) handle_state_inv(3) [of h] handle_state_frame(3) [of h]
    by (auto simp: handler_inv_def)
next
  case S2F15
  then show ?thesis using handleS2F15_inv assms(2) by blast
next
  case S2F33
  then show ?thesis
    using assms(2) handle_events_inv(1) handle_events_frame(1) by (fastforce simp: handler_inv_def)
next
  case S2F35
  then show ?thesis
    using assms(2) handle_events_inv(2) handle_events_frame(2) by (fastforce simp: handler_inv_def)
next
  case S2F37
  then show ?thesis
    using assms(2) handle_events_inv(3) handle_events_frame(3) by (fastforce simp: handler_inv_def)
next
  case S2F41
  then show ?thesis using assms(2) handleS2F41_frame by (fastforce simp: handler_inv_def)
next
  case S5F3
  then show ?thesis
    using assms(2) handleS5F3_inv handleS5F3_frame by (fastforce simp: handler_inv_def)
qed (use assms(2) in simp)

lemma sendReply_inv: "handler_inv (fst (sendReply ok req s f body h)) = handler_inv h"
  using sendReply_frame [of ok req s f body h] by (cases "sendReply ok req s f body h")
    (auto simp: handler_inv_def)

lemma HandleMessage_inv: "handler_inv h \<Longrightarrow> handler_inv (fst (HandleMessage ord ok msg h))"
  by (auto simp: HandleMessage_def Let_def sendReply_inv handler_inv_def [of "h\<lparr>h_denied := _\<rparr>"]
      handler_inv_def [of h, symmetric] split: option.splits res.splits intro: builtin_inv)

lemma send_primary_inv:
  assumes "handler_inv h" and "\<And>h. handler_inv h \<Longrightarrow> handler_inv (cb h)"
  shows "handler_inv (fst (send_primary ok s f it cb h))"
proof -
  have "handler_inv (h\<lparr>h_outbox := out\<rparr>)" for out using assms(1) by (simp add: handler_inv_def)
  with assms show ?thesis by (auto simp: send_primary_def Let_def split: res.splits)
qed

lemma SendEvent_inv: "handler_inv h \<Longrightarrow> handler_inv (fst (SendEvent ok d c h))"
  by (auto simp: SendEvent_def split: res.splits intro!: send_primary_inv) (auto simp: handler_inv_def)

lemma Evaluate_sm_inv:
  assumes "sm_inv sm"
  shows "sm_inv (snd (snd (Evaluate a si sm)))"
  using assms sm_step_inv [OF sm_step.intros(8) [of sm]]
  by (auto simp: Evaluate_def Let_def split: AlarmAction.split res.split)

lemma SendAlarm_inv:
  assumes "handler_inv h"
  shows "handler_inv (fst (SendAlarm ok k b h))"
proof -
  have upd: "handler_inv (h\<lparr>h_alarms := AList.update k a (h_alarms h)\<rparr>)"
    "handler_inv (h\<lparr>h_alarms := AList.update k a (h_alarms h), h_interlock := i, h_state := sm\<rparr>)"
    if "sm_inv sm" for a i sm
    using assms that by (simp_all add: handler_inv_def distinct_update)
  have cb: "handler_inv (h\<lparr>h_alarmsSent := l\<rparr>)" if "handler_inv h" for h l
    using that by (simp add: handler_inv_def)
  have sm: "sm_inv (h_state h)" using assms by (simp add: handler_inv_def)
  show ?thesis
    using upd sm Evaluate_sm_inv [OF sm] assms
    by (auto simp: SendAlarm_def SetAlarm_def ClearAlarm_def Let_def case_prod_unfold
        split: option.splits if_splits intro!: send_primary_inv cb)
qed

lemma sendReply_eq:
  obtains out where "fst (sendReply ok req s f body h) = h\<lparr>h_outbox := out\<rparr>"
proof -
  have "h = h\<lparr>h_outbox := h_outbox h\<rparr>" by simp
  then show thesis
    using sendReply_frame [of ok req s f body h] that by (metis prod.collapse)
qed

text \<open>A message is denied, or a built-in handler ran; replies only touch the outbox.\<close>

lemma HandleMessage_shape:
  fixes msg h
  defines "s \<equiv> Stream (MHeader msg)" and "f \<equiv> Function (MHeader msg)"
  assumes "h_customHandlers h = []"
  obtains "fst (HandleMessage ord ok msg h) = h"
  | h1 where "h1 = h \<or> h1 = h\<lparr>h_denied := h_denied h @ [(s, f)]\<rparr>"
    "fst (HandleMessage ord ok msg h) \<in> {h1, fst (sendReply ok msg s 0 None h1)}"
  | h' it where "IsAllowed (h_policy h) s f" "builtin ord s f (MData msg) h = Some (OK (h', it))"
    "fst (HandleMessage ord ok msg h) \<in> {h', fst (sendReply ok msg s (f + 1) (Some it) h')}"
proof (cases "IsControlMessage msg \<or> IsAllowed (h_policy h) s f")
  case False
  then show thesis
    by (intro that(2) [of "if h_auditor h then h\<lparr>h_denied := h_denied h @ [(s, f)]\<rparr> else h"])
      (simp_all add: HandleMessage_def Let_def s_def f_def)
next
  case True
  show thesis
  proof (cases "\<not> IsControlMessage msg \<and> (\<exists>h' it. builtin ord s f (MData msg) h = Some (OK (h', it)))")
    case True': True
    then obtain h' it where r: "builtin ord s f (MData msg) h = Some (OK (h', it))" by blast
    with True True' assms show ?thesis
      by (intro that(3) [of h' it]) (simp_all add: HandleMessage_def Let_def)
  next
    case False
    with True assms show ?thesis
      by (intro that(1)) (auto simp: HandleMessage_def Let_def split: option.split res.split)
  qed
qed

lemma HandleMessage_cases:
  assumes "h_customHandlers h = []"
  obtains d out where "fst (HandleMessage ord ok msg h) = h\<lparr>h_denied := d, h_outbox := out\<rparr>"
  | h' it out where "IsAllowed (h_policy h) (Stream (MHeader msg)) (Function (MHeader msg))"
    "builtin ord (Stream (MHeader msg)) (Function (MHeader msg)) (MData msg) h = Some (OK (h', it))"
    "fst (HandleMessage ord ok msg h) = h'\<lparr>h_outbox := out\<rparr>"
proof -
  have reply: "\<exists>out. t = h'\<lparr>h_outbox := out\<rparr>" if "t \<in> {h', fst (sendReply ok msg s f body h')}"
    for t s f body and h' :: Handler
  proof -
    have "h' = h'\<lparr>h_outbox := h_outbox h'\<rparr>" by simp
    with that sendReply_eq [of ok msg s f body h'] show ?thesis by (metis insertE singletonD)
  qed
  from assms show thesis
  proof (cases rule: HandleMessage_shape [of h ord ok msg])
    case 1
    then have "fst (HandleMessage ord ok msg h) = h\<lparr>h_denied := h_denied h, h_outbox := h_outbox h\<rparr>"
      by simp
    then show ?thesis by (rule that(1))
  next
    case (2 h1)
    have "h = h\<lparr>h_denied := h_denied h\<rparr>" by simp
    with 2(1) obtain d where "h1 = h\<lparr>h_denied := d\<rparr>" by metis
    with reply [OF 2(2)] show ?thesis using that(1) by auto
  next
    case (3 h' it)
    with reply [OF 3(3)] show ?thesis using that(2) by blast
  qed
qed

section \<open>Properties\<close>

text \<open>C29. The equipment model stays consistent under every message: whatever arrives, whatever
  policy is set and whether or not replies can be sent, handling a message keeps online
  equipment communicating, keeps every report and event under its own id and all registries
  free of duplicate keys; so does sending alarms and events.\<close>

theorem handler_preserves_inv:
  assumes "handler_inv h"
  shows "handler_inv (fst (HandleMessage ord ok msg h)) \<and>
     handler_inv (fst (SendAlarm ok alid b h)) \<and> handler_inv (fst (SendEvent ok dataID ceid h))"
  using assms HandleMessage_inv SendAlarm_inv SendEvent_inv by blast

lemma new_handler_inv: "handler_inv (NewHandler sid mdln softrev)"
  by (simp add: handler_inv_def NewHandler_def em_inv_ops sm_inv_def NewStateMachine_def IsOnline_def
      NewAlarmManager_def NewVariableStore_def)

theorem handler_preserves_inv_witness:
  "handler_inv (fst (HandleMessage rev True (NewDataMessage 1 1 13 True 1 [])
     (NewHandler 1 ''EQ'' ''1.0'')))"
  using handler_preserves_inv [OF new_handler_inv] by blast

text \<open>Access control: a message the policy denies changes nothing in the equipment; its only
  traces are the audit record and, when a reply is expected, an abort S\<^emph>\<open>n\<close>F0 without a body for
  the transaction of the request.\<close>

theorem policy_denies_all_effects:
  assumes "\<not> IsControlMessage msg"
    and "\<not> IsAllowed (h_policy h) (Stream (MHeader msg)) (Function (MHeader msg))"
  shows "fst (HandleMessage ord ok msg h) =
     h\<lparr>h_denied := h_denied h @
         (if h_auditor h then [(Stream (MHeader msg), Function (MHeader msg))] else []),
       h_outbox := h_outbox h @
         (if WBit (MHeader msg) then [NewDataMessage (SessionID (MHeader msg)) (Stream (MHeader msg)) 0
            False (SystemID (MHeader msg)) []] else [])\<rparr>"
  using assms by (auto simp: HandleMessage_def sendReply_def Let_def)

theorem policy_denies_all_effects_witness:
  "fst (HandleMessage rev True (NewDataMessage 1 2 41 True 7 []) (NewHandler 1 ''EQ'' ''1.0'')) =
     (NewHandler 1 ''EQ'' ''1.0'')\<lparr>h_denied := [], h_outbox := [NewDataMessage 1 2 0 False 7 []]\<rparr>"
  using policy_denies_all_effects [of "NewDataMessage 1 2 41 True 7 []" "NewHandler 1 ''EQ'' ''1.0''"]
  by (simp add: IsControlMessage_def NewHandler_def new_message_defs stype_defs MonitorPolicy_def
      IsAllowed_iff)

text \<open>C3. The default is read-only: under the monitor policy, which a new handler starts with, no
  message changes variables, events, alarms or the control state, and no remote command runs,
  as long as the application registers no handlers of its own; only the establish-communication request moves the communication state.\<close>

theorem monitor_policy_read_only:
  assumes "h_policy h = MonitorPolicy" and "h_customHandlers h = []"
  shows "case fst (HandleMessage ord ok msg h) of h' \<Rightarrow>
     h_vars h' = h_vars h \<and> h_events h' = h_events h \<and> h_alarms h' = h_alarms h \<and>
     h_executed h' = h_executed h \<and> h_policy h' = h_policy h \<and>
     sm_controlState (h_state h') = sm_controlState (h_state h) \<and>
     (h_state h' \<noteq> h_state h \<longrightarrow> (Stream (MHeader msg), Function (MHeader msg)) = (1, 13))"
proof (cases rule: HandleMessage_cases [OF assms(2), of ord ok msg])
  case (2 h' it out)
  let ?s = "Stream (MHeader msg)" and ?f = "Function (MHeader msg)"
  have "(?s, ?f) \<notin> set writeMessages"
    using 2(1) assms(1) by (auto simp: MonitorPolicy_def IsAllowed_iff writeMessages_def)
  moreover from 2(2) have "h' = h \<or> ((?s, ?f) = (1, 13) \<and> h' = fst (handleS1F13 h)) \<or>
      (?s, ?f) \<in> set writeMessages"
    by (cases rule: builtin_cases) (auto simp: writeMessages_def)
  ultimately show ?thesis
    using 2(3)
    by (auto simp: handleS1F13_def Let_def ok_or_def EnableComm_def CommEstablished_def
        split: if_splits res.splits)
qed simp

theorem monitor_policy_read_only_witness:
  "h_executed (fst (HandleMessage rev True (NewDataMessage 1 2 41 True 7 []) (NewHandler 1 ''EQ'' ''1.0''))) = []"
  using monitor_policy_read_only [of "NewHandler 1 ''EQ'' ''1.0''" rev True "NewDataMessage 1 2 41 True 7 []"]
  by (simp add: NewHandler_def)

end
