(* ===== verification/Gem_Wire.thy ===== *)
theory Gem_Wire
  imports Gem_Handler_Props
begin

text \<open>
  The handler on the wire: requests as encoded SECS-II bodies and their effect on the stores,
  replies and reports as the bytes the host decodes.
\<close>

section \<open>Request bodies\<close>

definition u4 :: "uint32 \<Rightarrow> Item" where
  "u4 n = NewU4 [n]"

definition u4_list :: "uint32 list \<Rightarrow> Item" where
  "u4_list ids = NewList (map (\<lambda>i. Some (u4 i)) ids)"

definition pair_item :: "uint32 \<Rightarrow> Item \<Rightarrow> Item" where
  "pair_item i it = NewList [Some (u4 i), Some it]"

lemma NewList_simps [simp]:
  "Len (Some (NewList ps)) = OK (length ps)" "Items (Some (NewList ps)) = OK ps"
  "0 \<le> i \<Longrightarrow> i < int (length ps) \<Longrightarrow> ItemAt (Some (NewList ps)) i = OK (ps ! nat i)"
proof -
  have cast: "as_item_ptr (ptr_val p) = Some p" for p by (cases p) (simp_all add: ptr_val_def)
  have "those (map (as_item_ptr \<circ> ptr_val) ps) = Some ps"
    by (induction ps) (simp_all add: cast)
  then show "Len (Some (NewList ps)) = OK (length ps)" "Items (Some (NewList ps)) = OK ps"
    "0 \<le> i \<Longrightarrow> i < int (length ps) \<Longrightarrow> ItemAt (Some (NewList ps)) i = OK (ps ! nat i)"
    by (simp_all add: NewList_def assert_all_def cast)
qed

lemma u4_simps [simp]:
  "ToUint64s (Some (u4 n)) = OK [ucast n]" "with_id (Some (u4 n)) s k = k n"
  "index_id i (Some (u4 n)) = OK n"
proof -
  show u: "ToUint64s (Some (u4 n)) = OK [ucast n]" by (simp add: u4_def NewU4_def switch_all_def)
  have c: "ucast (ucast n :: uint64) = n"
    by (rule bit_word_eqI) (auto simp: bit_simps dest: bit_imp_le_length)
  show "with_id (Some (u4 n)) s k = k n" "index_id i (Some (u4 n)) = OK n"
    using u c by (simp_all add: with_id_def index_id_def first_id_def)
qed

lemma with_pair_item [simp]: "with_pair (Some (pair_item i it)) s k = k i (Some it)"
  by (simp add: with_pair_def pair_item_def)

lemma collect_map:
  "(\<And>i x. x \<in> set xs \<Longrightarrow> f i (h x) = OK (g x)) \<Longrightarrow> collect f i (map h xs) = OK (map g xs)"
  by (induction xs arbitrary: i) simp_all

lemma id_list_u4 [simp]: "id_list (Some (u4_list ids)) = OK ids"
  using collect_map [of ids "\<lambda>_ c. with_id c 0 OK" "\<lambda>i. Some (u4 i)" "\<lambda>i. i"]
  by (simp add: id_list_def u4_list_def)

section \<open>Typed and normal bodies\<close>

lemma typed_simps [simp]:
  "typed_item (NewList ps) \<longleftrightarrow> (\<forall>p \<in> set ps. \<exists>it. p = Some it \<and> typed_item it)"
  "typed_item (u4 n)" "norm_item (u4 n) = u4 n"
  "norm_item (NewList ps) = NewList (map (map_option norm_item) ps)"
proof -
  have "typed_child (ptr_val p) \<longleftrightarrow> (\<exists>it. p = Some it \<and> typed_item it)"
    "norm_child (ptr_val p) = ptr_val (map_option norm_item p)" for p
    by (cases p; simp add: ptr_val_def)+
  then show "typed_item (NewList ps) \<longleftrightarrow> (\<forall>p \<in> set ps. \<exists>it. p = Some it \<and> typed_item it)"
    "norm_item (NewList ps) = NewList (map (map_option norm_item) ps)"
    by (simp_all add: NewList_def comp_def)
  show "typed_item (u4 n)" "norm_item (u4 n) = u4 n"
    by (simp_all add: u4_def NewU4_def format_defs numeric_formats_def)
qed

lemma Decode_Encode_typed:
  assumes "typed_item it" and "Encode (Some it) = OK data"
  shows "Decode data = OK (norm_item it)" and "data \<noteq> []"
proof -
  have wf: "wf_item it"
    using encode_too_long(1) [OF assms(1), of "[]"] assms(2) by (auto simp: Encode_def)
  with assms(2) have d: "data = item_bytes it" by (simp add: Encode_wf)
  then show "Decode data = OK (norm_item it)" using Decode_item_bytes [OF wf] by simp
  show "data \<noteq> []" unfolding d by (cases it) (simp add: header_bytes_def)
qed

lemma decode_body_encoded:
  assumes "typed_item it" and "norm_item it = it" and "Encode (Some it) = OK data"
  shows "decode_body data = bind_res (map_err EBody (Len (Some it))) (\<lambda>n. OK (Some it, n))"
  using Decode_Encode_typed(1) [OF assms(1,3)] assms(2) by (simp add: decode_body_def)

lemma for_each_fold:
  "(\<And>x s. x \<in> set xs \<Longrightarrow> f x s = OK (g x s)) \<Longrightarrow> for_each f xs s = OK (fold g xs s)"
  by (induction xs arbitrary: s) simp_all

section \<open>Reports and events over the wire\<close>

text \<open>The bodies of S2F33 (define report) and S2F35 (link event report), which have the same shape:
  a data id and a list of pairs of an id and a list of ids.\<close>

definition id_table :: "uint32 \<Rightarrow> (uint32 \<times> uint32 list) list \<Rightarrow> Item" where
  "id_table dataID rows =
     pair_item dataID (NewList (map (\<lambda>(i, ids). Some (pair_item i (u4_list ids))) rows))"

lemma id_table_typed [simp]:
  "typed_item (id_table d rows)" "norm_item (id_table d rows) = id_table d rows"
  by (auto simp: id_table_def pair_item_def u4_list_def comp_def case_prod_unfold)

lemma id_table_parts:
  "Len (Some (id_table d rows)) = OK 2"
  "ItemAt (Some (id_table d rows)) 1 =
     OK (Some (NewList (map (\<lambda>(i, ids). Some (pair_item i (u4_list ids))) rows)))"
  by (simp_all add: id_table_def pair_item_def)

lemma decode_id_table:
  "Encode (Some (id_table d rows)) = OK data \<Longrightarrow> decode_body data = OK (Some (id_table d rows), 2)"
  using decode_body_encoded [of "id_table d rows" data] by (simp add: id_table_parts)

text \<open>What one row does: an empty list of variables deletes the report.\<close>

definition report_row :: "uint32 \<times> uint32 list \<Rightarrow> EventManager \<Rightarrow> EventManager" where
  "report_row row em =
     (case row of (r, vids) \<Rightarrow> if vids = [] then DeleteReport r em else DefineReport r vids em)"

definition link_row :: "uint32 \<times> uint32 list \<Rightarrow> EventManager \<Rightarrow> EventManager" where
  "link_row row em = (case row of (c, rs) \<Rightarrow> ok_or em (LinkEventReport c rs em))"

lemma for_each_map: "for_each f (map g xs) s = for_each (\<lambda>x. f (g x)) xs s"
  by (induction xs arbitrary: s) (auto intro: bind_res_cong)

lemma define_report_row:
  "define_report (Some (pair_item r (u4_list vids))) em = OK (report_row (r, vids) em)"
proof -
  have "Len (Some (u4_list vids)) = OK (length vids)" by (simp add: u4_list_def)
  then show ?thesis by (simp add: define_report_def report_row_def)
qed

text \<open>S2F33 on the wire: an encoded table of report definitions is accepted and has exactly the
  effect of defining its reports (or, for a row without variables, deleting the report) one
  after another; an empty table deletes all reports and links.\<close>

theorem define_report_request:
  assumes "Encode (Some (id_table dataID rows)) = OK data"
  shows "handleS2F33 data h =
     OK (h\<lparr>h_events := if rows = [] then DeleteAllReports (h_events h)
             else fold report_row rows (h_events h)\<rparr>, ack 0)"
proof -
  let ?ps = "map (\<lambda>(i, ids). Some (pair_item i (u4_list ids))) rows"
  have "for_each define_report ?ps em = OK (fold report_row rows em)" for em
    unfolding for_each_map by (rule for_each_fold) (auto simp: define_report_row)
  then show ?thesis
    using decode_id_table [OF assms] by (simp add: handleS2F33_def id_table_parts)
qed

definition demo_table :: Item where
  "demo_table = id_table 0 [(5, [100, 101])]"

lemma demo_table_encodes: "\<exists>data. Encode (Some demo_table) = OK data"
proof -
  have "wf_item demo_table"
    by (simp add: demo_table_def id_table_def pair_item_def u4_list_def u4_def wf_eval)
  then show ?thesis using Encode_wf by blast
qed

theorem define_report_request_witness:
  "\<exists>data. Encode (Some demo_table) = OK data \<and>
     handleS2F33 data (NewHandler 1 ''EQ'' ''1.0'') =
       OK ((NewHandler 1 ''EQ'' ''1.0'')\<lparr>h_events := DefineReport 5 [100, 101] NewEventManager\<rparr>, ack 0)"
proof -
  obtain data where d: "Encode (Some demo_table) = OK data" using demo_table_encodes by blast
  show ?thesis
    using define_report_request [OF d [unfolded demo_table_def], of "NewHandler 1 ''EQ'' ''1.0''"] d
    by (simp add: report_row_def NewHandler_def)
qed

text \<open>S2F35 on the wire: every row of the table is linked on its own; a row whose event or
  reports do not exist is dropped, and the request is acknowledged as accepted all the same.\<close>

theorem link_event_request:
  assumes "Encode (Some (id_table dataID rows)) = OK data"
  shows "handleS2F35 data h = OK (h\<lparr>h_events := fold link_row rows (h_events h)\<rparr>, ack 0)"
proof -
  let ?ps = "map (\<lambda>(i, ids). Some (pair_item i (u4_list ids))) rows"
  have "for_each link_event ?ps em = OK (fold link_row rows em)" for em
    unfolding for_each_map by (rule for_each_fold) (auto simp: link_event_def link_row_def)
  then show ?thesis
    using decode_id_table [OF assms] by (simp add: handleS2F35_def id_table_parts)
qed

theorem link_event_request_witness:
  "\<exists>data. Encode (Some demo_table) = OK data \<and>
     handleS2F35 data (NewHandler 1 ''EQ'' ''1.0'') = OK (NewHandler 1 ''EQ'' ''1.0'', ack 0)"
proof -
  obtain data where d: "Encode (Some demo_table) = OK data" using demo_table_encodes by blast
  have "h\<lparr>h_events := h_events h\<rparr> = h" for h :: Handler by simp
  with link_event_request [OF d [unfolded demo_table_def], of "NewHandler 1 ''EQ'' ''1.0''"] d
  show ?thesis
    by (simp add: link_row_def ok_or_def LinkEventReport_def NewHandler_def NewEventManager_def)
qed

section \<open>Status requests\<close>

lemma u4_list_typed [simp]: "typed_item (u4_list ids)" "norm_item (u4_list ids) = u4_list ids"
  by (auto simp: u4_list_def comp_def)

lemma handleS1F3_request:
  assumes "Encode (Some (u4_list ids)) = OK data"
  shows "handleS1F3 ord data h = OK (NewList (map (\<lambda>i. valueToItem (sv_value h i)) ids))"
proof -
  have "data \<noteq> []" "Decode data = OK (u4_list ids)"
    using Decode_Encode_typed [of "u4_list ids" data] assms by simp_all
  moreover have "Len (Some (u4_list ids)) = OK (length ids)"
    "Items (Some (u4_list ids)) = OK (map (\<lambda>i. Some (u4 i)) ids)"
    by (simp_all add: u4_list_def)
  moreover have "collect (\<lambda>i c. bind_res (index_id i c) (\<lambda>svid. OK (valueToItem (sv_value h svid)))) 0
      (map (\<lambda>i. Some (u4 i)) ids) = OK (map (\<lambda>i. valueToItem (sv_value h i)) ids)"
    by (rule collect_map) simp
  ultimately show ?thesis by (simp add: handleS1F3_def)
qed

text \<open>C34. A status request from end to end: when the policy allows S1F3 and a reply is expected, the
  handler sends S1F4 for the transaction of the request, and decoding its body gives, in the
  order of the request, the current value of every variable (unknown ones as the empty list).\<close>

theorem status_request_answered:
  assumes "Encode (Some (u4_list ids)) = OK data" and "IsAllowed (h_policy h) 1 3"
    and "h_customHandlers h = []"
    and "\<forall>i \<in> set ids. \<exists>it. valueToItem (sv_value h i) = Some it \<and> typed_item it"
    and "Encode (Some (NewList (map (\<lambda>i. valueToItem (sv_value h i)) ids))) = OK reply"
  shows "HandleMessage ord True (NewDataMessage sid 1 3 True sys data) h =
       (h\<lparr>h_outbox := h_outbox h @ [NewDataMessage sid 1 4 False sys reply]\<rparr>, OK ()) \<and>
     Decode reply = OK (NewList (map (\<lambda>i. map_option norm_item (valueToItem (sv_value h i))) ids))"
proof
  have "typed_item (NewList (map (\<lambda>i. valueToItem (sv_value h i)) ids))" using assms(4) by auto
  from Decode_Encode_typed(1) [OF this assms(5)]
  show "Decode reply = OK (NewList (map (\<lambda>i. map_option norm_item (valueToItem (sv_value h i))) ids))"
    by (simp add: comp_def)
  have "builtin ord 1 3 data h = Some (OK (h, NewList (map (\<lambda>i. valueToItem (sv_value h i)) ids)))"
    by (simp add: builtin_def keep_def handleS1F3_request [OF assms(1)])
  then show "HandleMessage ord True (NewDataMessage sid 1 3 True sys data) h =
     (h\<lparr>h_outbox := h_outbox h @ [NewDataMessage sid 1 4 False sys reply]\<rparr>, OK ())"
    using assms(2,3,5)
    by (simp add: HandleMessage_def IsControlMessage_def sendReply_def Let_def new_message_defs)
qed

definition demo_handler :: Handler where
  "demo_handler = (NewHandler 1 ''EQ'' ''1.0'')\<lparr>h_vars := DefineEC ec_pressure
     (DefineSV \<lparr>SVID = 100, sv_Name = ''Temp'', sv_Value = VUint32 7, sv_Units = ''C'', sv_update = None\<rparr>
        NewVariableStore)\<rparr>"

lemma demo_handler_simps:
  "h_policy demo_handler = MonitorPolicy" "h_customHandlers demo_handler = []"
  "sv_value demo_handler 100 = VUint32 7" "h_outbox demo_handler = []"
  by (simp_all add: demo_handler_def NewHandler_def sv_value_def GetSV_def DefineSV_def DefineEC_def
      NewVariableStore_def)

lemma wf_u4 [simp]: "wf_item (u4 n)"
  by (simp add: u4_def wf_eval)

lemma wf_u4_list: "length ids \<le> max_len \<Longrightarrow> wf_item (u4_list ids)"
  by (simp add: u4_list_def NewList_def ptr_val_def)

theorem status_request_answered_witness:
  "\<exists>data reply. HandleMessage rev True (NewDataMessage 1 1 3 True 9 data) demo_handler =
     (demo_handler\<lparr>h_outbox := [NewDataMessage 1 1 4 False 9 reply]\<rparr>, OK ()) \<and>
     Decode reply = OK (NewList [Some (NewU4 [7])])"
proof -
  have "wf_item (u4_list [100])" "wf_item (u4_list [7])" by (simp_all add: wf_u4_list max_len_def)
  then obtain data reply where d: "Encode (Some (u4_list [100])) = OK data"
    and r: "Encode (Some (u4_list [7])) = OK reply" using Encode_wf by blast
  have "u4_list [7] = NewList (map (\<lambda>i. valueToItem (sv_value demo_handler i)) [100])"
    by (simp add: u4_list_def u4_def demo_handler_simps)
  with r have r': "Encode (Some (NewList (map (\<lambda>i. valueToItem (sv_value demo_handler i)) [100]))) =
      OK reply" by simp
  have "IsAllowed (h_policy demo_handler) 1 3"
    by (simp add: demo_handler_simps MonitorPolicy_def IsAllowed_iff)
  from status_request_answered [OF d this demo_handler_simps(2) _ r', of rev 1 9]
  show ?thesis
    using typed_simps(2) [of 7] typed_simps(3) [of 7] by (auto simp: demo_handler_simps u4_def)
qed

section \<open>Writing constants\<close>

text \<open>S2F15 does not change a constant that declares a bound: the value on the wire arrives as
  an item, which is not numeric, so the range check refuses it; the refusal is dropped and the
  host is told that the value was accepted.\<close>

theorem bounded_constant_write_ignored:
  assumes "GetEC ecid (h_vars h) = Some ec" and "MinValue ec \<noteq> VNil \<or> MaxValue ec \<noteq> VNil"
    and "typed_item it" and "Encode (Some (NewList [Some (pair_item ecid it)])) = OK data"
  shows "handleS2F15 data h = OK (h, ack 0)"
proof -
  let ?body = "NewList [Some (pair_item ecid it)]"
  have "typed_item ?body" using assms(3) by (simp add: pair_item_def)
  from Decode_Encode_typed(1) [OF this assms(4)]
  have d: "Decode data = OK (NewList [Some (pair_item ecid (norm_item it))])"
    by (simp add: pair_item_def)
  have "SetEC ecid (ptr_val (Some (norm_item it))) (h_vars h) = Err (ErrNotNumeric (ECID ec))"
    using assms(1,2) by (simp add: SetEC_def GetEC_def checkECRange_def ptr_val_def)
  moreover have "h\<lparr>h_vars := h_vars h\<rparr> = h" by simp
  ultimately show ?thesis using d by (simp add: handleS2F15_def ok_or_def)
qed

theorem bounded_constant_write_ignored_witness:
  "\<exists>data. Encode (Some (NewList [Some (pair_item 10 (u4 50))])) = OK data \<and>
     handleS2F15 data demo_handler = OK (demo_handler, ack 0)"
proof -
  have "wf_item (NewList [Some (pair_item 10 (u4 50))])"
    by (simp add: pair_item_def NewList_def ptr_val_def max_len_def)
  then obtain data where d: "Encode (Some (NewList [Some (pair_item 10 (u4 50))])) = OK data"
    using Encode_wf by blast
  have "GetEC 10 (h_vars demo_handler) = Some ec_pressure"
    by (simp add: demo_handler_def GetEC_def DefineEC_def ec_pressure_def map_of_update)
  from bounded_constant_write_ignored [OF this _ typed_simps(2) d] d show ?thesis
    by (simp add: ec_pressure_def)
qed

section \<open>Requests that crash the handler\<close>

text \<open>A well-formed S1F3 whose list holds an item without values (here an empty list) makes the
  handler index an empty slice, also under the monitor policy.\<close>

theorem status_request_can_panic:
  assumes "IsAllowed (h_policy h) 1 3" and "h_customHandlers h = []"
  shows "HandleMessage ord ok (NewDataMessage sid 1 3 True sys [1, 1, 1, 0]) h = (h, Panic)"
proof -
  have d: "Decode [1, 1, 1, 0] = OK (NewList [Some (NewList [])])"
    by (simp add: decode_eval NewList_def ptr_val_def)
  have "ToUint64s (Some (NewList [])) = OK []" by (simp add: NewList_def switch_all_def)
  with d have "builtin ord 1 3 [1, 1, 1, 0] h = Some Panic"
    by (simp add: builtin_def keep_def handleS1F3_def index_id_def first_id_def)
  then show ?thesis
    using assms by (simp add: HandleMessage_def IsControlMessage_def new_message_defs Let_def)
qed

theorem status_request_can_panic_witness:
  "HandleMessage rev True (NewDataMessage 1 1 3 True 9 [1, 1, 1, 0]) demo_handler = (demo_handler, Panic)"
  using status_request_can_panic [of demo_handler]
  by (simp add: demo_handler_simps MonitorPolicy_def IsAllowed_iff)

section \<open>Alarms and events the equipment reports\<close>


definition armed_handler :: Handler where
  "armed_handler = (NewHandler 1 ''EQ'' ''1.0'')\<lparr>h_alarms := DefineAlarm alarm_leak NewAlarmManager,
     h_interlock := Some NewSafetyInterlock, h_state := sm_online\<rparr>"


text \<open>The alarm code is ambiguous for one severity class: the report of a cleared alarm equals
  the report of the same alarm being set exactly when its severity has the personal-safety bit,
  which is also the bit that means set.\<close>

theorem alarm_code_ambiguous:
  "alarm_report a True = alarm_report a False \<longleftrightarrow> bit (Severity a) 7"
proof -
  have top: "bit (0x80 :: byte) n \<longleftrightarrow> n = 7" for n
    using bit_exp_iff [of 7 n, where 'a = byte] by auto
  have "s OR 0x80 = s \<longleftrightarrow> bit s 7" for s :: byte
  proof
    assume "s OR 0x80 = s"
    moreover have "bit (s OR 0x80) 7" by (simp only: bit_or_iff top) simp
    ultimately show "bit s 7" by (simp only:)
  next
    assume "bit s 7"
    then show "s OR 0x80 = s" by (intro bit_word_eqI) (auto simp only: bit_or_iff top)
  qed
  then show ?thesis
    by (auto simp: alarm_report_def ack_def alcd_def NewList_def NewBinary_def ptr_val_def)
qed

text \<open>Event reports: for a known event whose report can be encoded, nothing is sent while the event
  is disabled, and exactly one S6F11 when it is enabled; the host decodes from it the data id, the
  event id and, report by report in link order, the current values of the report's variables.\<close>

theorem event_report_sent:
  assumes "GetEventReportVIDs ceid (h_events h) = OK rv"
    and "typed_item (event_report dataID ceid rv h)"
    and "Encode (Some (event_report dataID ceid rv h)) = OK data"
  shows "h_outbox (fst (SendEvent ok dataID ceid h)) = h_outbox h @
       (if IsEventEnabled ceid (h_events h)
        then [NewDataMessage (h_sessionID h) 6 11 True 0 data] else []) \<and>
     Decode data = OK (norm_item (event_report dataID ceid rv h))"
proof -
  have "Decode data = OK (norm_item (event_report dataID ceid rv h))"
    using Decode_Encode_typed(1) [OF assms(2,3)] .
  then show ?thesis using assms by (simp add: SendEvent_def send_primary_def Let_def)
qed

definition event_handler :: Handler where
  "event_handler = demo_handler\<lparr>h_events := \<lparr>em_events = [(1, \<lparr>CEID = 1, ce_Name = ''start'',
     ce_Enabled = True, ce_ReportIDs = [5]\<rparr>)], em_reports = [(5, \<lparr>RPTID = 5, VIDs = [100]\<rparr>)]\<rparr>\<rparr>"

theorem event_report_sent_witness:
  "\<exists>data. h_outbox (fst (SendEvent True 3 1 event_handler)) = [NewDataMessage 1 6 11 True 0 data] \<and>
     Decode data = OK (event_report 3 1 [(5, [100])] event_handler)"
proof -
  let ?it = "event_report 3 1 [(5, [100])] event_handler"
  have rv: "GetEventReportVIDs 1 (h_events event_handler) = OK [(5, [100])]"
    by (simp add: event_handler_def GetEventReportVIDs_def map_filter_simps)
  have v: "sv_value event_handler 100 = VUint32 7"
    using demo_handler_simps(3) by (simp add: event_handler_def sv_value_def)
  have it: "?it = NewList [Some (u4 3), Some (u4 1), Some (NewList [Some (NewList [Some (u4 5),
      Some (NewList [Some (u4 7)])])])]"
    by (simp add: event_report_def v u4_def)
  then have "wf_item ?it" by (simp add: NewList_def ptr_val_def max_len_def)
  then obtain data where d: "Encode (Some ?it) = OK data" using Encode_wf by blast
  have "h_outbox event_handler = []" "h_sessionID event_handler = 1"
    "IsEventEnabled 1 (h_events event_handler)"
    by (simp_all add: event_handler_def IsEventEnabled_def demo_handler_def NewHandler_def)
  with event_report_sent [OF rv _ d, of True] it show ?thesis by (intro exI [of _ data]) simp
qed

end
