(* ===== verification/Job_Lifecycle.thy ===== *)
theory Job_Lifecycle
  imports Go_Prelude
begin

text \<open>
  The contract the job and carrier managers share. Each keeps entities with a state, moves them
  with one private \<^verbatim>\<open>transition\<close> function that checks the current state against a list of expected
  ones, and reports every move to an optional observer. A Go time is an integer, the zero time
  \<open>None\<close>.
\<close>

type_synonym gotime = "int option"

locale lifecycle =
  fixes state_of :: "'m \<Rightarrow> string \<Rightarrow> 'st option"
    and moves :: "'m \<Rightarrow> (string \<times> 'st \<times> 'st) list"
    and observed :: "'m \<Rightarrow> bool"
    and trans :: "int \<Rightarrow> string \<Rightarrow> 'st list \<Rightarrow> 'st \<Rightarrow> 'm \<Rightarrow> ('e, 'm) res"
  assumes trans_expected: "state_of m j = Some s \<Longrightarrow> s \<in> set expected \<Longrightarrow>
      \<exists>m'. trans now j expected new m = OK m' \<and> state_of m' = (state_of m)(j \<mapsto> new) \<and>
        moves m' = moves m @ (if observed m then [(j, s, new)] else []) \<and> observed m' = observed m"
    and trans_unexpected: "state_of m j = Some s \<Longrightarrow> s \<notin> set expected \<Longrightarrow>
      \<exists>e. trans now j expected new m = Err e"
    and trans_unknown: "state_of m j = None \<Longrightarrow> \<exists>e. trans now j expected new m = Err e"
begin

text \<open>A transition that returns no error started in an expected state and moved one entity.\<close>

lemma trans_OK:
  assumes "trans now j expected new m = OK m'"
  obtains s where "state_of m j = Some s" "s \<in> set expected" "state_of m' = (state_of m)(j \<mapsto> new)"
    "moves m' = moves m @ (if observed m then [(j, s, new)] else [])" "observed m' = observed m"
proof (cases "state_of m j")
  case None
  with trans_unknown [OF None, of now expected new] assms show thesis by auto
next
  case (Some s)
  show thesis
  proof (cases "s \<in> set expected")
    case True
    with trans_expected [OF Some True, of now new] assms Some show thesis by (auto intro: that)
  next
    case False
    with trans_unexpected [OF Some False, of now new] assms show thesis by auto
  qed
qed

lemma trans_succeeds_iff:
  "(\<exists>m'. trans now j expected new m = OK m') \<longleftrightarrow> (\<exists>s \<in> set expected. state_of m j = Some s)"
  using trans_OK trans_expected by metis

lemma trans_others:
  assumes "trans now j expected new m = OK m'" and "k \<noteq> j"
  shows "state_of m' k = state_of m k"
  using trans_OK [OF assms(1)] assms(2) by (metis fun_upd_other)

text \<open>When every move of a table of transitions is an edge of a graph, the recorded moves stay
  in the graph.\<close>

lemma trans_moves_in:
  assumes "trans now j expected new m = OK m'" and "\<And>s. s \<in> set expected \<Longrightarrow> (s, new) \<in> edges"
    and "\<forall>(k, s, t) \<in> set (moves m). (s, t) \<in> edges"
  shows "\<forall>(k, s, t) \<in> set (moves m'). (s, t) \<in> edges"
  by (rule trans_OK [OF assms(1)]) (use assms(2,3) in \<open>auto split: if_splits\<close>)

text \<open>A state that no transition expects is final.\<close>

lemma trans_final:
  assumes "state_of m k = Some t" and "t \<notin> set expected" and "trans now j expected new m = OK m'"
  shows "state_of m' k = Some t"
  using trans_OK [OF assms(3)] assms(1,2) trans_others [OF assms(3)] by (metis option.inject)

end

section \<open>Managers that create, move and remove\<close>

text \<open>
  A table of transitions lists, for each operation, the expected states and the new one. The
  observer of one entity sees a linked history: each move starts where the last one ended, unless
  the last one ended in a removable state and the entity was removed and created again.
\<close>

definition table_edges :: "('st list \<times> 'st) list \<Rightarrow> ('st \<times> 'st) set" where
  "table_edges table = (\<Union>(expected, new) \<in> set table. (\<lambda>s. (s, new)) ` set expected)"

definition moves_of :: "string \<Rightarrow> (string \<times> 'st \<times> 'st) list \<Rightarrow> ('st \<times> 'st) list" where
  "moves_of j ms = map snd (filter (\<lambda>m. fst m = j) ms)"

fun linked :: "'st \<Rightarrow> ('st \<Rightarrow> bool) \<Rightarrow> ('st \<times> 'st) list \<Rightarrow> bool" where
  "linked i r ((s, t) # (s', t') # ms) \<longleftrightarrow> (s' = t \<or> r t \<and> s' = i) \<and> linked i r ((s', t') # ms)"
| "linked i r _ \<longleftrightarrow> True"

lemma linked_snoc:
  "linked i r (ms @ [(s, t)]) \<longleftrightarrow>
     linked i r ms \<and> (ms = [] \<or> s = snd (last ms) \<or> r (snd (last ms)) \<and> s = i)"
  by (induction i r ms rule: linked.induct) auto

lemma moves_of_Nil [simp]: "moves_of j [] = []"
  by (simp add: moves_of_def)

lemma moves_of_snoc [simp]:
  "moves_of j (ms @ [(k, s, t)]) = moves_of j ms @ (if k = j then [(s, t)] else [])"
  by (simp add: moves_of_def)

lemma table_edgesI: "(expected, new) \<in> set table \<Longrightarrow> s \<in> set expected \<Longrightarrow> (s, new) \<in> table_edges table"
  by (force simp: table_edges_def)

locale job_manager = lifecycle state_of moves observed trans
  for state_of :: "'m \<Rightarrow> string \<Rightarrow> 'st option"
    and moves :: "'m \<Rightarrow> (string \<times> 'st \<times> 'st) list"
    and observed :: "'m \<Rightarrow> bool"
    and trans :: "int \<Rightarrow> string \<Rightarrow> 'st list \<Rightarrow> 'st \<Rightarrow> 'm \<Rightarrow> ('e, 'm) res" +
  fixes fresh :: 'm
    and step :: "'m \<Rightarrow> 'm \<Rightarrow> bool"
    and table :: "('st list \<times> 'st) list"
    and initial :: 'st
    and removable :: "'st \<Rightarrow> bool"
  assumes fresh_empty: "state_of fresh j = None"
    and fresh_moves: "moves fresh = []"
    and step_law: "step m m' \<Longrightarrow>
      (\<exists>j. state_of m j = None \<and> state_of m' = (state_of m)(j \<mapsto> initial) \<and>
           moves m' = moves m \<and> observed m' = observed m) \<or>
      (\<exists>now j expected new. (expected, new) \<in> set table \<and> trans now j expected new m = OK m') \<or>
      (\<exists>j s. state_of m j = Some s \<and> removable s \<and> state_of m' = (state_of m)(j := None) \<and>
           moves m' = moves m \<and> observed m' = observed m) \<or>
      (state_of m' = state_of m \<and> moves m' = moves m \<and> observed m')"
    and removable_final: "removable s \<Longrightarrow> (expected, new) \<in> set table \<Longrightarrow> s \<notin> set expected"
begin

lemma step_cases [consumes 1, case_names create move remove observe]:
  assumes "step m m'"
  obtains j where "state_of m j = None" "state_of m' = (state_of m)(j \<mapsto> initial)"
      "moves m' = moves m" "observed m' = observed m"
  | j s expected new where "(expected, new) \<in> set table" "s \<in> set expected" "state_of m j = Some s"
      "state_of m' = (state_of m)(j \<mapsto> new)"
      "moves m' = moves m @ (if observed m then [(j, s, new)] else [])" "observed m' = observed m"
  | j s where "state_of m j = Some s" "removable s" "state_of m' = (state_of m)(j := None)"
      "moves m' = moves m" "observed m' = observed m"
  | "state_of m' = state_of m" "moves m' = moves m" "observed m'"
  using step_law [OF assms] by (elim disjE exE conjE) (blast, metis trans_OK, blast, blast)

lemma reachable_moves:
  assumes "step\<^sup>*\<^sup>* fresh m" and "(k, s, t) \<in> set (moves m)"
  shows "(s, t) \<in> table_edges table"
  using assms
proof (induction arbitrary: k s t)
  case base
  then show ?case by (simp add: fresh_moves)
next
  case (step m m')
  from step.hyps(2) show ?case
    by (cases rule: step_cases)
      (use step.IH step.prems in \<open>auto split: if_splits intro: table_edgesI\<close>)
qed

text \<open>The last reported state of an entity is its present one, or it was removable and the
  entity has been removed since.\<close>

lemma reachable_history:
  assumes "step\<^sup>*\<^sup>* fresh m"
  shows "linked initial removable (moves_of j (moves m)) \<and> (observed m \<or> moves m = []) \<and>
    (moves_of j (moves m) = [] \<or> state_of m j = Some (snd (last (moves_of j (moves m)))) \<or>
     removable (snd (last (moves_of j (moves m)))) \<and> state_of m j \<in> {None, Some initial})"
  using assms
proof (induction)
  case base
  then show ?case by (simp add: fresh_moves)
next
  case (step m m')
  from step.hyps(2) show ?case
    by (cases rule: step_cases) (use step.IH in \<open>auto simp: linked_snoc split: if_splits\<close>)
qed

lemma step_final:
  assumes "step m m'" and "state_of m j = Some t" and "removable t"
  shows "state_of m' j = Some t \<or> state_of m' j = None"
  using assms(1)
proof (cases rule: step_cases)
  case (move k s expected new)
  with removable_final [OF assms(3)] assms(2) show ?thesis by auto
qed (use assms(2) in auto)

end

end
