(* ===== verification/E40_ProcessJob.thy ===== *)
theory E40_ProcessJob
  imports Job_Lifecycle
begin

text \<open>
  Process jobs per SEMI E40 (\<^verbatim>\<open>pkg/driver/gem/processjob.go\<close>): the manager, its eight transitions
  through \<^verbatim>\<open>transition\<close>, creation and removal. \<^verbatim>\<open>time.Now()\<close> is an argument. The calls of the
  \<^verbatim>\<open>onChange\<close> callback are recorded in \<open>pm_notified\<close>; the callback runs under the manager's lock, so
  it cannot change the manager. \<^verbatim>\<open>GetJob\<close> and the listings return the jobs' contents; a caller that
  writes through the returned pointers is outside the model. The lemmas show that the manager
  satisfies \<open>lifecycle\<close> and \<open>job_manager\<close>, and what follows for job histories and removal.
\<close>

section \<open>The manager\<close>

datatype ProcessJobState =
    PJQueued | PJSettingUp | PJWaitingForStart | PJProcessing | PJProcessComplete | PJStopping
  | PJStopped | PJAborting | PJAborted

record ProcessJob =
  pj_JobID :: string
  pj_State :: ProcessJobState
  pj_RecipeID :: string
  pj_CarrierID :: string
  pj_Slots :: "int list"
  pj_Priority :: int
  pj_Params :: "(string, string) gomap"
  pj_ControlJob :: string
  pj_CreatedAt :: gotime
  pj_StartedAt :: gotime
  pj_CompletedAt :: gotime

record ProcessJobManager =
  pm_jobs :: "(string, ProcessJob) gomap"
  pm_onChange :: bool
  pm_notified :: "(string \<times> ProcessJobState \<times> ProcessJobState) list"

datatype pj_error =
    PJExists string
  | PJUnknown string
  | PJCannotTransition string ProcessJobState ProcessJobState
  | PJNotTerminal string ProcessJobState

definition NewProcessJobManager :: ProcessJobManager where
  "NewProcessJobManager = \<lparr>pm_jobs = [], pm_onChange = False, pm_notified = []\<rparr>"

definition pj_OnStateChange :: "ProcessJobManager \<Rightarrow> ProcessJobManager" where
  "pj_OnStateChange pm = pm\<lparr>pm_onChange := True\<rparr>"

definition pj_Create ::
  "int \<Rightarrow> string \<Rightarrow> string \<Rightarrow> string \<Rightarrow> int list \<Rightarrow> (string, string) gomap \<Rightarrow> ProcessJobManager \<Rightarrow>
     (pj_error, ProcessJobManager) res" where
  "pj_Create now jobID recipeID carrierID slots params pm =
     (case map_of (pm_jobs pm) jobID of
        Some _ \<Rightarrow> Err (PJExists jobID)
      | None \<Rightarrow> OK (pm\<lparr>pm_jobs := AList.update jobID
          \<lparr>pj_JobID = jobID, pj_State = PJQueued, pj_RecipeID = recipeID, pj_CarrierID = carrierID,
           pj_Slots = slots, pj_Priority = 0, pj_Params = params, pj_ControlJob = [],
           pj_CreatedAt = Some now, pj_StartedAt = None, pj_CompletedAt = None\<rparr> (pm_jobs pm)\<rparr>))"

definition pj_stamp :: "int \<Rightarrow> ProcessJobState \<Rightarrow> ProcessJob \<Rightarrow> ProcessJob" where
  "pj_stamp now newState job =
     (if newState = PJProcessing then job\<lparr>pj_StartedAt := Some now\<rparr>
      else if newState \<in> {PJProcessComplete, PJStopped, PJAborted} then job\<lparr>pj_CompletedAt := Some now\<rparr>
      else job)"

definition pj_transition ::
  "int \<Rightarrow> string \<Rightarrow> ProcessJobState list \<Rightarrow> ProcessJobState \<Rightarrow> ProcessJobManager \<Rightarrow>
     (pj_error, ProcessJobManager) res" where
  "pj_transition now jobID expected newState pm =
     (case map_of (pm_jobs pm) jobID of
        None \<Rightarrow> Err (PJUnknown jobID)
      | Some job \<Rightarrow>
          if pj_State job \<notin> set expected
          then Err (PJCannotTransition jobID (pj_State job) newState)
          else
            let oldState = pj_State job;
                job = pj_stamp now newState (job\<lparr>pj_State := newState\<rparr>)
            in OK (pm\<lparr>pm_jobs := AList.update jobID job (pm_jobs pm),
                     pm_notified := pm_notified pm @
                       (if pm_onChange pm then [(jobID, oldState, newState)] else [])\<rparr>))"

definition pj_Setup :: "int \<Rightarrow> string \<Rightarrow> ProcessJobManager \<Rightarrow> (pj_error, ProcessJobManager) res" where
  "pj_Setup now jobID = pj_transition now jobID [PJQueued] PJSettingUp"

definition pj_SetupComplete :: "int \<Rightarrow> string \<Rightarrow> ProcessJobManager \<Rightarrow> (pj_error, ProcessJobManager) res" where
  "pj_SetupComplete now jobID = pj_transition now jobID [PJSettingUp] PJWaitingForStart"

definition pj_Start :: "int \<Rightarrow> string \<Rightarrow> ProcessJobManager \<Rightarrow> (pj_error, ProcessJobManager) res" where
  "pj_Start now jobID = pj_transition now jobID [PJWaitingForStart] PJProcessing"

definition pj_Complete :: "int \<Rightarrow> string \<Rightarrow> ProcessJobManager \<Rightarrow> (pj_error, ProcessJobManager) res" where
  "pj_Complete now jobID = pj_transition now jobID [PJProcessing] PJProcessComplete"

definition pj_Stop :: "int \<Rightarrow> string \<Rightarrow> ProcessJobManager \<Rightarrow> (pj_error, ProcessJobManager) res" where
  "pj_Stop now jobID = pj_transition now jobID [PJProcessing] PJStopping"

definition pj_StopDone :: "int \<Rightarrow> string \<Rightarrow> ProcessJobManager \<Rightarrow> (pj_error, ProcessJobManager) res" where
  "pj_StopDone now jobID = pj_transition now jobID [PJStopping] PJStopped"

definition pj_Abort :: "int \<Rightarrow> string \<Rightarrow> ProcessJobManager \<Rightarrow> (pj_error, ProcessJobManager) res" where
  "pj_Abort now jobID = pj_transition now jobID
     [PJQueued, PJSettingUp, PJWaitingForStart, PJProcessing, PJStopping] PJAborting"

definition pj_AbortDone :: "int \<Rightarrow> string \<Rightarrow> ProcessJobManager \<Rightarrow> (pj_error, ProcessJobManager) res" where
  "pj_AbortDone now jobID = pj_transition now jobID [PJAborting] PJAborted"

lemmas pj_op_defs = pj_Setup_def pj_SetupComplete_def pj_Start_def pj_Complete_def pj_Stop_def
  pj_StopDone_def pj_Abort_def pj_AbortDone_def

definition pj_terminal :: "ProcessJobState \<Rightarrow> bool" where
  "pj_terminal s \<longleftrightarrow> \<not> (s \<noteq> PJProcessComplete \<and> s \<noteq> PJStopped \<and> s \<noteq> PJAborted)"

definition pj_Remove :: "string \<Rightarrow> ProcessJobManager \<Rightarrow> (pj_error, ProcessJobManager) res" where
  "pj_Remove jobID pm =
     (case map_of (pm_jobs pm) jobID of
        None \<Rightarrow> Err (PJUnknown jobID)
      | Some job \<Rightarrow>
          if \<not> pj_terminal (pj_State job) then Err (PJNotTerminal jobID (pj_State job))
          else OK (pm\<lparr>pm_jobs := AList.delete jobID (pm_jobs pm)\<rparr>))"

definition pj_GetJob :: "string \<Rightarrow> ProcessJobManager \<Rightarrow> ProcessJob option" where
  "pj_GetJob jobID pm = map_of (pm_jobs pm) jobID"

definition pj_ListJobs :: "(string list \<Rightarrow> string list) \<Rightarrow> ProcessJobManager \<Rightarrow> ProcessJob list" where
  "pj_ListJobs ord pm = List.map_filter (map_of (pm_jobs pm)) (ord (map fst (pm_jobs pm)))"

definition pj_ListActiveJobs :: "(string list \<Rightarrow> string list) \<Rightarrow> ProcessJobManager \<Rightarrow> ProcessJob list" where
  "pj_ListActiveJobs ord pm = filter (\<lambda>j. \<not> pj_terminal (pj_State j)) (pj_ListJobs ord pm)"

section \<open>The lifecycle\<close>

definition pj_state_of :: "ProcessJobManager \<Rightarrow> string \<Rightarrow> ProcessJobState option" where
  "pj_state_of pm j = map_option pj_State (map_of (pm_jobs pm) j)"

lemma pj_stamp_state [simp]: "pj_State (pj_stamp now s job) = pj_State job"
  by (simp add: pj_stamp_def)

interpretation pj: lifecycle pj_state_of pm_notified pm_onChange pj_transition
proof unfold_locales
  fix m :: ProcessJobManager and j s expected now new
  show "pj_state_of m j = Some s \<Longrightarrow> s \<in> set expected \<Longrightarrow>
      \<exists>m'. pj_transition now j expected new m = OK m' \<and> pj_state_of m' = (pj_state_of m)(j \<mapsto> new) \<and>
        pm_notified m' = pm_notified m @ (if pm_onChange m then [(j, s, new)] else []) \<and>
        pm_onChange m' = pm_onChange m"
    by (auto simp: pj_state_of_def pj_transition_def Let_def update_conv' fun_eq_iff)
  show "pj_state_of m j = Some s \<Longrightarrow> s \<notin> set expected \<Longrightarrow>
      \<exists>e. pj_transition now j expected new m = Err e"
    by (auto simp: pj_state_of_def pj_transition_def)
  show "pj_state_of m j = None \<Longrightarrow> \<exists>e. pj_transition now j expected new m = Err e"
    by (auto simp: pj_state_of_def pj_transition_def)
qed

text \<open>The table of transitions: expected states and new state of each operation.\<close>

definition pj_table :: "(ProcessJobState list \<times> ProcessJobState) list" where
  "pj_table = [([PJQueued], PJSettingUp), ([PJSettingUp], PJWaitingForStart),
     ([PJWaitingForStart], PJProcessing), ([PJProcessing], PJProcessComplete),
     ([PJProcessing], PJStopping), ([PJStopping], PJStopped),
     ([PJQueued, PJSettingUp, PJWaitingForStart, PJProcessing, PJStopping], PJAborting),
     ([PJAborting], PJAborted)]"

inductive pj_step :: "ProcessJobManager \<Rightarrow> ProcessJobManager \<Rightarrow> bool" where
  pj_step_create: "pj_Create now j r c sl ps pm = OK pm' \<Longrightarrow> pj_step pm pm'"
| pj_step_setup: "pj_Setup now j pm = OK pm' \<Longrightarrow> pj_step pm pm'"
| pj_step_setup_complete: "pj_SetupComplete now j pm = OK pm' \<Longrightarrow> pj_step pm pm'"
| pj_step_start: "pj_Start now j pm = OK pm' \<Longrightarrow> pj_step pm pm'"
| pj_step_complete: "pj_Complete now j pm = OK pm' \<Longrightarrow> pj_step pm pm'"
| pj_step_stop: "pj_Stop now j pm = OK pm' \<Longrightarrow> pj_step pm pm'"
| pj_step_stop_done: "pj_StopDone now j pm = OK pm' \<Longrightarrow> pj_step pm pm'"
| pj_step_abort: "pj_Abort now j pm = OK pm' \<Longrightarrow> pj_step pm pm'"
| pj_step_abort_done: "pj_AbortDone now j pm = OK pm' \<Longrightarrow> pj_step pm pm'"
| pj_step_remove: "pj_Remove j pm = OK pm' \<Longrightarrow> pj_step pm pm'"
| pj_step_observe: "pj_step pm (pj_OnStateChange pm)"

lemmas pj_state_simps = pj_state_of_def update_conv' delete_conv' fun_eq_iff

lemma pj_Create_OK:
  "pj_Create now j r c sl ps pm = OK pm' \<Longrightarrow>
     pj_state_of pm j = None \<and> pj_state_of pm' = (pj_state_of pm)(j \<mapsto> PJQueued) \<and>
     pm_notified pm' = pm_notified pm \<and> pm_onChange pm' = pm_onChange pm"
  by (auto simp: pj_Create_def pj_state_simps split: option.splits)

lemma pj_Remove_OK:
  "pj_Remove j pm = OK pm' \<Longrightarrow>
     (\<exists>s. pj_state_of pm j = Some s \<and> pj_terminal s) \<and> pj_state_of pm' = (pj_state_of pm)(j := None) \<and>
     pm_notified pm' = pm_notified pm \<and> pm_onChange pm' = pm_onChange pm"
  by (auto simp: pj_Remove_def pj_state_simps split: option.splits if_splits)

lemma pj_table_mem:
  "([PJQueued], PJSettingUp) \<in> set pj_table" "([PJSettingUp], PJWaitingForStart) \<in> set pj_table"
  "([PJWaitingForStart], PJProcessing) \<in> set pj_table"
  "([PJProcessing], PJProcessComplete) \<in> set pj_table" "([PJProcessing], PJStopping) \<in> set pj_table"
  "([PJStopping], PJStopped) \<in> set pj_table"
  "([PJQueued, PJSettingUp, PJWaitingForStart, PJProcessing, PJStopping], PJAborting) \<in> set pj_table"
  "([PJAborting], PJAborted) \<in> set pj_table"
  by (simp_all add: pj_table_def)

lemma pj_step_move:
  assumes "pj_step pm pm'"
  shows "(\<exists>now j r c sl ps. pj_Create now j r c sl ps pm = OK pm') \<or>
    (\<exists>now j expected new. (expected, new) \<in> set pj_table \<and> pj_transition now j expected new pm = OK pm') \<or>
    (\<exists>j. pj_Remove j pm = OK pm') \<or> pm' = pj_OnStateChange pm"
  using assms by cases (simp_all only: pj_op_defs, (use pj_table_mem in blast)+)

interpretation pjm: job_manager pj_state_of pm_notified pm_onChange pj_transition
  NewProcessJobManager pj_step pj_table PJQueued pj_terminal
proof unfold_locales
  fix m m' :: ProcessJobManager
  assume "pj_step m m'"
  from pj_step_move [OF this]
  show "(\<exists>j. pj_state_of m j = None \<and> pj_state_of m' = (pj_state_of m)(j \<mapsto> PJQueued) \<and>
        pm_notified m' = pm_notified m \<and> pm_onChange m' = pm_onChange m) \<or>
      (\<exists>now j expected new. (expected, new) \<in> set pj_table \<and>
        pj_transition now j expected new m = OK m') \<or>
      (\<exists>j s. pj_state_of m j = Some s \<and> pj_terminal s \<and> pj_state_of m' = (pj_state_of m)(j := None) \<and>
        pm_notified m' = pm_notified m \<and> pm_onChange m' = pm_onChange m) \<or>
      (pj_state_of m' = pj_state_of m \<and> pm_notified m' = pm_notified m \<and> pm_onChange m')"
    by (elim disjE exE)
      (use pj_Create_OK in blast, blast, use pj_Remove_OK in blast,
       simp add: pj_OnStateChange_def pj_state_of_def fun_eq_iff)
qed (auto simp: NewProcessJobManager_def pj_state_of_def pj_table_def pj_terminal_def)

text \<open>C35. Histories of process jobs. In every state a process job manager reaches from the empty one, the
  moves reported for a job are linked: each starts in the state where the previous one ended, except
  after a terminal state, when the job was removed and created again and starts in Queued; every
  move is one of the table of the operations; and the last reported state is the job's present one,
  unless it was terminal and the job has been removed since.\<close>
theorem pj_history:
  assumes "pj_step\<^sup>*\<^sup>* NewProcessJobManager pm"
  shows "linked PJQueued pj_terminal (moves_of j (pm_notified pm)) \<and>
    set (moves_of j (pm_notified pm)) \<subseteq> table_edges pj_table \<and>
    (moves_of j (pm_notified pm) = [] \<or> pj_state_of pm j = Some (snd (last (moves_of j (pm_notified pm)))) \<or>
     pj_terminal (snd (last (moves_of j (pm_notified pm)))) \<and> pj_state_of pm j \<in> {None, Some PJQueued})"
  using pjm.reachable_history [OF assms, of j] pjm.reachable_moves [OF assms]
  by (auto simp: moves_of_def)

text \<open>Any job can be brought to an end and removed.\<close>

lemma pj_succeeds:
  assumes "pj_state_of pm j = Some s" and "s \<in> set expected"
  obtains pm' where "pj_transition now j expected new pm = OK pm'" "pj_state_of pm' j = Some new"
  using pj.trans_expected [OF assms, of now new] by auto

lemma pj_Remove_succeeds:
  assumes "pj_state_of pm j = Some s" and "pj_terminal s"
  shows "\<exists>pm'. pj_Remove j pm = OK pm' \<and> pj_state_of pm' j = None"
  using assms by (auto simp: pj_Remove_def pj_state_simps)

lemma pj_reaches_terminal:
  assumes "pj_state_of pm j = Some s"
  shows "\<exists>pm' t. pj_step\<^sup>*\<^sup>* pm pm' \<and> pj_state_of pm' j = Some t \<and> pj_terminal t"
proof -
  have aborted: "\<exists>pm' t. pj_step\<^sup>*\<^sup>* m pm' \<and> pj_state_of pm' j = Some t \<and> pj_terminal t"
    if "pj_state_of m j = Some PJAborting" for m
  proof -
    from pj_succeeds [OF that, of "[PJAborting]" 0 PJAborted] obtain m'
      where "pj_AbortDone 0 j m = OK m'" "pj_state_of m' j = Some PJAborted"
      by (auto simp: pj_AbortDone_def)
    moreover have "pj_terminal PJAborted" by (simp add: pj_terminal_def)
    ultimately show ?thesis using pj_step_abort_done by blast
  qed
  consider "pj_terminal s" | "s = PJAborting"
    | "s \<in> set [PJQueued, PJSettingUp, PJWaitingForStart, PJProcessing, PJStopping]"
    by (cases s) (auto simp: pj_terminal_def)
  then show ?thesis
  proof cases
    case 3
    then obtain m where "pj_Abort 0 j pm = OK m" "pj_state_of m j = Some PJAborting"
      using pj_succeeds [OF assms, of _ 0 PJAborting] unfolding pj_Abort_def by metis
    then show ?thesis using aborted [of m] pj_step_abort by (meson converse_rtranclp_into_rtranclp)
  qed (use assms aborted [of pm] in auto)
qed

text \<open>A process job is never stuck and leaves only in a terminal state. Whatever state a job is in, some
  sequence of the manager's operations removes it; and an operation that makes a job disappear found
  it in a terminal state (ProcessComplete, Stopped or Aborted), which no operation but Remove leaves.\<close>
theorem pj_removal:
  assumes "pj_state_of pm j = Some s"
  shows "(\<exists>pm'. pj_step\<^sup>*\<^sup>* pm pm' \<and> pj_state_of pm' j = None) \<and>
    (\<forall>pm'. pj_step pm pm' \<longrightarrow> pj_state_of pm' j = None \<longrightarrow> pj_terminal s) \<and>
    (\<forall>pm'. pj_step pm pm' \<longrightarrow> pj_terminal s \<longrightarrow> pj_state_of pm' j \<in> {Some s, None})"
proof (intro conjI allI impI)
  obtain m t where m: "pj_step\<^sup>*\<^sup>* pm m" "pj_state_of m j = Some t" "pj_terminal t"
    using pj_reaches_terminal [OF assms] by blast
  then obtain pm' where "pj_Remove j m = OK pm'" "pj_state_of pm' j = None"
    using pj_Remove_succeeds by blast
  then show "\<exists>pm'. pj_step\<^sup>*\<^sup>* pm pm' \<and> pj_state_of pm' j = None"
    using m(1) pj_step_remove by (meson rtranclp.rtrancl_into_rtrancl)
next
  fix pm' assume "pj_step pm pm'" and gone: "pj_state_of pm' j = None"
  then show "pj_terminal s"
    by (cases rule: pjm.step_cases) (use assms gone in \<open>auto split: if_splits\<close>)
next
  fix pm' assume "pj_step pm pm'" "pj_terminal s"
  then show "pj_state_of pm' j \<in> {Some s, None}" using pjm.step_final [OF _ assms] by auto
qed

text \<open>A run: a job is created, set up and aborted under an observer.\<close>

definition pj_demo_ops :: "(ProcessJobManager \<Rightarrow> (pj_error, ProcessJobManager) res) list" where
  "pj_demo_ops = [pj_Create 1 ''J1'' ''R'' ''C'' [1, 2] [], pj_Setup 2 ''J1'', pj_Abort 3 ''J1'']"

definition pj_demo :: ProcessJobManager where
  "pj_demo = \<lparr>pm_jobs = [(''J1'', \<lparr>pj_JobID = ''J1'', pj_State = PJAborting, pj_RecipeID = ''R'',
      pj_CarrierID = ''C'', pj_Slots = [1, 2], pj_Priority = 0, pj_Params = [], pj_ControlJob = [],
      pj_CreatedAt = Some 1, pj_StartedAt = None, pj_CompletedAt = None\<rparr>)], pm_onChange = True,
     pm_notified = [(''J1'', PJQueued, PJSettingUp), (''J1'', PJSettingUp, PJAborting)]\<rparr>"

lemma pj_demo_run:
  "foldl bind_res (OK (pj_OnStateChange NewProcessJobManager)) pj_demo_ops = OK pj_demo"
  by (simp add: pj_demo_ops_def pj_demo_def pj_OnStateChange_def NewProcessJobManager_def pj_Create_def
      pj_op_defs pj_transition_def pj_stamp_def)

lemma pj_demo_reachable: "pj_step\<^sup>*\<^sup>* NewProcessJobManager pj_demo"
proof -
  have "\<exists>m1 m2. pj_step NewProcessJobManager (pj_OnStateChange NewProcessJobManager) \<and>
      pj_step (pj_OnStateChange NewProcessJobManager) m1 \<and> pj_step m1 m2 \<and> pj_step m2 pj_demo"
    using pj_demo_run
    by (auto simp: pj_demo_ops_def bind_res_eq_OK intro: pj_step.intros)
  then show ?thesis by (meson converse_rtranclp_into_rtranclp rtranclp.rtrancl_refl)
qed

theorem pj_history_witness:
  "linked PJQueued pj_terminal (moves_of ''J1'' (pm_notified pj_demo)) \<and>
   moves_of ''J1'' (pm_notified pj_demo) = [(PJQueued, PJSettingUp), (PJSettingUp, PJAborting)] \<and>
   pj_state_of pj_demo ''J1'' = Some PJAborting"
  using pj_history [OF pj_demo_reachable, of "''J1''"]
  by (simp add: pj_demo_def moves_of_def pj_terminal_def)

theorem pj_removal_witness:
  "pj_state_of pj_demo ''J1'' = Some PJAborting \<and> (\<exists>pm'. pj_step\<^sup>*\<^sup>* pj_demo pm' \<and> pj_state_of pm' ''J1'' = None)"
proof -
  have s: "pj_state_of pj_demo ''J1'' = Some PJAborting" by (simp add: pj_demo_def pj_state_of_def)
  from pj_removal [OF s] s show ?thesis by blast
qed

end
