(* ===== verification/E94_ControlJob.thy ===== *)
theory E94_ControlJob
  imports Job_Lifecycle
begin

text \<open>
  Control jobs per SEMI E94 (\<^verbatim>\<open>pkg/driver/gem/controljob.go\<close>): the manager, its transitions
  (a paused job can execute again), creation and removal, modelled as for process jobs.
\<close>

section \<open>The manager\<close>

datatype ControlJobState =
    CJQueued | CJSelected | CJWaitingForStart | CJExecuting | CJPausing | CJPaused | CJCompleted
  | CJStopping | CJStopped

record ControlJob =
  cj_JobID :: string
  cj_State :: ControlJobState
  cj_ProcessJobs :: "string list"
  cj_Priority :: int
  cj_CreatedAt :: gotime
  cj_StartedAt :: gotime
  cj_CompletedAt :: gotime

record ControlJobManager =
  cjm_jobs :: "(string, ControlJob) gomap"
  cjm_onChange :: bool
  cjm_notified :: "(string \<times> ControlJobState \<times> ControlJobState) list"

datatype cj_error =
    CJExists string
  | CJUnknown string
  | CJCannotTransition string ControlJobState ControlJobState
  | CJNotTerminal string ControlJobState

definition NewControlJobManager :: ControlJobManager where
  "NewControlJobManager = \<lparr>cjm_jobs = [], cjm_onChange = False, cjm_notified = []\<rparr>"

definition cj_OnStateChange :: "ControlJobManager \<Rightarrow> ControlJobManager" where
  "cj_OnStateChange cjm = cjm\<lparr>cjm_onChange := True\<rparr>"

definition cj_Create ::
  "int \<Rightarrow> string \<Rightarrow> string list \<Rightarrow> int \<Rightarrow> ControlJobManager \<Rightarrow> (cj_error, ControlJobManager) res" where
  "cj_Create now jobID processJobIDs priority cjm =
     (case map_of (cjm_jobs cjm) jobID of
        Some _ \<Rightarrow> Err (CJExists jobID)
      | None \<Rightarrow> OK (cjm\<lparr>cjm_jobs := AList.update jobID
          \<lparr>cj_JobID = jobID, cj_State = CJQueued, cj_ProcessJobs = processJobIDs, cj_Priority = priority,
           cj_CreatedAt = Some now, cj_StartedAt = None, cj_CompletedAt = None\<rparr> (cjm_jobs cjm)\<rparr>))"

definition cj_stamp :: "int \<Rightarrow> ControlJobState \<Rightarrow> ControlJob \<Rightarrow> ControlJob" where
  "cj_stamp now newState job =
     (if newState = CJExecuting then job\<lparr>cj_StartedAt := Some now\<rparr>
      else if newState \<in> {CJCompleted, CJStopped} then job\<lparr>cj_CompletedAt := Some now\<rparr>
      else job)"

definition cj_transition ::
  "int \<Rightarrow> string \<Rightarrow> ControlJobState list \<Rightarrow> ControlJobState \<Rightarrow> ControlJobManager \<Rightarrow>
     (cj_error, ControlJobManager) res" where
  "cj_transition now jobID expected newState cjm =
     (case map_of (cjm_jobs cjm) jobID of
        None \<Rightarrow> Err (CJUnknown jobID)
      | Some job \<Rightarrow>
          if cj_State job \<notin> set expected
          then Err (CJCannotTransition jobID (cj_State job) newState)
          else
            let oldState = cj_State job;
                job = cj_stamp now newState (job\<lparr>cj_State := newState\<rparr>)
            in OK (cjm\<lparr>cjm_jobs := AList.update jobID job (cjm_jobs cjm),
                     cjm_notified := cjm_notified cjm @
                       (if cjm_onChange cjm then [(jobID, oldState, newState)] else [])\<rparr>))"

definition cj_Select :: "int \<Rightarrow> string \<Rightarrow> ControlJobManager \<Rightarrow> (cj_error, ControlJobManager) res" where
  "cj_Select now jobID = cj_transition now jobID [CJQueued] CJSelected"

definition cj_WaitForStart :: "int \<Rightarrow> string \<Rightarrow> ControlJobManager \<Rightarrow> (cj_error, ControlJobManager) res" where
  "cj_WaitForStart now jobID = cj_transition now jobID [CJSelected] CJWaitingForStart"

definition cj_Execute :: "int \<Rightarrow> string \<Rightarrow> ControlJobManager \<Rightarrow> (cj_error, ControlJobManager) res" where
  "cj_Execute now jobID = cj_transition now jobID [CJWaitingForStart, CJPaused] CJExecuting"

definition cj_Complete :: "int \<Rightarrow> string \<Rightarrow> ControlJobManager \<Rightarrow> (cj_error, ControlJobManager) res" where
  "cj_Complete now jobID = cj_transition now jobID [CJExecuting] CJCompleted"

definition cj_Pause :: "int \<Rightarrow> string \<Rightarrow> ControlJobManager \<Rightarrow> (cj_error, ControlJobManager) res" where
  "cj_Pause now jobID = cj_transition now jobID [CJExecuting] CJPausing"

definition cj_PauseDone :: "int \<Rightarrow> string \<Rightarrow> ControlJobManager \<Rightarrow> (cj_error, ControlJobManager) res" where
  "cj_PauseDone now jobID = cj_transition now jobID [CJPausing] CJPaused"

definition cj_Stop :: "int \<Rightarrow> string \<Rightarrow> ControlJobManager \<Rightarrow> (cj_error, ControlJobManager) res" where
  "cj_Stop now jobID = cj_transition now jobID
     [CJQueued, CJSelected, CJWaitingForStart, CJExecuting, CJPausing, CJPaused] CJStopping"

definition cj_StopDone :: "int \<Rightarrow> string \<Rightarrow> ControlJobManager \<Rightarrow> (cj_error, ControlJobManager) res" where
  "cj_StopDone now jobID = cj_transition now jobID [CJStopping] CJStopped"

lemmas cj_op_defs = cj_Select_def cj_WaitForStart_def cj_Execute_def cj_Complete_def cj_Pause_def
  cj_PauseDone_def cj_Stop_def cj_StopDone_def

definition cj_terminal :: "ControlJobState \<Rightarrow> bool" where
  "cj_terminal s \<longleftrightarrow> \<not> (s \<noteq> CJCompleted \<and> s \<noteq> CJStopped)"

definition cj_Remove :: "string \<Rightarrow> ControlJobManager \<Rightarrow> (cj_error, ControlJobManager) res" where
  "cj_Remove jobID cjm =
     (case map_of (cjm_jobs cjm) jobID of
        None \<Rightarrow> Err (CJUnknown jobID)
      | Some job \<Rightarrow>
          if \<not> cj_terminal (cj_State job) then Err (CJNotTerminal jobID (cj_State job))
          else OK (cjm\<lparr>cjm_jobs := AList.delete jobID (cjm_jobs cjm)\<rparr>))"

definition cj_GetJob :: "string \<Rightarrow> ControlJobManager \<Rightarrow> ControlJob option" where
  "cj_GetJob jobID cjm = map_of (cjm_jobs cjm) jobID"

definition cj_ListJobs :: "(string list \<Rightarrow> string list) \<Rightarrow> ControlJobManager \<Rightarrow> ControlJob list" where
  "cj_ListJobs ord cjm = List.map_filter (map_of (cjm_jobs cjm)) (ord (map fst (cjm_jobs cjm)))"

section \<open>The lifecycle\<close>

definition cj_state_of :: "ControlJobManager \<Rightarrow> string \<Rightarrow> ControlJobState option" where
  "cj_state_of cjm j = map_option cj_State (map_of (cjm_jobs cjm) j)"

lemma cj_stamp_state [simp]: "cj_State (cj_stamp now s job) = cj_State job"
  by (simp add: cj_stamp_def)

lemmas cj_state_simps = cj_state_of_def update_conv' delete_conv' fun_eq_iff

interpretation cj: lifecycle cj_state_of cjm_notified cjm_onChange cj_transition
proof unfold_locales
  fix m :: ControlJobManager and j s expected now new
  show "cj_state_of m j = Some s \<Longrightarrow> s \<in> set expected \<Longrightarrow>
      \<exists>m'. cj_transition now j expected new m = OK m' \<and> cj_state_of m' = (cj_state_of m)(j \<mapsto> new) \<and>
        cjm_notified m' = cjm_notified m @ (if cjm_onChange m then [(j, s, new)] else []) \<and>
        cjm_onChange m' = cjm_onChange m"
    by (auto simp: cj_state_simps cj_transition_def Let_def)
qed (auto simp: cj_state_of_def cj_transition_def)

text \<open>The table of transitions: expected states and new state of each operation.\<close>

definition cj_table :: "(ControlJobState list \<times> ControlJobState) list" where
  "cj_table = [([CJQueued], CJSelected), ([CJSelected], CJWaitingForStart),
     ([CJWaitingForStart, CJPaused], CJExecuting), ([CJExecuting], CJCompleted),
     ([CJExecuting], CJPausing), ([CJPausing], CJPaused),
     ([CJQueued, CJSelected, CJWaitingForStart, CJExecuting, CJPausing, CJPaused], CJStopping),
     ([CJStopping], CJStopped)]"

inductive cj_step :: "ControlJobManager \<Rightarrow> ControlJobManager \<Rightarrow> bool" where
  cj_step_create: "cj_Create now j pjs pr m = OK m' \<Longrightarrow> cj_step m m'"
| cj_step_select: "cj_Select now j m = OK m' \<Longrightarrow> cj_step m m'"
| cj_step_wait: "cj_WaitForStart now j m = OK m' \<Longrightarrow> cj_step m m'"
| cj_step_execute: "cj_Execute now j m = OK m' \<Longrightarrow> cj_step m m'"
| cj_step_complete: "cj_Complete now j m = OK m' \<Longrightarrow> cj_step m m'"
| cj_step_pause: "cj_Pause now j m = OK m' \<Longrightarrow> cj_step m m'"
| cj_step_pause_done: "cj_PauseDone now j m = OK m' \<Longrightarrow> cj_step m m'"
| cj_step_stop: "cj_Stop now j m = OK m' \<Longrightarrow> cj_step m m'"
| cj_step_stop_done: "cj_StopDone now j m = OK m' \<Longrightarrow> cj_step m m'"
| cj_step_remove: "cj_Remove j m = OK m' \<Longrightarrow> cj_step m m'"
| cj_step_observe: "cj_step m (cj_OnStateChange m)"

lemma cj_table_mem:
  "([CJQueued], CJSelected) \<in> set cj_table" "([CJSelected], CJWaitingForStart) \<in> set cj_table"
  "([CJWaitingForStart, CJPaused], CJExecuting) \<in> set cj_table" "([CJExecuting], CJCompleted) \<in> set cj_table"
  "([CJExecuting], CJPausing) \<in> set cj_table" "([CJPausing], CJPaused) \<in> set cj_table"
  "([CJQueued, CJSelected, CJWaitingForStart, CJExecuting, CJPausing, CJPaused], CJStopping) \<in> set cj_table"
  "([CJStopping], CJStopped) \<in> set cj_table"
  by (simp_all add: cj_table_def)

lemma cj_Create_OK:
  "cj_Create now j pjs pr m = OK m' \<Longrightarrow>
     cj_state_of m j = None \<and> cj_state_of m' = (cj_state_of m)(j \<mapsto> CJQueued) \<and>
     cjm_notified m' = cjm_notified m \<and> cjm_onChange m' = cjm_onChange m"
  by (auto simp: cj_Create_def cj_state_simps split: option.splits)

lemma cj_Remove_OK:
  "cj_Remove j m = OK m' \<Longrightarrow>
     (\<exists>s. cj_state_of m j = Some s \<and> cj_terminal s) \<and> cj_state_of m' = (cj_state_of m)(j := None) \<and>
     cjm_notified m' = cjm_notified m \<and> cjm_onChange m' = cjm_onChange m"
  by (auto simp: cj_Remove_def cj_state_simps split: option.splits if_splits)

lemma cj_step_move:
  assumes "cj_step m m'"
  shows "(\<exists>now j pjs pr. cj_Create now j pjs pr m = OK m') \<or>
    (\<exists>now j expected new. (expected, new) \<in> set cj_table \<and> cj_transition now j expected new m = OK m') \<or>
    (\<exists>j. cj_Remove j m = OK m') \<or> m' = cj_OnStateChange m"
  using assms by cases (simp_all only: cj_op_defs, (use cj_table_mem in blast)+)

interpretation cjm: job_manager cj_state_of cjm_notified cjm_onChange cj_transition
  NewControlJobManager cj_step cj_table CJQueued cj_terminal
proof unfold_locales
  fix m m' :: ControlJobManager
  assume "cj_step m m'"
  from cj_step_move [OF this]
  show "(\<exists>j. cj_state_of m j = None \<and> cj_state_of m' = (cj_state_of m)(j \<mapsto> CJQueued) \<and>
        cjm_notified m' = cjm_notified m \<and> cjm_onChange m' = cjm_onChange m) \<or>
      (\<exists>now j expected new. (expected, new) \<in> set cj_table \<and>
        cj_transition now j expected new m = OK m') \<or>
      (\<exists>j s. cj_state_of m j = Some s \<and> cj_terminal s \<and> cj_state_of m' = (cj_state_of m)(j := None) \<and>
        cjm_notified m' = cjm_notified m \<and> cjm_onChange m' = cjm_onChange m) \<or>
      (cj_state_of m' = cj_state_of m \<and> cjm_notified m' = cjm_notified m \<and> cjm_onChange m')"
    by (elim disjE exE)
      (use cj_Create_OK in blast, blast, use cj_Remove_OK in blast,
       simp add: cj_OnStateChange_def cj_state_of_def fun_eq_iff)
qed (auto simp: NewControlJobManager_def cj_state_of_def cj_table_def cj_terminal_def)

text \<open>Execution time stamps: a control job that has been executing, or has ended, carries them.\<close>

definition cj_stamped :: "ControlJob \<Rightarrow> bool" where
  "cj_stamped job \<longleftrightarrow>
     (cj_State job \<in> {CJExecuting, CJPausing, CJPaused, CJCompleted} \<longrightarrow> cj_StartedAt job \<noteq> None) \<and>
     (cj_State job \<in> {CJCompleted, CJStopped} \<longleftrightarrow> cj_CompletedAt job \<noteq> None)"

lemma cj_stamped_queued:
  "cj_State job = CJQueued \<Longrightarrow> cj_CompletedAt job = None \<Longrightarrow> cj_stamped job"
  by (simp add: cj_stamped_def)

lemma cj_transition_stamped:
  assumes "cj_transition now j expected new m = OK m'" and "(expected, new) \<in> set cj_table"
    and "\<forall>k job. map_of (cjm_jobs m) k = Some job \<longrightarrow> cj_stamped job"
    and "map_of (cjm_jobs m') k = Some job"
  shows "cj_stamped job"
proof -
  obtain old where old: "map_of (cjm_jobs m) j = Some old" "cj_State old \<in> set expected"
    and m': "cjm_jobs m' = AList.update j (cj_stamp now new (old\<lparr>cj_State := new\<rparr>)) (cjm_jobs m)"
    using assms(1) by (auto simp: cj_transition_def Let_def split: option.splits if_splits)
  have "cj_stamped old" using assms(3) old(1) by blast
  then have "cj_stamped (cj_stamp now new (old\<lparr>cj_State := new\<rparr>))"
    using assms(2) old(2) unfolding cj_table_def
    by (simp only: list.set insert_iff empty_iff prod.inject, elim disjE conjE)
      (simp_all add: cj_stamped_def cj_stamp_def, (elim disjE; simp)+)
  then show ?thesis using assms(3,4) by (auto simp: m' update_conv' split: if_splits)
qed

text \<open>Histories and time stamps of control jobs. In every state a control job manager reaches from the
  empty one, the moves reported for a job are linked and follow the operations' table (only a job
  that ended, was removed and created again starts afresh in Queued); a job that executes, pauses,
  is paused or completed has a start time; and exactly the completed and stopped jobs have a
  completion time.\<close>
theorem cj_history:
  assumes "cj_step\<^sup>*\<^sup>* NewControlJobManager m"
  shows "linked CJQueued cj_terminal (moves_of j (cjm_notified m)) \<and>
    set (moves_of j (cjm_notified m)) \<subseteq> table_edges cj_table \<and>
    (\<forall>job. cj_GetJob k m = Some job \<longrightarrow> cj_stamped job)"
proof -
  have "\<forall>k job. map_of (cjm_jobs m) k = Some job \<longrightarrow> cj_stamped job"
    using assms
  proof (induction)
    case base
    then show ?case by (simp add: NewControlJobManager_def)
  next
    case (step m m')
    from cj_step_move [OF step.hyps(2)] show ?case
    proof (elim disjE exE conjE)
      fix now j pjs pr assume "cj_Create now j pjs pr m = OK m'"
      with step.IH show ?thesis
        by (auto simp: cj_Create_def update_conv' cj_stamped_queued split: option.splits if_splits)
    next
      fix j assume "cj_Remove j m = OK m'"
      with step.IH show ?thesis
        by (auto simp: cj_Remove_def delete_conv' split: option.splits if_splits)
    qed (use step.IH cj_transition_stamped in \<open>blast, simp add: cj_OnStateChange_def\<close>)
  qed
  then show ?thesis
    using cjm.reachable_history [OF assms, of j] cjm.reachable_moves [OF assms]
    by (auto simp: moves_of_def cj_GetJob_def)
qed

definition cj_demo :: ControlJobManager where
  "cj_demo = \<lparr>cjm_jobs = [(''CJ'', \<lparr>cj_JobID = ''CJ'', cj_State = CJExecuting, cj_ProcessJobs = [''J1''],
      cj_Priority = 5, cj_CreatedAt = Some 1, cj_StartedAt = Some 4, cj_CompletedAt = None\<rparr>)],
     cjm_onChange = True,
     cjm_notified = [(''CJ'', CJQueued, CJSelected), (''CJ'', CJSelected, CJWaitingForStart),
       (''CJ'', CJWaitingForStart, CJExecuting)]\<rparr>"

lemma cj_demo_run:
  "foldl bind_res (OK (cj_OnStateChange NewControlJobManager))
     [cj_Create 1 ''CJ'' [''J1''] 5, cj_Select 2 ''CJ'', cj_WaitForStart 3 ''CJ'', cj_Execute 4 ''CJ''] =
   OK cj_demo"
  by (simp add: cj_demo_def cj_OnStateChange_def NewControlJobManager_def cj_Create_def
      cj_op_defs cj_transition_def cj_stamp_def)

lemma cj_demo_reachable: "cj_step\<^sup>*\<^sup>* NewControlJobManager cj_demo"
proof -
  have "\<exists>m1 m2 m3. cj_step NewControlJobManager (cj_OnStateChange NewControlJobManager) \<and>
      cj_step (cj_OnStateChange NewControlJobManager) m1 \<and> cj_step m1 m2 \<and> cj_step m2 m3 \<and> cj_step m3 cj_demo"
    using cj_demo_run by (auto simp: bind_res_eq_OK intro: cj_step.intros)
  then show ?thesis by (meson converse_rtranclp_into_rtranclp rtranclp.rtrancl_refl)
qed

theorem cj_history_witness:
  "linked CJQueued cj_terminal (moves_of ''CJ'' (cjm_notified cj_demo)) \<and>
   length (moves_of ''CJ'' (cjm_notified cj_demo)) = 3 \<and>
   (\<exists>job. cj_GetJob ''CJ'' cj_demo = Some job \<and> cj_State job = CJExecuting \<and> cj_stamped job)"
  using cj_history [OF cj_demo_reachable, of "''CJ''" "''CJ''"]
  by (simp add: cj_demo_def cj_GetJob_def moves_of_def)

end
