(* ===== verification/E87_Carrier.thy ===== *)
theory E87_Carrier
  imports Job_Lifecycle
begin

text \<open>
  Carriers and load ports per SEMI E87 (\<^verbatim>\<open>pkg/driver/gem/carrier.go\<close>): the two Go maps of the
  manager, the port operations, binding and unbinding, the carrier transitions through
  \<^verbatim>\<open>transitionCarrier\<close>, the slot map. \<^verbatim>\<open>ReadyToUnload\<close> takes the lock twice, so its two halves
  are definitions of their own and separate steps of the step relation. A \<^verbatim>\<open>[25]SlotState\<close> array is
  a list of 25 bytes.
\<close>

section \<open>Data\<close>

datatype CarrierState =
    CarrierNotAccessed | CarrierWaitingForHost | CarrierInAccess | CarrierCarrierComplete
  | CarrierStopped | CarrierReadyToUnload

datatype LoadPortState =
    PortOutOfService | PortTransferBlocked | PortReadyToLoad | PortTransferReady | PortReadyToUnload

type_synonym SlotState = byte

definition SlotEmpty :: SlotState where "SlotEmpty = 0"
definition SlotOccupied :: SlotState where "SlotOccupied = 1"
definition SlotDoubleSlotted :: SlotState where "SlotDoubleSlotted = 2"
definition SlotCrossSlotted :: SlotState where "SlotCrossSlotted = 3"
definition SlotUnknown :: SlotState where "SlotUnknown = 4"

record Carrier =
  cr_CarrierID :: string
  cr_State :: CarrierState
  cr_SlotMap :: "SlotState list"
  cr_PortID :: uint32
  cr_LotID :: string
  cr_Usage :: string
  cr_CreatedAt :: gotime
  cr_AccessedAt :: gotime

record LoadPort =
  lp_PortID :: uint32
  lp_State :: LoadPortState
  lp_CarrierID :: string

record CarrierManager =
  cm_carriers :: "(string, Carrier) gomap"
  cm_ports :: "(uint32, LoadPort) gomap"
  cm_onChange :: bool
  cm_notified :: "(string \<times> CarrierState \<times> CarrierState) list"

datatype cm_error =
    UnknownPort uint32
  | PortHasCarrier uint32 string
  | PortNotReady uint32 LoadPortState
  | UnknownCarrier string
  | NotReadyToUnbind string CarrierState
  | CarrierCannotTransition string CarrierState CarrierState

section \<open>Operations\<close>

definition WaferCount :: "Carrier \<Rightarrow> nat" where
  "WaferCount c = length (filter (\<lambda>s. s = SlotOccupied) (cr_SlotMap c))"

definition NewCarrierManager :: CarrierManager where
  "NewCarrierManager = \<lparr>cm_carriers = [], cm_ports = [], cm_onChange = False, cm_notified = []\<rparr>"

definition OnCarrierStateChange :: "CarrierManager \<Rightarrow> CarrierManager" where
  "OnCarrierStateChange cm = cm\<lparr>cm_onChange := True\<rparr>"

definition DefinePort :: "uint32 \<Rightarrow> CarrierManager \<Rightarrow> CarrierManager" where
  "DefinePort portID cm = cm\<lparr>cm_ports := AList.update portID
     \<lparr>lp_PortID = portID, lp_State = PortOutOfService, lp_CarrierID = []\<rparr> (cm_ports cm)\<rparr>"

definition SetPortInService :: "uint32 \<Rightarrow> CarrierManager \<Rightarrow> (cm_error, CarrierManager) res" where
  "SetPortInService portID cm =
     (case map_of (cm_ports cm) portID of
        None \<Rightarrow> Err (UnknownPort portID)
      | Some port \<Rightarrow>
          OK (cm\<lparr>cm_ports := AList.update portID (port\<lparr>lp_State := PortReadyToLoad\<rparr>) (cm_ports cm)\<rparr>))"

definition SetPortOutOfService :: "uint32 \<Rightarrow> CarrierManager \<Rightarrow> (cm_error, CarrierManager) res" where
  "SetPortOutOfService portID cm =
     (case map_of (cm_ports cm) portID of
        None \<Rightarrow> Err (UnknownPort portID)
      | Some port \<Rightarrow>
          if lp_CarrierID port \<noteq> [] then Err (PortHasCarrier portID (lp_CarrierID port))
          else OK (cm\<lparr>cm_ports :=
                 AList.update portID (port\<lparr>lp_State := PortOutOfService\<rparr>) (cm_ports cm)\<rparr>))"

definition BindCarrier ::
  "int \<Rightarrow> string \<Rightarrow> uint32 \<Rightarrow> string \<Rightarrow> string \<Rightarrow> CarrierManager \<Rightarrow> (cm_error, CarrierManager) res" where
  "BindCarrier now carrierID portID lotID usage cm =
     (case map_of (cm_ports cm) portID of
        None \<Rightarrow> Err (UnknownPort portID)
      | Some port \<Rightarrow>
          if lp_State port \<noteq> PortReadyToLoad then Err (PortNotReady portID (lp_State port))
          else if lp_CarrierID port \<noteq> [] then Err (PortHasCarrier portID (lp_CarrierID port))
          else
            let slotMap = replicate 25 SlotUnknown;
                c = \<lparr>cr_CarrierID = carrierID, cr_State = CarrierNotAccessed, cr_SlotMap = slotMap,
                     cr_PortID = portID, cr_LotID = lotID, cr_Usage = usage, cr_CreatedAt = Some now,
                     cr_AccessedAt = None\<rparr>
            in OK (cm\<lparr>cm_carriers := AList.update carrierID c (cm_carriers cm),
                     cm_ports := AList.update portID
                       (port\<lparr>lp_CarrierID := carrierID, lp_State := PortTransferReady\<rparr>) (cm_ports cm)\<rparr>))"

definition UnbindCarrier :: "string \<Rightarrow> CarrierManager \<Rightarrow> (cm_error, CarrierManager) res" where
  "UnbindCarrier carrierID cm =
     (case map_of (cm_carriers cm) carrierID of
        None \<Rightarrow> Err (UnknownCarrier carrierID)
      | Some c \<Rightarrow>
          if cr_State c \<noteq> CarrierReadyToUnload \<and> cr_State c \<noteq> CarrierNotAccessed
          then Err (NotReadyToUnbind carrierID (cr_State c))
          else
            OK (cm\<lparr>cm_ports :=
                    (case map_of (cm_ports cm) (cr_PortID c) of
                       Some port \<Rightarrow> AList.update (cr_PortID c)
                         (port\<lparr>lp_CarrierID := [], lp_State := PortReadyToLoad\<rparr>) (cm_ports cm)
                     | None \<Rightarrow> cm_ports cm),
                  cm_carriers := AList.delete carrierID (cm_carriers cm)\<rparr>))"

definition transitionCarrier ::
  "int \<Rightarrow> string \<Rightarrow> CarrierState list \<Rightarrow> CarrierState \<Rightarrow> CarrierManager \<Rightarrow>
     (cm_error, CarrierManager) res" where
  "transitionCarrier now carrierID expected newState cm =
     (case map_of (cm_carriers cm) carrierID of
        None \<Rightarrow> Err (UnknownCarrier carrierID)
      | Some c \<Rightarrow>
          if cr_State c \<notin> set expected
          then Err (CarrierCannotTransition carrierID (cr_State c) newState)
          else
            let oldState = cr_State c;
                c = c\<lparr>cr_State := newState\<rparr>;
                c = (if newState = CarrierInAccess then c\<lparr>cr_AccessedAt := Some now\<rparr> else c)
            in OK (cm\<lparr>cm_carriers := AList.update carrierID c (cm_carriers cm),
                     cm_notified := cm_notified cm @
                       (if cm_onChange cm then [(carrierID, oldState, newState)] else [])\<rparr>))"

definition StartAccess :: "int \<Rightarrow> string \<Rightarrow> CarrierManager \<Rightarrow> (cm_error, CarrierManager) res" where
  "StartAccess now carrierID = transitionCarrier now carrierID [CarrierWaitingForHost] CarrierInAccess"

definition ProceedWithCarrier :: "int \<Rightarrow> string \<Rightarrow> CarrierManager \<Rightarrow> (cm_error, CarrierManager) res" where
  "ProceedWithCarrier now carrierID =
     transitionCarrier now carrierID [CarrierNotAccessed] CarrierWaitingForHost"

definition CompleteAccess :: "int \<Rightarrow> string \<Rightarrow> CarrierManager \<Rightarrow> (cm_error, CarrierManager) res" where
  "CompleteAccess now carrierID =
     transitionCarrier now carrierID [CarrierInAccess] CarrierCarrierComplete"

definition StopCarrier :: "int \<Rightarrow> string \<Rightarrow> CarrierManager \<Rightarrow> (cm_error, CarrierManager) res" where
  "StopCarrier now carrierID = transitionCarrier now carrierID [CarrierInAccess] CarrierStopped"

definition ResumeCarrier :: "int \<Rightarrow> string \<Rightarrow> CarrierManager \<Rightarrow> (cm_error, CarrierManager) res" where
  "ResumeCarrier now carrierID = transitionCarrier now carrierID [CarrierStopped] CarrierInAccess"

text \<open>The two critical sections of \<^verbatim>\<open>ReadyToUnload\<close>.\<close>

definition unload_carrier :: "int \<Rightarrow> string \<Rightarrow> CarrierManager \<Rightarrow> (cm_error, CarrierManager) res" where
  "unload_carrier now carrierID = transitionCarrier now carrierID
     [CarrierCarrierComplete, CarrierStopped, CarrierNotAccessed] CarrierReadyToUnload"

definition unload_port :: "string \<Rightarrow> CarrierManager \<Rightarrow> CarrierManager" where
  "unload_port carrierID cm =
     (case map_of (cm_carriers cm) carrierID of
        None \<Rightarrow> cm
      | Some c \<Rightarrow>
          (case map_of (cm_ports cm) (cr_PortID c) of
             None \<Rightarrow> cm
           | Some port \<Rightarrow> cm\<lparr>cm_ports :=
               AList.update (cr_PortID c) (port\<lparr>lp_State := PortReadyToUnload\<rparr>) (cm_ports cm)\<rparr>))"

definition ReadyToUnload :: "int \<Rightarrow> string \<Rightarrow> CarrierManager \<Rightarrow> (cm_error, CarrierManager) res" where
  "ReadyToUnload now carrierID cm =
     bind_res (unload_carrier now carrierID cm) (\<lambda>cm. OK (unload_port carrierID cm))"

definition SetSlotMap :: "string \<Rightarrow> SlotState list \<Rightarrow> CarrierManager \<Rightarrow> (cm_error, CarrierManager) res" where
  "SetSlotMap carrierID slots cm =
     (case map_of (cm_carriers cm) carrierID of
        None \<Rightarrow> Err (UnknownCarrier carrierID)
      | Some c \<Rightarrow>
          OK (cm\<lparr>cm_carriers := AList.update carrierID (c\<lparr>cr_SlotMap := slots\<rparr>) (cm_carriers cm)\<rparr>))"

definition GetCarrier :: "string \<Rightarrow> CarrierManager \<Rightarrow> Carrier option" where
  "GetCarrier carrierID cm = map_of (cm_carriers cm) carrierID"

definition GetPort :: "uint32 \<Rightarrow> CarrierManager \<Rightarrow> LoadPort option" where
  "GetPort portID cm = map_of (cm_ports cm) portID"

definition ListCarriers :: "(string list \<Rightarrow> string list) \<Rightarrow> CarrierManager \<Rightarrow> Carrier list" where
  "ListCarriers ord cm = List.map_filter (map_of (cm_carriers cm)) (ord (map fst (cm_carriers cm)))"

definition ListPorts :: "(uint32 list \<Rightarrow> uint32 list) \<Rightarrow> CarrierManager \<Rightarrow> LoadPort list" where
  "ListPorts ord cm = List.map_filter (map_of (cm_ports cm)) (ord (map fst (cm_ports cm)))"

lemmas cm_op_defs = StartAccess_def ProceedWithCarrier_def CompleteAccess_def StopCarrier_def
  ResumeCarrier_def unload_carrier_def

section \<open>The carrier lifecycle\<close>

definition cm_state_of :: "CarrierManager \<Rightarrow> string \<Rightarrow> CarrierState option" where
  "cm_state_of cm c = map_option cr_State (map_of (cm_carriers cm) c)"

interpretation carriers: lifecycle cm_state_of cm_notified cm_onChange transitionCarrier
proof unfold_locales
  fix m :: CarrierManager and j s expected now new
  show "cm_state_of m j = Some s \<Longrightarrow> s \<in> set expected \<Longrightarrow>
      \<exists>m'. transitionCarrier now j expected new m = OK m' \<and> cm_state_of m' = (cm_state_of m)(j \<mapsto> new) \<and>
        cm_notified m' = cm_notified m @ (if cm_onChange m then [(j, s, new)] else []) \<and>
        cm_onChange m' = cm_onChange m"
    by (auto simp: cm_state_of_def transitionCarrier_def Let_def update_conv' fun_eq_iff)
qed (auto simp: cm_state_of_def transitionCarrier_def)

definition cm_table :: "(CarrierState list \<times> CarrierState) list" where
  "cm_table = [([CarrierWaitingForHost], CarrierInAccess), ([CarrierNotAccessed], CarrierWaitingForHost),
     ([CarrierInAccess], CarrierCarrierComplete), ([CarrierInAccess], CarrierStopped),
     ([CarrierStopped], CarrierInAccess),
     ([CarrierCarrierComplete, CarrierStopped, CarrierNotAccessed], CarrierReadyToUnload)]"

lemma cm_table_mem:
  "([CarrierWaitingForHost], CarrierInAccess) \<in> set cm_table"
  "([CarrierNotAccessed], CarrierWaitingForHost) \<in> set cm_table"
  "([CarrierInAccess], CarrierCarrierComplete) \<in> set cm_table"
  "([CarrierInAccess], CarrierStopped) \<in> set cm_table"
  "([CarrierStopped], CarrierInAccess) \<in> set cm_table"
  "([CarrierCarrierComplete, CarrierStopped, CarrierNotAccessed], CarrierReadyToUnload) \<in> set cm_table"
  by (simp_all add: cm_table_def)

text \<open>
  The steps of a manager whose client binds only carriers with a non-empty identifier that are not
  bound yet (\<open>fresh_bind\<close>) and does not redefine a port in use (\<open>fresh_port\<close>); the code checks
  neither. The two halves of \<^verbatim>\<open>ReadyToUnload\<close> are separate steps.
\<close>

definition fresh_bind :: "string \<Rightarrow> CarrierManager \<Rightarrow> bool" where
  "fresh_bind c cm \<longleftrightarrow> c \<noteq> [] \<and> map_of (cm_carriers cm) c = None"

definition fresh_port :: "uint32 \<Rightarrow> CarrierManager \<Rightarrow> bool" where
  "fresh_port p cm \<longleftrightarrow> (case map_of (cm_ports cm) p of None \<Rightarrow> True | Some port \<Rightarrow> lp_CarrierID port = [])"

inductive cm_step :: "CarrierManager \<Rightarrow> CarrierManager \<Rightarrow> bool" where
  cm_step_define: "fresh_port p cm \<Longrightarrow> cm_step cm (DefinePort p cm)"
| cm_step_in_service: "SetPortInService p cm = OK cm' \<Longrightarrow> cm_step cm cm'"
| cm_step_out_of_service: "SetPortOutOfService p cm = OK cm' \<Longrightarrow> cm_step cm cm'"
| cm_step_bind: "fresh_bind c cm \<Longrightarrow> BindCarrier now c p lot u cm = OK cm' \<Longrightarrow> cm_step cm cm'"
| cm_step_unbind: "UnbindCarrier c cm = OK cm' \<Longrightarrow> cm_step cm cm'"
| cm_step_proceed: "ProceedWithCarrier now c cm = OK cm' \<Longrightarrow> cm_step cm cm'"
| cm_step_start: "StartAccess now c cm = OK cm' \<Longrightarrow> cm_step cm cm'"
| cm_step_complete: "CompleteAccess now c cm = OK cm' \<Longrightarrow> cm_step cm cm'"
| cm_step_stop: "StopCarrier now c cm = OK cm' \<Longrightarrow> cm_step cm cm'"
| cm_step_resume: "ResumeCarrier now c cm = OK cm' \<Longrightarrow> cm_step cm cm'"
| cm_step_unload_carrier: "unload_carrier now c cm = OK cm' \<Longrightarrow> cm_step cm cm'"
| cm_step_unload_port: "cm_step cm (unload_port c cm)"
| cm_step_slot_map: "SetSlotMap c slots cm = OK cm' \<Longrightarrow> cm_step cm cm'"
| cm_step_observe: "cm_step cm (OnCarrierStateChange cm)"

section \<open>Occupancy\<close>

text \<open>Every carrier is on the one port that names it, every port that names a carrier has it, and a
  port that is out of service is empty. \<open>occ_carriers\<close> and \<open>occ_ports\<close> are what the invariant
  depends on.\<close>

definition occ_carriers :: "CarrierManager \<Rightarrow> string \<Rightarrow> uint32 option" where
  "occ_carriers cm c = map_option cr_PortID (map_of (cm_carriers cm) c)"

definition occ_ports :: "CarrierManager \<Rightarrow> uint32 \<Rightarrow> (string \<times> bool) option" where
  "occ_ports cm p =
     map_option (\<lambda>port. (lp_CarrierID port, lp_State port = PortOutOfService)) (map_of (cm_ports cm) p)"

definition occupancy :: "(string \<Rightarrow> uint32 option) \<Rightarrow> (uint32 \<Rightarrow> (string \<times> bool) option) \<Rightarrow> bool" where
  "occupancy cs ps \<longleftrightarrow>
     (\<forall>c p. cs c = Some p \<longrightarrow> c \<noteq> [] \<and> ps p = Some (c, False)) \<and>
     (\<forall>p c oos. ps p = Some (c, oos) \<longrightarrow> c \<noteq> [] \<longrightarrow> cs c = Some p)"

definition cm_inv :: "CarrierManager \<Rightarrow> bool" where
  "cm_inv cm \<longleftrightarrow> occupancy (occ_carriers cm) (occ_ports cm)"

lemmas occ_simps = occ_carriers_def occ_ports_def update_conv' delete_conv' fun_eq_iff

lemma transition_occ:
  assumes "transitionCarrier now c expected new cm = OK cm'"
  shows "occ_carriers cm' = occ_carriers cm" and "occ_ports cm' = occ_ports cm"
  using assms by (auto simp: transitionCarrier_def Let_def occ_simps split: option.splits if_splits)

lemma SetSlotMap_occ:
  assumes "SetSlotMap c slots cm = OK cm'"
  shows "occ_carriers cm' = occ_carriers cm" and "occ_ports cm' = occ_ports cm"
  using assms by (auto simp: SetSlotMap_def occ_simps split: option.splits)

lemma DefinePort_occ:
  "occ_carriers (DefinePort p cm) = occ_carriers cm"
  "occ_ports (DefinePort p cm) = (occ_ports cm)(p \<mapsto> ([], True))"
  by (auto simp: DefinePort_def occ_simps)

lemma in_service_occ:
  assumes "SetPortInService p cm = OK cm'"
  obtains c oos where "occ_ports cm p = Some (c, oos)"
    "occ_ports cm' = (occ_ports cm)(p \<mapsto> (c, False))" "occ_carriers cm' = occ_carriers cm"
  using assms by (auto simp: SetPortInService_def occ_simps split: option.splits)

lemma out_of_service_occ:
  assumes "SetPortOutOfService p cm = OK cm'"
  obtains oos where "occ_ports cm p = Some ([], oos)"
    "occ_ports cm' = (occ_ports cm)(p \<mapsto> ([], True))" "occ_carriers cm' = occ_carriers cm"
  using assms by (auto simp: SetPortOutOfService_def occ_simps split: option.splits if_splits)

lemma BindCarrier_occ:
  assumes "BindCarrier now c p lot u cm = OK cm'"
  shows "occ_ports cm p = Some ([], False)"
    and "occ_ports cm' = (occ_ports cm)(p \<mapsto> (c, False))" and "occ_carriers cm' = (occ_carriers cm)(c \<mapsto> p)"
  using assms by (auto simp: BindCarrier_def Let_def occ_simps split: option.splits if_splits)

lemma UnbindCarrier_occ:
  assumes "UnbindCarrier c cm = OK cm'"
  obtains p where "occ_carriers cm c = Some p" "occ_carriers cm' = (occ_carriers cm)(c := None)"
    "occ_ports cm' = (case occ_ports cm p of None \<Rightarrow> occ_ports cm | Some _ \<Rightarrow> (occ_ports cm)(p \<mapsto> ([], False)))"
  using assms
  by (auto simp: UnbindCarrier_def occ_simps split: option.splits if_splits)

lemma unload_port_occ:
  obtains "occ_carriers (unload_port c cm) = occ_carriers cm" "occ_ports (unload_port c cm) = occ_ports cm"
  | p d oos where "occ_ports cm p = Some (d, oos)"
    "occ_carriers (unload_port c cm) = occ_carriers cm"
    "occ_ports (unload_port c cm) = (occ_ports cm)(p \<mapsto> (d, False))"
proof (cases "map_of (cm_carriers cm) c")
  case None
  then show thesis by (intro that(1)) (simp_all add: unload_port_def)
next
  case (Some k)
  show thesis
  proof (cases "map_of (cm_ports cm) (cr_PortID k)")
    case None
    with Some show thesis by (intro that(1)) (simp_all add: unload_port_def)
  next
    case (Some port)
    with \<open>map_of (cm_carriers cm) c = Some k\<close> show thesis
      by (intro that(2) [of "cr_PortID k"]) (auto simp: unload_port_def occ_simps)
  qed
qed

text \<open>The moves of the two maps.\<close>

lemma occupancyI:
  assumes "\<And>c p. cs c = Some p \<Longrightarrow> c \<noteq> []" and "\<And>c p. cs c = Some p \<Longrightarrow> ps p = Some (c, False)"
    and "\<And>p c oos. ps p = Some (c, oos) \<Longrightarrow> c \<noteq> [] \<Longrightarrow> cs c = Some p"
  shows "occupancy cs ps"
  unfolding occupancy_def using assms by blast

lemma occupancyD:
  assumes "occupancy cs ps"
  shows "cs c = Some p \<Longrightarrow> c \<noteq> []" and "cs c = Some p \<Longrightarrow> ps p = Some (c, False)"
    and "ps p = Some (c, oos) \<Longrightarrow> c \<noteq> [] \<Longrightarrow> cs c = Some p"
  using assms unfolding occupancy_def by blast+

lemma occupancy_vacate:
  assumes "occupancy cs ps" and "\<forall>c oos. ps p = Some (c, oos) \<longrightarrow> c = []"
  shows "occupancy cs (ps(p \<mapsto> ([], oos)))"
proof (rule occupancyI)
  fix c q assume "cs c = Some q"
  with occupancyD [OF assms(1)] assms(2) show "c \<noteq> []" "(ps(p \<mapsto> ([], oos))) q = Some (c, False)"
    by (metis, metis fun_upd_other)
qed (use occupancyD(3) [OF assms(1)] in \<open>auto split: if_splits\<close>)

lemma occupancy_serve:
  assumes "occupancy cs ps" and "ps p = Some (c, oos)"
  shows "occupancy cs (ps(p \<mapsto> (c, False)))"
proof (rule occupancyI)
  fix d q assume "cs d = Some q"
  with occupancyD [OF assms(1)] assms(2) show "d \<noteq> []" "(ps(p \<mapsto> (c, False))) q = Some (d, False)"
    by (metis, metis fun_upd_apply option.inject prod.inject)
qed (use occupancyD(3) [OF assms(1)] assms(2) in \<open>auto split: if_splits\<close>)

lemma occupancy_bind:
  assumes "occupancy cs ps" and "ps p = Some ([], False)" and "c \<noteq> []" and "cs c = None"
  shows "occupancy (cs(c \<mapsto> p)) (ps(p \<mapsto> (c, False)))"
proof (rule occupancyI)
  fix d q assume d: "(cs(c \<mapsto> p)) d = Some q"
  show "d \<noteq> []" using d occupancyD(1) [OF assms(1)] assms(3) by (auto split: if_splits)
  show "(ps(p \<mapsto> (c, False))) q = Some (d, False)"
    using d occupancyD(1,2) [OF assms(1)] assms(2) by (fastforce split: if_splits)
next
  fix q d oos assume d: "(ps(p \<mapsto> (c, False))) q = Some (d, oos)" "d \<noteq> []"
  show "(cs(c \<mapsto> p)) d = Some q"
    using d occupancyD(3) [OF assms(1)] assms(4) by (auto split: if_splits)
qed

lemma occupancy_unbind:
  assumes "occupancy cs ps" and "cs c = Some p"
  shows "occupancy (cs(c := None)) (ps(p \<mapsto> ([], False)))"
proof (rule occupancyI)
  fix d q assume d: "(cs(c := None)) d = Some q"
  then have "d \<noteq> c" "cs d = Some q" by (auto split: if_splits)
  then show "d \<noteq> []" "(ps(p \<mapsto> ([], False))) q = Some (d, False)"
    using occupancyD(1,2) [OF assms(1)] assms(2)
    by (blast, metis fun_upd_other option.inject prod.inject)
next
  fix q d oos assume d: "(ps(p \<mapsto> ([], False))) q = Some (d, oos)" "d \<noteq> []"
  then have "q \<noteq> p" "cs d = Some q" using occupancyD(3) [OF assms(1)] by (auto split: if_splits)
  then show "(cs(c := None)) d = Some q" using assms(2) by auto
qed

lemma fresh_port_occ: "fresh_port p cm \<Longrightarrow> \<forall>c oos. occ_ports cm p = Some (c, oos) \<longrightarrow> c = []"
  by (auto simp: fresh_port_def occ_ports_def)

lemma cm_step_inv:
  assumes "cm_step cm cm'" and inv: "cm_inv cm"
  shows "cm_inv cm'"
  using assms(1)
proof cases
  case (cm_step_define p)
  with inv show ?thesis
    by (simp add: cm_inv_def DefinePort_occ occupancy_vacate fresh_port_occ)
next
  case (cm_step_in_service p)
  from this inv show ?thesis
    by (elim in_service_occ) (simp add: cm_inv_def occupancy_serve)
next
  case (cm_step_out_of_service p)
  from this inv show ?thesis
    by (elim out_of_service_occ) (simp add: cm_inv_def occupancy_vacate)
next
  case (cm_step_bind c now p lot u)
  have "occ_carriers cm c = None" "c \<noteq> []"
    using cm_step_bind(1) by (auto simp: fresh_bind_def occ_carriers_def)
  then show ?thesis
    using inv BindCarrier_occ [OF cm_step_bind(2)] by (simp add: cm_inv_def occupancy_bind)
next
  case (cm_step_unbind c)
  then obtain p where p: "occ_carriers cm c = Some p" "occ_carriers cm' = (occ_carriers cm)(c := None)"
    "occ_ports cm' = (case occ_ports cm p of None \<Rightarrow> occ_ports cm | Some _ \<Rightarrow> (occ_ports cm)(p \<mapsto> ([], False)))"
    by (rule UnbindCarrier_occ)
  moreover have "occ_ports cm p = Some (c, False)"
    using occupancyD(2) [OF inv [unfolded cm_inv_def] p(1)] .
  ultimately show ?thesis using inv by (simp add: cm_inv_def occupancy_unbind)
next
  case (cm_step_unload_port c)
  show ?thesis
    by (rule unload_port_occ [of c cm])
      (use inv cm_step_unload_port in \<open>simp_all add: cm_inv_def occupancy_serve\<close>)
next
  case cm_step_observe
  have "occ_carriers cm' = occ_carriers cm" "occ_ports cm' = occ_ports cm"
    by (simp_all add: cm_step_observe OnCarrierStateChange_def occ_simps)
  with inv show ?thesis by (simp add: cm_inv_def)
next
  case (cm_step_slot_map c slots)
  from SetSlotMap_occ [OF this] inv show ?thesis by (simp add: cm_inv_def)
qed (use inv in \<open>simp only: cm_op_defs cm_inv_def transition_occ\<close>)+

lemma cm_reachable_inv: "cm_step\<^sup>*\<^sup>* NewCarrierManager cm \<Longrightarrow> cm_inv cm"
proof (induction rule: rtranclp_induct)
  case base
  then show ?case by (simp add: cm_inv_def occupancy_def occ_carriers_def occ_ports_def NewCarrierManager_def)
qed (rule cm_step_inv)

text \<open>C7. Carriers and ports agree. In every state a carrier manager reaches, with the two halves of
  ReadyToUnload interleaved with other calls in any way, when its client binds only carriers that
  are not bound already and redefines no occupied port: the port of every carrier is in service and
  names that carrier, and every port that names a carrier is the port of that carrier. So no carrier
  is on two ports and no port has two carriers.\<close>
theorem carrier_port_occupancy:
  assumes "cm_step\<^sup>*\<^sup>* NewCarrierManager cm"
  shows "(\<forall>c k. GetCarrier c cm = Some k \<longrightarrow>
      (\<exists>port. GetPort (cr_PortID k) cm = Some port \<and> lp_CarrierID port = c \<and> lp_State port \<noteq> PortOutOfService)) \<and>
    (\<forall>p port. GetPort p cm = Some port \<longrightarrow> lp_CarrierID port \<noteq> [] \<longrightarrow>
      (\<exists>k. GetCarrier (lp_CarrierID port) cm = Some k \<and> cr_PortID k = p))"
proof (intro conjI allI impI)
  note occ = occupancyD [OF cm_reachable_inv [OF assms, unfolded cm_inv_def]]
  show "\<exists>port. GetPort (cr_PortID k) cm = Some port \<and> lp_CarrierID port = c \<and> lp_State port \<noteq> PortOutOfService"
    if "GetCarrier c cm = Some k" for c k
    using occ(2) [of c "cr_PortID k"] that by (auto simp: occ_carriers_def occ_ports_def GetCarrier_def GetPort_def)
  show "\<exists>k. GetCarrier (lp_CarrierID port) cm = Some k \<and> cr_PortID k = p"
    if "GetPort p cm = Some port" "lp_CarrierID port \<noteq> []" for p port
    using occ(3) [of p "lp_CarrierID port"] that
    by (auto simp: occ_carriers_def occ_ports_def GetCarrier_def GetPort_def)
qed

section \<open>Runs\<close>

lemmas cm_run_defs = NewCarrierManager_def OnCarrierStateChange_def DefinePort_def SetPortInService_def
  SetPortOutOfService_def BindCarrier_def UnbindCarrier_def cm_op_defs transitionCarrier_def

definition cm_two_ports :: CarrierManager where
  "cm_two_ports = DefinePort 2 (DefinePort 1 (OnCarrierStateChange NewCarrierManager))"

definition cm_demo :: "(cm_error, CarrierManager) res" where
  "cm_demo = foldl bind_res (OK cm_two_ports)
     [SetPortInService 1, BindCarrier 7 ''FOUP'' 1 ''LOT'' ''PRODUCT'', ProceedWithCarrier 8 ''FOUP'']"

lemma cm_demo_reachable: "\<exists>cm. cm_demo = OK cm \<and> cm_step\<^sup>*\<^sup>* NewCarrierManager cm \<and>
   map_option cr_PortID (GetCarrier ''FOUP'' cm) = Some 1 \<and> cm_state_of cm ''FOUP'' = Some CarrierWaitingForHost"
proof -
  have two: "cm_step\<^sup>*\<^sup>* NewCarrierManager cm_two_ports"
  proof -
    let ?m = "OnCarrierStateChange NewCarrierManager"
    have "cm_step NewCarrierManager ?m" by (rule cm_step_observe)
    moreover have "cm_step ?m (DefinePort 1 ?m)" "cm_step (DefinePort 1 ?m) cm_two_ports"
      unfolding cm_two_ports_def by (rule cm_step_define; simp add: cm_run_defs fresh_port_def)+
    ultimately show ?thesis by (meson converse_rtranclp_into_rtranclp r_into_rtranclp)
  qed
  obtain m1 where m1: "SetPortInService 1 cm_two_ports = OK m1" "map_of (cm_carriers m1) ''FOUP'' = None"
    by (simp add: cm_two_ports_def cm_run_defs)
  obtain m2 where m2: "BindCarrier 7 ''FOUP'' 1 ''LOT'' ''PRODUCT'' m1 = OK m2"
    using m1(1) by (auto simp: cm_two_ports_def cm_run_defs Let_def)
  obtain m3 where m3: "ProceedWithCarrier 8 ''FOUP'' m2 = OK m3"
    "map_option cr_PortID (GetCarrier ''FOUP'' m3) = Some 1" "cm_state_of m3 ''FOUP'' = Some CarrierWaitingForHost"
    using m1(1) m2 by (auto simp: cm_two_ports_def cm_run_defs Let_def GetCarrier_def cm_state_of_def)
  have "cm_step\<^sup>*\<^sup>* cm_two_ports m3"
    using cm_step_in_service [OF m1(1)] cm_step_bind [OF _ m2] cm_step_proceed [OF m3(1)] m1(2)
    by (auto simp: fresh_bind_def intro: rtranclp.rtrancl_into_rtrancl)
  then show ?thesis using two m1(1) m2 m3 by (auto simp: cm_demo_def)
qed

theorem carrier_port_occupancy_witness:
  "\<exists>cm. cm_demo = OK cm \<and> cm_state_of cm ''FOUP'' = Some CarrierWaitingForHost \<and>
     (\<exists>port. GetPort 1 cm = Some port \<and> lp_CarrierID port = ''FOUP'' \<and> lp_State port \<noteq> PortOutOfService)"
proof -
  obtain cm where cm: "cm_demo = OK cm" "cm_step\<^sup>*\<^sup>* NewCarrierManager cm"
    "map_option cr_PortID (GetCarrier ''FOUP'' cm) = Some 1" "cm_state_of cm ''FOUP'' = Some CarrierWaitingForHost"
    using cm_demo_reachable by blast
  with carrier_port_occupancy [OF cm(2)] show ?thesis by fastforce
qed

text \<open>A carrier bound twice strands its first port. BindCarrier does not check whether the carrier is
  bound already: bound on port 1, then on port 2 and unbound, the carrier is unknown to the manager
  while port 1 still names it, refuses every other carrier even after SetPortInService, and cannot
  be taken out of service.\<close>
theorem rebind_strands_port:
  "\<exists>cm. foldl bind_res (OK cm_two_ports)
       [SetPortInService 1, SetPortInService 2, BindCarrier t ''FOUP'' 1 lot u, BindCarrier t' ''FOUP'' 2 lot' u',
        UnbindCarrier ''FOUP'', SetPortInService 1] = OK cm \<and>
     GetCarrier ''FOUP'' cm = None \<and> map_option lp_CarrierID (GetPort 1 cm) = Some ''FOUP'' \<and>
     (\<forall>now d l v. BindCarrier now d 1 l v cm = Err (PortHasCarrier 1 ''FOUP'')) \<and>
     SetPortOutOfService 1 cm = Err (PortHasCarrier 1 ''FOUP'')"
  by (simp add: cm_two_ports_def cm_run_defs GetCarrier_def GetPort_def Let_def)

end
