(* ===== verification/Validator_State.thy ===== *)
theory Validator_State
  imports Gem_State E40_ProcessJob E94_ControlJob E87_Carrier
begin

text \<open>
  The state-transition validator (\<^verbatim>\<open>pkg/validator/state.go\<close>): five tables of valid transitions and
  the validator that records what it is shown and reports what is not in the tables. The five
  \<^verbatim>\<open>Validate...Transition\<close> methods have the same body up to the names; \<open>sv_observe\<close> is that body. The
  lemmas relate the tables to what the state machines of \<^verbatim>\<open>pkg/driver/gem\<close> do. Also here: the
  \<^verbatim>\<open>String\<close> methods of the observed states.
\<close>

section \<open>Names of states\<close>

fun CommState_String :: "CommState \<Rightarrow> string" where
  "CommState_String CommDisabled = ''DISABLED''"
| "CommState_String CommWaitCRA = ''WAIT_CRA''"
| "CommState_String CommWaitDelay = ''WAIT_DELAY''"
| "CommState_String CommCommunicating = ''COMMUNICATING''"

fun ControlState_String :: "ControlState \<Rightarrow> string" where
  "ControlState_String ControlOfflineEquipment = ''OFFLINE/EQUIPMENT''"
| "ControlState_String ControlOfflineHost = ''OFFLINE/HOST''"
| "ControlState_String ControlOnlineLocal = ''ONLINE/LOCAL''"
| "ControlState_String ControlOnlineRemote = ''ONLINE/REMOTE''"

fun CarrierState_String :: "CarrierState \<Rightarrow> string" where
  "CarrierState_String CarrierNotAccessed = ''NOT_ACCESSED''"
| "CarrierState_String CarrierWaitingForHost = ''WAITING_FOR_HOST''"
| "CarrierState_String CarrierInAccess = ''IN_ACCESS''"
| "CarrierState_String CarrierCarrierComplete = ''CARRIER_COMPLETE''"
| "CarrierState_String CarrierStopped = ''STOPPED''"
| "CarrierState_String CarrierReadyToUnload = ''READY_TO_UNLOAD''"

fun ProcessJobState_String :: "ProcessJobState \<Rightarrow> string" where
  "ProcessJobState_String PJQueued = ''QUEUED''"
| "ProcessJobState_String PJSettingUp = ''SETTING_UP''"
| "ProcessJobState_String PJWaitingForStart = ''WAITING_FOR_START''"
| "ProcessJobState_String PJProcessing = ''PROCESSING''"
| "ProcessJobState_String PJProcessComplete = ''PROCESS_COMPLETE''"
| "ProcessJobState_String PJStopping = ''STOPPING''"
| "ProcessJobState_String PJStopped = ''STOPPED''"
| "ProcessJobState_String PJAborting = ''ABORTING''"
| "ProcessJobState_String PJAborted = ''ABORTED''"

fun ControlJobState_String :: "ControlJobState \<Rightarrow> string" where
  "ControlJobState_String CJQueued = ''QUEUED''"
| "ControlJobState_String CJSelected = ''SELECTED''"
| "ControlJobState_String CJWaitingForStart = ''WAITING_FOR_START''"
| "ControlJobState_String CJExecuting = ''EXECUTING''"
| "ControlJobState_String CJPausing = ''PAUSING''"
| "ControlJobState_String CJPaused = ''PAUSED''"
| "ControlJobState_String CJCompleted = ''COMPLETED''"
| "ControlJobState_String CJStopping = ''STOPPING''"
| "ControlJobState_String CJStopped = ''STOPPED''"

section \<open>The validator\<close>

record StateViolation =
  vi_Timestamp :: int
  vi_Machine :: string
  vi_EntityID :: string
  vi_FromState :: string
  vi_ToState :: string
  vi_Message :: string

record StateTransitionRecord =
  tr_Timestamp :: int
  tr_Machine :: string
  tr_EntityID :: string
  tr_FromState :: string
  tr_ToState :: string
  tr_Valid :: bool

record StateValidator =
  sv_transitions :: "StateTransitionRecord list"
  sv_violations :: "StateViolation list"

definition NewStateValidator :: StateValidator where
  "NewStateValidator = \<lparr>sv_transitions = [], sv_violations = []\<rparr>"

definition Transitions :: "StateValidator \<Rightarrow> StateTransitionRecord list" where
  "Transitions sv = sv_transitions sv"

definition Violations :: "StateValidator \<Rightarrow> StateViolation list" where
  "Violations sv = sv_violations sv"

definition Reset :: "StateValidator \<Rightarrow> StateValidator" where
  "Reset sv = sv\<lparr>sv_transitions := [], sv_violations := []\<rparr>"

text \<open>\<open>now\<close> and \<open>now'\<close> are the two readings of the clock.\<close>

definition sv_observe ::
  "int \<Rightarrow> int \<Rightarrow> string \<Rightarrow> string \<Rightarrow> string \<Rightarrow> string \<Rightarrow> bool \<Rightarrow> string \<Rightarrow> StateValidator \<Rightarrow>
     StateViolation option \<times> StateValidator" where
  "sv_observe now now' machine entity from to valid msg sv =
     (let sv = sv\<lparr>sv_transitions := sv_transitions sv @
            [\<lparr>tr_Timestamp = now, tr_Machine = machine, tr_EntityID = entity, tr_FromState = from,
              tr_ToState = to, tr_Valid = valid\<rparr>]\<rparr>
      in if \<not> valid
         then let v = \<lparr>vi_Timestamp = now', vi_Machine = machine, vi_EntityID = entity,
                       vi_FromState = from, vi_ToState = to, vi_Message = msg\<rparr>
              in (Some v, sv\<lparr>sv_violations := sv_violations sv @ [v]\<rparr>)
         else (None, sv))"

definition validCommTransitions :: "(CommState \<times> CommState) list" where
  "validCommTransitions =
    [(CommDisabled, CommWaitCRA), (CommWaitCRA, CommCommunicating), (CommWaitCRA, CommWaitDelay),
     (CommWaitDelay, CommWaitCRA), (CommWaitCRA, CommDisabled), (CommWaitDelay, CommDisabled),
     (CommCommunicating, CommDisabled)]"

definition ValidateCommTransition ::
  "int \<Rightarrow> int \<Rightarrow> CommState \<Rightarrow> CommState \<Rightarrow> StateValidator \<Rightarrow>
     StateViolation option \<times> StateValidator" where
  "ValidateCommTransition now now' from to =
     sv_observe now now' ''CommState'' [] (CommState_String from) (CommState_String to)
       ((from, to) \<in> set validCommTransitions)
       (''E30: invalid comm transition '' @ CommState_String from @ '' -> '' @ CommState_String to)"

definition validControlTransitions :: "(ControlState \<times> ControlState) list" where
  "validControlTransitions =
    [(ControlOfflineEquipment, ControlOfflineHost), (ControlOfflineHost, ControlOnlineLocal),
     (ControlOfflineHost, ControlOnlineRemote), (ControlOnlineLocal, ControlOnlineRemote),
     (ControlOnlineRemote, ControlOnlineLocal), (ControlOnlineLocal, ControlOfflineEquipment),
     (ControlOnlineRemote, ControlOfflineEquipment), (ControlOfflineHost, ControlOfflineEquipment)]"

definition ValidateControlTransition ::
  "int \<Rightarrow> int \<Rightarrow> ControlState \<Rightarrow> ControlState \<Rightarrow> StateValidator \<Rightarrow>
     StateViolation option \<times> StateValidator" where
  "ValidateControlTransition now now' from to =
     sv_observe now now' ''ControlState'' [] (ControlState_String from) (ControlState_String to)
       ((from, to) \<in> set validControlTransitions)
       (''E30: invalid control transition '' @ ControlState_String from @ '' -> '' @ ControlState_String to)"

definition validCarrierTransitions :: "(CarrierState \<times> CarrierState) list" where
  "validCarrierTransitions =
    [(CarrierNotAccessed, CarrierWaitingForHost), (CarrierWaitingForHost, CarrierInAccess),
     (CarrierInAccess, CarrierCarrierComplete), (CarrierInAccess, CarrierStopped),
     (CarrierCarrierComplete, CarrierReadyToUnload), (CarrierStopped, CarrierReadyToUnload),
     (CarrierStopped, CarrierInAccess), (CarrierWaitingForHost, CarrierReadyToUnload),
     (CarrierNotAccessed, CarrierReadyToUnload)]"

definition ValidateCarrierTransition ::
  "int \<Rightarrow> int \<Rightarrow> string \<Rightarrow> CarrierState \<Rightarrow> CarrierState \<Rightarrow> StateValidator \<Rightarrow>
     StateViolation option \<times> StateValidator" where
  "ValidateCarrierTransition now now' carrierID from to =
     sv_observe now now' ''CarrierState'' carrierID (CarrierState_String from) (CarrierState_String to)
       ((from, to) \<in> set validCarrierTransitions)
       (''E87: carrier '' @ carrierID @ '' invalid transition '' @
        CarrierState_String from @ '' -> '' @ CarrierState_String to)"

definition validPJTransitions :: "(ProcessJobState \<times> ProcessJobState) list" where
  "validPJTransitions =
    [(PJQueued, PJSettingUp), (PJSettingUp, PJWaitingForStart), (PJWaitingForStart, PJProcessing),
     (PJProcessing, PJProcessComplete), (PJProcessing, PJStopping), (PJStopping, PJStopped),
     (PJStopped, PJSettingUp), (PJQueued, PJAborting), (PJSettingUp, PJAborting),
     (PJWaitingForStart, PJAborting), (PJProcessing, PJAborting), (PJStopping, PJAborting),
     (PJStopped, PJAborting), (PJAborting, PJAborted)]"

definition ValidatePJTransition ::
  "int \<Rightarrow> int \<Rightarrow> string \<Rightarrow> ProcessJobState \<Rightarrow> ProcessJobState \<Rightarrow> StateValidator \<Rightarrow>
     StateViolation option \<times> StateValidator" where
  "ValidatePJTransition now now' jobID from to =
     sv_observe now now' ''ProcessJobState'' jobID (ProcessJobState_String from) (ProcessJobState_String to)
       ((from, to) \<in> set validPJTransitions)
       (''E40: job '' @ jobID @ '' invalid transition '' @
        ProcessJobState_String from @ '' -> '' @ ProcessJobState_String to)"

definition validCJTransitions :: "(ControlJobState \<times> ControlJobState) list" where
  "validCJTransitions =
    [(CJQueued, CJSelected), (CJSelected, CJWaitingForStart), (CJWaitingForStart, CJExecuting),
     (CJExecuting, CJCompleted), (CJExecuting, CJPausing), (CJPausing, CJPaused),
     (CJPaused, CJExecuting), (CJExecuting, CJStopping), (CJPausing, CJStopping),
     (CJPaused, CJStopping), (CJStopping, CJStopped), (CJQueued, CJStopping), (CJSelected, CJStopping),
     (CJWaitingForStart, CJStopping)]"

definition ValidateCJTransition ::
  "int \<Rightarrow> int \<Rightarrow> string \<Rightarrow> ControlJobState \<Rightarrow> ControlJobState \<Rightarrow> StateValidator \<Rightarrow>
     StateViolation option \<times> StateValidator" where
  "ValidateCJTransition now now' jobID from to =
     sv_observe now now' ''ControlJobState'' jobID (ControlJobState_String from) (ControlJobState_String to)
       ((from, to) \<in> set validCJTransitions)
       (''E94: job '' @ jobID @ '' invalid transition '' @
        ControlJobState_String from @ '' -> '' @ ControlJobState_String to)"

lemmas sv_op_defs = ValidateCommTransition_def ValidateControlTransition_def ValidateCarrierTransition_def
  ValidatePJTransition_def ValidateCJTransition_def

section \<open>What the validator reports\<close>

inductive sv_step :: "StateValidator \<Rightarrow> StateValidator \<Rightarrow> bool" where
  "sv_step sv (snd (ValidateCommTransition now now' cf ct sv))"
| "sv_step sv (snd (ValidateControlTransition now now' lf lt sv))"
| "sv_step sv (snd (ValidateCarrierTransition now now' c rf rt sv))"
| "sv_step sv (snd (ValidatePJTransition now now' j pf pt sv))"
| "sv_step sv (snd (ValidateCJTransition now now' j jf jt sv))"
| "sv_step sv (Reset sv)"

definition sv_key :: "StateTransitionRecord \<Rightarrow> string \<times> string \<times> string \<times> string" where
  "sv_key r = (tr_Machine r, tr_EntityID r, tr_FromState r, tr_ToState r)"

definition vi_key :: "StateViolation \<Rightarrow> string \<times> string \<times> string \<times> string" where
  "vi_key v = (vi_Machine v, vi_EntityID v, vi_FromState v, vi_ToState v)"

definition sv_consistent :: "StateValidator \<Rightarrow> bool" where
  "sv_consistent sv \<longleftrightarrow>
     map vi_key (sv_violations sv) = map sv_key (filter (\<lambda>r. \<not> tr_Valid r) (sv_transitions sv))"

lemma sv_observe_consistent:
  "sv_consistent sv \<Longrightarrow> sv_consistent (snd (sv_observe now now' m e f t v msg sv))"
  by (simp add: sv_consistent_def sv_observe_def Let_def vi_key_def sv_key_def)

lemma fst_sv_observe: "fst (sv_observe now now' m e f t v msg sv) = None \<longleftrightarrow> v"
  by (simp add: sv_observe_def Let_def)

lemma sv_observe_valid [simp]:
  "sv_violations (snd (sv_observe now now' m e f t True msg sv)) = sv_violations sv"
  by (simp add: sv_observe_def)

text \<open>The validator's report. After any sequence of validations and resets from a new validator, the
  violations are exactly the recorded transitions marked invalid, in the order in which they were
  observed: same machine, entity and states.\<close>
theorem validator_report:
  assumes "sv_step\<^sup>*\<^sup>* NewStateValidator sv"
  shows "map vi_key (Violations sv) = map sv_key (filter (\<lambda>r. \<not> tr_Valid r) (Transitions sv))"
proof -
  have "sv_consistent sv"
    using assms
  proof (induction)
    case base
    then show ?case by (simp add: sv_consistent_def NewStateValidator_def)
  next
    case (step sv sv')
    from step.hyps(2) show ?case
      by cases (simp_all add: sv_op_defs sv_observe_consistent step.IH, simp add: sv_consistent_def Reset_def)
  qed
  then show ?thesis by (simp add: sv_consistent_def Violations_def Transitions_def)
qed

definition sv_demo :: StateValidator where
  "sv_demo = snd (ValidatePJTransition 3 4 ''J'' PJQueued PJProcessing
     (snd (ValidateCommTransition 1 2 CommDisabled CommWaitCRA NewStateValidator)))"

theorem validator_report_witness:
  "map vi_key (Violations sv_demo) = [(''ProcessJobState'', ''J'', ''QUEUED'', ''PROCESSING'')] \<and>
   map tr_Valid (Transitions sv_demo) = [True, False]"
proof -
  have r: "sv_step\<^sup>*\<^sup>* NewStateValidator sv_demo"
    unfolding sv_demo_def by (meson sv_step.intros rtranclp.rtrancl_into_rtrancl rtranclp.rtrancl_refl)
  have t: "map (\<lambda>r. (tr_Valid r, sv_key r)) (Transitions sv_demo) =
      [(True, ''CommState'', [], ''DISABLED'', ''WAIT_CRA''),
       (False, ''ProcessJobState'', ''J'', ''QUEUED'', ''PROCESSING'')]"
    by (simp add: sv_demo_def sv_op_defs sv_observe_def Let_def Transitions_def NewStateValidator_def sv_key_def
        validCommTransitions_def validPJTransitions_def)
  from t have "map tr_Valid (Transitions sv_demo) = [True, False]"
    "map sv_key (filter (\<lambda>r. \<not> tr_Valid r) (Transitions sv_demo)) =
       [(''ProcessJobState'', ''J'', ''QUEUED'', ''PROCESSING'')]"
    by (auto simp: map_eq_Cons_conv)
  with validator_report [OF r] show ?thesis by simp
qed

section \<open>The managers conform to the tables\<close>

lemma cm_step_moves:
  assumes "cm_step cm cm'" and "\<forall>(k, s, t) \<in> set (cm_notified cm). (s, t) \<in> table_edges cm_table"
  shows "\<forall>(k, s, t) \<in> set (cm_notified cm'). (s, t) \<in> table_edges cm_table"
proof -
  have "cm_notified cm' = cm_notified cm \<or>
      (\<exists>now j expected new. (expected, new) \<in> set cm_table \<and> transitionCarrier now j expected new cm = OK cm')"
    using assms(1)
  proof cases
    case (cm_step_unload_port c)
    then show ?thesis by (simp add: unload_port_def split: option.splits)
  qed (auto simp: DefinePort_def SetPortInService_def SetPortOutOfService_def BindCarrier_def UnbindCarrier_def
      SetSlotMap_def OnCarrierStateChange_def Let_def cm_op_defs cm_table_def split: option.splits if_splits)
  then show ?thesis
  proof (elim disjE exE conjE)
    fix now j expected new
    assume "(expected, new) \<in> set cm_table" "transitionCarrier now j expected new cm = OK cm'"
    then show ?thesis
      using carriers.trans_moves_in [of now j expected new cm cm', OF _ _ assms(2)] table_edgesI by metis
  qed (simp add: assms(2))
qed

lemma cm_reachable_moves:
  "cm_step\<^sup>*\<^sup>* NewCarrierManager cm \<Longrightarrow> \<forall>(k, s, t) \<in> set (cm_notified cm). (s, t) \<in> table_edges cm_table"
  by (induction rule: rtranclp_induct) (simp add: NewCarrierManager_def, rule cm_step_moves)

lemma manager_tables_valid:
  "table_edges pj_table \<subseteq> set validPJTransitions" "table_edges cj_table \<subseteq> set validCJTransitions"
  "table_edges cm_table \<subseteq> set validCarrierTransitions"
  by (auto simp: table_edges_def pj_table_def validPJTransitions_def cj_table_def validCJTransitions_def
      cm_table_def validCarrierTransitions_def)

text \<open>A validator that is shown a sequence of moves.\<close>

definition shown ::
  "(string \<Rightarrow> 'st \<Rightarrow> 'st \<Rightarrow> StateValidator \<Rightarrow> StateViolation option \<times> StateValidator) \<Rightarrow>
     (string \<times> 'st \<times> 'st) list \<Rightarrow> StateValidator \<Rightarrow> StateValidator" where
  "shown check ms sv = fold (\<lambda>(j, s, t). snd \<circ> check j s t) ms sv"

lemma shown_valid:
  assumes "\<And>j s t sv. (s, t) \<in> edges \<Longrightarrow> sv_violations (snd (check j s t sv)) = sv_violations sv"
    and "\<forall>(k, s, t) \<in> set ms. (s, t) \<in> edges"
  shows "sv_violations (shown check ms sv) = sv_violations sv"
  using assms(2) by (induction ms arbitrary: sv) (auto simp: shown_def assms(1))



text \<open>The GEM state machine against the validator. From every reachable state, a step that changes the
  communication state is one the validator accepts; a step that changes the control state is
  accepted unless it takes the equipment online, and every step from offline to online is reported
  as a violation: the state machine goes online from OFFLINE/EQUIPMENT directly, while the
  validator's table only knows the way through OFFLINE/HOST, which the machine never enters.\<close>
theorem gem_conformance:
  assumes "sm_reachable sm" and "sm_step sm sm'"
  shows "(sm_commState sm' \<noteq> sm_commState sm \<longrightarrow>
      fst (ValidateCommTransition t t' (sm_commState sm) (sm_commState sm') sv) = None) \<and>
    (sm_controlState sm' \<noteq> sm_controlState sm \<longrightarrow>
      (fst (ValidateControlTransition t t' (sm_controlState sm) (sm_controlState sm') sv) \<noteq> None \<longleftrightarrow>
       \<not> IsOnline sm \<and> IsOnline sm'))"
proof -
  have inv: "sm_controlState sm \<noteq> ControlOfflineHost"
    using sm_reachable_inv [OF assms(1)] by (simp add: sm_inv_def)
  show ?thesis
    using assms(2)
    by cases
      (use inv in \<open>cases "sm_commState sm"; cases "sm_controlState sm";
        auto simp: sv_op_defs fst_sv_observe sm_op_defs OnChange_def IsOnline_def
          validCommTransitions_def validControlTransitions_def split: if_splits\<close>)+
qed

theorem gem_conformance_witness:
  "\<exists>sm sm'. sm_reachable sm \<and> GoOnlineRemote sm = OK sm' \<and> \<not> IsOnline sm \<and> IsOnline sm' \<and>
     fst (ValidateControlTransition 0 0 (sm_controlState sm) (sm_controlState sm') NewStateValidator) \<noteq> None"
proof -
  let ?m1 = "NewStateMachine\<lparr>sm_commState := CommWaitCRA\<rparr>"
  let ?m2 = "NewStateMachine\<lparr>sm_commState := CommCommunicating\<rparr>"
  let ?m3 = "?m2\<lparr>sm_controlState := ControlOnlineRemote\<rparr>"
  have steps: "EnableComm NewStateMachine = OK ?m1" "CommEstablished ?m1 = OK ?m2" "GoOnlineRemote ?m2 = OK ?m3"
    by (simp_all add: sm_op_defs notifyChange_def NewStateMachine_def)
  have r: "sm_reachable ?m2"
    using sm_next [OF sm_next [OF sm_init sm_step.intros(1) [OF steps(1)]] sm_step.intros(3) [OF steps(2)]] .
  from gem_conformance [OF r sm_step.intros(7) [OF steps(3)], of 0 0 NewStateValidator] r steps(3)
  show ?thesis by (intro exI [of _ ?m2] exI [of _ ?m3]) (auto simp: IsOnline_def NewStateMachine_def)
qed

end
