(* ===== verification/E90_Substrate.thy ===== *)
theory E90_Substrate
  imports Job_Lifecycle
begin

text \<open>
  Substrate tracking per SEMI E90 (\<^verbatim>\<open>pkg/driver/gem/substrate.go\<close>): the tracker, registration, moves
  with the state that follows from the destination, marking and removal. The calls of \<^verbatim>\<open>onMove\<close> are
  recorded in \<open>st_moved\<close>. The lemmas show that the movement log of every substrate is a path from its
  source slot to its present location, and how the state depends on the destinations.
\<close>

section \<open>The tracker\<close>

type_synonym LocationType = string

definition LocationPort :: LocationType where "LocationPort = ''PORT''"
definition LocationChamber :: LocationType where "LocationChamber = ''CHAMBER''"
definition LocationBuffer :: LocationType where "LocationBuffer = ''BUFFER''"
definition LocationAligner :: LocationType where "LocationAligner = ''ALIGNER''"
definition LocationRobot :: LocationType where "LocationRobot = ''ROBOT''"

lemmas location_defs = LocationPort_def LocationChamber_def LocationBuffer_def LocationAligner_def
  LocationRobot_def

record SubstrateLocation =
  loc_Type :: LocationType
  loc_ID :: string
  loc_Slot :: int

datatype SubstrateState =
    SubstrateAtSource | SubstrateInTransit | SubstrateAtProcess | SubstrateProcessed | SubstrateAtDest
  | SubstrateRejected

record MovementRecord =
  mv_Time :: int
  mv_From :: SubstrateLocation
  mv_To :: SubstrateLocation

record Substrate =
  sub_SubstrateID :: string
  sub_LotID :: string
  sub_CarrierID :: string
  sub_SourceSlot :: int
  sub_Location :: SubstrateLocation
  sub_State :: SubstrateState
  sub_History :: "MovementRecord list"

record SubstrateTracker =
  st_substrates :: "(string, Substrate) gomap"
  st_onMove :: bool
  st_moved :: "(string \<times> SubstrateLocation \<times> SubstrateLocation) list"

datatype st_error = UnknownSubstrate string

definition NewSubstrateTracker :: SubstrateTracker where
  "NewSubstrateTracker = \<lparr>st_substrates = [], st_onMove = False, st_moved = []\<rparr>"

definition OnMove :: "SubstrateTracker \<Rightarrow> SubstrateTracker" where
  "OnMove st = st\<lparr>st_onMove := True\<rparr>"

definition RegisterSubstrate ::
  "string \<Rightarrow> string \<Rightarrow> string \<Rightarrow> int \<Rightarrow> string \<Rightarrow> SubstrateTracker \<Rightarrow> SubstrateTracker" where
  "RegisterSubstrate subID lotID carrierID slot portID st =
     st\<lparr>st_substrates := AList.update subID
       \<lparr>sub_SubstrateID = subID, sub_LotID = lotID, sub_CarrierID = carrierID, sub_SourceSlot = slot,
        sub_Location = \<lparr>loc_Type = LocationPort, loc_ID = portID, loc_Slot = slot\<rparr>,
        sub_State = SubstrateAtSource, sub_History = []\<rparr> (st_substrates st)\<rparr>"

definition moved_state :: "LocationType \<Rightarrow> SubstrateState \<Rightarrow> SubstrateState" where
  "moved_state to s =
     (if to = LocationRobot then SubstrateInTransit
      else if to = LocationChamber \<or> to = LocationAligner then SubstrateAtProcess
      else if to = LocationPort then
        (if s = SubstrateProcessed \<or> s = SubstrateAtProcess then SubstrateAtDest else s)
      else s)"

definition MoveSubstrate ::
  "int \<Rightarrow> string \<Rightarrow> SubstrateLocation \<Rightarrow> SubstrateTracker \<Rightarrow> (st_error, SubstrateTracker) res" where
  "MoveSubstrate now subID to st =
     (case map_of (st_substrates st) subID of
        None \<Rightarrow> Err (UnknownSubstrate subID)
      | Some sub \<Rightarrow>
          let from = sub_Location sub;
              sub = sub\<lparr>sub_Location := to,
                        sub_History := sub_History sub @ [\<lparr>mv_Time = now, mv_From = from, mv_To = to\<rparr>],
                        sub_State := moved_state (loc_Type to) (sub_State sub)\<rparr>
          in OK (st\<lparr>st_substrates := AList.update subID sub (st_substrates st),
                   st_moved := st_moved st @ (if st_onMove st then [(subID, from, to)] else [])\<rparr>))"

definition set_sub_state ::
  "SubstrateState \<Rightarrow> string \<Rightarrow> SubstrateTracker \<Rightarrow> (st_error, SubstrateTracker) res" where
  "set_sub_state s subID st =
     (case map_of (st_substrates st) subID of
        None \<Rightarrow> Err (UnknownSubstrate subID)
      | Some sub \<Rightarrow>
          OK (st\<lparr>st_substrates := AList.update subID (sub\<lparr>sub_State := s\<rparr>) (st_substrates st)\<rparr>))"

definition MarkProcessed :: "string \<Rightarrow> SubstrateTracker \<Rightarrow> (st_error, SubstrateTracker) res" where
  "MarkProcessed = set_sub_state SubstrateProcessed"

definition MarkRejected :: "string \<Rightarrow> SubstrateTracker \<Rightarrow> (st_error, SubstrateTracker) res" where
  "MarkRejected = set_sub_state SubstrateRejected"

definition GetSubstrate :: "string \<Rightarrow> SubstrateTracker \<Rightarrow> Substrate option" where
  "GetSubstrate subID st = map_of (st_substrates st) subID"

text \<open>The listings range over the map in the order \<open>ord\<close>.\<close>

definition ListSubstrates :: "(string list \<Rightarrow> string list) \<Rightarrow> SubstrateTracker \<Rightarrow> Substrate list" where
  "ListSubstrates ord st = List.map_filter (map_of (st_substrates st)) (ord (map fst (st_substrates st)))"

definition GetSubstrateAt ::
  "(string list \<Rightarrow> string list) \<Rightarrow> SubstrateLocation \<Rightarrow> SubstrateTracker \<Rightarrow> Substrate option" where
  "GetSubstrateAt ord loc st = find (\<lambda>s. sub_Location s = loc) (ListSubstrates ord st)"

definition ListByCarrier ::
  "(string list \<Rightarrow> string list) \<Rightarrow> string \<Rightarrow> SubstrateTracker \<Rightarrow> Substrate list" where
  "ListByCarrier ord carrierID st = filter (\<lambda>s. sub_CarrierID s = carrierID) (ListSubstrates ord st)"

definition RemoveSubstrate :: "string \<Rightarrow> SubstrateTracker \<Rightarrow> SubstrateTracker" where
  "RemoveSubstrate subID st = st\<lparr>st_substrates := AList.delete subID (st_substrates st)\<rparr>"

section \<open>The movement log\<close>

text \<open>A log is a path from \<open>src\<close> to \<open>dst\<close>.\<close>

fun path :: "SubstrateLocation \<Rightarrow> MovementRecord list \<Rightarrow> SubstrateLocation \<Rightarrow> bool" where
  "path src [] dst \<longleftrightarrow> src = dst"
| "path src (m # ms) dst \<longleftrightarrow> mv_From m = src \<and> path (mv_To m) ms dst"

lemma path_snoc: "path src (ms @ [m]) dst \<longleftrightarrow> path src ms (mv_From m) \<and> mv_To m = dst"
  by (induction ms arbitrary: src) auto

inductive st_step :: "SubstrateTracker \<Rightarrow> SubstrateTracker \<Rightarrow> bool" where
  st_step_register: "st_step st (RegisterSubstrate s l c slot p st)"
| st_step_move: "MoveSubstrate now s to st = OK st' \<Longrightarrow> st_step st st'"
| st_step_processed: "MarkProcessed s st = OK st' \<Longrightarrow> st_step st st'"
| st_step_rejected: "MarkRejected s st = OK st' \<Longrightarrow> st_step st st'"
| st_step_remove: "st_step st (RemoveSubstrate s st)"
| st_step_observe: "st_step st (OnMove st)"

definition sub_traced :: "Substrate \<Rightarrow> bool" where
  "sub_traced sub \<longleftrightarrow>
     (\<exists>port. path \<lparr>loc_Type = LocationPort, loc_ID = port, loc_Slot = sub_SourceSlot sub\<rparr>
        (sub_History sub) (sub_Location sub)) \<and>
     (sub_State sub = SubstrateInTransit \<longrightarrow>
        (\<exists>m \<in> set (sub_History sub). loc_Type (mv_To m) = LocationRobot)) \<and>
     (sub_State sub = SubstrateAtProcess \<longrightarrow>
        (\<exists>m \<in> set (sub_History sub). loc_Type (mv_To m) \<in> {LocationChamber, LocationAligner}))"

definition st_inv :: "SubstrateTracker \<Rightarrow> bool" where
  "st_inv st \<longleftrightarrow> distinct (map fst (st_substrates st)) \<and>
     (\<forall>k sub. map_of (st_substrates st) k = Some sub \<longrightarrow> sub_SubstrateID sub = k \<and> sub_traced sub)"

lemma st_inv_update:
  "st_inv st \<Longrightarrow> sub_SubstrateID sub = k \<Longrightarrow> sub_traced sub \<Longrightarrow>
     st_inv (st\<lparr>st_substrates := AList.update k sub (st_substrates st), st_moved := mvs\<rparr>)"
  by (auto simp: st_inv_def update_conv' distinct_update)

lemma st_inv_D:
  "st_inv st \<Longrightarrow> map_of (st_substrates st) k = Some sub \<Longrightarrow> sub_SubstrateID sub = k \<and> sub_traced sub"
  by (simp add: st_inv_def)

lemma moved_traced:
  assumes "sub_traced sub"
  shows "sub_traced (sub\<lparr>sub_Location := to,
     sub_History := sub_History sub @ [\<lparr>mv_Time = now, mv_From = sub_Location sub, mv_To = to\<rparr>],
     sub_State := moved_state (loc_Type to) (sub_State sub)\<rparr>)"
  using assms by (auto simp: sub_traced_def path_snoc moved_state_def location_defs)

lemma marked_traced:
  "sub_traced sub \<Longrightarrow> s \<in> {SubstrateProcessed, SubstrateRejected} \<Longrightarrow> sub_traced (sub\<lparr>sub_State := s\<rparr>)"
  by (auto simp: sub_traced_def)

lemma set_sub_state_inv:
  assumes "set_sub_state s k st = OK st'" and "st_inv st" and "s \<in> {SubstrateProcessed, SubstrateRejected}"
  shows "st_inv st'"
proof -
  obtain sub where sub: "map_of (st_substrates st) k = Some sub"
    and st': "st' = st\<lparr>st_substrates := AList.update k (sub\<lparr>sub_State := s\<rparr>) (st_substrates st)\<rparr>"
    using assms(1) by (auto simp: set_sub_state_def split: option.splits)
  from st_inv_update [OF assms(2), of "sub\<lparr>sub_State := s\<rparr>" k "st_moved st"] st_inv_D [OF assms(2) sub] assms(3)
  show ?thesis by (simp add: st' marked_traced)
qed

lemma st_step_inv:
  assumes "st_step st st'" and inv: "st_inv st"
  shows "st_inv st'"
  using assms(1)
proof cases
  case (st_step_register s l c slot p)
  let ?sub = "\<lparr>sub_SubstrateID = s, sub_LotID = l, sub_CarrierID = c, sub_SourceSlot = slot,
        sub_Location = \<lparr>loc_Type = LocationPort, loc_ID = p, loc_Slot = slot\<rparr>,
        sub_State = SubstrateAtSource, sub_History = []\<rparr>"
  have "sub_traced ?sub" by (simp add: sub_traced_def)
  with st_inv_update [OF inv, of ?sub s "st_moved st"] show ?thesis
    by (simp add: st_step_register RegisterSubstrate_def)
next
  case (st_step_move now s to)
  then obtain sub where "map_of (st_substrates st) s = Some sub"
    by (auto simp: MoveSubstrate_def split: option.splits)
  with st_step_move st_inv_D [OF inv this] show ?thesis
    by (auto simp: MoveSubstrate_def Let_def intro!: st_inv_update [OF inv] moved_traced)
next
  case (st_step_processed s)
  then show ?thesis using set_sub_state_inv [OF _ inv] by (simp add: MarkProcessed_def)
next
  case (st_step_rejected s)
  then show ?thesis using set_sub_state_inv [OF _ inv] by (simp add: MarkRejected_def)
next
  case (st_step_remove s)
  with inv show ?thesis by (auto simp: st_inv_def RemoveSubstrate_def delete_conv' distinct_delete split: if_splits)
next
  case st_step_observe
  with inv show ?thesis by (simp add: st_inv_def OnMove_def)
qed

lemma st_reachable_inv: "st_step\<^sup>*\<^sup>* NewSubstrateTracker st \<Longrightarrow> st_inv st"
  by (induction rule: rtranclp_induct) (simp add: st_inv_def NewSubstrateTracker_def, rule st_step_inv)

text \<open>The movement log. In every state a tracker reaches, each substrate is filed under its own
  identifier, and its history is a path that starts in its source slot on a load port, whose every
  record starts where the previous one ended, and that ends at the substrate's present location; a
  substrate in transit has been on a robot, and one in process has been in a chamber or an aligner.\<close>
theorem substrate_trace:
  assumes "st_step\<^sup>*\<^sup>* NewSubstrateTracker st" and "GetSubstrate k st = Some sub"
  shows "sub_SubstrateID sub = k \<and>
    (\<exists>port. path \<lparr>loc_Type = LocationPort, loc_ID = port, loc_Slot = sub_SourceSlot sub\<rparr>
       (sub_History sub) (sub_Location sub)) \<and>
    (sub_State sub = SubstrateInTransit \<longrightarrow>
       (\<exists>m \<in> set (sub_History sub). loc_Type (mv_To m) = LocationRobot)) \<and>
    (sub_State sub = SubstrateAtProcess \<longrightarrow>
       (\<exists>m \<in> set (sub_History sub). loc_Type (mv_To m) \<in> {LocationChamber, LocationAligner}))"
  using st_inv_D [OF st_reachable_inv [OF assms(1)]] assms(2) by (simp add: GetSubstrate_def sub_traced_def)

text \<open>A substrate that a robot returns never arrives. Whatever its state (processed, rejected or other),
  a substrate that moves onto a robot and from there to a load port is left IN_TRANSIT at that port:
  the move onto the robot overwrites the state, and the move to the port makes only a PROCESSED or
  AT_PROCESS substrate AT_DESTINATION.\<close>
theorem robot_return_in_transit:
  assumes "GetSubstrate k st = Some sub" and "loc_Type robot = LocationRobot" and "loc_Type port = LocationPort"
  shows "\<exists>st' sub'. bind_res (MoveSubstrate t k robot st) (MoveSubstrate t' k port) = OK st' \<and>
    GetSubstrate k st' = Some sub' \<and> sub_Location sub' = port \<and> sub_State sub' = SubstrateInTransit"
  using assms by (simp add: MoveSubstrate_def GetSubstrate_def Let_def update_conv' moved_state_def location_defs)

definition wafer_at :: "LocationType \<Rightarrow> SubstrateLocation" where
  "wafer_at ty = \<lparr>loc_Type = ty, loc_ID = ''1'', loc_Slot = 1\<rparr>"

definition st_demo :: SubstrateTracker where
  "st_demo = \<lparr>st_substrates = [(''W'', \<lparr>sub_SubstrateID = ''W'', sub_LotID = ''L'', sub_CarrierID = ''C'',
      sub_SourceSlot = 1, sub_Location = wafer_at LocationChamber, sub_State = SubstrateProcessed,
      sub_History = [\<lparr>mv_Time = 5, mv_From = wafer_at LocationPort, mv_To = wafer_at LocationChamber\<rparr>]\<rparr>)],
     st_onMove = False, st_moved = []\<rparr>"

lemma st_demo_run:
  "bind_res (MoveSubstrate 5 ''W'' (wafer_at LocationChamber)
      (RegisterSubstrate ''W'' ''L'' ''C'' 1 ''1'' NewSubstrateTracker)) (MarkProcessed ''W'') = OK st_demo"
  by (simp add: st_demo_def MoveSubstrate_def RegisterSubstrate_def NewSubstrateTracker_def MarkProcessed_def
      set_sub_state_def wafer_at_def Let_def)

lemma st_demo_reachable: "st_step\<^sup>*\<^sup>* NewSubstrateTracker st_demo"
proof -
  let ?r = "RegisterSubstrate ''W'' ''L'' ''C'' 1 ''1'' NewSubstrateTracker"
  obtain m where "MoveSubstrate 5 ''W'' (wafer_at LocationChamber) ?r = OK m" "MarkProcessed ''W'' m = OK st_demo"
    using st_demo_run by (auto simp: bind_res_eq_OK)
  then show ?thesis
    using st_step_register [of NewSubstrateTracker "''W''" "''L''" "''C''" 1 "''1''"] st_step_move st_step_processed
    by (meson converse_rtranclp_into_rtranclp rtranclp.rtrancl_refl)
qed

theorem substrate_trace_witness:
  "\<exists>sub. GetSubstrate ''W'' st_demo = Some sub \<and> sub_SubstrateID sub = ''W'' \<and> length (sub_History sub) = 1 \<and>
     (\<exists>port. path \<lparr>loc_Type = LocationPort, loc_ID = port, loc_Slot = 1\<rparr> (sub_History sub) (wafer_at LocationChamber))"
proof -
  obtain sub where sub: "GetSubstrate ''W'' st_demo = Some sub" "length (sub_History sub) = 1"
    "sub_SourceSlot sub = 1" "sub_Location sub = wafer_at LocationChamber"
    by (simp add: st_demo_def GetSubstrate_def)
  with substrate_trace [OF st_demo_reachable sub(1)] show ?thesis by auto
qed

theorem robot_return_in_transit_witness:
  "map_option sub_State (GetSubstrate ''W'' st_demo) = Some SubstrateProcessed \<and>
   (\<exists>st' sub'. bind_res (MoveSubstrate 6 ''W'' (wafer_at LocationRobot) st_demo)
       (MoveSubstrate 7 ''W'' (wafer_at LocationPort)) = OK st' \<and>
     GetSubstrate ''W'' st' = Some sub' \<and> sub_Location sub' = wafer_at LocationPort \<and>
     sub_State sub' = SubstrateInTransit)"
proof -
  obtain sub where sub: "GetSubstrate ''W'' st_demo = Some sub" "sub_State sub = SubstrateProcessed"
    by (simp add: st_demo_def GetSubstrate_def)
  with robot_return_in_transit [OF sub(1), of "wafer_at LocationRobot" "wafer_at LocationPort" 6 7]
  show ?thesis by (simp add: wafer_at_def)
qed

end
