(* ===== verification/Go_Arith.thy ===== *)
theory Go_Arith
  imports Go_Float
begin

text \<open>
  Arithmetic on Go's \<^verbatim>\<open>float64\<close>, operation by operation as IEEE 754 prescribes: the exact
  result, rounded to the nearest double, ties to even. A finite double is a multiple of
  \<open>2 ^ -1074\<close>, so that all exact results are quotients of natural numbers and every operation
  computes. The lemmas say that rounding is monotone and leaves a double as it is, hence never
  crosses one: this is what the bounds in the clients rest on. Also here are the signed 64-bit
  arithmetic of durations and the conversions between durations and floats.
\<close>

section \<open>Rounding\<close>

definition rne :: "nat \<Rightarrow> nat \<Rightarrow> nat" where
  "rne p q = (let n = p div q; r = p mod q
              in if q < 2 * r \<or> (2 * r = q \<and> odd n) then n + 1 else n)"

text \<open>The multiple of \<open>2 ^ -1074\<close> a finite magnitude stands for.\<close>

definition mag_units :: "nat \<Rightarrow> nat" where
  "mag_units m = (let e = m div 2 ^ 52; frac = m mod 2 ^ 52
                  in if e = 0 then frac else (2 ^ 52 + frac) * 2 ^ (e - 1))"

definition inf_mag :: nat where "inf_mag = 2047 * 2 ^ 52"

text \<open>The magnitude nearest to \<open>p / q\<close> units; a result beyond the largest double is infinite.\<close>

definition mag_of :: "nat \<Rightarrow> nat \<Rightarrow> nat" where
  "mag_of p q = (let sh = top_bit (p div q) - 52 in min inf_mag (sh * 2 ^ 52 + rne p (q * 2 ^ sh)))"

lemma rne_le_iff:
  assumes "0 < q"
  shows "rne p q \<le> n \<longleftrightarrow> 2 * p < (2 * n + 1) * q \<or> (2 * p = (2 * n + 1) * q \<and> even n)"
proof -
  define k r where "k = p div q" and "r = p mod q"
  have p: "p = k * q + r" and r: "r < q" using assms by (simp_all add: k_def r_def)
  have e: "rne p q = (if q < 2 * r \<or> (2 * r = q \<and> odd k) then k + 1 else k)"
    by (simp add: rne_def k_def r_def Let_def)
  consider "k < n" | "k = n" | "n < k" by linarith
  then show ?thesis
  proof cases
    case 1
    then have "(k + 1) * q \<le> n * q" by (intro mult_le_mono1) simp
    with 1 p r e show ?thesis by (simp add: algebra_simps)
  next
    case 2
    with p r e show ?thesis by (auto simp: algebra_simps)
  next
    case 3
    then have "(n + 1) * q \<le> k * q" by (intro mult_le_mono1) simp
    with 3 p r e assms show ?thesis by (simp add: algebra_simps)
  qed
qed

lemma rne_mono:
  assumes "0 < q" and "0 < q'" and "p * q' \<le> p' * q"
  shows "rne p q \<le> rne p' q'"
proof -
  define n where "n = rne p' q'"
  have "2 * p' < (2 * n + 1) * q' \<or> (2 * p' = (2 * n + 1) * q' \<and> even n)"
    using rne_le_iff [OF assms(2), of p' n] by (simp add: n_def)
  then have "2 * p < (2 * n + 1) * q \<or> (2 * p = (2 * n + 1) * q \<and> even n)"
  proof
    assume "2 * p' < (2 * n + 1) * q'"
    then have "2 * p' * q < (2 * n + 1) * q' * q" using assms(1) by (simp only: mult_less_cancel2)
    with assms(3) have "2 * p * q' < (2 * n + 1) * q * q'" by (simp add: algebra_simps)
    then have "2 * p < (2 * n + 1) * q" by (simp only: mult_less_cancel2)
    then show ?thesis by blast
  next
    assume h: "2 * p' = (2 * n + 1) * q' \<and> even n"
    then have "2 * p' * q = (2 * n + 1) * q' * q" by simp
    with assms(3) have "2 * p * q' \<le> (2 * n + 1) * q * q'" by (simp add: algebra_simps)
    then have "2 * p \<le> (2 * n + 1) * q" using assms(2) by (simp only: mult_le_cancel2)
    with h show ?thesis by linarith
  qed
  then show ?thesis using rne_le_iff [OF assms(1), of p n] by (simp add: n_def)
qed

lemma rne_exact: "0 < q \<Longrightarrow> rne (n * q) q = n"
  by (simp add: rne_def)

lemma rne_between:
  assumes "0 < q"
  shows "p \<le> n * q \<Longrightarrow> rne p q \<le> n" and "n * q \<le> p \<Longrightarrow> n \<le> rne p q"
  using rne_mono [of q q p "n * q"] rne_mono [of q q "n * q" p] assms by (simp_all add: rne_exact)

lemma top_bit_0 [simp]: "top_bit 0 = 0" "top_bit (Suc 0) = 0"
  by (simp_all add: top_bit.simps)

lemma top_bit_mono': "a \<le> b \<Longrightarrow> top_bit a \<le> top_bit b"
  by (cases "a = 0") (simp_all add: top_bit_mono)

lemma div_mono_cross:
  assumes "0 < q" "0 < q'" "p * q' \<le> p' * (q :: nat)"
  shows "p div q \<le> p' div q'"
proof -
  have "p div q * q * q' \<le> p * q'" by simp
  also have "\<dots> \<le> p' * q" by (rule assms)
  finally have "p div q * q' * q \<le> p' * q" by (simp add: mult_ac)
  then have "p div q * q' \<le> p'" using assms(1) by simp
  then show ?thesis using assms(2) by (simp add: less_eq_div_iff_mult_less_eq)
qed

lemma sig_le:
  assumes "0 < q" and "sh = top_bit (p div q) - 52"
  shows "rne p (q * 2 ^ sh) \<le> 2 ^ 53"
proof -
  have "p div q < 2 ^ 53 * 2 ^ sh"
  proof (cases "p div q = 0")
    case False
    then have "p div q < 2 ^ Suc (top_bit (p div q))" using top_bit_bounds [of "p div q"] by simp
    also have "(2::nat) ^ Suc (top_bit (p div q)) \<le> 2 ^ (53 + sh)"
      using assms(2) by (intro power_increasing) simp_all
    finally show ?thesis by (simp add: power_add)
  qed simp
  then have "p < 2 ^ 53 * 2 ^ sh * q" using assms(1) by (simp add: div_less_iff_less_mult)
  then show ?thesis using assms(1) by (intro rne_between(1)) (simp_all add: mult_ac)
qed

lemma sig_ge:
  assumes "0 < q" and "sh = top_bit (p div q) - 52" and "0 < sh"
  shows "2 ^ 52 \<le> rne p (q * 2 ^ sh)"
proof -
  have n: "0 < p div q" using assms by (cases "p div q = 0") simp_all
  have "(2::nat) ^ (52 + sh) \<le> p div q" using top_bit_bounds [OF n] assms(2,3) by simp
  then have "2 ^ 52 * 2 ^ sh * q \<le> p" using assms(1) by (simp add: power_add less_eq_div_iff_mult_less_eq)
  then show ?thesis using assms(1) by (intro rne_between(2)) (simp_all add: mult_ac)
qed

lemma mag_of_mono:
  assumes q: "0 < q" "0 < q'" and le: "p * q' \<le> p' * q"
  shows "mag_of p q \<le> mag_of p' q'"
proof -
  define sh sh' where "sh = top_bit (p div q) - 52" and "sh' = top_bit (p' div q') - 52"
  have "sh \<le> sh'" unfolding sh_def sh'_def by (intro diff_le_mono top_bit_mono' div_mono_cross q le)
  then consider "sh = sh'" | "sh < sh'" by linarith
  then have "sh * 2 ^ 52 + rne p (q * 2 ^ sh) \<le> sh' * 2 ^ 52 + rne p' (q' * 2 ^ sh')"
  proof cases
    case 1
    have "p * (q' * 2 ^ sh') \<le> p' * (q * 2 ^ sh)" using le 1 by simp
    with 1 q show ?thesis by (simp add: rne_mono)
  next
    case 2
    then have "Suc sh * 2 ^ 52 \<le> sh' * 2 ^ 52" by (intro mult_le_mono1) simp
    with sig_le [OF q(1) sh_def] sig_ge [OF q(2) sh'_def] 2 show ?thesis by simp
  qed
  then show ?thesis unfolding mag_of_def Let_def sh_def [symmetric] sh'_def [symmetric]
    by (intro min.mono) simp_all
qed

lemma mag_of_cong: "0 < q \<Longrightarrow> 0 < q' \<Longrightarrow> p * q' = p' * q \<Longrightarrow> mag_of p q = mag_of p' q'"
  by (intro antisym mag_of_mono) simp_all

lemma top_bit_eq:
  assumes "2 ^ k \<le> n" and "n < 2 ^ Suc k"
  shows "top_bit n = k"
proof -
  have "0 < n" using assms(1) by (rule less_le_trans [rotated]) simp
  note b = top_bit_bounds [OF this]
  have "(2::nat) ^ k < 2 ^ Suc (top_bit n)" "(2::nat) ^ top_bit n < 2 ^ Suc k"
    using b assms by linarith+
  then have "k < Suc (top_bit n)" "top_bit n < Suc k"
    by (simp_all only: power_strict_increasing_iff one_less_numeral_iff semiring_norm)
  then show ?thesis by simp
qed

lemma mag_of_exact:
  assumes "m < inf_mag"
  shows "mag_of (mag_units m) 1 = m"
proof -
  define e f where "e = m div 2 ^ 52" and "f = m mod 2 ^ 52"
  have m: "m = e * 2 ^ 52 + f" and f: "f < 2 ^ 52" by (simp_all add: e_def f_def)
  have u: "mag_units m = (if e = 0 then f else (2 ^ 52 + f) * 2 ^ (e - 1))"
    by (simp add: mag_units_def e_def f_def)
  show ?thesis
  proof (cases "e = 0")
    case True
    have "top_bit f - 52 = 0"
      using top_bit_less [OF _ f] by (cases "f = 0") auto
    with True u m assms show ?thesis by (simp add: mag_of_def rne_def)
  next
    case False
    have "top_bit (mag_units m) = 51 + e"
    proof (rule top_bit_eq)
      have p: "(2::nat) ^ (51 + e) = 2 ^ 52 * 2 ^ (e - 1)" "(2::nat) ^ Suc (51 + e) = (2 ^ 52 + 2 ^ 52) * 2 ^ (e - 1)"
        using False by (cases e; simp add: power_add)+
      show "2 ^ (51 + e) \<le> mag_units m" unfolding p u using False by simp
      show "mag_units m < 2 ^ Suc (51 + e)" unfolding p u using False f by simp
    qed
    moreover have "rne (mag_units m) (2 ^ (e - 1)) = 2 ^ 52 + f"
      unfolding u using False by (simp only: if_False rne_exact zero_less_power zero_less_numeral)
    ultimately show ?thesis
      using False m assms by (simp add: mag_of_def Let_def)
  qed
qed

text \<open>Rounding never crosses a double.\<close>

lemma mag_of_le: "m < inf_mag \<Longrightarrow> 0 < q \<Longrightarrow> p \<le> mag_units m * q \<Longrightarrow> mag_of p q \<le> m"
  using mag_of_mono [of q 1 p "mag_units m"] mag_of_exact by simp

lemma mag_of_ge: "m < inf_mag \<Longrightarrow> 0 < q \<Longrightarrow> mag_units m * q \<le> p \<Longrightarrow> m \<le> mag_of p q"
  using mag_of_mono [of 1 q "mag_units m" p] mag_of_exact by simp

lemma mag_of_inf: "mag_of p q \<le> inf_mag"
  by (simp add: mag_of_def Let_def)

lemma mag_units_le:
  assumes "m < inf_mag" and "m' < inf_mag"
  shows "mag_units m \<le> mag_units m' \<longleftrightarrow> m \<le> m'"
proof
  show "mag_units m \<le> mag_units m' \<Longrightarrow> m \<le> m'"
    using mag_of_mono [of 1 1 "mag_units m" "mag_units m'"] assms by (simp add: mag_of_exact del: One_nat_def)
next
  assume "m \<le> m'"
  show "mag_units m \<le> mag_units m'"
  proof (rule ccontr)
    assume "\<not> ?thesis"
    then have "mag_units m' \<le> mag_units m" "mag_units m' \<noteq> mag_units m" by simp_all
    moreover from this have "m' \<le> m"
      using mag_of_mono [of 1 1 "mag_units m'" "mag_units m"] assms by (simp add: mag_of_exact del: One_nat_def)
    ultimately show False using \<open>m \<le> m'\<close> by simp
  qed
qed

section \<open>The operations\<close>

definition f64_nan :: float64 where "f64_nan = 0x7FF8000000000001"

definition f64_zero :: "float64 \<Rightarrow> bool" where "f64_zero a \<longleftrightarrow> f64_mag a = 0"

definition f64_units :: "float64 \<Rightarrow> int" where
  "f64_units a = (if f64_neg a then - int (mag_units (f64_mag a)) else int (mag_units (f64_mag a)))"

definition f64_make :: "bool \<Rightarrow> nat \<Rightarrow> float64" where
  "f64_make neg m = word_of_nat (if neg then 2 ^ 63 + m else m)"

definition f64_negate :: "float64 \<Rightarrow> float64" where
  "f64_negate a = f64_make (\<not> f64_neg a) (f64_mag a)"

definition f64_add :: "float64 \<Rightarrow> float64 \<Rightarrow> float64" where
  "f64_add a b =
     (if f64_is_nan a \<or> f64_is_nan b then f64_nan
      else if f64_is_inf a then (if f64_is_inf b \<and> f64_neg a \<noteq> f64_neg b then f64_nan else a)
      else if f64_is_inf b then b
      else let z = f64_units a + f64_units b
           in if z = 0 then f64_make (f64_neg a \<and> f64_neg b) 0
              else f64_make (z < 0) (mag_of (nat \<bar>z\<bar>) 1))"

definition f64_sub :: "float64 \<Rightarrow> float64 \<Rightarrow> float64" where
  "f64_sub a b = f64_add a (f64_negate b)"

definition f64_mul :: "float64 \<Rightarrow> float64 \<Rightarrow> float64" where
  "f64_mul a b =
     (let neg = (f64_neg a \<noteq> f64_neg b) in
      if f64_is_nan a \<or> f64_is_nan b then f64_nan
      else if f64_is_inf a then (if f64_zero b then f64_nan else f64_make neg inf_mag)
      else if f64_is_inf b then (if f64_zero a then f64_nan else f64_make neg inf_mag)
      else f64_make neg (mag_of (mag_units (f64_mag a) * mag_units (f64_mag b)) (2 ^ 1074)))"

definition f64_div :: "float64 \<Rightarrow> float64 \<Rightarrow> float64" where
  "f64_div a b =
     (let neg = (f64_neg a \<noteq> f64_neg b) in
      if f64_is_nan a \<or> f64_is_nan b \<or> f64_is_inf a \<and> f64_is_inf b \<or> f64_zero a \<and> f64_zero b then f64_nan
      else if f64_is_inf a \<or> f64_zero b then f64_make neg inf_mag
      else if f64_is_inf b then f64_make neg 0
      else f64_make neg (mag_of (mag_units (f64_mag a) * 2 ^ 1074) (mag_units (f64_mag b))))"

definition f64_le :: "float64 \<Rightarrow> float64 \<Rightarrow> bool" where
  "f64_le a b \<longleftrightarrow> \<not> f64_is_nan a \<and> \<not> f64_is_nan b \<and> f64_key a \<le> f64_key b"

text \<open>The conversion of an integer agrees with the general rounding.\<close>

lemma top_bit_shift: "0 < n \<Longrightarrow> top_bit (n * 2 ^ k) = top_bit n + k"
proof (rule top_bit_eq)
  assume n: "0 < n"
  note b = top_bit_bounds [OF n]
  show "2 ^ (top_bit n + k) \<le> n * 2 ^ k" using b by (simp add: power_add)
  have "n * 2 ^ k < 2 ^ Suc (top_bit n) * 2 ^ k" using b by simp
  then show "n * 2 ^ k < 2 ^ Suc (top_bit n + k)" by (simp add: power_add mult_ac)
qed

lemma round_half_even_rne: "0 < sh \<Longrightarrow> round_half_even m sh = rne m (2 ^ sh)"
proof -
  assume "0 < sh"
  then obtain s where "sh = Suc s" by (cases sh) auto
  then show ?thesis by (auto simp: round_half_even_def rne_def Let_def)
qed

lemma rne_scale: "0 < c \<Longrightarrow> 0 < q \<Longrightarrow> rne (p * c) (q * c) = rne p q"
  by (intro antisym rne_mono) (simp_all add: mult_ac)

lemma f64_nat_bits_mag_of:
  assumes "n < 2 ^ 64"
  shows "f64_nat_bits n = mag_of (n * 2 ^ 1074) 1"
proof (cases "n = 0")
  case True
  then show ?thesis by (simp add: f64_nat_bits_def mag_of_def rne_def)
next
  case False
  define k where "k = top_bit n"
  have k64: "k < 64" using top_bit_less [of n 64] False assms by (simp add: k_def)
  have sh: "top_bit (n * 2 ^ 1074 div 1) - 52 = k + 1022"
    using False by (simp only: div_by_1 top_bit_shift k_def neq0_conv)
  have "rne (n * 2 ^ 1074) (1 * 2 ^ (k + 1022)) =
      (if k \<le> 52 then n * 2 ^ (52 - k) else round_half_even n (k - 52))"
  proof (cases "k \<le> 52")
    case True
    then have "(2::nat) ^ 1074 = 2 ^ (52 - k) * 2 ^ (k + 1022)" by (simp flip: power_add)
    then have "n * 2 ^ 1074 = n * 2 ^ (52 - k) * 2 ^ (k + 1022)" by (simp only: mult.assoc)
    then show ?thesis using True by (simp only: mult_1 rne_exact zero_less_power zero_less_numeral if_True)
  next
    case g: False
    then have "k + 1022 = (k - 52) + 1074" by simp
    then have "(2::nat) ^ (k + 1022) = 2 ^ (k - 52) * 2 ^ 1074" by (simp only: power_add)
    then have r: "rne (n * 2 ^ 1074) (1 * 2 ^ (k + 1022)) = rne n (2 ^ (k - 52))"
      by (simp only: mult_1 rne_scale zero_less_power zero_less_numeral)
    show ?thesis unfolding r using g by (simp add: round_half_even_rne)
  qed
  moreover have "rne (n * 2 ^ 1074) (1 * 2 ^ (k + 1022)) \<le> 2 ^ 53" using sig_le [of 1 "k + 1022" "n * 2 ^ 1074"] sh by simp
  moreover have "(k + 1022) * 2 ^ 52 + 2 ^ 53 \<le> inf_mag" using k64 unfolding inf_mag_def by simp
  ultimately show ?thesis using False sh
    unfolding f64_nat_bits_def mag_of_def by (simp add: Let_def k_def [symmetric])
qed

section \<open>Finite results\<close>

definition f64_fin :: "float64 \<Rightarrow> bool" where "f64_fin a \<longleftrightarrow> f64_mag a < inf_mag"

lemma f64_fin_iff: "f64_fin a \<longleftrightarrow> \<not> f64_is_nan a \<and> \<not> f64_is_inf a"
  by (auto simp: f64_fin_def f64_is_nan_def f64_is_inf_def inf_mag_def)

lemma f64_make_mag:
  assumes "m < 2 ^ 63"
  shows "f64_mag (f64_make neg m) = m" "f64_neg (f64_make neg m) = neg"
proof -
  have "unat (f64_make neg m) = (if neg then 2 ^ 63 + m else m)"
    using assms by (simp add: f64_make_def unat_of_nat)
  then show "f64_mag (f64_make neg m) = m" "f64_neg (f64_make neg m) = neg"
    using assms by (auto simp: f64_mag_def f64_neg_def)
qed

lemma f64_mag_bound: "f64_mag a < 2 ^ 63"
  by (simp add: f64_mag_def)

lemma f64_make_simps [simp]:
  "f64_mag (f64_make neg (mag_of p q)) = mag_of p q" "f64_neg (f64_make neg (mag_of p q)) = neg"
  "f64_mag (f64_make neg (f64_mag a)) = f64_mag a" "f64_neg (f64_make neg (f64_mag a)) = neg"
  "f64_mag (f64_make neg 0) = 0" "f64_neg (f64_make neg 0) = neg"
proof -
  have "mag_of p q < 2 ^ 63" using mag_of_inf [of p q] by (simp add: inf_mag_def)
  then show "f64_mag (f64_make neg (mag_of p q)) = mag_of p q" "f64_neg (f64_make neg (mag_of p q)) = neg"
    by (rule f64_make_mag)+
  show "f64_mag (f64_make neg (f64_mag a)) = f64_mag a" "f64_neg (f64_make neg (f64_mag a)) = neg"
    by (rule f64_make_mag, rule f64_mag_bound)+
  show "f64_mag (f64_make neg 0) = 0" "f64_neg (f64_make neg 0) = neg" by (simp_all add: f64_make_mag)
qed

lemma mag_units_0 [simp]: "mag_units 0 = 0"
  by (simp add: mag_units_def)

lemma f64_units_key:
  assumes "f64_fin a" and "f64_fin b"
  shows "f64_units a \<le> f64_units b \<longleftrightarrow> f64_key a \<le> f64_key b"
proof -
  have z: "mag_units m = 0 \<longleftrightarrow> m = 0" if "m < inf_mag" for m
    using mag_units_le [of m 0] that by (simp add: inf_mag_def)
  have n: "int x \<le> - int y \<longleftrightarrow> x = 0 \<and> y = 0" for x y by auto
  show ?thesis
    using assms mag_units_le [of "f64_mag a" "f64_mag b"] mag_units_le [of "f64_mag b" "f64_mag a"]
      z [of "f64_mag a"] z [of "f64_mag b"]
    unfolding f64_units_def f64_key_def f64_fin_def by (cases "f64_neg a"; cases "f64_neg b") (simp_all add: n)
qed

lemma f64_of_int_make:
  assumes "\<bar>i\<bar> < 2 ^ 64"
  shows "f64_of_int i = f64_make (i < 0) (mag_of (nat \<bar>i\<bar> * 2 ^ 1074) 1)"
proof -
  have "nat \<bar>i\<bar> < 2 ^ 64" using assms by simp
  from f64_nat_bits_mag_of [OF this] show ?thesis
    by (auto simp: f64_of_int_def f64_make_def)
qed

definition f64_one :: float64 where "f64_one = 0x3FF0000000000000"

lemma f64_one_facts: "f64_mag f64_one = 1023 * 2 ^ 52" "\<not> f64_neg f64_one" "f64_fin f64_one"
    "mag_units (1023 * 2 ^ 52) = 2 ^ 1074"
  by (simp_all add: f64_one_def f64_mag_def f64_neg_def f64_fin_def inf_mag_def mag_units_def)

lemma f64_of_int_1: "f64_of_int 1 = f64_one"
proof -
  have "f64_of_int 1 = f64_make False (mag_of (mag_units (1023 * 2 ^ 52)) 1)"
    using f64_of_int_make [of 1] by (simp only: f64_one_facts) simp
  also have "mag_of (mag_units (1023 * 2 ^ 52)) 1 = 1023 * 2 ^ 52"
    by (rule mag_of_exact) (simp add: inf_mag_def)
  also have "f64_make False (1023 * 2 ^ 52) = f64_one" by (simp add: f64_make_def f64_one_def)
  finally show ?thesis .
qed

lemma f64_zero_facts: "f64_mag 0 = 0" "\<not> f64_neg 0" "f64_fin 0" "f64_units 0 = 0" "f64_key 0 = 0"
  by (simp_all add: f64_mag_def f64_neg_def f64_fin_def inf_mag_def f64_units_def f64_key_def)

lemma f64_of_int_fin:
  assumes "\<bar>i\<bar> < 2 ^ 64"
  shows "f64_fin (f64_of_int i)"
proof -
  have "nat \<bar>i\<bar> \<le> 2 ^ 64" using assms by simp
  then have "mag_of (nat \<bar>i\<bar> * 2 ^ 1074) 1 \<le> mag_of (2 ^ 64 * 2 ^ 1074) 1"
    by (intro mag_of_mono) (simp_all only: zero_less_one mult_1_right mult_le_mono1)
  also have "\<dots> = mag_of (mag_units (1087 * 2 ^ 52)) 1" by (simp add: mag_units_def)
  also have "\<dots> = 1087 * 2 ^ 52" by (rule mag_of_exact) (simp add: inf_mag_def)
  finally have "mag_of (nat \<bar>i\<bar> * 2 ^ 1074) 1 < inf_mag" by (simp only: inf_mag_def) simp
  then show ?thesis using assms by (simp add: f64_of_int_make f64_fin_def)
qed

lemma f64_of_int_mono:
  assumes "i \<le> j" and "\<bar>i\<bar> < 2 ^ 64" and "\<bar>j\<bar> < 2 ^ 64"
  shows "f64_key (f64_of_int i) \<le> f64_key (f64_of_int j)"
proof -
  have m: "mag_of (x * 2 ^ 1074) 1 \<le> mag_of (y * 2 ^ 1074) 1" if "x \<le> y" for x y
    using that by (intro mag_of_mono) (simp_all only: zero_less_one mult_1_right mult_le_mono1)
  show ?thesis
    using assms m [of "nat i" "nat j"] m [of "nat (- j)" "nat (- i)"]
    by (auto simp: f64_of_int_make f64_key_def)
qed

lemma f64_of_int_pos: "0 < i \<Longrightarrow> i < 2 ^ 64 \<Longrightarrow> f64_key f64_one \<le> f64_key (f64_of_int i)"
  using f64_of_int_mono [of 1 i] by (simp add: f64_of_int_1)

text \<open>Quotients and products in the unit interval.\<close>

definition f64_unit :: "float64 \<Rightarrow> bool" where
  "f64_unit a \<longleftrightarrow> f64_le 0 a \<and> f64_le a f64_one"

lemma f64_unit_make: "m \<le> 1023 * 2 ^ 52 \<Longrightarrow> f64_unit (f64_make False m)"
  by (simp add: f64_unit_def f64_le_def f64_key_def f64_make_mag f64_zero_facts f64_one_facts inf_mag_def
      f64_is_nan_def)

lemma f64_unitD:
  assumes "f64_unit a"
  shows "f64_fin a" "mag_units (f64_mag a) \<le> 2 ^ 1074" "f64_neg a \<Longrightarrow> f64_mag a = 0"
proof -
  have m: "f64_mag a \<le> 1023 * 2 ^ 52" and n: "f64_neg a \<Longrightarrow> f64_mag a = 0"
    using assms by (auto simp: f64_unit_def f64_le_def f64_key_def f64_zero_facts f64_one_facts split: if_splits)
  then show "f64_fin a" "f64_neg a \<Longrightarrow> f64_mag a = 0" by (simp_all add: f64_fin_def inf_mag_def)
  show "mag_units (f64_mag a) \<le> 2 ^ 1074"
    using mag_units_le [of "f64_mag a" "1023 * 2 ^ 52"] m f64_one_facts(4) by (simp only: inf_mag_def) simp
qed

lemma f64_div_unit:
  assumes "0 \<le> i" and "i \<le> j" and "0 < j" and "j < 2 ^ 64"
  shows "f64_unit (f64_div (f64_of_int i) (f64_of_int j))"
proof -
  let ?a = "f64_of_int i" and ?b = "f64_of_int j"
  have fin: "f64_fin ?a" "f64_fin ?b" using assms by (simp_all add: f64_of_int_fin)
  have pos: "\<not> f64_neg ?a" "\<not> f64_neg ?b"
    using assms by (simp_all add: f64_of_int_make mag_of_inf)
  have "f64_key ?a \<le> f64_key ?b" using assms by (intro f64_of_int_mono) simp_all
  then have le: "mag_units (f64_mag ?a) \<le> mag_units (f64_mag ?b)"
    using pos fin by (simp add: f64_key_def mag_units_le f64_fin_def)
  have "f64_key f64_one \<le> f64_key ?b" using assms by (intro f64_of_int_pos)
  then have nz: "0 < f64_mag ?b" using pos by (simp add: f64_key_def f64_one_facts)
  then have "0 < mag_units (f64_mag ?b)"
    using mag_units_le [of "f64_mag ?b" 0] fin by (simp add: f64_fin_def inf_mag_def)
  then have "mag_of (mag_units (f64_mag ?a) * 2 ^ 1074) (mag_units (f64_mag ?b)) \<le> 1023 * 2 ^ 52"
    using le by (intro mag_of_le) (simp_all only: f64_one_facts inf_mag_def mult.commute mult_le_mono1, simp)
  then show ?thesis
    using fin pos nz f64_unit_make
    by (simp only: f64_div_def Let_def f64_fin_iff f64_zero_def if_False simp_thms neq0_conv [symmetric])
qed

lemma f64_mul_unit:
  assumes "f64_unit a" and "f64_unit b"
  shows "f64_unit (f64_mul a b)"
proof -
  note a = f64_unitD [OF assms(1)] and b = f64_unitD [OF assms(2)]
  let ?m = "mag_of (mag_units (f64_mag a) * mag_units (f64_mag b)) (2 ^ 1074)"
  have e: "f64_mul a b = f64_make (f64_neg a \<noteq> f64_neg b) ?m"
    using a(1) b(1) by (simp only: f64_mul_def Let_def f64_fin_iff if_False simp_thms)
  have le: "?m \<le> 1023 * 2 ^ 52"
  proof (rule mag_of_le)
    show "mag_units (f64_mag a) * mag_units (f64_mag b) \<le> mag_units (1023 * 2 ^ 52) * 2 ^ 1074"
      unfolding f64_one_facts using a(2) b(2) by (rule mult_le_mono)
  qed (simp_all only: inf_mag_def zero_less_power zero_less_numeral, simp)
  have z: "?m = 0" if "f64_neg a \<noteq> f64_neg b"
  proof -
    have "f64_mag a = 0 \<or> f64_mag b = 0" using that a(3) b(3) by (cases "f64_neg a") simp_all
    then have "mag_units (f64_mag a) * mag_units (f64_mag b) = 0" by auto
    then show ?thesis by (simp only: mag_of_def) (simp add: rne_def)
  qed
  show ?thesis
  proof (cases "f64_neg a = f64_neg b")
    case True
    then show ?thesis using f64_unit_make [OF le] e by simp
  next
    case False
    then show ?thesis using e z
      by (simp add: f64_unit_def f64_le_def f64_key_def f64_zero_facts f64_one_facts f64_is_nan_def)
  qed
qed

section \<open>Numbers that are not negative\<close>

definition f64_nonneg :: "float64 \<Rightarrow> bool" where "f64_nonneg a \<longleftrightarrow> f64_le 0 a"

abbreviation f64_mu :: "float64 \<Rightarrow> nat" where "f64_mu a \<equiv> mag_units (f64_mag a)"

lemma f64_nonneg_iff: "f64_nonneg a \<longleftrightarrow> f64_mag a \<le> inf_mag \<and> (f64_neg a \<longrightarrow> f64_mag a = 0)"
  by (auto simp: f64_nonneg_def f64_le_def f64_zero_facts f64_key_def f64_is_nan_def inf_mag_def f64_mag_def)

lemma f64_nonneg_order:
  assumes "f64_nonneg a" and "f64_nonneg b"
  shows "f64_le a b \<longleftrightarrow> f64_mag a \<le> f64_mag b" and "f64_less a b \<longleftrightarrow> f64_mag a < f64_mag b"
  using assms by (auto simp: f64_nonneg_iff f64_le_def f64_less_def f64_key_def f64_is_nan_def inf_mag_def)

lemma f64_nonneg_units: "f64_nonneg a \<Longrightarrow> f64_units a = int (f64_mu a)"
  by (auto simp: f64_nonneg_iff f64_units_def)

lemma f64_nonneg_consts: "f64_nonneg 0" "f64_nonneg f64_one"
  by (simp_all add: f64_nonneg_iff f64_zero_facts f64_one_facts inf_mag_def)

lemma f64_nonneg_of_int:
  assumes "0 \<le> i" and "i < 2 ^ 64"
  shows "f64_nonneg (f64_of_int i)" "f64_mag (f64_of_int i) = mag_of (nat i * 2 ^ 1074) 1"
  using assms mag_of_inf by (simp_all only: f64_nonneg_iff f64_of_int_make f64_make_simps abs_of_nonneg) simp_all

lemma mag_of_0 [simp]: "mag_of 0 q = 0"
  by (simp add: mag_of_def rne_def)

lemma f64_add_nonneg:
  assumes "f64_nonneg a" and "f64_nonneg b" and "f64_fin a" and "f64_fin b"
  shows "f64_nonneg (f64_add a b)" and "f64_mag (f64_add a b) = mag_of (f64_mu a + f64_mu b) 1"
proof -
  have z: "f64_units a + f64_units b = int (f64_mu a + f64_mu b)" using assms by (simp add: f64_nonneg_units)
  have e: "f64_add a b = (if f64_mu a + f64_mu b = 0 then f64_make (f64_neg a \<and> f64_neg b) 0
      else f64_make False (mag_of (f64_mu a + f64_mu b) 1))"
    using assms(3,4) unfolding f64_add_def f64_fin_iff z by (simp add: Let_def nat_int_add)
  show "f64_nonneg (f64_add a b)" "f64_mag (f64_add a b) = mag_of (f64_mu a + f64_mu b) 1"
    unfolding e using mag_of_inf [of "f64_mu a + f64_mu b" 1]
    by (auto simp: f64_nonneg_iff)
qed

lemma f64_mul_nonneg:
  assumes "f64_nonneg a" and "f64_nonneg b" and "f64_fin a" and "f64_fin b"
  shows "f64_nonneg (f64_mul a b)" and "f64_mag (f64_mul a b) = mag_of (f64_mu a * f64_mu b) (2 ^ 1074)"
proof -
  define m where "m = mag_of (f64_mu a * f64_mu b) (2 ^ 1074)"
  have e: "f64_mul a b = f64_make (f64_neg a \<noteq> f64_neg b) m"
    unfolding m_def using assms(3,4) by (simp only: f64_mul_def Let_def f64_fin_iff if_False simp_thms)
  have mm: "f64_mag (f64_make n m) = m" "f64_neg (f64_make n m) = n" "m \<le> inf_mag" for n
    unfolding m_def by (rule f64_make_simps mag_of_inf)+
  have z: "m = 0" if "f64_neg a \<noteq> f64_neg b"
  proof -
    have "f64_mag a = 0 \<or> f64_mag b = 0" using that assms(1,2) by (cases "f64_neg a") (simp_all add: f64_nonneg_iff)
    then have "f64_mu a * f64_mu b = 0" by auto
    then show ?thesis by (simp only: m_def mag_of_0)
  qed
  show "f64_nonneg (f64_mul a b)" "f64_mag (f64_mul a b) = mag_of (f64_mu a * f64_mu b) (2 ^ 1074)"
    unfolding m_def [symmetric] e f64_nonneg_iff mm using z mm(3) by auto
qed

lemma f64_sub_nonneg:
  assumes "f64_nonneg a" and "f64_nonneg b" and "f64_fin a" and "f64_fin b" and "f64_mag b \<le> f64_mag a"
  shows "f64_nonneg (f64_sub a b)" and "f64_mag (f64_sub a b) = mag_of (f64_mu a - f64_mu b) 1"
proof -
  have le: "f64_mu b \<le> f64_mu a" using assms by (simp add: mag_units_le f64_fin_def)
  have n: "f64_mag (f64_negate b) = f64_mag b" "f64_neg (f64_negate b) = (\<not> f64_neg b)"
    by (simp_all add: f64_negate_def f64_make_mag f64_mag_bound)
  have "f64_units (f64_negate b) = - int (f64_mu b)" using assms(2) n by (auto simp: f64_units_def f64_nonneg_iff)
  then have z: "f64_units a + f64_units (f64_negate b) = int (f64_mu a - f64_mu b)"
    using assms(1) le by (simp add: f64_nonneg_units of_nat_diff)
  have fin: "\<not> f64_is_nan a" "\<not> f64_is_inf a" "\<not> f64_is_nan (f64_negate b)" "\<not> f64_is_inf (f64_negate b)"
    using assms(3,4) n by (auto simp: f64_fin_iff f64_is_nan_def f64_is_inf_def)
  have e: "f64_sub a b = (if f64_mu a - f64_mu b = 0 then f64_make (f64_neg a \<and> \<not> f64_neg b) 0
      else f64_make False (mag_of (f64_mu a - f64_mu b) 1))"
    unfolding f64_sub_def f64_add_def z using fin by (simp add: Let_def n nat_diff_distrib)
  show "f64_nonneg (f64_sub a b)" "f64_mag (f64_sub a b) = mag_of (f64_mu a - f64_mu b) 1"
    unfolding e using mag_of_inf [of "f64_mu a - f64_mu b" 1]
    by (auto simp: f64_nonneg_iff)
qed

text \<open>Comparisons of results through the exact values.\<close>

lemma f64_mu_mono: "f64_fin a \<Longrightarrow> f64_fin b \<Longrightarrow> f64_mu a \<le> f64_mu b \<longleftrightarrow> f64_mag a \<le> f64_mag b"
  by (simp add: mag_units_le f64_fin_def)

lemma mag_of_upper: "f64_fin c \<Longrightarrow> p \<le> f64_mu c \<Longrightarrow> mag_of p 1 \<le> f64_mag c"
  by (intro mag_of_le) (simp_all add: f64_fin_def)

lemma mag_of_lower: "f64_fin c \<Longrightarrow> f64_mu c \<le> p \<Longrightarrow> f64_mag c \<le> mag_of p 1"
  by (intro mag_of_ge) (simp_all add: f64_fin_def)

lemma f64_mu_of_int:
  assumes "0 \<le> i" and "i < 2 ^ 53"
  shows "f64_mu (f64_of_int i) = nat i * 2 ^ 1074"
proof (cases "i = 0")
  case True
  then show ?thesis by (simp add: f64_of_int_def f64_nat_bits_def f64_zero_facts)
next
  case False
  define n k where "n = nat i" and "k = top_bit n"
  have n: "0 < n" "n < 2 ^ 53" using assms False by (simp_all add: n_def)
  have k: "k \<le> 52" using top_bit_less [OF n] by (simp add: k_def)
  define sg where "sg = n * 2 ^ (52 - k)"
  have sg: "2 ^ 52 \<le> sg" "sg < 2 ^ 53" using sig_bounds [OF n(1)] k by (simp_all add: sg_def k_def)
  have m: "f64_mag (f64_of_int i) = (k + 1023) * 2 ^ 52 + (sg - 2 ^ 52)"
  proof -
    have "f64_of_int i = f64_make False (f64_nat_bits n)" using assms by (simp add: f64_of_int_def f64_make_def n_def)
    moreover have "f64_nat_bits n < 2 ^ 63" using f64_nat_bits_bound [OF n(2)] by simp
    ultimately have "f64_mag (f64_of_int i) = f64_nat_bits n" by (simp only: f64_make_mag)
    also have "\<dots> = (k + 1022) * 2 ^ 52 + sg" using n k by (simp add: f64_nat_bits_def Let_def k_def sg_def)
    finally show ?thesis using sg by simp
  qed
  have g: "(e * q + f) div q = e" "(e * q + f) mod q = f" if "f < q" for e f q :: nat
    using that by simp_all
  have "sg - 2 ^ 52 < 2 ^ 52" using sg by simp
  note dm = g [OF this]
  have "f64_mu (f64_of_int i) = sg * 2 ^ (k + 1022)"
    unfolding m mag_units_def Let_def dm using sg by simp
  also have "\<dots> = n * (2 ^ (52 - k) * 2 ^ (k + 1022))" by (simp only: sg_def mult.assoc)
  also have "(2::nat) ^ (52 - k) * 2 ^ (k + 1022) = 2 ^ 1074" using k by (simp flip: power_add)
  finally show ?thesis by (simp only: n_def)
qed

lemma f64_mu_one: "f64_mu f64_one = 2 ^ 1074"
  by (simp only: f64_one_facts)

lemma f64_one_le_int:
  assumes "0 < n" and "n < 2 ^ 64"
  shows "f64_mag f64_one \<le> f64_mag (f64_of_int n)"
proof -
  have "f64_le f64_one (f64_of_int n)"
    using f64_of_int_pos [OF assms] f64_of_int_fin [of n] assms f64_one_facts(3)
    by (simp add: f64_le_def f64_fin_iff)
  then show ?thesis using f64_nonneg_order(1) f64_nonneg_of_int(1) [of n] assms f64_nonneg_consts(2) by simp
qed

lemma f64_of_int_0: "f64_of_int 0 = 0"
  by (simp add: f64_of_int_def f64_nat_bits_def)

lemma f64_div_0: "f64_fin b \<Longrightarrow> f64_mag b \<noteq> 0 \<Longrightarrow> f64_mag (f64_div 0 b) = 0"
proof -
  assume b: "f64_fin b" "f64_mag b \<noteq> 0"
  have z: "\<not> f64_is_nan 0" "\<not> f64_is_inf 0" "f64_zero 0" using f64_zero_facts by (simp_all add: f64_fin_iff f64_zero_def)
  have "f64_div 0 b = f64_make (f64_neg 0 \<noteq> f64_neg b) (mag_of 0 (f64_mu b))"
    using b z f64_zero_facts(1) by (simp only: f64_div_def Let_def f64_fin_iff f64_zero_def mag_units_0) simp
  then show ?thesis by (simp only: f64_make_simps mag_of_0)
qed

text \<open>Every multiple of a small enough power of two by a 53-bit number is a double.\<close>

lemma mag_units_split: "f < 2 ^ 52 \<Longrightarrow> 0 < e \<Longrightarrow> mag_units (e * 2 ^ 52 + f) = (2 ^ 52 + f) * 2 ^ (e - 1)"
proof -
  assume f: "f < 2 ^ 52" and e: "0 < e"
  have g: "(e * q + f) div q = e" "(e * q + f) mod q = f" if "f < q" for q :: nat
    using that by simp_all
  show ?thesis unfolding mag_units_def Let_def g [OF f] using e by simp
qed

lemma representable:
  assumes "n < 2 ^ 53" and "52 \<le> j" and "j \<le> 2000"
  obtains m where "m < inf_mag" and "mag_units m = n * 2 ^ j"
proof (cases "n = 0")
  case True
  then show thesis by (intro that [of 0]) (simp_all add: inf_mag_def)
next
  case False
  define k where "k = top_bit n"
  have k: "k \<le> 52" using top_bit_less [of n 53] False assms(1) by (simp add: k_def)
  define sg where "sg = n * 2 ^ (52 - k)"
  have sg: "2 ^ 52 \<le> sg" "sg < 2 ^ 53" using sig_bounds [of n] False k by (simp_all add: sg_def k_def)
  define e where "e = Suc (j - (52 - k))"
  have f: "sg - 2 ^ 52 < 2 ^ 52" using sg by simp
  have "(2 ^ 52 + (sg - 2 ^ 52)) * 2 ^ (e - 1) = n * (2 ^ (52 - k) * 2 ^ (j - (52 - k)))"
    using sg(1) by (simp only: le_add_diff_inverse sg_def e_def mult.assoc) simp
  also have "\<dots> = n * 2 ^ j" using assms(2) k by (simp flip: power_add)
  finally have "mag_units (e * 2 ^ 52 + (sg - 2 ^ 52)) = n * 2 ^ j"
    by (subst mag_units_split [OF f]) (simp_all add: e_def)
  moreover have "e * 2 ^ 52 + (sg - 2 ^ 52) < inf_mag"
  proof -
    have "e * 2 ^ 52 \<le> 2001 * 2 ^ 52" using assms(3) by (intro mult_le_mono1) (simp add: e_def)
    with f show ?thesis by (simp add: inf_mag_def)
  qed
  ultimately show thesis by (rule that [rotated])
qed

section \<open>Signed 64-bit integers and durations\<close>

text \<open>
  \<^verbatim>\<open>int64\<close> and \<^verbatim>\<open>time.Duration\<close> are integers between \<open>- 2 ^ 63\<close> and \<open>2 ^ 63 - 1\<close> whose
  arithmetic wraps around. An instant is a number of nanoseconds of the monotonic clock, and the
  difference of two instants saturates (\<^verbatim>\<open>Time.Sub\<close>).
\<close>

definition wrap64 :: "int \<Rightarrow> int" where
  "wrap64 x = (x + 2 ^ 63) mod 2 ^ 64 - 2 ^ 63"

definition Sub_time :: "int \<Rightarrow> int \<Rightarrow> int" where
  "Sub_time t u = max (- (2 ^ 63)) (min (2 ^ 63 - 1) (t - u))"

lemma wrap64_id [simp]: "- (2 ^ 63) \<le> x \<Longrightarrow> x < 2 ^ 63 \<Longrightarrow> wrap64 x = x"
  by (simp add: wrap64_def)

lemma wrap64_range: "- (2 ^ 63) \<le> wrap64 x" "wrap64 x < 2 ^ 63"
proof -
  have "0 \<le> (x + 2 ^ 63) mod 2 ^ 64" "(x + 2 ^ 63) mod 2 ^ 64 < 2 ^ 64"
    by (rule pos_mod_sign, simp, rule pos_mod_bound, simp)
  then show "- (2 ^ 63) \<le> wrap64 x" "wrap64 x < 2 ^ 63" unfolding wrap64_def by simp_all
qed

lemma Sub_time_id [simp]: "\<bar>t - u\<bar> < 2 ^ 63 \<Longrightarrow> Sub_time t u = t - u"
  unfolding Sub_time_def by linarith

text \<open>
  The conversion of a float to \<^verbatim>\<open>int64\<close> truncates; what it gives for a number out of range is left to
  the implementation and is the argument \<open>oor\<close> here.
\<close>

definition f64_to_int64 :: "(float64 \<Rightarrow> int) \<Rightarrow> float64 \<Rightarrow> int" where
  "f64_to_int64 oor a =
     (let n = int (f64_mu a div 2 ^ 1074); i = (if f64_neg a then - n else n)
      in if f64_fin a \<and> - (2 ^ 63) \<le> i \<and> i < 2 ^ 63 then i else oor a)"

lemma f64_to_int64_nonneg:
  assumes "f64_nonneg a" and "f64_fin a" and "f64_mu a < 2 ^ 63 * 2 ^ 1074"
  shows "f64_to_int64 oor a = int (f64_mu a div 2 ^ 1074)"
proof -
  define n where "n = f64_mu a div 2 ^ 1074"
  have "n < 2 ^ 63" unfolding n_def using assms(3) by (simp only: div_less_iff_less_mult zero_less_power zero_less_numeral)
  moreover have "f64_neg a \<Longrightarrow> n = 0" using assms(1) by (simp add: f64_nonneg_iff n_def)
  ultimately show ?thesis using assms(2) unfolding f64_to_int64_def n_def [symmetric] by (auto simp: Let_def)
qed

end
