(* ===== verification/E116_Ept.thy ===== *)
theory E116_Ept
  imports Go_Arith
begin

text \<open>
  Equipment performance tracking, SEMI E116 (\<^verbatim>\<open>pkg/driver/gem/ept.go\<close>): the time spent in each
  performance state, the log of state changes, the unit counters, and the effectiveness figures
  computed from them in floating point. The clock is an argument of the operations that read it.
  The lemmas show that no time is lost or counted twice and that every figure is between 0 and 1.
\<close>

section \<open>States and the tracker\<close>

text \<open>\<^verbatim>\<open>EPTState\<close> is an integer type; a value that is none of the constants is an \<open>EPTOther\<close>.\<close>

datatype EPTState = EPTIdle | EPTBusy | EPTBlocked | EPTBusyAndBlocked | EPTStandbyScheduled
  | EPTStandbyUnscheduled | EPTEngScheduled | EPTEngUnscheduled | EPTDownScheduled
  | EPTDownUnscheduled | EPTNonScheduled | EPTOther int

fun EPTState_String :: "EPTState \<Rightarrow> string" where
  "EPTState_String EPTIdle = ''IDLE''"
| "EPTState_String EPTBusy = ''BUSY''"
| "EPTState_String EPTBlocked = ''BLOCKED''"
| "EPTState_String EPTBusyAndBlocked = ''BUSY_AND_BLOCKED''"
| "EPTState_String EPTStandbyScheduled = ''STANDBY_SCHEDULED''"
| "EPTState_String EPTStandbyUnscheduled = ''STANDBY_UNSCHEDULED''"
| "EPTState_String EPTEngScheduled = ''ENGINEERING_SCHEDULED''"
| "EPTState_String EPTEngUnscheduled = ''ENGINEERING_UNSCHEDULED''"
| "EPTState_String EPTDownScheduled = ''DOWN_SCHEDULED''"
| "EPTState_String EPTDownUnscheduled = ''DOWN_UNSCHEDULED''"
| "EPTState_String EPTNonScheduled = ''NON_SCHEDULED''"
| "EPTState_String (EPTOther _) = ''UNKNOWN''"

definition isProductive :: "EPTState \<Rightarrow> bool" where
  "isProductive s \<longleftrightarrow> s = EPTBusy \<or> s = EPTBusyAndBlocked"

definition isAvailable :: "EPTState \<Rightarrow> bool" where
  "isAvailable s \<longleftrightarrow> s = EPTIdle \<or> s = EPTBusy \<or> s = EPTBlocked \<or> s = EPTBusyAndBlocked"

record EPTTransition =
  et_Time :: int
  et_From :: EPTState
  et_To :: EPTState

text \<open>\<open>ept_notified\<close> records the calls of the change callback, when one is set.\<close>

record EPTTracker =
  ept_state :: EPTState
  ept_stateStart :: int
  ept_durations :: "(EPTState, int) gomap"
  ept_transitions :: "EPTTransition list"
  ept_unitCount :: int
  ept_defectCount :: int
  ept_onChange :: bool
  ept_notified :: "(EPTState \<times> EPTState) list"

definition NewEPTTracker :: "int \<Rightarrow> EPTTracker" where
  "NewEPTTracker now =
     \<lparr>ept_state = EPTNonScheduled, ept_stateStart = now, ept_durations = [], ept_transitions = [],
      ept_unitCount = 0, ept_defectCount = 0, ept_onChange = False, ept_notified = []\<rparr>"

definition ept_OnStateChange :: "bool \<Rightarrow> EPTTracker \<Rightarrow> EPTTracker" where
  "ept_OnStateChange fn t = t\<lparr>ept_onChange := fn\<rparr>"

text \<open>A missing key of a Go map reads as zero; \<^verbatim>\<open>m[k] += d\<close>.\<close>

definition dur :: "(EPTState, int) gomap \<Rightarrow> EPTState \<Rightarrow> int" where
  "dur ds k = (case map_of ds k of None \<Rightarrow> 0 | Some d \<Rightarrow> d)"

definition add_dur :: "EPTState \<Rightarrow> int \<Rightarrow> (EPTState, int) gomap \<Rightarrow> (EPTState, int) gomap" where
  "add_dur k d ds = AList.update k (wrap64 (dur ds k + d)) ds"

definition ept_SetState :: "int \<Rightarrow> EPTState \<Rightarrow> EPTTracker \<Rightarrow> EPTTracker" where
  "ept_SetState now newState t =
     (if newState = ept_state t then t
      else
        let elapsed = Sub_time now (ept_stateStart t);
            oldState = ept_state t
        in t\<lparr>ept_durations := add_dur oldState elapsed (ept_durations t),
             ept_transitions := ept_transitions t @ [\<lparr>et_Time = now, et_From = oldState, et_To = newState\<rparr>],
             ept_state := newState,
             ept_stateStart := now,
             ept_notified := ept_notified t @ (if ept_onChange t then [(oldState, newState)] else [])\<rparr>)"

definition RecordUnit :: "bool \<Rightarrow> EPTTracker \<Rightarrow> EPTTracker" where
  "RecordUnit defective t =
     t\<lparr>ept_unitCount := wrap64 (ept_unitCount t + 1),
       ept_defectCount := (if defective then wrap64 (ept_defectCount t + 1) else ept_defectCount t)\<rparr>"

definition StateDurations :: "int \<Rightarrow> EPTTracker \<Rightarrow> (EPTState, int) gomap" where
  "StateDurations now t = add_dur (ept_state t) (Sub_time now (ept_stateStart t)) (ept_durations t)"

text \<open>The sum over a map, in the order of the iteration.\<close>

definition dur_sum ::
  "(EPTState list \<Rightarrow> EPTState list) \<Rightarrow> (EPTState \<Rightarrow> bool) \<Rightarrow> (EPTState, int) gomap \<Rightarrow> int" where
  "dur_sum ord P ds = fold (\<lambda>k acc. if P k then wrap64 (acc + dur ds k) else acc) (ord (map fst ds)) 0"

record oee_figures =
  fig_availability :: float64
  fig_performance :: float64
  fig_quality :: float64
  fig_oee :: float64

definition OEE :: "(EPTState list \<Rightarrow> EPTState list) \<Rightarrow> int \<Rightarrow> EPTTracker \<Rightarrow> oee_figures" where
  "OEE ord now t =
     (let durations = StateDurations now t;
          totalTime = dur_sum ord (\<lambda>_. True) durations;
          availableTime = dur_sum ord isAvailable durations;
          productiveTime = dur_sum ord isProductive durations;
          scheduledTime = wrap64 (totalTime - dur durations EPTNonScheduled)
      in if scheduledTime \<le> 0
         then \<lparr>fig_availability = 0, fig_performance = 0, fig_quality = 0, fig_oee = 0\<rparr>
         else
           let availability = f64_div (f64_of_int availableTime) (f64_of_int scheduledTime);
               performance = (if availableTime > 0
                              then f64_div (f64_of_int productiveTime) (f64_of_int availableTime) else 0);
               quality = (if ept_unitCount t > 0
                          then f64_div (f64_of_int (wrap64 (ept_unitCount t - ept_defectCount t)))
                                 (f64_of_int (ept_unitCount t))
                          else f64_one)
           in \<lparr>fig_availability = availability, fig_performance = performance, fig_quality = quality,
               fig_oee = f64_mul (f64_mul availability performance) quality\<rparr>)"

definition UnitCounts :: "EPTTracker \<Rightarrow> int \<times> int" where
  "UnitCounts t = (ept_unitCount t, ept_defectCount t)"

definition ept_Reset :: "int \<Rightarrow> EPTTracker \<Rightarrow> EPTTracker" where
  "ept_Reset now t =
     t\<lparr>ept_state := EPTNonScheduled, ept_stateStart := now, ept_durations := [], ept_transitions := [],
       ept_unitCount := 0, ept_defectCount := 0\<rparr>"

section \<open>Runs\<close>

text \<open>
  The trackers a program reaches while its clock goes forward, less than \<open>2 ^ 63\<close> nanoseconds (292
  years) and units after the tracking began: \<open>ept_reach t0 t now\<close>, where \<open>t0\<close> is the time of the
  creation or of the last reset.
\<close>

inductive ept_reach :: "int \<Rightarrow> EPTTracker \<Rightarrow> int \<Rightarrow> bool" where
  new: "ept_reach t0 (NewEPTTracker t0) t0"
| tick: "ept_reach t0 t now \<Longrightarrow> now \<le> now' \<Longrightarrow> now' - t0 < 2 ^ 63 \<Longrightarrow> ept_reach t0 t now'"
| set_state: "ept_reach t0 t now \<Longrightarrow> ept_reach t0 (ept_SetState now s t) now"
| unit: "ept_reach t0 t now \<Longrightarrow> ept_unitCount t < 2 ^ 63 - 1 \<Longrightarrow> ept_reach t0 (RecordUnit d t) now"
| callback: "ept_reach t0 t now \<Longrightarrow> ept_reach t0 (ept_OnStateChange fn t) now"
| reset: "ept_reach t0 t now \<Longrightarrow> ept_reach now (ept_Reset now t) now"

section \<open>Sums over the map\<close>

definition dur_total :: "(EPTState \<Rightarrow> bool) \<Rightarrow> (EPTState, int) gomap \<Rightarrow> int" where
  "dur_total P ds = (\<Sum>k \<in> {k \<in> fst ` set ds. P k}. dur ds k)"

definition dur_ok :: "(EPTState, int) gomap \<Rightarrow> bool" where
  "dur_ok ds \<longleftrightarrow> distinct (map fst ds) \<and> (\<forall>k. 0 \<le> dur ds k)"

lemma dur_total_mono:
  assumes "dur_ok ds" and "\<And>k. P k \<Longrightarrow> Q k"
  shows "dur_total P ds \<le> dur_total Q ds"
  unfolding dur_total_def using assms by (intro sum_mono2) (auto simp: dur_ok_def)

lemma dur_total_nonneg: "dur_ok ds \<Longrightarrow> 0 \<le> dur_total P ds"
  unfolding dur_total_def by (intro sum_nonneg) (simp add: dur_ok_def)

lemma fold_sum_wrap:
  assumes "\<And>k. k \<in> set ks \<Longrightarrow> 0 \<le> g k" and "0 \<le> acc" and "acc + (\<Sum>k\<leftarrow>ks. if P k then g k else 0) < 2 ^ 63"
  shows "fold (\<lambda>k acc. if P k then wrap64 (acc + g k) else acc) ks acc =
           acc + (\<Sum>k\<leftarrow>ks. if P k then g k else (0::int))"
  using assms
proof (induction ks arbitrary: acc)
  case (Cons k ks)
  have "0 \<le> (\<Sum>k\<leftarrow>ks. if P k then g k else 0)" by (rule sum_list_nonneg) (use Cons.prems in auto)
  moreover from this have "P k \<Longrightarrow> wrap64 (acc + g k) = acc + g k"
    using Cons.prems(1) [of k] Cons.prems(2,3) by (intro wrap64_id) (simp_all split: if_splits)
  ultimately show ?case using Cons.prems Cons.IH [of "if P k then acc + g k else acc"]
    by (auto split: if_splits)
qed simp

lemma dur_sum_total:
  assumes "iteration_order ord" and "dur_ok ds" and "dur_total (\<lambda>_. True) ds < 2 ^ 63"
  shows "dur_sum ord P ds = dur_total P ds"
proof -
  let ?ks = "ord (map fst ds)"
  have ks: "distinct ?ks" "set ?ks = fst ` set ds"
    using iteration_orderD [OF assms(1)] assms(2) by (auto simp: dur_ok_def)
  have e: "(\<Sum>k\<leftarrow>?ks. if Q k then dur ds k else 0) = dur_total Q ds" for Q
    using ks by (simp add: sum_list_distinct_conv_sum_set dur_total_def sum.If_cases Int_def)
  have "dur_total P ds < 2 ^ 63" using dur_total_mono [OF assms(2), of P "\<lambda>_. True"] assms(3) by simp
  then show ?thesis
    unfolding dur_sum_def using assms(2) e [of P] by (subst fold_sum_wrap) (auto simp: dur_ok_def)
qed

lemma dur_add:
  "dur (add_dur k d ds) = (dur ds)(k := wrap64 (dur ds k + d))"
  "fst ` set (add_dur k d ds) = insert k (fst ` set ds)"
  "distinct (map fst ds) \<Longrightarrow> distinct (map fst (add_dur k d ds))"
  by (auto simp: dur_def add_dur_def update_conv' fun_eq_iff dom_update distinct_update)

lemma dur_absent: "k \<notin> fst ` set ds \<Longrightarrow> dur ds k = 0"
  by (auto simp: dur_def dest: map_of_SomeD split: option.split) (metis fst_conv image_eqI map_of_SomeD)

lemma dur_total_add:
  assumes "dur_ok ds" and "0 \<le> d" and "dur_total (\<lambda>_. True) ds + d < 2 ^ 63"
  shows "dur_total P (add_dur k d ds) = dur_total P ds + (if P k then d else 0)"
    and "dur_ok (add_dur k d ds)"
    and "dur (add_dur k d ds) = (dur ds)(k := dur ds k + d)"
proof -
  have "dur ds k \<le> dur_total (\<lambda>_. True) ds"
  proof (cases "k \<in> fst ` set ds")
    case True
    then have "(\<Sum>j \<in> {k}. dur ds j) \<le> dur_total (\<lambda>_. True) ds"
      unfolding dur_total_def using assms(1) by (intro sum_mono2) (auto simp: dur_ok_def)
    then show ?thesis by simp
  next
    case False
    then show ?thesis using dur_total_nonneg [OF assms(1)] by (simp add: dur_absent)
  qed
  moreover have "0 \<le> dur ds k" using assms(1) by (simp add: dur_ok_def)
  ultimately have w: "wrap64 (dur ds k + d) = dur ds k + d" using assms by (intro wrap64_id) simp_all
  show e: "dur (add_dur k d ds) = (dur ds)(k := dur ds k + d)" by (simp add: dur_add w)
  show "dur_ok (add_dur k d ds)" using assms(1,2) unfolding dur_ok_def e by (simp add: dur_add(3))
  let ?K = "{j \<in> insert k (fst ` set ds). P j}"
  have "dur_total P ds = (\<Sum>j \<in> ?K. dur ds j)"
    unfolding dur_total_def by (rule sum.mono_neutral_left) (use dur_absent in fastforce)+
  moreover have "(\<Sum>j \<in> ?K. ((dur ds)(k := dur ds k + d)) j) = (\<Sum>j \<in> ?K. dur ds j) + (if P k then d else 0)"
  proof (cases "P k")
    case True
    then have k: "k \<in> ?K" and f: "finite ?K" by simp_all
    show ?thesis using True
      unfolding sum.remove [OF f k] by (auto intro!: sum.cong)
  next
    case False
    then show ?thesis by (auto intro!: sum.cong)
  qed
  ultimately show "dur_total P (add_dur k d ds) = dur_total P ds + (if P k then d else 0)"
    by (simp only: dur_total_def e dur_add(2))
qed

lemma dur_total_except: "dur_total (\<lambda>_. True) ds = dur_total (\<lambda>k. k \<noteq> s) ds + dur ds s"
proof (cases "s \<in> fst ` set ds")
  case True
  have "{k \<in> fst ` set ds. k \<noteq> s} = fst ` set ds - {s}" by auto
  then show ?thesis using True by (simp add: dur_total_def sum.remove [OF _ True])
next
  case False
  then have "{k \<in> fst ` set ds. k \<noteq> s} = fst ` set ds" by auto
  then show ?thesis using False by (simp add: dur_total_def dur_absent)
qed

section \<open>No time is lost\<close>

text \<open>The logged changes lead from \<open>s\<close> to \<open>s'\<close>.\<close>

fun ept_path :: "EPTState \<Rightarrow> EPTTransition list \<Rightarrow> EPTState \<Rightarrow> bool" where
  "ept_path s [] s' \<longleftrightarrow> s = s'"
| "ept_path s (tr # trs) s' \<longleftrightarrow> et_From tr = s \<and> et_To tr \<noteq> s \<and> ept_path (et_To tr) trs s'"

lemma ept_path_append: "ept_path s (trs @ [tr]) s' \<longleftrightarrow> ept_path s trs (et_From tr) \<and> et_To tr \<noteq> et_From tr \<and> et_To tr = s'"
  by (induction trs arbitrary: s) auto

definition ept_inv :: "int \<Rightarrow> EPTTracker \<Rightarrow> int \<Rightarrow> bool" where
  "ept_inv t0 t now \<longleftrightarrow>
     dur_ok (ept_durations t) \<and> t0 \<le> ept_stateStart t \<and> ept_stateStart t \<le> now \<and> now - t0 < 2 ^ 63 \<and>
     dur_total (\<lambda>_. True) (ept_durations t) = ept_stateStart t - t0 \<and>
     0 \<le> ept_defectCount t \<and> ept_defectCount t \<le> ept_unitCount t \<and> ept_unitCount t < 2 ^ 63 \<and>
     ept_path EPTNonScheduled (ept_transitions t) (ept_state t)"

lemma ept_reach_inv: "ept_reach t0 t now \<Longrightarrow> ept_inv t0 t now"
proof (induction rule: ept_reach.induct)
  case (new t0)
  show ?case by (simp add: ept_inv_def NewEPTTracker_def dur_ok_def dur_total_def dur_def)
next
  case (set_state t0 t now s)
  then have "dur_total (\<lambda>_. True) (ept_durations t) + (now - ept_stateStart t) < 2 ^ 63"
    by (simp add: ept_inv_def)
  then show ?case
    using set_state.IH dur_total_add [of "ept_durations t" "now - ept_stateStart t"]
    by (auto simp: ept_inv_def ept_SetState_def Let_def ept_path_append)
next
  case (reset t0 t now)
  then show ?case by (simp add: ept_inv_def ept_Reset_def dur_ok_def dur_total_def dur_def)
qed (auto simp: ept_inv_def RecordUnit_def ept_OnStateChange_def)

lemma StateDurations_total:
  assumes "ept_inv t0 t now"
  shows "dur_ok (StateDurations now t)" "dur_total (\<lambda>_. True) (StateDurations now t) = now - t0"
proof -
  have "Sub_time now (ept_stateStart t) = now - ept_stateStart t" "0 \<le> now - ept_stateStart t"
    "dur_total (\<lambda>_. True) (ept_durations t) + (now - ept_stateStart t) < 2 ^ 63"
    using assms by (auto simp: ept_inv_def)
  with assms show "dur_ok (StateDurations now t)" "dur_total (\<lambda>_. True) (StateDurations now t) = now - t0"
    by (simp_all add: StateDurations_def dur_total_add ept_inv_def)
qed

text \<open>Time accounting: at every moment of every run the durations reported for the states are not
  negative, there is one entry per state, and they add up to exactly the time since the tracking
  began; the logged changes lead from NON_SCHEDULED to the present state.
\<close>

theorem ept_time_accounted:
  assumes "ept_reach t0 t now"
  shows "distinct (map fst (StateDurations now t)) \<and>
         (\<forall>(s, d) \<in> set (StateDurations now t). 0 \<le> d) \<and>
         (\<Sum>(s, d) \<leftarrow> StateDurations now t. d) = now - t0 \<and>
         ept_path EPTNonScheduled (ept_transitions t) (ept_state t)"
proof -
  let ?ds = "StateDurations now t"
  note inv = ept_reach_inv [OF assms]
  note tot = StateDurations_total [OF inv]
  have d: "distinct (map fst ?ds)" using tot(1) by (simp add: dur_ok_def)
  have e: "d = dur ?ds s" if "(s, d) \<in> set ?ds" for s d
    using that d by (simp add: dur_def)
  have "(\<Sum>(s, d) \<leftarrow> ?ds. d) = (\<Sum>k \<leftarrow> map fst ?ds. dur ?ds k)"
    using e by (auto simp: comp_def intro!: arg_cong [where f = sum_list] map_cong)
  also have "\<dots> = now - t0"
    unfolding sum_list_distinct_conv_sum_set [OF d] using tot by (simp add: dur_total_def)
  finally show ?thesis using d e tot(1) inv by (auto simp: dur_ok_def ept_inv_def)
qed

section \<open>The figures are between 0 and 1\<close>

lemma unit_consts: "f64_unit 0" "f64_unit f64_one"
  by (simp_all add: f64_unit_def f64_le_def f64_zero_facts f64_one_facts f64_is_nan_def f64_key_def)

text \<open>C38. Bounds of the figures: in every run, whatever order the map is read in, availability, performance,
  quality and effectiveness are numbers between 0.0 and 1.0, as rounded by the machine.
\<close>

theorem oee_bounds:
  assumes "ept_reach t0 t now" and "iteration_order ord"
  shows "f64_unit (fig_availability (OEE ord now t)) \<and> f64_unit (fig_performance (OEE ord now t)) \<and>
         f64_unit (fig_quality (OEE ord now t)) \<and> f64_unit (fig_oee (OEE ord now t))"
proof -
  let ?ds = "StateDurations now t"
  note inv = ept_reach_inv [OF assms(1)]
  note tot = StateDurations_total [OF inv]
  have lt: "dur_total (\<lambda>_. True) ?ds < 2 ^ 63" using inv tot(2) by (simp add: ept_inv_def)
  note sums = dur_sum_total [OF assms(2) tot(1) lt]
  define T A P N where "T = dur_total (\<lambda>_. True) ?ds" and "A = dur_total isAvailable ?ds"
    and "P = dur_total isProductive ?ds" and "N = dur ?ds EPTNonScheduled"
  have PA: "0 \<le> P" "P \<le> A" "0 \<le> A"
    using tot(1) by (auto simp: P_def A_def isProductive_def isAvailable_def intro!: dur_total_nonneg dur_total_mono)
  have "A \<le> dur_total (\<lambda>k. k \<noteq> EPTNonScheduled) ?ds"
    unfolding A_def by (rule dur_total_mono [OF tot(1)]) (auto simp: isAvailable_def)
  moreover have "dur_total (\<lambda>k. k \<noteq> EPTNonScheduled) ?ds = T - N"
    using dur_total_except [of ?ds EPTNonScheduled] by (simp add: T_def N_def)
  ultimately have AT: "A \<le> T - N" by simp
  have "0 \<le> N" "0 \<le> T" using tot(1) dur_total_nonneg by (auto simp: N_def T_def dur_ok_def)
  with AT PA lt have w: "wrap64 (T - N) = T - N" "T - N < 2 ^ 63" by (auto simp: T_def [symmetric])
  define Q where "Q = (if ept_unitCount t > 0
      then f64_div (f64_of_int (wrap64 (ept_unitCount t - ept_defectCount t))) (f64_of_int (ept_unitCount t))
      else f64_one)"
  have q: "f64_unit Q"
    using inv by (auto simp: Q_def ept_inv_def unit_consts intro!: f64_div_unit)
  define p where "p = (if A > 0 then f64_div (f64_of_int P) (f64_of_int A) else 0)"
  have p: "f64_unit p" using PA AT w by (auto simp: p_def unit_consts intro!: f64_div_unit)
  have a: "f64_unit (f64_div (f64_of_int A) (f64_of_int (T - N)))" if "\<not> T - N \<le> 0"
    using that PA AT w by (intro f64_div_unit) simp_all
  show ?thesis
    unfolding OEE_def Let_def sums
    unfolding T_def [symmetric] A_def [symmetric] P_def [symmetric] N_def [symmetric] w
      Q_def [symmetric] p_def [symmetric]
    using a p q by (simp add: unit_consts f64_mul_unit)
qed

text \<open>A tracker that was idle for ten nanoseconds, busy for twenty, and made one bad unit.\<close>

definition ept_demo :: EPTTracker where
  "ept_demo = RecordUnit True (ept_SetState 10 EPTBusy (ept_SetState 0 EPTIdle (NewEPTTracker 0)))"

lemma ept_demo_reach: "ept_reach 0 ept_demo 30"
proof -
  have "ept_reach 0 (ept_SetState 0 EPTIdle (NewEPTTracker 0)) 10"
    by (rule tick [where now = 0], intro set_state new) simp_all
  then have "ept_reach 0 (ept_SetState 10 EPTBusy (ept_SetState 0 EPTIdle (NewEPTTracker 0))) 30"
    by (intro tick [where now = 10 and now' = 30] set_state) simp_all
  then show ?thesis unfolding ept_demo_def
    by (rule unit) (simp add: ept_SetState_def NewEPTTracker_def Let_def)
qed

theorem ept_time_accounted_witness:
  "(\<Sum>(s, d) \<leftarrow> StateDurations 30 ept_demo. d) = 30 \<and>
   dur (StateDurations 30 ept_demo) EPTIdle = 10 \<and> dur (StateDurations 30 ept_demo) EPTBusy = 20 \<and>
   ept_path EPTNonScheduled (ept_transitions ept_demo) EPTBusy"
  using ept_time_accounted [OF ept_demo_reach]
  by (simp add: ept_demo_def ept_SetState_def NewEPTTracker_def RecordUnit_def StateDurations_def Let_def
      add_dur_def dur_def)

theorem oee_bounds_witness: "f64_unit (fig_oee (OEE rev 30 ept_demo))"
  using oee_bounds [OF ept_demo_reach, of rev] by simp

end
