(* ===== verification/Modbus.thy ===== *)
theory Modbus
  imports Go_Prelude
begin

text \<open>
  The Modbus TCP client (\<^verbatim>\<open>pkg/transport/modbus\<close>): MBAP framing, the bit- and register-packing
  of the protocol, the exception check, and the client with its eight requests. The connection is
  the list of bytes that have arrived and not been read; what arrives before the deadline of a
  request is an argument of that request, so late and missing replies are inputs. A read that
  fails has consumed what was there, as \<^verbatim>\<open>io.ReadFull\<close> does. The lemmas give the round trips of the
  codecs, the result of each request against a reference device, and what happens to the client
  after a late reply.
\<close>

section \<open>Protocol\<close>

definition mbapHeaderLen :: nat where "mbapHeaderLen = 7"

definition fcReadCoils :: byte where "fcReadCoils = 0x01"
definition fcReadDiscreteInputs :: byte where "fcReadDiscreteInputs = 0x02"
definition fcReadHoldingRegisters :: byte where "fcReadHoldingRegisters = 0x03"
definition fcReadInputRegisters :: byte where "fcReadInputRegisters = 0x04"
definition fcWriteSingleCoil :: byte where "fcWriteSingleCoil = 0x05"
definition fcWriteSingleRegister :: byte where "fcWriteSingleRegister = 0x06"
definition fcWriteMultipleCoils :: byte where "fcWriteMultipleCoils = 0x0F"
definition fcWriteMultipleRegs :: byte where "fcWriteMultipleRegs = 0x10"

lemmas fc_defs = fcReadCoils_def fcReadDiscreteInputs_def fcReadHoldingRegisters_def
  fcReadInputRegisters_def fcWriteSingleCoil_def fcWriteSingleRegister_def fcWriteMultipleCoils_def
  fcWriteMultipleRegs_def

type_synonym ExceptionCode = byte

datatype modbus_error =
    MConnect
  | MNotConnected
  | MWrite
  | MReadHeader
  | MReadPDU
  | MProtocolID uint16
  | MLength uint16
  | MEmptyPDU
  | ModbusError byte ExceptionCode
  | MUnexpectedFunction byte byte
  | MTransactionMismatch uint16 uint16
  | MTooShort byte
  | MDataTooShort byte

definition encodeMBAP :: "uint16 \<Rightarrow> nat \<Rightarrow> byte \<Rightarrow> byte list" where
  "encodeMBAP txnID pduLen unitID =
     be_put 2 txnID @ be_put 2 (0 :: uint16) @ be_put 2 (word_of_nat (pduLen + 1) :: uint16) @ [unitID]"

text \<open>The first component is what is left of the connection's input.\<close>

definition readResponse ::
  "byte list \<Rightarrow> byte list \<times> (modbus_error, uint16 \<times> byte \<times> byte list) res" where
  "readResponse input =
     (if length input < mbapHeaderLen then ([], Err MReadHeader)
      else
        let header = take mbapHeaderLen input; rest = drop mbapHeaderLen input;
            txnID = be_get 2 header;
            protocolID = (be_get 2 (drop 2 header) :: uint16);
            len = (be_get 2 (drop 4 header) :: uint16);
            unitID = header ! 6
        in if protocolID \<noteq> 0 then (rest, Err (MProtocolID protocolID))
           else if len < 1 \<or> len > 260 then (rest, Err (MLength len))
           else
             let pduLen = unat len - 1
             in if pduLen \<le> 0 then (rest, OK (txnID, unitID, []))
                else if length rest < pduLen then ([], Err MReadPDU)
                else (drop pduLen rest, OK (txnID, unitID, take pduLen rest)))"

definition checkException :: "byte \<Rightarrow> byte list \<Rightarrow> (modbus_error, unit) res" where
  "checkException fc pdu =
     (if length pdu < 1 then Err MEmptyPDU
      else if pdu ! 0 AND 0x80 \<noteq> 0
      then Err (ModbusError fc (if length pdu > 1 then pdu ! 1 else 0))
      else if pdu ! 0 \<noteq> fc then Err (MUnexpectedFunction (pdu ! 0) fc)
      else OK ())"

definition decodeBools :: "byte list \<Rightarrow> nat \<Rightarrow> bool list" where
  "decodeBools data count =
     map (\<lambda>i. if i div 8 < length data then data ! (i div 8) AND push_bit (i mod 8) 1 \<noteq> 0 else False)
       [0..<count]"

definition decodeRegisters :: "byte list \<Rightarrow> uint16 list" where
  "decodeRegisters data = map (\<lambda>i. be_get 2 (drop (i * 2) data)) [0..<length data div 2]"

fun set_bits :: "nat \<Rightarrow> bool list \<Rightarrow> byte list \<Rightarrow> byte list" where
  "set_bits i [] data = data"
| "set_bits i (v # vs) data =
     set_bits (Suc i) vs
       (if v then data[i div 8 := data ! (i div 8) OR push_bit (i mod 8) 1] else data)"

definition encodeBools :: "bool list \<Rightarrow> byte list" where
  "encodeBools vals = set_bits 0 vals (replicate ((length vals + 7) div 8) 0)"

definition encodeRegisters :: "uint16 list \<Rightarrow> byte list" where
  "encodeRegisters vals = concat (map (be_put 2) vals)"

section \<open>Client\<close>

record MbConfig =
  mb_UnitID :: byte
  mb_Timeout :: int

record Client =
  mb_config :: MbConfig
  mb_conn :: "byte list option"
  mb_txnID :: uint16
  mb_written :: "byte list list"

definition NewClient :: "MbConfig \<Rightarrow> Client" where
  "NewClient cfg =
     (let cfg = (if mb_UnitID cfg = 0 then cfg\<lparr>mb_UnitID := 1\<rparr> else cfg);
          cfg = (if mb_Timeout cfg = 0 then cfg\<lparr>mb_Timeout := 5000000000\<rparr> else cfg)
      in \<lparr>mb_config = cfg, mb_conn = None, mb_txnID = 0, mb_written = []\<rparr>)"

definition mb_Connect :: "bool \<Rightarrow> Client \<Rightarrow> Client \<times> (modbus_error, unit) res" where
  "mb_Connect dial_ok c =
     (if \<not> dial_ok then (c, Err MConnect) else (c\<lparr>mb_conn := Some []\<rparr>, OK ()))"

definition mb_Close :: "Client \<Rightarrow> Client" where
  "mb_Close c = c\<lparr>mb_conn := None\<rparr>"

text \<open>\<open>write_ok\<close>: the connection takes the frame; \<open>arrived\<close>: the bytes that come in before the
  deadline.\<close>

definition sendRequest ::
  "bool \<Rightarrow> byte list \<Rightarrow> byte list \<Rightarrow> Client \<Rightarrow> Client \<times> (modbus_error, byte list) res" where
  "sendRequest write_ok arrived pdu c =
     (case mb_conn c of
        None \<Rightarrow> (c, Err MNotConnected)
      | Some input \<Rightarrow>
          let txnID = mb_txnID c + 1;
              c = c\<lparr>mb_txnID := txnID\<rparr>;
              frame = encodeMBAP txnID (length pdu) (mb_UnitID (mb_config c)) @ pdu
          in if \<not> write_ok then (c\<lparr>mb_conn := Some (input @ arrived)\<rparr>, Err MWrite)
             else
               let c = c\<lparr>mb_written := mb_written c @ [frame]\<rparr>
               in case readResponse (input @ arrived) of
                    (rest, r) \<Rightarrow>
                      (c\<lparr>mb_conn := Some rest\<rparr>,
                       bind_res r (\<lambda>(respTxnID, _, respPDU).
                         if respTxnID \<noteq> txnID then Err (MTransactionMismatch respTxnID txnID)
                         else OK respPDU)))"

text \<open>The part the four reads share: the request is a function code, an address and a quantity;
  the reply carries a byte count and that many bytes.\<close>

definition read_pdu :: "byte \<Rightarrow> uint16 \<Rightarrow> uint16 \<Rightarrow> byte list" where
  "read_pdu fc addr quantity = [fc] @ be_put 2 addr @ be_put 2 quantity"

definition read_data :: "byte \<Rightarrow> byte list \<Rightarrow> (modbus_error, byte list) res" where
  "read_data fc resp =
     bind_res (checkException fc resp) (\<lambda>_.
       if length resp < 2 then Err (MTooShort fc)
       else
         let byteCount = unat (resp ! 1)
         in if length resp < 2 + byteCount then Err (MDataTooShort fc)
            else OK (take byteCount (drop 2 resp)))"

definition ReadCoils ::
  "bool \<Rightarrow> byte list \<Rightarrow> uint16 \<Rightarrow> uint16 \<Rightarrow> Client \<Rightarrow> Client \<times> (modbus_error, bool list) res" where
  "ReadCoils write_ok arrived addr quantity c =
     (case sendRequest write_ok arrived (read_pdu fcReadCoils addr quantity) c of
        (c, r) \<Rightarrow> (c, bind_res r (\<lambda>resp. bind_res (read_data fcReadCoils resp) (\<lambda>d.
           OK (decodeBools d (unat quantity))))))"

definition ReadDiscreteInputs ::
  "bool \<Rightarrow> byte list \<Rightarrow> uint16 \<Rightarrow> uint16 \<Rightarrow> Client \<Rightarrow> Client \<times> (modbus_error, bool list) res" where
  "ReadDiscreteInputs write_ok arrived addr quantity c =
     (case sendRequest write_ok arrived (read_pdu fcReadDiscreteInputs addr quantity) c of
        (c, r) \<Rightarrow> (c, bind_res r (\<lambda>resp. bind_res (read_data fcReadDiscreteInputs resp) (\<lambda>d.
           OK (decodeBools d (unat quantity))))))"

definition ReadHoldingRegisters ::
  "bool \<Rightarrow> byte list \<Rightarrow> uint16 \<Rightarrow> uint16 \<Rightarrow> Client \<Rightarrow> Client \<times> (modbus_error, uint16 list) res" where
  "ReadHoldingRegisters write_ok arrived addr quantity c =
     (case sendRequest write_ok arrived (read_pdu fcReadHoldingRegisters addr quantity) c of
        (c, r) \<Rightarrow> (c, bind_res r (\<lambda>resp. bind_res (read_data fcReadHoldingRegisters resp) (\<lambda>d.
           OK (decodeRegisters d)))))"

definition ReadInputRegisters ::
  "bool \<Rightarrow> byte list \<Rightarrow> uint16 \<Rightarrow> uint16 \<Rightarrow> Client \<Rightarrow> Client \<times> (modbus_error, uint16 list) res" where
  "ReadInputRegisters write_ok arrived addr quantity c =
     (case sendRequest write_ok arrived (read_pdu fcReadInputRegisters addr quantity) c of
        (c, r) \<Rightarrow> (c, bind_res r (\<lambda>resp. bind_res (read_data fcReadInputRegisters resp) (\<lambda>d.
           OK (decodeRegisters d)))))"

definition WriteSingleCoil ::
  "bool \<Rightarrow> byte list \<Rightarrow> uint16 \<Rightarrow> bool \<Rightarrow> Client \<Rightarrow> Client \<times> (modbus_error, unit) res" where
  "WriteSingleCoil write_ok arrived addr v c =
     (case sendRequest write_ok arrived
             ([fcWriteSingleCoil] @ be_put 2 addr @ (if v then [0xFF, 0x00] else [0, 0])) c of
        (c, r) \<Rightarrow> (c, bind_res r (checkException fcWriteSingleCoil)))"

definition WriteSingleRegister ::
  "bool \<Rightarrow> byte list \<Rightarrow> uint16 \<Rightarrow> uint16 \<Rightarrow> Client \<Rightarrow> Client \<times> (modbus_error, unit) res" where
  "WriteSingleRegister write_ok arrived addr v c =
     (case sendRequest write_ok arrived ([fcWriteSingleRegister] @ be_put 2 addr @ be_put 2 v) c of
        (c, r) \<Rightarrow> (c, bind_res r (checkException fcWriteSingleRegister)))"

definition WriteMultipleCoils ::
  "bool \<Rightarrow> byte list \<Rightarrow> uint16 \<Rightarrow> bool list \<Rightarrow> Client \<Rightarrow> Client \<times> (modbus_error, unit) res" where
  "WriteMultipleCoils write_ok arrived addr vals c =
     (let data = encodeBools vals
      in case sendRequest write_ok arrived
                ([fcWriteMultipleCoils] @ be_put 2 addr @ be_put 2 (word_of_nat (length vals) :: uint16) @
                 [word_of_nat (length data)] @ data) c of
           (c, r) \<Rightarrow> (c, bind_res r (checkException fcWriteMultipleCoils)))"

definition WriteMultipleRegisters ::
  "bool \<Rightarrow> byte list \<Rightarrow> uint16 \<Rightarrow> uint16 list \<Rightarrow> Client \<Rightarrow> Client \<times> (modbus_error, unit) res" where
  "WriteMultipleRegisters write_ok arrived addr vals c =
     (let data = encodeRegisters vals
      in case sendRequest write_ok arrived
                ([fcWriteMultipleRegs] @ be_put 2 addr @ be_put 2 (word_of_nat (length vals) :: uint16) @
                 [word_of_nat (length data)] @ data) c of
           (c, r) \<Rightarrow> (c, bind_res r (checkException fcWriteMultipleRegs)))"

section \<open>Codecs\<close>

lemma length_set_bits [simp]: "length (set_bits i vs data) = length data"
  by (induction i vs data rule: set_bits.induct) auto

lemma bit_set_bits:
  assumes "(i + length vs + 7) div 8 \<le> length data" and "j < 8 * length data"
  shows "bit (set_bits i vs data ! (j div 8)) (j mod 8) \<longleftrightarrow>
     (if i \<le> j \<and> j < i + length vs \<and> vs ! (j - i) then True else bit (data ! (j div 8)) (j mod 8))"
  using assms
proof (induction i vs data rule: set_bits.induct)
  case (1 i data)
  then show ?case by auto
next
  case (2 i v vs data)
  let ?d = "if v then data[i div 8 := data ! (i div 8) OR push_bit (i mod 8) 1] else data"
  have i: "i div 8 < length data" using 2(2) by simp
  have d: "bit (?d ! (j div 8)) (j mod 8) \<longleftrightarrow> v \<and> j = i \<or> bit (data ! (j div 8)) (j mod 8)"
  proof (cases "j div 8 = i div 8")
    case True
    then have "j mod 8 = i mod 8 \<longleftrightarrow> j = i" by (metis div_mult_mod_eq)
    moreover have "bit (w OR push_bit m 1) n \<longleftrightarrow> bit w n \<or> m = n" if "n < 8" for w :: byte and m n
      using that by (auto simp: bit_or_iff push_bit_eq_mult bit_exp_iff)
    ultimately show ?thesis using i by (auto simp: True)
  next
    case False
    then have "j \<noteq> i" by auto
    with False show ?thesis by simp
  qed
  have "bit (set_bits i (v # vs) data ! (j div 8)) (j mod 8) \<longleftrightarrow>
      (Suc i \<le> j \<and> j < Suc i + length vs \<and> vs ! (j - Suc i)) \<or> v \<and> j = i \<or> bit (data ! (j div 8)) (j mod 8)"
    using 2 d by (simp del: set_bits.simps(1)) blast
  then show ?case
    by (cases "j = i") (auto simp: nth_Cons' Suc_le_eq)
qed

lemma decode_encodeBools: "decodeBools (encodeBools vs) (length vs) = vs"
proof (rule nth_equalityI)
  fix i assume "i < length (decodeBools (encodeBools vs) (length vs))"
  then have i: "i < length vs" by (simp add: decodeBools_def)
  let ?z = "replicate ((length vs + 7) div 8) (0 :: byte)"
  have "i div 8 < (length vs + 7) div 8" "i < 8 * ((length vs + 7) div 8)" using i by simp_all
  moreover from this have "bit (set_bits 0 vs ?z ! (i div 8)) (i mod 8) \<longleftrightarrow> vs ! i"
    using i by (subst bit_set_bits) simp_all
  ultimately show "decodeBools (encodeBools vs) (length vs) ! i = vs ! i"
    using i by (simp add: decodeBools_def encodeBools_def bit_iff_and_push_bit_not_eq_0)
qed (simp add: decodeBools_def)

lemma length_encodeBools [simp]: "length (encodeBools vs) = (length vs + 7) div 8"
  by (simp add: encodeBools_def)

lemma length_encodeRegisters [simp]: "length (encodeRegisters rs) = 2 * length rs"
  by (induction rs) (simp_all add: encodeRegisters_def)

lemma drop_encodeRegisters: "drop (i * 2) (encodeRegisters rs) = encodeRegisters (drop i rs)"
proof (induction rs arbitrary: i)
  case (Cons r rs)
  then show ?case by (cases i) (simp_all add: encodeRegisters_def)
qed (simp add: encodeRegisters_def)

lemma decode_encodeRegisters: "decodeRegisters (encodeRegisters rs) = rs"
proof (rule nth_equalityI)
  fix i assume "i < length (decodeRegisters (encodeRegisters rs))"
  then have i: "i < length rs" by (simp add: decodeRegisters_def)
  have "be_get 2 (drop (i * 2) (encodeRegisters rs)) = rs ! i"
    unfolding drop_encodeRegisters Cons_nth_drop_Suc [OF i, symmetric]
    by (simp add: encodeRegisters_def be_get_put)
  with i show "decodeRegisters (encodeRegisters rs) ! i = rs ! i" by (simp add: decodeRegisters_def)
qed (simp add: decodeRegisters_def)

section \<open>Framing\<close>

text \<open>A frame as the device sends it.\<close>

definition mb_frame :: "uint16 \<Rightarrow> byte \<Rightarrow> byte list \<Rightarrow> byte list" where
  "mb_frame txnID unitID pdu = encodeMBAP txnID (length pdu) unitID @ pdu"

lemma readResponse_frame:
  assumes "length pdu \<le> 259"
  shows "readResponse (mb_frame txnID unitID pdu @ rest) = (rest, OK (txnID, unitID, pdu))"
proof -
  let ?h = "encodeMBAP txnID (length pdu) unitID" and ?len = "word_of_nat (length pdu + 1) :: uint16"
  have len: "unat ?len = length pdu + 1"
    using assms by (subst unat_of_nat) simp
  have h: "length ?h = 7" "be_get 2 ?h = txnID" "(be_get 2 (drop 2 ?h) :: uint16) = 0"
    "(be_get 2 (drop 4 ?h) :: uint16) = ?len" "?h ! 6 = unitID"
    by (simp_all add: encodeMBAP_def be_get_put nth_append)
  have "\<not> (?len < 1 \<or> ?len > 260)" using len assms by (simp add: word_less_nat_alt)
  then show ?thesis
    using h len by (simp add: readResponse_def mb_frame_def mbapHeaderLen_def Let_def del: length_0_conv)
      (auto simp del: length_greater_0_conv)
qed

text \<open>The reply of a device to the next request of the client, and the client after a request.\<close>

definition mb_reply :: "Client \<Rightarrow> byte list \<Rightarrow> byte list" where
  "mb_reply c pdu = mb_frame (mb_txnID c + 1) (mb_UnitID (mb_config c)) pdu"

definition mb_data :: "byte \<Rightarrow> byte list \<Rightarrow> byte list" where
  "mb_data fc d = [fc, word_of_nat (length d)] @ d"

definition mb_sent :: "byte list \<Rightarrow> Client \<Rightarrow> Client" where
  "mb_sent pdu c = c\<lparr>mb_txnID := mb_txnID c + 1,
     mb_written := mb_written c @ [mb_frame (mb_txnID c + 1) (mb_UnitID (mb_config c)) pdu]\<rparr>"

lemma sendRequest_answered:
  assumes "mb_conn c = Some []" and "length reply \<le> 259"
  shows "sendRequest True (mb_reply c reply) pdu c = (mb_sent pdu c, OK reply)"
  using readResponse_frame [OF assms(2), of _ _ "[]"] assms(1)
  by (simp add: sendRequest_def Let_def mb_frame_def mb_reply_def mb_sent_def)

lemma read_data_reply:
  assumes "\<not> bit fc 7" and "length d \<le> 255"
  shows "read_data fc (mb_data fc d) = OK d"
proof -
  have "fc AND 0x80 = 0"
    using assms(1) bit_iff_and_push_bit_not_eq_0 [of fc 7] by simp
  moreover have "unat (word_of_nat (length d) :: byte) = length d" using assms(2) by (subst unat_of_nat) simp
  ultimately show ?thesis by (simp add: read_data_def checkException_def mb_data_def)
qed

lemma checkException_exception: "checkException fc [fc OR 0x80, code] = Err (ModbusError fc code)"
proof -
  have "(fc OR 0x80) AND 0x80 = (0x80 :: byte)" by (intro bit_word_eqI) (auto simp: bit_simps)
  then show ?thesis by (simp add: checkException_def)
qed

section \<open>Properties\<close>

text \<open>The packings are inverse: coils survive encodeBools and decodeBools, registers survive
  encodeRegisters and decodeRegisters, and a frame built by encodeMBAP is read back by
  readResponse, which leaves what follows on the connection.\<close>
theorem modbus_codecs_inverse:
  assumes "length pdu \<le> 259"
  shows "decodeBools (encodeBools vs) (length vs) = vs \<and> decodeRegisters (encodeRegisters rs) = rs \<and>
    readResponse (encodeMBAP txnID (length pdu) unitID @ pdu @ rest) = (rest, OK (txnID, unitID, pdu))"
  using decode_encodeBools decode_encodeRegisters readResponse_frame [OF assms] by (simp add: mb_frame_def)

theorem modbus_codecs_inverse_witness:
  "decodeBools (encodeBools [True, False, True]) 3 = [True, False, True] \<and>
   decodeRegisters (encodeRegisters [1, 0xBEEF]) = [1, 0xBEEF] \<and>
   readResponse (encodeMBAP 9 2 1 @ [3, 0] @ [7]) = ([7], OK (9, 1, [3, 0]))"
  using modbus_codecs_inverse [of "[3, 0]" "[True, False, True]" "[1, 0xBEEF]" 9 1 "[7]"]
  by (simp add: eval_nat_numeral)

text \<open>Reading from a device: on a connection with nothing unread, a device that answers with the values
  (at most 125 registers, at most 2000 coils) is read exactly, for all four kinds of read; the
  request frame carries the function code, address and quantity, and the connection is again
  without unread bytes.\<close>
theorem modbus_reads:
  assumes "mb_conn c = Some []" and "length rs \<le> 125" and "length bs \<le> 2000" and "unat q = length bs"
  shows "ReadHoldingRegisters True (mb_reply c (mb_data 3 (encodeRegisters rs))) a n c =
      (mb_sent ([3] @ be_put 2 a @ be_put 2 n) c, OK rs) \<and>
    ReadInputRegisters True (mb_reply c (mb_data 4 (encodeRegisters rs))) a n c =
      (mb_sent ([4] @ be_put 2 a @ be_put 2 n) c, OK rs) \<and>
    ReadCoils True (mb_reply c (mb_data 1 (encodeBools bs))) a q c =
      (mb_sent ([1] @ be_put 2 a @ be_put 2 q) c, OK bs) \<and>
    ReadDiscreteInputs True (mb_reply c (mb_data 2 (encodeBools bs))) a q c =
      (mb_sent ([2] @ be_put 2 a @ be_put 2 q) c, OK bs) \<and>
    mb_conn (mb_sent pdu c) = Some []"
proof -
  have d: "read_data fc (mb_data fc (encodeRegisters rs)) = OK (encodeRegisters rs)"
    "read_data fc (mb_data fc (encodeBools bs)) = OK (encodeBools bs)" if "fc \<in> {1, 2, 3, 4}" for fc
    using that read_data_reply [of fc "encodeRegisters rs"] read_data_reply [of fc "encodeBools bs"] assms(2,3)
    by (auto simp: bit_iff_odd)
  have l: "length (mb_data fc (encodeRegisters rs)) \<le> 259" "length (mb_data fc (encodeBools bs)) \<le> 259" for fc
    using assms(2,3) by (simp_all add: mb_data_def)
  note ans = sendRequest_answered [OF assms(1) l(1)] sendRequest_answered [OF assms(1) l(2)]
  show ?thesis
    using d ans decode_encodeBools [of bs] assms(1)
    by (simp add: ReadHoldingRegisters_def ReadInputRegisters_def ReadCoils_def ReadDiscreteInputs_def fc_defs
        read_pdu_def decode_encodeRegisters assms(4) mb_sent_def)
qed

definition mb_demo :: Client where
  "mb_demo = fst (mb_Connect True (NewClient \<lparr>mb_UnitID = 0, mb_Timeout = 0\<rparr>))"

theorem modbus_reads_witness:
  "ReadHoldingRegisters True (mb_reply mb_demo (mb_data 3 (encodeRegisters [7, 8]))) 100 2 mb_demo =
     (mb_sent ([3] @ be_put 2 (100 :: uint16) @ be_put 2 (2 :: uint16)) mb_demo, OK [7, 8]) \<and>
   ReadCoils True (mb_reply mb_demo (mb_data 1 (encodeBools [True]))) 100 1 mb_demo =
     (mb_sent ([1] @ be_put 2 (100 :: uint16) @ be_put 2 (1 :: uint16)) mb_demo, OK [True])"
proof -
  have "mb_conn mb_demo = Some []" by (simp add: mb_demo_def mb_Connect_def)
  from modbus_reads [OF this, of "[7, 8]" "[True]" 1 100 2] show ?thesis by simp
qed

lemma exception_replies:
  assumes "mb_conn c = Some []"
  shows "snd (ReadCoils True (mb_reply c [0x81, code]) a q c) = Err (ModbusError 1 code)"
    and "snd (ReadDiscreteInputs True (mb_reply c [0x82, code]) a q c) = Err (ModbusError 2 code)"
    and "snd (ReadHoldingRegisters True (mb_reply c [0x83, code]) a q c) = Err (ModbusError 3 code)"
    and "snd (ReadInputRegisters True (mb_reply c [0x84, code]) a q c) = Err (ModbusError 4 code)"
    and "snd (WriteSingleCoil True (mb_reply c [0x85, code]) a b c) = Err (ModbusError 5 code)"
    and "snd (WriteSingleRegister True (mb_reply c [0x86, code]) a q c) = Err (ModbusError 6 code)"
    and "snd (WriteMultipleCoils True (mb_reply c [0x8F, code]) a bs c) = Err (ModbusError 15 code)"
    and "snd (WriteMultipleRegisters True (mb_reply c [0x90, code]) a rs c) = Err (ModbusError 16 code)"
  using sendRequest_answered [OF assms, of "[_, code]"]
  by (simp_all add: ReadHoldingRegisters_def ReadInputRegisters_def ReadCoils_def ReadDiscreteInputs_def fc_defs
      WriteSingleCoil_def WriteSingleRegister_def WriteMultipleCoils_def WriteMultipleRegisters_def
      read_data_def checkException_def Let_def)

text \<open>What \<^const>\<open>readResponse\<close> accepts is exactly a frame.\<close>

lemma seven_bytes:
  "length h = 7 \<Longrightarrow> h = take 2 h @ take 2 (drop 2 h) @ take 2 (drop 4 h) @ [h ! 6]"
  by (auto simp: length_Suc_conv eval_nat_numeral)

lemma readResponse_OK:
  assumes "readResponse input = (rest, OK (txnID, unitID, pdu))"
  shows "input = mb_frame txnID unitID pdu @ rest \<and> length pdu \<le> 259"
proof -
  let ?h = "take 7 input" and ?r = "drop 7 input"
  let ?len = "be_get 2 (drop 4 ?h) :: uint16"
  have l: "7 \<le> length input" and p: "(be_get 2 (drop 2 ?h) :: uint16) = 0"
    and len: "1 \<le> unat ?len" "unat ?len \<le> 260"
    and t: "txnID = be_get 2 ?h" and u: "unitID = ?h ! 6"
    and body: "unat ?len - 1 \<le> length ?r" "pdu = take (unat ?len - 1) ?r" "rest = drop (unat ?len - 1) ?r"
    using assms
    by (auto simp: readResponse_def mbapHeaderLen_def Let_def word_less_nat_alt split: if_splits)
      (auto simp: le_Suc_eq)
  have "word_of_nat (length pdu + 1) = ?len" using body len(1) by simp
  moreover have "be_put 2 txnID = take 2 ?h" "be_put 2 (0 :: uint16) = take 2 (drop 2 ?h)"
    "be_put 2 ?len = take 2 (drop 4 ?h)"
    unfolding t p [symmetric] using l by (subst be_put_get; simp)+
  moreover have "?h = take 2 ?h @ take 2 (drop 2 ?h) @ take 2 (drop 4 ?h) @ [?h ! 6]"
    using l by (intro seven_bytes) simp
  ultimately have "encodeMBAP txnID (length pdu) unitID = ?h" by (simp add: encodeMBAP_def u)
  then have "mb_frame txnID unitID pdu @ rest = ?h @ pdu @ rest" by (simp add: mb_frame_def)
  also have "pdu @ rest = ?r" unfolding body(2,3) by (rule append_take_drop_id)
  finally have "mb_frame txnID unitID pdu @ rest = input" by simp
  with body len show ?thesis by simp
qed

text \<open>C36. A reply belongs to its request: when a request returns the body of a reply, the connection's input
  began with one whole frame that carries the transaction identifier of this request and this
  body, and exactly that frame was consumed.\<close>
theorem modbus_reply_matches:
  assumes "sendRequest write_ok arrived pdu c = (c', OK reply)"
  shows "\<exists>input rest u. mb_conn c = Some input \<and> mb_conn c' = Some rest \<and> mb_txnID c' = mb_txnID c + 1 \<and>
    input @ arrived = mb_frame (mb_txnID c') u reply @ rest \<and> length reply \<le> 259"
proof -
  obtain input where i: "mb_conn c = Some input" and w: "write_ok"
    using assms by (auto simp: sendRequest_def Let_def split: option.splits if_splits)
  obtain rest r where r: "readResponse (input @ arrived) = (rest, r)" by fastforce
  from assms i w r obtain u where "r = OK (mb_txnID c + 1, u, reply)" "mb_conn c' = Some rest"
    "mb_txnID c' = mb_txnID c + 1"
    by (auto simp: sendRequest_def Let_def bind_res_eq_OK split: if_splits)
  with readResponse_OK [of "input @ arrived" rest] r i show ?thesis by fastforce
qed

theorem modbus_reply_matches_witness:
  "\<exists>c'. sendRequest True (mb_reply mb_demo [6, 0]) [6, 1] mb_demo = (c', OK [6, 0]) \<and>
     mb_conn c' = Some [] \<and> mb_txnID c' = 1"
proof -
  have d: "mb_conn mb_demo = Some []" "mb_txnID mb_demo = 0"
    by (simp_all add: mb_demo_def mb_Connect_def NewClient_def Let_def)
  have s: "sendRequest True (mb_reply mb_demo [6, 0]) [6, 1] mb_demo = (mb_sent [6, 1] mb_demo, OK [6, 0])"
    by (rule sendRequest_answered [OF d(1)]) simp
  from modbus_reply_matches [OF s] d s show ?thesis by (auto simp: mb_sent_def)
qed

text \<open>
  A client whose peer answers every request promptly and correctly, while the reply to an earlier
  request that ran into its deadline is still unread.
\<close>

primrec prompt_requests :: "(byte list \<times> byte list) list \<Rightarrow> Client \<Rightarrow> (modbus_error, byte list) res list" where
  "prompt_requests [] c = []"
| "prompt_requests (rq # rqs) c =
     (case sendRequest True (mb_reply c (snd rq)) (fst rq) c of
        (c', r) \<Rightarrow> r # prompt_requests rqs c')"

text \<open>A late reply is never overcome: once the reply to the previous request is left unread on the
  connection, every later request fails with a transaction mismatch, although the device answers
  each of them promptly and correctly; the client reads one reply per request and never skips the
  stale one. Closing and connecting again gives a connection with nothing unread.\<close>
theorem modbus_late_reply:
  assumes "mb_conn c = Some (mb_frame (mb_txnID c) u late)" and "length late \<le> 259"
    and "\<forall>rq \<in> set rqs. length (snd rq) \<le> 259"
  shows "length (prompt_requests rqs c) = length rqs \<and>
    (\<forall>r \<in> set (prompt_requests rqs c). \<exists>k. r = Err (MTransactionMismatch k (k + 1))) \<and>
    mb_conn (fst (mb_Connect True (mb_Close c))) = Some []"
  using assms
proof (induction rqs arbitrary: c u late)
  case Nil
  then show ?case by (simp add: mb_Connect_def)
next
  case (Cons rq rqs)
  let ?c = "c\<lparr>mb_txnID := mb_txnID c + 1,
      mb_written := mb_written c @ [mb_frame (mb_txnID c + 1) (mb_UnitID (mb_config c)) (fst rq)],
      mb_conn := Some (mb_reply c (snd rq))\<rparr>"
  have s: "sendRequest True (mb_reply c (snd rq)) (fst rq) c =
      (?c, Err (MTransactionMismatch (mb_txnID c) (mb_txnID c + 1)))"
    using readResponse_frame [OF Cons.prems(2), of "mb_txnID c" u "mb_reply c (snd rq)"] Cons.prems(1)
    by (simp add: sendRequest_def Let_def mb_frame_def)
  have "length (prompt_requests rqs ?c) = length rqs \<and>
      (\<forall>r \<in> set (prompt_requests rqs ?c). \<exists>k. r = Err (MTransactionMismatch k (k + 1)))"
    using Cons.IH [of ?c "mb_UnitID (mb_config c)" "snd rq"] Cons.prems(3) by (simp add: mb_reply_def)
  with s show ?case by (auto simp: mb_Connect_def)
qed

theorem modbus_late_reply_witness:
  "prompt_requests [([3], [3, 0]), ([3], [3, 0])] (mb_demo\<lparr>mb_txnID := 5, mb_conn := Some (mb_frame 5 1 [3, 0])\<rparr>) \<noteq> [] \<and>
   list_all (\<lambda>r. \<exists>k. r = Err (MTransactionMismatch k (k + 1)))
     (prompt_requests [([3], [3, 0]), ([3], [3, 0])]
       (mb_demo\<lparr>mb_txnID := 5, mb_conn := Some (mb_frame 5 1 [3, 0])\<rparr>))"
proof -
  let ?c = "mb_demo\<lparr>mb_txnID := 5, mb_conn := Some (mb_frame 5 1 [3, 0])\<rparr>"
    and ?r = "[([3], [3, 0]), ([3], [3, 0])] :: (byte list \<times> byte list) list"
  have h: "mb_conn ?c = Some (mb_frame (mb_txnID ?c) 1 [3, 0])" "length [3, 0 :: byte] \<le> 259"
    "\<forall>rq \<in> set ?r. length (snd rq) \<le> 259" by simp_all
  from modbus_late_reply [OF h] have "length (prompt_requests ?r ?c) = 2" by simp
  then have "prompt_requests ?r ?c \<noteq> []" by fastforce
  with modbus_late_reply [OF h] show ?thesis unfolding list_all_iff by blast
qed

end
