(* ===== verification/Managed_Session.thy ===== *)
theory Managed_Session
  imports Hsms_Session Go_Arith
begin

text \<open>
  The reconnecting session (\<^verbatim>\<open>pkg/session/reconnect.go\<close>). First the reconnect loop on its own, with
  the exponential backoff computed in floating point and the outcomes of the environment as
  arguments; then the whole manager as an interleaving of its goroutines, of the callers of
  \<^verbatim>\<open>Start\<close> and \<^verbatim>\<open>Stop\<close>, and of the HSMS sessions it creates, which are those of the session theory.
\<close>

section \<open>Configuration and backoff\<close>

record ReconnectConfig =
  rc_InitialDelay :: int
  rc_MaxDelay :: int
  rc_Multiplier :: float64
  rc_MaxRetries :: int

definition DefaultReconnectConfig :: ReconnectConfig where
  "DefaultReconnectConfig =
     \<lparr>rc_InitialDelay = 10 * 1000000000, rc_MaxDelay = 5 * 60 * 1000000000,
      rc_Multiplier = f64_of_int 2, rc_MaxRetries = 0\<rparr>"

definition backoff :: "(float64 \<Rightarrow> int) \<Rightarrow> ReconnectConfig \<Rightarrow> int \<Rightarrow> int" where
  "backoff oor cfg delay =
     (let delay = f64_to_int64 oor (f64_mul (f64_of_int delay) (rc_Multiplier cfg))
      in if delay > rc_MaxDelay cfg then rc_MaxDelay cfg else delay)"

definition retries_exceeded :: "ReconnectConfig \<Rightarrow> nat \<Rightarrow> bool" where
  "retries_exceeded cfg attempt \<longleftrightarrow> rc_MaxRetries cfg > 0 \<and> int attempt > rc_MaxRetries cfg"

section \<open>The reconnect loop\<close>

text \<open>How the loop ends. The streams tell, for each attempt, whether the context is cancelled at the
  top of the loop, whether it is cancelled during the wait, and whether the connection succeeds.
  The delays the loop waits for are collected.\<close>

datatype loop_end = LoopCancelled | LoopExhausted | LoopConnected

record environment =
  env_top :: "nat \<Rightarrow> bool"
  env_wait :: "nat \<Rightarrow> bool"
  env_connect :: "nat \<Rightarrow> bool"

partial_function (option) reconnectLoop ::
  "(float64 \<Rightarrow> int) \<Rightarrow> ReconnectConfig \<Rightarrow> environment \<Rightarrow> nat \<Rightarrow> int \<Rightarrow> int list \<Rightarrow> (loop_end \<times> int list) option" where
  "reconnectLoop oor cfg env attempt delay waits =
     (if env_top env attempt then Some (LoopCancelled, waits)
      else if retries_exceeded cfg (Suc attempt) then Some (LoopExhausted, waits)
      else if env_wait env (Suc attempt) then Some (LoopCancelled, waits @ [delay])
      else if env_connect env (Suc attempt) then Some (LoopConnected, waits @ [delay])
      else reconnectLoop oor cfg env (Suc attempt) (backoff oor cfg delay) (waits @ [delay]))"

lemma backoff_le: "backoff oor cfg delay \<le> rc_MaxDelay cfg"
  by (simp add: backoff_def Let_def)

text \<open>With a multiplier between 1 and 512 and delays below \<open>2 ^ 53\<close> nanoseconds (104 days) the delay
  never shrinks, unless the cap is below it.\<close>

lemma backoff_grows:
  assumes "f64_nonneg (rc_Multiplier cfg)" and "f64_fin (rc_Multiplier cfg)"
    and "f64_mag f64_one \<le> f64_mag (rc_Multiplier cfg)" and "f64_mag (rc_Multiplier cfg) \<le> f64_mag (f64_of_int 512)"
    and "0 \<le> delay" and "delay < 2 ^ 53"
  shows "min delay (rc_MaxDelay cfg) \<le> backoff oor cfg delay"
proof -
  let ?m = "rc_Multiplier cfg" and ?d = "f64_of_int delay"
  have "\<bar>delay\<bar> < 2 ^ 64" using assms by simp
  then have d: "f64_nonneg ?d" "f64_fin ?d" using assms by (auto intro: f64_nonneg_of_int f64_of_int_fin)
  have mu: "f64_mu ?d = nat delay * 2 ^ 1074" using assms by (intro f64_mu_of_int)
  note p = f64_mul_nonneg [OF d(1) assms(1) d(2) assms(2)]
  define r where "r = f64_mul ?d ?m"
  have "f64_mu f64_one \<le> f64_mu ?m" using assms(2,3) f64_one_facts(3) by (simp only: f64_mu_mono)
  then have "f64_mu ?d * 2 ^ 1074 \<le> f64_mu ?d * f64_mu ?m" unfolding f64_mu_one by (rule mult_le_mono2)
  then have ge: "f64_mag ?d \<le> f64_mag r" unfolding r_def p(2) using d(2) unfolding f64_fin_def
    by (intro mag_of_ge) (simp_all only: zero_less_power zero_less_numeral)
  let ?b = "f64_of_int (2 ^ 62)"
  have c512: "f64_fin (f64_of_int 512)" "f64_mu (f64_of_int 512) = 512 * 2 ^ 1074"
    by (simp_all add: f64_of_int_fin f64_mu_of_int)
  have le: "f64_mag r \<le> 1085 * 2 ^ 52"
  proof -
    have "f64_mu ?m \<le> 512 * 2 ^ 1074"
      using assms(2,4) c512(1) unfolding c512(2) [symmetric] by (simp only: f64_mu_mono)
    moreover have "nat delay \<le> 2 ^ 53" using assms(5,6) by simp
    then have "f64_mu ?d \<le> 2 ^ 53 * 2 ^ 1074" unfolding mu by (rule mult_le_mono1)
    ultimately have "f64_mu ?d * f64_mu ?m \<le> (2 ^ 53 * 2 ^ 1074) * (512 * 2 ^ 1074)" by (intro mult_le_mono)
    also have "\<dots> = mag_units (1085 * 2 ^ 52) * 2 ^ 1074"
      using mag_units_split [of 0 1085] by simp
    finally show ?thesis unfolding r_def p(2)
      by (intro mag_of_le) (simp_all only: zero_less_power zero_less_numeral inf_mag_def, simp)
  qed
  have fin: "f64_fin r" using le by (simp add: f64_fin_def inf_mag_def)
  have "f64_mu r < 2 ^ 63 * 2 ^ 1074"
  proof -
    have "f64_mu r \<le> mag_units (1085 * 2 ^ 52)" using le fin by (simp add: mag_units_le f64_fin_def inf_mag_def)
    also have "mag_units (1085 * 2 ^ 52) < 2 ^ 63 * 2 ^ 1074" using mag_units_split [of 0 1085] by simp
    finally show ?thesis .
  qed
  then have t: "f64_to_int64 oor r = int (f64_mu r div 2 ^ 1074)"
    using p(1) fin unfolding r_def [symmetric] by (intro f64_to_int64_nonneg)
  have "f64_mu ?d \<le> f64_mu r" using ge d(2) fin by (simp only: f64_mu_mono)
  then have "f64_mu ?d div 2 ^ 1074 \<le> f64_mu r div 2 ^ 1074" by (rule div_le_mono)
  moreover have "f64_mu ?d div 2 ^ 1074 = nat delay" unfolding mu by simp
  ultimately have "delay \<le> f64_to_int64 oor r" unfolding t using assms(5) by linarith
  then show ?thesis by (auto simp: backoff_def Let_def r_def [symmetric])
qed

lemma backoff_doubles:
  assumes "rc_Multiplier cfg = f64_of_int 2" and "0 \<le> delay" and "delay < 2 ^ 52"
  shows "backoff oor cfg delay = min (2 * delay) (rc_MaxDelay cfg)"
proof -
  let ?d = "f64_of_int delay" and ?t = "f64_of_int 2" and ?e = "f64_of_int (2 * delay)"
  have "\<bar>delay\<bar> < 2 ^ 64" "\<bar>2 * delay\<bar> < 2 ^ 64" "delay < 2 ^ 53" "2 * delay < 2 ^ 53" using assms by simp_all
  then have d: "f64_nonneg ?d" "f64_fin ?d" "f64_mu ?d = nat delay * 2 ^ 1074"
    and e: "f64_nonneg ?e" "f64_fin ?e" "f64_mu ?e = nat (2 * delay) * 2 ^ 1074"
    using assms by (auto intro: f64_nonneg_of_int f64_of_int_fin simp del: power_numeral intro!: f64_mu_of_int)
  have two: "f64_nonneg ?t" "f64_fin ?t" "f64_mu ?t = 2 * 2 ^ 1074"
    using f64_mu_of_int [of 2] by (simp_all add: f64_nonneg_of_int(1) f64_of_int_fin)
  note p = f64_mul_nonneg [OF d(1) two(1) d(2) two(2)]
  have "f64_mag (f64_mul ?d ?t) = mag_of (f64_mu ?e) 1"
    unfolding p(2) two(3) d(3) e(3)
    using assms(2) by (intro mag_of_cong) (simp_all only: mult_ac nat_mult_distrib zero_less_power zero_less_numeral zero_less_one mult_1, simp)
  also have "\<dots> = f64_mag ?e" using e(2) unfolding f64_fin_def by (rule mag_of_exact)
  finally have m: "f64_mag (f64_mul ?d ?t) = f64_mag ?e" .
  have "f64_fin (f64_mul ?d ?t)" using e(2) by (simp add: f64_fin_def m)
  moreover have "f64_mu (f64_mul ?d ?t) = nat (2 * delay) * 2 ^ 1074" unfolding m e(3) ..
  moreover have "nat (2 * delay) * 2 ^ 1074 < 2 ^ 63 * 2 ^ 1074" using assms by (intro mult_less_mono1) simp_all
  ultimately have "f64_to_int64 oor (f64_mul ?d ?t) = int (nat (2 * delay) * 2 ^ 1074 div 2 ^ 1074)"
    using f64_to_int64_nonneg [OF p(1)] by simp
  also have "\<dots> = 2 * delay" using assms(2) by (simp only: div_mult_self_is_m zero_less_power zero_less_numeral)
  finally show ?thesis by (auto simp: backoff_def Let_def assms(1))
qed

text \<open>The reference for the loop: the delays of the first \<open>n\<close> attempts.\<close>

definition delays :: "(float64 \<Rightarrow> int) \<Rightarrow> ReconnectConfig \<Rightarrow> nat \<Rightarrow> int \<Rightarrow> int list" where
  "delays oor cfg n delay = map (\<lambda>i. (backoff oor cfg ^^ i) delay) [0..<n]"

lemma delays_Suc: "delays oor cfg (Suc n) delay = delay # delays oor cfg n (backoff oor cfg delay)"
  by (simp add: delays_def map_upt_Suc funpow_swap1 del: upt_Suc)

text \<open>The first attempt, counted from \<open>a\<close>, at which the loop stops by itself or is stopped.\<close>

definition stops_at :: "ReconnectConfig \<Rightarrow> environment \<Rightarrow> nat \<Rightarrow> bool" where
  "stops_at cfg env a \<longleftrightarrow> env_top env a \<or> retries_exceeded cfg (Suc a) \<or> env_wait env (Suc a) \<or> env_connect env (Suc a)"

definition end_at :: "ReconnectConfig \<Rightarrow> environment \<Rightarrow> nat \<Rightarrow> loop_end" where
  "end_at cfg env a =
     (if env_top env a then LoopCancelled
      else if retries_exceeded cfg (Suc a) then LoopExhausted
      else if env_wait env (Suc a) then LoopCancelled
      else LoopConnected)"

definition waited_at :: "ReconnectConfig \<Rightarrow> environment \<Rightarrow> nat \<Rightarrow> nat" where
  "waited_at cfg env a = (if env_top env a \<or> retries_exceeded cfg (Suc a) then a else Suc a)"

lemma reconnectLoop_stops:
  assumes "stops_at cfg env (a + n)" and "\<forall>i < n. \<not> stops_at cfg env (a + i)"
  shows "reconnectLoop oor cfg env a delay waits =
           Some (end_at cfg env (a + n), waits @ delays oor cfg (waited_at cfg env (a + n) - a) delay)"
  using assms
proof (induction n arbitrary: a delay waits)
  case 0
  then show ?case
    by (subst reconnectLoop.simps) (auto simp: stops_at_def end_at_def waited_at_def delays_def)
next
  case (Suc n)
  have go: "\<not> stops_at cfg env a" using Suc.prems(2) by fastforce
  have w: "waited_at cfg env (a + Suc n) - a = Suc (waited_at cfg env (a + Suc n) - Suc a)"
    by (auto simp: waited_at_def)
  have "\<forall>i < n. \<not> stops_at cfg env (Suc a + i)" using Suc.prems(2) by (metis add_Suc_shift Suc_less_eq)
  from Suc.IH [OF _ this, of "backoff oor cfg delay" "waits @ [delay]"] Suc.prems(1) go w
  show ?case
    by (subst reconnectLoop.simps) (simp add: stops_at_def delays_Suc)
qed

lemma first_stop:
  assumes "stops_at cfg env k"
  obtains n where "n \<le> k" "stops_at cfg env n" "\<forall>i < n. \<not> stops_at cfg env i"
  using assms exists_least_iff [of "stops_at cfg env"] by (metis not_le_imp_less linear)

lemma delays_bounded: "\<forall>d \<in> set (tl (delays oor cfg n delay)). d \<le> rc_MaxDelay cfg"
proof (cases n)
  case (Suc m)
  have "(backoff oor cfg ^^ i) (backoff oor cfg delay) \<le> rc_MaxDelay cfg" for i
    by (cases i) (simp_all add: backoff_le)
  then show ?thesis unfolding Suc delays_Suc by (auto simp: delays_def)
qed (simp add: delays_def)

lemma returns_stops: "reconnectLoop oor cfg env a delay waits = Some r \<Longrightarrow> \<exists>k. stops_at cfg env k"
  by (rule reconnectLoop.raw_induct [where P = "\<lambda>oor cfg env a delay waits r. \<exists>k. stops_at cfg env k", rotated])
    (assumption, fastforce simp: stops_at_def split: if_splits)

text \<open>C31. Termination of the reconnect loop. It returns exactly when at some attempt the context is
  cancelled, the connection succeeds or the retries are used up, so always when a maximum is set; it
  then ends for the first such reason, has waited at most the maximal number of times, first for the
  initial delay and then never for longer than the maximal delay. With unlimited retries, a peer
  that never answers and no cancellation it runs for ever.
\<close>

theorem reconnect_terminates:
  fixes oor cfg env
  defines "run \<equiv> reconnectLoop oor cfg env 0 (rc_InitialDelay cfg) []"
  shows "(run \<noteq> None \<longleftrightarrow> (\<exists>k. stops_at cfg env k)) \<and>
    (rc_MaxRetries cfg > 0 \<longrightarrow> (\<exists>e ws. run = Some (e, ws) \<and> int (length ws) \<le> rc_MaxRetries cfg)) \<and>
    (\<forall>e ws. run = Some (e, ws) \<longrightarrow>
       (\<exists>k. stops_at cfg env k \<and> (\<forall>i < k. \<not> stops_at cfg env i) \<and> e = end_at cfg env k \<and>
            ws = delays oor cfg (waited_at cfg env k) (rc_InitialDelay cfg)) \<and>
       (\<forall>d \<in> set (tl ws). d \<le> rc_MaxDelay cfg))"
proof -
  let ?ws = "\<lambda>k. delays oor cfg (waited_at cfg env k) (rc_InitialDelay cfg)"
  have ends: "\<exists>n \<le> k. run = Some (end_at cfg env n, ?ws n) \<and> stops_at cfg env n \<and> (\<forall>i < n. \<not> stops_at cfg env i)"
    if "stops_at cfg env k" for k
    using that
  proof (rule first_stop)
    fix n assume "n \<le> k" "stops_at cfg env n" "\<forall>i < n. \<not> stops_at cfg env i"
    then show ?thesis using reconnectLoop_stops [of cfg env 0 n oor "rc_InitialDelay cfg" "[]"]
      by (auto simp: run_def)
  qed
  have "run \<noteq> None \<longleftrightarrow> (\<exists>k. stops_at cfg env k)" using ends returns_stops unfolding run_def by fastforce
  moreover have "\<exists>e ws. run = Some (e, ws) \<and> int (length ws) \<le> rc_MaxRetries cfg" if pos: "rc_MaxRetries cfg > 0"
  proof -
    have "stops_at cfg env (nat (rc_MaxRetries cfg))" using pos by (simp add: stops_at_def retries_exceeded_def)
    then obtain n where n: "n \<le> nat (rc_MaxRetries cfg)" "run = Some (end_at cfg env n, ?ws n)"
      using ends by blast
    have "int (waited_at cfg env n) \<le> rc_MaxRetries cfg" using n(1) pos by (auto simp: waited_at_def retries_exceeded_def)
    with n(2) show ?thesis by (simp add: delays_def)
  qed
  moreover have "(\<exists>k. stops_at cfg env k \<and> (\<forall>i < k. \<not> stops_at cfg env i) \<and> e = end_at cfg env k \<and> ws = ?ws k) \<and>
      (\<forall>d \<in> set (tl ws). d \<le> rc_MaxDelay cfg)" if r: "run = Some (e, ws)" for e ws
  proof -
    obtain k where "stops_at cfg env k" using r returns_stops unfolding run_def by blast
    then obtain n where "run = Some (end_at cfg env n, ?ws n)" "stops_at cfg env n" "\<forall>i < n. \<not> stops_at cfg env i"
      using ends by blast
    with r delays_bounded show ?thesis by auto
  qed
  ultimately show ?thesis by blast
qed

text \<open>The default configuration against a peer that answers the seventh attempt.\<close>

definition slow_peer :: environment where
  "slow_peer = \<lparr>env_top = (\<lambda>_. False), env_wait = (\<lambda>_. False), env_connect = (\<lambda>k. k = 7)\<rparr>"

lemma default_stops: "stops_at DefaultReconnectConfig slow_peer k \<longleftrightarrow> k = 6"
  by (auto simp: stops_at_def slow_peer_def retries_exceeded_def DefaultReconnectConfig_def)

lemma default_backoff:
  "0 \<le> d \<Longrightarrow> d < 2 ^ 52 \<Longrightarrow> backoff oor DefaultReconnectConfig d = min (2 * d) 300000000000"
  using backoff_doubles [of DefaultReconnectConfig] by (simp add: DefaultReconnectConfig_def)

text \<open>What a conversion out of range gives on amd64.\<close>

definition amd64 :: "float64 \<Rightarrow> int" where "amd64 a = - (2 ^ 63)"

theorem reconnect_terminates_witness:
  "\<exists>ws. reconnectLoop amd64 DefaultReconnectConfig slow_peer 0 10000000000 [] = Some (LoopConnected, ws) \<and>
     map (\<lambda>d. d div 1000000000) ws = [10, 20, 40, 80, 160, 300, 300]"
proof -
  let ?run = "reconnectLoop amd64 DefaultReconnectConfig slow_peer 0 (rc_InitialDelay DefaultReconnectConfig) []"
  note t = reconnect_terminates [of amd64 DefaultReconnectConfig slow_peer]
  obtain e ws where r: "?run = Some (e, ws)" using t default_stops by auto
  with t have e: "e = end_at DefaultReconnectConfig slow_peer 6"
    and ws: "ws = delays amd64 DefaultReconnectConfig (waited_at DefaultReconnectConfig slow_peer 6) 10000000000"
    unfolding default_stops by (auto simp: DefaultReconnectConfig_def)
  have w: "waited_at DefaultReconnectConfig slow_peer 6 = 7" "e = LoopConnected"
    by (simp_all add: e waited_at_def end_at_def slow_peer_def retries_exceeded_def DefaultReconnectConfig_def)
  have "ws = [10000000000, 20000000000, 40000000000, 80000000000, 160000000000, 300000000000, 300000000000]"
    unfolding ws w(1) by (simp add: delays_def default_backoff upt_rec numeral_eq_Suc)
  with r w(2) show ?thesis by (simp add: DefaultReconnectConfig_def)
qed

section \<open>The manager\<close>

text \<open>
  The program counters of the goroutines. \<^verbatim>\<open>connect\<close> creates a session and calls its \<^verbatim>\<open>Connect\<close>,
  then \<^verbatim>\<open>Select\<close> in the active role, then publishes the session under the lock. \<open>PStart\<close> is a call
  of \<^verbatim>\<open>Start\<close> during its own connect; \<open>PTop\<close>, \<open>PWait\<close> and \<open>PConnect\<close> are the places of
  \<^verbatim>\<open>reconnectLoop\<close>, with the attempt and the delay; \<open>PMonitor\<close> is the top of \<^verbatim>\<open>monitorLoop\<close> and
  \<open>PWatch\<close> its \<^verbatim>\<open>select\<close> on a session.
\<close>

datatype connect_pc = CNew | CSelect nat | CPublish nat

datatype pc = PStart connect_pc | PTop nat int | PWait nat int | PConnect connect_pc nat int | PMonitor | PWatch nat

datatype callback = OnConnectCalled nat | OnDisconnectCalled

text \<open>
  \<open>mg_sessions\<close> are all session objects created so far; \<open>mg_session\<close> is the current one, by number.
  Every \<^verbatim>\<open>Start\<close> makes a context; \<open>mg_cancel\<close> is the one that \<^verbatim>\<open>Stop\<close> will cancel.
\<close>

record ManagedSession =
  mg_config :: Config
  mg_reconnCfg :: ReconnectConfig
  mg_sessions :: "Session list"
  mg_session :: "nat option"
  mg_onConnect :: bool
  mg_onDisconnect :: bool
  mg_callbacks :: "callback list"
  mg_cancel :: "nat option"
  mg_contexts :: nat
  mg_cancelled :: "nat list"
  mg_done :: bool
  mg_goroutines :: "(nat \<times> pc) list"

definition NewManagedSession :: "Config \<Rightarrow> ReconnectConfig \<Rightarrow> ManagedSession" where
  "NewManagedSession config reconnCfg =
     \<lparr>mg_config = config, mg_reconnCfg = reconnCfg, mg_sessions = [], mg_session = None,
      mg_onConnect = False, mg_onDisconnect = False, mg_callbacks = [], mg_cancel = None,
      mg_contexts = 0, mg_cancelled = [], mg_done = False, mg_goroutines = []\<rparr>"

definition mg_OnConnect :: "bool \<Rightarrow> ManagedSession \<Rightarrow> ManagedSession" where
  "mg_OnConnect fn m = m\<lparr>mg_onConnect := fn\<rparr>"

definition mg_OnDisconnect :: "bool \<Rightarrow> ManagedSession \<Rightarrow> ManagedSession" where
  "mg_OnDisconnect fn m = m\<lparr>mg_onDisconnect := fn\<rparr>"

definition new_context :: "pc \<Rightarrow> ManagedSession \<Rightarrow> ManagedSession" where
  "new_context p m =
     m\<lparr>mg_cancel := Some (mg_contexts m), mg_contexts := Suc (mg_contexts m),
       mg_goroutines := mg_goroutines m @ [(mg_contexts m, p)]\<rparr>"

definition mg_Start :: "ManagedSession \<Rightarrow> ManagedSession" where
  "mg_Start m = new_context (PStart CNew) m"

definition StartBackground :: "ManagedSession \<Rightarrow> ManagedSession" where
  "StartBackground m = new_context (PTop 0 (rc_InitialDelay (mg_reconnCfg m))) m"

text \<open>Closing the \<^verbatim>\<open>done\<close> channel a second time panics.\<close>

definition mg_Stop :: "ManagedSession \<Rightarrow> (hsms_error, ManagedSession) res" where
  "mg_Stop m =
     (let m = (case mg_cancel m of None \<Rightarrow> m | Some c \<Rightarrow> m\<lparr>mg_cancelled := c # mg_cancelled m\<rparr>);
          s = mg_session m;
          m = m\<lparr>mg_session := None\<rparr>
      in case s of
           Some n \<Rightarrow> OK (m\<lparr>mg_sessions := (mg_sessions m)[n := Close (mg_sessions m ! n)]\<rparr>)
         | None \<Rightarrow> if mg_done m then Panic else OK (m\<lparr>mg_done := True\<rparr>))"

definition mg_State :: "ManagedSession \<Rightarrow> State" where
  "mg_State m = (case mg_session m of None \<Rightarrow> StateDisconnected | Some n \<Rightarrow> ss_state (mg_sessions m ! n))"

text \<open>The three parts of \<^verbatim>\<open>connect\<close>; \<open>None\<close> means that it returns an error.\<close>

definition connect_new :: "bool \<Rightarrow> bool \<Rightarrow> ip \<Rightarrow> ManagedSession \<Rightarrow> ManagedSession \<times> connect_pc option" where
  "connect_new net_ok tls_ok peer m =
     (case Connect net_ok tls_ok peer (NewSession (mg_config m)) of
        (s, r) \<Rightarrow>
          (m\<lparr>mg_sessions := mg_sessions m @ [s]\<rparr>,
           case r of
             OK _ \<Rightarrow> Some (if cfg_Role (mg_config m) = RoleActive then CSelect (length (mg_sessions m))
                           else CPublish (length (mg_sessions m)))
           | _ \<Rightarrow> None))"

definition connect_select :: "bool \<Rightarrow> nat \<Rightarrow> ManagedSession \<Rightarrow> ManagedSession \<times> connect_pc option" where
  "connect_select ok n m =
     (if ok then (m, Some (CPublish n))
      else (m\<lparr>mg_sessions := (mg_sessions m)[n := Close (mg_sessions m ! n)]\<rparr>, None))"

definition connect_publish :: "nat \<Rightarrow> ManagedSession \<Rightarrow> ManagedSession" where
  "connect_publish n m =
     m\<lparr>mg_session := Some n,
       mg_callbacks := mg_callbacks m @ (if mg_onConnect m then [OnConnectCalled n] else [])\<rparr>"

definition disconnected :: "ManagedSession \<Rightarrow> ManagedSession" where
  "disconnected m =
     m\<lparr>mg_session := None,
       mg_callbacks := mg_callbacks m @ (if mg_onDisconnect m then [OnDisconnectCalled] else [])\<rparr>"

text \<open>
  One step of a goroutine with context \<open>c\<close>: the new state and what it becomes, \<open>None\<close> when it
  returns. A \<^verbatim>\<open>select\<close> with several ready cases takes any of them. When the reconnect loop succeeds
  it starts a monitor and returns, and the monitor calls the reconnect loop and returns, so that a
  goroutine always has one successor.
\<close>

inductive goroutine_step ::
  "(float64 \<Rightarrow> int) \<Rightarrow> nat \<Rightarrow> ManagedSession \<Rightarrow> pc \<Rightarrow> ManagedSession \<Rightarrow> pc option \<Rightarrow> bool" for oor c where
  start_new: "connect_new net tls peer m = (m', r) \<Longrightarrow> goroutine_step oor c m (PStart CNew) m'
    (Some (case r of None \<Rightarrow> PTop 0 (rc_InitialDelay (mg_reconnCfg m)) | Some k \<Rightarrow> PStart k))"
| start_select: "connect_select ok n m = (m', r) \<Longrightarrow> goroutine_step oor c m (PStart (CSelect n)) m'
    (Some (case r of None \<Rightarrow> PTop 0 (rc_InitialDelay (mg_reconnCfg m)) | Some k \<Rightarrow> PStart k))"
| start_publish: "goroutine_step oor c m (PStart (CPublish n)) (connect_publish n m) (Some PMonitor)"
| top_cancelled: "c \<in> set (mg_cancelled m) \<Longrightarrow> goroutine_step oor c m (PTop a d) m None"
| top_exceeded: "c \<notin> set (mg_cancelled m) \<Longrightarrow> retries_exceeded (mg_reconnCfg m) (Suc a) \<Longrightarrow>
    goroutine_step oor c m (PTop a d) m None"
| top_waits: "c \<notin> set (mg_cancelled m) \<Longrightarrow> \<not> retries_exceeded (mg_reconnCfg m) (Suc a) \<Longrightarrow>
    goroutine_step oor c m (PTop a d) m (Some (PWait (Suc a) d))"
| wait_cancelled: "c \<in> set (mg_cancelled m) \<Longrightarrow> goroutine_step oor c m (PWait a d) m None"
| wait_timer: "goroutine_step oor c m (PWait a d) m (Some (PConnect CNew a d))"
| reconnect_new: "connect_new net tls peer m = (m', r) \<Longrightarrow> goroutine_step oor c m (PConnect CNew a d) m'
    (Some (case r of None \<Rightarrow> PTop a (backoff oor (mg_reconnCfg m) d) | Some k \<Rightarrow> PConnect k a d))"
| reconnect_select: "connect_select ok n m = (m', r) \<Longrightarrow> goroutine_step oor c m (PConnect (CSelect n) a d) m'
    (Some (case r of None \<Rightarrow> PTop a (backoff oor (mg_reconnCfg m) d) | Some k \<Rightarrow> PConnect k a d))"
| reconnect_publish: "goroutine_step oor c m (PConnect (CPublish n) a d) (connect_publish n m) (Some PMonitor)"
| monitor_gone: "mg_session m = None \<Longrightarrow> goroutine_step oor c m PMonitor m None"
| monitor_watch: "mg_session m = Some n \<Longrightarrow> goroutine_step oor c m PMonitor m (Some (PWatch n))"
| watch_cancelled: "c \<in> set (mg_cancelled m) \<Longrightarrow> goroutine_step oor c m (PWatch n) m None"
| watch_lost: "ss_done (mg_sessions m ! n) \<Longrightarrow> goroutine_step oor c m (PWatch n) (disconnected m)
    (Some (PTop 0 (rc_InitialDelay (mg_reconnCfg m))))"

text \<open>One step of the whole: a call from outside, an event of a session, or a goroutine.\<close>

inductive manager_step :: "(float64 \<Rightarrow> int) \<Rightarrow> ManagedSession \<Rightarrow> ManagedSession \<Rightarrow> bool" for oor where
  call_start: "manager_step oor m (mg_Start m)"
| call_background: "manager_step oor m (StartBackground m)"
| call_stop: "mg_Stop m = OK m' \<Longrightarrow> manager_step oor m m'"
| call_onConnect: "manager_step oor m (mg_OnConnect fn m)"
| call_onDisconnect: "manager_step oor m (mg_OnDisconnect fn m)"
| session_event: "n < length (mg_sessions m) \<Longrightarrow> session_step (mg_sessions m ! n) e s' \<Longrightarrow>
    manager_step oor m (m\<lparr>mg_sessions := (mg_sessions m)[n := s']\<rparr>)"
| goroutine: "i < length (mg_goroutines m) \<Longrightarrow> mg_goroutines m ! i = (c, p) \<Longrightarrow>
    goroutine_step oor c m p m' p' \<Longrightarrow>
    manager_step oor m (m'\<lparr>mg_goroutines :=
      take i (mg_goroutines m) @ (case p' of None \<Rightarrow> [] | Some q \<Rightarrow> [(c, q)]) @ drop (Suc i) (mg_goroutines m)\<rparr>)"

inductive manager_reach :: "(float64 \<Rightarrow> int) \<Rightarrow> Config \<Rightarrow> ReconnectConfig \<Rightarrow> ManagedSession \<Rightarrow> bool"
  for oor config rcfg where
  reach_new: "manager_reach oor config rcfg (NewManagedSession config rcfg)"
| reach_step: "manager_reach oor config rcfg m \<Longrightarrow> manager_step oor m m' \<Longrightarrow> manager_reach oor config rcfg m'"

inductive_cases goroutine_stepE: "goroutine_step oor c m p m' p'"
inductive_cases manager_stepE: "manager_step oor m m'"

section \<open>Invariant of the manager\<close>

definition pc_ok :: "ManagedSession \<Rightarrow> pc \<Rightarrow> bool" where
  "pc_ok m p \<longleftrightarrow>
     (let cfg = mg_reconnCfg m; n = length (mg_sessions m);
          delay_ok = (\<lambda>a d. if a = 0 then d = rc_InitialDelay cfg else d \<le> rc_MaxDelay cfg);
          wait_ok = (\<lambda>a d. 0 < a \<and> \<not> retries_exceeded cfg a \<and> (if a = 1 then d = rc_InitialDelay cfg else d \<le> rc_MaxDelay cfg));
          conn_ok = (\<lambda>k. case k of CNew \<Rightarrow> True | CSelect j \<Rightarrow> j < n | CPublish j \<Rightarrow> j < n)
      in case p of
           PStart k \<Rightarrow> conn_ok k
         | PTop a d \<Rightarrow> \<not> retries_exceeded cfg a \<and> delay_ok a d
         | PWait a d \<Rightarrow> wait_ok a d
         | PConnect k a d \<Rightarrow> conn_ok k \<and> wait_ok a d
         | PMonitor \<Rightarrow> True
         | PWatch j \<Rightarrow> j < n)"

definition manager_inv :: "Config \<Rightarrow> ReconnectConfig \<Rightarrow> ManagedSession \<Rightarrow> bool" where
  "manager_inv config rcfg m \<longleftrightarrow>
     mg_config m = config \<and> mg_reconnCfg m = rcfg \<and>
     distinct (map fst (mg_goroutines m)) \<and> (\<forall>g \<in> set (mg_goroutines m). fst g < mg_contexts m) \<and>
     (\<forall>g \<in> set (mg_goroutines m). pc_ok m (snd g)) \<and>
     (\<forall>n. mg_session m = Some n \<longrightarrow> n < length (mg_sessions m)) \<and>
     (\<forall>s \<in> set (mg_sessions m). \<exists>es. session_run (NewSession config) es s)"

lemma pc_ok_mono:
  assumes "pc_ok m p" and "mg_reconnCfg m' = mg_reconnCfg m" and "length (mg_sessions m) \<le> length (mg_sessions m')"
  shows "pc_ok m' p"
  using assms by (auto simp: pc_ok_def Let_def split: pc.splits connect_pc.splits)

definition sessions_ok :: "Config \<Rightarrow> Session list \<Rightarrow> bool" where
  "sessions_ok config ss \<longleftrightarrow> (\<forall>s \<in> set ss. \<exists>es. session_run (NewSession config) es s)"

lemma sessions_ok_update:
  assumes "sessions_ok config ss" and "n < length ss" and "session_step (ss ! n) e s'"
  shows "sessions_ok config (ss[n := s'])"
proof -
  obtain es where "session_run (NewSession config) es (ss ! n)"
    using assms(1,2) unfolding sessions_ok_def by (metis nth_mem)
  then have "session_run (NewSession config) (es @ [e]) s'" using assms(3) by (rule run_snoc)
  then show ?thesis using assms(1) set_update_subset_insert [of ss n s'] by (auto simp: sessions_ok_def)
qed

lemma sessions_ok_Close: "sessions_ok config ss \<Longrightarrow> n < length ss \<Longrightarrow> sessions_ok config (ss[n := Close (ss ! n)])"
  by (rule sessions_ok_update) (auto intro: step_close)

lemma sessions_ok_Connect:
  "sessions_ok config ss \<Longrightarrow> sessions_ok config (ss @ [fst (Connect net tls peer (NewSession config))])"
  using run_snoc [OF run_Nil step_connect] unfolding sessions_ok_def
  by (metis (no_types, lifting) Un_iff empty_iff empty_set insert_iff list.simps(15) set_append)

text \<open>What every step of a goroutine keeps, and that its successor is in order.\<close>

definition goroutine_keeps :: "ManagedSession \<Rightarrow> ManagedSession \<Rightarrow> bool" where
  "goroutine_keeps m m' \<longleftrightarrow>
     mg_config m' = mg_config m \<and> mg_reconnCfg m' = mg_reconnCfg m \<and> mg_goroutines m' = mg_goroutines m \<and>
     mg_contexts m' = mg_contexts m \<and> mg_done m' = mg_done m \<and> mg_cancelled m' = mg_cancelled m \<and>
     length (mg_sessions m) \<le> length (mg_sessions m') \<and>
     (sessions_ok (mg_config m) (mg_sessions m) \<longrightarrow> sessions_ok (mg_config m) (mg_sessions m')) \<and>
     ((\<forall>n. mg_session m = Some n \<longrightarrow> n < length (mg_sessions m)) \<longrightarrow>
      (\<forall>n. mg_session m' = Some n \<longrightarrow> n < length (mg_sessions m')))"

lemma connect_new_keeps:
  assumes "connect_new net tls peer m = (m', r)"
  shows "goroutine_keeps m m'" and "case r of None \<Rightarrow> True | Some CNew \<Rightarrow> True | Some (CSelect j) \<Rightarrow> j < length (mg_sessions m')
    | Some (CPublish j) \<Rightarrow> j < length (mg_sessions m')"
  using assms sessions_ok_Connect [of "mg_config m" "mg_sessions m" net tls peer]
  by (auto simp: connect_new_def goroutine_keeps_def case_prod_unfold split: res.splits option.splits connect_pc.splits
      if_splits)

lemma connect_select_keeps:
  assumes "connect_select ok n m = (m', r)" and "n < length (mg_sessions m)"
  shows "goroutine_keeps m m'" and "case r of None \<Rightarrow> True | Some CNew \<Rightarrow> True | Some (CSelect j) \<Rightarrow> j < length (mg_sessions m')
    | Some (CPublish j) \<Rightarrow> j < length (mg_sessions m')"
  using assms sessions_ok_Close [of "mg_config m" "mg_sessions m" n]
  by (auto simp: connect_select_def goroutine_keeps_def split: if_splits)

lemma publish_keeps: "n < length (mg_sessions m) \<Longrightarrow> goroutine_keeps m (connect_publish n m)"
  by (simp add: connect_publish_def goroutine_keeps_def)

lemma disconnected_keeps: "goroutine_keeps m (disconnected m)"
  by (simp add: disconnected_def goroutine_keeps_def)

lemma keeps_refl: "goroutine_keeps m m"
  by (simp add: goroutine_keeps_def)

lemma goroutine_step_ok:
  assumes "goroutine_step oor c m p m' p'" and "pc_ok m p"
    and "\<forall>n. mg_session m = Some n \<longrightarrow> n < length (mg_sessions m)"
  shows "goroutine_keeps m m' \<and> (case p' of None \<Rightarrow> True | Some q \<Rightarrow> pc_ok m' q)"
  using assms
proof (induction rule: goroutine_step.induct)
  case (start_new net tls peer m m' r)
  then show ?case using connect_new_keeps [OF start_new(1)]
    by (auto simp: pc_ok_def Let_def goroutine_keeps_def retries_exceeded_def split: option.splits connect_pc.splits)
next
  case (start_select ok n m m' r)
  then have "n < length (mg_sessions m)" by (simp add: pc_ok_def Let_def)
  with start_select show ?case using connect_select_keeps [OF start_select(1)]
    by (auto simp: pc_ok_def Let_def goroutine_keeps_def retries_exceeded_def split: option.splits connect_pc.splits)
next
  case (reconnect_new net tls peer m m' r a d)
  then show ?case using connect_new_keeps [OF reconnect_new(1)] backoff_le [of oor "mg_reconnCfg m" d]
    by (auto simp: pc_ok_def Let_def goroutine_keeps_def split: option.splits connect_pc.splits)
next
  case (reconnect_select ok n m m' r a d)
  then have "n < length (mg_sessions m)" by (simp add: pc_ok_def Let_def)
  with reconnect_select show ?case
    using connect_select_keeps [OF reconnect_select(1)] backoff_le [of oor "mg_reconnCfg m" d]
    by (auto simp: pc_ok_def Let_def goroutine_keeps_def split: option.splits connect_pc.splits)
next
  case (watch_lost m n)
  have "pc_ok (disconnected m) (PTop 0 (rc_InitialDelay (mg_reconnCfg m)))"
    by (simp add: pc_ok_def Let_def retries_exceeded_def disconnected_def)
  then show ?case by (simp add: disconnected_keeps)
qed (auto simp: keeps_refl publish_keeps pc_ok_def Let_def)

lemma manager_inv_frame:
  assumes "manager_inv config rcfg m" and "mg_config m' = mg_config m" and "mg_reconnCfg m' = mg_reconnCfg m"
    and "mg_sessions m' = mg_sessions m" and "mg_session m' = mg_session m" and "mg_contexts m' = mg_contexts m"
    and "mg_goroutines m' = mg_goroutines m"
  shows "manager_inv config rcfg m'"
proof -
  have "pc_ok m' = pc_ok m" using assms(3,4) by (simp add: pc_ok_def fun_eq_iff)
  then show ?thesis using assms by (simp add: manager_inv_def)
qed

lemma new_context_inv:
  assumes "manager_inv config rcfg m" and "pc_ok m p"
  shows "manager_inv config rcfg (new_context p m)"
proof -
  have e: "pc_ok (new_context p m) = pc_ok m" by (simp add: pc_ok_def fun_eq_iff new_context_def)
  show ?thesis unfolding manager_inv_def e
    using assms by (auto simp: manager_inv_def new_context_def less_SucI)
qed

lemma manager_inv_step:
  assumes "manager_inv config rcfg m" and "manager_step oor m m'"
  shows "manager_inv config rcfg m'"
  using assms(2,1)
proof (induction rule: manager_step.induct)
  case (call_stop m m')
  let ?ss = "mg_sessions m"
  have keep: "mg_config m' = mg_config m" "mg_reconnCfg m' = mg_reconnCfg m" "mg_goroutines m' = mg_goroutines m"
    "mg_contexts m' = mg_contexts m" "mg_session m' = None" "length (mg_sessions m') = length ?ss"
    and ss: "sessions_ok config ?ss \<Longrightarrow> sessions_ok config (mg_sessions m')"
    using call_stop(1,2) sessions_ok_Close [of config ?ss]
    by (auto simp: mg_Stop_def Let_def manager_inv_def split: option.splits if_splits)
  then show ?case using call_stop(2) pc_ok_mono [of m _ m'] by (auto simp: manager_inv_def sessions_ok_def)
next
  case (session_event n m e s')
  let ?m = "m\<lparr>mg_sessions := (mg_sessions m)[n := s']\<rparr>"
  have "sessions_ok config (mg_sessions ?m)"
    using session_event sessions_ok_update [of config "mg_sessions m" n e s'] by (auto simp: manager_inv_def sessions_ok_def)
  moreover have "pc_ok m p \<Longrightarrow> pc_ok ?m p" for p by (erule pc_ok_mono) simp_all
  ultimately show ?case using session_event(3) by (auto simp: manager_inv_def sessions_ok_def)
next
  case (goroutine i m c p m' p')
  let ?gs = "mg_goroutines m"
  have g: "(c, p) \<in> set ?gs" using goroutine(1,2) by (metis nth_mem)
  then have "pc_ok m p" using goroutine.prems by (auto simp: manager_inv_def)
  with goroutine(3) goroutine.prems have k: "goroutine_keeps m m'" and q: "case p' of None \<Rightarrow> True | Some q \<Rightarrow> pc_ok m' q"
    using goroutine_step_ok [of oor c m p m' p'] by (auto simp: manager_inv_def)
  let ?gs' = "take i ?gs @ (case p' of None \<Rightarrow> [] | Some q \<Rightarrow> [(c, q)]) @ drop (Suc i) ?gs"
  have sub: "set (take i ?gs) \<subseteq> set ?gs" "set (drop (Suc i) ?gs) \<subseteq> set ?gs"
    by (rule set_take_subset, rule set_drop_subset)
  have split: "map fst ?gs = map fst (take i ?gs) @ c # map fst (drop (Suc i) ?gs)"
    using goroutine(1,2) by (metis append_take_drop_id Cons_nth_drop_Suc fst_conv list.simps(9) map_append)
  have d: "distinct (map fst ?gs')"
    using goroutine.prems split by (cases p') (auto simp: manager_inv_def)
  have ctx: "\<forall>g \<in> set ?gs'. fst g < mg_contexts m'"
    using goroutine.prems sub g k by (cases p') (auto simp: manager_inv_def goroutine_keeps_def)
  have "pc_ok m' (snd g)" if "g \<in> set ?gs" for g
    using that goroutine.prems k pc_ok_mono [of m "snd g" m'] by (auto simp: manager_inv_def goroutine_keeps_def)
  then have pcs: "\<forall>g \<in> set ?gs'. pc_ok m' (snd g)" using sub q by (cases p') auto
  have upd: "pc_ok (m'\<lparr>mg_goroutines := ?gs'\<rparr>) x = pc_ok m' x" for x by (simp add: pc_ok_def)
  show ?case
    using d ctx pcs k goroutine.prems
    by (auto simp: manager_inv_def goroutine_keeps_def sessions_ok_def upd)
next
  case (call_start m)
  then show ?case unfolding mg_Start_def by (rule new_context_inv) (simp add: pc_ok_def)
next
  case (call_background m)
  then show ?case unfolding StartBackground_def
    by (rule new_context_inv) (simp add: pc_ok_def retries_exceeded_def)
next
  case (call_onConnect m fn)
  then show ?case by (rule manager_inv_frame) (simp_all add: mg_OnConnect_def)
next
  case (call_onDisconnect m fn)
  then show ?case by (rule manager_inv_frame) (simp_all add: mg_OnDisconnect_def)
qed

lemma manager_reach_inv: "manager_reach oor config rcfg m \<Longrightarrow> manager_inv config rcfg m"
proof (induction rule: manager_reach.induct)
  case reach_new
  show ?case by (simp add: manager_inv_def NewManagedSession_def)
qed (rule manager_inv_step)


text \<open>A goroutine that is alone makes a step.\<close>

lemma lone_step:
  assumes "manager_reach oor config rcfg m" and "mg_goroutines m = [(c, p)]" and "goroutine_step oor c m p m' p'"
  shows "manager_reach oor config rcfg (m'\<lparr>mg_goroutines := (case p' of None \<Rightarrow> [] | Some q \<Rightarrow> [(c, q)])\<rparr>)"
  using reach_step [OF assms(1) manager_step.goroutine [of 0 m c p oor m' p']] assms(2,3) by simp

definition background :: "Config \<Rightarrow> ReconnectConfig \<Rightarrow> pc list \<Rightarrow> ManagedSession" where
  "background config rcfg ps =
     (NewManagedSession config rcfg)\<lparr>mg_cancel := Some 0, mg_contexts := 1, mg_goroutines := map (Pair 0) ps\<rparr>"

lemma background_waits:
  assumes "rc_MaxRetries rcfg = 0"
  shows "manager_reach oor config rcfg (background config rcfg [PWait 1 (rc_InitialDelay rcfg)])"
proof -
  let ?m = "background config rcfg [PTop 0 (rc_InitialDelay rcfg)]"
  have "manager_reach oor config rcfg (StartBackground (NewManagedSession config rcfg))"
    by (intro reach_step [OF reach_new] call_background)
  then have "manager_reach oor config rcfg ?m"
    by (simp add: StartBackground_def new_context_def background_def NewManagedSession_def)
  from lone_step [OF this _ top_waits] assms show ?thesis
    by (simp add: background_def NewManagedSession_def retries_exceeded_def)
qed


text \<open>A stopped manager can keep a live session. When \<^verbatim>\<open>Stop\<close> runs between the return of the
  session's \<^verbatim>\<open>Connect\<close> and the publication of the session, it finds no session to close; the
  goroutine then publishes it and ends, because its context is cancelled. The manager is stopped and
  its \<^verbatim>\<open>done\<close> channel closed, no goroutine is left, and yet it holds a session that nobody closed
  and whose listener is open.
\<close>

theorem stop_leaks_session:
  "\<exists>m. manager_reach amd64 passive_config DefaultReconnectConfig m \<and> mg_done m \<and> mg_goroutines m = [] \<and>
       mg_session m = Some 0 \<and> \<not> ss_closed (mg_sessions m ! 0) \<and> ss_listener (mg_sessions m ! 0) = Some True"
proof -
  let ?R = "manager_reach amd64 passive_config DefaultReconnectConfig" and ?d = "rc_InitialDelay DefaultReconnectConfig"
  define s where "s = fst (Connect True True [] (NewSession passive_config))"
  have s: "Connect True True [] (NewSession passive_config) = (s, OK ())" "\<not> ss_closed s" "ss_listener s = Some True"
    by (simp_all add: s_def Connect_def NewSession_def passive_config_def DefaultConfig_def listenPassive_def)
  let ?b = "\<lambda>ps. background passive_config DefaultReconnectConfig ps"
  have "?R (?b [PWait 1 ?d])" by (rule background_waits) (simp add: DefaultReconnectConfig_def)
  from lone_step [OF this _ wait_timer] have r: "?R (?b [PConnect CNew 1 ?d])"
    by (simp add: background_def)
  have cn: "connect_new True True [] (?b [PConnect CNew 1 ?d]) =
      ((?b [PConnect CNew 1 ?d])\<lparr>mg_sessions := [s]\<rparr>, Some (CPublish 0))"
    using s(1) by (simp add: connect_new_def background_def NewManagedSession_def passive_config_def DefaultConfig_def)
  from lone_step [OF r _ reconnect_new [OF cn]] have "?R ((?b [PConnect (CPublish 0) 1 ?d])\<lparr>mg_sessions := [s]\<rparr>)"
    by (simp add: background_def NewManagedSession_def)
  moreover define m where "m = (?b [PConnect (CPublish 0) 1 ?d])\<lparr>mg_sessions := [s], mg_cancelled := [0], mg_done := True\<rparr>"
  have "mg_Stop ((?b [PConnect (CPublish 0) 1 ?d])\<lparr>mg_sessions := [s]\<rparr>) = OK m"
    by (simp add: mg_Stop_def m_def background_def NewManagedSession_def)
  ultimately have "?R m" by (blast intro: reach_step call_stop)
  from lone_step [OF this _ reconnect_publish] have "?R (m\<lparr>mg_session := Some 0, mg_goroutines := [(0, PMonitor)]\<rparr>)"
    by (simp add: m_def background_def connect_publish_def NewManagedSession_def)
  from lone_step [OF this _ monitor_watch] have "?R (m\<lparr>mg_session := Some 0, mg_goroutines := [(0, PWatch 0)]\<rparr>)"
    by simp
  from lone_step [OF this _ watch_cancelled] have "?R (m\<lparr>mg_session := Some 0, mg_goroutines := []\<rparr>)"
    by (simp add: m_def)
  then show ?thesis using s by (intro exI [of _ "m\<lparr>mg_session := Some 0, mg_goroutines := []\<rparr>"]) (simp add: m_def)
qed

text \<open>\<^verbatim>\<open>Stop\<close> of a connected manager leaves the channel of \<^verbatim>\<open>Done\<close> as it was: who waits for it waits for
  ever, although the comment on \<^verbatim>\<open>Done\<close> says that it is closed when the manager stops.\<close>

lemma stop_leaves_done:
  "mg_session m = Some n \<Longrightarrow> mg_Stop m = OK m' \<Longrightarrow> mg_done m' = mg_done m"
  by (auto simp: mg_Stop_def Let_def split: option.splits)

end
