(* ===== verification/Rate_Limiter.thy ===== *)
theory Rate_Limiter
  imports Go_Arith "HOL-Library.Signed_Division"
begin

text \<open>
  The token bucket (\<^verbatim>\<open>pkg/security/ratelimit.go\<close>), with its tokens as a \<^verbatim>\<open>float64\<close> and the clock
  as an argument. The lemmas show that the bucket stays between empty and full, that at one instant
  at most \<^verbatim>\<open>burst\<close> messages pass, and that a second after any call a message passes again.
\<close>

section \<open>The bucket\<close>

record RateLimiter =
  rl_rate :: int
  rl_burst :: int
  rl_tokens :: float64
  rl_lastTime :: int

definition NewRateLimiter :: "int \<Rightarrow> int \<Rightarrow> int \<Rightarrow> RateLimiter" where
  "NewRateLimiter now rate burst =
     \<lparr>rl_rate = rate, rl_burst = burst, rl_tokens = f64_of_int burst, rl_lastTime = now\<rparr>"

text \<open>\<^verbatim>\<open>Duration.Seconds\<close>: whole seconds and the fraction are converted separately.\<close>

definition Seconds :: "int \<Rightarrow> float64" where
  "Seconds d = f64_add (f64_of_int (d sdiv 1000000000))
                 (f64_div (f64_of_int (d smod 1000000000)) (f64_of_int 1000000000))"

definition Allow :: "int \<Rightarrow> RateLimiter \<Rightarrow> RateLimiter \<times> bool" where
  "Allow now rl =
     (let elapsed = Seconds (Sub_time now (rl_lastTime rl));
          tokens = f64_add (rl_tokens rl) (f64_mul elapsed (f64_of_int (rl_rate rl)));
          tokens = (if f64_less (f64_of_int (rl_burst rl)) tokens then f64_of_int (rl_burst rl) else tokens);
          rl = rl\<lparr>rl_lastTime := now\<rparr>
      in if f64_le f64_one tokens
         then (rl\<lparr>rl_tokens := f64_sub tokens f64_one\<rparr>, True)
         else (rl\<lparr>rl_tokens := tokens\<rparr>, False))"

definition Rate :: "RateLimiter \<Rightarrow> int" where
  "Rate rl = rl_rate rl"

section \<open>The bucket stays between empty and full\<close>

definition rl_config :: "RateLimiter \<Rightarrow> bool" where
  "rl_config rl \<longleftrightarrow> 0 \<le> rl_rate rl \<and> rl_rate rl < 2 ^ 63 \<and> 0 \<le> rl_burst rl \<and> rl_burst rl < 2 ^ 63"

definition rl_inv :: "RateLimiter \<Rightarrow> bool" where
  "rl_inv rl \<longleftrightarrow> rl_config rl \<and> f64_le 0 (rl_tokens rl) \<and> f64_le (rl_tokens rl) (f64_of_int (rl_burst rl))"

lemma Seconds_nonneg:
  assumes "0 \<le> d" and "d < 2 ^ 63"
  shows "f64_nonneg (Seconds d)" "f64_fin (Seconds d)" "1000000000 \<le> d \<Longrightarrow> f64_mag f64_one \<le> f64_mag (Seconds d)"
    "d = 0 \<Longrightarrow> f64_mag (Seconds d) = 0"
proof -
  define s r where "s = d sdiv 1000000000" and "r = d smod 1000000000"
  have sr: "s = d div 1000000000" "r = d mod 1000000000"
    using assms by (simp_all add: s_def r_def signed_divide_int_def signed_modulo_int_def sgn_if)
  have s: "0 \<le> s" "s < 2 ^ 34" using assms by (simp_all add: sr)
  have r: "0 \<le> r" "r \<le> 1000000000" by (simp_all add: sr)
  let ?s = "f64_of_int s" and ?r = "f64_div (f64_of_int r) (f64_of_int 1000000000)"
  have u: "f64_unit ?r" using r by (intro f64_div_unit) simp_all
  note ru = f64_unitD [OF u]
  have nr: "f64_nonneg ?r" "f64_fin ?r" using u ru(1) by (simp_all add: f64_unit_def f64_nonneg_def)
  have ns: "f64_nonneg ?s" "f64_fin ?s" using s by (simp_all add: f64_nonneg_of_int f64_of_int_fin)
  have mu_s: "f64_mu ?s = nat s * 2 ^ 1074" using s by (intro f64_mu_of_int) simp_all
  have e: "Seconds d = f64_add ?s ?r" by (simp add: Seconds_def s_def r_def)
  show "f64_nonneg (Seconds d)" unfolding e using f64_add_nonneg ns nr by blast
  have m: "f64_mag (Seconds d) = mag_of (f64_mu ?s + f64_mu ?r) 1" unfolding e using f64_add_nonneg ns nr by blast
  let ?b = "f64_of_int (2 ^ 35)"
  have b: "f64_fin ?b" "f64_mu ?b = 2 ^ 35 * 2 ^ 1074" by (simp_all add: f64_of_int_fin f64_mu_of_int)
  have "f64_mu ?s + f64_mu ?r \<le> (nat s + 1) * 2 ^ 1074" using mu_s ru(2) by (simp only: add_mult_distrib)
  also have "\<dots> \<le> f64_mu ?b" unfolding b using s by (intro mult_le_mono1) simp
  finally have "mag_of (f64_mu ?s + f64_mu ?r) 1 \<le> f64_mag ?b" by (rule mag_of_upper [OF b(1)])
  then show "f64_fin (Seconds d)" using b(1) unfolding f64_fin_def m by (rule le_less_trans)
  show "f64_mag f64_one \<le> f64_mag (Seconds d)" if "1000000000 \<le> d"
  proof -
    have "1 \<le> nat s" using that by (simp add: sr)
    then have "1 * 2 ^ 1074 \<le> f64_mu ?s" unfolding mu_s by (rule mult_le_mono1)
    then have "f64_mu f64_one \<le> f64_mu ?s + f64_mu ?r" unfolding f64_mu_one by simp
    then show ?thesis unfolding m using f64_one_facts by (intro mag_of_lower)
  qed
  show "f64_mag (Seconds d) = 0" if "d = 0"
  proof -
    have "f64_mag ?r = 0"
      using that sr f64_div_0 [of "f64_of_int 1000000000"] f64_one_le_int [of 1000000000] f64_of_int_fin [of 1000000000]
      by (simp add: f64_of_int_0 f64_one_facts)
    then show ?thesis unfolding m using mu_s that sr by simp
  qed
qed

text \<open>The tokens after the refill.\<close>

definition refilled :: "int \<Rightarrow> RateLimiter \<Rightarrow> float64" where
  "refilled now rl =
     (let tokens = f64_add (rl_tokens rl) (f64_mul (Seconds (Sub_time now (rl_lastTime rl))) (f64_of_int (rl_rate rl)))
      in if f64_less (f64_of_int (rl_burst rl)) tokens then f64_of_int (rl_burst rl) else tokens)"

lemma Allow_eq:
  "Allow now rl =
     (if f64_le f64_one (refilled now rl)
      then (rl\<lparr>rl_lastTime := now, rl_tokens := f64_sub (refilled now rl) f64_one\<rparr>, True)
      else (rl\<lparr>rl_lastTime := now, rl_tokens := refilled now rl\<rparr>, False))"
  by (simp add: Allow_def refilled_def Let_def)

definition on_time :: "int \<Rightarrow> RateLimiter \<Rightarrow> bool" where
  "on_time now rl \<longleftrightarrow> rl_lastTime rl \<le> now \<and> now - rl_lastTime rl < 2 ^ 63"

lemma rl_invD:
  assumes "rl_inv rl"
  shows "f64_nonneg (rl_tokens rl)" "f64_fin (rl_tokens rl)" "f64_nonneg (f64_of_int (rl_burst rl))"
    "f64_fin (f64_of_int (rl_burst rl))" "f64_nonneg (f64_of_int (rl_rate rl))" "f64_fin (f64_of_int (rl_rate rl))"
    "f64_mag (rl_tokens rl) \<le> f64_mag (f64_of_int (rl_burst rl))"
proof -
  show b: "f64_nonneg (f64_of_int (rl_burst rl))" "f64_fin (f64_of_int (rl_burst rl))"
    "f64_nonneg (f64_of_int (rl_rate rl))" "f64_fin (f64_of_int (rl_rate rl))"
    using assms by (auto simp: rl_inv_def rl_config_def intro!: f64_nonneg_of_int f64_of_int_fin)
  show t: "f64_nonneg (rl_tokens rl)" using assms by (simp add: rl_inv_def f64_nonneg_def)
  show m: "f64_mag (rl_tokens rl) \<le> f64_mag (f64_of_int (rl_burst rl))"
    using assms f64_nonneg_order(1) [OF t b(1)] by (simp add: rl_inv_def)
  with b(2) show "f64_fin (rl_tokens rl)" unfolding f64_fin_def by (rule le_less_trans [rotated])
qed

lemma refilled_bounds:
  assumes "rl_inv rl" and "on_time now rl"
  shows "f64_nonneg (refilled now rl)" "f64_mag (refilled now rl) \<le> f64_mag (f64_of_int (rl_burst rl))"
    "f64_fin (refilled now rl)"
    "now = rl_lastTime rl \<Longrightarrow> f64_mag (refilled now rl) = f64_mag (rl_tokens rl)"
    "rl_lastTime rl + 1000000000 \<le> now \<Longrightarrow> 0 < rl_rate rl \<Longrightarrow> 0 < rl_burst rl \<Longrightarrow>
       f64_mag f64_one \<le> f64_mag (refilled now rl)"
proof -
  note i = rl_invD [OF assms(1)]
  define d where "d = now - rl_lastTime rl"
  have d: "Sub_time now (rl_lastTime rl) = d" "0 \<le> d" "d < 2 ^ 63"
    using assms(2) by (auto simp: on_time_def d_def)
  note sec = Seconds_nonneg [OF d(2,3)]
  let ?T = "rl_tokens rl" and ?B = "f64_of_int (rl_burst rl)" and ?R = "f64_of_int (rl_rate rl)"
  define g where "g = f64_mul (Seconds d) ?R"
  note gm = f64_mul_nonneg [OF sec(1) i(5) sec(2) i(6), folded g_def]
  define t where "t = f64_add ?T g"
  have r: "refilled now rl = (if f64_less ?B t then ?B else t)"
    by (simp add: refilled_def d g_def t_def)
  have t: "f64_nonneg t \<and> f64_mag ?T \<le> f64_mag t \<and> f64_mag g \<le> f64_mag t"
  proof (cases "f64_fin g")
    case True
    note a = f64_add_nonneg [OF i(1) gm(1) i(2) True, folded t_def]
    show ?thesis unfolding a(2) using a(1) i(2) True by (intro conjI mag_of_lower) simp_all
  next
    case False
    then have g: "f64_is_inf g" "\<not> f64_is_nan g" using gm(1) by (auto simp: f64_fin_iff f64_nonneg_def f64_le_def)
    then have "t = g" using i(2) by (simp add: t_def f64_add_def f64_fin_iff)
    then show ?thesis using gm(1) g i(2) by (simp add: f64_fin_def f64_is_inf_def inf_mag_def)
  qed
  have c: "f64_less ?B t \<longleftrightarrow> f64_mag ?B < f64_mag t" using f64_nonneg_order(2) i(3) t by blast
  show nn: "f64_nonneg (refilled now rl)" using r i(3) t by simp
  show le: "f64_mag (refilled now rl) \<le> f64_mag ?B" using r c by simp
  show "f64_fin (refilled now rl)" using i(4) le unfolding f64_fin_def by (rule le_less_trans [rotated])
  show "f64_mag (refilled now rl) = f64_mag ?T" if "now = rl_lastTime rl"
  proof -
    have "f64_mag (Seconds d) = 0" using that sec(4) by (simp add: d_def)
    then have z: "f64_mag g = 0" unfolding gm by (simp only: mag_units_0 mult_0 mag_of_0)
    then have "f64_mag t = f64_mag ?T"
      using f64_add_nonneg(2) [OF i(1) gm(1) i(2)] mag_of_exact [of "f64_mag ?T"] i(2) z
      by (simp add: t_def f64_fin_def inf_mag_def)
    then show ?thesis using r c i(7) by simp
  qed
  show "f64_mag f64_one \<le> f64_mag (refilled now rl)"
    if "rl_lastTime rl + 1000000000 \<le> now" "0 < rl_rate rl" "0 < rl_burst rl"
  proof -
    have cfg: "rl_rate rl < 2 ^ 64" "rl_burst rl < 2 ^ 64"
      using assms(1) by (simp_all add: rl_inv_def rl_config_def)
    have "f64_mu f64_one \<le> f64_mu (Seconds d)" "f64_mu f64_one \<le> f64_mu ?R"
      using that sec(2,3) i(6) f64_one_le_int [of "rl_rate rl"] cfg f64_one_facts(3)
      by (simp_all add: f64_mu_mono d_def)
    then have "f64_mu f64_one * 2 ^ 1074 \<le> f64_mu (Seconds d) * f64_mu ?R"
      unfolding f64_mu_one by (rule mult_le_mono)
    then have "f64_mag f64_one \<le> f64_mag g"
      unfolding gm using f64_one_facts(3) unfolding f64_fin_def
      by (intro mag_of_ge) (simp_all only: zero_less_power zero_less_numeral)
    then show ?thesis using r t f64_one_le_int [of "rl_burst rl"] that cfg by auto
  qed
qed

lemma Allow_inv:
  assumes "rl_inv rl" and "on_time now rl"
  shows "rl_inv (fst (Allow now rl))"
proof -
  note i = rl_invD [OF assms(1)] and r = refilled_bounds [OF assms]
  have le: "f64_le f64_one (refilled now rl) \<longleftrightarrow> f64_mag f64_one \<le> f64_mag (refilled now rl)"
    using f64_nonneg_order(1) f64_nonneg_consts(2) r(1) by blast
  have ok: "f64_le 0 t \<and> f64_le t (f64_of_int (rl_burst rl))"
    if "f64_nonneg t" "f64_mag t \<le> f64_mag (f64_of_int (rl_burst rl))" for t
    using that f64_nonneg_order(1) [OF that(1) i(3)] by (simp add: f64_nonneg_def)
  have "f64_nonneg (f64_sub (refilled now rl) f64_one)"
    "f64_mag (f64_sub (refilled now rl) f64_one) \<le> f64_mag (f64_of_int (rl_burst rl))"
    if "f64_le f64_one (refilled now rl)"
  proof -
    note s = f64_sub_nonneg [OF r(1) f64_nonneg_consts(2) r(3) f64_one_facts(3)]
    show "f64_nonneg (f64_sub (refilled now rl) f64_one)" using s(1) that le by simp
    have "f64_mag (f64_sub (refilled now rl) f64_one) \<le> f64_mag (refilled now rl)"
      using s(2) that le mag_of_upper [OF r(3), of "f64_mu (refilled now rl) - f64_mu f64_one"] by simp
    with r(2) show "f64_mag (f64_sub (refilled now rl) f64_one) \<le> f64_mag (f64_of_int (rl_burst rl))" by simp
  qed
  with ok r(1,2) assms(1) show ?thesis by (auto simp: Allow_eq rl_inv_def rl_config_def)
qed

section \<open>Runs\<close>

text \<open>A sequence of calls at the given times, and how many of them were allowed.\<close>

fun calls :: "int list \<Rightarrow> RateLimiter \<Rightarrow> RateLimiter \<times> nat" where
  "calls [] rl = (rl, 0)"
| "calls (now # ts) rl =
     (case Allow now rl of (rl', ok) \<Rightarrow>
        case calls ts rl' of (rl'', n) \<Rightarrow> (rl'', (if ok then n + 1 else n)))"

text \<open>The clock does not go back, nor forward by 292 years at once.\<close>

fun clock_ok :: "int \<Rightarrow> int list \<Rightarrow> bool" where
  "clock_ok prev [] \<longleftrightarrow> True"
| "clock_ok prev (t # ts) \<longleftrightarrow> prev \<le> t \<and> t - prev < 2 ^ 63 \<and> clock_ok t ts"

lemma Allow_frame [simp]:
  "rl_lastTime (fst (Allow now rl)) = now" "rl_burst (fst (Allow now rl)) = rl_burst rl"
  "rl_rate (fst (Allow now rl)) = rl_rate rl"
  by (simp_all add: Allow_eq)

lemma calls_inv: "rl_inv rl \<Longrightarrow> clock_ok (rl_lastTime rl) ts \<Longrightarrow> rl_inv (fst (calls ts rl))"
proof (induction ts arbitrary: rl)
  case (Cons t ts)
  then have "rl_inv (fst (Allow t rl))" by (intro Allow_inv) (simp_all add: on_time_def)
  with Cons.IH [of "fst (Allow t rl)"] Cons.prems show ?case by (simp add: case_prod_unfold)
qed simp

lemma calls_frame: "rl_burst (fst (calls ts rl)) = rl_burst rl" "rl_rate (fst (calls ts rl)) = rl_rate rl"
  by (induction ts arbitrary: rl) (simp_all add: case_prod_unfold)

lemma new_inv:
  assumes "0 \<le> rate" "rate < 2 ^ 63" "0 \<le> burst" "burst < 2 ^ 63"
  shows "rl_inv (NewRateLimiter now rate burst)"
proof -
  have "f64_nonneg (f64_of_int burst)" using assms by (intro f64_nonneg_of_int) simp_all
  then show ?thesis using assms f64_nonneg_order(1)
    by (simp add: rl_inv_def rl_config_def NewRateLimiter_def f64_nonneg_def)
qed

text \<open>One call at the same instant, with at most \<open>k\<close> tokens in the bucket.\<close>

lemma Allow_same_instant:
  assumes "rl_inv rl" and "f64_mag (refilled now rl) \<le> f64_mag (f64_of_int (int k))" and "on_time now rl"
    and "k < 2 ^ 53"
  shows "snd (Allow now rl) \<Longrightarrow> 0 < k \<and>
           f64_mag (refilled now (fst (Allow now rl))) \<le> f64_mag (f64_of_int (int (k - 1)))"
    and "\<not> snd (Allow now rl) \<Longrightarrow> f64_mag (refilled now (fst (Allow now rl))) \<le> f64_mag (f64_of_int (int k))"
proof -
  note r = refilled_bounds [OF assms(1,3)]
  have le: "f64_le f64_one (refilled now rl) \<longleftrightarrow> f64_mag f64_one \<le> f64_mag (refilled now rl)"
    using f64_nonneg_order(1) f64_nonneg_consts(2) r(1) by blast
  have same: "f64_mag (refilled now (fst (Allow now rl))) = f64_mag (rl_tokens (fst (Allow now rl)))"
    by (rule refilled_bounds(4) [OF Allow_inv [OF assms(1,3)]]) (simp_all add: on_time_def)
  have k: "f64_fin (f64_of_int (int j))" "f64_mu (f64_of_int (int j)) = j * 2 ^ 1074" if "j \<le> k" for j
  proof -
    have j: "0 \<le> int j" "int j < 2 ^ 53" using that assms(4) by simp_all
    then show "f64_fin (f64_of_int (int j))" by (intro f64_of_int_fin) simp
    show "f64_mu (f64_of_int (int j)) = j * 2 ^ 1074" using f64_mu_of_int [OF j] by (simp only: nat_int)
  qed
  show "f64_mag (refilled now (fst (Allow now rl))) \<le> f64_mag (f64_of_int (int k))" if "\<not> snd (Allow now rl)"
    using that assms(2) same by (auto simp: Allow_eq split: if_splits)
  show "0 < k \<and> f64_mag (refilled now (fst (Allow now rl))) \<le> f64_mag (f64_of_int (int (k - 1)))"
    if "snd (Allow now rl)"
  proof
    have one: "f64_mag f64_one \<le> f64_mag (refilled now rl)" using that le by (auto simp: Allow_eq split: if_splits)
    show "0 < k"
    proof (rule ccontr)
      assume "\<not> 0 < k"
      then show False using one assms(2) by (simp add: f64_of_int_0 f64_zero_facts f64_one_facts)
    qed
    have e: "f64_mag (rl_tokens (fst (Allow now rl))) = mag_of (f64_mu (refilled now rl) - f64_mu f64_one) 1"
      using that f64_sub_nonneg(2) [OF r(1) f64_nonneg_consts(2) r(3) f64_one_facts(3) one]
      by (auto simp: Allow_eq split: if_splits)
    have "f64_mu (refilled now rl) \<le> k * 2 ^ 1074"
      using assms(2) r(3) k [of k] by (metis f64_mu_mono order_refl)
    then have "f64_mu (refilled now rl) - f64_mu f64_one \<le> (k - 1) * 2 ^ 1074"
      unfolding f64_mu_one by (simp only: diff_mult_distrib mult_1 diff_le_mono)
    also have "\<dots> = f64_mu (f64_of_int (int (k - 1)))" using k [of "k - 1"] by simp
    finally show "f64_mag (refilled now (fst (Allow now rl))) \<le> f64_mag (f64_of_int (int (k - 1)))"
      unfolding same e using k(1) [of "k - 1"] by (intro mag_of_upper) simp_all
  qed
qed

lemma calls_same_instant:
  assumes "rl_inv rl" and "f64_mag (refilled now rl) \<le> f64_mag (f64_of_int (int k))" and "on_time now rl"
    and "k < 2 ^ 53"
  shows "snd (calls (replicate n now) rl) \<le> k"
  using assms
proof (induction n arbitrary: rl k)
  case (Suc n)
  let ?rl = "fst (Allow now rl)"
  note one = Allow_same_instant [OF Suc.prems]
  have inv: "rl_inv ?rl" "on_time now ?rl" using Allow_inv [OF Suc.prems(1,3)] by (simp_all add: on_time_def)
  show ?case
  proof (cases "snd (Allow now rl)")
    case True
    then have k: "0 < k" "f64_mag (refilled now ?rl) \<le> f64_mag (f64_of_int (int (k - 1)))" "k - 1 < 2 ^ 53"
      using one(1) Suc.prems(4) by (blast, blast, simp)
    from Suc.IH [OF inv(1) k(2) inv(2) k(3)] True k(1) show ?thesis by (simp add: case_prod_unfold)
  next
    case False
    with one(2) inv Suc.IH [of ?rl k] Suc.prems(4) show ?thesis by (simp add: case_prod_unfold)
  qed
qed simp

text \<open>C37. Token bucket: after any sequence of calls the tokens are a number between 0 and the bucket size,
  and from there any number of calls at one instant lets at most \<^verbatim>\<open>burst\<close> messages through.
\<close>

theorem rate_limiter_burst:
  assumes "0 \<le> rate" and "rate < 2 ^ 63" and "0 \<le> burst" and "burst < 2 ^ 53"
    and "clock_ok t0 ts" and "rl = fst (calls ts (NewRateLimiter t0 rate burst))"
    and "rl_lastTime rl \<le> now" and "now - rl_lastTime rl < 2 ^ 63"
  shows "f64_le 0 (rl_tokens rl) \<and> f64_le (rl_tokens rl) (f64_of_int burst) \<and>
         int (snd (calls (replicate n now) rl)) \<le> burst"
proof -
  have inv: "rl_inv rl"
    unfolding assms(6) using assms(1-5) by (intro calls_inv new_inv) (simp_all add: NewRateLimiter_def)
  have b: "rl_burst rl = burst" unfolding assms(6) by (simp add: calls_frame NewRateLimiter_def)
  have ot: "on_time now rl" using assms(7,8) by (simp add: on_time_def)
  have "f64_mag (refilled now rl) \<le> f64_mag (f64_of_int (int (nat burst)))"
    using refilled_bounds(2) [OF inv ot] assms(3) b by simp
  then have "snd (calls (replicate n now) rl) \<le> nat burst"
    using inv ot assms(3,4) by (intro calls_same_instant) simp_all
  then show ?thesis using inv b assms(3) by (auto simp: rl_inv_def)
qed

theorem rate_limiter_burst_witness:
  "int (snd (calls (replicate 1000 7) (fst (calls [1, 5, 5] (NewRateLimiter 0 10 3))))) \<le> 3"
proof -
  let ?rl = "fst (calls [1, 5, 5] (NewRateLimiter 0 10 3))"
  have "rl_lastTime ?rl = 5" by (simp add: case_prod_unfold)
  then show ?thesis using rate_limiter_burst [of 10 3 0 "[1, 5, 5]" ?rl 7 1000] by simp
qed

text \<open>Recovery: however many messages were refused, a call at least one second after the previous call
  is allowed, when the rate and the bucket size are at least one.
\<close>

theorem rate_limiter_recovers:
  assumes "0 < rate" and "rate < 2 ^ 63" and "0 < burst" and "burst < 2 ^ 63"
    and "clock_ok t0 ts" and "rl = fst (calls ts (NewRateLimiter t0 rate burst))"
    and "rl_lastTime rl + 1000000000 \<le> now" and "now - rl_lastTime rl < 2 ^ 63"
  shows "snd (Allow now rl)"
proof -
  have inv: "rl_inv rl"
    unfolding assms(6) using assms(1-5) by (intro calls_inv new_inv) (simp_all add: NewRateLimiter_def)
  have b: "rl_burst rl = burst" "rl_rate rl = rate" unfolding assms(6) by (simp_all add: calls_frame NewRateLimiter_def)
  have ot: "on_time now rl" using assms(7,8) by (simp add: on_time_def)
  note r = refilled_bounds [OF inv ot]
  have "f64_mag f64_one \<le> f64_mag (refilled now rl)" using r(5) assms b by simp
  then have "f64_le f64_one (refilled now rl)" using f64_nonneg_order(1) f64_nonneg_consts(2) r(1) by blast
  then show ?thesis by (simp add: Allow_eq)
qed

theorem rate_limiter_recovers_witness:
  "snd (Allow 1000000009 (fst (calls [3, 9, 9, 9] (NewRateLimiter 0 1 1))))"
proof -
  let ?rl = "fst (calls [3, 9, 9, 9] (NewRateLimiter 0 1 1))"
  have "rl_lastTime ?rl = 9" by (simp add: case_prod_unfold)
  then show ?thesis using rate_limiter_recovers [of 1 1 0 "[3, 9, 9, 9]" ?rl 1000000009] by simp
qed

end
