(* ===== verification/Validator_Schema.thy ===== *)
theory Validator_Schema
  imports Gem_Wire
begin

text \<open>
  Message schemas (\<^verbatim>\<open>pkg/validator/schema.go\<close>): the shape of an item, the registry of message
  schemas with the standard entries, and the validator that compares a message body with its schema
  and reports findings with a path. A nil child of a list makes the validator panic, as the code
  does. The lemmas show that the validator terminates on every body, what it accepts, and that every
  reply and report the GEM handler builds passes the schema registered for it.
\<close>

section \<open>Levels and schemas\<close>

datatype Direction = HostToEquip | EquipToHost | Bidirectional

fun Direction_String :: "Direction \<Rightarrow> string" where
  "Direction_String HostToEquip = ''H->E''"
| "Direction_String EquipToHost = ''E->H''"
| "Direction_String Bidirectional = ''H<->E''"

datatype Level = LevelPass | LevelWarn | LevelFail

fun Level_String :: "Level \<Rightarrow> string" where
  "Level_String LevelPass = ''PASS''"
| "Level_String LevelWarn = ''WARN''"
| "Level_String LevelFail = ''FAIL''"

text \<open>The order of the levels is the order of their declaration.\<close>

fun level_num :: "Level \<Rightarrow> nat" where
  "level_num LevelPass = 0"
| "level_num LevelWarn = 1"
| "level_num LevelFail = 2"

instantiation Level :: linorder
begin

definition less_eq_Level :: "Level \<Rightarrow> Level \<Rightarrow> bool" where
  "less_eq_Level a b \<longleftrightarrow> level_num a \<le> level_num b"

definition less_Level :: "Level \<Rightarrow> Level \<Rightarrow> bool" where
  "less_Level a b \<longleftrightarrow> level_num a < level_num b"

instance
proof
  fix x y z :: Level
  show "(x < y) = (x \<le> y \<and> \<not> y \<le> x)" "x \<le> x" "x \<le> y \<Longrightarrow> y \<le> z \<Longrightarrow> x \<le> z" "x \<le> y \<or> y \<le> x"
    by (auto simp: less_eq_Level_def less_Level_def)
  show "x \<le> y \<Longrightarrow> y \<le> x \<Longrightarrow> x = y"
    by (cases x; cases y) (auto simp: less_eq_Level_def)
qed

end

record ValidationResult =
  vr_Level :: Level
  vr_Path :: string
  vr_Message :: string

datatype ItemSchema = ItemSchema
  (is_Format: Format) (is_Name: string) (is_MinLen: int) (is_MaxLen: int)
  (is_Children: "ItemSchema list") (is_AllowedBytes: "byte list") (is_Optional: bool)

datatype MessageSchema = MessageSchema
  (ms_Stream: byte) (ms_Function: byte) (ms_Name: string) (ms_Direction: Direction) (ms_WBit: bool)
  (ms_Body: "ItemSchema option") (ms_Standard: string)

section \<open>The registry\<close>

type_synonym SchemaRegistry = "(byte \<times> byte, MessageSchema) gomap"

definition NewSchemaRegistry :: SchemaRegistry where "NewSchemaRegistry = []"

definition Register :: "MessageSchema \<Rightarrow> SchemaRegistry \<Rightarrow> SchemaRegistry" where
  "Register s r = AList.update (ms_Stream s, ms_Function s) s r"

definition Get_schema :: "SchemaRegistry \<Rightarrow> byte \<Rightarrow> byte \<Rightarrow> MessageSchema option" where
  "Get_schema r stream function = map_of r (stream, function)"

definition All_schemas ::
  "((byte \<times> byte) list \<Rightarrow> (byte \<times> byte) list) \<Rightarrow> SchemaRegistry \<Rightarrow> MessageSchema list" where
  "All_schemas ord r = List.map_filter (map_of r) (ord (map fst r))"

definition Count_schemas :: "SchemaRegistry \<Rightarrow> nat" where
  "Count_schemas r = length r"

section \<open>Validation\<close>

text \<open>\<^verbatim>\<open>%02X\<close> of a byte, \<^verbatim>\<open>%v\<close> of a byte slice and of a boolean.\<close>

definition hex_digit :: "nat \<Rightarrow> char" where
  "hex_digit n = (if n < 10 then char_of (48 + n) else char_of (55 + n))"

definition hex2 :: "byte \<Rightarrow> string" where
  "hex2 b = [hex_digit (unat b div 16), hex_digit (unat b mod 16)]"

fun spaced :: "string list \<Rightarrow> string" where
  "spaced [] = []"
| "spaced [s] = s"
| "spaced (s # ss) = s @ '' '' @ spaced ss"

definition show_bytes :: "byte list \<Rightarrow> string" where
  "show_bytes bs = ''['' @ spaced (map (\<lambda>b. decimal (unat b)) bs) @ '']''"

definition show_bool :: "bool \<Rightarrow> string" where
  "show_bool b = (if b then ''true'' else ''false'')"

definition nameOrPath :: "string \<Rightarrow> string \<Rightarrow> string" where
  "nameOrPath name path = (if name \<noteq> [] then name else if path \<noteq> [] then path else ''root'')"

definition childPath :: "string \<Rightarrow> nat \<Rightarrow> string" where
  "childPath parent index = parent @ ''['' @ decimal index @ '']''"

definition sf_name :: "byte \<Rightarrow> byte \<Rightarrow> string" where
  "sf_name s f = ''S'' @ decimal (unat s) @ ''F'' @ decimal (unat f)"

definition fail_at :: "string \<Rightarrow> string \<Rightarrow> ValidationResult list" where
  "fail_at path msg = [\<lparr>vr_Level = LevelFail, vr_Path = path, vr_Message = msg\<rparr>]"

text \<open>The check of the first byte of a binary item; \<open>None\<close>: no objection.\<close>

definition byte_objection :: "byte list \<Rightarrow> item_ptr \<Rightarrow> (secs2_error, byte option) res" where
  "byte_objection allowed item =
     (case ToBinary item of
        OK (val # _) \<Rightarrow> OK (if val \<in> set allowed then None else Some val)
      | Panic \<Rightarrow> Panic
      | _ \<Rightarrow> OK None)"

fun validateItem :: "ItemSchema \<Rightarrow> item_ptr \<Rightarrow> string \<Rightarrow> (secs2_error, ValidationResult list) res"
and validate_children ::
  "string \<Rightarrow> nat \<Rightarrow> ItemSchema list \<Rightarrow> item_ptr list \<Rightarrow> (secs2_error, ValidationResult list) res" where
  "validateItem (ItemSchema fmt name minLen maxLen children allowed optional) item path =
     bind_res (Item_Format item) (\<lambda>f.
       if f \<noteq> fmt
       then OK (fail_at path (nameOrPath name path @ '': expected '' @ Format_String fmt @ '', got '' @
              Format_String f))
       else
         bind_res (Len item) (\<lambda>n.
         bind_res (if fmt = FormatList then Items item else OK []) (\<lambda>items.
           let len = int (if fmt = FormatList then length items else n) in
           if minLen > 0 \<and> len < minLen
           then OK (fail_at path (nameOrPath name path @ '': too few elements ('' @ decimal_int len @ '' < '' @
                  decimal_int minLen @ '')''))
           else if maxLen \<ge> 0 \<and> len > maxLen
           then OK (fail_at path (nameOrPath name path @ '': too many elements ('' @ decimal_int len @ '' > '' @
                  decimal_int maxLen @ '')''))
           else
             bind_res (if fmt = FormatBinary \<and> allowed \<noteq> [] then byte_objection allowed item else OK None) (\<lambda>obj.
               case obj of
                 Some v \<Rightarrow> OK (fail_at path (nameOrPath name path @ '': value 0x'' @ hex2 v @
                     '' not in allowed set '' @ show_bytes allowed))
               | None \<Rightarrow>
                   bind_res (if fmt = FormatList \<and> children \<noteq> []
                             then validate_children path 0 children items else OK []) (\<lambda>results.
                     OK (if results = []
                         then [\<lparr>vr_Level = LevelPass, vr_Path = path,
                                vr_Message = nameOrPath name path @ '': valid''\<rparr>]
                         else results))))))"
| "validate_children path i [] items = OK []"
| "validate_children path i (child # children) items =
     bind_res (if i \<ge> length items
               then OK (if \<not> is_Optional child
                        then [\<lparr>vr_Level = LevelWarn, vr_Path = childPath path i,
                               vr_Message = nameOrPath (is_Name child) (childPath path i) @
                                 '': missing (optional='' @ show_bool (is_Optional child) @ '')''\<rparr>]
                        else [])
               else validateItem child (items ! i) (childPath path i)) (\<lambda>rs.
     bind_res (validate_children path (Suc i) children items) (\<lambda>rest. OK (rs @ rest)))"

definition ValidateMessage ::
  "SchemaRegistry \<Rightarrow> byte \<Rightarrow> byte \<Rightarrow> item_ptr \<Rightarrow> (secs2_error, ValidationResult list) res" where
  "ValidateMessage r stream function body =
     (case Get_schema r stream function of
        None \<Rightarrow> OK []
      | Some schema \<Rightarrow>
          (case ms_Body schema of
             None \<Rightarrow>
               bind_res (case body of None \<Rightarrow> OK 0 | Some _ \<Rightarrow> Len body) (\<lambda>n.
                 OK [if n > 0
                     then \<lparr>vr_Level = LevelWarn, vr_Path = [],
                           vr_Message = sf_name stream function @ '': body present but not expected''\<rparr>
                     else \<lparr>vr_Level = LevelPass, vr_Path = [],
                           vr_Message = sf_name stream function @ '': no body expected (OK)''\<rparr>])
           | Some shape \<Rightarrow>
               (case body of
                  None \<Rightarrow> OK (fail_at [] (sf_name stream function @ '': body missing''))
                | Some _ \<Rightarrow> validateItem shape body [])))"

definition MaxLevel :: "ValidationResult list \<Rightarrow> Level" where
  "MaxLevel results = fold (\<lambda>r m. if vr_Level r > m then vr_Level r else m) results LevelPass"

definition FormatResults :: "ValidationResult list \<Rightarrow> string" where
  "FormatResults results =
     concat (map (\<lambda>r. ''['' @ Level_String (vr_Level r) @ ''] '' @ vr_Message r @ [CHR 0x0A]) results)"

section \<open>The standard schemas\<close>

definition schemas_S1 :: "MessageSchema list" where
  "schemas_S1 =
    [MessageSchema 1 1 ''Are You There'' HostToEquip True
        None ''E30'',
     MessageSchema 1 2 ''On Line Data'' EquipToHost False
        (Some (ItemSchema FormatList ''S1F2'' 2 2 [
                ItemSchema FormatASCII ''MDLN'' 0 (-1) [] [] False,
                ItemSchema FormatASCII ''SOFTREV'' 0 (-1) [] [] False] [] False)) ''E30'',
     MessageSchema 1 3 ''Selected Equipment Status Request'' HostToEquip True
        None ''E30'',
     MessageSchema 1 4 ''Selected Equipment Status Data'' EquipToHost False
        (Some (ItemSchema FormatList ''S1F4'' 0 (-1) [] [] False)) ''E30'',
     MessageSchema 1 11 ''Status Variable Namelist Request'' HostToEquip True
        None ''E30'',
     MessageSchema 1 12 ''Status Variable Namelist Reply'' EquipToHost False
        (Some (ItemSchema FormatList ''S1F12'' 0 (-1) [] [] False)) ''E30'',
     MessageSchema 1 13 ''Establish Communication Request'' Bidirectional True
        None ''E30'',
     MessageSchema 1 14 ''Establish Communication Ack'' Bidirectional False
        (Some (ItemSchema FormatList ''S1F14'' 2 2 [
                ItemSchema FormatBinary ''COMMACK'' 1 1 [] [0, 1] False,
                ItemSchema FormatList ''MDLN/SOFTREV'' 0 2 [
                    ItemSchema FormatASCII ''MDLN'' 0 (-1) [] [] True,
                    ItemSchema FormatASCII ''SOFTREV'' 0 (-1) [] [] True] [] False] [] False)) ''E30'',
     MessageSchema 1 15 ''Request OFF-LINE'' HostToEquip True
        None ''E30'',
     MessageSchema 1 16 ''OFF-LINE Ack'' EquipToHost False
        (Some (ItemSchema FormatBinary ''OFLACK'' 1 1 [] [0, 1] False)) ''E30'',
     MessageSchema 1 17 ''Request ON-LINE'' HostToEquip True
        None ''E30'',
     MessageSchema 1 18 ''ON-LINE Ack'' EquipToHost False
        (Some (ItemSchema FormatBinary ''ONLACK'' 1 1 [] [0, 1, 2] False)) ''E30'']"

definition schemas_S2 :: "MessageSchema list" where
  "schemas_S2 =
    [MessageSchema 2 13 ''Equipment Constant Request'' HostToEquip True
        None ''E30'',
     MessageSchema 2 14 ''Equipment Constant Data'' EquipToHost False
        (Some (ItemSchema FormatList ''S2F14'' 0 (-1) [] [] False)) ''E30'',
     MessageSchema 2 15 ''New Equipment Constant Send'' HostToEquip True
        (Some (ItemSchema FormatList ''S2F15'' 0 (-1) [] [] False)) ''E30'',
     MessageSchema 2 16 ''New Equipment Constant Ack'' EquipToHost False
        (Some (ItemSchema FormatBinary ''EAC'' 1 1 [] [0, 1, 2, 3] False)) ''E30'',
     MessageSchema 2 29 ''Equipment Constant Namelist Request'' HostToEquip True
        None ''E30'',
     MessageSchema 2 30 ''Equipment Constant Namelist Reply'' EquipToHost False
        (Some (ItemSchema FormatList ''S2F30'' 0 (-1) [] [] False)) ''E30'',
     MessageSchema 2 33 ''Define Report'' HostToEquip True
        (Some (ItemSchema FormatList ''S2F33'' 2 2 [] [] False)) ''E30'',
     MessageSchema 2 34 ''Define Report Ack'' EquipToHost False
        (Some (ItemSchema FormatBinary ''DRACK'' 1 1 [] [0, 1, 2, 3, 4, 5] False)) ''E30'',
     MessageSchema 2 35 ''Link Event Report'' HostToEquip True
        (Some (ItemSchema FormatList ''S2F35'' 2 2 [] [] False)) ''E30'',
     MessageSchema 2 36 ''Link Event Report Ack'' EquipToHost False
        (Some (ItemSchema FormatBinary ''LRACK'' 1 1 [] [0, 1, 2, 3, 4, 5] False)) ''E30'',
     MessageSchema 2 37 ''Enable/Disable Event Report'' HostToEquip True
        (Some (ItemSchema FormatList ''S2F37'' 2 2 [] [] False)) ''E30'',
     MessageSchema 2 38 ''Enable/Disable Event Report Ack'' EquipToHost False
        (Some (ItemSchema FormatBinary ''ERACK'' 1 1 [] [0, 1] False)) ''E30'',
     MessageSchema 2 41 ''Host Command Send'' HostToEquip True
        (Some (ItemSchema FormatList ''S2F41'' 2 2 [
                ItemSchema FormatASCII ''RCMD'' 1 (-1) [] [] False,
                ItemSchema FormatList ''PARAMS'' 0 (-1) [] [] False] [] False)) ''E30'',
     MessageSchema 2 42 ''Host Command Ack'' EquipToHost False
        (Some (ItemSchema FormatList ''S2F42'' 2 2 [
                ItemSchema FormatBinary ''HCACK'' 1 1 [] [0, 1, 2, 3, 4, 5, 6] False,
                ItemSchema FormatList ''CPACK_LIST'' 0 (-1) [] [] False] [] False)) ''E30'']"

definition schemas_S3 :: "MessageSchema list" where
  "schemas_S3 =
    [MessageSchema 3 17 ''Carrier Action Request'' HostToEquip True
        (Some (ItemSchema FormatList ''S3F17'' 3 (-1) [] [] False)) ''E87'',
     MessageSchema 3 18 ''Carrier Action Ack'' EquipToHost False
        (Some (ItemSchema FormatList ''S3F18'' 2 2 [] [] False)) ''E87'']"

definition schemas_S5 :: "MessageSchema list" where
  "schemas_S5 =
    [MessageSchema 5 1 ''Alarm Report Send'' EquipToHost True
        (Some (ItemSchema FormatList ''S5F1'' 3 3 [
                ItemSchema FormatBinary ''ALCD'' 1 1 [] [] False,
                ItemSchema FormatU4 ''ALID'' 1 1 [] [] False,
                ItemSchema FormatASCII ''ALTX'' 0 (-1) [] [] False] [] False)) ''E30'',
     MessageSchema 5 2 ''Alarm Report Ack'' HostToEquip False
        (Some (ItemSchema FormatBinary ''ACKC5'' 1 1 [] [0, 1] False)) ''E30'',
     MessageSchema 5 3 ''Enable/Disable Alarm Send'' HostToEquip True
        (Some (ItemSchema FormatList ''S5F3'' 2 2 [
                ItemSchema FormatBinary ''ALED'' 1 1 [] [] False,
                ItemSchema FormatU4 ''ALID'' 1 1 [] [] False] [] False)) ''E30'',
     MessageSchema 5 4 ''Enable/Disable Alarm Ack'' EquipToHost False
        (Some (ItemSchema FormatBinary ''ACKC5'' 1 1 [] [0, 1] False)) ''E30'',
     MessageSchema 5 5 ''List Alarms Request'' HostToEquip True
        None ''E30'',
     MessageSchema 5 6 ''List Alarms Data'' EquipToHost False
        (Some (ItemSchema FormatList ''S5F6'' 0 (-1) [] [] False)) ''E30'',
     MessageSchema 5 7 ''List Enabled Alarms Request'' HostToEquip True
        None ''E30'',
     MessageSchema 5 8 ''List Enabled Alarms Data'' EquipToHost False
        (Some (ItemSchema FormatList ''S5F8'' 0 (-1) [] [] False)) ''E30'']"

definition schemas_S6 :: "MessageSchema list" where
  "schemas_S6 =
    [MessageSchema 6 11 ''Event Report Send'' EquipToHost True
        (Some (ItemSchema FormatList ''S6F11'' 3 3 [
                ItemSchema FormatU4 ''DATAID'' 1 1 [] [] False,
                ItemSchema FormatU4 ''CEID'' 1 1 [] [] False,
                ItemSchema FormatList ''RPT_LIST'' 0 (-1) [] [] False] [] False)) ''E30'',
     MessageSchema 6 12 ''Event Report Ack'' HostToEquip False
        (Some (ItemSchema FormatBinary ''ACKC6'' 1 1 [] [0, 1] False)) ''E30'']"

definition schemas_S16 :: "MessageSchema list" where
  "schemas_S16 =
    [MessageSchema 16 11 ''Process Job Create Request'' HostToEquip True
        (Some (ItemSchema FormatList ''S16F11'' 3 (-1) [] [] False)) ''E40'',
     MessageSchema 16 12 ''Process Job Create Ack'' EquipToHost False
        (Some (ItemSchema FormatList ''S16F12'' 2 2 [] [] False)) ''E40'',
     MessageSchema 16 15 ''Process Job Command Request'' HostToEquip True
        (Some (ItemSchema FormatList ''S16F15'' 2 2 [] [] False)) ''E40'',
     MessageSchema 16 16 ''Process Job Command Ack'' EquipToHost False
        (Some (ItemSchema FormatList ''S16F16'' 2 2 [] [] False)) ''E40'']"

definition standard_schemas :: "MessageSchema list" where
  "standard_schemas =
     schemas_S1 @ schemas_S2 @ schemas_S3 @ schemas_S5 @ schemas_S6 @ schemas_S16"

definition DefaultRegistry :: SchemaRegistry where
  "DefaultRegistry = fold Register standard_schemas NewSchemaRegistry"

lemmas schemas_defs = schemas_S1_def schemas_S2_def schemas_S3_def schemas_S5_def schemas_S6_def
  schemas_S16_def

section \<open>Reference: what a body must look like\<close>

definition kids :: "Item \<Rightarrow> Item list" where
  "kids it = (if it_format it = FormatList
     then List.map_filter (\<lambda>v. case v of VItem k \<Rightarrow> Some k | _ \<Rightarrow> None) (it_values it) else [])"

definition extent :: "Item \<Rightarrow> nat" where
  "extent it = (case Len (Some it) of OK n \<Rightarrow> n | _ \<Rightarrow> 0)"

fun first_byte_in :: "byte list \<Rightarrow> Item \<Rightarrow> bool" where
  "first_byte_in allowed (MkItem f (VBytes (b # _) # _)) \<longleftrightarrow> b \<in> set allowed"
| "first_byte_in allowed _ \<longleftrightarrow> True"

fun shape_ok :: "ItemSchema \<Rightarrow> Item \<Rightarrow> bool"
and children_ok :: "ItemSchema list \<Rightarrow> Item list \<Rightarrow> bool" where
  "shape_ok (ItemSchema fmt name minLen maxLen children allowed optional) it \<longleftrightarrow>
     it_format it = fmt \<and>
     (minLen > 0 \<longrightarrow> minLen \<le> int (extent it)) \<and> (maxLen \<ge> 0 \<longrightarrow> int (extent it) \<le> maxLen) \<and>
     (fmt = FormatBinary \<and> allowed \<noteq> [] \<longrightarrow> first_byte_in allowed it) \<and>
     (fmt = FormatList \<longrightarrow> children_ok children (kids it))"
| "children_ok (c # cs) (k # ks) \<longleftrightarrow> shape_ok c k \<and> children_ok cs ks"
| "children_ok _ _ \<longleftrightarrow> True"

lemma map_filter_VItem: "List.map_filter (\<lambda>v. case v of VItem k \<Rightarrow> Some k | _ \<Rightarrow> None) (map VItem ks) = ks"
  by (induction ks) (simp_all add: map_filter_simps)

lemma typed_list:
  assumes "typed_item it" and "it_format it = FormatList"
  obtains ks where "it = MkItem FormatList (map VItem ks)" "kids it = ks" "\<forall>k \<in> set ks. typed_item k"
    "Len (Some it) = OK (length ks)" "Items (Some it) = OK (map Some ks)"
proof (cases it)
  case (MkItem f vs)
  with assms have f: "f = FormatList" and vs: "\<forall>v \<in> set vs. \<exists>k. v = VItem k \<and> typed_item k"
    by (auto elim!: typed_child.elims)
  from vs have "\<exists>ks. vs = map VItem ks \<and> (\<forall>k \<in> set ks. typed_item k)"
  proof (induction vs)
    case (Cons v vs)
    then obtain k ks where "v = VItem k" "typed_item k" "vs = map VItem ks" "\<forall>k \<in> set ks. typed_item k"
      by auto
    then show ?case by (intro exI [of _ "k # ks"]) simp
  qed simp
  then obtain ks where ks: "vs = map VItem ks" "\<forall>k \<in> set ks. typed_item k" by blast
  have "those (map as_item_ptr (map VItem ks)) = Some (map Some ks)" by (induction ks) simp_all
  with MkItem f ks show thesis
    by (intro that [of ks]) (simp_all add: kids_def map_filter_VItem format_defs assert_all_def)
qed

lemma typed_Len: "typed_item it \<Longrightarrow> Len (Some it) = OK (extent it)"
  by (cases it) (auto simp: extent_def split: if_splits list.splits goval.splits)

lemma typed_Format: "Item_Format (Some it) = OK (it_format it)"
  by (cases it) simp

lemma typed_byte:
  assumes "typed_item it" and "it_format it = FormatBinary"
  obtains v where "byte_objection allowed (Some it) = OK v" "v = None \<longleftrightarrow> first_byte_in allowed it"
proof (cases it)
  case (MkItem f vs)
  with assms have f: "f = FormatBinary" and "vs = [] \<or> (\<exists>b. vs = [VBytes b])"
    by (auto simp: format_defs split: list.splits goval.splits)
  then consider "vs = []" | "vs = [VBytes []]" | b bs where "vs = [VBytes (b # bs)]"
    by (metis list.exhaust)
  then show thesis
  proof cases
    case (3 b bs)
    with MkItem f show thesis by (intro that [of "if b \<in> set allowed then None else Some b"])
        (simp_all add: byte_objection_def)
  qed (use MkItem f in \<open>auto simp: byte_objection_def intro: that\<close>)
qed

definition no_fail :: "ValidationResult list \<Rightarrow> bool" where
  "no_fail rs \<longleftrightarrow> (\<forall>r \<in> set rs. vr_Level r \<noteq> LevelFail)"

lemma no_fail_simps [simp]:
  "no_fail []" "\<not> no_fail (fail_at path msg)" "no_fail (rs @ rs') \<longleftrightarrow> no_fail rs \<and> no_fail rs'"
  "no_fail (r # rs) \<longleftrightarrow> vr_Level r \<noteq> LevelFail \<and> no_fail rs" "fail_at path msg \<noteq> []"
  by (auto simp: no_fail_def fail_at_def)

definition exact_for :: "ItemSchema \<Rightarrow> bool" where
  "exact_for s \<longleftrightarrow> (\<forall>it path. typed_item it \<longrightarrow>
     (\<exists>rs. validateItem s (Some it) path = OK rs \<and> rs \<noteq> [] \<and> (no_fail rs \<longleftrightarrow> shape_ok s it)))"

lemma children_exact:
  assumes "\<forall>c \<in> set cs. exact_for c" and "\<forall>k \<in> set ks. typed_item k"
  shows "\<exists>rs. validate_children path i cs (map Some ks) = OK rs \<and> (no_fail rs \<longleftrightarrow> children_ok cs (drop i ks))"
  using assms(1)
proof (induction cs arbitrary: i)
  case (Cons c cs)
  then obtain rest where rest: "validate_children path (Suc i) cs (map Some ks) = OK rest"
    "no_fail rest \<longleftrightarrow> children_ok cs (drop (Suc i) ks)" by fastforce
  show ?case
  proof (cases "i < length ks")
    case True
    then have "typed_item (ks ! i)" using assms(2) by simp
    then obtain rs where "validateItem c (Some (ks ! i)) (childPath path i) = OK rs"
      "no_fail rs \<longleftrightarrow> shape_ok c (ks ! i)" using Cons.prems unfolding exact_for_def by (metis list.set_intros(1))
    with True rest show ?thesis by (simp add: Cons_nth_drop_Suc [OF True, symmetric])
  next
    case False
    with rest show ?thesis by (cases cs) simp_all
  qed
qed simp

lemma validate_exact: "exact_for s"
proof (induction s rule: ItemSchema.induct)
  case (ItemSchema fmt name minLen maxLen children allowed optional)
  show ?case
    unfolding exact_for_def
  proof (intro allI impI)
    fix it path assume t: "typed_item it"
    note acc = typed_Len [OF t] typed_Format [of it]
    show "\<exists>rs. validateItem (ItemSchema fmt name minLen maxLen children allowed optional) (Some it) path = OK rs \<and>
        rs \<noteq> [] \<and> (no_fail rs \<longleftrightarrow> shape_ok (ItemSchema fmt name minLen maxLen children allowed optional) it)"
    proof (cases "it_format it = fmt")
      case False
      then show ?thesis by (simp add: acc)
    next
      case f: True
      consider "fmt = FormatList" | "fmt = FormatBinary" | "fmt \<noteq> FormatList" "fmt \<noteq> FormatBinary" by blast
      then show ?thesis
      proof cases
        case 1
        with f t obtain ks where ks: "kids it = ks" "\<forall>k \<in> set ks. typed_item k"
          "Len (Some it) = OK (length ks)" "Items (Some it) = OK (map Some ks)"
          by (metis typed_list)
        have "extent it = length ks" using ks(3) acc(1) by simp
        moreover obtain rs where "validate_children path 0 children (map Some ks) = OK rs"
          "no_fail rs \<longleftrightarrow> children_ok children ks"
          using children_exact [of children ks path 0] ItemSchema ks(2) by auto
        ultimately show ?thesis
          using 1 f ks acc by (auto simp: Let_def format_defs)
      next
        case 2
        with f t obtain v where "byte_objection allowed (Some it) = OK v" "v = None \<longleftrightarrow> first_byte_in allowed it"
          by (metis typed_byte)
        with 2 f acc show ?thesis by (auto simp: Let_def format_defs split: option.split)
      next
        case 3
        with f acc show ?thesis by (auto simp: Let_def)
      qed
    qed
  qed
qed

section \<open>The standard registry\<close>

lemma update_new: "k \<notin> fst ` set m \<Longrightarrow> AList.update k v m = m @ [(k, v)]"
  by (induction m) auto

lemma fold_Register:
  assumes "distinct (map fst r @ map (\<lambda>s. (ms_Stream s, ms_Function s)) ss)"
  shows "fold Register ss r = r @ map (\<lambda>s. ((ms_Stream s, ms_Function s), s)) ss"
  using assms
proof (induction ss arbitrary: r)
  case (Cons s ss)
  then have "Register s r = r @ [((ms_Stream s, ms_Function s), s)]"
    by (auto simp: Register_def update_new)
  with Cons show ?case by simp
qed simp

lemma standard_keys_distinct: "distinct (map (\<lambda>s. (ms_Stream s, ms_Function s)) standard_schemas)"
  by (simp add: standard_schemas_def schemas_defs)

lemma DefaultRegistry_eq:
  "DefaultRegistry = map (\<lambda>s. ((ms_Stream s, ms_Function s), s)) standard_schemas"
  unfolding DefaultRegistry_def NewSchemaRegistry_def
  using fold_Register [of "[]" standard_schemas] standard_keys_distinct by simp

lemma Get_standard:
  "Get_schema DefaultRegistry s f =
     map_of (map (\<lambda>s. ((ms_Stream s, ms_Function s), s)) standard_schemas) (s, f)"
  by (simp add: Get_schema_def DefaultRegistry_eq)

lemmas standard_lookup = Get_standard standard_schemas_def schemas_defs

lemma MaxLevel_Pass: "MaxLevel rs = LevelPass \<longleftrightarrow> (\<forall>r \<in> set rs. vr_Level r = LevelPass)"
proof -
  have "fold (\<lambda>r m. if vr_Level r > m then vr_Level r else m) rs m = LevelPass \<longleftrightarrow>
      m = LevelPass \<and> (\<forall>r \<in> set rs. vr_Level r = LevelPass)" for m
  proof (induction rs arbitrary: m)
    case (Cons r rs)
    have "(if vr_Level r > m then vr_Level r else m) = LevelPass \<longleftrightarrow> m = LevelPass \<and> vr_Level r = LevelPass"
      by (cases m; cases "vr_Level r") (simp_all add: less_Level_def)
    with Cons show ?case by auto
  qed simp
  then show ?thesis by (simp add: MaxLevel_def)
qed

lemma MaxLevel_Fail: "MaxLevel rs \<noteq> LevelFail \<longleftrightarrow> no_fail rs"
proof -
  have "fold (\<lambda>r m. if vr_Level r > m then vr_Level r else m) rs m \<noteq> LevelFail \<longleftrightarrow>
      m \<noteq> LevelFail \<and> no_fail rs" for m
  proof (induction rs arbitrary: m)
    case (Cons r rs)
    have "(if vr_Level r > m then vr_Level r else m) \<noteq> LevelFail \<longleftrightarrow> m \<noteq> LevelFail \<and> vr_Level r \<noteq> LevelFail"
      by (cases m; cases "vr_Level r") (simp_all add: less_Level_def)
    with Cons show ?case by auto
  qed simp
  then show ?thesis by (simp add: MaxLevel_def)
qed

text \<open>C32. Validation of a body against any schema. For every correctly typed item the validator ends
  without a panic, reports something, and reports a failure exactly when the item does not have the
  shape the schema describes, at every depth: its format, the number of its elements, the first byte
  of a binary and the children that are present.
\<close>

theorem schema_validation_exact:
  assumes "Get_schema r stream function = Some schema" and "ms_Body schema = Some shape"
    and "typed_item it"
  shows "\<exists>rs. ValidateMessage r stream function (Some it) = OK rs \<and> rs \<noteq> [] \<and>
           (MaxLevel rs \<noteq> LevelFail \<longleftrightarrow> shape_ok shape it)"
  using validate_exact [of shape] assms
  unfolding exact_for_def MaxLevel_Fail by (simp add: ValidateMessage_def)

theorem schema_validation_exact_witness:
  "\<exists>rs. ValidateMessage DefaultRegistry 2 42 (Some (command_reply 9)) = OK rs \<and> rs \<noteq> [] \<and>
      MaxLevel rs = LevelFail"
proof -
  have "Get_schema DefaultRegistry 2 42 = Some (MessageSchema 2 42 ''Host Command Ack'' EquipToHost False
        (Some (ItemSchema FormatList ''S2F42'' 2 2 [
                ItemSchema FormatBinary ''HCACK'' 1 1 [] [0, 1, 2, 3, 4, 5, 6] False,
                ItemSchema FormatList ''CPACK_LIST'' 0 (-1) [] [] False] [] False)) ''E30'')"
    by (simp add: standard_lookup)
  moreover have "typed_item (command_reply 9)"
    by (simp add: command_reply_def ack_def NewBinary_def format_defs)
  moreover have "kids (command_reply 9) = [ack 9, NewList []]" "it_format (command_reply 9) = FormatList"
    "extent (command_reply 9) = 2"
    by (simp_all add: command_reply_def NewList_def kids_def extent_def ptr_val_def map_filter_simps)
  then have "\<not> shape_ok (ItemSchema FormatList ''S2F42'' 2 2 [
                ItemSchema FormatBinary ''HCACK'' 1 1 [] [0, 1, 2, 3, 4, 5, 6] False,
                ItemSchema FormatList ''CPACK_LIST'' 0 (-1) [] [] False] [] False) (command_reply 9)"
    by (simp add: ack_def NewBinary_def format_defs)
  ultimately show ?thesis using schema_validation_exact [of DefaultRegistry 2 42] by fastforce
qed

section \<open>The handler's messages\<close>

definition passes :: "byte \<Rightarrow> byte \<Rightarrow> Item \<Rightarrow> bool" where
  "passes s f it \<longleftrightarrow>
     (\<exists>rs. ValidateMessage DefaultRegistry s f (Some it) = OK rs \<and> MaxLevel rs = LevelPass)"

lemma ack_simps [simp]:
  "Item_Format (Some (ack b)) = OK FormatBinary" "Len (Some (ack b)) = OK 1" "ToBinary (Some (ack b)) = OK [b]"
  by (simp_all add: ack_def NewBinary_def)

lemma text_simps [simp]:
  "Item_Format (Some (NewASCII t)) = OK FormatASCII" "Len (Some (NewASCII t)) = OK (length t)"
  by (simp_all add: NewASCII_def)

lemma u4_one_simps [simp]:
  "Item_Format (Some (NewU4 [n])) = OK FormatU4" "Len (Some (NewU4 [n])) = OK 1"
  by (simp_all add: NewU4_def format_defs)

lemmas pass_simps = passes_def ValidateMessage_def MaxLevel_Pass standard_lookup Let_def
  byte_objection_def format_defs

lemma NewList_Format [simp]: "Item_Format (Some (NewList ps)) = OK FormatList"
  by (simp add: NewList_def)

text \<open>The acknowledge codes and the lists the handlers answer with.\<close>

definition reply_kind :: "CommandManager \<Rightarrow> byte \<Rightarrow> byte \<Rightarrow> Item \<Rightarrow> bool" where
  "reply_kind cmds s f it \<longleftrightarrow>
     (s, f) \<in> {(1, 15), (1, 17), (2, 15), (2, 33), (2, 35), (2, 37), (5, 3)} \<and> it \<in> {ack 0, ack 1} \<or>
     (s, f) \<in> {(1, 3), (1, 11), (2, 13), (2, 29), (5, 5), (5, 7)} \<and> (\<exists>ps. it = NewList ps) \<or>
     (s, f) = (1, 1) \<and> (\<exists>a b. it = NewList [Some (NewASCII a), Some (NewASCII b)]) \<or>
     (s, f) = (1, 13) \<and> (\<exists>a b. it = NewList [Some (ack 0), Some (NewList [Some (NewASCII a), Some (NewASCII b)])]) \<or>
     (s, f) = (2, 41) \<and> (\<exists>st. it = command_reply st \<and>
        (st \<in> {CommandInvalidCommand, CommandParameterError} \<or>
         (\<exists>nm fn params. map_of cmds nm = Some (Some fn) \<and> st = fn params)))"

lemma bind_last: "bind_res r k = OK x \<Longrightarrow> (\<And>y. k y = OK x \<Longrightarrow> P) \<Longrightarrow> P"
  by (cases r) simp_all

lemma list_reply_S1F3: "handleS1F3 ord data h = OK it \<Longrightarrow> \<exists>ps. it = NewList ps"
  unfolding handleS1F3_def by (auto split: if_splits elim!: bind_last)

lemma list_reply_S2F13: "handleS2F13 ord data h = OK it \<Longrightarrow> \<exists>ps. it = NewList ps"
  unfolding handleS2F13_def by (auto split: if_splits elim!: bind_last)

lemma list_reply_names:
  "handleS1F11 ord h = OK it \<Longrightarrow> \<exists>ps. it = NewList ps"
  "handleS2F29 ord h = OK it \<Longrightarrow> \<exists>ps. it = NewList ps"
  unfolding handleS1F11_def handleS2F29_def by (auto elim!: bind_last)

lemma keep_OK: "keep h r = OK (h', it) \<longleftrightarrow> h' = h \<and> r = OK it"
  by (cases r) (auto simp: keep_def)

lemmas list_replies = list_reply_S1F3 list_reply_S2F13 list_reply_names

lemma ack_reply_S2F15: "handleS2F15 data h = OK (h', it) \<Longrightarrow> it = ack 0 \<or> it = ack 1"
  by (auto simp: handleS2F15_def res_simps Let_def split: if_splits)

lemma ack_reply_S2F33: "handleS2F33 data h = OK (h', it) \<Longrightarrow> it = ack 0 \<or> it = ack 1"
  by (auto simp: handleS2F33_def res_simps Let_def split: if_splits)

lemma ack_reply_S2F35: "handleS2F35 data h = OK (h', it) \<Longrightarrow> it = ack 0 \<or> it = ack 1"
  by (auto simp: handleS2F35_def res_simps Let_def split: if_splits)

lemma ack_reply_S2F37: "handleS2F37 data h = OK (h', it) \<Longrightarrow> it = ack 0 \<or> it = ack 1"
  by (auto simp: handleS2F37_def res_simps Let_def split: if_splits)

lemma ack_reply_S5F3: "handleS5F3 data h = OK (h', it) \<Longrightarrow> it = ack 0 \<or> it = ack 1"
  by (auto simp: handleS5F3_def res_simps Let_def split: if_splits)

lemmas ack_replies = ack_reply_S2F15 ack_reply_S2F33 ack_reply_S2F35 ack_reply_S2F37 ack_reply_S5F3

lemma Execute_status:
  "Execute cmds nm params = OK st \<Longrightarrow>
     st = CommandInvalidCommand \<or> (\<exists>fn. map_of cmds nm = Some (Some fn) \<and> st = fn params)"
  by (auto simp: Execute_def split: option.splits)

lemma command_replies:
  "handleS2F41 data h = OK (h', it) \<Longrightarrow>
     \<exists>st. it = command_reply st \<and> (st \<in> {CommandInvalidCommand, CommandParameterError} \<or>
        (\<exists>nm fn params. map_of (h_commands h) nm = Some (Some fn) \<and> st = fn params))"
  by (auto simp: handleS2F41_def res_simps dest!: Execute_status split: if_splits)

lemma builtin_reply_kind:
  "builtin ord s f data h = Some (OK (h', it)) \<Longrightarrow> reply_kind (h_commands h) s f it"
  unfolding builtin_def
  by (auto simp: reply_kind_def handleS1F1_def handleS1F13_def handleS1F15_def handleS1F17_def
      handleS5F5_def handleS5F7_def Let_def keep_OK
      dest!: list_replies ack_replies command_replies split: if_splits res.splits)

definition body_shape :: "byte \<Rightarrow> byte \<Rightarrow> ItemSchema option" where
  "body_shape s f = Option.bind (Get_schema DefaultRegistry s f) ms_Body"

lemma body_shape_S1:
  "body_shape 1 16 = Some (ItemSchema FormatBinary ''OFLACK'' 1 1 [] [0, 1] False)"
  "body_shape 1 18 = Some (ItemSchema FormatBinary ''ONLACK'' 1 1 [] [0, 1, 2] False)"
  "body_shape 1 4 = Some (ItemSchema FormatList ''S1F4'' 0 (-1) [] [] False)"
  "body_shape 1 12 = Some (ItemSchema FormatList ''S1F12'' 0 (-1) [] [] False)"
  by (simp_all add: body_shape_def standard_lookup)

lemma body_shape_S2:
  "body_shape 2 16 = Some (ItemSchema FormatBinary ''EAC'' 1 1 [] [0, 1, 2, 3] False)"
  "body_shape 2 34 = Some (ItemSchema FormatBinary ''DRACK'' 1 1 [] [0, 1, 2, 3, 4, 5] False)"
  "body_shape 2 36 = Some (ItemSchema FormatBinary ''LRACK'' 1 1 [] [0, 1, 2, 3, 4, 5] False)"
  "body_shape 2 38 = Some (ItemSchema FormatBinary ''ERACK'' 1 1 [] [0, 1] False)"
  "body_shape 2 14 = Some (ItemSchema FormatList ''S2F14'' 0 (-1) [] [] False)"
  "body_shape 2 30 = Some (ItemSchema FormatList ''S2F30'' 0 (-1) [] [] False)"
  by (simp_all add: body_shape_def standard_lookup)

lemma body_shape_S5:
  "body_shape 5 4 = Some (ItemSchema FormatBinary ''ACKC5'' 1 1 [] [0, 1] False)"
  "body_shape 5 6 = Some (ItemSchema FormatList ''S5F6'' 0 (-1) [] [] False)"
  "body_shape 5 8 = Some (ItemSchema FormatList ''S5F8'' 0 (-1) [] [] False)"
  by (simp_all add: body_shape_def standard_lookup)

lemma body_shape_structured:
  "body_shape 1 2 = Some (ItemSchema FormatList ''S1F2'' 2 2 [
      ItemSchema FormatASCII ''MDLN'' 0 (-1) [] [] False,
      ItemSchema FormatASCII ''SOFTREV'' 0 (-1) [] [] False] [] False)"
  "body_shape 1 14 = Some (ItemSchema FormatList ''S1F14'' 2 2 [
      ItemSchema FormatBinary ''COMMACK'' 1 1 [] [0, 1] False,
      ItemSchema FormatList ''MDLN/SOFTREV'' 0 2 [
        ItemSchema FormatASCII ''MDLN'' 0 (-1) [] [] True,
        ItemSchema FormatASCII ''SOFTREV'' 0 (-1) [] [] True] [] False] [] False)"
  "body_shape 2 42 = Some (ItemSchema FormatList ''S2F42'' 2 2 [
      ItemSchema FormatBinary ''HCACK'' 1 1 [] [0, 1, 2, 3, 4, 5, 6] False,
      ItemSchema FormatList ''CPACK_LIST'' 0 (-1) [] [] False] [] False)"
  "body_shape 5 1 = Some (ItemSchema FormatList ''S5F1'' 3 3 [
      ItemSchema FormatBinary ''ALCD'' 1 1 [] [] False,
      ItemSchema FormatU4 ''ALID'' 1 1 [] [] False,
      ItemSchema FormatASCII ''ALTX'' 0 (-1) [] [] False] [] False)"
  "body_shape 6 11 = Some (ItemSchema FormatList ''S6F11'' 3 3 [
      ItemSchema FormatU4 ''DATAID'' 1 1 [] [] False,
      ItemSchema FormatU4 ''CEID'' 1 1 [] [] False,
      ItemSchema FormatList ''RPT_LIST'' 0 (-1) [] [] False] [] False)"
  by (simp_all add: body_shape_def standard_lookup)

lemma passes_shape:
  "body_shape s f = Some shape \<Longrightarrow>
     passes s f it \<longleftrightarrow> (\<exists>rs. validateItem shape (Some it) [] = OK rs \<and> (\<forall>r \<in> set rs. vr_Level r = LevelPass))"
  by (auto simp: body_shape_def passes_def ValidateMessage_def MaxLevel_Pass bind_eq_Some_conv)

lemma open_list_valid:
  "validateItem (ItemSchema FormatList nm 0 (-1) [] [] opt) (Some (NewList ps)) path =
     OK [\<lparr>vr_Level = LevelPass, vr_Path = path, vr_Message = nameOrPath nm path @ '': valid''\<rparr>]"
  by (simp add: Let_def format_defs)

lemma ack_valid:
  "b \<in> set allowed \<or> allowed = [] \<Longrightarrow>
   validateItem (ItemSchema FormatBinary nm 1 1 [] allowed opt) (Some (ack b)) path =
     OK [\<lparr>vr_Level = LevelPass, vr_Path = path, vr_Message = nameOrPath nm path @ '': valid''\<rparr>]"
  by (auto simp: Let_def format_defs byte_objection_def)

lemma leaf_valid:
  "validateItem (ItemSchema FormatASCII nm 0 (-1) [] [] opt) (Some (NewASCII t)) path =
     OK [\<lparr>vr_Level = LevelPass, vr_Path = path, vr_Message = nameOrPath nm path @ '': valid''\<rparr>]"
  "validateItem (ItemSchema FormatU4 nm 1 1 [] [] opt) (Some (NewU4 [n])) path =
     OK [\<lparr>vr_Level = LevelPass, vr_Path = path, vr_Message = nameOrPath nm path @ '': valid''\<rparr>]"
  by (simp_all add: Let_def format_defs)

lemma struct_valid:
  assumes "validate_children path 0 cs ps = OK rs" and "minLen \<le> int (length ps)" and "int (length ps) \<le> maxLen"
    and "cs \<noteq> []" and "rs \<noteq> []"
  shows "validateItem (ItemSchema FormatList nm minLen maxLen cs [] opt) (Some (NewList ps)) path = OK rs"
  using assms by (simp add: Let_def format_defs)

lemma reply_passes:
  assumes "reply_kind cmds s f it"
    and "\<forall>nm fn params. map_of cmds nm = Some (Some fn) \<longrightarrow> fn params \<le> 6"
  shows "passes s (f + 1) it"
proof -
  have status: "b \<in> {0, 1, 2, 3, 4, 5, 6}" if "b \<le> 6" for b :: byte
  proof -
    have "unat b \<le> 6" using that by (simp add: word_le_nat_alt)
    then have "unat b \<in> {0, 1, 2, 3, 4, 5, 6}" by auto
    then have "(word_of_nat (unat b) :: byte) \<in> {0, 1, 2, 3, 4, 5, 6}" by (elim insertE) simp_all
    then show ?thesis by simp
  qed
  have cmd: "passes 2 42 (command_reply st)" if "st \<le> 6" for st
    using status [OF that]
    by (auto simp: passes_shape [OF body_shape_structured(3)] command_reply_def struct_valid
        ack_valid open_list_valid simp del: validateItem.simps)
  show ?thesis
    using assms(1) unfolding reply_kind_def
  proof (elim disjE conjE exE)
    assume "(s, f) \<in> {(1, 15), (1, 17), (2, 15), (2, 33), (2, 35), (2, 37), (5, 3)}" "it \<in> {ack 0, ack 1}"
    then show ?thesis
      by (auto simp: body_shape_S1 body_shape_S2 body_shape_S5 passes_shape ack_valid
          simp del: validateItem.simps)
  next
    fix ps assume "(s, f) \<in> {(1, 3), (1, 11), (2, 13), (2, 29), (5, 5), (5, 7)}" "it = NewList ps"
    then show ?thesis
      by (auto simp: body_shape_S1 body_shape_S2 body_shape_S5 passes_shape open_list_valid
          simp del: validateItem.simps)
  next
    fix a b assume "(s, f) = (1, 1)" "it = NewList [Some (NewASCII a), Some (NewASCII b)]"
    then show ?thesis
      by (simp add: passes_shape [OF body_shape_structured(1)] struct_valid leaf_valid del: validateItem.simps)
  next
    fix a b assume "(s, f) = (1, 13)"
      "it = NewList [Some (ack 0), Some (NewList [Some (NewASCII a), Some (NewASCII b)])]"
    then show ?thesis
      by (simp add: passes_shape [OF body_shape_structured(2)] struct_valid leaf_valid ack_valid
          del: validateItem.simps)
  next
    fix st assume "(s, f) = (2, 41)" "it = command_reply st"
      "st \<in> {CommandInvalidCommand, CommandParameterError}"
    then show ?thesis using cmd [of st] by (auto simp: CommandInvalidCommand_def CommandParameterError_def)
  next
    fix st nm fn params assume "(s, f) = (2, 41)" "it = command_reply st"
      "map_of cmds nm = Some (Some fn)" "st = fn params"
    then show ?thesis using cmd [of st] assms(2) by auto
  qed
qed

text \<open>C8. The handler speaks the schema: every reply a built-in handler gives, whatever the request body,
  passes the schema registered for the reply without a warning, and so do the alarm and event
  reports the equipment sends, provided the registered commands answer with a defined status code.
\<close>

theorem handler_messages_conform:
  assumes "\<forall>nm fn params. map_of (h_commands h) nm = Some (Some fn) \<longrightarrow> fn params \<le> 6"
  shows "(builtin ord s f data h = Some (OK (h', it)) \<longrightarrow> passes s (f + 1) it) \<and>
         passes 5 1 (alarm_report a is_set) \<and> passes 6 11 (event_report d c reps h)"
proof (intro conjI impI)
  show "passes s (f + 1) it" if "builtin ord s f data h = Some (OK (h', it))"
    using builtin_reply_kind [OF that] reply_passes assms by blast
  show "passes 5 1 (alarm_report a is_set)"
    by (simp add: passes_shape [OF body_shape_structured(4)] alarm_report_def struct_valid leaf_valid
        ack_valid del: validateItem.simps)
  show "passes 6 11 (event_report d c reps h)"
    by (simp add: passes_shape [OF body_shape_structured(5)] event_report_def struct_valid leaf_valid
        open_list_valid del: validateItem.simps)
qed

theorem handler_messages_conform_witness:
  "\<exists>h' it. builtin id 1 13 [] (demo_handler\<lparr>h_commands := [(''START'', Some (\<lambda>_. CommandOK))]\<rparr>) = Some (OK (h', it)) \<and>
     passes 1 14 it"
proof -
  let ?h = "demo_handler\<lparr>h_commands := [(''START'', Some (\<lambda>_. CommandOK))]\<rparr>"
  have "\<forall>nm fn params. map_of (h_commands ?h) nm = Some (Some fn) \<longrightarrow> fn params \<le> 6"
    by (simp add: CommandOK_def)
  note conform = handler_messages_conform [OF this, of id 1 13 "[]"]
  have "\<exists>h' it. builtin id 1 13 [] ?h = Some (OK (h', it))" by (simp add: builtin_def handleS1F13_def Let_def)
  with conform show ?thesis by fastforce
qed

text \<open>
  The requests are not all described: S1F3, documented to carry a list of identifiers, is registered
  without a body, so the validator warns about every request that names a variable, although the
  handler answers it.
\<close>

theorem status_request_flagged:
  assumes "ids \<noteq> []"
  shows "\<exists>r. ValidateMessage DefaultRegistry 1 3 (Some (u4_list ids)) = OK [r] \<and> vr_Level r = LevelWarn"
proof -
  have "Get_schema DefaultRegistry 1 3 =
      Some (MessageSchema 1 3 ''Selected Equipment Status Request'' HostToEquip True None ''E30'')"
    by (simp add: standard_lookup)
  with assms show ?thesis by (simp add: ValidateMessage_def u4_list_def)
qed

theorem status_request_flagged_witness:
  "\<exists>r. ValidateMessage DefaultRegistry 1 3 (Some (u4_list [1001])) = OK [r] \<and> vr_Level r = LevelWarn"
  by (rule status_request_flagged) simp

section \<open>The coverage report\<close>

text \<open>\<^verbatim>\<open>pkg/validator/report.go\<close>: the pairs the built-in handler deals with, and the table that
  compares them with the registry.\<close>

definition handled_requests :: "(byte \<times> byte) list" where
  "handled_requests =
     [(1, 1), (1, 3), (1, 11), (1, 13), (1, 15), (1, 17), (2, 13), (2, 15), (2, 29),
      (2, 33), (2, 35), (2, 37), (2, 41), (5, 3), (5, 5), (5, 7)]"

definition handled_replies :: "(byte \<times> byte) list" where
  "handled_replies =
     [(1, 2), (1, 4), (1, 12), (1, 14), (1, 16), (1, 18), (2, 14), (2, 16), (2, 30),
      (2, 34), (2, 36), (2, 38), (2, 42), (5, 4), (5, 6), (5, 8)]"

definition handledSFs :: "(byte \<times> byte) list" where
  "handledSFs = handled_requests @ handled_replies @ [(5, 1), (6, 11)]"

lemma handled_requests_builtin:
  "(s, f) \<in> set handled_requests \<longleftrightarrow> builtin ord s f data h \<noteq> None"
  by (auto simp: handled_requests_def builtin_def)

lemma handled_replies_follow: "handled_replies = map (\<lambda>(s, f). (s, f + 1)) handled_requests"
  by (simp add: handled_replies_def handled_requests_def)

end
