(* ===== verification/Validator_Timing.thy ===== *)
theory Validator_Timing
  imports Validator_Schema Go_Arith
begin

text \<open>
  The timing validator (\<^verbatim>\<open>pkg/validator/timing.go\<close>): outstanding requests, completed
  transactions with a verdict against the HSMS timeouts, overdue requests and the check for repeated
  system bytes. The clock is an argument. The lemmas relate the tracker to the history of messages
  it was told about and show that the floating point test decides the 80 percent threshold exactly.
\<close>

section \<open>The tracker\<close>

datatype TimingStatus = TimingOK | TimingWarning | TimingViolation

fun TimingStatus_String :: "TimingStatus \<Rightarrow> string" where
  "TimingStatus_String TimingOK = ''OK''"
| "TimingStatus_String TimingWarning = ''WARNING''"
| "TimingStatus_String TimingViolation = ''VIOLATION''"

record TimingConfig =
  tc_T3 :: int
  tc_T5 :: int
  tc_T6 :: int
  tc_T7 :: int
  tc_T8 :: int

definition second :: int where "second = 1000000000"

definition DefaultTimingConfig :: TimingConfig where
  "DefaultTimingConfig =
     \<lparr>tc_T3 = 45 * second, tc_T5 = 10 * second, tc_T6 = 5 * second, tc_T7 = 10 * second, tc_T8 = 5 * second\<rparr>"

record PendingTransaction =
  pt_SystemID :: uint32
  pt_Stream :: byte
  pt_Function :: byte
  pt_SentAt :: int
  pt_IsControl :: bool

text \<open>\<open>tt_ReplyAt\<close> is \<open>None\<close> for the zero time of a transaction that has no reply.\<close>

record TransactionTiming =
  tt_SystemID :: uint32
  tt_Stream :: byte
  tt_Function :: byte
  tt_SentAt :: int
  tt_ReplyAt :: "int option"
  tt_Duration :: int
  tt_TimeoutName :: string
  tt_TimeoutLimit :: int
  tt_Status :: TimingStatus

record TimingTracker =
  trk_pending :: "(uint32, PendingTransaction) gomap"
  trk_completed :: "TransactionTiming list"
  trk_config :: TimingConfig

definition NewTimingTracker :: "TimingConfig \<Rightarrow> TimingTracker" where
  "NewTimingTracker cfg = \<lparr>trk_pending = [], trk_completed = [], trk_config = cfg\<rparr>"

definition OnSend :: "int \<Rightarrow> uint32 \<Rightarrow> byte \<Rightarrow> byte \<Rightarrow> bool \<Rightarrow> bool \<Rightarrow> TimingTracker \<Rightarrow> TimingTracker" where
  "OnSend now systemID stream function wBit isControl tt =
     (if \<not> wBit then tt
      else tt\<lparr>trk_pending := AList.update systemID
                \<lparr>pt_SystemID = systemID, pt_Stream = stream, pt_Function = function, pt_SentAt = now,
                 pt_IsControl = isControl\<rparr> (trk_pending tt)\<rparr>)"

definition timeout_of :: "TimingConfig \<Rightarrow> PendingTransaction \<Rightarrow> string \<times> int" where
  "timeout_of cfg pend = (if pt_IsControl pend then (''T6'', tc_T6 cfg) else (''T3'', tc_T3 cfg))"

text \<open>The double nearest to 0.8.\<close>

definition f64_0_8 :: float64 where "f64_0_8 = 0x3FE999999999999A"

definition timing_status :: "int \<Rightarrow> int \<Rightarrow> TimingStatus" where
  "timing_status duration limit =
     (if duration > limit then TimingViolation
      else if f64_less (f64_mul (f64_of_int limit) f64_0_8) (f64_of_int duration) then TimingWarning
      else TimingOK)"

definition OnReceive :: "int \<Rightarrow> uint32 \<Rightarrow> TimingTracker \<Rightarrow> TimingTracker \<times> TransactionTiming option" where
  "OnReceive now systemID tt =
     (case map_of (trk_pending tt) systemID of
        None \<Rightarrow> (tt, None)
      | Some pend \<Rightarrow>
          let duration = Sub_time now (pt_SentAt pend);
              (timeoutName, limit) = timeout_of (trk_config tt) pend;
              result = \<lparr>tt_SystemID = systemID, tt_Stream = pt_Stream pend, tt_Function = pt_Function pend,
                        tt_SentAt = pt_SentAt pend, tt_ReplyAt = Some now, tt_Duration = duration,
                        tt_TimeoutName = timeoutName, tt_TimeoutLimit = limit,
                        tt_Status = timing_status duration limit\<rparr>
          in (tt\<lparr>trk_pending := AList.delete systemID (trk_pending tt),
                 trk_completed := trk_completed tt @ [result]\<rparr>, Some result))"

definition overdue :: "int \<Rightarrow> TimingConfig \<Rightarrow> PendingTransaction \<Rightarrow> TransactionTiming list" where
  "overdue now cfg pend =
     (let (timeoutName, limit) = timeout_of cfg pend;
          elapsed = Sub_time now (pt_SentAt pend)
      in if elapsed > limit
         then [\<lparr>tt_SystemID = pt_SystemID pend, tt_Stream = pt_Stream pend, tt_Function = pt_Function pend,
                tt_SentAt = pt_SentAt pend, tt_ReplyAt = None, tt_Duration = elapsed,
                tt_TimeoutName = timeoutName, tt_TimeoutLimit = limit, tt_Status = TimingViolation\<rparr>]
         else [])"

definition CheckPending ::
  "(uint32 list \<Rightarrow> uint32 list) \<Rightarrow> int \<Rightarrow> TimingTracker \<Rightarrow> TransactionTiming list" where
  "CheckPending ord now tt =
     concat (map (\<lambda>sid. case map_of (trk_pending tt) sid of
         None \<Rightarrow> [] | Some pend \<Rightarrow> overdue now (trk_config tt) pend)
       (ord (map fst (trk_pending tt))))"

definition PendingCount :: "TimingTracker \<Rightarrow> nat" where
  "PendingCount tt = length (trk_pending tt)"

text \<open>\<^verbatim>\<open>%08X\<close> of a 32-bit number.\<close>

fun hex_pad :: "nat \<Rightarrow> nat \<Rightarrow> string" where
  "hex_pad 0 n = []"
| "hex_pad (Suc k) n = hex_pad k (n div 16) @ [hex_digit (n mod 16)]"

definition id_count :: "TransactionTiming list \<Rightarrow> uint32 \<Rightarrow> nat" where
  "id_count ts sid = length (filter (\<lambda>t. tt_SystemID t = sid) ts)"

definition CheckSystemByteUniqueness ::
  "(uint32 list \<Rightarrow> uint32 list) \<Rightarrow> TimingTracker \<Rightarrow> ValidationResult list" where
  "CheckSystemByteUniqueness ord tt =
     (let seen = remdups (map tt_SystemID (trk_completed tt));
          results = concat (map (\<lambda>sid. if id_count (trk_completed tt) sid > 1
              then [\<lparr>vr_Level = LevelFail, vr_Path = [],
                     vr_Message = ''duplicate system byte: 0x'' @ hex_pad 8 (unat sid) @ '' used '' @
                       decimal (id_count (trk_completed tt) sid) @ '' times''\<rparr>]
              else []) (ord seen))
      in if results \<noteq> [] then results
         else [\<lparr>vr_Level = LevelPass, vr_Path = [], vr_Message = ''system byte uniqueness: no duplicates''\<rparr>])"

definition timing_Reset :: "TimingTracker \<Rightarrow> TimingTracker" where
  "timing_Reset tt = tt\<lparr>trk_pending := [], trk_completed := []\<rparr>"

section \<open>The tracker and the history\<close>

datatype timing_event = Sent int uint32 byte byte bool bool | Received int uint32

fun timing_step :: "timing_event \<Rightarrow> TimingTracker \<Rightarrow> TimingTracker" where
  "timing_step (Sent now sid s f w c) tt = OnSend now sid s f w c tt"
| "timing_step (Received now sid) tt = fst (OnReceive now sid tt)"

text \<open>The request that a reply with this system id would answer: looking back over the history, the
  last request with a W-bit, unless a reply came after it.\<close>

fun open_request :: "uint32 \<Rightarrow> timing_event list \<Rightarrow> PendingTransaction option" where
  "open_request sid [] = None"
| "open_request sid (Sent now sid' s f w c # back) =
     (if w \<and> sid' = sid
      then Some \<lparr>pt_SystemID = sid, pt_Stream = s, pt_Function = f, pt_SentAt = now, pt_IsControl = c\<rparr>
      else open_request sid back)"
| "open_request sid (Received now sid' # back) = (if sid' = sid then None else open_request sid back)"

definition timing_run :: "TimingConfig \<Rightarrow> timing_event list \<Rightarrow> TimingTracker" where
  "timing_run cfg hist = fold timing_step hist (NewTimingTracker cfg)"

lemma timing_run_snoc: "timing_run cfg (hist @ [e]) = timing_step e (timing_run cfg hist)"
  by (simp add: timing_run_def)

lemma OnReceive_pending:
  "trk_pending (fst (OnReceive now sid tt)) = AList.delete sid (trk_pending tt)"
  by (auto simp: OnReceive_def Let_def case_prod_unfold delete_idem dest: map_of_SomeD split: option.split)
    (metis delete_id domIff dom_map_of_conv_image_fst)

lemma timing_frame: "trk_config (timing_step e tt) = trk_config tt"
  by (cases e) (auto simp: OnSend_def OnReceive_def Let_def case_prod_unfold split: option.split)

lemma timing_run_config: "trk_config (timing_run cfg hist) = cfg"
  by (induction hist rule: rev_induct) (simp_all add: timing_run_snoc timing_frame, simp add: timing_run_def NewTimingTracker_def)

lemma timing_run_pending:
  "distinct (map fst (trk_pending (timing_run cfg hist))) \<and>
   map_of (trk_pending (timing_run cfg hist)) sid = open_request sid (rev hist)"
proof (induction hist arbitrary: sid rule: rev_induct)
  case Nil
  show ?case by (simp add: timing_run_def NewTimingTracker_def)
next
  case (snoc e hist)
  then show ?case
    by (cases e) (auto simp: timing_run_snoc OnSend_def OnReceive_pending update_conv' delete_conv'
        distinct_update distinct_delete)
qed

section \<open>The threshold\<close>

lemma f64_0_8_facts:
  "f64_nonneg f64_0_8" "f64_fin f64_0_8" "f64_mu f64_0_8 * 5 = 4 * 2 ^ 1074 + 2 ^ 1022"
proof -
  have m: "f64_mag f64_0_8 = 1022 * 2 ^ 52 + 0x999999999999A" "\<not> f64_neg f64_0_8"
    by (simp_all add: f64_0_8_def f64_mag_def f64_neg_def)
  then show "f64_nonneg f64_0_8" "f64_fin f64_0_8" by (simp_all add: f64_nonneg_iff f64_fin_def inf_mag_def)
  have "f64_mu f64_0_8 = (2 ^ 52 + 0x999999999999A) * 2 ^ 1021"
    unfolding m using mag_units_split [of "0x999999999999A" 1022] by simp
  then have "f64_mu f64_0_8 * 5 = ((2 ^ 52 + 0x999999999999A) * 5) * 2 ^ 1021" by (simp only: mult_ac)
  also have "\<dots> = (4 * 2 ^ 53 + 2) * 2 ^ 1021" by simp
  also have "\<dots> = 4 * 2 ^ 1074 + 2 ^ 1022" by (simp only: add_mult_distrib mult.assoc flip: power_add power_Suc) simp
  finally show "f64_mu f64_0_8 * 5 = 4 * 2 ^ 1074 + 2 ^ 1022" .
qed

lemma threshold_exact:
  assumes "0 \<le> limit" and "limit < 2 ^ 50" and "0 \<le> duration" and "duration \<le> limit"
  shows "f64_less (f64_mul (f64_of_int limit) f64_0_8) (f64_of_int duration) \<longleftrightarrow> 4 * limit < 5 * duration"
proof -
  define L D where "L = nat limit" and "D = nat duration"
  have LD: "L < 2 ^ 50" "D < 2 ^ 50" "4 * limit < 5 * duration \<longleftrightarrow> 4 * L < 5 * D" using assms by (auto simp: L_def D_def)
  let ?l = "f64_of_int limit" and ?d = "f64_of_int duration" and ?C = "f64_mu f64_0_8"
  have i: "f64_nonneg (f64_of_int i)" "f64_fin (f64_of_int i)" "f64_mu (f64_of_int i) = nat i * 2 ^ 1074"
    if "0 \<le> i" "i < 2 ^ 50" for i
  proof -
    have "i < 2 ^ 53" "\<bar>i\<bar> < 2 ^ 64" using that by simp_all
    with that(1) show "f64_fin (f64_of_int i)" "f64_mu (f64_of_int i) = nat i * 2 ^ 1074"
      by (blast intro: f64_of_int_fin f64_mu_of_int)+
    show "f64_nonneg (f64_of_int i)" using that by (simp add: f64_nonneg_of_int)
  qed
  have "duration < 2 ^ 50" using assms by simp
  note l = i [OF assms(1,2), folded L_def] and d = i [OF assms(3) this, folded D_def]
  note p = f64_mul_nonneg [OF l(1) f64_0_8_facts(1) l(2) f64_0_8_facts(2)]
  have "f64_mag (f64_mul ?l f64_0_8) = mag_of (L * ?C) 1"
    unfolding p(2) l(3) by (rule mag_of_cong) (simp_all only: mult_ac zero_less_power zero_less_numeral zero_less_one mult_1)
  then have e: "f64_less (f64_mul ?l f64_0_8) ?d \<longleftrightarrow> mag_of (L * ?C) 1 < f64_mag ?d"
    using f64_nonneg_order(2) [OF p(1) d(1)] by simp
  have C: "5 * (L * ?C) = 4 * L * 2 ^ 1074 + L * 2 ^ 1022"
  proof -
    have "5 * (L * ?C) = L * (?C * 5)" by (simp only: mult_ac)
    also have "\<dots> = L * (4 * 2 ^ 1074) + L * 2 ^ 1022" unfolding f64_0_8_facts(3) by (rule add_mult_distrib2)
    finally show ?thesis by (simp only: mult_ac)
  qed
  show ?thesis
  proof (cases "4 * L < 5 * D")
    case False
    then have "5 * D * 2 ^ 1074 \<le> 4 * L * 2 ^ 1074" by (intro mult_le_mono1) simp
    then have "5 * (D * 2 ^ 1074) \<le> 5 * (L * ?C)" unfolding C by (simp only: mult.assoc trans_le_add1)
    then have "f64_mu ?d \<le> L * ?C" unfolding d(3) by (simp only: mult_le_cancel1)
    then have "f64_mag ?d \<le> mag_of (L * ?C) 1" by (rule mag_of_lower [OF d(2)])
    with False e LD(3) show ?thesis by simp
  next
    case True
    then obtain n where n: "8 * D = Suc n" by (cases "8 * D") auto
    have "n < 2 ^ 53" using n LD(2) by simp
    then obtain m where m: "m < inf_mag" "mag_units m = n * 2 ^ 1071" by (rule representable [of n 1071]) simp_all
    have pw: "(2::nat) ^ 1074 = 8 * 2 ^ 1071" "(2::nat) ^ 1022 * 2 ^ 50 = 2 * 2 ^ 1071"
      by (simp_all only: flip: power_add power_Suc) simp_all
    have "L * 2 ^ 1022 \<le> 2 ^ 50 * 2 ^ 1022" using LD(1) by (intro mult_le_mono1) simp
    then have "5 * (L * ?C) \<le> (32 * L + 2) * 2 ^ 1071"
      unfolding C pw(1) using pw(2) by (simp only: add_mult_distrib mult_ac)
    also have "\<dots> \<le> (5 * n) * 2 ^ 1071" using True n by (intro mult_le_mono1) simp
    finally have "L * ?C \<le> mag_units m" unfolding m(2) by (simp only: mult.assoc mult_le_cancel1)
    then have "mag_of (L * ?C) 1 \<le> m" using mag_of_le [OF m(1), of 1] by simp
    moreover have "m < f64_mag ?d"
    proof -
      have "n * 2 ^ 1071 < Suc n * 2 ^ 1071" by simp
      also have "Suc n * 2 ^ 1071 = f64_mu ?d" unfolding d(3) pw(1) n [symmetric] by (simp only: mult_ac)
      finally have "\<not> f64_mu ?d \<le> mag_units m" unfolding m(2) by simp
      then show ?thesis using mag_units_le [of "f64_mag ?d" m] m(1) d(2) by (simp add: f64_fin_def)
    qed
    ultimately show ?thesis using True e LD(3) by simp
  qed
qed

text \<open>C33. Verdict on a reply. A reply that answers an open request is recorded with the time since the
  request, and judged against the reply timeout T3, or T6 for a control transaction: a violation
  above the limit, a warning exactly above 80 percent of it, otherwise in order. The floating point
  comparison decides this without error for every limit below \<open>2 ^ 50\<close> nanoseconds, 13 days.
\<close>

theorem timing_verdict:
  assumes "open_request sid (rev hist) = Some pend" and "limit = snd (timeout_of cfg pend)"
    and "0 \<le> limit" and "limit < 2 ^ 50" and "pt_SentAt pend \<le> now" and "now - pt_SentAt pend < 2 ^ 63"
  shows "\<exists>r. OnReceive now sid (timing_run cfg hist) = (timing_run cfg (hist @ [Received now sid]), Some r) \<and>
           tt_Duration r = now - pt_SentAt pend \<and> tt_TimeoutLimit r = limit \<and>
           trk_completed (timing_run cfg (hist @ [Received now sid])) = trk_completed (timing_run cfg hist) @ [r] \<and>
           tt_Status r = (if now - pt_SentAt pend > limit then TimingViolation
                          else if 5 * (now - pt_SentAt pend) > 4 * limit then TimingWarning else TimingOK)"
proof -
  let ?d = "now - pt_SentAt pend"
  have m: "map_of (trk_pending (timing_run cfg hist)) sid = Some pend" using timing_run_pending assms(1) by simp
  have "timing_status ?d limit = (if ?d > limit then TimingViolation
      else if 5 * ?d > 4 * limit then TimingWarning else TimingOK)"
    using threshold_exact [of limit ?d] assms(3-5) by (simp add: timing_status_def)
  moreover have "Sub_time now (pt_SentAt pend) = ?d" using assms(5,6) by (intro Sub_time_id) linarith
  ultimately show ?thesis
    using m assms(2)
    by (auto simp: timing_run_snoc OnReceive_def Let_def case_prod_unfold timing_run_config)
qed

definition timing_demo :: "timing_event list" where
  "timing_demo = [Sent 100 7 1 3 True False, Sent 200 8 1 13 False False, Received 300 8]"

theorem timing_verdict_witness:
  "\<exists>r. snd (OnReceive (100 + 36000000001) 7 (timing_run DefaultTimingConfig timing_demo)) = Some r \<and>
       tt_Status r = TimingWarning \<and> tt_Duration r = 36000000001"
proof -
  have "open_request 7 (rev timing_demo) =
      Some \<lparr>pt_SystemID = 7, pt_Stream = 1, pt_Function = 3, pt_SentAt = 100, pt_IsControl = False\<rparr>"
    by (simp add: timing_demo_def)
  from timing_verdict [OF this refl, of DefaultTimingConfig "100 + 36000000001"] show ?thesis
    by (auto simp: timeout_of_def DefaultTimingConfig_def second_def)
qed

lemma overdue_iff:
  "t \<in> set (overdue now cfg pend) \<Longrightarrow> tt_SystemID t = pt_SystemID pend \<and> tt_Status t = TimingViolation"
  "overdue now cfg pend \<noteq> [] \<longleftrightarrow> Sub_time now (pt_SentAt pend) > snd (timeout_of cfg pend)"
  by (auto simp: overdue_def Let_def case_prod_unfold split: if_splits)

lemma open_request_id: "open_request sid hist = Some pend \<Longrightarrow> pt_SystemID pend = sid"
  by (induction sid hist rule: open_request.induct) (auto split: if_splits)

lemma dom_case:
  "(\<exists>x \<in> dom g. t \<in> set (case g x of None \<Rightarrow> [] | Some p \<Rightarrow> f p)) \<longleftrightarrow> (\<exists>x p. g x = Some p \<and> t \<in> set (f p))"
proof
  assume "\<exists>x p. g x = Some p \<and> t \<in> set (f p)"
  then obtain x p where "g x = Some p" "t \<in> set (f p)" by blast
  then show "\<exists>x \<in> dom g. t \<in> set (case g x of None \<Rightarrow> [] | Some p \<Rightarrow> f p)" by (intro bexI [of _ x]) auto
qed (auto split: option.splits, blast)

text \<open>The tracker is the history: after any sequence of sent and received messages the outstanding
  requests are those a look back over the history finds, a reply is matched exactly when there is
  one, and the overdue requests reported are exactly the open ones whose time is over the limit.
\<close>

theorem timing_history:
  assumes "iteration_order ord"
  shows "map_of (trk_pending (timing_run cfg hist)) sid = open_request sid (rev hist) \<and>
         (snd (OnReceive now sid (timing_run cfg hist)) = None \<longleftrightarrow> open_request sid (rev hist) = None) \<and>
         ((\<exists>t \<in> set (CheckPending ord now (timing_run cfg hist)). tt_SystemID t = sid) \<longleftrightarrow>
          (\<exists>pend. open_request sid (rev hist) = Some pend \<and>
             Sub_time now (pt_SentAt pend) > snd (timeout_of cfg pend)))"
proof -
  let ?tt = "timing_run cfg hist"
  have p: "map_of (trk_pending ?tt) = (\<lambda>sid. open_request sid (rev hist))" and d: "distinct (map fst (trk_pending ?tt))"
    using timing_run_pending by blast+
  have keys: "set (ord (map fst (trk_pending ?tt))) = dom (\<lambda>sid. open_request sid (rev hist))"
    using iteration_orderD(2) [OF assms d] by (simp add: p [symmetric] dom_map_of_conv_image_fst)
  have cp: "t \<in> set (CheckPending ord now ?tt) \<longleftrightarrow>
      (\<exists>sid pend. open_request sid (rev hist) = Some pend \<and> t \<in> set (overdue now cfg pend))" for t
  proof -
    have "t \<in> set (CheckPending ord now ?tt) \<longleftrightarrow> (\<exists>sid \<in> dom (\<lambda>sid. open_request sid (rev hist)).
        t \<in> set (case open_request sid (rev hist) of None \<Rightarrow> [] | Some pend \<Rightarrow> overdue now cfg pend))"
      by (simp add: CheckPending_def p keys timing_run_config)
    then show ?thesis by (simp only: dom_case)
  qed
  have "(\<exists>t \<in> set (CheckPending ord now ?tt). tt_SystemID t = sid) \<longleftrightarrow>
      (\<exists>pend. open_request sid (rev hist) = Some pend \<and> overdue now cfg pend \<noteq> [])"
  proof (intro iffI; elim bexE exE conjE)
    fix t assume "t \<in> set (CheckPending ord now ?tt)" "tt_SystemID t = sid"
    then obtain sid' pend where "open_request sid' (rev hist) = Some pend" "t \<in> set (overdue now cfg pend)"
      using cp by blast
    moreover from this have "sid' = sid" using overdue_iff(1) open_request_id \<open>tt_SystemID t = sid\<close> by metis
    ultimately show "\<exists>pend. open_request sid (rev hist) = Some pend \<and> overdue now cfg pend \<noteq> []" by fastforce
  next
    fix pend assume o: "open_request sid (rev hist) = Some pend" and "overdue now cfg pend \<noteq> []"
    then obtain t where t: "t \<in> set (overdue now cfg pend)" by (cases "overdue now cfg pend") auto
    then have "tt_SystemID t = sid" using overdue_iff(1) open_request_id [OF o] by simp
    with t o cp show "\<exists>t \<in> set (CheckPending ord now ?tt). tt_SystemID t = sid" by blast
  qed
  moreover have "snd (OnReceive now sid ?tt) = None \<longleftrightarrow> open_request sid (rev hist) = None"
    by (auto simp: OnReceive_def p Let_def case_prod_unfold split: option.split)
  ultimately show ?thesis by (simp add: p overdue_iff(2))
qed

theorem timing_history_witness:
  "\<exists>t \<in> set (CheckPending rev (100 + 45 * second + 1) (timing_run DefaultTimingConfig timing_demo)). tt_SystemID t = 7"
proof -
  have "iteration_order (rev :: uint32 list \<Rightarrow> _)" by simp
  from timing_history [OF this, of DefaultTimingConfig timing_demo 7 "100 + 45 * second + 1"] show ?thesis
    by (simp add: timing_demo_def timeout_of_def DefaultTimingConfig_def second_def)
qed

end
