(* ===== verification/Validator_Report.thy ===== *)
theory Validator_Report
  imports Validator_Schema Go_Arith "HOL-Library.List_Lexorder" "HOL-Library.Char_ord"
begin

text \<open>
  The coverage report (\<^verbatim>\<open>pkg/validator/report.go\<close>): every registered schema with its
  implementation status, and the share of handled messages per standard and in total. The lemmas
  show that the totals count every schema once, that a message is reported as implemented exactly
  when the GEM handler answers or sends it, and that the percentages are between 0 and 100.
\<close>

section \<open>The report\<close>

datatype ImplementationStatus = ImplFull | ImplPartial | ImplNone

fun ImplementationStatus_String :: "ImplementationStatus \<Rightarrow> string" where
  "ImplementationStatus_String ImplFull = ''FULL''"
| "ImplementationStatus_String ImplPartial = ''PARTIAL''"
| "ImplementationStatus_String ImplNone = ''NONE''"

record SFCoverage =
  sfc_Stream :: byte
  sfc_Function :: byte
  sfc_Name :: string
  sfc_Direction :: string
  sfc_Standard :: string
  sfc_Status :: ImplementationStatus

record StandardCoverage =
  sc_Standard :: string
  sc_Handled :: nat
  sc_Expected :: nat
  sc_Percentage :: float64

record CoverageReport =
  cr_Standards :: "StandardCoverage list"
  cr_SFDetail :: "SFCoverage list"
  cr_TotalHandled :: nat
  cr_TotalExpected :: nat
  cr_Percentage :: float64

definition percentage :: "nat \<Rightarrow> nat \<Rightarrow> float64" where
  "percentage handled expected =
     (if expected > 0
      then f64_mul (f64_div (f64_of_int (int handled)) (f64_of_int (int expected))) (f64_of_int 100) else 0)"

definition sf_order :: "MessageSchema \<Rightarrow> nat" where
  "sf_order s = unat (ms_Stream s) * 256 + unat (ms_Function s)"

definition sf_detail :: "MessageSchema \<Rightarrow> SFCoverage" where
  "sf_detail s =
     \<lparr>sfc_Stream = ms_Stream s, sfc_Function = ms_Function s, sfc_Name = ms_Name s,
      sfc_Direction = Direction_String (ms_Direction s), sfc_Standard = ms_Standard s,
      sfc_Status = (if (ms_Stream s, ms_Function s) \<in> set handledSFs then ImplFull else ImplNone)\<rparr>"

definition count_schema ::
  "SFCoverage \<Rightarrow> (string, nat \<times> nat) gomap \<Rightarrow> (string, nat \<times> nat) gomap" where
  "count_schema d m =
     (let (h, e) = (case map_of m (sfc_Standard d) of None \<Rightarrow> (0, 0) | Some p \<Rightarrow> p)
      in AList.update (sfc_Standard d)
           (if sfc_Status d = ImplFull \<or> sfc_Status d = ImplPartial then h + 1 else h, e + 1) m)"

definition standard_row :: "(string, nat \<times> nat) gomap \<Rightarrow> string \<Rightarrow> StandardCoverage" where
  "standard_row m std =
     (let (h, e) = (case map_of m std of None \<Rightarrow> (0, 0) | Some p \<Rightarrow> p)
      in \<lparr>sc_Standard = std, sc_Handled = h, sc_Expected = e, sc_Percentage = percentage h e\<rparr>)"

definition GenerateReport ::
  "((byte \<times> byte) list \<Rightarrow> (byte \<times> byte) list) \<Rightarrow> (string list \<Rightarrow> string list) \<Rightarrow> SchemaRegistry \<Rightarrow> CoverageReport" where
  "GenerateReport ord ord_std registry =
     (let schemas = sort_key sf_order (All_schemas ord registry);
          detail = map sf_detail schemas;
          stdMap = fold count_schema detail [];
          rows = map (standard_row stdMap) (ord_std (map fst stdMap));
          handled = sum_list (map sc_Handled rows);
          expected = sum_list (map sc_Expected rows)
      in \<lparr>cr_Standards = sort_key sc_Standard rows, cr_SFDetail = detail, cr_TotalHandled = handled,
          cr_TotalExpected = expected, cr_Percentage = percentage handled expected\<rparr>)"

section \<open>Counting\<close>

lemma count_schema_keys:
  "distinct (map fst m) \<Longrightarrow> distinct (map fst (fold count_schema ds m))"
  by (induction ds arbitrary: m) (simp_all add: count_schema_def distinct_update Let_def case_prod_unfold)

lemma sum_update:
  fixes f :: "'v \<Rightarrow> nat"
  shows "(\<Sum>(k, v) \<leftarrow> AList.update k w m. f v) + (case map_of m k of None \<Rightarrow> 0 | Some v \<Rightarrow> f v) =
           (\<Sum>(k, v) \<leftarrow> m. f v) + f w"
  by (induction m) auto

definition is_handled :: "SFCoverage \<Rightarrow> bool" where
  "is_handled d \<longleftrightarrow> sfc_Status d = ImplFull \<or> sfc_Status d = ImplPartial"

lemma count_schema_sums:
  "(\<Sum>(k, h, e) \<leftarrow> count_schema d m. h) = (\<Sum>(k, h, e) \<leftarrow> m. h) + (if is_handled d then 1 else 0)"
  "(\<Sum>(k, h, e) \<leftarrow> count_schema d m. e) = (\<Sum>(k, h, e) \<leftarrow> m. e) + 1"
proof -
  define he where "he = (case map_of m (sfc_Standard d) of None \<Rightarrow> (0, 0) | Some p \<Rightarrow> p)"
  have e: "count_schema d m = AList.update (sfc_Standard d) (if is_handled d then fst he + 1 else fst he, snd he + 1) m"
    by (simp add: count_schema_def he_def is_handled_def case_prod_unfold Let_def)
  have "(case map_of m (sfc_Standard d) of None \<Rightarrow> 0 | Some v \<Rightarrow> fst v) = fst he"
    "(case map_of m (sfc_Standard d) of None \<Rightarrow> 0 | Some v \<Rightarrow> snd v) = snd he"
    by (simp_all add: he_def split: option.split)
  with sum_update [of fst "sfc_Standard d" "(if is_handled d then fst he + 1 else fst he, snd he + 1)" m]
    sum_update [of snd "sfc_Standard d" "(if is_handled d then fst he + 1 else fst he, snd he + 1)" m]
  show "(\<Sum>(k, h, e) \<leftarrow> count_schema d m. h) = (\<Sum>(k, h, e) \<leftarrow> m. h) + (if is_handled d then 1 else 0)"
    "(\<Sum>(k, h, e) \<leftarrow> count_schema d m. e) = (\<Sum>(k, h, e) \<leftarrow> m. e) + 1"
    by (simp_all add: e case_prod_unfold split: if_splits)
qed

lemma count_all:
  "(\<Sum>(k, h, e) \<leftarrow> fold count_schema ds m. h) = (\<Sum>(k, h, e) \<leftarrow> m. h) + length (filter is_handled ds)"
  "(\<Sum>(k, h, e) \<leftarrow> fold count_schema ds m. e) = (\<Sum>(k, h, e) \<leftarrow> m. e) + length ds"
  by (induction ds arbitrary: m) (simp_all add: count_schema_sums)

lemma rows_sum:
  fixes f :: "nat \<times> nat \<Rightarrow> nat"
  assumes "iteration_order ord" and "distinct (map fst m)"
  shows "(\<Sum>k \<leftarrow> ord (map fst m). f (case map_of m k of None \<Rightarrow> (0, 0) | Some p \<Rightarrow> p)) = (\<Sum>(k, p) \<leftarrow> m. f p)"
proof -
  let ?g = "\<lambda>k. f (case map_of m k of None \<Rightarrow> (0, 0) | Some p \<Rightarrow> p)"
  have "sum_list (map ?g (ord (map fst m))) = sum_list (map ?g (map fst m))"
    using iteration_orderD [OF assms] assms(2) by (simp only: sum_list_distinct_conv_sum_set)
  also have "\<dots> = (\<Sum>(k, p) \<leftarrow> m. f p)"
    using assms(2) by (auto intro!: arg_cong [where f = sum_list])
  finally show ?thesis .
qed

lemma percentage_bounds:
  assumes "h \<le> e" and "e < 2 ^ 62"
  shows "f64_le 0 (percentage h e) \<and> f64_le (percentage h e) (f64_of_int 100)"
proof -
  let ?c = "f64_of_int 100"
  have c: "f64_nonneg ?c" "f64_fin ?c" by (simp_all add: f64_nonneg_of_int f64_of_int_fin)
  show ?thesis
  proof (cases "e = 0")
    case True
    then show ?thesis using c by (simp add: percentage_def f64_nonneg_def f64_le_def f64_zero_facts f64_is_nan_def)
  next
    case False
    let ?q = "f64_div (f64_of_int (int h)) (f64_of_int (int e))"
    have "f64_unit ?q" using False assms by (intro f64_div_unit) simp_all
    then have q: "f64_nonneg ?q" "f64_fin ?q" "f64_mu ?q \<le> 2 ^ 1074"
      by (blast intro: f64_unitD dest: f64_unit_def [THEN iffD1] intro: f64_nonneg_def [THEN iffD2])+
    note m = f64_mul_nonneg [OF q(1) c(1) q(2) c(2)]
    have "f64_mu ?q * f64_mu ?c \<le> f64_mu ?c * 2 ^ 1074" using q(3) by (subst mult.commute) (rule mult_le_mono2)
    then have "f64_mag (f64_mul ?q ?c) \<le> f64_mag ?c"
      unfolding m(2) using c(2) unfolding f64_fin_def
      by (intro mag_of_le) (simp_all only: zero_less_power zero_less_numeral)
    then show ?thesis using False m(1) f64_nonneg_order(1) [OF m(1) c(1)] by (simp add: percentage_def f64_nonneg_def)
  qed
qed

lemma registry_keys:
  "distinct (map fst r) \<Longrightarrow> distinct (map fst (fold Register ss r))"
  by (induction ss arbitrary: r) (simp_all add: Register_def distinct_update)

lemma All_schemas_length:
  assumes "iteration_order ord" and "distinct (map fst r)"
  shows "length (All_schemas ord r) = length r"
proof -
  have ks: "distinct (ord (map fst r))" "set (ord (map fst r)) = set (map fst r)"
    using iteration_orderD [OF assms] by simp_all
  have "length (List.map_filter (map_of r) xs) = length xs" if "set xs \<subseteq> set (map fst r)" for xs
    using that
  proof (induction xs)
    case (Cons x xs)
    then obtain y where "map_of r x = Some y" by (metis (no_types, lifting) list.set_intros(1) list.set_map map_of_eq_None_iff not_None_eq subsetD)
    with Cons show ?case by (simp add: map_filter_simps)
  qed (simp add: map_filter_simps)
  then have "length (All_schemas ord r) = length (ord (map fst r))" using ks(2) by (simp add: All_schemas_def)
  also have "\<dots> = length r" using ks assms(2) by (metis distinct_card length_map)
  finally show ?thesis .
qed

text \<open>A message the handler answers, gives as an answer, or sends of its own accord.\<close>

definition implemented :: "byte \<times> byte \<Rightarrow> bool" where
  "implemented sf \<longleftrightarrow>
     (\<exists>ord data h. builtin ord (fst sf) (snd sf) data h \<noteq> None \<or> builtin ord (fst sf) (snd sf - 1) data h \<noteq> None) \<or>
     sf = (5, 1) \<or> sf = (6, 11)"

lemma handled_implemented: "sf \<in> set handledSFs \<longleftrightarrow> implemented sf"
proof -
  obtain s f where sf: "sf = (s, f)" by (cases sf)
  have "(s, f) \<in> set handled_replies \<longleftrightarrow> (s, f - 1) \<in> set handled_requests"
    by (auto simp: handled_replies_def handled_requests_def diff_eq_eq)
  moreover have "(\<exists>ord data h. builtin ord s g data h \<noteq> None) \<longleftrightarrow> (s, g) \<in> set handled_requests" for g
    using handled_requests_builtin by blast
  ultimately show ?thesis unfolding sf implemented_def handledSFs_def
    by (auto simp: ex_disj_distrib)
qed

text \<open>The coverage report, for every registry: it has one line per schema in order of stream and
  function, the totals count each schema once, a line says FULL exactly when the GEM handler answers
  the message, gives it as an answer or sends it, and all percentages are between 0 and 100.
\<close>

theorem coverage_report:
  assumes "iteration_order ord" and "iteration_order ord_std" and "r = fold Register ss NewSchemaRegistry"
    and "Count_schemas r < 2 ^ 62" and "rep = GenerateReport ord ord_std r"
  shows "length (cr_SFDetail rep) = Count_schemas r \<and> cr_TotalExpected rep = Count_schemas r \<and>
         sorted (map (\<lambda>d. unat (sfc_Stream d) * 256 + unat (sfc_Function d)) (cr_SFDetail rep)) \<and>
         cr_TotalHandled rep = length (filter (\<lambda>d. sfc_Status d = ImplFull) (cr_SFDetail rep)) \<and>
         (\<forall>d \<in> set (cr_SFDetail rep). sfc_Status d = ImplFull \<longleftrightarrow> implemented (sfc_Stream d, sfc_Function d)) \<and>
         f64_le 0 (cr_Percentage rep) \<and> f64_le (cr_Percentage rep) (f64_of_int 100)"
proof -
  have d: "distinct (map fst r)" using assms(3) registry_keys by (simp add: NewSchemaRegistry_def)
  define schemas where "schemas = sort_key sf_order (All_schemas ord r)"
  define detail where "detail = map sf_detail schemas"
  define stdMap where "stdMap = fold count_schema detail []"
  have len: "length detail = Count_schemas r"
    using All_schemas_length [OF assms(1) d] by (simp add: detail_def schemas_def Count_schemas_def)
  have dm: "distinct (map fst stdMap)" unfolding stdMap_def by (rule count_schema_keys) simp
  have handled: "is_handled x \<longleftrightarrow> sfc_Status x = ImplFull" if "x \<in> set detail" for x
    using that by (auto simp: detail_def sf_detail_def is_handled_def split: if_splits)
  have H: "cr_TotalHandled rep = length (filter is_handled detail)" and E: "cr_TotalExpected rep = length detail"
    using count_all [of detail "[]"] rows_sum [OF assms(2) dm, of fst] rows_sum [OF assms(2) dm, of snd]
    by (simp_all add: assms(5) GenerateReport_def Let_def comp_def standard_row_def case_prod_unfold
        flip: schemas_def detail_def stdMap_def)
  have D: "cr_SFDetail rep = detail" and P: "cr_Percentage rep = percentage (cr_TotalHandled rep) (cr_TotalExpected rep)"
    by (simp_all add: assms(5) GenerateReport_def Let_def flip: schemas_def detail_def)
  have "sorted (map (\<lambda>d. unat (sfc_Stream d) * 256 + unat (sfc_Function d)) detail)"
  proof -
    have "map (\<lambda>d. unat (sfc_Stream d) * 256 + unat (sfc_Function d)) detail = map sf_order schemas"
      by (simp add: detail_def sf_detail_def sf_order_def)
    then show ?thesis using sorted_sort_key [of sf_order "All_schemas ord r"] by (simp add: schemas_def)
  qed
  moreover have "\<forall>x \<in> set detail. sfc_Status x = ImplFull \<longleftrightarrow> implemented (sfc_Stream x, sfc_Function x)"
    by (auto simp: detail_def sf_detail_def handled_implemented)
  moreover have "f64_le 0 (cr_Percentage rep) \<and> f64_le (cr_Percentage rep) (f64_of_int 100)"
    unfolding P by (rule percentage_bounds) (use assms(4) len length_filter_le [of is_handled detail] in \<open>simp_all add: H E\<close>)
  moreover have "filter is_handled detail = filter (\<lambda>d. sfc_Status d = ImplFull) detail"
    using handled by (rule filter_cong [OF refl])
  ultimately show ?thesis by (simp add: D H E len)
qed

theorem coverage_report_witness:
  "cr_TotalExpected (GenerateReport id id DefaultRegistry) = length standard_schemas \<and>
   f64_le (cr_Percentage (GenerateReport id id DefaultRegistry)) (f64_of_int 100)"
proof -
  have i: "iteration_order (id :: 'a list \<Rightarrow> _)" by (simp add: iteration_order_def)
  have c: "Count_schemas DefaultRegistry = length standard_schemas" by (simp add: Count_schemas_def DefaultRegistry_eq)
  have "length standard_schemas < 2 ^ 62" by (simp add: standard_schemas_def schemas_defs)
  then show ?thesis using coverage_report [OF i i DefaultRegistry_def _ refl] c by simp
qed

end
