(* ===== verification/Api_Token.thy ===== *)
theory Api_Token
  imports Go_Prelude
begin

text \<open>
  Tokens, origins and listen addresses of the interfaces (\<^verbatim>\<open>pkg/security/apitoken.go\<close>). Strings are
  the bytes of their UTF-8 encoding. \<^verbatim>\<open>strings.EqualFold\<close> on arbitrary text, \<^verbatim>\<open>net.SplitHostPort\<close>
  and \<^verbatim>\<open>net.ParseIP\<close> are arguments of the operations that call them.
\<close>

section \<open>Strings\<close>

text \<open>The encodings of the characters that \<^verbatim>\<open>strings.TrimSpace\<close> removes.\<close>

definition space_seqs :: "string list" where
  "space_seqs =
     map (\<lambda>n. [char_of n]) [0x09, 0x0A, 0x0B, 0x0C, 0x0D, 0x20 :: nat] @
     map (map char_of) ([[0xC2, 0x85], [0xC2, 0xA0], [0xE1, 0x9A, 0x80]] @
       map (\<lambda>n. [0xE2, 0x80, n]) [0x80, 0x81, 0x82, 0x83, 0x84, 0x85, 0x86, 0x87, 0x88, 0x89, 0x8A, 0xA8, 0xA9, 0xAF] @
       [[0xE2, 0x81, 0x9F], [0xE3, 0x80, 0x80 :: nat]])"

definition has_prefix :: "string \<Rightarrow> string \<Rightarrow> bool" where
  "has_prefix s p \<longleftrightarrow> take (length p) s = p"

lemma space_seqs_nonempty: "[] \<notin> set space_seqs"
  by (simp add: space_seqs_def)

text \<open>Removing sequences from the front of a string as long as one of them is there.\<close>

function trim_front :: "string list \<Rightarrow> string \<Rightarrow> string" where
  "trim_front seqs s =
     (case find (\<lambda>q. q \<noteq> [] \<and> has_prefix s q) seqs of
        None \<Rightarrow> s
      | Some q \<Rightarrow> trim_front seqs (drop (length q) s))"
  by pat_completeness auto
termination
proof (relation "measure (\<lambda>(seqs, s). length s)")
  fix seqs s q assume "find (\<lambda>q. q \<noteq> [] \<and> has_prefix s q) seqs = Some q"
  then have "q \<noteq> []" "has_prefix s q" by (auto simp: find_Some_iff)
  then have "0 < length q" "length q \<le> length s" by (auto simp: has_prefix_def dest: arg_cong [where f = length])
  then show "((seqs, drop (length q) s), seqs, s) \<in> measure (\<lambda>(seqs, s). length s)"
    by (simp add: diff_less del: length_greater_0_conv)
qed simp

declare trim_front.simps [simp del]

definition TrimSpace :: "string \<Rightarrow> string" where
  "TrimSpace s = rev (trim_front (map rev space_seqs) (rev (trim_front space_seqs s)))"

definition ascii_lower :: "char \<Rightarrow> char" where
  "ascii_lower c = (let n = of_char c :: nat in if 65 \<le> n \<and> n \<le> 90 then char_of (n + 32) else c)"

fun split_commas :: "string \<Rightarrow> string list" where
  "split_commas [] = [[]]"
| "split_commas (c # s) =
     (if c = CHR '','' then [] # split_commas s
      else case split_commas s of [] \<Rightarrow> [[c]] | p # ps \<Rightarrow> (c # p) # ps)"

section \<open>Tokens\<close>

definition EnvAPIToken :: string where "EnvAPIToken = ''SECSGEM_API_TOKEN''"
definition EnvAPIWriteToken :: string where "EnvAPIWriteToken = ''SECSGEM_API_WRITE_TOKEN''"
definition EnvStudioToken :: string where "EnvStudioToken = ''SECSGEM_STUDIO_TOKEN''"
definition EnvCORSOrigins :: string where "EnvCORSOrigins = ''SECSGEM_CORS_ORIGINS''"

definition TokenFromEnv :: "(string \<Rightarrow> string) \<Rightarrow> string \<Rightarrow> string \<Rightarrow> string" where
  "TokenFromEnv getenv flagValue envName =
     (let v = TrimSpace flagValue in if v \<noteq> [] then v else TrimSpace (getenv envName))"

definition CompareToken :: "string \<Rightarrow> string \<Rightarrow> bool" where
  "CompareToken expected presented = (if expected = [] then False else expected = presented)"

text \<open>Only ASCII letters fold to the letters of the scheme.\<close>

definition bearer_scheme :: string where "bearer_scheme = ''bearer ''"

definition BearerToken :: "string \<Rightarrow> string option" where
  "BearerToken header =
     (if length header < length bearer_scheme \<or>
         map ascii_lower (take (length bearer_scheme) header) \<noteq> bearer_scheme
      then None
      else let token = TrimSpace (drop (length bearer_scheme) header)
           in if token = [] then None else Some token)"

section \<open>Listeners and origins\<close>

definition trim_brackets :: "string \<Rightarrow> string" where
  "trim_brackets s =
     (let f = dropWhile (\<lambda>c. c = CHR ''['' \<or> c = CHR '']'') in rev (f (rev (f s))))"

definition IsLoopbackListen ::
  "(string \<Rightarrow> string \<Rightarrow> bool) \<Rightarrow> (string \<Rightarrow> string option) \<Rightarrow> (string \<Rightarrow> bool option) \<Rightarrow> string \<Rightarrow> bool" where
  "IsLoopbackListen equal_fold split_host ip_loopback addr =
     (let host = (case split_host addr of Some h \<Rightarrow> h | None \<Rightarrow> addr);
          host = trim_brackets host
      in if host = [] then False
         else if equal_fold host ''localhost'' then True
         else (case ip_loopback host of None \<Rightarrow> False | Some l \<Rightarrow> l))"

definition flagNameFor :: "string \<Rightarrow> string" where
  "flagNameFor envName =
     (if envName = EnvAPIToken then ''api-token''
      else if envName = EnvAPIWriteToken then ''api-write-token''
      else if envName = EnvStudioToken then ''studio-token''
      else ''token'')"

definition RequireTokenForListen ::
  "(string \<Rightarrow> string \<Rightarrow> bool) \<Rightarrow> (string \<Rightarrow> string option) \<Rightarrow> (string \<Rightarrow> bool option) \<Rightarrow>
     string \<Rightarrow> string \<Rightarrow> string \<Rightarrow> (string, unit) res" where
  "RequireTokenForListen equal_fold split_host ip_loopback token addr envName =
     (if token \<noteq> [] \<or> IsLoopbackListen equal_fold split_host ip_loopback addr then OK ()
      else Err (''security: refusing to serve '' @ addr @ '' without a token; set --'' @
             flagNameFor envName @ '' or '' @ envName @ '' (bind 127.0.0.1 for local-only use)''))"

definition ParseOrigins :: "string \<Rightarrow> string list" where
  "ParseOrigins xs = filter (\<lambda>v. v \<noteq> []) (map TrimSpace (split_commas xs))"

definition OriginAllowed :: "(string \<Rightarrow> string \<Rightarrow> bool) \<Rightarrow> string list \<Rightarrow> string \<Rightarrow> bool" where
  "OriginAllowed equal_fold allowlist origin =
     (if origin = [] then False else list_ex (\<lambda>a. equal_fold a origin) allowlist)"

section \<open>Laws\<close>

lemma CompareToken_iff: "CompareToken e p \<longleftrightarrow> e \<noteq> [] \<and> p = e"
  by (auto simp: CompareToken_def)

lemma trim_front_done: "q \<in> set seqs \<Longrightarrow> q \<noteq> [] \<Longrightarrow> \<not> has_prefix (trim_front seqs s) q"
proof (induction seqs s rule: trim_front.induct)
  case (1 seqs s)
  then show ?case
    by (subst trim_front.simps) (auto simp: find_None_iff split: option.split)
qed

lemma trim_front_id: "(\<And>q. q \<in> set seqs \<Longrightarrow> q \<noteq> [] \<Longrightarrow> \<not> has_prefix s q) \<Longrightarrow> trim_front seqs s = s"
  by (subst trim_front.simps) (auto simp: find_None_iff split: option.split dest!: find_Some_iff [THEN iffD1])

lemma trim_front_suffix: "\<exists>p. s = p @ trim_front seqs s"
proof (induction seqs s rule: trim_front.induct)
  case (1 seqs s)
  show ?case
  proof (cases "find (\<lambda>q. q \<noteq> [] \<and> has_prefix s q) seqs")
    case None
    then show ?thesis by (subst trim_front.simps) simp
  next
    case (Some q)
    with 1 obtain p where "drop (length q) s = p @ trim_front seqs (drop (length q) s)" by blast
    then have "s = (take (length q) s @ p) @ trim_front seqs (drop (length q) s)"
      by (metis append_assoc append_take_drop_id)
    moreover have "trim_front seqs s = trim_front seqs (drop (length q) s)"
      using Some by (subst trim_front.simps) simp
    ultimately show ?thesis by metis
  qed
qed

end
