(* ===== verification/Go_Strconv.thy ===== *)
theory Go_Strconv
  imports Go_Arith
begin

text \<open>
  Numbers in text, as Go's \<^verbatim>\<open>strconv\<close> reads them: unsigned and signed integers in a given base or
  in the base their prefix names, with digit separators, and floating point numbers rounded to the
  nearest double. A malformed number and one out of range are both \<open>None\<close>. The lemmas show that the
  decimal spelling of an integer is read back.
\<close>

section \<open>Integers\<close>

abbreviation ccode :: "char \<Rightarrow> nat" where "ccode c \<equiv> of_char c"

text \<open>\<^verbatim>\<open>c | ('x' - 'X')\<close>: a letter becomes lower case.\<close>

definition lower_code :: "char \<Rightarrow> nat" where
  "lower_code c = (let n = ccode c in if even (n div 32) then n + 32 else n)"

definition digit_of :: "char \<Rightarrow> nat option" where
  "digit_of c =
     (let n = ccode c; l = lower_code c
      in if 48 \<le> n \<and> n \<le> 57 then Some (n - 48)
         else if 97 \<le> l \<and> l \<le> 122 then Some (l - 97 + 10)
         else None)"

text \<open>The digits of a number in base \<open>b\<close>; \<open>u\<close> allows separators.\<close>

fun digits_value :: "bool \<Rightarrow> nat \<Rightarrow> nat \<Rightarrow> string \<Rightarrow> nat option" where
  "digits_value u b acc [] = Some acc"
| "digits_value u b acc (c # s) =
     (if u \<and> c = CHR ''_'' then digits_value u b acc s
      else case digit_of c of
        None \<Rightarrow> None
      | Some d \<Rightarrow> if b \<le> d then None else digits_value u b (b * acc + d) s)"

definition base_prefix :: "string \<Rightarrow> nat \<times> string" where
  "base_prefix s =
     (case s of
        [] \<Rightarrow> (10, s)
      | z # t \<Rightarrow>
          if z \<noteq> CHR ''0'' then (10, s)
          else (case t of
             c # r \<Rightarrow>
               if r \<noteq> [] \<and> lower_code c = 98 then (2, r)
               else if r \<noteq> [] \<and> lower_code c = 111 then (8, r)
               else if r \<noteq> [] \<and> lower_code c = 120 then (16, r)
               else (8, t)
           | [] \<Rightarrow> (8, t)))"

text \<open>Separators stand between digits, or between the prefix and a digit. \<open>saw\<close> is the kind of the
  last character: a digit, a separator, or something else.\<close>

datatype saw = SawStart | SawDigit | SawSep | SawOther

fun separators :: "bool \<Rightarrow> saw \<Rightarrow> string \<Rightarrow> bool" where
  "separators hex saw [] \<longleftrightarrow> saw \<noteq> SawSep"
| "separators hex saw (c # s) \<longleftrightarrow>
     (if 48 \<le> ccode c \<and> ccode c \<le> 57 \<or> hex \<and> 97 \<le> lower_code c \<and> lower_code c \<le> 102
      then separators hex SawDigit s
      else if c = CHR ''_'' then saw = SawDigit \<and> separators hex SawSep s
      else saw \<noteq> SawSep \<and> separators hex SawOther s)"

definition drop_sign :: "string \<Rightarrow> string" where
  "drop_sign s = (case s of [] \<Rightarrow> [] | c # t \<Rightarrow> if c = CHR ''-'' \<or> c = CHR ''+'' then t else s)"

definition underscoreOK :: "string \<Rightarrow> bool" where
  "underscoreOK s =
     (case drop_sign s of
        z # c # t \<Rightarrow>
          if z = CHR ''0'' \<and> lower_code c \<in> {98, 111, 120}
          then separators (lower_code c = 120) SawDigit t
          else separators False SawStart (z # c # t)
      | t \<Rightarrow> separators False SawStart t)"

definition ParseUint :: "string \<Rightarrow> nat \<Rightarrow> nat \<Rightarrow> nat option" where
  "ParseUint s base bits =
     (if s = [] then None
      else
        let (b, ds) = (if base = 0 then base_prefix s else (base, s))
        in case digits_value (base = 0) b 0 ds of
             None \<Rightarrow> None
           | Some n \<Rightarrow>
               if 2 ^ bits \<le> n then None
               else if base = 0 \<and> CHR ''_'' \<in> set ds \<and> \<not> underscoreOK s then None
               else Some n)"

definition ParseInt :: "string \<Rightarrow> nat \<Rightarrow> nat \<Rightarrow> int option" where
  "ParseInt s base bits =
     (case s of
        [] \<Rightarrow> None
      | c # t \<Rightarrow>
          let neg = (c = CHR ''-'');
              u = (if neg \<or> c = CHR ''+'' then t else s)
          in case ParseUint u base bits of
               None \<Rightarrow> None
             | Some n \<Rightarrow>
                 if \<not> neg \<and> 2 ^ (bits - 1) \<le> n \<or> neg \<and> 2 ^ (bits - 1) < n then None
                 else Some (if neg then - int n else int n))"

section \<open>Floating point numbers\<close>

text \<open>The significand: its value, the number of digits, how many of them follow the point, and the
  rest of the text.\<close>

fun float_digits :: "bool \<Rightarrow> bool \<Rightarrow> nat \<Rightarrow> nat \<Rightarrow> nat \<Rightarrow> string \<Rightarrow> nat \<times> nat \<times> nat \<times> string" where
  "float_digits hex dot acc nd frac [] = (acc, nd, frac, [])"
| "float_digits hex dot acc nd frac (c # s) =
     (if c = CHR ''_'' then float_digits hex dot acc nd frac s
      else if c = CHR ''.'' then
        (if dot then (acc, nd, frac, c # s) else float_digits hex True acc nd frac s)
      else case digit_of c of
        None \<Rightarrow> (acc, nd, frac, c # s)
      | Some d \<Rightarrow>
          if d < 10 \<or> hex \<and> d < 16
          then float_digits hex dot ((if hex then 16 else 10) * acc + d) (nd + 1)
                 (if dot then frac + 1 else frac) s
          else (acc, nd, frac, c # s))"

text \<open>The exponent stops growing once it has reached 10000.\<close>

fun exp_digits :: "nat \<Rightarrow> string \<Rightarrow> nat \<times> string" where
  "exp_digits e [] = (e, [])"
| "exp_digits e (c # s) =
     (if c = CHR ''_'' then exp_digits e s
      else if 48 \<le> ccode c \<and> ccode c \<le> 57
      then exp_digits (if e < 10000 then e * 10 + (ccode c - 48) else e) s
      else (e, c # s))"

definition read_exponent :: "string \<Rightarrow> (int \<times> string) option" where
  "read_exponent s =
     (let neg = (case s of [] \<Rightarrow> False | c # _ \<Rightarrow> c = CHR ''-'');
          t = drop_sign s
      in case t of
           [] \<Rightarrow> None
         | c # _ \<Rightarrow>
             if ccode c < 48 \<or> 57 < ccode c then None
             else case exp_digits 0 t of (e, r) \<Rightarrow> Some (if neg then - int e else int e, r))"

text \<open>The double nearest to \<open>m * b ^ k * 2 ^ e\<close>; a value too large is refused.\<close>

definition nearest_f64 :: "bool \<Rightarrow> nat \<Rightarrow> nat \<Rightarrow> int \<Rightarrow> int \<Rightarrow> float64 option" where
  "nearest_f64 neg m b k e =
     (let p = m * b ^ nat k * 2 ^ nat e * 2 ^ 1074; q = b ^ nat (- k) * 2 ^ nat (- e);
          mag = mag_of p q
      in if mag = inf_mag then None else Some (f64_make neg mag))"

definition lower_string :: "string \<Rightarrow> nat list" where
  "lower_string s = map lower_code s"

definition special_float :: "string \<Rightarrow> float64 option" where
  "special_float s =
     (if lower_string s = map ccode ''nan'' then Some f64_nan
      else if lower_string (drop_sign s) \<in> {map ccode ''inf'', map ccode ''infinity''}
      then Some (f64_make (s \<noteq> [] \<and> hd s = CHR ''-'') inf_mag)
      else None)"

definition ParseFloat :: "string \<Rightarrow> float64 option" where
  "ParseFloat s =
     (case special_float s of
        Some w \<Rightarrow> Some w
      | None \<Rightarrow>
          let neg = (s \<noteq> [] \<and> hd s = CHR ''-'');
              t = drop_sign s;
              hex = (2 < length t \<and> t ! 0 = CHR ''0'' \<and> lower_code (t ! 1) = 120);
              body = (if hex then drop 2 t else t)
          in case float_digits hex False 0 0 0 body of (m, nd, frac, r) \<Rightarrow>
             if nd = 0 then None
             else
               let expo = (case r of
                     c # r' \<Rightarrow>
                       if lower_code c = (if hex then 112 else 101) then read_exponent r'
                       else if hex then None else Some (0, r)
                   | [] \<Rightarrow> if hex then None else Some (0, r))
               in case expo of
                    None \<Rightarrow> None
                  | Some (e, r'') \<Rightarrow>
                      if r'' \<noteq> [] \<or> CHR ''_'' \<in> set s \<and> \<not> underscoreOK s then None
                      else if hex then nearest_f64 neg m 2 (- 4 * int frac) e
                      else nearest_f64 neg m 10 (e - int frac) 0)"

text \<open>\<^verbatim>\<open>float32(v)\<close>: rounding to the nearest multiple of \<open>2 ^ -149\<close>.\<close>

definition f32_mag :: "nat \<Rightarrow> nat" where
  "f32_mag u =
     (let q = 2 ^ 925; sh = top_bit (u div q) - 23
      in min (255 * 2 ^ 23) (sh * 2 ^ 23 + rne u (q * 2 ^ sh)))"

definition f64_to_f32 :: "float64 \<Rightarrow> float32" where
  "f64_to_f32 w =
     word_of_nat ((if f64_neg w then 2 ^ 31 else 0) +
       (if f64_is_nan w then 0x7FC00000 + (f64_mag w mod 2 ^ 51) div 2 ^ 29
        else if f64_is_inf w then 255 * 2 ^ 23
        else f32_mag (mag_units (f64_mag w))))"

section \<open>Reading back decimal spellings\<close>

lemma digit_of_digit [simp]: "d < 10 \<Longrightarrow> digit_of (char_of (48 + d)) = Some d"
  by (simp add: digit_of_def)

lemma digits_value_append:
  "digits_value u b acc (s @ t) = (case digits_value u b acc s of None \<Rightarrow> None | Some n \<Rightarrow> digits_value u b n t)"
  by (induction u b acc s rule: digits_value.induct) (auto split: option.splits)

lemma digit_not_sep [simp]: "(d::nat) < 10 \<Longrightarrow> char_of (48 + d) \<noteq> CHR ''_''"
proof
  assume d: "d < 10" and "char_of (48 + d) = CHR ''_''"
  then have "ccode (char_of (48 + d)) = ccode (CHR ''_'')" by simp
  then show False using d by simp
qed

lemma digits_value_decimal: "digits_value u 10 0 (decimal n) = Some n"
proof (induction n rule: decimal.induct)
  case (1 n)
  show ?case
  proof (cases "n < 10")
    case True
    then show ?thesis by (simp add: decimal.simps [of n])
  next
    case False
    then have "digits_value u 10 0 (decimal n) = digits_value u 10 (n div 10) [char_of (48 + n mod 10)]"
      using 1 by (subst decimal.simps) (simp add: digits_value_append)
    then show ?thesis using digit_not_sep [of "n mod 10"] by simp
  qed
qed

lemma set_decimal: "c \<in> set (decimal n) \<Longrightarrow> 48 \<le> ccode c \<and> ccode c \<le> 57"
proof (induction n rule: decimal.induct)
  case (1 n)
  then show ?case
    by (subst (asm) (2) decimal.simps) (auto split: if_splits)
qed

lemma decimal_nonempty [simp]: "decimal n \<noteq> []"
  by (subst decimal.simps) simp

lemma hd_decimal: "0 < n \<Longrightarrow> hd (decimal n) \<noteq> CHR ''0''"
proof (induction n rule: decimal.induct)
  case (1 n)
  show ?case
  proof (cases "n < 10")
    case True
    have "ccode (char_of (48 + n)) \<noteq> ccode (CHR ''0'')" using True 1(2) by simp
    then have "char_of (48 + n) \<noteq> CHR ''0''" by metis
    then show ?thesis using True by (simp add: decimal.simps [of n])
  next
    case False
    then show ?thesis using 1 by (subst decimal.simps) simp
  qed
qed

lemma base_prefix_decimal: "base_prefix (decimal n) = (if n = 0 then (8, []) else (10, decimal n))"
proof (cases "n = 0")
  case True
  then show ?thesis by (simp add: base_prefix_def decimal.simps [of 0] char_of_def bit_iff_odd)
next
  case False
  then show ?thesis using hd_decimal [of n] by (cases "decimal n") (auto simp: base_prefix_def)
qed

lemma decimal_no_sep: "CHR ''_'' \<notin> set (decimal n)"
  using set_decimal [of "CHR ''_''" n] by auto

lemma ParseUint_decimal:
  assumes "n < 2 ^ bits" and "base = 0 \<or> base = 10"
  shows "ParseUint (decimal n) base bits = Some n"
  using assms digits_value_decimal [of _ n] decimal_no_sep [of n]
  by (auto simp: ParseUint_def base_prefix_decimal)

lemma ParseInt_decimal:
  assumes "- (2 ^ (bits - 1)) \<le> i" and "i < 2 ^ (bits - 1)" and "0 < bits" and "base = 0 \<or> base = 10"
  shows "ParseInt (decimal_int i) base bits = Some i"
proof -
  have p: "(2::nat) ^ (bits - 1) < 2 ^ bits" using assms(3) by simp
  show ?thesis
  proof (cases "i < 0")
    case True
    have le: "nat (- i) \<le> 2 ^ (bits - 1)" using assms(1) True by (simp add: nat_le_iff)
    have "ParseUint (decimal (nat (- i))) base bits = Some (nat (- i))"
      using assms(4) by (rule ParseUint_decimal [OF le_less_trans [OF le p]])
    then show ?thesis using True le by (simp add: ParseInt_def decimal_int_def)
  next
    case False
    have lt: "nat i < 2 ^ (bits - 1)" using assms(2) False by (simp add: nat_less_iff)
    have "ParseUint (decimal (nat i)) base bits = Some (nat i)"
      using assms(4) by (rule ParseUint_decimal [OF less_trans [OF lt p]])
    moreover obtain c t where d: "decimal (nat i) = c # t" by (cases "decimal (nat i)") auto
    moreover have "c \<noteq> CHR ''-''" "c \<noteq> CHR ''+''" using set_decimal [of c "nat i"] d by auto
    ultimately show ?thesis using False lt by (simp add: ParseInt_def decimal_int_def)
  qed
qed

end
