(* ===== verification/Event_Stream.thy ===== *)
theory Event_Stream
  imports Main "HOL-Library.Sublist"
begin

text \<open>
  The contract of a fan-out of events to subscribers with bounded channels, as the REST and the gRPC
  interfaces have it: a broadcast appends to every channel that has room and skips the others, and a
  subscriber takes the events of its channel from the front. From these laws alone follows what a
  subscriber sees of the events, for any interleaving of broadcasts and takes.
\<close>

datatype 'e stream_op = Broadcast 'e | Take

fun stream_run :: "('e \<Rightarrow> 's \<Rightarrow> 's) \<Rightarrow> ('s \<Rightarrow> ('e \<times> 's) option) \<Rightarrow> 'e stream_op list \<Rightarrow> 's \<Rightarrow> 'e list \<times> 's" where
  "stream_run push take_one [] s = ([], s)"
| "stream_run push take_one (Broadcast e # ops) s = stream_run push take_one ops (push e s)"
| "stream_run push take_one (Take # ops) s =
     (case take_one s of
        None \<Rightarrow> stream_run push take_one ops s
      | Some (e, s') \<Rightarrow> (case stream_run push take_one ops s' of (es, s'') \<Rightarrow> (e # es, s'')))"

fun broadcasts :: "'e stream_op list \<Rightarrow> 'e list" where
  "broadcasts [] = []"
| "broadcasts (Broadcast e # ops) = e # broadcasts ops"
| "broadcasts (Take # ops) = broadcasts ops"

locale event_stream =
  fixes queue :: "'s \<Rightarrow> 'c \<Rightarrow> 'e list option"
    and push :: "'e \<Rightarrow> 's \<Rightarrow> 's"
    and take_one :: "'c \<Rightarrow> 's \<Rightarrow> ('e \<times> 's) option"
    and cap :: nat
  assumes queue_push: "queue s c = Some q \<Longrightarrow> queue (push e s) c = Some (if length q < cap then q @ [e] else q)"
    and take_empty: "queue s c = Some [] \<Longrightarrow> take_one c s = None"
    and take_first: "queue s c = Some (e # q) \<Longrightarrow> \<exists>s'. take_one c s = Some (e, s') \<and> queue s' c = Some q"
begin

lemma run_queue:
  assumes "queue s c = Some q" and "length q \<le> cap" and "stream_run push (take_one c) ops s = (got, s')"
  shows "\<exists>q'. queue s' c = Some q' \<and> length q' \<le> cap \<and> subseq (got @ q') (q @ broadcasts ops) \<and>
           (length q + length (broadcasts ops) \<le> cap \<longrightarrow> got @ q' = q @ broadcasts ops)"
  using assms
proof (induction ops arbitrary: s q got)
  case Nil
  then show ?case by simp
next
  case (Cons op ops)
  show ?case
  proof (cases op)
    case (Broadcast e)
    let ?q = "if length q < cap then q @ [e] else q"
    have "queue (push e s) c = Some ?q" "length ?q \<le> cap"
      using Cons.prems queue_push by auto
    from Cons.IH [OF this, of got] obtain q' where q': "queue s' c = Some q'" "length q' \<le> cap"
      "subseq (got @ q') (?q @ broadcasts ops)"
      "length ?q + length (broadcasts ops) \<le> cap \<longrightarrow> got @ q' = ?q @ broadcasts ops"
      using Cons.prems(3) Broadcast by auto
    have "subseq (?q @ broadcasts ops) (q @ e # broadcasts ops)"
      by (auto intro: list_emb_append_mono)
    then show ?thesis using q' Broadcast by (auto intro: subseq_order.trans)
  next
    case Take
    show ?thesis
    proof (cases q)
      case Nil
      then show ?thesis using Cons.IH [of s q got] Cons.prems Take take_empty by simp
    next
      case (Cons e r)
      obtain s1 where s1: "take_one c s = Some (e, s1)" "queue s1 c = Some r"
        using take_first Cons.prems(1) Cons by blast
      obtain es where es: "stream_run push (take_one c) ops s1 = (es, s')" "got = e # es"
        using Cons.prems(3) s1(1) Take by (auto split: prod.splits)
      have "length r \<le> cap" using Cons.prems(2) Cons by simp
      from Cons.IH [OF s1(2) this es(1)] show ?thesis using es(2) Cons Take by auto
    qed
  qed
qed

lemma subscriber_sees:
  assumes "queue s c = Some []" and "stream_run push (take_one c) ops s = (got, s')"
  shows "\<exists>q. queue s' c = Some q \<and> length q \<le> cap \<and> subseq (got @ q) (broadcasts ops) \<and>
           (length (broadcasts ops) \<le> cap \<longrightarrow> got @ q = broadcasts ops)"
  using run_queue [OF assms(1) _ assms(2)] by simp

end

end
