(* ===== verification/Rest_Api.thy ===== *)
theory Rest_Api
  imports Api_Token Go_Strconv Gem_Wire Validator_State Hsms_Session Event_Stream
begin

text \<open>
  The REST interface (\<^verbatim>\<open>api/rest/handler.go\<close>) over the GEM handler: routing, the CORS and
  authorization layers, every endpoint with its status codes and JSON, and the event stream. The
  path of a request is given by its decoded segments, which is how the router sees it, while the
  authorization layer sees them joined. Decoding a JSON body, folding of letters, the texts of
  errors, the orders of iteration and the router's answer to a path that is not canonical are
  arguments; the body of a response is the data handed to the encoder. The
  lemmas show which credentials a request needs to read from or to change the equipment, what a
  write of a constant does, and what a subscriber of the events sees.
\<close>

section \<open>Requests and responses\<close>

datatype jsonv = JNull | JBool bool | JInt int | JString string | JValue goval
  | JArray "jsonv list" | JObject "(string \<times> jsonv) list"

record Request =
  rq_Method :: string
  rq_segments :: "string list"
  rq_canonical :: bool
  rq_Authorization :: string
  rq_Origin :: string
  rq_body :: "byte list"

record Response =
  rsp_status :: int
  rsp_headers :: "(string \<times> string) list"
  rsp_body :: "jsonv option"

definition url_path :: "Request \<Rightarrow> string" where
  "url_path r = concat (map (\<lambda>s. ''/'' @ s) (rq_segments r))"

text \<open>What the standard library contributes.\<close>

record http_env =
  env_equal_fold :: "string \<Rightarrow> string \<Rightarrow> bool"
  env_json_value :: "byte list \<Rightarrow> goval option"
  env_json_command :: "byte list \<Rightarrow> (string \<times> (string, goval) gomap) option"
  env_error_text :: "gem_error \<Rightarrow> string"
  env_ord :: "uint32 list \<Rightarrow> uint32 list"
  env_ord_params :: "string list \<Rightarrow> string list"
  env_flusher :: bool
  env_redirect :: Response

record Auth =
  ReadToken :: string
  WriteToken :: string

definition Enabled :: "Auth \<Rightarrow> bool" where
  "Enabled a \<longleftrightarrow> ReadToken a \<noteq> [] \<or> WriteToken a \<noteq> []"

record CORS =
  AllowedOrigins :: "string list"

record EventPayload =
  ep_Type :: string
  ep_Timestamp :: string
  ep_Data :: jsonv

text \<open>The server; \<open>srv_security\<close> is the report of the security status when one is set, and
  \<open>srv_sseClients\<close> are the buffered channels of the event stream.\<close>

record Server =
  srv_handler :: Handler
  srv_session :: Session
  srv_auth :: Auth
  srv_cors :: CORS
  srv_security :: "jsonv option"
  srv_sseClients :: "(nat, EventPayload list) gomap"

definition NewServerWithAuth :: "Session \<Rightarrow> Handler \<Rightarrow> Auth \<Rightarrow> CORS \<Rightarrow> Server" where
  "NewServerWithAuth session handler auth cors =
     \<lparr>srv_handler = handler, srv_session = session, srv_auth = auth, srv_cors = cors,
      srv_security = None, srv_sseClients = []\<rparr>"

definition NewServer :: "Session \<Rightarrow> Handler \<Rightarrow> string list \<Rightarrow> Server" where
  "NewServer session handler bearerToken =
     (let token = (case bearerToken of [] \<Rightarrow> [] | t # _ \<Rightarrow> t)
      in NewServerWithAuth session handler \<lparr>ReadToken = token, WriteToken = token\<rparr> \<lparr>AllowedOrigins = []\<rparr>)"

definition SetSecurityStatus :: "jsonv option \<Rightarrow> Server \<Rightarrow> Server" where
  "SetSecurityStatus ss s = s\<lparr>srv_security := ss\<rparr>"

definition writeJSON :: "int \<Rightarrow> jsonv \<Rightarrow> Response" where
  "writeJSON status data =
     \<lparr>rsp_status = status, rsp_headers = [(''Content-Type'', ''application/json'')], rsp_body = Some data\<rparr>"

definition writeError :: "int \<Rightarrow> string \<Rightarrow> Response" where
  "writeError status msg =
     writeJSON status (JObject [(''success'', JBool False),
       (''error'', JObject [(''code'', JInt status), (''message'', JString msg)])])"

definition writeData :: "jsonv \<Rightarrow> Response" where
  "writeData data = writeJSON 200 (JObject [(''success'', JBool True), (''data'', data)])"

section \<open>Helpers\<close>

definition parseUint32 :: "string \<Rightarrow> uint32 option" where
  "parseUint32 s = map_option word_of_nat (ParseUint s 10 32)"

fun State_String :: "State \<Rightarrow> string" where
  "State_String StateDisconnected = ''DISCONNECTED''"
| "State_String StateConnecting = ''CONNECTING''"
| "State_String StateConnected = ''CONNECTED''"
| "State_String StateSelected = ''SELECTED''"

definition AlarmState_String :: "AlarmState \<Rightarrow> string" where
  "AlarmState_String s = (if s = AlarmSet then ''SET'' else ''CLEARED'')"

definition CommandStatus_String :: "CommandStatus \<Rightarrow> string" where
  "CommandStatus_String s =
     (if s = 0 then ''OK'' else if s = 1 then ''INVALID_COMMAND'' else if s = 2 then ''CANNOT_PERFORM''
      else if s = 3 then ''PARAMETER_ERROR'' else if s = 4 then ''ACK_FINISH_LATER''
      else if s = 5 then ''REJECTED'' else ''UNKNOWN('' @ decimal (unat s) @ '')'')"

section \<open>Endpoints\<close>

definition handleHealth :: Response where
  "handleHealth = writeData (JObject [(''status'', JString ''ok''), (''version'', JString ''0.1.0'')])"

definition handleStatus :: "Server \<Rightarrow> Response" where
  "handleStatus s =
     (let sm = h_state (srv_handler s)
      in writeData (JObject [(''commState'', JString (CommState_String (sm_commState sm))),
           (''controlState'', JString (ControlState_String (sm_controlState sm))),
           (''communicating'', JBool (IsCommunicating sm)), (''online'', JBool (IsOnline sm)),
           (''transport'', JString (State_String (ss_state (srv_session s))))]))"

definition sv_json :: "Handler \<Rightarrow> uint32 \<Rightarrow> (unit, jsonv) res" where
  "sv_json h svid =
     (case GetSVInfo svid (h_vars h) of
        None \<Rightarrow> Panic
      | Some info \<Rightarrow> OK (JObject [(''svid'', JInt (uint svid)), (''name'', JString (sv_Name info)),
            (''value'', JValue (sv_value h svid)), (''units'', JString (sv_Units info))]))"

definition handleListSV :: "http_env \<Rightarrow> Server \<Rightarrow> (unit, Response) res" where
  "handleListSV env s =
     bind_res (collect (\<lambda>_. sv_json (srv_handler s)) 0 (ListSVIDs (env_ord env) (h_vars (srv_handler s))))
       (\<lambda>rows. OK (writeData (JArray rows)))"

definition handleGetSV :: "string \<Rightarrow> Server \<Rightarrow> (unit, Response) res" where
  "handleGetSV arg s =
     (case parseUint32 arg of
        None \<Rightarrow> OK (writeError 400 ''invalid SVID'')
      | Some svid \<Rightarrow>
          (case GetSV svid (h_vars (srv_handler s)) of
             None \<Rightarrow> OK (writeError 404 (''SVID '' @ decimal (unat svid) @ '' not found''))
           | Some _ \<Rightarrow> bind_res (sv_json (srv_handler s) svid) (\<lambda>row. OK (writeData row))))"

definition ec_json :: "uint32 \<Rightarrow> EquipmentConstant \<Rightarrow> jsonv" where
  "ec_json ecid ec =
     JObject [(''ecid'', JInt (uint ecid)), (''name'', JString (ec_Name ec)), (''value'', JValue (ec_Value ec)),
       (''units'', JString (ec_Units ec)), (''min'', JValue (MinValue ec)), (''max'', JValue (MaxValue ec))]"

definition handleListEC :: "http_env \<Rightarrow> Server \<Rightarrow> (unit, Response) res" where
  "handleListEC env s =
     (let vars = h_vars (srv_handler s)
      in bind_res (collect (\<lambda>_ ecid. case GetEC ecid vars of None \<Rightarrow> Panic | Some ec \<Rightarrow> OK (ec_json ecid ec)) 0
           (ListECIDs (env_ord env) vars)) (\<lambda>rows. OK (writeData (JArray rows))))"

definition handleGetEC :: "string \<Rightarrow> Server \<Rightarrow> Response" where
  "handleGetEC arg s =
     (case parseUint32 arg of
        None \<Rightarrow> writeError 400 ''invalid ECID''
      | Some ecid \<Rightarrow>
          (case GetEC ecid (h_vars (srv_handler s)) of
             None \<Rightarrow> writeError 404 (''ECID '' @ decimal (unat ecid) @ '' not found'')
           | Some ec \<Rightarrow> writeData (ec_json ecid ec)))"

definition set_vars :: "VariableStore \<Rightarrow> Server \<Rightarrow> Server" where
  "set_vars vars s = s\<lparr>srv_handler := (srv_handler s)\<lparr>h_vars := vars\<rparr>\<rparr>"

definition handleSetEC :: "http_env \<Rightarrow> string \<Rightarrow> byte list \<Rightarrow> Server \<Rightarrow> (unit, Server \<times> Response) res" where
  "handleSetEC env arg body s =
     (case parseUint32 arg of
        None \<Rightarrow> OK (s, writeError 400 ''invalid ECID'')
      | Some ecid \<Rightarrow>
          (case env_json_value env body of
             None \<Rightarrow> OK (s, writeError 400 ''invalid JSON body'')
           | Some v \<Rightarrow>
               (case SetEC ecid v (h_vars (srv_handler s)) of
                  Panic \<Rightarrow> Panic
                | Err e \<Rightarrow>
                    OK (s, writeError (if GetEC ecid (h_vars (srv_handler s)) \<noteq> None then 400 else 404)
                             (env_error_text env e))
                | OK vars \<Rightarrow>
                    OK (set_vars vars s, writeData (JObject [(''ecid'', JInt (uint ecid)), (''value'', JValue v)])))))"

definition handleListAlarms :: "http_env \<Rightarrow> Server \<Rightarrow> Response" where
  "handleListAlarms env s =
     writeData (JArray (map (\<lambda>a. JObject [(''alid'', JInt (uint (ALID a))), (''name'', JString (al_Name a)),
         (''text'', JString (al_Text a)), (''state'', JString (AlarmState_String (al_State a))),
         (''enabled'', JBool (al_Enabled a)), (''severity'', JInt (uint (Severity a)))])
       (ListAlarms (env_ord env) (h_alarms (srv_handler s)))))"

definition handleActiveAlarms :: "http_env \<Rightarrow> Server \<Rightarrow> Response" where
  "handleActiveAlarms env s =
     writeData (JArray (map (\<lambda>a. JObject [(''alid'', JInt (uint (ALID a))), (''name'', JString (al_Name a)),
         (''text'', JString (al_Text a))])
       (ListActiveAlarms (env_ord env) (h_alarms (srv_handler s)))))"

definition json_params :: "http_env \<Rightarrow> (string, goval) gomap \<Rightarrow> CommandParam list" where
  "json_params env m = List.map_filter (\<lambda>k. map_option (Pair k) (map_of m k)) (env_ord_params env (map fst m))"

definition handleCommand :: "http_env \<Rightarrow> byte list \<Rightarrow> Server \<Rightarrow> (unit, Server \<times> Response) res" where
  "handleCommand env body s =
     (case env_json_command env body of
        None \<Rightarrow> OK (s, writeError 400 ''invalid JSON body'')
      | Some (cmd, params) \<Rightarrow>
          if cmd = [] then OK (s, writeError 400 ''command is required'')
          else
            let h = srv_handler s; ps = json_params env params in
            bind_res (Execute (h_commands h) cmd ps) (\<lambda>status.
              OK (s\<lparr>srv_handler := h\<lparr>h_executed := h_executed h @
                     (if HasCommand cmd (h_commands h) then [(cmd, ps)] else [])\<rparr>\<rparr>,
                  writeData (JObject [(''command'', JString cmd),
                    (''status'', JString (CommandStatus_String status)), (''code'', JInt (uint status))]))))"

definition handleSecurityStatus :: "Server \<Rightarrow> Response" where
  "handleSecurityStatus s =
     writeData (case srv_security s of
       None \<Rightarrow> JObject [(''message'', JString ''security status not configured'')]
     | Some report \<Rightarrow> report)"

section \<open>The event stream\<close>

definition sse_cap :: nat where "sse_cap = 64"

text \<open>\<open>now\<close> is the formatted time; a full channel skips the event.\<close>

definition BroadcastEvent :: "string \<Rightarrow> string \<Rightarrow> jsonv \<Rightarrow> Server \<Rightarrow> Server" where
  "BroadcastEvent now eventType data s =
     (let ev = \<lparr>ep_Type = eventType, ep_Timestamp = now, ep_Data = data\<rparr>
      in s\<lparr>srv_sseClients := map_vals (\<lambda>q. if length q < sse_cap then q @ [ev] else q) (srv_sseClients s)\<rparr>)"

text \<open>A client connects with a fresh channel, takes an event from it, or disconnects.\<close>

definition handleSSE :: "http_env \<Rightarrow> nat \<Rightarrow> Server \<Rightarrow> Server \<times> Response" where
  "handleSSE env ch s =
     (if \<not> env_flusher env then (s, writeError 500 ''streaming not supported'')
      else (s\<lparr>srv_sseClients := AList.update ch [] (srv_sseClients s)\<rparr>,
            \<lparr>rsp_status = 200, rsp_headers = [(''Content-Type'', ''text/event-stream''),
              (''Cache-Control'', ''no-cache''), (''Connection'', ''keep-alive'')], rsp_body = None\<rparr>))"

definition sse_next :: "nat \<Rightarrow> Server \<Rightarrow> (EventPayload \<times> Server) option" where
  "sse_next ch s =
     (case map_of (srv_sseClients s) ch of
        Some (e # q) \<Rightarrow> Some (e, s\<lparr>srv_sseClients := AList.update ch q (srv_sseClients s)\<rparr>)
      | _ \<Rightarrow> None)"

definition sse_disconnect :: "nat \<Rightarrow> Server \<Rightarrow> Server" where
  "sse_disconnect ch s = s\<lparr>srv_sseClients := AList.delete ch (srv_sseClients s)\<rparr>"

section \<open>Routing\<close>

datatype endpoint = EHealth | EStatus | EListSV | EGetSV string | EListEC | EGetEC string | ESetEC string
  | EListAlarms | EActiveAlarms | ECommand | EEvents | ESecurity

text \<open>The registered patterns that match a path, with their method; a wildcard matches a segment that
  is not empty.\<close>

definition registerRoutes :: "string list \<Rightarrow> (string \<times> endpoint) list" where
  "registerRoutes segs =
     (case segs of
        [a] \<Rightarrow> if a = ''health'' then [(''GET'', EHealth)] else []
      | [a, b] \<Rightarrow>
          if a \<noteq> ''api'' then []
          else if b = ''status'' then [(''GET'', EStatus)]
          else if b = ''sv'' then [(''GET'', EListSV)]
          else if b = ''ec'' then [(''GET'', EListEC)]
          else if b = ''alarms'' then [(''GET'', EListAlarms)]
          else if b = ''command'' then [(''POST'', ECommand)]
          else if b = ''events'' then [(''GET'', EEvents)]
          else []
      | [a, b, c] \<Rightarrow>
          if a \<noteq> ''api'' then []
          else if b = ''sv'' \<and> c \<noteq> [] then [(''GET'', EGetSV c)]
          else if b = ''ec'' \<and> c \<noteq> [] then [(''GET'', EGetEC c), (''PUT'', ESetEC c)]
          else if b = ''alarms'' \<and> c = ''active'' then [(''GET'', EActiveAlarms)]
          else if b = ''security'' \<and> c = ''status'' then [(''GET'', ESecurity)]
          else []
      | _ \<Rightarrow> [])"

definition read_only :: "Server \<Rightarrow> (unit, Response) res \<Rightarrow> (unit, Server \<times> Response) res" where
  "read_only s r = bind_res r (\<lambda>rsp. OK (s, rsp))"

fun run_endpoint :: "http_env \<Rightarrow> nat \<Rightarrow> endpoint \<Rightarrow> byte list \<Rightarrow> Server \<Rightarrow> (unit, Server \<times> Response) res" where
  "run_endpoint env ch EHealth body s = OK (s, handleHealth)"
| "run_endpoint env ch EStatus body s = OK (s, handleStatus s)"
| "run_endpoint env ch EListSV body s = read_only s (handleListSV env s)"
| "run_endpoint env ch (EGetSV a) body s = read_only s (handleGetSV a s)"
| "run_endpoint env ch EListEC body s = read_only s (handleListEC env s)"
| "run_endpoint env ch (EGetEC a) body s = OK (s, handleGetEC a s)"
| "run_endpoint env ch (ESetEC a) body s = handleSetEC env a body s"
| "run_endpoint env ch EListAlarms body s = OK (s, handleListAlarms env s)"
| "run_endpoint env ch EActiveAlarms body s = OK (s, handleActiveAlarms env s)"
| "run_endpoint env ch ECommand body s = handleCommand env body s"
| "run_endpoint env ch EEvents body s = OK (handleSSE env ch s)"
| "run_endpoint env ch ESecurity body s = OK (s, handleSecurityStatus s)"

definition not_found :: Response where
  "not_found = \<lparr>rsp_status = 404, rsp_headers = [], rsp_body = None\<rparr>"

definition method_not_allowed :: Response where
  "method_not_allowed = \<lparr>rsp_status = 405, rsp_headers = [], rsp_body = None\<rparr>"

text \<open>The router: a GET pattern also serves HEAD.\<close>

definition serve_mux :: "http_env \<Rightarrow> nat \<Rightarrow> Request \<Rightarrow> Server \<Rightarrow> (unit, Server \<times> Response) res" where
  "serve_mux env ch r s =
     (if \<not> rq_canonical r then OK (s, env_redirect env)
      else
        let routes = registerRoutes (rq_segments r);
            m = (if rq_Method r = ''HEAD'' then ''GET'' else rq_Method r)
        in case map_of routes m of
             Some e \<Rightarrow> run_endpoint env ch e (rq_body r) s
           | None \<Rightarrow> OK (s, if routes = [] then not_found else method_not_allowed))"

section \<open>Authorization and CORS\<close>

definition isWriteRequest :: "Request \<Rightarrow> bool" where
  "isWriteRequest r =
     (if rq_Method r = ''PUT'' then has_prefix (url_path r) ''/api/ec/''
      else if rq_Method r = ''POST'' then url_path r = ''/api/command''
      else False)"

definition withAuth ::
  "(Request \<Rightarrow> Server \<Rightarrow> (unit, Server \<times> Response) res) \<Rightarrow> Request \<Rightarrow> Server \<Rightarrow> (unit, Server \<times> Response) res" where
  "withAuth nxt r s =
     (if url_path r = ''/health'' then nxt r s
      else
        case BearerToken (rq_Authorization r) of
          None \<Rightarrow> OK (s, writeError 401 ''missing bearer token'')
        | Some presented \<Rightarrow>
            if isWriteRequest r then
              (if \<not> CompareToken (WriteToken (srv_auth s)) presented
               then OK (s, writeError 403 ''write scope required'') else nxt r s)
            else if \<not> CompareToken (ReadToken (srv_auth s)) presented \<and>
                    \<not> CompareToken (WriteToken (srv_auth s)) presented
            then OK (s, writeError 401 ''invalid bearer token'')
            else nxt r s)"

definition cors_headers :: "string \<Rightarrow> (string \<times> string) list" where
  "cors_headers origin =
     [(''Access-Control-Allow-Origin'', origin), (''Access-Control-Allow-Methods'', ''GET, POST, PUT, OPTIONS''),
      (''Access-Control-Allow-Headers'', ''Content-Type, Authorization''), (''Vary'', ''Origin'')]"

definition withCORS ::
  "http_env \<Rightarrow> (Request \<Rightarrow> Server \<Rightarrow> (unit, Server \<times> Response) res) \<Rightarrow> Request \<Rightarrow> Server \<Rightarrow>
     (unit, Server \<times> Response) res" where
  "withCORS env nxt r s =
     (let allowed = OriginAllowed (env_equal_fold env) (AllowedOrigins (srv_cors s)) (rq_Origin r);
          hs = (if allowed then cors_headers (rq_Origin r) else [])
      in if rq_Method r = ''OPTIONS''
         then OK (s, \<lparr>rsp_status = (if allowed then 204 else 403), rsp_headers = hs, rsp_body = None\<rparr>)
         else bind_res (nxt r s) (\<lambda>(s, rsp). OK (s, rsp\<lparr>rsp_headers := hs @ rsp_headers rsp\<rparr>)))"

definition serve :: "http_env \<Rightarrow> nat \<Rightarrow> Request \<Rightarrow> Server \<Rightarrow> (unit, Server \<times> Response) res" where
  "serve env ch r s =
     withCORS env (if Enabled (srv_auth s) then withAuth (serve_mux env ch) else serve_mux env ch) r s"

section \<open>Who may do what\<close>

lemma run_endpoint_frame:
  assumes "run_endpoint env ch e body s = OK (s', rsp)"
  shows "s' = s \<or> e = EEvents \<and> srv_handler s' = srv_handler s \<or> (\<exists>a. e = ESetEC a) \<or> e = ECommand"
  using assms by (cases e) (auto simp: read_only_def handleSSE_def res_simps split: if_splits)

text \<open>The routes whose endpoint has an effect.\<close>

lemma routes_effect_2:
  assumes "map_of (registerRoutes [a, b]) m = Some e" and "e = EEvents \<or> (\<exists>x. e = ESetEC x) \<or> e = ECommand"
  shows "a = ''api'' \<and> (e = EEvents \<or> m = ''POST'' \<and> b = ''command'')"
proof (cases "a = ''api''")
  case True
  then show ?thesis using assms
    by (simp only: registerRoutes_def list.case) (elim disjE exE; simp split: if_split_asm)
next
  case False
  then show ?thesis using assms(1) by (simp add: registerRoutes_def)
qed

lemma routes_effect_3:
  assumes "map_of (registerRoutes [a, b, c]) m = Some e" and "e = EEvents \<or> (\<exists>x. e = ESetEC x) \<or> e = ECommand"
  shows "a = ''api'' \<and> b = ''ec'' \<and> m = ''PUT''"
proof (cases "a = ''api''")
  case True
  then show ?thesis using assms
    by (simp only: registerRoutes_def list.case) (elim disjE exE; simp split: if_split_asm)
next
  case False
  then show ?thesis using assms(1) by (simp add: registerRoutes_def)
qed

lemma routes_effect:
  assumes "map_of (registerRoutes segs) m = Some e" and "e = EEvents \<or> (\<exists>x. e = ESetEC x) \<or> e = ECommand"
  shows "m = ''PUT'' \<and> (\<exists>c. segs = [''api'', ''ec'', c]) \<or> m = ''POST'' \<and> segs = [''api'', ''command''] \<or>
         e = EEvents \<and> (\<exists>b. segs = [''api'', b])"
proof -
  consider "segs = []" | a where "segs = [a]" | a b where "segs = [a, b]" | a b c where "segs = [a, b, c]"
    | a b c d ds where "segs = a # b # c # d # ds"
    by (metis neq_Nil_conv)
  then show ?thesis
  proof cases
    case 2
    then show ?thesis using assms by (auto simp: registerRoutes_def split: if_split_asm)
  next
    case 3
    then show ?thesis using routes_effect_2 assms by blast
  next
    case 4
    then show ?thesis using routes_effect_3 assms by blast
  qed (use assms in \<open>simp_all add: registerRoutes_def\<close>)
qed

lemma serve_mux_effect:
  assumes "serve_mux env ch r s = OK (s', rsp)" and "s' \<noteq> s"
  shows "isWriteRequest r \<or> srv_handler s' = srv_handler s" and "url_path r \<noteq> ''/health''"
proof -
  let ?m = "if rq_Method r = ''HEAD'' then ''GET'' else rq_Method r"
  obtain e where e: "map_of (registerRoutes (rq_segments r)) ?m = Some e"
    and run: "run_endpoint env ch e (rq_body r) s = OK (s', rsp)"
    using assms by (auto simp: serve_mux_def Let_def split: if_splits option.splits)
  note eff = run_endpoint_frame [OF run]
  then have "e = EEvents \<or> (\<exists>x. e = ESetEC x) \<or> e = ECommand" using assms(2) by blast
  note route = routes_effect [OF e this]
  show "isWriteRequest r \<or> srv_handler s' = srv_handler s"
    using route eff assms(2) by (auto simp: isWriteRequest_def url_path_def has_prefix_def split: if_splits)
  show "url_path r \<noteq> ''/health''"
    using route by (auto simp: url_path_def)
qed

lemma withAuth_passes:
  assumes "withAuth nxt r s = OK (s', rsp)"
  shows "s' = s \<and> rsp_status rsp \<noteq> 200 \<or>
         nxt r s = OK (s', rsp) \<and>
           (url_path r = ''/health'' \<or>
            (\<exists>t. BearerToken (rq_Authorization r) = Some t \<and>
               (if isWriteRequest r then CompareToken (WriteToken (srv_auth s)) t
                else CompareToken (ReadToken (srv_auth s)) t \<or> CompareToken (WriteToken (srv_auth s)) t)))"
proof (cases "url_path r = ''/health''")
  case True
  then show ?thesis using assms by (simp add: withAuth_def)
next
  case False
  show ?thesis
  proof (cases "BearerToken (rq_Authorization r)")
    case None
    then show ?thesis using assms False by (auto simp: withAuth_def writeError_def writeJSON_def)
  next
    case (Some t)
    then show ?thesis using assms False
      by (auto simp: withAuth_def writeError_def writeJSON_def split: if_split_asm)
  qed
qed

lemma serve_authorized:
  assumes "Enabled (srv_auth s)" and "serve env ch r s = OK (s', rsp)"
  shows "(srv_handler s' \<noteq> srv_handler s \<longrightarrow>
            WriteToken (srv_auth s) \<noteq> [] \<and> BearerToken (rq_Authorization r) = Some (WriteToken (srv_auth s))) \<and>
         (s' \<noteq> s \<or> rsp_status rsp = 200 \<and> url_path r \<noteq> ''/health'' \<longrightarrow>
            (\<exists>t \<in> {ReadToken (srv_auth s), WriteToken (srv_auth s)}.
               t \<noteq> [] \<and> BearerToken (rq_Authorization r) = Some t))"
proof -
  show ?thesis
  proof (cases "rq_Method r = ''OPTIONS''")
    case True
    with assms(2) show ?thesis by (auto simp: serve_def withCORS_def Let_def split: if_splits)
  next
    case False
    with assms obtain rsp' where auth: "withAuth (serve_mux env ch) r s = OK (s', rsp')"
      and st: "rsp_status rsp = rsp_status rsp'"
      by (auto simp: serve_def withCORS_def Let_def res_simps)
    from withAuth_passes [OF auth] show ?thesis
    proof
      assume "s' = s \<and> rsp_status rsp' \<noteq> 200"
      then show ?thesis using st by simp
    next
      assume pass: "serve_mux env ch r s = OK (s', rsp') \<and>
           (url_path r = ''/health'' \<or>
            (\<exists>t. BearerToken (rq_Authorization r) = Some t \<and>
               (if isWriteRequest r then CompareToken (WriteToken (srv_auth s)) t
                else CompareToken (ReadToken (srv_auth s)) t \<or> CompareToken (WriteToken (srv_auth s)) t)))"
      show ?thesis
      proof (cases "url_path r = ''/health''")
        case True
        with pass have "s' = s" using serve_mux_effect(2) by blast
        then show ?thesis using True by simp
      next
        case False
        with pass obtain t where t: "BearerToken (rq_Authorization r) = Some t"
          and cmp: "if isWriteRequest r then CompareToken (WriteToken (srv_auth s)) t
                    else CompareToken (ReadToken (srv_auth s)) t \<or> CompareToken (WriteToken (srv_auth s)) t"
          by blast
        have "isWriteRequest r" if "srv_handler s' \<noteq> srv_handler s"
          using that pass serve_mux_effect(1) by blast
        then show ?thesis using t cmp by (auto simp: CompareToken_iff split: if_split_asm)
      qed
    qed
  qed
qed

text \<open>C12. Authorization. When tokens are configured, a request that changes the equipment carried the write
  token, so none does while the write token is empty; and whoever gets an answer with status 200
  from anything but the health check, or subscribes to the events, carried one of the two tokens.
\<close>

theorem rest_authorization:
  assumes "Enabled (srv_auth s)" and "serve env ch r s = OK (s', rsp)"
  shows "(srv_handler s' \<noteq> srv_handler s \<longrightarrow>
            WriteToken (srv_auth s) \<noteq> [] \<and> BearerToken (rq_Authorization r) = Some (WriteToken (srv_auth s))) \<and>
         (s' \<noteq> s \<or> rsp_status rsp = 200 \<and> url_path r \<noteq> ''/health'' \<longrightarrow>
            (\<exists>t \<in> {ReadToken (srv_auth s), WriteToken (srv_auth s)}.
               t \<noteq> [] \<and> BearerToken (rq_Authorization r) = Some t))"
  using serve_authorized [OF assms] .

definition demo_env :: http_env where
  "demo_env = \<lparr>env_equal_fold = (=), env_json_value = (\<lambda>b. if b = [] then None else Some (VInt 7)),
     env_json_command = (\<lambda>b. Some (''START'', [])), env_error_text = (\<lambda>e. []), env_ord = id,
     env_ord_params = id, env_flusher = True, env_redirect = not_found\<rparr>"

definition demo_server :: Server where
  "demo_server =
     NewServerWithAuth (NewSession (DefaultConfig RoleActive 1))
       ((NewHandler 1 ''EQ'' ''1.0'')\<lparr>h_commands := [(''START'', Some (\<lambda>ps. 0))]\<rparr>)
       \<lparr>ReadToken = ''r'', WriteToken = ''w''\<rparr> \<lparr>AllowedOrigins = []\<rparr>"

definition demo_request :: "string \<Rightarrow> Request" where
  "demo_request tok =
     \<lparr>rq_Method = ''POST'', rq_segments = [''api'', ''command''], rq_canonical = True,
      rq_Authorization = ''Bearer '' @ tok, rq_Origin = [], rq_body = []\<rparr>"

lemma demo_bearer: "BearerToken ''Bearer w'' = Some ''w''"
proof -
  have "trim_front space_seqs ''w'' = ''w''" "trim_front (map rev space_seqs) ''w'' = ''w''"
    by (rule trim_front_id; auto simp: space_seqs_def has_prefix_def char_of_def bit_iff_odd)+
  then show ?thesis
    by (simp add: BearerToken_def bearer_scheme_def TrimSpace_def ascii_lower_def char_of_def bit_iff_odd)
qed

lemma demo_command:
  "serve_mux demo_env 0 (demo_request t) demo_server =
     OK (demo_server\<lparr>srv_handler := (srv_handler demo_server)\<lparr>h_executed := [(''START'', [])]\<rparr>\<rparr>,
         writeData (JObject [(''command'', JString ''START''), (''status'', JString ''OK''), (''code'', JInt 0)]))"
  by (simp add: serve_mux_def registerRoutes_def demo_env_def demo_request_def demo_server_def NewServerWithAuth_def
      NewHandler_def handleCommand_def json_params_def Execute_def HasCommand_def CommandStatus_String_def
      res_simps Let_def map_filter_simps)

theorem rest_authorization_witness:
  "\<exists>s' rsp. serve demo_env 0 (demo_request ''w'') demo_server = OK (s', rsp) \<and>
     h_executed (srv_handler s') = [(''START'', [])] \<and>
     BearerToken (rq_Authorization (demo_request ''w'')) = Some (WriteToken (srv_auth demo_server))"
proof -
  let ?s = "demo_server\<lparr>srv_handler := (srv_handler demo_server)\<lparr>h_executed := [(''START'', [])]\<rparr>\<rparr>"
  have auth: "Enabled (srv_auth demo_server)" by (simp add: Enabled_def demo_server_def NewServerWithAuth_def)
  have "withAuth (serve_mux demo_env 0) (demo_request ''w'') demo_server =
          serve_mux demo_env 0 (demo_request ''w'') demo_server"
    using demo_bearer
    by (simp add: withAuth_def demo_request_def isWriteRequest_def url_path_def CompareToken_def demo_server_def
        NewServerWithAuth_def)
  then obtain rsp where serve: "serve demo_env 0 (demo_request ''w'') demo_server = OK (?s, rsp)"
    using auth demo_command [of "''w''"]
    by (simp add: serve_def withCORS_def demo_request_def Let_def res_simps OriginAllowed_def)
  have "srv_handler ?s \<noteq> srv_handler demo_server"
    by (simp add: demo_server_def NewServerWithAuth_def NewHandler_def)
  then have "BearerToken (rq_Authorization (demo_request ''w'')) = Some (WriteToken (srv_auth demo_server))"
    using rest_authorization [OF auth serve] by blast
  then show ?thesis using serve by simp
qed

section \<open>Equipment constants over the interface\<close>

text \<open>
  Writing a constant. Status 200 means that the path names a known constant whose range check
  accepts the value of the body, that a following read answers with exactly that value, and that all
  other constants are unchanged; every other answer is 400 or 404 and changes nothing.
\<close>

theorem ec_write_read_back:
  assumes "handleSetEC env a body s = OK (s', rsp)"
  shows "if rsp_status rsp = 200
         then \<exists>ecid v ec. parseUint32 a = Some ecid \<and> env_json_value env body = Some v \<and>
                GetEC ecid (h_vars (srv_handler s)) = Some ec \<and> checkECRange ec v = OK () \<and>
                handleGetEC a s' = writeData (ec_json ecid (ec\<lparr>ec_Value := v\<rparr>)) \<and>
                (\<forall>k. k \<noteq> ecid \<longrightarrow> GetEC k (h_vars (srv_handler s')) = GetEC k (h_vars (srv_handler s)))
         else s' = s \<and> rsp_status rsp \<in> {400, 404}"
proof (cases "parseUint32 a")
  case None
  then show ?thesis using assms by (auto simp: handleSetEC_def writeError_def writeJSON_def)
next
  case (Some ecid)
  note arg = Some
  show ?thesis
  proof (cases "env_json_value env body")
    case None
    then show ?thesis using assms arg by (auto simp: handleSetEC_def writeError_def writeJSON_def)
  next
    case (Some v)
    then show ?thesis using assms arg
      by (auto simp: handleSetEC_def handleGetEC_def writeError_def writeData_def writeJSON_def set_vars_def
          SetEC_def GetEC_def res_simps update_conv' split: option.splits res.splits)
  qed
qed

theorem ec_write_read_back_witness:
  "\<exists>s' rsp. handleSetEC demo_env ''10'' [1]
       (set_vars (DefineEC ec_pressure NewVariableStore) demo_server) = OK (s', rsp) \<and> rsp_status rsp = 200 \<and>
     handleGetEC ''10'' s' = writeData (ec_json 10 (ec_pressure\<lparr>ec_Value := VInt 7\<rparr>))"
proof -
  let ?s = "set_vars (DefineEC ec_pressure NewVariableStore) demo_server"
  have arg: "parseUint32 ''10'' = Some 10" by (simp add: parseUint32_def ParseUint_def digit_of_def)
  have "checkECRange ec_pressure (VInt 7) = OK ()"
    by (subst checkECRange_int [of _ 7 _ 0 100]) (simp_all add: ec_pressure_def)
  then obtain s' rsp where run: "handleSetEC demo_env ''10'' [1] ?s = OK (s', rsp)" "rsp_status rsp = 200"
    using arg by (simp add: handleSetEC_def demo_env_def set_vars_def DefineEC_def NewVariableStore_def SetEC_def
        ec_pressure_def res_simps writeData_def writeJSON_def)
  from ec_write_read_back [OF run(1)] run arg show ?thesis
    by (auto simp: demo_env_def set_vars_def DefineEC_def NewVariableStore_def GetEC_def ec_pressure_def)
qed

section \<open>The stream of events\<close>

text \<open>The channels of the event stream keep the contract of a bounded fan-out.\<close>

interpretation sse: event_stream
  "\<lambda>s ch. map_of (srv_sseClients s) ch" "\<lambda>e. BroadcastEvent (ep_Timestamp e) (ep_Type e) (ep_Data e)" sse_next sse_cap
  by unfold_locales (auto simp: BroadcastEvent_def Let_def sse_next_def update_conv')

definition sse_run :: "nat \<Rightarrow> EventPayload stream_op list \<Rightarrow> Server \<Rightarrow> EventPayload list \<times> Server" where
  "sse_run ch = stream_run (\<lambda>e. BroadcastEvent (ep_Timestamp e) (ep_Type e) (ep_Data e)) (sse_next ch)"

text \<open>
  What a subscriber sees. From a subscription with an empty queue on, the events it has taken
  followed by those still queued are a subsequence of the events broadcast, in order and without
  repetition; at most 64 are queued, and nothing is lost before the 65th broadcast.
\<close>

theorem sse_in_order:
  assumes "handleSSE env ch s = (s1, rsp)" and "rsp_status rsp = 200" and "sse_run ch ops s1 = (got, s2)"
  shows "\<exists>q. map_of (srv_sseClients s2) ch = Some q \<and> length q \<le> 64 \<and>
           subseq (got @ q) (broadcasts ops) \<and>
           (length (broadcasts ops) \<le> 64 \<longrightarrow> got @ q = broadcasts ops)"
proof -
  have "map_of (srv_sseClients s1) ch = Some []"
    using assms(1,2) by (auto simp: handleSSE_def writeError_def writeJSON_def update_conv' split: if_splits)
  from sse.subscriber_sees [OF this assms(3) [unfolded sse_run_def]] show ?thesis by (simp add: sse_cap_def)
qed

theorem sse_in_order_witness:
  "\<exists>s1 rsp got s2 q. handleSSE demo_env 3 demo_server = (s1, rsp) \<and>
     sse_run 3 [Broadcast \<lparr>ep_Type = ''a'', ep_Timestamp = [], ep_Data = JNull\<rparr>, Take] s1 = (got, s2) \<and>
     map_of (srv_sseClients s2) 3 = Some q \<and> got @ q = [\<lparr>ep_Type = ''a'', ep_Timestamp = [], ep_Data = JNull\<rparr>]"
proof -
  let ?ops = "[Broadcast \<lparr>ep_Type = ''a'', ep_Timestamp = [], ep_Data = JNull\<rparr>, Take]"
  obtain s1 rsp where c: "handleSSE demo_env 3 demo_server = (s1, rsp)" "rsp_status rsp = 200"
    by (simp add: handleSSE_def demo_env_def)
  obtain got s2 where r: "sse_run 3 ?ops s1 = (got, s2)" by fastforce
  from sse_in_order [OF c r] c r show ?thesis by auto
qed

end
