(* ===== verification/Sml_Parser.thy ===== *)
theory Sml_Parser
  imports Go_Strconv Api_Token Secs2_Roundtrip
begin

text \<open>
  The parser of item notation (\<^verbatim>\<open>ParseSML\<close> of \<^verbatim>\<open>pkg/simulator/script.go\<close>), a recursive descent over
  the bytes of a text. The texts of errors are replaced by constructors. The lemmas show that it
  ends on every text, that what it accepts is a well-formed item, and that every spelling of an item,
  with any blanks and comments, is read as that item.
\<close>

section \<open>The parser\<close>

record smlParser =
  sml_input :: string
  sml_pos :: nat

datatype sml_error = SmlEmpty | SmlEnd | SmlUnknown string nat | SmlUnterminatedList | SmlQuote nat
  | SmlUnterminatedString | SmlBadBinary string | SmlBadBoolean string | SmlBadUint nat string
  | SmlBadInt nat string | SmlBadFloat nat string

definition sml_rest :: "smlParser \<Rightarrow> string" where
  "sml_rest p = drop (sml_pos p) (sml_input p)"

definition advance :: "nat \<Rightarrow> smlParser \<Rightarrow> smlParser" where
  "advance n p = p\<lparr>sml_pos := sml_pos p + n\<rparr>"

definition at_end :: "smlParser \<Rightarrow> bool" where
  "at_end p \<longleftrightarrow> length (sml_input p) \<le> sml_pos p"

definition newline :: char where "newline = CHR 0x0A"

definition blank :: "char \<Rightarrow> bool" where
  "blank c \<longleftrightarrow> c \<in> {CHR '' '', CHR 0x09, CHR 0x0A, CHR 0x0D}"

text \<open>How many bytes at the front of a text are blanks and line comments.\<close>

function space_run :: "string \<Rightarrow> nat" where
  "space_run s =
     (case s of
        [] \<Rightarrow> 0
      | c # t \<Rightarrow>
          if blank c then 1 + space_run t
          else if c = CHR ''/'' \<and> t \<noteq> [] \<and> hd t = CHR ''/''
          then let n = length (takeWhile (\<lambda>c. c \<noteq> newline) s) in n + space_run (drop n s)
          else 0)"
  by pat_completeness auto
termination
  by (relation "measure length") (auto simp: newline_def)

declare space_run.simps [simp del]

definition skipSpace :: "smlParser \<Rightarrow> smlParser" where
  "skipSpace p = advance (space_run (sml_rest p)) p"

definition peek :: "smlParser \<Rightarrow> char" where
  "peek p = (if at_end p then CHR 0x00 else sml_input p ! sml_pos p)"

text \<open>\<^verbatim>\<open>unicode.IsSpace\<close> of a single byte.\<close>

definition byte_space :: "char \<Rightarrow> bool" where
  "byte_space c \<longleftrightarrow> (let n = ccode c in 9 \<le> n \<and> n \<le> 13 \<or> n = 32 \<or> n = 0x85 \<or> n = 0xA0)"

definition token_end :: "char \<Rightarrow> bool" where
  "token_end c \<longleftrightarrow> byte_space c \<or> c = CHR ''{'' \<or> c = CHR ''}''"

definition readToken :: "smlParser \<Rightarrow> string \<times> smlParser" where
  "readToken p0 =
     (let p = skipSpace p0; token = takeWhile (\<lambda>c. \<not> token_end c) (sml_rest p)
      in (token, advance (length token) p))"

text \<open>The bytes up to the closing quote; a backslash takes the byte after it along, even where the
  text ends.\<close>

fun string_run :: "string \<Rightarrow> nat" where
  "string_run [] = 0"
| "string_run (c # s) =
     (if c = CHR 0x22 then 0
      else if c = CHR 0x5C then (case s of [] \<Rightarrow> 2 | _ # t \<Rightarrow> 2 + string_run t)
      else 1 + string_run s)"

definition parseASCII :: "smlParser \<Rightarrow> (sml_error, Item \<times> smlParser) res" where
  "parseASCII p0 =
     (let p = skipSpace p0
      in if peek p \<noteq> CHR 0x22 then Err (SmlQuote (sml_pos p))
         else
           let p = advance 1 p; n = string_run (sml_rest p); q = advance n p
           in if at_end q then Err SmlUnterminatedString
              else OK (NewASCII (take n (sml_rest p)), advance 1 q))"

definition parseBinary :: "smlParser \<Rightarrow> (sml_error, Item \<times> smlParser) res" where
  "parseBinary p0 =
     (let (token, p) = readToken (skipSpace p0);
          n = (if has_prefix token ''0x'' \<or> has_prefix token ''0X'' then ParseUint (drop 2 token) 16 8
               else ParseUint token 10 8)
      in case n of
           None \<Rightarrow> Err (SmlBadBinary token)
         | Some v \<Rightarrow> OK (NewBinary [word_of_nat v], p))"

definition parseBoolean :: "smlParser \<Rightarrow> (sml_error, Item \<times> smlParser) res" where
  "parseBoolean p0 =
     (let (token, p) = readToken (skipSpace p0); low = map ascii_lower token
      in if low = ''true'' then OK (NewBoolean [True], p)
         else if low = ''false'' then OK (NewBoolean [False], p)
         else Err (SmlBadBoolean token))"

definition parseUint :: "nat \<Rightarrow> smlParser \<Rightarrow> (sml_error, Item \<times> smlParser) res" where
  "parseUint sz p0 =
     (let (token, p) = readToken (skipSpace p0)
      in case ParseUint token 0 (sz * 8) of
           None \<Rightarrow> Err (SmlBadUint sz token)
         | Some v \<Rightarrow>
             if sz = 1 then OK (NewU1 [word_of_nat v], p)
             else if sz = 2 then OK (NewU2 [word_of_nat v], p)
             else if sz = 4 then OK (NewU4 [word_of_nat v], p)
             else if sz = 8 then OK (NewU8 [word_of_nat v], p)
             else Err (SmlBadUint sz []))"

definition parseInt :: "nat \<Rightarrow> smlParser \<Rightarrow> (sml_error, Item \<times> smlParser) res" where
  "parseInt sz p0 =
     (let (token, p) = readToken (skipSpace p0)
      in case ParseInt token 0 (sz * 8) of
           None \<Rightarrow> Err (SmlBadInt sz token)
         | Some v \<Rightarrow>
             if sz = 1 then OK (NewI1 [word_of_int v], p)
             else if sz = 2 then OK (NewI2 [word_of_int v], p)
             else if sz = 4 then OK (NewI4 [word_of_int v], p)
             else if sz = 8 then OK (NewI8 [word_of_int v], p)
             else Err (SmlBadInt sz []))"

definition parseFloat :: "nat \<Rightarrow> smlParser \<Rightarrow> (sml_error, Item \<times> smlParser) res" where
  "parseFloat sz p0 =
     (let (token, p) = readToken (skipSpace p0)
      in case ParseFloat token of
           None \<Rightarrow> Err (SmlBadFloat sz token)
         | Some v \<Rightarrow>
             if sz = 4 then OK (NewF4 [f64_to_f32 v], p)
             else if sz = 8 then OK (NewF8 [v], p)
             else Err (SmlBadFloat sz []))"

text \<open>The cases of \<^verbatim>\<open>parseItem\<close> that do not recurse.\<close>

definition parseScalar :: "string \<Rightarrow> smlParser \<Rightarrow> (sml_error, Item \<times> smlParser) res" where
  "parseScalar token p =
     (if token = ''A'' then parseASCII p
      else if token = ''B'' then parseBinary p
      else if token = ''BOOLEAN'' then parseBoolean p
      else if token = ''U1'' then parseUint 1 p
      else if token = ''U2'' then parseUint 2 p
      else if token = ''U4'' then parseUint 4 p
      else if token = ''U8'' then parseUint 8 p
      else if token = ''I1'' then parseInt 1 p
      else if token = ''I2'' then parseInt 2 p
      else if token = ''I4'' then parseInt 4 p
      else if token = ''I8'' then parseInt 8 p
      else if token = ''F4'' then parseFloat 4 p
      else if token = ''F8'' then parseFloat 8 p
      else Err (SmlUnknown token (sml_pos p)))"

text \<open>\<^verbatim>\<open>parseItem\<close>, \<^verbatim>\<open>parseList\<close> and the loop of \<^verbatim>\<open>parseList\<close> over the children.\<close>

function (domintros) parseItem :: "smlParser \<Rightarrow> (sml_error, Item \<times> smlParser) res"
and parseList :: "smlParser \<Rightarrow> (sml_error, Item \<times> smlParser) res"
and parse_children :: "smlParser \<Rightarrow> (sml_error, Item list \<times> smlParser) res" where
  "parseItem p0 =
     (let p = skipSpace p0
      in if at_end p then Err SmlEnd
         else case readToken p of (token, q) \<Rightarrow>
           if has_prefix token ''L'' then parseList q else parseScalar token q)"
| "parseList p0 =
     (let p = skipSpace p0
      in if peek p \<noteq> CHR ''{'' then OK (NewList [], p)
         else bind_res (parse_children (advance 1 p))
                (\<lambda>(children, q). OK (NewList (map Some children), q)))"
| "parse_children p0 =
     (let p = skipSpace p0
      in if at_end p then Err SmlUnterminatedList
         else if peek p = CHR ''}'' then OK ([], advance 1 p)
         else bind_res (parseItem p)
                (\<lambda>(child, q). bind_res (parse_children q) (\<lambda>(children, r). OK (child # children, r))))"
  by pat_completeness auto

section \<open>Progress\<close>

lemma sml_input_advance [simp]: "sml_input (advance n p) = sml_input p"
  and sml_pos_advance [simp]: "sml_pos (advance n p) = sml_pos p + n"
  by (simp_all add: advance_def)

lemma sml_input_skip [simp]: "sml_input (skipSpace p) = sml_input p"
  and sml_pos_skip: "sml_pos p \<le> sml_pos (skipSpace p)"
  by (simp_all add: skipSpace_def)

lemma space_run_Nil [simp]: "space_run [] = 0"
  by (simp add: space_run.simps)

lemma space_run_blank: "blank c \<Longrightarrow> space_run (c # t) = Suc (space_run t)"
  by (simp add: space_run.simps [of "c # t"])

lemma space_run_comment:
  "space_run (CHR ''/'' # CHR ''/'' # t) =
     2 + length (takeWhile (\<lambda>c. c \<noteq> newline) t) + space_run (dropWhile (\<lambda>c. c \<noteq> newline) t)"
  by (subst space_run.simps) (simp add: blank_def newline_def Let_def dropWhile_eq_drop)

lemma space_run_stop:
  "\<not> blank c \<Longrightarrow> c \<noteq> CHR ''/'' \<or> t = [] \<or> hd t \<noteq> CHR ''/'' \<Longrightarrow> space_run (c # t) = 0"
  by (subst space_run.simps) auto

lemma space_run_le: "space_run s \<le> length s"
proof (induction "length s" arbitrary: s rule: less_induct)
  case less
  show ?case
  proof (cases s)
    case (Cons c t)
    consider "blank c" | r where "c = CHR ''/''" "t = CHR ''/'' # r"
      | "\<not> blank c" "c \<noteq> CHR ''/'' \<or> t = [] \<or> hd t \<noteq> CHR ''/''"
      by (metis list.collapse)
    then show ?thesis
    proof cases
      case 1
      then show ?thesis using less [of t] Cons by (simp add: space_run_blank)
    next
      case 2
      let ?P = "\<lambda>c. c \<noteq> newline"
      have len: "length (takeWhile ?P r) + length (dropWhile ?P r) = length r"
        by (metis length_append takeWhile_dropWhile_id)
      then have "space_run (dropWhile ?P r) \<le> length (dropWhile ?P r)"
        using less [of "dropWhile ?P r"] 2 Cons by simp
      then show ?thesis using len 2 Cons by (simp add: space_run_comment)
    next
      case 3
      then show ?thesis using Cons by (simp add: space_run_stop)
    qed
  qed simp
qed

text \<open>A parse step that succeeds moves forward and stays inside the text.\<close>

definition moves :: "smlParser \<Rightarrow> smlParser \<Rightarrow> bool" where
  "moves p q \<longleftrightarrow> sml_input q = sml_input p \<and> sml_pos p \<le> sml_pos q \<and>
     (sml_pos p \<le> length (sml_input p) \<longrightarrow> sml_pos q \<le> length (sml_input p))"

lemma moves_refl [simp]: "moves p p"
  by (simp add: moves_def)

lemma moves_trans: "moves p q \<Longrightarrow> moves q r \<Longrightarrow> moves p r"
  by (auto simp: moves_def)

lemma moves_skip [simp]: "moves p (skipSpace p)"
  using space_run_le [of "sml_rest p"] by (auto simp: moves_def skipSpace_def sml_rest_def)

lemma moves_token: "readToken p = (t, q) \<Longrightarrow> moves p q"
proof -
  assume t: "readToken p = (t, q)"
  have "length (takeWhile (\<lambda>c. \<not> token_end c) (sml_rest (skipSpace p))) \<le> length (sml_rest (skipSpace p))"
    by (rule length_takeWhile_le)
  then have "moves (skipSpace p) q" using t by (auto simp: readToken_def Let_def moves_def sml_rest_def)
  then show ?thesis using moves_trans moves_skip by blast
qed

lemma token_progress: "readToken p = (t, q) \<Longrightarrow> t \<noteq> [] \<Longrightarrow> sml_pos p < sml_pos q"
  using sml_pos_skip [of p]
  by (auto simp: readToken_def Let_def simp flip: length_greater_0_conv simp del: length_greater_0_conv)

lemma moves_advance: "sml_pos p + n \<le> length (sml_input p) \<Longrightarrow> moves p (advance n p)"
  by (simp add: moves_def)

lemma moves_ASCII: "parseASCII p = OK (it, q) \<Longrightarrow> moves p q"
  using sml_pos_skip [of p]
  by (auto simp: parseASCII_def Let_def at_end_def moves_def split: if_splits)

lemma moves_number:
  "parseBinary p = OK (it, q) \<Longrightarrow> moves p q" "parseBoolean p = OK (it, q) \<Longrightarrow> moves p q"
  "parseUint n p = OK (it, q) \<Longrightarrow> moves p q" "parseInt n p = OK (it, q) \<Longrightarrow> moves p q"
  "parseFloat n p = OK (it, q) \<Longrightarrow> moves p q"
  using moves_trans [OF moves_skip moves_token, of p]
  by (auto simp: parseBinary_def parseBoolean_def parseUint_def parseInt_def parseFloat_def Let_def
      split: prod.splits option.splits if_split_asm)

lemma moves_scalar: "parseScalar t p = OK (it, q) \<Longrightarrow> moves p q"
  by (simp add: parseScalar_def split: if_split_asm) (blast intro: moves_ASCII moves_number)+

lemma has_prefix_nonempty: "has_prefix t (c # cs) \<Longrightarrow> t \<noteq> []"
  by (auto simp: has_prefix_def)

lemma parseScalar_token: "parseScalar t p = OK x \<Longrightarrow> t \<noteq> []"
  by (auto simp: parseScalar_def)

lemma peek_not_end: "peek p \<noteq> CHR 0x00 \<Longrightarrow> \<not> at_end p"
  by (auto simp: peek_def)

abbreviation "parse_dom \<equiv> parseItem_parseList_parse_children_dom"

lemma parse_progress:
  "parse_dom (Inl p) \<Longrightarrow> parseItem p = OK (it, q) \<Longrightarrow> moves p q \<and> sml_pos p < sml_pos q"
  "parse_dom (Inr (Inl p)) \<Longrightarrow> parseList p = OK (it, q) \<Longrightarrow> moves p q"
  "parse_dom (Inr (Inr p)) \<Longrightarrow> parse_children p = OK (its, q) \<Longrightarrow> moves p q"
proof (induction p and p and p arbitrary: it q and it q and its q
    rule: parseItem_parseList_parse_children.pinduct)
  case (1 p0)
  obtain t r where tok: "readToken (skipSpace p0) = (t, r)" by fastforce
  have mv: "moves p0 r" using moves_trans [OF moves_skip moves_token [OF tok]] .
  have lt: "sml_pos p0 < sml_pos r" if "t \<noteq> []"
    using token_progress [OF tok that] sml_pos_skip [of p0] by linarith
  show ?case
  proof (cases "has_prefix t ''L''")
    case True
    then have "moves r q"
      using 1 tok by (auto simp: parseItem.psimps Let_def split: if_splits)
    then show ?thesis using mv lt [OF has_prefix_nonempty [OF True]] moves_trans [OF mv]
      by (auto simp: moves_def)
  next
    case False
    then have "parseScalar t r = OK (it, q)"
      using 1 tok by (auto simp: parseItem.psimps Let_def split: if_splits)
    then show ?thesis using mv lt moves_trans [OF mv] moves_scalar parseScalar_token
      by (fastforce simp: moves_def)
  qed
next
  case (2 p0)
  show ?case
  proof (cases "peek (skipSpace p0) = CHR ''{''")
    case True
    then have "moves (skipSpace p0) (advance 1 (skipSpace p0))"
      using peek_not_end [of "skipSpace p0"] by (intro moves_advance) (simp add: at_end_def)
    moreover have "moves (advance 1 (skipSpace p0)) q"
      using 2 True by (auto simp: parseList.psimps Let_def res_simps)
    ultimately show ?thesis using moves_trans moves_skip by blast
  next
    case False
    then show ?thesis using 2 by (auto simp: parseList.psimps Let_def)
  qed
next
  case (3 p0)
  let ?p = "skipSpace p0"
  show ?case
  proof (cases "peek ?p = CHR ''}''")
    case True
    then have "moves ?p (advance 1 ?p)"
      using peek_not_end [of ?p] by (intro moves_advance) (simp add: at_end_def)
    then show ?thesis using 3 True moves_trans [OF moves_skip [of p0]]
      by (auto simp: parse_children.psimps Let_def split: if_splits)
  next
    case False
    then obtain c r cs where "parseItem ?p = OK (c, r)" "parse_children r = OK (cs, q)" "\<not> at_end ?p"
      using 3 by (auto simp: parse_children.psimps Let_def res_simps split: if_splits)
    then have "moves ?p r" "moves r q" using 3 False by blast+
    then show ?thesis using moves_trans moves_skip by blast
  qed
qed

fun parse_rank :: "smlParser + smlParser + smlParser \<Rightarrow> nat" where
  "parse_rank (Inl p) = 2 * (length (sml_input p) - sml_pos p)"
| "parse_rank (Inr (Inl p)) = 2 * (length (sml_input p) - sml_pos p)"
| "parse_rank (Inr (Inr p)) = 2 * (length (sml_input p) - sml_pos p) + 1"

lemma rank_token:
  assumes "\<not> at_end (skipSpace p)" and "readToken (skipSpace p) = (t, q)" and "t \<noteq> []"
  shows "parse_rank (Inr (Inl q)) < parse_rank (Inl p)"
  using token_progress [OF assms(2,3)] moves_token [OF assms(2)] sml_pos_skip [of p] assms(1)
  by (auto simp: moves_def at_end_def)

lemma rank_open:
  "peek (skipSpace p) = CHR ''{'' \<Longrightarrow> parse_rank (Inr (Inr (advance 1 (skipSpace p)))) < parse_rank (Inr (Inl p))"
  using peek_not_end [of "skipSpace p"] sml_pos_skip [of p] by (auto simp: at_end_def)

lemma rank_child: "parse_rank (Inl (skipSpace p)) < parse_rank (Inr (Inr p))"
  using sml_pos_skip [of p] by simp

lemma rank_next:
  assumes "\<not> at_end (skipSpace p)" and "parse_dom (Inl (skipSpace p))" and "parseItem (skipSpace p) = OK (c, q)"
  shows "parse_rank (Inr (Inr q)) < parse_rank (Inr (Inr p))"
  using parse_progress(1) [OF assms(2,3)] sml_pos_skip [of p] assms(1)
  by (auto simp: moves_def at_end_def)

lemma parse_total: "parse_dom x"
proof (induction x rule: measure_induct_rule [of parse_rank])
  case (less x)
  consider p where "x = Inl p" | p where "x = Inr (Inl p)" | p where "x = Inr (Inr p)"
    by (metis sum.exhaust)
  then show ?case
  proof cases
    case 1
    have "parse_dom (Inr (Inl q))"
      if "\<not> at_end (skipSpace p)" "(t, q) = readToken (skipSpace p)" "has_prefix t ''L''" for t q
      using less [of "Inr (Inl q)"] rank_token [OF that(1) that(2) [symmetric]] has_prefix_nonempty [OF that(3)] 1 by blast
    then show ?thesis using 1 by (auto intro!: parseItem_parseList_parse_children.domintros(1))
  next
    case 2
    have "parse_dom (Inr (Inr (advance 1 (skipSpace p))))" if "peek (skipSpace p) = CHR ''{''"
      using less rank_open [OF that] 2 by blast
    then show ?thesis using 2 by (auto intro!: parseItem_parseList_parse_children.domintros(2))
  next
    case 3
    have child: "parse_dom (Inl (skipSpace p))" using less rank_child [of p] 3 by blast
    moreover have "parse_dom (Inr (Inr q))" if "\<not> at_end (skipSpace p)" "parseItem (skipSpace p) = OK (c, q)" for c q
      using less rank_next [OF that(1) child that(2)] 3 by blast
    ultimately show ?thesis unfolding 3
      by (intro parseItem_parseList_parse_children.domintros(3) [of p]) auto
  qed
qed

termination parseItem
  by (simp add: parse_total)

declare parseItem.simps [simp del] parseList.simps [simp del] parse_children.simps [simp del]

definition ParseSML :: "string \<Rightarrow> (sml_error, Item) res" where
  "ParseSML text0 =
     (let text = TrimSpace text0
      in if text = [] then Err SmlEmpty
         else bind_res (parseItem \<lparr>sml_input = text, sml_pos = 0\<rparr>) (\<lambda>(item, _). OK item))"

section \<open>What is accepted is an item\<close>

lemma wf_ASCII: "parseASCII p = OK (it, q) \<Longrightarrow> length (sml_input p) \<le> max_len \<Longrightarrow> wf_item it"
  by (auto simp: parseASCII_def Let_def NewASCII_def sml_rest_def format_defs split: if_splits)

lemma wf_scalar:
  assumes "parseScalar t p = OK (it, q)" and "length (sml_input p) \<le> max_len"
  shows "wf_item it"
proof -
  have n: "wf_item (NewBinary [b])" "wf_item (NewBoolean [x])" "wf_item (NewU1 [b])" "wf_item (NewU2 [h])"
    "wf_item (NewU4 [w])" "wf_item (NewU8 [d])" "wf_item (NewI1 [b])" "wf_item (NewI2 [h])"
    "wf_item (NewI4 [w])" "wf_item (NewI8 [d])" "wf_item (NewF4 [w])" "wf_item (NewF8 [d])" for b x h w d
    by (simp_all add: new_item_defs numeric_formats_def itemSize_def max_len_def format_defs)
  have "wf_item it" if "parseBinary p = OK (it, q)" using that n
    by (auto simp: parseBinary_def Let_def split: prod.splits option.splits if_split_asm)
  moreover have "wf_item it" if "parseBoolean p = OK (it, q)" using that n
    by (auto simp: parseBoolean_def Let_def split: prod.splits option.splits if_split_asm)
  moreover have "wf_item it" if "parseUint k p = OK (it, q)" for k using that n
    by (auto simp: parseUint_def Let_def split: prod.splits option.splits if_split_asm)
  moreover have "wf_item it" if "parseInt k p = OK (it, q)" for k using that n
    by (auto simp: parseInt_def Let_def split: prod.splits option.splits if_split_asm)
  moreover have "wf_item it" if "parseFloat k p = OK (it, q)" for k using that n
    by (auto simp: parseFloat_def Let_def split: prod.splits option.splits if_split_asm)
  ultimately show ?thesis using assms wf_ASCII
    by (auto simp: parseScalar_def split: if_split_asm)
qed

lemmas parse_moves = parse_progress [OF parse_total]

lemma moves_input: "moves p q \<Longrightarrow> sml_input q = sml_input p"
  by (simp add: moves_def)

lemma parse_wf:
  "parseItem p = OK (it, q) \<Longrightarrow> length (sml_input p) \<le> max_len \<Longrightarrow> wf_item it"
  "parseList p = OK (it, q) \<Longrightarrow> length (sml_input p) \<le> max_len \<Longrightarrow> wf_item it"
  "parse_children p = OK (its, q) \<Longrightarrow> length (sml_input p) \<le> max_len \<Longrightarrow>
     (\<forall>c \<in> set its. wf_item c) \<and> sml_pos p + length its \<le> sml_pos q \<and> sml_pos q \<le> length (sml_input p)"
proof (induction p and p and p arbitrary: it q and it q and its q
    rule: parseItem_parseList_parse_children.induct)
  case (1 p0)
  obtain t r where tok: "readToken (skipSpace p0) = (t, r)" by fastforce
  with moves_input [OF moves_token [OF tok]] 1 show ?case
    by (auto simp: parseItem.simps Let_def intro: wf_scalar split: if_splits)
next
  case (2 p0)
  show ?case
  proof (cases "peek (skipSpace p0) = CHR ''{''")
    case True
    then obtain cs where cs: "parse_children (advance 1 (skipSpace p0)) = OK (cs, q)"
      "it = NewList (map Some cs)"
      using 2(2) by (auto simp: parseList.simps Let_def res_simps)
    then have "\<forall>c \<in> set cs. wf_item c" "length cs \<le> max_len"
      using 2(1) [OF refl _ cs(1)] True 2(3) by auto
    then show ?thesis using cs(2) by (auto simp: NewList_def ptr_val_def)
  next
    case False
    then show ?thesis using 2(2) by (auto simp: parseList.simps Let_def NewList_def)
  qed
next
  case (3 p0)
  let ?p = "skipSpace p0"
  have le: "sml_pos p0 \<le> sml_pos ?p" "\<not> at_end ?p" using 3(3) sml_pos_skip [of p0]
    by (auto simp: parse_children.simps Let_def split: if_splits)
  show ?case
  proof (cases "peek ?p = CHR ''}''")
    case True
    then show ?thesis using 3(3) le by (auto simp: parse_children.simps Let_def at_end_def)
  next
    case False
    then obtain c r cs where c: "parseItem ?p = OK (c, r)" "parse_children r = OK (cs, q)" "its = c # cs"
      using 3(3) le by (auto simp: parse_children.simps Let_def res_simps)
    note mv = parse_moves(1) [OF c(1)]
    have "wf_item c" using 3(1) [OF refl le(2) False c(1)] 3(4) by simp
    moreover have "(\<forall>c \<in> set cs. wf_item c) \<and> sml_pos r + length cs \<le> sml_pos q \<and> sml_pos q \<le> length (sml_input r)"
      using 3(2) [OF refl le(2) False c(1) refl c(2)] mv 3(4) by (simp add: moves_def)
    ultimately show ?thesis using mv le c(3) by (auto simp: moves_def)
  qed
qed

lemma trim_front_shorter: "length (trim_front seqs s) \<le> length s"
  using trim_front_suffix [of s seqs] by (metis length_append le_add2)

lemma TrimSpace_shorter: "length (TrimSpace s) \<le> length s"
proof -
  have "length (TrimSpace s) \<le> length (rev (trim_front space_seqs s))"
    unfolding TrimSpace_def length_rev [of "trim_front (map rev space_seqs) _"] by (rule trim_front_shorter)
  then show ?thesis using trim_front_shorter [of space_seqs s] by simp
qed

text \<open>A text whose first and last bytes are printable is not trimmed.\<close>

definition printable :: "char \<Rightarrow> bool" where
  "printable c \<longleftrightarrow> 33 \<le> ccode c \<and> ccode c \<le> 126"

lemma trim_front_printable:
  assumes "s \<noteq> []" and "printable (hd s)" and "list_all (\<lambda>q. q \<noteq> [] \<and> \<not> printable (hd q)) seqs"
  shows "trim_front seqs s = s"
proof (rule trim_front_id)
  fix q assume "q \<in> set seqs" "q \<noteq> []"
  then have "\<not> printable (hd q)" using assms(3) by (auto simp: list_all_iff)
  then show "\<not> has_prefix s q" using assms(1,2) \<open>q \<noteq> []\<close> by (cases s; cases q) (auto simp: has_prefix_def)
qed

lemma TrimSpace_printable:
  assumes "s \<noteq> []" and "printable (hd s)" and "printable (last s)"
  shows "TrimSpace s = s"
proof -
  have "list_all (\<lambda>q. q \<noteq> [] \<and> \<not> printable (hd q)) space_seqs"
    "list_all (\<lambda>q. q \<noteq> [] \<and> \<not> printable (hd q)) (map rev space_seqs)"
    by (simp_all add: space_seqs_def printable_def)
  then show ?thesis
    using trim_front_printable [of s space_seqs] trim_front_printable [of "rev s" "map rev space_seqs"] assms
    by (simp add: TrimSpace_def hd_rev)
qed

text \<open>What the parser accepts can be sent: from a text of at most \<open>2 ^ 24 - 1\<close> bytes it builds a well-formed
  item, which encodes and decodes to itself up to the spelling of empty strings.
\<close>

theorem sml_parsed_sendable:
  assumes "ParseSML text = OK it" and "length text \<le> max_len"
  shows "wf_item it \<and> (\<exists>bs. Encode (Some it) = OK bs \<and> Decode bs = OK (norm_item it))"
proof -
  have "length (TrimSpace text) \<le> length text" by (rule TrimSpace_shorter)
  then have "wf_item it"
    using assms parse_wf(1) by (fastforce simp: ParseSML_def Let_def res_simps split: if_splits)
  then show ?thesis using Encode_wf Decode_item_bytes by blast
qed

section \<open>Spellings\<close>

text \<open>Blanks and comments; separators begin with a blank, which ends a token.\<close>

inductive gap :: "string \<Rightarrow> bool" where
  gap_nil: "gap []"
| gap_blank: "blank c \<Longrightarrow> gap g \<Longrightarrow> gap (c # g)"
| gap_comment: "newline \<notin> set w \<Longrightarrow> gap g \<Longrightarrow> gap (CHR ''/'' # CHR ''/'' # w @ newline # g)"

definition separator :: "string \<Rightarrow> bool" where
  "separator g \<longleftrightarrow> gap g \<and> g \<noteq> [] \<and> blank (hd g)"

definition token_text :: "string \<Rightarrow> bool" where
  "token_text w \<longleftrightarrow> w \<noteq> [] \<and> list_all (\<lambda>c. \<not> token_end c) w \<and> \<not> has_prefix w ''//''"

text \<open>What a literal means after the name of a format.\<close>

definition literal :: "string \<Rightarrow> string \<Rightarrow> Item option" where
  "literal f w =
     (if f = ''B'' then
        map_option (\<lambda>v. NewBinary [word_of_nat v])
          (if has_prefix w ''0x'' \<or> has_prefix w ''0X'' then ParseUint (drop 2 w) 16 8 else ParseUint w 10 8)
      else if f = ''BOOLEAN'' then
        (if map ascii_lower w = ''true'' then Some (NewBoolean [True])
         else if map ascii_lower w = ''false'' then Some (NewBoolean [False]) else None)
      else if f = ''U1'' then map_option (\<lambda>v. NewU1 [word_of_nat v]) (ParseUint w 0 8)
      else if f = ''U2'' then map_option (\<lambda>v. NewU2 [word_of_nat v]) (ParseUint w 0 16)
      else if f = ''U4'' then map_option (\<lambda>v. NewU4 [word_of_nat v]) (ParseUint w 0 32)
      else if f = ''U8'' then map_option (\<lambda>v. NewU8 [word_of_nat v]) (ParseUint w 0 64)
      else if f = ''I1'' then map_option (\<lambda>v. NewI1 [word_of_int v]) (ParseInt w 0 8)
      else if f = ''I2'' then map_option (\<lambda>v. NewI2 [word_of_int v]) (ParseInt w 0 16)
      else if f = ''I4'' then map_option (\<lambda>v. NewI4 [word_of_int v]) (ParseInt w 0 32)
      else if f = ''I8'' then map_option (\<lambda>v. NewI8 [word_of_int v]) (ParseInt w 0 64)
      else if f = ''F4'' then map_option (\<lambda>v. NewF4 [f64_to_f32 v]) (ParseFloat w)
      else if f = ''F8'' then map_option (\<lambda>v. NewF8 [v]) (ParseFloat w)
      else None)"

text \<open>The spellings of an item and of the inside of a list.\<close>

inductive spells :: "Item \<Rightarrow> string \<Rightarrow> bool" and spells_list :: "Item list \<Rightarrow> string \<Rightarrow> bool" where
  spells_ASCII: "separator g \<Longrightarrow> list_all (\<lambda>c. c \<noteq> CHR 0x22 \<and> c \<noteq> CHR 0x5C) s \<Longrightarrow>
     spells (NewASCII s) (''A'' @ g @ [CHR 0x22] @ s @ [CHR 0x22])"
| spells_literal: "separator g \<Longrightarrow> token_text w \<Longrightarrow> literal f w = Some it \<Longrightarrow> spells it (f @ g @ w)"
| spells_List: "list_all (\<lambda>c. \<not> token_end c) n \<Longrightarrow> g = [] \<or> separator g \<Longrightarrow> spells_list its body \<Longrightarrow>
     spells (NewList (map Some its)) (''L'' @ n @ g @ ''{'' @ body @ ''}'')"
| spells_nil: "gap g \<Longrightarrow> spells_list [] g"
| spells_cons: "gap g \<Longrightarrow> spells it t \<Longrightarrow> spells_list its body \<Longrightarrow> body = [] \<or> token_end (hd body) \<Longrightarrow>
     spells_list (it # its) (g @ t @ body)"

text \<open>A parser after \<open>pre\<close> with \<open>x\<close> to come.\<close>

definition ahead :: "string \<Rightarrow> string \<Rightarrow> smlParser" where
  "ahead pre x = \<lparr>sml_input = pre @ x, sml_pos = length pre\<rparr>"

lemma ahead_rest [simp]: "sml_rest (ahead pre x) = x"
  by (simp add: sml_rest_def ahead_def)

lemma ahead_advance [simp]: "n = length y \<Longrightarrow> advance n (ahead pre (y @ x)) = ahead (pre @ y) x"
  by (simp add: advance_def ahead_def)

lemma ahead_end [simp]: "at_end (ahead pre x) \<longleftrightarrow> x = []"
  by (cases x) (auto simp: at_end_def ahead_def)

lemma ahead_peek [simp]: "peek (ahead pre (c # x)) = c"
  using ahead_end [of pre "c # x"] by (simp add: peek_def) (simp add: ahead_def)

lemma blank_token_end: "blank c \<Longrightarrow> token_end c"
  by (auto simp: blank_def token_end_def byte_space_def)

lemma gap_run: "gap g \<Longrightarrow> space_run (g @ x) = length g + space_run x"
  by (induction rule: gap.induct)
    (auto simp: space_run_blank space_run_comment takeWhile_append dropWhile_append newline_def blank_def)

lemma skip_gap: "gap g \<Longrightarrow> space_run x = 0 \<Longrightarrow> skipSpace (ahead pre (g @ x)) = ahead (pre @ g) x"
  by (simp add: skipSpace_def gap_run)

lemma token_run:
  assumes w: "token_text w" and x: "x = [] \<or> token_end (hd x)"
  shows "space_run (w @ x) = 0"
proof -
  obtain c r where c: "w = c # r" using w by (cases w) (auto simp: token_text_def)
  then have "\<not> blank c" using w blank_token_end by (auto simp: token_text_def)
  moreover have "c \<noteq> CHR ''/'' \<or> r @ x = [] \<or> hd (r @ x) \<noteq> CHR ''/''"
    using w x c by (cases r) (auto simp: token_text_def has_prefix_def token_end_def byte_space_def)
  ultimately show ?thesis using c by (simp add: space_run_stop)
qed

lemma read_token:
  assumes "gap g" and "token_text w" and "x = [] \<or> token_end (hd x)"
  shows "readToken (ahead pre (g @ w @ x)) = (w, ahead (pre @ g @ w) x)"
proof -
  have "takeWhile (\<lambda>c. \<not> token_end c) (w @ x) = w"
    using assms(2,3) by (subst takeWhile_append2) (auto simp: token_text_def list_all_iff takeWhile_eq_Nil_iff)
  then show ?thesis
    using skip_gap [OF assms(1) token_run [OF assms(2,3)], of pre] by (simp add: readToken_def)
qed

lemma parse_literal:
  assumes "separator g" and "token_text w" and "literal f w = Some it" and "x = [] \<or> token_end (hd x)"
  shows "parseScalar f (ahead pre (g @ w @ x)) = OK (it, ahead (pre @ g @ w) x)"
proof -
  have "skipSpace (ahead pre (g @ w @ x)) = ahead (pre @ g) (w @ x)"
    using assms skip_gap token_run by (simp add: separator_def)
  moreover have "readToken (ahead (pre @ g) (w @ x)) = (w, ahead (pre @ g @ w) x)"
    using read_token [OF gap_nil assms(2,4), of "pre @ g"] by simp
  ultimately have r: "readToken (skipSpace (ahead pre (g @ w @ x))) = (w, ahead (pre @ g @ w) x)" by simp
  show ?thesis using assms(3)
    by (auto simp: parseScalar_def literal_def parseBinary_def parseBoolean_def parseUint_def parseInt_def
        parseFloat_def r split: if_split_asm)
qed

lemma string_run_plain:
  "list_all (\<lambda>c. c \<noteq> CHR 0x22 \<and> c \<noteq> CHR 0x5C) s \<Longrightarrow> string_run (s @ CHR 0x22 # x) = length s"
  by (induction s) auto

lemma parse_quoted:
  assumes "separator g" and s: "list_all (\<lambda>c. c \<noteq> CHR 0x22 \<and> c \<noteq> CHR 0x5C) s"
  shows "parseASCII (ahead pre (g @ CHR 0x22 # s @ CHR 0x22 # x)) =
           OK (NewASCII s, ahead (pre @ g @ CHR 0x22 # s @ [CHR 0x22]) x)"
proof -
  have "skipSpace (ahead pre (g @ CHR 0x22 # s @ CHR 0x22 # x)) = ahead (pre @ g) (CHR 0x22 # s @ CHR 0x22 # x)"
    using assms(1) by (intro skip_gap) (auto simp: separator_def blank_def intro: space_run_stop)
  moreover have "advance 1 (ahead (pre @ g) (CHR 0x22 # s @ CHR 0x22 # x)) =
      ahead (pre @ g @ [CHR 0x22]) (s @ CHR 0x22 # x)"
    using ahead_advance [of 1 "[CHR 0x22]"] by simp
  moreover have "advance 1 (ahead (pre @ g @ CHR 0x22 # s) (CHR 0x22 # x)) =
      ahead (pre @ g @ CHR 0x22 # s @ [CHR 0x22]) x"
    using ahead_advance [of 1 "[CHR 0x22]"] by simp
  ultimately show ?thesis using string_run_plain [OF s, of x] by (simp add: parseASCII_def Let_def)
qed

text \<open>The head of an item: the format name is read as a token.\<close>

definition format_names :: "string list" where
  "format_names = [''A'', ''B'', ''BOOLEAN'', ''U1'', ''U2'', ''U4'', ''U8'', ''I1'', ''I2'', ''I4'', ''I8'', ''F4'', ''F8'']"

lemma literal_name: "literal f w = Some it \<Longrightarrow> f \<in> set format_names"
  by (simp add: literal_def format_names_def split: if_split_asm)

lemma name_token: "f \<in> set format_names \<Longrightarrow> token_text f \<and> \<not> has_prefix f ''L'' \<and> hd f \<noteq> CHR ''}''"
  by (auto simp: format_names_def token_text_def token_end_def byte_space_def has_prefix_def)

lemma parse_head:
  assumes "token_text f" and "x = [] \<or> token_end (hd x)"
  shows "parseItem (ahead pre (f @ x)) =
           (if has_prefix f ''L'' then parseList (ahead (pre @ f) x) else parseScalar f (ahead (pre @ f) x))"
proof -
  have "skipSpace (ahead pre (f @ x)) = ahead pre (f @ x)"
    using skip_gap [OF gap_nil token_run [OF assms], of pre] by simp
  then show ?thesis
    using read_token [OF gap_nil assms, of pre] assms(1) by (simp add: parseItem.simps token_text_def)
qed

lemma separator_end: "separator g \<Longrightarrow> token_end (hd (g @ x)) \<and> g @ x \<noteq> []"
  by (auto simp: separator_def blank_token_end)

lemma list_name: "list_all (\<lambda>c. \<not> token_end c) n \<Longrightarrow> token_text (CHR ''L'' # n) \<and> has_prefix (CHR ''L'' # n) ''L''"
  by (auto simp: token_text_def token_end_def byte_space_def has_prefix_def)

lemma spells_start:
  assumes "spells it t" and "x = [] \<or> token_end (hd x)"
  shows "space_run (t @ x) = 0 \<and> t \<noteq> [] \<and> hd t \<noteq> CHR ''}''"
  using assms(1)
proof cases
  case (spells_ASCII g s)
  then show ?thesis by (simp add: space_run_stop blank_def)
next
  case (spells_literal g w f)
  then show ?thesis
    using token_run [of f "g @ w @ x"] name_token [OF literal_name [OF spells_literal(4)]] separator_end [of g "w @ x"]
    by (auto simp: token_text_def)
next
  case (spells_List n g its body)
  then show ?thesis by (simp add: space_run_stop blank_def)
qed

lemma parse_spelling:
  "spells it t \<Longrightarrow> \<forall>pre x. x = [] \<or> token_end (hd x) \<longrightarrow> parseItem (ahead pre (t @ x)) = OK (it, ahead (pre @ t) x)"
  "spells_list its b \<Longrightarrow>
     \<forall>pre x. parse_children (ahead pre (b @ CHR ''}'' # x)) = OK (its, ahead (pre @ b @ ''}'') x)"
proof (induction rule: spells_spells_list.inducts)
  case (spells_ASCII g s)
  have "token_text ''A''" "\<not> has_prefix ''A'' ''L''"
    by (simp_all add: token_text_def token_end_def byte_space_def has_prefix_def)
  then show ?case
    using parse_head [of "''A''" "g @ CHR 0x22 # s @ CHR 0x22 # _"] separator_end [OF spells_ASCII(1)]
      parse_quoted [OF spells_ASCII] by (simp add: parseScalar_def)
next
  case (spells_literal g w f it)
  show ?case
  proof (intro allI impI)
    fix pre x :: string assume x: "x = [] \<or> token_end (hd x)"
    show "parseItem (ahead pre ((f @ g @ w) @ x)) = OK (it, ahead (pre @ f @ g @ w) x)"
      using parse_head [of f "g @ w @ x" pre] name_token [OF literal_name [OF spells_literal(3)]]
        separator_end [OF spells_literal(1), of "w @ x"] parse_literal [OF spells_literal x, of "pre @ f"] by simp
  qed
next
  case (spells_List n g its body)
  show ?case
  proof (intro allI impI)
    fix pre x :: string assume x: "x = [] \<or> token_end (hd x)"
    let ?y = "g @ CHR ''{'' # body @ CHR ''}'' # x" and ?pre = "pre @ CHR ''L'' # n"
    have "?y = [] \<or> token_end (hd ?y)"
      using spells_List(2) separator_end [of g] by (auto simp: token_end_def)
    then have "parseItem (ahead pre ((CHR ''L'' # n) @ ?y)) = parseList (ahead ?pre ?y)"
      using parse_head [of "CHR ''L'' # n" ?y pre] list_name [OF spells_List(1)] by simp
    moreover have "skipSpace (ahead ?pre ?y) = ahead (?pre @ g) (CHR ''{'' # body @ CHR ''}'' # x)"
      using spells_List(2) by (intro skip_gap) (auto simp: separator_def gap_nil blank_def intro: space_run_stop)
    moreover have "advance 1 (ahead (?pre @ g) (CHR ''{'' # body @ CHR ''}'' # x)) =
        ahead (?pre @ g @ ''{'') (body @ CHR ''}'' # x)"
      using ahead_advance [of 1 "''{''"] by simp
    ultimately show "parseItem (ahead pre ((''L'' @ n @ g @ ''{'' @ body @ ''}'') @ x)) =
        OK (NewList (map Some its), ahead (pre @ ''L'' @ n @ g @ ''{'' @ body @ ''}'') x)"
      using spells_List.IH by (simp add: parseList.simps)
  qed
next
  case (spells_nil g)
  show ?case
  proof (intro allI)
    fix pre x :: string
    have "skipSpace (ahead pre (g @ CHR ''}'' # x)) = ahead (pre @ g) (CHR ''}'' # x)"
      using spells_nil by (intro skip_gap) (auto simp: blank_def intro: space_run_stop)
    then show "parse_children (ahead pre (g @ CHR ''}'' # x)) = OK ([], ahead (pre @ g @ ''}'') x)"
      using ahead_advance [of 1 "''}''"] by (simp add: parse_children.simps)
  qed
next
  case (spells_cons g it t its body)
  show ?case
  proof (intro allI)
    fix pre x :: string
    let ?y = "body @ CHR ''}'' # x"
    have y: "?y = [] \<or> token_end (hd ?y)" using spells_cons(4) by (cases body) (auto simp: token_end_def)
    note start = spells_start [OF spells_cons(2) y]
    have "skipSpace (ahead pre (g @ t @ ?y)) = ahead (pre @ g) (t @ ?y)"
      using spells_cons(1) start by (intro skip_gap) auto
    moreover obtain c r where "t = c # r" "c \<noteq> CHR ''}''" using start by (cases t) auto
    moreover have "parseItem (ahead (pre @ g) (t @ ?y)) = OK (it, ahead ((pre @ g) @ t) ?y)"
      using spells_cons.IH(1) y by blast
    ultimately show "parse_children (ahead pre ((g @ t @ body) @ CHR ''}'' # x)) =
        OK (it # its, ahead (pre @ (g @ t @ body) @ ''}'') x)"
      using spells_cons.IH(2) by (simp add: parse_children.simps [of "ahead pre _"])
  qed
qed

text \<open>C27. Every spelling is understood: a text that holds a spelling of an item, with blanks and comments
  before it and whatever may follow it, is read as that item.
\<close>

theorem sml_spelling_parses:
  assumes "spells it t" and "gap g" and "x = [] \<or> token_end (hd x)" and "TrimSpace text0 = g @ t @ x"
  shows "ParseSML text0 = OK it"
proof -
  have "skipSpace (ahead [] (g @ t @ x)) = skipSpace (ahead g (t @ x))"
    using skip_gap [OF assms(2), of "t @ x" "[]"] skip_gap [OF gap_nil, of "t @ x" g] spells_start [OF assms(1,3)]
    by simp
  then have "parseItem (ahead [] (g @ t @ x)) = parseItem (ahead g (t @ x))"
    by (simp add: parseItem.simps)
  also have "\<dots> = OK (it, ahead (g @ t) x)" using parse_spelling(1) [OF assms(1)] assms(3) by blast
  finally show ?thesis
    using assms(4) spells_start [OF assms(1,3)] by (simp add: ParseSML_def ahead_def)
qed

definition demo_text :: string where
  "demo_text = ''L:2 { A '' @ [CHR 0x22] @ ''HOST'' @ [CHR 0x22] @ '' // model'' @ [newline] @ ''U4 0x1F }''"

definition demo_item :: Item where
  "demo_item = NewList [Some (NewASCII ''HOST''), Some (NewU4 [31])]"

lemma demo_spelling: "spells demo_item demo_text"
proof -
  have sep: "separator '' ''" by (auto simp: separator_def blank_def intro: gap.intros)
  have c: "gap ('' // model'' @ [newline])"
    using gap_blank [of "CHR '' ''", OF _ gap_comment [of "'' model''", OF _ gap_nil]]
    by (simp add: blank_def newline_def)
  have "literal ''U4'' ''0x1F'' = Some (NewU4 [31])"
    by (simp add: literal_def ParseUint_def base_prefix_def digit_of_def lower_code_def)
  then have u: "spells (NewU4 [31]) (''U4'' @ '' '' @ ''0x1F'')"
    using sep by (intro spells_literal) (simp_all add: token_text_def token_end_def byte_space_def has_prefix_def)
  have a: "spells (NewASCII ''HOST'') (''A'' @ '' '' @ [CHR 0x22] @ ''HOST'' @ [CHR 0x22])"
    using sep by (intro spells_ASCII) simp_all
  have blank: "gap '' ''" using sep by (simp add: separator_def)
  have "spells_list [NewU4 [31]] (('' // model'' @ [newline]) @ (''U4'' @ '' '' @ ''0x1F'') @ '' '')"
    using spells_cons [OF c u spells_nil [OF blank]] by (simp add: token_end_def byte_space_def)
  then have "spells_list [NewASCII ''HOST'', NewU4 [31]]
      ('' '' @ (''A'' @ '' '' @ [CHR 0x22] @ ''HOST'' @ [CHR 0x22]) @
        (('' // model'' @ [newline]) @ (''U4'' @ '' '' @ ''0x1F'') @ '' ''))"
    using spells_cons [OF blank a] by (simp add: token_end_def byte_space_def)
  then have "spells (NewList (map Some [NewASCII ''HOST'', NewU4 [31]])) (''L'' @ '':2'' @ '' '' @ ''{'' @
      ('' '' @ (''A'' @ '' '' @ [CHR 0x22] @ ''HOST'' @ [CHR 0x22]) @
        (('' // model'' @ [newline]) @ (''U4'' @ '' '' @ ''0x1F'') @ '' '')) @ ''}'')"
    by (intro spells_List) (simp_all add: sep token_end_def byte_space_def)
  then show ?thesis by (simp add: demo_item_def demo_text_def)
qed

lemma demo_trim: "TrimSpace demo_text = demo_text"
  by (rule TrimSpace_printable) (simp_all add: demo_text_def printable_def)

theorem sml_spelling_parses_witness: "ParseSML demo_text = OK demo_item"
  using sml_spelling_parses [OF demo_spelling gap_nil, of "[]" demo_text] demo_trim by simp

theorem sml_parsed_sendable_witness:
  "ParseSML demo_text = OK demo_item \<and> (\<exists>bs. Encode (Some demo_item) = OK bs \<and> Decode bs = OK demo_item)"
proof -
  have len: "length demo_text \<le> max_len" by (simp add: demo_text_def max_len_def)
  have "parseItem (ahead [] demo_text) = OK (demo_item, ahead demo_text [])"
    using parse_spelling(1) [OF demo_spelling] by fastforce
  then have p: "ParseSML demo_text = OK demo_item"
    using demo_trim spells_start [OF demo_spelling, of "[]"] by (simp add: ParseSML_def ahead_def)
  have "norm_item demo_item = demo_item"
    by (simp add: demo_item_def new_item_defs ptr_val_def format_defs)
  then show ?thesis using sml_parsed_sendable [OF p len] p by simp
qed

end
