(* ===== verification/Sim_Host.thy ===== *)
theory Sim_Host
  imports Sml_Parser Gem_Wire Validator_Schema Hsms_Session
begin

text \<open>
  The host side of the simulator (\<^verbatim>\<open>pkg/simulator\<close>): the host that sends requests and validates what
  passes (\<^verbatim>\<open>host.go\<close>), the runner of test scripts (\<^verbatim>\<open>script.go\<close>) and the injection of faults
  (\<^verbatim>\<open>fault.go\<close>). The exchange of one message over the session is an argument \<open>send\<close>; the lemmas
  instantiate it with the equipment's handler. Reading YAML, durations and the texts of messages are
  left out. The lemmas say what the built-in scenario does to the equipment and when it passes, and
  what the injected bytes are to a receiver.
\<close>

section \<open>The host\<close>

datatype SimDirection = DirTX | DirRX

datatype host_error = HEncode secs2_error | HSend | HDecode secs2_error

record interception =
  ic_dir :: SimDirection
  ic_stream :: byte
  ic_function :: byte
  ic_body :: item_ptr
  ic_results :: "ValidationResult list"

record Host =
  ho_session :: Session
  ho_sessionID :: uint16
  ho_schemas :: SchemaRegistry
  ho_intercept :: bool
  ho_log :: "interception list"

definition NewHost :: "uint16 \<Rightarrow> Host" where
  "NewHost sessionID =
     \<lparr>ho_session = NewSession ((DefaultConfig RoleActive sessionID)\<lparr>cfg_LinktestInterval := 0\<rparr>), ho_sessionID = sessionID,
      ho_schemas = DefaultRegistry, ho_intercept = False, ho_log = []\<rparr>"

definition SetInterceptor :: "Host \<Rightarrow> Host" where
  "SetInterceptor h = h\<lparr>ho_intercept := True\<rparr>"

text \<open>\<^verbatim>\<open>Connect\<close> up to the point where \<^verbatim>\<open>Select\<close> waits for its answer.\<close>

definition host_Connect ::
  "bool \<Rightarrow> bool \<Rightarrow> ip \<Rightarrow> bool \<Rightarrow> Host \<Rightarrow> Host \<times> (hsms_error, unit) res" where
  "host_Connect net_ok tls_ok peer w h =
     (case Connect net_ok tls_ok peer (ho_session h) of
        (s, OK _) \<Rightarrow> (case Select_begin w s of (s, r) \<Rightarrow> (h\<lparr>ho_session := s\<rparr>, r))
      | (s, r) \<Rightarrow> (h\<lparr>ho_session := s\<rparr>, r))"

definition host_Close :: "Host \<Rightarrow> Host" where
  "host_Close h = h\<lparr>ho_session := Close (ho_session h)\<rparr>"

definition intercept_call ::
  "SimDirection \<Rightarrow> byte \<Rightarrow> byte \<Rightarrow> item_ptr \<Rightarrow> ValidationResult list \<Rightarrow> Host \<Rightarrow> Host" where
  "intercept_call dir s f body results h =
     h\<lparr>ho_log := ho_log h @ [\<lparr>ic_dir = dir, ic_stream = s, ic_function = f, ic_body = body, ic_results = results\<rparr>]\<rparr>"

text \<open>The interceptor sees a message with what the validator says of it.\<close>

definition validated ::
  "SimDirection \<Rightarrow> byte \<Rightarrow> byte \<Rightarrow> item_ptr \<Rightarrow> Host \<Rightarrow> (host_error, Host) res" where
  "validated dir s f body h =
     (if \<not> ho_intercept h then OK h
      else case ValidateMessage (ho_schemas h) s f body of
             OK results \<Rightarrow> OK (intercept_call dir s f body results h)
           | _ \<Rightarrow> Panic)"

type_synonym 'w exchange = "Message \<Rightarrow> 'w \<Rightarrow> 'w \<times> (unit, Message option) res"

definition sendAndValidate ::
  "'w exchange \<Rightarrow> byte \<Rightarrow> byte \<Rightarrow> bool \<Rightarrow> item_ptr \<Rightarrow> Host \<Rightarrow> 'w \<Rightarrow> (Host \<times> 'w) \<times> (host_error, item_ptr) res" where
  "sendAndValidate send stream function wbit body h w =
     (case (case body of None \<Rightarrow> OK [] | Some _ \<Rightarrow> Encode body) of
        Err e \<Rightarrow> ((h, w), Err (HEncode e))
      | Panic \<Rightarrow> ((h, w), Panic)
      | OK data \<Rightarrow>
          let msg = NewDataMessage (ho_sessionID h) stream function wbit 0 data in
          (case validated DirTX stream function body h of
             OK h \<Rightarrow>
               (case send msg w of
                  (w, Err _) \<Rightarrow> ((h, w), Err HSend)
                | (w, Panic) \<Rightarrow> ((h, w), Panic)
                | (w, OK reply) \<Rightarrow>
                    if (case reply of None \<Rightarrow> True | Some m \<Rightarrow> MData m = []) then
                      ((if ho_intercept h then intercept_call DirRX stream (function + 1) None [] h else h, w), OK None)
                    else
                      (case Decode (MData (the reply)) of
                         Err e \<Rightarrow> ((h, w), Err (HDecode e))
                       | Panic \<Rightarrow> ((h, w), Panic)
                       | OK item \<Rightarrow>
                           (case validated DirRX stream (function + 1) (Some item) h of
                              OK h \<Rightarrow> ((h, w), OK (Some item))
                            | Err e \<Rightarrow> ((h, w), Err e)
                            | Panic \<Rightarrow> ((h, w), Panic))))
           | Err e \<Rightarrow> ((h, w), Err e)
           | Panic \<Rightarrow> ((h, w), Panic)))"

definition EstablishComm where
  "EstablishComm send = sendAndValidate send 1 13 True (Some (NewList [Some (NewASCII ''HOST''), Some (NewASCII ''1.0.0'')]))"

definition AreYouThere where "AreYouThere send = sendAndValidate send 1 1 True None"

definition RequestOnline where "RequestOnline send = sendAndValidate send 1 17 True None"

definition RequestOffline where "RequestOffline send = sendAndValidate send 1 15 True None"

definition GetSVs where
  "GetSVs send svids = sendAndValidate send 1 3 True (Some (NewList (map (\<lambda>i. Some (NewU4 [i])) svids)))"

text \<open>The parameters arrive in the order in which the map is iterated.\<close>

definition SendRCMD where
  "SendRCMD send cmd params = sendAndValidate send 2 41 True
     (Some (NewList [Some (NewASCII cmd),
        Some (NewList (map (\<lambda>(name, v). Some (NewList [Some (NewASCII name), Some (NewASCII v)])) params))]))"

definition SendRaw where "SendRaw send s f wbit body = sendAndValidate send s f wbit body"

section \<open>Scripts\<close>

record ScriptStep =
  st_Action :: string
  st_Stream :: byte
  st_Function :: byte
  st_WBit :: bool
  st_Body :: string
  st_Delay :: int
  st_Expect :: string

record Script =
  scr_Name :: string
  scr_Description :: string
  scr_Steps :: "ScriptStep list"

datatype step_detail = DetParse sml_error | DetSend host_error | DetSent byte byte | DetWaited int | DetCancelled
  | DetNoReply | DetMatches string | DetExpected string string | DetExists | DetUnknown string

record StepResult =
  sr_Step :: nat
  sr_Action :: string
  sr_Status :: string
  sr_Detail :: step_detail

record ScriptResult =
  res_Name :: string
  res_Steps :: "StepResult list"
  res_Passed :: nat
  res_Failed :: nat

definition step_result :: "nat \<Rightarrow> ScriptStep \<Rightarrow> string \<Rightarrow> step_detail \<Rightarrow> ScriptResult \<Rightarrow> ScriptResult" where
  "step_result i st status detail r =
     r\<lparr>res_Steps := res_Steps r @ [\<lparr>sr_Step = i + 1, sr_Action = st_Action st, sr_Status = status, sr_Detail = detail\<rparr>],
       res_Passed := res_Passed r + (if status = ''pass'' then 1 else 0),
       res_Failed := res_Failed r + (if status = ''fail'' then 1 else 0)\<rparr>"

text \<open>One step: the state of the run is the host, the world behind \<open>send\<close>, the last reply and the
  result so far. \<open>cancelled\<close> says whether the context ends during the delay of a step.\<close>

definition send_step where
  "send_step send i st h w lastReply r =
     (case (if st_Body st = [] then OK None else map_err DetParse (bind_res (ParseSML (st_Body st)) (\<lambda>it. OK (Some it)))) of
        Panic \<Rightarrow> Panic
      | Err d \<Rightarrow> OK (h, w, lastReply, step_result i st ''fail'' d r)
      | OK body \<Rightarrow>
          (case SendRaw send (st_Stream st) (st_Function st) (st_WBit st) body h w of
             (_, Panic) \<Rightarrow> Panic
           | ((h, w), Err e) \<Rightarrow> OK (h, w, lastReply, step_result i st ''fail'' (DetSend e) r)
           | ((h, w), OK reply) \<Rightarrow>
               OK (h, w, reply, step_result i st ''pass'' (DetSent (st_Stream st) (st_Function st)) r)))"

definition delay_step where
  "delay_step cancelled i st r =
     (let d = (if st_Delay st \<le> 0 then 100000000 else st_Delay st)
      in if cancelled i then step_result i st ''fail'' DetCancelled r
         else step_result i st ''pass'' (DetWaited d) r)"

definition assert_step where
  "assert_step i st lastReply r =
     (case lastReply of
        None \<Rightarrow> step_result i st ''fail'' DetNoReply r
      | Some it \<Rightarrow>
          if st_Expect st \<noteq> [] then
            let actual = Format_String (it_format it)
            in if actual = st_Expect st \<or> st_Expect st = ''*''
               then step_result i st ''pass'' (DetMatches actual) r
               else step_result i st ''fail'' (DetExpected (st_Expect st) actual) r
          else step_result i st ''pass'' DetExists r)"

definition run_step ::
  "'w exchange \<Rightarrow> (nat \<Rightarrow> bool) \<Rightarrow> nat \<Rightarrow> ScriptStep \<Rightarrow> Host \<times> 'w \<times> item_ptr \<times> ScriptResult \<Rightarrow>
     (unit, Host \<times> 'w \<times> item_ptr \<times> ScriptResult) res" where
  "run_step send cancelled i st = (\<lambda>(h, w, lastReply, r).
     if st_Action st = ''send'' then send_step send i st h w lastReply r
     else if st_Action st = ''delay'' then OK (h, w, lastReply, delay_step cancelled i st r)
     else if st_Action st = ''assert_reply'' then OK (h, w, lastReply, assert_step i st lastReply r)
     else OK (h, w, lastReply, step_result i st ''skip'' (DetUnknown (st_Action st)) r))"

fun run_steps ::
  "'w exchange \<Rightarrow> (nat \<Rightarrow> bool) \<Rightarrow> nat \<Rightarrow> ScriptStep list \<Rightarrow> Host \<times> 'w \<times> item_ptr \<times> ScriptResult \<Rightarrow>
     (unit, Host \<times> 'w \<times> item_ptr \<times> ScriptResult) res" where
  "run_steps send cancelled i [] x = OK x"
| "run_steps send cancelled i (st # sts) x =
     bind_res (run_step send cancelled i st x) (run_steps send cancelled (i + 1) sts)"

definition Run ::
  "'w exchange \<Rightarrow> (nat \<Rightarrow> bool) \<Rightarrow> Script \<Rightarrow> Host \<Rightarrow> 'w \<Rightarrow> (unit, ScriptResult \<times> Host \<times> 'w) res" where
  "Run send cancelled script h w =
     bind_res (run_steps send cancelled 0 (scr_Steps script)
         (h, w, None, \<lparr>res_Name = scr_Name script, res_Steps = [], res_Passed = 0, res_Failed = 0\<rparr>))
       (\<lambda>(h, w, _, r). OK (r, h, w))"

definition zero_step :: ScriptStep where
  "zero_step = \<lparr>st_Action = [], st_Stream = 0, st_Function = 0, st_WBit = False, st_Body = [], st_Delay = 0, st_Expect = []\<rparr>"

definition quoted :: "string \<Rightarrow> string" where "quoted s = [CHR 0x22] @ s @ [CHR 0x22]"

definition comm_body :: string where
  "comm_body = ''L:2 { A '' @ quoted ''HOST'' @ '' A '' @ quoted ''1.0.0'' @ '' }''"

definition command_body :: string where
  "command_body = ''L:2 { A '' @ quoted ''START'' @ '' L:0 }''"

definition BuiltinScenarios :: "Script list" where
  "BuiltinScenarios =
     [\<lparr>scr_Name = ''E30 Communication Setup'', scr_Description = ''Establish communication and go online'',
       scr_Steps =
        [zero_step\<lparr>st_Action := ''send'', st_Stream := 1, st_Function := 13, st_WBit := True, st_Body := comm_body\<rparr>,
         zero_step\<lparr>st_Action := ''assert_reply'', st_Expect := ''L''\<rparr>,
         zero_step\<lparr>st_Action := ''send'', st_Stream := 1, st_Function := 1, st_WBit := True\<rparr>,
         zero_step\<lparr>st_Action := ''assert_reply'', st_Expect := ''L''\<rparr>,
         zero_step\<lparr>st_Action := ''send'', st_Stream := 1, st_Function := 17, st_WBit := True\<rparr>,
         zero_step\<lparr>st_Action := ''assert_reply'', st_Expect := ''B''\<rparr>]\<rparr>,
      \<lparr>scr_Name = ''Remote Command'', scr_Description = ''Send a remote command after establishing communication'',
       scr_Steps =
        [zero_step\<lparr>st_Action := ''send'', st_Stream := 1, st_Function := 13, st_WBit := True, st_Body := comm_body\<rparr>,
         zero_step\<lparr>st_Action := ''assert_reply'', st_Expect := ''L''\<rparr>,
         zero_step\<lparr>st_Action := ''send'', st_Stream := 2, st_Function := 41, st_WBit := True, st_Body := command_body\<rparr>,
         zero_step\<lparr>st_Action := ''assert_reply'', st_Expect := ''L''\<rparr>]\<rparr>]"

section \<open>Faults\<close>

type_synonym FaultType = string

definition FaultDisconnect :: FaultType where "FaultDisconnect = ''disconnect''"
definition FaultCorruptData :: FaultType where "FaultCorruptData = ''corrupt_data''"
definition FaultBadSType :: FaultType where "FaultBadSType = ''bad_stype''"
definition FaultBadLength :: FaultType where "FaultBadLength = ''bad_length''"
definition FaultDupSystemByte :: FaultType where "FaultDupSystemByte = ''dup_systembyte''"

definition AllFaultTypes :: "FaultType list" where
  "AllFaultTypes = [FaultDisconnect, FaultCorruptData, FaultBadSType, FaultBadLength, FaultDupSystemByte]"

datatype fault_error = NoRawConnection | FaultWrite | UnknownFault FaultType

text \<open>The bytes that were written on the raw connection, and how the injection ended. \<open>conn\<close> says
  whether there is a raw connection, \<open>wr\<close> whether the first and the second write succeed.\<close>

type_synonym injection = "byte list \<times> (fault_error, unit) res"

definition inject_bytes :: "bool \<Rightarrow> bool \<Rightarrow> byte list \<Rightarrow> injection" where
  "inject_bytes conn wr msg =
     (if \<not> conn then ([], Err NoRawConnection) else if wr then (msg, OK ()) else ([], Err FaultWrite))"

definition injectCorruptData :: "bool \<Rightarrow> bool \<Rightarrow> (nat \<Rightarrow> byte) \<Rightarrow> injection" where
  "injectCorruptData conn wr rand = inject_bytes conn wr (map rand [0..<64])"

definition injectBadSType :: "bool \<Rightarrow> bool \<Rightarrow> injection" where
  "injectBadSType conn wr = inject_bytes conn wr
     [0x00, 0x00, 0x00, 0x0A, 0x00, 0x01, 0x00, 0x00, 0xFF, 0x00, 0x00, 0x00, 0x00, 0x01]"

definition injectBadLength :: "bool \<Rightarrow> bool \<Rightarrow> injection" where
  "injectBadLength conn wr = inject_bytes conn wr
     [0x00, 0x00, 0x03, 0xE8, 0x00, 0x01, 0x01, 0x01, 0x00, 0x00, 0x00, 0x00, 0x00, 0x01]"

definition injectDupSystemByte :: "bool \<Rightarrow> bool \<times> bool \<Rightarrow> injection" where
  "injectDupSystemByte conn wr =
     (let msg = [0x00, 0x00, 0x00, 0x0A, 0x00, 0x01, 0x81, 0x01, 0x00, 0x00, 0xDE, 0xAD, 0xBE, 0xEF]
      in case inject_bytes conn (fst wr) msg of
           (bs, OK _) \<Rightarrow> (case inject_bytes conn (snd wr) msg of (bs', r) \<Rightarrow> (bs @ bs', r))
         | r \<Rightarrow> r)"

definition Inject :: "FaultType \<Rightarrow> bool \<Rightarrow> bool \<times> bool \<Rightarrow> (nat \<Rightarrow> byte) \<Rightarrow> Session \<Rightarrow> Session \<times> injection" where
  "Inject fault conn wr rand s =
     (if fault = FaultDisconnect then (Close s, [], OK ())
      else if fault = FaultCorruptData then (s, injectCorruptData conn (fst wr) rand)
      else if fault = FaultBadSType then (s, injectBadSType conn (fst wr))
      else if fault = FaultBadLength then (s, injectBadLength conn (fst wr))
      else if fault = FaultDupSystemByte then (s, injectDupSystemByte conn wr)
      else (s, [], Err (UnknownFault fault)))"

section \<open>What the faults are to a receiver\<close>

text \<open>The faults at the other end. The two requests with one system id arrive as the same S1F1 twice; the
  wrong length leaves the receiver waiting for more bytes; but the message with an invalid session
  type is none: its bytes set the presentation type, and the receiver takes it for a data message.
\<close>

theorem faults_as_received:
  assumes "1000 \<le> maxSize"
  shows "(\<exists>m. readMessage maxSize (fst (injectBadSType True True)) = OK (m, []) \<and>
            HSType (MHeader m) = STypeDataMessage \<and> PType (MHeader m) = 0xFF) \<and>
         readMessage maxSize (fst (injectBadLength True True)) = Err ErrUnexpectedEOF \<and>
         (\<exists>m rest. readMessage maxSize (fst (injectDupSystemByte True (True, True))) = OK (m, rest) \<and>
            m = NewDataMessage 1 1 1 True 0xDEADBEEF [] \<and> readMessage maxSize rest = OK (m, []))"
  using assms
  by (simp add: readMessage_def read_full_def injectBadSType_def injectBadLength_def injectDupSystemByte_def inject_bytes_def
      UnmarshalBinary_def minMessageLen_def headerLen_def be_get_def be_nat_def Let_def new_message_defs STypeDataMessage_def)

theorem faults_as_received_witness:
  "\<exists>m. readMessage 1000 (fst (injectBadSType True True)) = OK (m, []) \<and> PType (MHeader m) = 0xFF"
  using faults_as_received [of 1000] by auto

section \<open>The scenarios against the equipment\<close>

text \<open>An exchange with equipment at the other end: the session numbers the request, the handler
  answers, and the answer with the request's system id comes back. \<open>ord\<close> is the iteration order.\<close>

definition direct_link :: "(uint32 list \<Rightarrow> uint32 list) \<Rightarrow> (Handler \<times> uint32) exchange" where
  "direct_link ord msg = (\<lambda>(h, n).
     let n' = (if SystemID (MHeader msg) = 0 then n + 1 else n);
         msg = (if SystemID (MHeader msg) = 0 then msg\<lparr>MHeader := (MHeader msg)\<lparr>SystemID := n'\<rparr>\<rparr> else msg);
         h' = fst (HandleMessage ord True msg h);
         answers = filter (\<lambda>m. SystemID (MHeader m) = SystemID (MHeader msg)) (drop (length (h_outbox h)) (h_outbox h'))
     in ((h', n'),
         if \<not> (WBit (MHeader msg) \<and> Function (MHeader msg) mod 2 = 1) then OK None
         else case answers of [] \<Rightarrow> Err () | m # _ \<Rightarrow> OK (Some m)))"

lemma item_bytes_nonempty: "wf_item it \<Longrightarrow> item_bytes it \<noteq> []"
proof
  assume "wf_item it" and "item_bytes it = []"
  then have "Decode [] = OK (norm_item it)" using Decode_item_bytes [of it] by simp
  then show False by (simp add: Decode_def decodeItem.simps decode_prefix_def)
qed

text \<open>What no request of the scenarios changes.\<close>

definition same_equipment :: "Handler \<Rightarrow> Handler \<Rightarrow> bool" where
  "same_equipment h h' \<longleftrightarrow> h_policy h' = h_policy h \<and> h_customHandlers h' = h_customHandlers h \<and>
     h_mdln h' = h_mdln h \<and> h_softrev h' = h_softrev h \<and> h_commands h' = h_commands h"

lemma link_request:
  assumes "h_customHandlers h = []" and "f mod 2 = 1" and "wf_item it"
    and "builtin ord s f data h = Some (OK (hb, it))" and "same_equipment h hb" and "h_outbox hb = h_outbox h"
  shows "\<exists>h'. direct_link ord (NewDataMessage sid s f True 0 data) (h, n) =
           ((h', n + 1), OK (Some (if IsAllowed (h_policy h) s f
                               then NewDataMessage sid s (f + 1) False (n + 1) (item_bytes it)
                               else NewDataMessage sid s 0 False (n + 1) []))) \<and>
           h_state h' = (if IsAllowed (h_policy h) s f then h_state hb else h_state h) \<and>
           h_executed h' = (if IsAllowed (h_policy h) s f then h_executed hb else h_executed h) \<and>
           same_equipment h h'"
  using assms Encode_wf [OF assms(3)]
  by (simp add: direct_link_def HandleMessage_def IsControlMessage_def sendReply_def Let_def new_message_defs
      same_equipment_def)

text \<open>A request of a host without an interceptor: what the answer decodes to, or nothing when the
  policy denies the message.\<close>

lemma host_request:
  assumes "\<not> ho_intercept ho" and "pred_option wf_item body"
    and "h_customHandlers h = []" and "f mod 2 = 1" and "wf_item it"
    and "builtin ord s f (case body of None \<Rightarrow> [] | Some b \<Rightarrow> item_bytes b) h = Some (OK (hb, it))"
    and "same_equipment h hb" and "h_outbox hb = h_outbox h"
  shows "\<exists>h'. SendRaw (direct_link ord) s f True body ho (h, n) =
           ((ho, h', n + 1), OK (if IsAllowed (h_policy h) s f then Some (norm_item it) else None)) \<and>
           h_state h' = (if IsAllowed (h_policy h) s f then h_state hb else h_state h) \<and>
           h_executed h' = (if IsAllowed (h_policy h) s f then h_executed hb else h_executed h) \<and>
           same_equipment h h'"
proof -
  let ?data = "case body of None \<Rightarrow> [] | Some b \<Rightarrow> item_bytes b"
  have enc: "(case body of None \<Rightarrow> OK [] | Some _ \<Rightarrow> Encode body) = OK ?data"
    using assms(2) Encode_wf by (cases body) auto
  from link_request [OF assms(3-8), of "ho_sessionID ho" n] obtain h' where h':
    "direct_link ord (NewDataMessage (ho_sessionID ho) s f True 0 ?data) (h, n) =
       ((h', n + 1), OK (Some (if IsAllowed (h_policy h) s f
          then NewDataMessage (ho_sessionID ho) s (f + 1) False (n + 1) (item_bytes it)
          else NewDataMessage (ho_sessionID ho) s 0 False (n + 1) [])))"
    and st: "h_state h' = (if IsAllowed (h_policy h) s f then h_state hb else h_state h)"
      "h_executed h' = (if IsAllowed (h_policy h) s f then h_executed hb else h_executed h)"
      "same_equipment h h'" by blast
  have "SendRaw (direct_link ord) s f True body ho (h, n) =
      ((ho, h', n + 1), OK (if IsAllowed (h_policy h) s f then Some (norm_item it) else None))"
    using assms(1) h' Decode_item_bytes [OF assms(5)] item_bytes_nonempty [OF assms(5)]
    by (simp add: SendRaw_def sendAndValidate_def enc validated_def NewDataMessage_def)
  with st show ?thesis by blast
qed

section \<open>The texts of the scenarios\<close>

definition host_item :: Item where
  "host_item = NewList [Some (NewASCII ''HOST''), Some (NewASCII ''1.0.0'')]"

lemma space_separator: "separator '' ''" "gap '' ''"
  by (auto simp: separator_def blank_def intro: gap.intros)

lemma token_end_ascii [simp]: "token_end (CHR '' '')" "\<not> token_end (CHR '':'')" "\<not> token_end (CHR ''2'')"
  "\<not> token_end (CHR ''0'')" "\<not> token_end (CHR ''L'')" "\<not> token_end (CHR ''A'')"
  by (simp_all add: token_end_def byte_space_def)

lemma spells_quoted:
  "list_all (\<lambda>c. c \<noteq> CHR 0x22 \<and> c \<noteq> CHR 0x5C) s \<Longrightarrow> spells (NewASCII s) (''A '' @ quoted s)"
  using spells_ASCII [OF space_separator(1), of s] by (simp add: quoted_def)

lemma comm_body_parses: "ParseSML comm_body = OK host_item"
proof -
  have one: "spells_list [NewASCII ''1.0.0''] ('' '' @ (''A '' @ quoted ''1.0.0'') @ '' '')"
    by (rule spells_cons [OF space_separator(2) spells_quoted spells_nil [OF space_separator(2)]]) simp_all
  have "spells_list [NewASCII ''HOST'', NewASCII ''1.0.0'']
      ('' '' @ (''A '' @ quoted ''HOST'') @ '' '' @ (''A '' @ quoted ''1.0.0'') @ '' '')"
    using spells_cons [OF space_separator(2) spells_quoted [of "''HOST''"] one] by simp
  then have "spells (NewList (map Some [NewASCII ''HOST'', NewASCII ''1.0.0''])) (''L'' @ '':2'' @ '' '' @ ''{'' @
      ('' '' @ (''A '' @ quoted ''HOST'') @ '' '' @ (''A '' @ quoted ''1.0.0'') @ '' '') @ ''}'')"
    by (intro spells_List) (simp_all add: space_separator)
  then have sp: "spells host_item comm_body" by (simp add: host_item_def comm_body_def)
  have "TrimSpace comm_body = comm_body"
    by (rule TrimSpace_printable) (simp_all add: comm_body_def printable_def quoted_def)
  moreover have "parseItem (ahead [] comm_body) = OK (host_item, ahead comm_body [])"
    using parse_spelling(1) [OF sp] by fastforce
  ultimately show ?thesis by (simp add: ParseSML_def ahead_def comm_body_def)
qed

text \<open>The list without braces is empty, and takes the blanks that follow it along.\<close>

lemma bare_list: "parseItem (ahead pre ''L:0 }'') = OK (NewList [], ahead (pre @ ''L:0 '') ''}'')"
proof -
  have "parseItem (ahead pre (''L:0'' @ '' }'')) = parseList (ahead (pre @ ''L:0'') '' }'')"
    using parse_head [of "''L:0''" "'' }''" pre] by (simp add: token_text_def has_prefix_def)
  also have "\<dots> = OK (NewList [], ahead (pre @ ''L:0 '') ''}'')"
    using skip_gap [OF space_separator(2), of "''}''" "pre @ ''L:0''"]
    by (simp add: parseList.simps space_run_stop blank_def)
  finally show ?thesis by simp
qed

lemma children_step:
  assumes "space_run t = 0" and "t \<noteq> []" and "hd t \<noteq> CHR ''}''" and "parseItem (ahead (pre @ '' '') t) = OK (c, q)"
  shows "parse_children (ahead pre (CHR '' '' # t)) = bind_res (parse_children q) (\<lambda>(cs, r). OK (c # cs, r))"
proof -
  have "skipSpace (ahead pre (CHR '' '' # t)) = ahead (pre @ '' '') t"
    using skip_gap [OF space_separator(2) assms(1), of pre] by simp
  moreover obtain a u where "t = a # u" "a \<noteq> CHR ''}''" using assms(2,3) by (cases t) auto
  ultimately show ?thesis using assms(4) by (simp add: parse_children.simps [of "ahead pre _"])
qed

lemma command_body_parses:
  "ParseSML command_body = OK (NewList [Some (NewASCII ''START''), Some (NewList [])])"
proof -
  let ?a = "''A '' @ quoted ''START''" and ?pre = "''L:2 {''"
  have "parseItem (ahead (?pre @ '' '') (?a @ '' L:0 }'')) = OK (NewASCII ''START'', ahead (?pre @ '' '' @ ?a) '' L:0 }'')"
    using parse_spelling(1) [OF spells_quoted, rule_format, of "''START''" "'' L:0 }''" "?pre @ '' ''"] by simp
  then have "parse_children (ahead ?pre (CHR '' '' # ?a @ '' L:0 }'')) =
      bind_res (parse_children (ahead (?pre @ '' '' @ ?a) '' L:0 }'')) (\<lambda>(cs, r). OK (NewASCII ''START'' # cs, r))"
    by (intro children_step) (simp_all add: space_run_stop blank_def)
  moreover have "parse_children (ahead (?pre @ '' '' @ ?a) (CHR '' '' # ''L:0 }'')) =
      bind_res (parse_children (ahead ((?pre @ '' '' @ ?a) @ '' L:0 '') ''}'')) (\<lambda>(cs, r). OK (NewList [] # cs, r))"
    using bare_list [of "(?pre @ '' '' @ ?a) @ '' ''"]
    by (intro children_step) (simp_all add: space_run_stop blank_def)
  moreover have "parse_children (ahead pre ''}'') = OK ([], ahead (pre @ ''}'') [])" for pre
    using parse_spelling(2) [OF spells_nil [OF gap_nil], rule_format, of pre "[]"] by simp
  ultimately have children: "parse_children (ahead ?pre (CHR '' '' # ?a @ '' L:0 }'')) =
      OK ([NewASCII ''START'', NewList []], ahead ((?pre @ '' '' @ ?a) @ '' L:0 }'') [])" by simp
  have "parseItem (ahead [] (''L:2'' @ '' {'' @ CHR '' '' # ?a @ '' L:0 }'')) =
      parseList (ahead ''L:2'' ('' {'' @ CHR '' '' # ?a @ '' L:0 }''))"
    using parse_head [of "''L:2''" "'' {'' @ CHR '' '' # ?a @ '' L:0 }''" "[]"]
    by (simp add: token_text_def has_prefix_def)
  moreover have "skipSpace (ahead ''L:2'' ('' '' @ ''{'' @ CHR '' '' # ?a @ '' L:0 }'')) =
      ahead ''L:2 '' (''{'' @ CHR '' '' # ?a @ '' L:0 }'')"
    using skip_gap [OF space_separator(2), of "''{'' @ CHR '' '' # ?a @ '' L:0 }''" "''L:2''"]
    by (simp add: space_run_stop blank_def)
  moreover have "advance 1 (ahead ''L:2 '' (''{'' @ CHR '' '' # ?a @ '' L:0 }'')) = ahead ?pre (CHR '' '' # ?a @ '' L:0 }'')"
    using ahead_advance [of 1 "''{''" "''L:2 ''" "CHR '' '' # ?a @ '' L:0 }''"] by simp
  ultimately have "parseItem (ahead [] command_body) =
      OK (NewList [Some (NewASCII ''START''), Some (NewList [])], ahead ((?pre @ '' '' @ ?a) @ '' L:0 }'') [])"
    using children by (simp add: parseList.simps command_body_def)
  moreover have "TrimSpace command_body = command_body"
    by (rule TrimSpace_printable) (simp_all add: command_body_def printable_def quoted_def)
  ultimately show ?thesis by (simp add: ParseSML_def ahead_def command_body_def)
qed

section \<open>The communication setup scenario\<close>

lemma wf_replies:
  assumes "length (h_mdln h) \<le> max_len" and "length (h_softrev h) \<le> max_len"
  shows "wf_item (handleS1F1 h)" and "wf_item (snd (handleS1F13 h))" and "wf_item (ack b)"
  using assms by (simp_all add: handleS1F1_def handleS1F13_def ack_def Let_def wf_eval)

lemma format_norm: "it_format (norm_item it) = it_format it"
  by (cases it) simp

text \<open>The three requests of the scenario, allowed or denied.\<close>

lemma request_S1F13:
  assumes "\<not> ho_intercept ho" and "h_customHandlers h = []"
    and "length (h_mdln h) \<le> max_len" and "length (h_softrev h) \<le> max_len"
  shows "\<exists>h' it. SendRaw (direct_link ord) 1 13 True (Some host_item) ho (h, n) =
           ((ho, h', n + 1), OK (if IsAllowed (h_policy h) 1 13 then Some it else None)) \<and> it_format it = FormatList \<and>
           h_state h' = (if IsAllowed (h_policy h) 1 13 then h_state (fst (handleS1F13 h)) else h_state h) \<and>
           h_executed h' = h_executed h \<and> same_equipment h h'"
proof -
  have "pred_option wf_item (Some host_item)" by (simp add: host_item_def wf_eval)
  moreover have "builtin ord 1 13 d h = Some (OK (fst (handleS1F13 h), snd (handleS1F13 h)))" for d
    by (simp add: builtin_def)
  moreover have "same_equipment h (fst (handleS1F13 h))" "h_outbox (fst (handleS1F13 h)) = h_outbox h"
    "h_executed (fst (handleS1F13 h)) = h_executed h"
    by (simp_all add: same_equipment_def handleS1F13_def Let_def)
  moreover have "it_format (norm_item (snd (handleS1F13 h))) = FormatList"
    unfolding format_norm by (simp add: handleS1F13_def Let_def new_item_defs)
  ultimately show ?thesis
    using host_request [OF assms(1) _ assms(2) _ wf_replies(2) [OF assms(3,4)], of "Some host_item" 13 ord 1] by fastforce
qed

lemma request_S1F1:
  assumes "\<not> ho_intercept ho" and "h_customHandlers h = []"
    and "length (h_mdln h) \<le> max_len" and "length (h_softrev h) \<le> max_len"
  shows "\<exists>h' it. SendRaw (direct_link ord) 1 1 True None ho (h, n) =
           ((ho, h', n + 1), OK (if IsAllowed (h_policy h) 1 1 then Some it else None)) \<and> it_format it = FormatList \<and>
           h_state h' = h_state h \<and> same_equipment h h'"
proof -
  have "builtin ord 1 1 d h = Some (OK (h, handleS1F1 h))" for d by (simp add: builtin_def)
  moreover have "it_format (norm_item (handleS1F1 h)) = FormatList"
    unfolding format_norm by (simp add: handleS1F1_def new_item_defs)
  moreover have "same_equipment h h" by (simp add: same_equipment_def)
  ultimately show ?thesis
    using host_request [OF assms(1) _ assms(2) _ wf_replies(1) [OF assms(3,4)], of None 1 ord 1 h n] by fastforce
qed

lemma request_S1F17:
  assumes "\<not> ho_intercept ho" and "h_customHandlers h = []"
  shows "\<exists>h' it. SendRaw (direct_link ord) 1 17 True None ho (h, n) =
           ((ho, h', n + 1), OK (if IsAllowed (h_policy h) 1 17 then Some it else None)) \<and> it_format it = FormatBinary \<and>
           h_state h' = (if IsAllowed (h_policy h) 1 17 then h_state (fst (handleS1F17 h)) else h_state h)"
proof -
  obtain b where b: "snd (handleS1F17 h) = ack b"
    by (cases "GoOnlineRemote (h_state h)") (auto simp: handleS1F17_def)
  have "builtin ord 1 17 d h = Some (OK (fst (handleS1F17 h), ack b))" for d
    using b by (simp add: builtin_def flip: b)
  moreover have "wf_item (ack b)" "it_format (norm_item (ack b)) = FormatBinary"
    unfolding format_norm by (simp_all add: ack_def wf_eval)
  moreover have "same_equipment h (fst (handleS1F17 h))" "h_outbox (fst (handleS1F17 h)) = h_outbox h"
    by (simp_all add: same_equipment_def handleS1F17_def split: res.split)
  ultimately show ?thesis
    using host_request [OF assms(1) _ assms(2), of None 17 "ack b" ord 1 "fst (handleS1F17 h)" n] by fastforce
qed

text \<open>A request followed by the check of its answer counts two steps, the second failed when there
  is no answer.\<close>

definition send_st :: "byte \<Rightarrow> byte \<Rightarrow> string \<Rightarrow> ScriptStep" where
  "send_st s f body = zero_step\<lparr>st_Action := ''send'', st_Stream := s, st_Function := f, st_WBit := True, st_Body := body\<rparr>"

definition assert_st :: "string \<Rightarrow> ScriptStep" where
  "assert_st e = zero_step\<lparr>st_Action := ''assert_reply'', st_Expect := e\<rparr>"

lemma send_assert:
  assumes "SendRaw send s f True body ho w = ((ho', w'), OK (if c then Some it else None))"
    and "if text = [] then body = None else \<exists>b. ParseSML text = OK b \<and> body = Some b"
    and "Format_String (it_format it) = e" and "e \<noteq> []"
  shows "\<exists>r'. run_steps send cancelled i (send_st s f text # assert_st e # sts) (ho, w, lr, r) =
           run_steps send cancelled (i + 2) sts (ho', w', if c then Some it else None, r') \<and>
           res_Passed r' = res_Passed r + (if c then 2 else 1) \<and> res_Failed r' = res_Failed r + (if c then 0 else 1)"
proof -
  have send: "run_step send cancelled i (send_st s f text) (ho, w, lr, r) =
      OK (ho', w', if c then Some it else None, step_result i (send_st s f text) ''pass'' (DetSent s f) r)"
    using assms(1,2) by (auto simp: run_step_def send_step_def send_st_def zero_step_def split: if_splits)
  have check: "run_step send cancelled (i + 1) (assert_st e) (ho', w', if c then Some it else None, r1) =
      OK (ho', w', if c then Some it else None,
        step_result (i + 1) (assert_st e) (if c then ''pass'' else ''fail'') (if c then DetMatches e else DetNoReply) r1)" for r1
    using assms(3,4) by (simp add: run_step_def assert_step_def assert_st_def zero_step_def)
  let ?r = "step_result (i + 1) (assert_st e) (if c then ''pass'' else ''fail'') (if c then DetMatches e else DetNoReply)
      (step_result i (send_st s f text) ''pass'' (DetSent s f) r)"
  have "run_steps send cancelled i (send_st s f text # assert_st e # sts) (ho, w, lr, r) =
      run_steps send cancelled (i + 2) sts (ho', w', if c then Some it else None, ?r)"
    unfolding run_steps.simps send check bind_res.simps by (simp only: add.assoc one_add_one)
  then show ?thesis by (intro exI [of _ ?r]) (simp add: step_result_def)
qed

lemma setup_steps:
  "scr_Steps (BuiltinScenarios ! 0) =
     [send_st 1 13 comm_body, assert_st ''L'', send_st 1 1 [], assert_st ''L'', send_st 1 17 [], assert_st ''B'']"
  by (simp add: BuiltinScenarios_def send_st_def assert_st_def zero_step_def)

lemma setup_run:
  assumes "SendRaw send 1 13 True (Some host_item) ho w = ((ho, w1), OK (if a then Some i1 else None))"
    and "SendRaw send 1 1 True None ho w1 = ((ho, w2), OK (if b then Some i2 else None))"
    and "SendRaw send 1 17 True None ho w2 = ((ho, w3), OK (if c then Some i3 else None))"
    and "it_format i1 = FormatList" "it_format i2 = FormatList" "it_format i3 = FormatBinary"
  shows "\<exists>r. Run send cancelled (BuiltinScenarios ! 0) ho w = OK (r, ho, w3) \<and>
           res_Passed r + res_Failed r = 6 \<and> (res_Failed r = 0 \<longleftrightarrow> a \<and> b \<and> c)"
proof -
  have formats: "Format_String FormatList = ''L''" "Format_String FormatBinary = ''B''"
    by (simp_all add: Format_String_def format_defs)
  have parsed: "if comm_body = [] then Some host_item = None else \<exists>b. ParseSML comm_body = OK b \<and> Some host_item = Some b"
    using comm_body_parses by (simp add: comm_body_def)
  have none: "if [] = ([] :: string) then None = None else \<exists>b. ParseSML [] = OK b \<and> None = Some b" by simp
  let ?r0 = "\<lparr>res_Name = scr_Name (BuiltinScenarios ! 0), res_Steps = [], res_Passed = 0, res_Failed = 0\<rparr>"
  let ?s3 = "[send_st 1 17 [], assert_st ''B'']"
  let ?s2 = "send_st 1 1 [] # assert_st ''L'' # ?s3"
  obtain r1 where r1: "run_steps send cancelled 0 (send_st 1 13 comm_body # assert_st ''L'' # ?s2) (ho, w, None, ?r0) =
      run_steps send cancelled (0 + 2) ?s2 (ho, w1, if a then Some i1 else None, r1)"
    "res_Passed r1 = (if a then 2 else 1)" "res_Failed r1 = (if a then 0 else 1)"
    using send_assert [OF assms(1) parsed, of "''L''" cancelled 0 ?s2 None ?r0] assms(4) formats by auto
  obtain r2 where r2: "run_steps send cancelled (0 + 2) ?s2 (ho, w1, if a then Some i1 else None, r1) =
      run_steps send cancelled (0 + 2 + 2) ?s3 (ho, w2, if b then Some i2 else None, r2)"
    "res_Passed r2 = res_Passed r1 + (if b then 2 else 1)" "res_Failed r2 = res_Failed r1 + (if b then 0 else 1)"
    using send_assert [OF assms(2) none, of "''L''" cancelled "0 + 2" ?s3 "if a then Some i1 else None" r1]
      assms(5) formats(1) by (metis list.distinct(2))
  obtain r3 where r3: "run_steps send cancelled (0 + 2 + 2) ?s3 (ho, w2, if b then Some i2 else None, r2) =
      run_steps send cancelled (0 + 2 + 2 + 2) [] (ho, w3, if c then Some i3 else None, r3)"
    "res_Passed r3 = res_Passed r2 + (if c then 2 else 1)" "res_Failed r3 = res_Failed r2 + (if c then 0 else 1)"
    using send_assert [OF assms(3) none, of "''B''" cancelled "0 + 2 + 2" "[]" "if b then Some i2 else None" r2]
      assms(6) formats(2) by (metis list.distinct(2))
  have "Run send cancelled (BuiltinScenarios ! 0) ho w = OK (r3, ho, w3)"
    unfolding Run_def setup_steps r1(1) r2(1) r3(1) by simp
  then show ?thesis using r1(2,3) r2(2,3) r3(2,3) by auto
qed

text \<open>The built-in communication setup against fresh equipment, with any policy and in any iteration order.
  The run ends with six counted steps, and it passes exactly when the policy allows S1F13, S1F1 and
  S1F17. When it passes, the equipment communicates and is online under remote control.
\<close>

theorem setup_scenario:
  assumes "h_customHandlers h = []" and "length (h_mdln h) \<le> max_len" and "length (h_softrev h) \<le> max_len"
    and "\<not> ho_intercept ho" and "sm_commState (h_state h) = CommDisabled"
  shows "\<exists>r h' n'. Run (direct_link ord) cancelled (BuiltinScenarios ! 0) ho (h, n) = OK (r, ho, h', n') \<and>
           res_Passed r + res_Failed r = 6 \<and>
           (res_Failed r = 0 \<longleftrightarrow> list_all (\<lambda>f. IsAllowed (h_policy h) 1 f) [13, 1, 17]) \<and>
           (res_Failed r = 0 \<longrightarrow> IsCommunicating (h_state h') \<and> sm_controlState (h_state h') = ControlOnlineRemote)"
proof -
  let ?p = "\<lambda>f. IsAllowed (h_policy h) 1 f"
  obtain h1 i1 where h1: "SendRaw (direct_link ord) 1 13 True (Some host_item) ho (h, n) =
      ((ho, h1, n + 1), OK (if ?p 13 then Some i1 else None))" "it_format i1 = FormatList"
    and st1: "h_state h1 = (if ?p 13 then h_state (fst (handleS1F13 h)) else h_state h)" and same1: "same_equipment h h1"
    using request_S1F13 [OF assms(4,1-3)] by blast
  have f1: "h_customHandlers h1 = []" "length (h_mdln h1) \<le> max_len" "length (h_softrev h1) \<le> max_len"
    and p1: "h_policy h1 = h_policy h"
    using same1 assms(1-3) by (simp_all add: same_equipment_def)
  obtain h2 i2 where h2: "SendRaw (direct_link ord) 1 1 True None ho (h1, n + 1) =
      ((ho, h2, n + 1 + 1), OK (if ?p 1 then Some i2 else None))" "it_format i2 = FormatList"
    and st2: "h_state h2 = h_state h1" and same2: "same_equipment h1 h2"
    using request_S1F1 [OF assms(4) f1, of ord "n + 1"] p1 by auto
  have f2: "h_customHandlers h2 = []" and p2: "h_policy h2 = h_policy h"
    using same2 f1 p1 by (simp_all add: same_equipment_def)
  obtain h3 i3 where h3: "SendRaw (direct_link ord) 1 17 True None ho (h2, n + 1 + 1) =
      ((ho, h3, n + 1 + 1 + 1), OK (if ?p 17 then Some i3 else None))" "it_format i3 = FormatBinary"
    and st3: "h_state h3 = (if ?p 17 then h_state (fst (handleS1F17 h2)) else h_state h2)"
    using request_S1F17 [OF assms(4) f2, of ord "n + 1 + 1"] p2 by auto
  have state: "IsCommunicating (h_state h3) \<and> sm_controlState (h_state h3) = ControlOnlineRemote" if "?p 13" "?p 17"
    using that assms(5) st1 st2 st3
    by (simp add: handleS1F13_def handleS1F17_def EnableComm_def CommEstablished_def GoOnlineRemote_def notifyChange_def
        ok_or_def IsCommunicating_def Let_def)
  from setup_run [OF h1(1) h2(1) h3(1) h1(2) h2(2) h3(2), of cancelled] state show ?thesis by auto
qed

theorem setup_scenario_witness:
  "\<exists>r ho h' n'. Run (direct_link id) (\<lambda>_. False) (BuiltinScenarios ! 0) (NewHost 1)
       (SetPolicy FullAccessPolicy (NewHandler 1 ''EQ'' ''1.0''), 0) = OK (r, ho, h', n') \<and> res_Passed r = 6 \<and>
     sm_controlState (h_state h') = ControlOnlineRemote"
proof -
  let ?h = "SetPolicy FullAccessPolicy (NewHandler 1 ''EQ'' ''1.0'')"
  have p: "list_all (\<lambda>f. IsAllowed (h_policy ?h) 1 f) [13, 1, 17]"
    by (simp add: SetPolicy_def FullAccessPolicy_def IsAllowed_def)
  have "h_customHandlers ?h = []" "length (h_mdln ?h) \<le> max_len" "length (h_softrev ?h) \<le> max_len"
    "\<not> ho_intercept (NewHost 1)" "sm_commState (h_state ?h) = CommDisabled"
    by (simp_all add: SetPolicy_def NewHandler_def max_len_def NewHost_def NewStateMachine_def)
  from setup_scenario [OF this, of id "\<lambda>_. False" 0] p show ?thesis by fastforce
qed

section \<open>The remote command scenario\<close>

definition start_item :: Item where
  "start_item = NewList [Some (NewASCII ''START''), Some (NewList [])]"

lemma start_item_handled:
  assumes "map_of (h_commands h) ''START'' = Some (Some fn)"
  shows "handleS2F41 (item_bytes start_item) h =
           OK (h\<lparr>h_executed := h_executed h @ [(''START'', [])]\<rparr>, command_reply (fn []))"
proof -
  have "wf_item start_item" "norm_item start_item = start_item"
    by (simp_all add: start_item_def wf_eval)
  then have "Decode (item_bytes start_item) = OK start_item" using Decode_item_bytes by metis
  then show ?thesis using assms
    by (simp add: handleS2F41_def decode_body_def start_item_def new_item_defs ptr_val_def format_defs assert_all_def
        command_params_def Execute_def HasCommand_def)
qed

lemma request_S2F41:
  assumes "\<not> ho_intercept ho" and "h_customHandlers h = []" and "map_of (h_commands h) ''START'' = Some (Some fn)"
  shows "\<exists>h' it. SendRaw (direct_link ord) 2 41 True (Some start_item) ho (h, n) =
           ((ho, h', n + 1), OK (if IsAllowed (h_policy h) 2 41 then Some it else None)) \<and> it_format it = FormatList \<and>
           h_executed h' = h_executed h @ (if IsAllowed (h_policy h) 2 41 then [(''START'', [])] else [])"
proof -
  let ?hb = "h\<lparr>h_executed := h_executed h @ [(''START'', [])]\<rparr>"
  have "pred_option wf_item (Some start_item)" by (simp add: start_item_def wf_eval)
  moreover have "builtin ord 2 41 (item_bytes start_item) h = Some (OK (?hb, command_reply (fn [])))"
    using start_item_handled [OF assms(3)] by (simp add: builtin_def)
  moreover have "same_equipment h ?hb" "h_outbox ?hb = h_outbox h" by (simp_all add: same_equipment_def)
  moreover have "wf_item (command_reply (fn []))" "it_format (norm_item (command_reply (fn []))) = FormatList"
    unfolding format_norm by (simp_all add: command_reply_def ack_def wf_eval)
  ultimately show ?thesis
    using host_request [OF assms(1) _ assms(2), of "Some start_item" 41 "command_reply (fn [])" ord 2 ?hb n] by fastforce
qed

lemma command_steps:
  "scr_Steps (BuiltinScenarios ! 1) =
     [send_st 1 13 comm_body, assert_st ''L'', send_st 2 41 command_body, assert_st ''L'']"
  by (simp add: BuiltinScenarios_def send_st_def assert_st_def zero_step_def)

lemma command_run:
  assumes "SendRaw send 1 13 True (Some host_item) ho w = ((ho, w1), OK (if a then Some i1 else None))"
    and "SendRaw send 2 41 True (Some start_item) ho w1 = ((ho, w2), OK (if b then Some i2 else None))"
    and "it_format i1 = FormatList" "it_format i2 = FormatList"
  shows "\<exists>r. Run send cancelled (BuiltinScenarios ! 1) ho w = OK (r, ho, w2) \<and>
           res_Passed r + res_Failed r = 4 \<and> (res_Failed r = 0 \<longleftrightarrow> a \<and> b)"
proof -
  have format: "Format_String FormatList = ''L''" by (simp add: Format_String_def format_defs)
  have parsed: "if comm_body = [] then Some host_item = None else \<exists>b. ParseSML comm_body = OK b \<and> Some host_item = Some b"
    "if command_body = [] then Some start_item = None else \<exists>b. ParseSML command_body = OK b \<and> Some start_item = Some b"
    using comm_body_parses command_body_parses by (simp_all add: comm_body_def command_body_def start_item_def)
  let ?r0 = "\<lparr>res_Name = scr_Name (BuiltinScenarios ! 1), res_Steps = [], res_Passed = 0, res_Failed = 0\<rparr>"
  let ?s2 = "[send_st 2 41 command_body, assert_st ''L'']"
  obtain r1 where r1: "run_steps send cancelled 0 (send_st 1 13 comm_body # assert_st ''L'' # ?s2) (ho, w, None, ?r0) =
      run_steps send cancelled (0 + 2) ?s2 (ho, w1, if a then Some i1 else None, r1)"
    "res_Passed r1 = (if a then 2 else 1)" "res_Failed r1 = (if a then 0 else 1)"
    using send_assert [OF assms(1) parsed(1), of "''L''" cancelled 0 ?s2 None ?r0] assms(3) format by auto
  obtain r2 where r2: "run_steps send cancelled (0 + 2) ?s2 (ho, w1, if a then Some i1 else None, r1) =
      run_steps send cancelled (0 + 2 + 2) [] (ho, w2, if b then Some i2 else None, r2)"
    "res_Passed r2 = res_Passed r1 + (if b then 2 else 1)" "res_Failed r2 = res_Failed r1 + (if b then 0 else 1)"
    using send_assert [OF assms(2) parsed(2), of "''L''" cancelled "0 + 2" "[]" "if a then Some i1 else None" r1]
      assms(4) format by (metis list.distinct(2))
  have "Run send cancelled (BuiltinScenarios ! 1) ho w = OK (r2, ho, w2)"
    unfolding Run_def command_steps r1(1) r2(1) by simp
  then show ?thesis using r1(2,3) r2(2,3) by auto
qed

text \<open>
  The built-in remote command scenario against equipment that knows the command: it runs the command
  once, without parameters, exactly when the policy allows S2F41, and passes exactly when the policy
  allows both of its requests.
\<close>

theorem command_scenario:
  assumes "h_customHandlers h = []" and "length (h_mdln h) \<le> max_len" and "length (h_softrev h) \<le> max_len"
    and "\<not> ho_intercept ho" and "map_of (h_commands h) ''START'' = Some (Some fn)"
  shows "\<exists>r h' n'. Run (direct_link ord) cancelled (BuiltinScenarios ! 1) ho (h, n) = OK (r, ho, h', n') \<and>
           (res_Failed r = 0 \<longleftrightarrow> IsAllowed (h_policy h) 1 13 \<and> IsAllowed (h_policy h) 2 41) \<and>
           h_executed h' = h_executed h @ (if IsAllowed (h_policy h) 2 41 then [(''START'', [])] else [])"
proof -
  obtain h1 i1 where h1: "SendRaw (direct_link ord) 1 13 True (Some host_item) ho (h, n) =
      ((ho, h1, n + 1), OK (if IsAllowed (h_policy h) 1 13 then Some i1 else None))" "it_format i1 = FormatList"
    and same: "same_equipment h h1" "h_executed h1 = h_executed h"
    using request_S1F13 [OF assms(4,1-3)] by blast
  have "h_customHandlers h1 = []" "map_of (h_commands h1) ''START'' = Some (Some fn)" "h_policy h1 = h_policy h"
    using same assms(1,5) by (simp_all add: same_equipment_def)
  then obtain h2 i2 where h2: "SendRaw (direct_link ord) 2 41 True (Some start_item) ho (h1, n + 1) =
      ((ho, h2, n + 1 + 1), OK (if IsAllowed (h_policy h) 2 41 then Some i2 else None))" "it_format i2 = FormatList"
    and ex: "h_executed h2 = h_executed h @ (if IsAllowed (h_policy h) 2 41 then [(''START'', [])] else [])"
    using request_S2F41 [OF assms(4), of h1 fn ord "n + 1"] same(2) by auto
  from command_run [OF h1(1) h2(1) h1(2) h2(2), of cancelled] ex show ?thesis by auto
qed

theorem command_scenario_witness:
  "\<exists>r ho h' n'. Run (direct_link id) (\<lambda>_. False) (BuiltinScenarios ! 1) (NewHost 1)
       ((SetPolicy FullAccessPolicy (NewHandler 1 ''EQ'' ''1.0''))
          \<lparr>h_commands := cmd_Register ''START'' (Some (\<lambda>_. 0)) NewCommandManager\<rparr>, 0) = OK (r, ho, h', n') \<and>
     h_executed h' = [(''START'', [])]"
proof -
  let ?h = "(SetPolicy FullAccessPolicy (NewHandler 1 ''EQ'' ''1.0''))
     \<lparr>h_commands := cmd_Register ''START'' (Some (\<lambda>_. 0)) NewCommandManager\<rparr>"
  have p: "IsAllowed (h_policy ?h) s f" for s f by (simp add: SetPolicy_def FullAccessPolicy_def IsAllowed_def)
  have "h_customHandlers ?h = []" "length (h_mdln ?h) \<le> max_len" "length (h_softrev ?h) \<le> max_len"
    "\<not> ho_intercept (NewHost 1)" "map_of (h_commands ?h) ''START'' = Some (Some (\<lambda>_. 0))" "h_executed ?h = []"
    by (simp_all add: SetPolicy_def NewHandler_def max_len_def NewHost_def cmd_Register_def NewCommandManager_def)
  with command_scenario [of ?h "NewHost 1" "\<lambda>_. 0" id "\<lambda>_. False" 0] p show ?thesis by fastforce
qed

end
