(* ===== verification/Security_Events.thy ===== *)
theory Security_Events
  imports Rest_Api Rate_Limiter "HOL-Library.Sublist"
begin

text \<open>
  Security events and where they go: the auditor (\<^verbatim>\<open>pkg/security/event.go\<close>), the status counters behind
  the REST report (\<^verbatim>\<open>e191.go\<close>), and the webhook and syslog sinks (\<^verbatim>\<open>webhook.go\<close>). A handler of events
  is a function on a world that the sinks share. A zero time is \<open>None\<close>; the clock, the formatting of
  times and the outcomes of network calls are arguments. The lemmas show that the counters agree with
  the history of calls, that the webhook loses and repeats no event and always has a flush to come for
  a waiting one, and how its retries end.
\<close>

section \<open>Events and the auditor\<close>

datatype SecLevel = LevelInfo | LevelWarning | LevelCritical

fun SecLevel_String :: "SecLevel \<Rightarrow> string" where
  "SecLevel_String LevelInfo = ''INFO''"
| "SecLevel_String LevelWarning = ''WARNING''"
| "SecLevel_String LevelCritical = ''CRITICAL''"

record SecEvent =
  ev_Time :: "int option"
  ev_Level :: SecLevel
  ev_Category :: string
  ev_Type :: string
  ev_Source :: string
  ev_Message :: string
  ev_Details :: "(string \<times> goval) list"

type_synonym 'w EventHandler = "SecEvent \<Rightarrow> 'w \<Rightarrow> 'w"

text \<open>The auditor keeps its handlers in the order of registration.\<close>

type_synonym 'w Auditor = "'w EventHandler list"

definition NewAuditor :: "'w Auditor" where "NewAuditor = []"

definition OnEvent :: "'w EventHandler \<Rightarrow> 'w Auditor \<Rightarrow> 'w Auditor" where
  "OnEvent handler a = a @ [handler]"

definition Emit :: "int \<Rightarrow> SecEvent \<Rightarrow> 'w Auditor \<Rightarrow> 'w \<Rightarrow> 'w" where
  "Emit now event a w =
     (let event = (if ev_Time event = None then event\<lparr>ev_Time := Some now\<rparr> else event)
      in fold (\<lambda>h. h event) a w)"

definition sec_event :: "SecLevel \<Rightarrow> string \<Rightarrow> string \<Rightarrow> string \<Rightarrow> string \<Rightarrow> (string \<times> goval) list \<Rightarrow> SecEvent" where
  "sec_event level cat ty source msg details =
     \<lparr>ev_Time = None, ev_Level = level, ev_Category = cat, ev_Type = ty, ev_Source = source,
      ev_Message = msg, ev_Details = details\<rparr>"

definition ConnectionRejected_event :: "string \<Rightarrow> string \<Rightarrow> SecEvent" where
  "ConnectionRejected_event source reason =
     sec_event LevelWarning ''dataflow'' ''connection_rejected'' source reason []"

definition AuthFailed_event :: "string \<Rightarrow> string \<Rightarrow> SecEvent" where
  "AuthFailed_event source reason = sec_event LevelCritical ''auth'' ''auth_failed'' source reason []"

definition RateLimited_event :: "string \<Rightarrow> uint64 \<Rightarrow> SecEvent" where
  "RateLimited_event source rate =
     sec_event LevelWarning ''availability'' ''rate_limited'' source ''message rate exceeded'' [(''rate'', VInt rate)]"

definition MalformedMessage_event :: "string \<Rightarrow> string option \<Rightarrow> SecEvent" where
  "MalformedMessage_event source err =
     sec_event LevelWarning ''integrity'' ''malformed_message'' source
       (case err of None \<Rightarrow> ''malformed message'' | Some e \<Rightarrow> e) []"

definition UnauthorizedMessage_event :: "string \<Rightarrow> byte \<Rightarrow> byte \<Rightarrow> SecEvent" where
  "UnauthorizedMessage_event source stream function =
     sec_event LevelCritical ''access'' ''unauthorized_message'' source ''message not allowed by session policy''
       [(''stream'', VUint8 stream), (''function'', VUint8 function)]"

definition TLSHandshakeOK_event :: "string \<Rightarrow> SecEvent" where
  "TLSHandshakeOK_event source =
     sec_event LevelInfo ''auth'' ''tls_handshake_ok'' source ''TLS handshake completed'' []"

definition SessionExpired_event :: "string \<Rightarrow> string \<Rightarrow> SecEvent" where
  "SessionExpired_event source duration =
     sec_event LevelInfo ''access'' ''session_expired'' source ''session TTL exceeded'' [(''duration'', VString duration)]"

section \<open>The security status\<close>

record SecurityStatus =
  TLSEnabled :: bool
  TLSVersion :: string
  MutualTLS :: bool
  CipherSuite :: string
  RBACEnabled :: bool
  IPAllowlist :: bool
  RateLimited :: bool
  EncryptionEnabled :: bool
  AuthFailures :: uint64
  ConnectionsTotal :: uint64
  RejectedConns :: uint64
  RateLimitHits :: uint64
  MalformedMsgs :: uint64
  UnauthorizedMsgs :: uint64
  StartTime :: int
  LastAuthFailure :: "int option"
  LastRateLimit :: "int option"

definition NewSecurityStatus :: "int \<Rightarrow> SecurityStatus" where
  "NewSecurityStatus now =
     \<lparr>TLSEnabled = False, TLSVersion = [], MutualTLS = False, CipherSuite = [], RBACEnabled = False, IPAllowlist = False,
      RateLimited = False, EncryptionEnabled = False, AuthFailures = 0, ConnectionsTotal = 0, RejectedConns = 0,
      RateLimitHits = 0, MalformedMsgs = 0, UnauthorizedMsgs = 0, StartTime = now, LastAuthFailure = None,
      LastRateLimit = None\<rparr>"

definition RecordAuthFailure :: "int \<Rightarrow> SecurityStatus \<Rightarrow> SecurityStatus" where
  "RecordAuthFailure now ss = ss\<lparr>AuthFailures := AuthFailures ss + 1, LastAuthFailure := Some now\<rparr>"

definition RecordConnection :: "SecurityStatus \<Rightarrow> SecurityStatus" where
  "RecordConnection ss = ss\<lparr>ConnectionsTotal := ConnectionsTotal ss + 1\<rparr>"

definition RecordRejectedConnection :: "SecurityStatus \<Rightarrow> SecurityStatus" where
  "RecordRejectedConnection ss = ss\<lparr>RejectedConns := RejectedConns ss + 1\<rparr>"

definition RecordRateLimit :: "int \<Rightarrow> SecurityStatus \<Rightarrow> SecurityStatus" where
  "RecordRateLimit now ss = ss\<lparr>RateLimitHits := RateLimitHits ss + 1, LastRateLimit := Some now\<rparr>"

definition RecordMalformed :: "SecurityStatus \<Rightarrow> SecurityStatus" where
  "RecordMalformed ss = ss\<lparr>MalformedMsgs := MalformedMsgs ss + 1\<rparr>"

definition RecordUnauthorized :: "SecurityStatus \<Rightarrow> SecurityStatus" where
  "RecordUnauthorized ss = ss\<lparr>UnauthorizedMsgs := UnauthorizedMsgs ss + 1\<rparr>"

definition SetTLS :: "bool \<Rightarrow> string \<Rightarrow> string \<Rightarrow> bool \<Rightarrow> SecurityStatus \<Rightarrow> SecurityStatus" where
  "SetTLS enabled version cipher mutual ss =
     ss\<lparr>TLSEnabled := enabled, TLSVersion := version, CipherSuite := cipher, MutualTLS := mutual\<rparr>"

text \<open>The clock is read again inside the handler.\<close>

definition AsEventHandler :: "int \<Rightarrow> SecurityStatus EventHandler" where
  "AsEventHandler now event ss =
     (if ev_Type event = ''auth_failed'' then RecordAuthFailure now ss
      else if ev_Type event = ''connection_rejected'' then RecordRejectedConnection ss
      else if ev_Type event = ''rate_limited'' then RecordRateLimit now ss
      else if ev_Type event = ''malformed_message'' then RecordMalformed ss
      else if ev_Type event = ''unauthorized_message'' then RecordUnauthorized ss
      else ss)"

definition formatTimeOrEmpty :: "(int \<Rightarrow> string) \<Rightarrow> int option \<Rightarrow> string" where
  "formatTimeOrEmpty fmt t = (case t of None \<Rightarrow> [] | Some t \<Rightarrow> fmt t)"

definition Report :: "(int \<Rightarrow> string) \<Rightarrow> (float64 \<Rightarrow> int) \<Rightarrow> int \<Rightarrow> SecurityStatus \<Rightarrow> jsonv" where
  "Report fmt oor now ss =
     JObject [(''tls_enabled'', JBool (TLSEnabled ss)), (''tls_version'', JString (TLSVersion ss)),
       (''mutual_tls'', JBool (MutualTLS ss)), (''cipher_suite'', JString (CipherSuite ss)),
       (''rbac_enabled'', JBool (RBACEnabled ss)), (''ip_allowlist_enabled'', JBool (IPAllowlist ss)),
       (''rate_limit_enabled'', JBool (RateLimited ss)), (''encryption_enabled'', JBool (EncryptionEnabled ss)),
       (''counters'', JObject [(''auth_failures'', JInt (sint (AuthFailures ss))),
          (''connections_total'', JInt (sint (ConnectionsTotal ss))), (''rejected_conns'', JInt (sint (RejectedConns ss))),
          (''rate_limit_hits'', JInt (sint (RateLimitHits ss))), (''malformed_msgs'', JInt (sint (MalformedMsgs ss))),
          (''unauthorized_msgs'', JInt (sint (UnauthorizedMsgs ss)))]),
       (''start_time'', JString (fmt (StartTime ss))),
       (''uptime_seconds'', JInt (f64_to_int64 oor (Seconds (Sub_time now (StartTime ss))))),
       (''last_auth_failure'', JString (formatTimeOrEmpty fmt (LastAuthFailure ss))),
       (''last_rate_limit'', JString (formatTimeOrEmpty fmt (LastRateLimit ss)))]"

section \<open>The webhook\<close>

record WebhookConfig =
  wh_URL :: string
  wh_Headers :: "(string, string) gomap"
  wh_Timeout :: int
  wh_RetryCount :: int
  wh_RetryDelay :: int
  wh_BatchSize :: int
  wh_BatchWindow :: int

text \<open>The handler's state with the timers that have not run their callback yet; the current timer is
  one of them. Every batch handed to \<^verbatim>\<open>send\<close> is recorded.\<close>

record webhookHandler =
  wh_config :: WebhookConfig
  wh_batch :: "SecEvent list"
  wh_timer :: "nat option"
  wh_pending :: "nat list"
  wh_next :: nat
  wh_sent :: "SecEvent list list"

definition default_to :: "int \<Rightarrow> int \<Rightarrow> int" where
  "default_to d x = (if x = 0 then d else x)"

definition NewWebhookHandler :: "WebhookConfig \<Rightarrow> webhookHandler" where
  "NewWebhookHandler cfg =
     \<lparr>wh_config = cfg\<lparr>wh_Timeout := default_to 10000000000 (wh_Timeout cfg),
        wh_RetryCount := default_to 3 (wh_RetryCount cfg),
        wh_RetryDelay := default_to 1000000000 (wh_RetryDelay cfg),
        wh_BatchWindow := default_to 5000000000 (wh_BatchWindow cfg)\<rparr>,
      wh_batch = [], wh_timer = None, wh_pending = [], wh_next = 0, wh_sent = []\<rparr>"

text \<open>\<open>stops\<close> says whether \<^verbatim>\<open>Stop\<close> comes before the timer fires.\<close>

definition wh_handle :: "bool \<Rightarrow> SecEvent \<Rightarrow> webhookHandler \<Rightarrow> webhookHandler" where
  "wh_handle stops event wh =
     (if wh_BatchSize (wh_config wh) \<le> 0 then wh\<lparr>wh_sent := wh_sent wh @ [[event]]\<rparr>
      else
        let wh = wh\<lparr>wh_batch := wh_batch wh @ [event]\<rparr> in
        if wh_BatchSize (wh_config wh) \<le> int (length (wh_batch wh)) then
          wh\<lparr>wh_batch := [], wh_timer := None,
             wh_pending := (case wh_timer wh of
                Some t \<Rightarrow> if stops then removeAll t (wh_pending wh) else wh_pending wh
              | None \<Rightarrow> wh_pending wh),
             wh_sent := wh_sent wh @ [wh_batch wh]\<rparr>
        else if wh_timer wh = None then
          wh\<lparr>wh_timer := Some (wh_next wh), wh_pending := wh_next wh # wh_pending wh, wh_next := Suc (wh_next wh)\<rparr>
        else wh)"

definition wh_flush :: "nat \<Rightarrow> webhookHandler \<Rightarrow> webhookHandler" where
  "wh_flush t wh0 =
     (let wh = wh0\<lparr>wh_pending := removeAll t (wh_pending wh0)\<rparr>
      in if wh_batch wh = [] then wh\<lparr>wh_timer := None\<rparr>
         else wh\<lparr>wh_batch := [], wh_timer := None, wh_sent := wh_sent wh @ [wh_batch wh]\<rparr>)"

text \<open>The retries of \<^verbatim>\<open>send\<close>: \<open>resp k\<close> is the outcome of attempt \<open>k\<close>, \<open>None\<close> when the request fails.
  The result is whether the events were delivered, and the delays before each attempt.\<close>

definition accepted :: "int \<Rightarrow> bool" where "accepted status \<longleftrightarrow> 200 \<le> status \<and> status < 300"

definition retryable :: "int option \<Rightarrow> bool" where
  "retryable r \<longleftrightarrow> (case r of None \<Rightarrow> True | Some status \<Rightarrow> \<not> accepted status \<and> 500 \<le> status)"

function send_attempts :: "(nat \<Rightarrow> int option) \<Rightarrow> int \<Rightarrow> int \<Rightarrow> nat \<Rightarrow> bool \<times> int list" where
  "send_attempts resp retryCount delay attempt =
     (if retryCount < int attempt then (False, [])
      else
        let wait = (if attempt > 0 then [delay] else []);
            delay' = (if attempt > 0 then wrap64 (delay * 2) else delay)
        in case resp attempt of
             Some status \<Rightarrow>
               if accepted status then (True, wait)
               else if 500 \<le> status then (case send_attempts resp retryCount delay' (attempt + 1) of (ok, ds) \<Rightarrow> (ok, wait @ ds))
               else (False, wait)
           | None \<Rightarrow> (case send_attempts resp retryCount delay' (attempt + 1) of (ok, ds) \<Rightarrow> (ok, wait @ ds)))"
  by pat_completeness auto
termination
  by (relation "measure (\<lambda>(resp, retryCount, delay, attempt). nat (retryCount + 1 - int attempt))") auto

declare send_attempts.simps [simp del]

text \<open>\<open>marshal\<close> says whether the events have a JSON encoding, and \<open>valid_url\<close> whether a request can be
  made for a URL; a request for the configured URL that cannot be made ends \<^verbatim>\<open>send\<close> at its first attempt.\<close>

definition wh_send :: "(SecEvent list \<Rightarrow> bool) \<Rightarrow> (string \<Rightarrow> bool) \<Rightarrow> (nat \<Rightarrow> int option) \<Rightarrow> SecEvent list \<Rightarrow> WebhookConfig \<Rightarrow> bool \<times> int list" where
  "wh_send marshal valid_url resp events cfg =
     (if \<not> marshal events then (False, [])
      else if \<not> valid_url (wh_URL cfg) then (False, [])
      else send_attempts resp (wh_RetryCount cfg) (wh_RetryDelay cfg) 0)"

section \<open>Syslog\<close>

record SyslogConfig =
  sl_Network :: string
  sl_Address :: string
  sl_Tag :: string

record syslogHandler =
  sl_config :: SyslogConfig
  sl_conn :: bool
  sl_lines :: "string list"

definition NewSyslogHandler :: "SyslogConfig \<Rightarrow> syslogHandler" where
  "NewSyslogHandler cfg =
     \<lparr>sl_config = cfg\<lparr>sl_Tag := (if sl_Tag cfg = [] then ''secsgem'' else sl_Tag cfg),
        sl_Network := (if sl_Network cfg = [] then ''udp'' else sl_Network cfg)\<rparr>,
      sl_conn = False, sl_lines = []\<rparr>"

fun syslogSeverity :: "SecLevel \<Rightarrow> nat" where
  "syslogSeverity LevelCritical = 2"
| "syslogSeverity LevelWarning = 4"
| "syslogSeverity LevelInfo = 6"

definition syslog_line :: "(int option \<Rightarrow> string) \<Rightarrow> string \<Rightarrow> SecEvent \<Rightarrow> string" where
  "syslog_line fmt tag event =
     ''<'' @ decimal (1 * 8 + syslogSeverity (ev_Level event)) @ ''>1 '' @ fmt (ev_Time event) @ '' - '' @ tag @
     '' - - - [category='' @ ev_Category event @ '' type='' @ ev_Type event @ ''] '' @ ev_Message event"

definition sl_handle :: "(int option \<Rightarrow> string) \<Rightarrow> bool \<Rightarrow> bool \<Rightarrow> SecEvent \<Rightarrow> syslogHandler \<Rightarrow> syslogHandler" where
  "sl_handle fmt dial_ok write_ok event sh =
     (if \<not> sl_conn sh \<and> \<not> dial_ok then sh
      else if write_ok then sh\<lparr>sl_conn := True, sl_lines := sl_lines sh @ [syslog_line fmt (sl_Tag (sl_config sh)) event @ [CHR 0x0A]]\<rparr>
      else sh\<lparr>sl_conn := False\<rparr>)"

section \<open>The counters\<close>

definition observe :: "(int \<times> SecEvent) list \<Rightarrow> SecurityStatus \<Rightarrow> SecurityStatus" where
  "observe hist ss = fold (\<lambda>(now, e). AsEventHandler now e) hist ss"

definition occurrences :: "string \<Rightarrow> (int \<times> SecEvent) list \<Rightarrow> uint64" where
  "occurrences ty hist = of_nat (length (filter (\<lambda>(now, e). ev_Type e = ty) hist))"

definition latest :: "string \<Rightarrow> (int \<times> SecEvent) list \<Rightarrow> int option" where
  "latest ty hist = (case rev (filter (\<lambda>(now, e). ev_Type e = ty) hist) of [] \<Rightarrow> None | (now, e) # _ \<Rightarrow> Some now)"

lemmas record_defs = RecordAuthFailure_def RecordConnection_def RecordRejectedConnection_def RecordRateLimit_def
  RecordMalformed_def RecordUnauthorized_def

lemma observe_snoc: "observe (hist @ [(now, e)]) ss = AsEventHandler now e (observe hist ss)"
  by (simp add: observe_def)

lemma occurrences_snoc:
  "occurrences ty (hist @ [(now, e)]) = occurrences ty hist + (if ev_Type e = ty then 1 else 0)"
  by (simp add: occurrences_def)

lemma latest_snoc: "latest ty (hist @ [(now, e)]) = (if ev_Type e = ty then Some now else latest ty hist)"
  by (simp add: latest_def)

text \<open>
  The security report. Whatever the sequence of audited events, each counter of the status is the
  number of events of its type, reduced to 64 bits, the last failure and the last throttling have
  the time of the latest such event, and the configuration of the connection is untouched.
\<close>

theorem status_counts_events:
  fixes hist :: "(int \<times> SecEvent) list" and start :: int
  defines "ss \<equiv> observe hist (NewSecurityStatus start)"
  shows "AuthFailures ss = occurrences ''auth_failed'' hist \<and>
         RejectedConns ss = occurrences ''connection_rejected'' hist \<and>
         RateLimitHits ss = occurrences ''rate_limited'' hist \<and>
         MalformedMsgs ss = occurrences ''malformed_message'' hist \<and>
         UnauthorizedMsgs ss = occurrences ''unauthorized_message'' hist \<and>
         LastAuthFailure ss = latest ''auth_failed'' hist \<and> LastRateLimit ss = latest ''rate_limited'' hist \<and>
         ConnectionsTotal ss = 0 \<and> TLSEnabled ss = False \<and> StartTime ss = start"
  unfolding ss_def
proof (induction hist rule: rev_induct)
  case Nil
  show ?case by (simp add: observe_def occurrences_def latest_def NewSecurityStatus_def)
next
  case (snoc x hist)
  obtain now e where [simp]: "x = (now, e)" by (cases x)
  show ?case
    using snoc by (simp add: observe_snoc occurrences_snoc latest_snoc AsEventHandler_def record_defs)
qed

section \<open>The webhook loses nothing\<close>

text \<open>The runs of the webhook: events arrive and timers fire in any order; \<open>es\<close> are the events so far.\<close>

inductive wh_run :: "WebhookConfig \<Rightarrow> SecEvent list \<Rightarrow> webhookHandler \<Rightarrow> bool" for cfg where
  wh_start: "wh_run cfg [] (NewWebhookHandler cfg)"
| wh_event: "wh_run cfg es wh \<Longrightarrow> wh_run cfg (es @ [e]) (wh_handle stops e wh)"
| wh_fires: "wh_run cfg es wh \<Longrightarrow> t \<in> set (wh_pending wh) \<Longrightarrow> wh_run cfg es (wh_flush t wh)"

definition batch_limit :: "WebhookConfig \<Rightarrow> nat" where "batch_limit cfg = max 1 (nat (wh_BatchSize cfg))"

definition wh_inv :: "WebhookConfig \<Rightarrow> SecEvent list \<Rightarrow> webhookHandler \<Rightarrow> bool" where
  "wh_inv cfg es wh \<longleftrightarrow>
     concat (wh_sent wh) @ wh_batch wh = es \<and>
     list_all (\<lambda>b. b \<noteq> [] \<and> length b \<le> batch_limit cfg) (wh_sent wh) \<and>
     length (wh_batch wh) < batch_limit cfg \<and>
     (case wh_timer wh of None \<Rightarrow> wh_batch wh = [] | Some t \<Rightarrow> t \<in> set (wh_pending wh)) \<and>
     wh_BatchSize (wh_config wh) = wh_BatchSize cfg"

lemma wh_inv_event:
  assumes "wh_inv cfg es wh"
  shows "wh_inv cfg (es @ [e]) (wh_handle stops e wh)"
proof (cases "wh_BatchSize cfg \<le> 0")
  case True
  with assms show ?thesis
    by (auto simp: wh_inv_def wh_handle_def batch_limit_def split: option.splits)
next
  case False
  show ?thesis
  proof (cases "wh_BatchSize cfg \<le> int (Suc (length (wh_batch wh)))")
    case True
    with False assms show ?thesis by (auto simp: wh_inv_def wh_handle_def batch_limit_def Let_def)
  next
    case full: False
    with False assms show ?thesis
      by (auto simp: wh_inv_def wh_handle_def batch_limit_def Let_def split: option.splits)
  qed
qed

lemma wh_inv_fires:
  assumes "wh_inv cfg es wh"
  shows "wh_inv cfg es (wh_flush t wh)" and "wh_batch (wh_flush t wh) = []"
  using assms by (auto simp: wh_inv_def wh_flush_def Let_def batch_limit_def split: option.splits)

lemma wh_run_inv: "wh_run cfg es wh \<Longrightarrow> wh_inv cfg es wh"
proof (induction rule: wh_run.induct)
  case wh_start
  show ?case by (simp add: wh_inv_def NewWebhookHandler_def batch_limit_def)
qed (auto intro: wh_inv_event wh_inv_fires)

text \<open>C17. No security event is lost in the batching. However events and expiring timers are interleaved,
  also with a timer that could not be stopped in time, the batches handed over for sending followed
  by the one being filled are all events in their order; every batch handed over has at least one
  event and at most the configured number; and while events wait, a timer is pending whose expiry
  hands every event over.
\<close>

theorem webhook_loses_nothing:
  assumes "wh_run cfg es wh"
  shows "concat (wh_sent wh) @ wh_batch wh = es \<and>
         (\<forall>b \<in> set (wh_sent wh). 1 \<le> length b \<and> length b \<le> batch_limit cfg) \<and>
         (wh_batch wh \<noteq> [] \<longrightarrow> (\<exists>t \<in> set (wh_pending wh). concat (wh_sent (wh_flush t wh)) = es))"
proof -
  note inv = wh_run_inv [OF assms]
  have flushed: "concat (wh_sent (wh_flush t wh)) = es" for t
    using wh_inv_fires [OF inv, of t] by (simp add: wh_inv_def)
  from inv flushed show ?thesis
    by (auto simp: wh_inv_def list_all_iff Suc_le_eq split: option.splits)
qed

definition demo_webhook :: WebhookConfig where
  "demo_webhook = \<lparr>wh_URL = ''http://siem'', wh_Headers = [], wh_Timeout = 0, wh_RetryCount = 0, wh_RetryDelay = 0,
     wh_BatchSize = 2, wh_BatchWindow = 0\<rparr>"

theorem webhook_loses_nothing_witness:
  "\<exists>wh. wh_run demo_webhook (map TLSHandshakeOK_event [''a'', ''b'', ''c'']) wh \<and>
     concat (wh_sent wh) @ wh_batch wh = map TLSHandshakeOK_event [''a'', ''b'', ''c''] \<and> length (wh_sent wh) = 1"
proof -
  let ?e = TLSHandshakeOK_event and ?w = "NewWebhookHandler demo_webhook"
  let ?wh = "wh_handle True (?e ''c'') (wh_handle True (?e ''b'') (wh_handle True (?e ''a'') ?w))"
  have run: "wh_run demo_webhook ((([] @ [?e ''a'']) @ [?e ''b'']) @ [?e ''c'']) ?wh"
    by (intro wh_run.intros)
  have "length (wh_sent ?wh) = 1"
    by (simp add: wh_handle_def NewWebhookHandler_def demo_webhook_def Let_def)
  with webhook_loses_nothing [OF run] run show ?thesis by auto
qed

section \<open>The retries\<close>

definition delivered_at :: "(nat \<Rightarrow> int option) \<Rightarrow> int \<Rightarrow> nat \<Rightarrow> nat \<Rightarrow> bool" where
  "delivered_at resp retryCount a k \<longleftrightarrow>
     a \<le> k \<and> int k \<le> retryCount \<and> (\<exists>status. resp k = Some status \<and> accepted status) \<and>
     list_all (\<lambda>j. retryable (resp j)) [a..<k]"

lemma delivered_at_here:
  "delivered_at resp rc a a \<longleftrightarrow> int a \<le> rc \<and> (\<exists>status. resp a = Some status \<and> accepted status)"
  by (auto simp: delivered_at_def)

lemma delivered_at_step:
  "(\<exists>k. delivered_at resp rc a k) \<longleftrightarrow>
     delivered_at resp rc a a \<or> retryable (resp a) \<and> (\<exists>k. delivered_at resp rc (Suc a) k)"
proof -
  have "delivered_at resp rc a k \<longleftrightarrow> (if k = a then delivered_at resp rc a a else retryable (resp a) \<and> delivered_at resp rc (Suc a) k)"
    for k
    by (auto simp: delivered_at_def upt_conv_Cons)
  then show ?thesis by (metis delivered_at_def not_less_eq_eq order_refl)
qed

lemma send_attempts_delivers:
  "fst (send_attempts resp rc delay a) \<longleftrightarrow> (\<exists>k. delivered_at resp rc a k)"
proof (induction resp rc delay a rule: send_attempts.induct)
  case (1 resp rc delay a)
  show ?case
  proof (cases "rc < int a")
    case True
    then show ?thesis by (subst send_attempts.simps) (auto simp: delivered_at_def)
  next
    case False
    with 1 show ?thesis
      by (subst send_attempts.simps, subst delivered_at_step)
         (auto simp: Let_def delivered_at_here retryable_def split: option.splits prod.splits)
  qed
qed

text \<open>The waits of a run that starts with delay \<open>d\<close>: doubled from one to the next.\<close>

fun doubled :: "int \<Rightarrow> nat \<Rightarrow> int list" where
  "doubled d 0 = []"
| "doubled d (Suc n) = d # doubled (wrap64 (d * 2)) n"

lemma send_attempts_waits:
  "\<exists>n. snd (send_attempts resp rc delay a) = doubled delay n \<and>
     int n \<le> max 0 (rc + 1 - int (max 1 a))"
proof (induction resp rc delay a rule: send_attempts.induct)
  case (1 resp rc delay a)
  show ?case
  proof (cases "rc < int a")
    case True
    then show ?thesis by (subst send_attempts.simps) (auto intro: exI [of _ 0])
  next
    case False
    let ?d = "if 0 < a then wrap64 (delay * 2) else delay" and ?wait = "if 0 < a then [delay] else []"
    have stop: ?thesis if "snd (send_attempts resp rc delay a) = ?wait"
      using that False by (intro exI [of _ "if 0 < a then 1 else 0"]) auto
    have go: ?thesis
      if "snd (send_attempts resp rc delay a) = ?wait @ snd (send_attempts resp rc ?d (a + 1))"
        and "\<exists>n. snd (send_attempts resp rc ?d (a + 1)) = doubled ?d n \<and> int n \<le> max 0 (rc + 1 - int (max 1 (a + 1)))"
    proof -
      from that(2) obtain n where n: "snd (send_attempts resp rc ?d (a + 1)) = doubled ?d n"
        "int n \<le> max 0 (rc - int a)" by auto
      show ?thesis using that(1) n False
        by (intro exI [of _ "if 0 < a then Suc n else n"]) auto
    qed
    show ?thesis
    proof (cases "retryable (resp a)")
      case True
      then have "snd (send_attempts resp rc delay a) = ?wait @ snd (send_attempts resp rc ?d (a + 1))"
        using False
        by (subst send_attempts.simps) (auto simp: Let_def retryable_def split: option.splits prod.splits)
      moreover have "\<exists>n. snd (send_attempts resp rc ?d (a + 1)) = doubled ?d n \<and>
          int n \<le> max 0 (rc + 1 - int (max 1 (a + 1)))"
        using 1 False True by (auto simp: retryable_def split: option.splits)
      ultimately show ?thesis by (rule go)
    next
      case no: False
      then have "snd (send_attempts resp rc delay a) = ?wait"
        using False
        by (subst send_attempts.simps) (auto simp: Let_def retryable_def split: option.splits prod.splits)
      then show ?thesis by (rule stop)
    qed
  qed
qed

text \<open>C24. The retries of the webhook. A batch that can be encoded, for a URL a request can be made for, is delivered exactly
  if one of the first \<^verbatim>\<open>RetryCount + 1\<close> answers is a success and every answer before it is a failed
  request or a server error; a client error ends the attempts. The waits start with the configured
  delay, each is twice the one before, and there are at most \<^verbatim>\<open>RetryCount\<close> of them.
\<close>

theorem webhook_retries:
  assumes "wh_send marshal valid_url resp events cfg = (ok, waits)" and "marshal events" and "valid_url (wh_URL cfg)"
  shows "(ok \<longleftrightarrow> (\<exists>k. int k \<le> wh_RetryCount cfg \<and> (\<exists>status. resp k = Some status \<and> accepted status) \<and>
                      (\<forall>j < k. retryable (resp j)))) \<and>
         (\<exists>n. waits = doubled (wh_RetryDelay cfg) n \<and> int n \<le> max 0 (wh_RetryCount cfg))"
proof -
  have run: "send_attempts resp (wh_RetryCount cfg) (wh_RetryDelay cfg) 0 = (ok, waits)"
    using assms by (simp add: wh_send_def)
  show ?thesis
    using send_attempts_delivers [of resp "wh_RetryCount cfg" "wh_RetryDelay cfg" 0]
      send_attempts_waits [of resp "wh_RetryCount cfg" "wh_RetryDelay cfg" 0]
    by (auto simp: run delivered_at_def list_all_iff)
qed

theorem webhook_retries_witness:
  "\<exists>ok waits. wh_send (\<lambda>_. True) (\<lambda>_. True) (\<lambda>k. if k = 0 then None else if k = 1 then Some 503 else Some 204) []
       (wh_config (NewWebhookHandler demo_webhook)) = (ok, waits) \<and> ok \<and>
     (\<exists>n. waits = doubled 1000000000 n \<and> int n \<le> 3)"
proof -
  let ?resp = "\<lambda>k::nat. if k = 0 then None else if k = 1 then Some 503 else Some (204::int)"
  obtain ok waits where run: "wh_send (\<lambda>_. True) (\<lambda>_. True) ?resp [] (wh_config (NewWebhookHandler demo_webhook)) = (ok, waits)"
    by fastforce
  have "retryable (?resp j)" if "j < 2" for j
    using that by (auto simp: retryable_def accepted_def)
  moreover have "accepted 204" by (simp add: accepted_def)
  ultimately have "\<exists>k. int k \<le> wh_RetryCount (wh_config (NewWebhookHandler demo_webhook)) \<and>
      (\<exists>status. ?resp k = Some status \<and> accepted status) \<and> (\<forall>j < k. retryable (?resp j))"
    by (intro exI [of _ 2]) (simp add: NewWebhookHandler_def demo_webhook_def default_to_def)
  with webhook_retries [OF run] run show ?thesis
    by (auto simp: NewWebhookHandler_def demo_webhook_def default_to_def)
qed

end
