(* ===== verification/Gem_Hooks.thy ===== *)
theory Gem_Hooks
  imports Gem_Wire Security_Events
begin

text \<open>
  The handler of \<^verbatim>\<open>pkg/driver/gem/handler.go\<close> with what the application plugs into it: the security
  auditor and the callbacks that run after a report has gone out. The handler's own record notes, in
  \<open>h_denied\<close>, \<open>h_eventsSent\<close> and \<open>h_alarmsSent\<close>, each point of the code at which the auditor or the callbacks
  are called; here these calls are made, on a world \<open>'w\<close> that the plugged-in parts share. The lemmas
  show that the callbacks run once for each report the session accepted, in order, and for nothing else.
\<close>

type_synonym 'w EventCallback = "uint32 \<Rightarrow> uint32 \<Rightarrow> 'w \<Rightarrow> 'w"
type_synonym 'w AlarmCallback = "uint32 \<Rightarrow> bool \<Rightarrow> Alarm \<Rightarrow> 'w \<Rightarrow> 'w"

record 'w hooked =
  hk_handler :: Handler
  hk_auditor :: "'w Auditor option"
  hk_eventCallbacks :: "'w EventCallback list"
  hk_alarmCallbacks :: "'w AlarmCallback list"

definition plain :: "Handler \<Rightarrow> 'w hooked" where
  "plain h = \<lparr>hk_handler = h, hk_auditor = None, hk_eventCallbacks = [], hk_alarmCallbacks = []\<rparr>"

definition SetAuditor :: "'w Auditor option \<Rightarrow> 'w hooked \<Rightarrow> 'w hooked" where
  "SetAuditor auditor hk =
     hk\<lparr>hk_auditor := auditor, hk_handler := (hk_handler hk)\<lparr>h_auditor := auditor \<noteq> None\<rparr>\<rparr>"

definition OnEventSent :: "'w EventCallback \<Rightarrow> 'w hooked \<Rightarrow> 'w hooked" where
  "OnEventSent fn hk = hk\<lparr>hk_eventCallbacks := hk_eventCallbacks hk @ [fn]\<rparr>"

definition OnAlarmSent :: "'w AlarmCallback \<Rightarrow> 'w hooked \<Rightarrow> 'w hooked" where
  "OnAlarmSent fn hk = hk\<lparr>hk_alarmCallbacks := hk_alarmCallbacks hk @ [fn]\<rparr>"

section \<open>The operations with their calls\<close>

definition call_events :: "'w EventCallback list \<Rightarrow> (uint32 \<times> uint32) list \<Rightarrow> 'w \<Rightarrow> 'w" where
  "call_events cbs cs w = fold (\<lambda>(dataID, ceid) w. fold (\<lambda>cb. cb dataID ceid) cbs w) cs w"

text \<open>The callbacks get the alarm the manager returned, which is the stored one.\<close>

definition call_alarms :: "'w AlarmCallback list \<Rightarrow> AlarmManager \<Rightarrow> (uint32 \<times> bool) list \<Rightarrow> 'w \<Rightarrow> 'w" where
  "call_alarms cbs am cs w =
     fold (\<lambda>(alid, is_set) w. case GetAlarm am alid of
        None \<Rightarrow> w
      | Some alarm \<Rightarrow> fold (\<lambda>cb. cb alid is_set alarm) cbs w) cs w"

definition hk_SendEvent :: "bool \<Rightarrow> uint32 \<Rightarrow> uint32 \<Rightarrow> 'w hooked \<Rightarrow> 'w \<Rightarrow> ('w hooked \<times> 'w) \<times> (handler_error, unit) res" where
  "hk_SendEvent send_ok dataID ceid hk w =
     (let h = hk_handler hk; (h', r) = SendEvent send_ok dataID ceid h
      in ((hk\<lparr>hk_handler := h'\<rparr>,
           call_events (hk_eventCallbacks hk) (drop (length (h_eventsSent h)) (h_eventsSent h')) w), r))"

definition hk_SendAlarm :: "bool \<Rightarrow> uint32 \<Rightarrow> bool \<Rightarrow> 'w hooked \<Rightarrow> 'w \<Rightarrow> ('w hooked \<times> 'w) \<times> (handler_error, unit) res" where
  "hk_SendAlarm send_ok alid is_set hk w =
     (let h = hk_handler hk; (h', r) = SendAlarm send_ok alid is_set h
      in ((hk\<lparr>hk_handler := h'\<rparr>,
           call_alarms (hk_alarmCallbacks hk) (h_alarms h') (drop (length (h_alarmsSent h)) (h_alarmsSent h')) w), r))"

definition hk_HandleMessage ::
  "(uint32 list \<Rightarrow> uint32 list) \<Rightarrow> bool \<Rightarrow> int \<Rightarrow> Message \<Rightarrow> 'w hooked \<Rightarrow> 'w \<Rightarrow> ('w hooked \<times> 'w) \<times> (handler_error, unit) res" where
  "hk_HandleMessage ord send_ok now msg hk w =
     (let h = hk_handler hk; (h', r) = HandleMessage ord send_ok msg h;
          source = ''session:'' @ decimal (unat (SessionID (MHeader msg)))
      in ((hk\<lparr>hk_handler := h'\<rparr>,
           fold (\<lambda>(s, f) w. case hk_auditor hk of
               None \<Rightarrow> w
             | Some a \<Rightarrow> Emit now (UnauthorizedMessage_event source s f) a w)
             (drop (length (h_denied h)) (h_denied h')) w), r))"

section \<open>When the callbacks run\<close>

lemma SendEvent_calls:
  "h_eventsSent (fst (SendEvent ok d c h)) =
     h_eventsSent h @ (if length (h_outbox (fst (SendEvent ok d c h))) > length (h_outbox h) \<and> ok then [(d, c)] else [])"
  by (auto simp: SendEvent_def send_primary_def Let_def split: res.splits)

lemma SendAlarm_calls:
  "h_alarmsSent (fst (SendAlarm ok k b h)) =
     h_alarmsSent h @ (if length (h_outbox (fst (SendAlarm ok k b h))) > length (h_outbox h) \<and> ok then [(k, b)] else [])"
  by (auto simp: SendAlarm_def send_primary_def Let_def case_prod_unfold split: res.splits option.splits)

lemma builtin_denied:
  assumes "builtin ord s f data h = Some (OK (h', it))"
  shows "h_denied h' = h_denied h"
  using assms
proof (cases rule: builtin_cases)
  case S1F13
  then show ?thesis using handle_state_frame(1) [of h] by auto
next
  case S1F15
  then show ?thesis using handle_state_frame(2) [of h] by auto
next
  case S1F17
  then show ?thesis using handle_state_frame(3) [of h] by auto
qed (auto dest!: handleS2F15_frame handle_events_frame handleS2F41_frame handleS5F3_frame)

lemma sendReply_denied [simp]: "h_denied (fst (sendReply ok req s f body h)) = h_denied h"
  by (rule sendReply_eq [of ok req s f body h]) simp

definition denied_by_policy :: "Message \<Rightarrow> Handler \<Rightarrow> bool" where
  "denied_by_policy m h \<longleftrightarrow>
     \<not> IsControlMessage m \<and> \<not> IsAllowed (h_policy h) (Stream (MHeader m)) (Function (MHeader m))"

lemma HandleMessage_denials:
  "h_denied (fst (HandleMessage ord ok m h)) =
     h_denied h @ (if denied_by_policy m h \<and> h_auditor h then [(Stream (MHeader m), Function (MHeader m))] else [])"
  using builtin_denied
  by (auto simp: HandleMessage_def denied_by_policy_def Let_def split: option.splits res.splits)

text \<open>The handler knows whether it has an auditor.\<close>

definition hk_inv :: "'w hooked \<Rightarrow> bool" where
  "hk_inv hk \<longleftrightarrow> (h_auditor (hk_handler hk) \<longleftrightarrow> hk_auditor hk \<noteq> None)"

text \<open>The audit of denied messages. The auditor is told of a message exactly if it is a data message that the
  policy denies: once, as a critical event with the session as its source and the
  stream and function in its details.
\<close>

theorem audit_exactly_denials:
  assumes "hk_inv hk" and "hk_auditor hk = Some a" and "hk_HandleMessage ord ok now msg hk w = ((hk', w'), r)"
  shows "w' = (if denied_by_policy msg (hk_handler hk)
               then Emit now (UnauthorizedMessage_event (''session:'' @ decimal (unat (SessionID (MHeader msg))))
                      (Stream (MHeader msg)) (Function (MHeader msg))) a w
               else w) \<and> hk_auditor hk' = Some a"
  using assms HandleMessage_denials [of ord ok msg "hk_handler hk"]
  by (auto simp: hk_HandleMessage_def hk_inv_def Let_def split: prod.splits)

definition recorder :: "SecEvent list Auditor" where
  "recorder = OnEvent (\<lambda>e w. w @ [e]) NewAuditor"

theorem audit_exactly_denials_witness:
  "\<exists>hk' w' r. hk_HandleMessage id True 5 (NewDataMessage 9 2 41 True 7 [])
       (SetAuditor (Some recorder) (plain (NewHandler 1 ''EQ'' ''1.0''))) [] = ((hk', w'), r) \<and>
     map ev_Type w' = [''unauthorized_message''] \<and> map ev_Source w' = [''session:9'']"
proof -
  let ?hk = "SetAuditor (Some recorder) (plain (NewHandler 1 ''EQ'' ''1.0''))"
  let ?m = "NewDataMessage 9 2 41 True 7 []"
  obtain hk' w' r where run: "hk_HandleMessage id True 5 ?m ?hk [] = ((hk', w'), r)"
    by (metis prod.collapse)
  have inv: "hk_inv ?hk" "hk_auditor ?hk = Some recorder" by (simp_all add: hk_inv_def SetAuditor_def)
  have "denied_by_policy ?m (hk_handler ?hk)"
    by (simp add: denied_by_policy_def SetAuditor_def plain_def NewHandler_def IsControlMessage_def new_message_defs
        IsAllowed_def MonitorPolicy_def)
  with audit_exactly_denials [OF inv run] run show ?thesis
    by (simp add: Emit_def recorder_def OnEvent_def NewAuditor_def UnauthorizedMessage_event_def sec_event_def
        new_message_defs decimal.simps char_of_def bit_iff_odd)
qed

text \<open>The report of an event went to the session: there is one more message in the outbox.\<close>

definition reported :: "Handler \<Rightarrow> Handler \<Rightarrow> bool" where
  "reported h h' \<longleftrightarrow> length (h_outbox h') > length (h_outbox h)"

lemma hk_SendEvent_world:
  assumes "hk_SendEvent ok d c hk w = ((hk', w'), r)"
  shows "w' = (if reported (hk_handler hk) (hk_handler hk') \<and> ok then fold (\<lambda>cb. cb d c) (hk_eventCallbacks hk) w else w)"
    and "hk' = hk\<lparr>hk_handler := fst (SendEvent ok d c (hk_handler hk))\<rparr>"
    and "r = snd (SendEvent ok d c (hk_handler hk))"
  using assms SendEvent_calls [of ok d c "hk_handler hk"]
  by (auto simp: hk_SendEvent_def reported_def call_events_def Let_def split: prod.splits)

lemma send_primary_frame:
  "\<exists>out h1. h1 = h\<lparr>h_outbox := out\<rparr> \<and> fst (send_primary ok s f it cb h) \<in> {h1, cb h1}"
  by (auto simp: send_primary_def Let_def split: res.splits intro: exI [of _ "h_outbox h"])

lemma SendAlarm_stored:
  assumes "h_alarmsSent (fst (SendAlarm ok k b h)) \<noteq> h_alarmsSent h"
  shows "\<exists>alarm. GetAlarm (h_alarms (fst (SendAlarm ok k b h))) k = Some alarm"
proof (cases "if b then SetAlarm k (h_alarms h) else ClearAlarm k (h_alarms h)")
  case (OK p)
  obtain am alarm where p: "p = (am, alarm)" by (cases p)
  with OK have am: "GetAlarm am k = Some alarm"
    by (auto simp: SetAlarm_def ClearAlarm_def GetAlarm_def Let_def update_conv' split: option.splits if_split_asm)
  define h1 where "h1 = (case h_interlock h of
      Some si \<Rightarrow> if b then (case Evaluate alarm si (h_state h) of (_, si, sm) \<Rightarrow> h\<lparr>h_alarms := am, h_interlock := Some si, h_state := sm\<rparr>)
                 else h\<lparr>h_alarms := am\<rparr>
    | None \<Rightarrow> h\<lparr>h_alarms := am\<rparr>)"
  have h1: "h_alarms h1 = am" by (simp add: h1_def split: option.split prod.split)
  let ?cb = "\<lambda>h. h\<lparr>h_alarmsSent := h_alarmsSent h @ [(k, b)]\<rparr>"
  have "fst (SendAlarm ok k b h) = (if \<not> al_Enabled alarm then h1 else fst (send_primary ok 5 1 (alarm_report alarm b) ?cb h1))"
    using OK p by (simp add: SendAlarm_def h1_def Let_def split: option.split prod.split)
  then have "h_alarms (fst (SendAlarm ok k b h)) = am"
    using send_primary_frame [of h1 ok 5 1 "alarm_report alarm b" ?cb] h1 by auto
  with am show ?thesis by simp
qed (use assms in \<open>auto simp: SendAlarm_def\<close>)

lemma hk_SendAlarm_world:
  assumes "hk_SendAlarm ok k b hk w = ((hk', w'), r)"
  shows "if reported (hk_handler hk) (hk_handler hk') \<and> ok
         then \<exists>alarm. GetAlarm (h_alarms (hk_handler hk')) k = Some alarm \<and>
                w' = fold (\<lambda>cb. cb k b alarm) (hk_alarmCallbacks hk) w
         else w' = w"
    and "hk' = hk\<lparr>hk_handler := fst (SendAlarm ok k b (hk_handler hk))\<rparr>"
    and "r = snd (SendAlarm ok k b (hk_handler hk))"
  using assms SendAlarm_calls [of ok k b "hk_handler hk"] SendAlarm_stored [of ok k b "hk_handler hk"]
  by (auto simp: hk_SendAlarm_def reported_def call_alarms_def Let_def split: prod.splits)

end
