(* ===== verification/Grpc_Api.thy ===== *)
theory Grpc_Api
  imports Gem_Hooks Rest_Api
begin

text \<open>
  The gRPC interface (\<^verbatim>\<open>api/grpc/server.go\<close>, \<^verbatim>\<open>types.go\<close>): the interceptors that check the token, the
  remote procedures over the GEM handler, and the stream of events fed by the handler's callbacks.
  Of the gRPC library an incoming call contributes the values of its \<^verbatim>\<open>authorization\<close> metadata, or the
  absence of metadata; JSON texts, the texts of errors and the orders of iteration are arguments. The
  lemmas show which calls need the token, that a call with it does what the REST endpoint of the same
  purpose does to the equipment, and what a subscriber of the stream gets.
\<close>

section \<open>Messages\<close>

record GetStatusResponse =
  gr_CommState :: string
  gr_ControlState :: string
  gr_Communicating :: bool
  gr_Online :: bool
  gr_TransportState :: string

record pb_StatusVariable =
  pb_Svid :: uint32
  pb_svName :: string
  pb_svUnits :: string
  pb_svValue :: string

record pb_EquipmentConstant =
  pb_Ecid :: uint32
  pb_ecName :: string
  pb_ecUnits :: string
  pb_ecValue :: string

record SetECResponse =
  se_Success :: bool
  se_Error :: string

record ExecuteCommandResponse =
  ex_Command :: string
  ex_Status :: string
  ex_Code :: int

record AlarmInfo =
  ai_Alid :: uint32
  ai_Name :: string
  ai_Text :: string
  ai_State :: string
  ai_Enabled :: bool
  ai_Severity :: uint32

record EventNotification =
  en_Type :: string
  en_Timestamp :: string
  en_Data :: string

datatype grpc_status = Unauthenticated string | NotFound string | InvalidArgument string | DecodeFailed

record grpc_env =
  ge_marshal :: "goval \<Rightarrow> string option"
  ge_sprint :: "goval \<Rightarrow> string"
  ge_unmarshal :: "string \<Rightarrow> goval option"
  ge_event_json :: "jsonv \<Rightarrow> string option"
  ge_error_text :: "gem_error \<Rightarrow> string"
  ge_ord :: "uint32 list \<Rightarrow> uint32 list"
  ge_ord_params :: "string list \<Rightarrow> string list"

text \<open>The server; the handler and the session are shared with the other interfaces and are passed to
  the procedures.\<close>

record GrpcServer =
  gs_bearerToken :: string
  gs_streams :: "(nat, EventPayload list) gomap"

section \<open>Authentication\<close>

text \<open>\<open>md\<close> are the values of the \<^verbatim>\<open>authorization\<close> metadata, \<open>None\<close> when the call has no metadata.\<close>

definition checkAuth :: "string list option \<Rightarrow> GrpcServer \<Rightarrow> (grpc_status, unit) res" where
  "checkAuth md s =
     (case md of
        None \<Rightarrow> Err (Unauthenticated ''missing metadata'')
      | Some [] \<Rightarrow> Err (Unauthenticated ''missing authorization'')
      | Some (v # _) \<Rightarrow> if v \<noteq> ''Bearer '' @ gs_bearerToken s then Err (Unauthenticated ''invalid bearer token'') else OK ())"

definition unaryAuthInterceptor ::
  "string list option \<Rightarrow> GrpcServer \<Rightarrow> ('w \<Rightarrow> 'w \<times> (grpc_status, 'r) res) \<Rightarrow> 'w \<Rightarrow> 'w \<times> (grpc_status, 'r) res" where
  "unaryAuthInterceptor md s handler w =
     (case checkAuth md s of Err e \<Rightarrow> (w, Err e) | Panic \<Rightarrow> (w, Panic) | OK _ \<Rightarrow> handler w)"

text \<open>The interceptors are installed when a token is configured (\<^verbatim>\<open>Serve\<close>); the library calls the
  stream interceptor the same way.\<close>

definition intercepted ::
  "string list option \<Rightarrow> GrpcServer \<Rightarrow> ('w \<Rightarrow> 'w \<times> (grpc_status, 'r) res) \<Rightarrow> 'w \<Rightarrow> 'w \<times> (grpc_status, 'r) res" where
  "intercepted md s handler =
     (if gs_bearerToken s \<noteq> [] then unaryAuthInterceptor md s handler else handler)"

section \<open>Procedures\<close>

definition toJSON :: "grpc_env \<Rightarrow> goval \<Rightarrow> string" where
  "toJSON env v = (case ge_marshal env v of None \<Rightarrow> ge_sprint env v | Some t \<Rightarrow> t)"

definition rpc_GetStatus :: "Session \<Rightarrow> Handler \<Rightarrow> GetStatusResponse" where
  "rpc_GetStatus session h =
     \<lparr>gr_CommState = CommState_String (sm_commState (h_state h)),
      gr_ControlState = ControlState_String (sm_controlState (h_state h)),
      gr_Communicating = IsCommunicating (h_state h), gr_Online = IsOnline (h_state h),
      gr_TransportState = State_String (ss_state session)\<rparr>"

definition pb_sv :: "grpc_env \<Rightarrow> Handler \<Rightarrow> uint32 \<Rightarrow> (grpc_status, pb_StatusVariable) res" where
  "pb_sv env h svid =
     (case GetSVInfo svid (h_vars h) of
        None \<Rightarrow> Panic
      | Some info \<Rightarrow> OK \<lparr>pb_Svid = svid, pb_svName = sv_Name info, pb_svUnits = sv_Units info,
                        pb_svValue = toJSON env (sv_value h svid)\<rparr>)"

definition ListStatusVariables :: "grpc_env \<Rightarrow> Handler \<Rightarrow> (grpc_status, pb_StatusVariable list) res" where
  "ListStatusVariables env h = collect (\<lambda>_. pb_sv env h) 0 (ListSVIDs (ge_ord env) (h_vars h))"

definition GetStatusVariable :: "grpc_env \<Rightarrow> uint32 \<Rightarrow> Handler \<Rightarrow> (grpc_status, pb_StatusVariable) res" where
  "GetStatusVariable env svid h =
     (case GetSV svid (h_vars h) of
        None \<Rightarrow> Err (NotFound (''SVID '' @ decimal (unat svid) @ '' not found''))
      | Some _ \<Rightarrow> pb_sv env h svid)"

definition ListEquipmentConstants :: "grpc_env \<Rightarrow> Handler \<Rightarrow> (grpc_status, pb_EquipmentConstant list) res" where
  "ListEquipmentConstants env h =
     collect (\<lambda>_ ecid. case GetEC ecid (h_vars h) of
         None \<Rightarrow> Panic
       | Some ec \<Rightarrow> OK \<lparr>pb_Ecid = ecid, pb_ecName = ec_Name ec, pb_ecUnits = ec_Units ec,
                        pb_ecValue = toJSON env (ec_Value ec)\<rparr>) 0
       (ListECIDs (ge_ord env) (h_vars h))"

definition SetEquipmentConstant :: "grpc_env \<Rightarrow> uint32 \<Rightarrow> string \<Rightarrow> Handler \<Rightarrow> Handler \<times> (grpc_status, SetECResponse) res" where
  "SetEquipmentConstant env ecid v h =
     (let val = (case ge_unmarshal env v of None \<Rightarrow> VString v | Some x \<Rightarrow> x)
      in case SetEC ecid val (h_vars h) of
           Panic \<Rightarrow> (h, Panic)
         | Err e \<Rightarrow> (h, OK \<lparr>se_Success = False, se_Error = ge_error_text env e\<rparr>)
         | OK vars \<Rightarrow> (h\<lparr>h_vars := vars\<rparr>, OK \<lparr>se_Success = True, se_Error = []\<rparr>))"

definition ExecuteCommand ::
  "grpc_env \<Rightarrow> string \<Rightarrow> (string, string) gomap \<Rightarrow> Handler \<Rightarrow> Handler \<times> (grpc_status, ExecuteCommandResponse) res" where
  "ExecuteCommand env command params h =
     (if command = [] then (h, Err (InvalidArgument ''command is required''))
      else
        let ps = List.map_filter (\<lambda>k. map_option (\<lambda>v. (k, VString v)) (map_of params k)) (ge_ord_params env (map fst params))
        in case Execute (h_commands h) command ps of
             Err e \<Rightarrow> (h, Err e)
           | Panic \<Rightarrow> (h, Panic)
           | OK status \<Rightarrow>
               (h\<lparr>h_executed := h_executed h @ (if HasCommand command (h_commands h) then [(command, ps)] else [])\<rparr>,
                OK \<lparr>ex_Command = command, ex_Status = CommandStatus_String status, ex_Code = uint status\<rparr>))"

definition rpc_ListAlarms :: "grpc_env \<Rightarrow> bool \<Rightarrow> Handler \<Rightarrow> AlarmInfo list" where
  "rpc_ListAlarms env activeOnly h =
     map (\<lambda>a. \<lparr>ai_Alid = ALID a, ai_Name = al_Name a, ai_Text = al_Text a, ai_State = AlarmState_String (al_State a),
               ai_Enabled = al_Enabled a, ai_Severity = ucast (Severity a)\<rparr>)
       (if activeOnly then ListActiveAlarms (ge_ord env) (h_alarms h) else ListAlarms (ge_ord env) (h_alarms h))"

section \<open>The service\<close>

datatype rpc_request = RqStatus | RqListSV | RqGetSV uint32 | RqListEC | RqSetEC uint32 string
  | RqExecute string "(string, string) gomap" | RqListAlarms bool

datatype rpc_response = RsStatus GetStatusResponse | RsSVs "pb_StatusVariable list" | RsSV pb_StatusVariable
  | RsECs "pb_EquipmentConstant list" | RsSetEC SetECResponse | RsExecute ExecuteCommandResponse | RsAlarms "AlarmInfo list"

fun invoke :: "grpc_env \<Rightarrow> Session \<Rightarrow> rpc_request \<Rightarrow> Handler \<Rightarrow> Handler \<times> (grpc_status, rpc_response) res" where
  "invoke env session RqStatus h = (h, OK (RsStatus (rpc_GetStatus session h)))"
| "invoke env session RqListSV h = (h, map_res id RsSVs (ListStatusVariables env h))"
| "invoke env session (RqGetSV svid) h = (h, map_res id RsSV (GetStatusVariable env svid h))"
| "invoke env session RqListEC h = (h, map_res id RsECs (ListEquipmentConstants env h))"
| "invoke env session (RqSetEC ecid v) h = (case SetEquipmentConstant env ecid v h of (h', r) \<Rightarrow> (h', map_res id RsSetEC r))"
| "invoke env session (RqExecute c ps) h = (case ExecuteCommand env c ps h of (h', r) \<Rightarrow> (h', map_res id RsExecute r))"
| "invoke env session (RqListAlarms active) h = (h, OK (RsAlarms (rpc_ListAlarms env active h)))"

text \<open>A unary call: the request is decoded first (\<open>None\<close> when that fails), then the interceptor and the
  procedure run.\<close>

definition unary_call ::
  "grpc_env \<Rightarrow> Session \<Rightarrow> string list option \<Rightarrow> rpc_request option \<Rightarrow> GrpcServer \<Rightarrow> Handler \<Rightarrow>
     Handler \<times> (grpc_status, rpc_response) res" where
  "unary_call env session md req s h =
     (case req of
        None \<Rightarrow> (h, Err DecodeFailed)
      | Some rq \<Rightarrow> intercepted md s (invoke env session rq) h)"

section \<open>The stream of events\<close>

definition grpc_cap :: nat where "grpc_cap = 256"

definition broadcastEvent :: "string \<Rightarrow> string \<Rightarrow> jsonv \<Rightarrow> GrpcServer \<Rightarrow> GrpcServer" where
  "broadcastEvent now eventType data s =
     (let msg = \<lparr>ep_Type = eventType, ep_Timestamp = now, ep_Data = data\<rparr>
      in s\<lparr>gs_streams := map_vals (\<lambda>q. if length q < grpc_cap then q @ [msg] else q) (gs_streams s)\<rparr>)"

text \<open>\<^verbatim>\<open>StreamEvents\<close> registers a fresh channel, then takes one message after the other and sends it; the
  channel is removed when the stream ends.\<close>

definition StreamEvents_begin :: "nat \<Rightarrow> GrpcServer \<Rightarrow> GrpcServer" where
  "StreamEvents_begin ch s = s\<lparr>gs_streams := AList.update ch [] (gs_streams s)\<rparr>"

definition StreamEvents_take :: "nat \<Rightarrow> GrpcServer \<Rightarrow> (EventPayload \<times> GrpcServer) option" where
  "StreamEvents_take ch s =
     (case map_of (gs_streams s) ch of
        Some (e # q) \<Rightarrow> Some (e, s\<lparr>gs_streams := AList.update ch q (gs_streams s)\<rparr>)
      | _ \<Rightarrow> None)"

definition StreamEvents_end :: "nat \<Rightarrow> GrpcServer \<Rightarrow> GrpcServer" where
  "StreamEvents_end ch s = s\<lparr>gs_streams := AList.delete ch (gs_streams s)\<rparr>"

text \<open>A marshalling error leaves the data empty.\<close>

definition notification :: "grpc_env \<Rightarrow> EventPayload \<Rightarrow> EventNotification" where
  "notification env msg =
     \<lparr>en_Type = ep_Type msg, en_Timestamp = ep_Timestamp msg,
      en_Data = (case ge_event_json env (ep_Data msg) of None \<Rightarrow> [] | Some t \<Rightarrow> t)\<rparr>"

definition StreamEvents_step :: "grpc_env \<Rightarrow> bool \<Rightarrow> nat \<Rightarrow> GrpcServer \<Rightarrow> (EventNotification \<times> GrpcServer) option" where
  "StreamEvents_step env send_ok ch s =
     (case StreamEvents_take ch s of
        None \<Rightarrow> None
      | Some (msg, s') \<Rightarrow> Some (notification env msg, if send_ok then s' else StreamEvents_end ch s'))"

text \<open>\<^verbatim>\<open>NewServer\<close> registers the callbacks. The server lives in the world at the place \<open>upd\<close> updates, and
  \<open>clock\<close> reads the formatted time.\<close>

definition alarm_data :: "uint32 \<Rightarrow> bool \<Rightarrow> Alarm \<Rightarrow> jsonv" where
  "alarm_data alid is_set alarm =
     JObject [(''alid'', JInt (uint alid)), (''state'', JString (if is_set then ''set'' else ''cleared'')),
       (''text'', JString (al_Text alarm)), (''name'', JString (al_Name alarm))]"

definition event_data :: "uint32 \<Rightarrow> uint32 \<Rightarrow> jsonv" where
  "event_data dataID ceid = JObject [(''dataID'', JInt (uint dataID)), (''ceid'', JInt (uint ceid))]"

definition grpc_NewServer :: "string \<Rightarrow> GrpcServer" where
  "grpc_NewServer bearerToken = \<lparr>gs_bearerToken = bearerToken, gs_streams = []\<rparr>"

definition grpc_register ::
  "('w \<Rightarrow> string) \<Rightarrow> ((GrpcServer \<Rightarrow> GrpcServer) \<Rightarrow> 'w \<Rightarrow> 'w) \<Rightarrow> 'w hooked \<Rightarrow> 'w hooked" where
  "grpc_register clock upd hk =
     OnAlarmSent (\<lambda>alid is_set alarm w. upd (broadcastEvent (clock w) ''alarm'' (alarm_data alid is_set alarm)) w)
       (OnEventSent (\<lambda>dataID ceid w. upd (broadcastEvent (clock w) ''collection_event'' (event_data dataID ceid)) w) hk)"

section \<open>What a subscriber gets\<close>

interpretation grpc: event_stream
  "\<lambda>s ch. map_of (gs_streams s) ch" "\<lambda>e. broadcastEvent (ep_Timestamp e) (ep_Type e) (ep_Data e)" StreamEvents_take grpc_cap
  by unfold_locales (auto simp: broadcastEvent_def Let_def StreamEvents_take_def update_conv')

definition grpc_run :: "nat \<Rightarrow> EventPayload stream_op list \<Rightarrow> GrpcServer \<Rightarrow> EventPayload list \<times> GrpcServer" where
  "grpc_run ch = stream_run (\<lambda>e. broadcastEvent (ep_Timestamp e) (ep_Type e) (ep_Data e)) (StreamEvents_take ch)"

text \<open>
  What a subscriber of the stream gets. From the opening of the stream on, the events taken for it
  followed by those still queued are a subsequence of the events broadcast, in order and without
  repetition; at most 256 are queued, and nothing is lost before the 257th broadcast.
\<close>

theorem grpc_in_order:
  assumes "grpc_run ch ops (StreamEvents_begin ch s) = (got, s')"
  shows "\<exists>q. map_of (gs_streams s') ch = Some q \<and> length q \<le> 256 \<and> subseq (got @ q) (broadcasts ops) \<and>
           (length (broadcasts ops) \<le> 256 \<longrightarrow> got @ q = broadcasts ops)"
proof -
  have "map_of (gs_streams (StreamEvents_begin ch s)) ch = Some []"
    by (simp add: StreamEvents_begin_def update_conv')
  from grpc.subscriber_sees [OF this assms [unfolded grpc_run_def]] show ?thesis by (simp add: grpc_cap_def)
qed

theorem grpc_in_order_witness:
  "\<exists>got s' q. grpc_run 3 [Broadcast \<lparr>ep_Type = ''a'', ep_Timestamp = [], ep_Data = JNull\<rparr>, Take]
       (StreamEvents_begin 3 (grpc_NewServer [])) = (got, s') \<and>
     map_of (gs_streams s') 3 = Some q \<and> got @ q = [\<lparr>ep_Type = ''a'', ep_Timestamp = [], ep_Data = JNull\<rparr>]"
proof -
  let ?ops = "[Broadcast \<lparr>ep_Type = ''a'', ep_Timestamp = [], ep_Data = JNull\<rparr>, Take]"
  obtain got s' where r: "grpc_run 3 ?ops (StreamEvents_begin 3 (grpc_NewServer [])) = (got, s')" by fastforce
  from grpc_in_order [OF r] r show ?thesis by auto
qed

section \<open>Authorization\<close>

lemma unary_call_authorized:
  assumes "gs_bearerToken s \<noteq> []" and "unary_call env session md (Some rq) s h = (h', r)"
  shows "if \<exists>vs. md = Some ((''Bearer '' @ gs_bearerToken s) # vs)
         then invoke env session rq h = (h', r)
         else h' = h \<and> (\<exists>why. r = Err (Unauthenticated why))"
  using assms
  by (auto simp: unary_call_def intercepted_def unaryAuthInterceptor_def checkAuth_def
      split: option.splits list.splits if_splits)

text \<open>
  Authorization of calls. When the server has a token, a call that changes the equipment or gets an
  answer carried exactly that token as its first credential; any other call fails as unauthenticated.
\<close>

theorem grpc_authorization:
  assumes "gs_bearerToken s \<noteq> []" and "unary_call env session md (Some rq) s h = (h', r)"
  shows "if \<exists>vs. md = Some ((''Bearer '' @ gs_bearerToken s) # vs)
         then invoke env session rq h = (h', r)
         else h' = h \<and> (\<exists>why. r = Err (Unauthenticated why))"
  using unary_call_authorized [OF assms] .

definition demo_genv :: grpc_env where
  "demo_genv = \<lparr>ge_marshal = (\<lambda>v. None), ge_sprint = (\<lambda>v. []), ge_unmarshal = (\<lambda>t. None), ge_event_json = (\<lambda>d. None),
     ge_error_text = (\<lambda>e. []), ge_ord = id, ge_ord_params = id\<rparr>"

theorem grpc_authorization_witness:
  "\<exists>h' r. unary_call demo_genv (srv_session demo_server) (Some [''Bearer x'']) (Some (RqExecute ''START'' []))
       (grpc_NewServer ''w'') (srv_handler demo_server) = (h', r) \<and>
     h' = srv_handler demo_server \<and> (\<exists>why. r = Err (Unauthenticated why))"
proof -
  obtain h' r where c: "unary_call demo_genv (srv_session demo_server) (Some [''Bearer x'']) (Some (RqExecute ''START'' []))
       (grpc_NewServer ''w'') (srv_handler demo_server) = (h', r)" by fastforce
  have tok: "gs_bearerToken (grpc_NewServer ''w'') \<noteq> []" by (simp add: grpc_NewServer_def)
  from grpc_authorization [OF tok c] c show ?thesis by (simp add: grpc_NewServer_def)
qed

section \<open>Agreement with the REST interface\<close>

text \<open>C23. The two interfaces agree. A constant written with the same identifier and a value both decode the
  same way, and a command with the same name and string parameters taken in the same order, leave the
  same equipment behind whether they come through gRPC or REST, and one reports success or a command
  status exactly if the other reports it.
\<close>

theorem grpc_mirrors_rest:
  assumes "parseUint32 a = Some ecid" and "env_json_value henv body = Some x" and "ge_unmarshal genv v = Some x"
    and "handleSetEC henv a body s = OK (s1, rsp1)"
    and "env_json_command henv body2 = Some (cmd, map (\<lambda>(k, t). (k, VString t)) params)"
    and "env_ord_params henv = ge_ord_params genv" and "cmd \<noteq> []"
    and "handleCommand henv body2 s = OK (s2, rsp2)"
  shows "(\<exists>r. SetEquipmentConstant genv ecid v (srv_handler s) = (srv_handler s1, OK r) \<and>
            (se_Success r \<longleftrightarrow> rsp_status rsp1 = 200)) \<and>
         (\<exists>r. ExecuteCommand genv cmd params (srv_handler s) = (srv_handler s2, OK r) \<and> rsp_status rsp2 = 200 \<and>
            rsp_body rsp2 = Some (JObject [(''success'', JBool True), (''data'', JObject [(''command'', JString cmd),
              (''status'', JString (ex_Status r)), (''code'', JInt (ex_Code r))])]))"
proof
  show "\<exists>r. SetEquipmentConstant genv ecid v (srv_handler s) = (srv_handler s1, OK r) \<and>
          (se_Success r \<longleftrightarrow> rsp_status rsp1 = 200)"
    using assms(1-4)
    by (auto simp: handleSetEC_def SetEquipmentConstant_def set_vars_def writeError_def writeData_def writeJSON_def
        split: res.splits if_split_asm)
  have "map_of (map (\<lambda>(k, t). (k, VString t)) params) k = map_option VString (map_of params k)" for k
    by (induction params) auto
  then have ps: "List.map_filter (\<lambda>k. map_option (\<lambda>v. (k, VString v)) (map_of params k)) (ge_ord_params genv (map fst params)) =
      json_params henv (map (\<lambda>(k, t). (k, VString t)) params)"
    using assms(6) by (simp add: json_params_def option.map_comp comp_def case_prod_unfold)
  show "\<exists>r. ExecuteCommand genv cmd params (srv_handler s) = (srv_handler s2, OK r) \<and> rsp_status rsp2 = 200 \<and>
          rsp_body rsp2 = Some (JObject [(''success'', JBool True), (''data'', JObject [(''command'', JString cmd),
              (''status'', JString (ex_Status r)), (''code'', JInt (ex_Code r))])])"
    using assms(5,7,8)
    by (auto simp: handleCommand_def ExecuteCommand_def ps Let_def writeData_def writeJSON_def bind_res_eq_OK Execute_def
        split: res.splits option.splits)
qed

theorem grpc_mirrors_rest_witness:
  "\<exists>h1 h2 r1 r2. SetEquipmentConstant (demo_genv\<lparr>ge_unmarshal := \<lambda>t. Some (VInt 7)\<rparr>) 10 ''7''
       (srv_handler (set_vars (DefineEC ec_pressure NewVariableStore) demo_server)) = (h1, OK r1) \<and> se_Success r1 \<and>
     ExecuteCommand (demo_genv\<lparr>ge_unmarshal := \<lambda>t. Some (VInt 7)\<rparr>) ''START'' []
       (srv_handler (set_vars (DefineEC ec_pressure NewVariableStore) demo_server)) = (h2, OK r2) \<and> ex_Code r2 = 0"
proof -
  let ?s = "set_vars (DefineEC ec_pressure NewVariableStore) demo_server"
  let ?g = "demo_genv\<lparr>ge_unmarshal := \<lambda>t. Some (VInt 7)\<rparr>"
  have arg: "parseUint32 ''10'' = Some 10" by (simp add: parseUint32_def ParseUint_def digit_of_def)
  have "checkECRange ec_pressure (VInt 7) = OK ()"
    by (subst checkECRange_int [of _ 7 _ 0 100]) (simp_all add: ec_pressure_def)
  then obtain s1 rsp1 where set: "handleSetEC demo_env ''10'' [1] ?s = OK (s1, rsp1)" "rsp_status rsp1 = 200"
    using arg by (simp add: handleSetEC_def demo_env_def set_vars_def DefineEC_def NewVariableStore_def SetEC_def
        ec_pressure_def res_simps writeData_def writeJSON_def)
  obtain s2 rsp2 where cmd: "handleCommand demo_env [] ?s = OK (s2, rsp2)"
    "rsp_body rsp2 = Some (JObject [(''success'', JBool True), (''data'',
       JObject [(''command'', JString ''START''), (''status'', JString ''OK''), (''code'', JInt 0)])])"
    by (simp add: handleCommand_def demo_env_def demo_server_def NewServerWithAuth_def NewHandler_def set_vars_def
        json_params_def Execute_def HasCommand_def CommandStatus_String_def res_simps Let_def map_filter_simps
        writeData_def writeJSON_def)
  have "env_json_value demo_env [1] = Some (VInt 7)" "ge_unmarshal ?g ''7'' = Some (VInt 7)"
    "env_json_command demo_env [] = Some (''START'', map (\<lambda>(k, t). (k, VString t)) [])"
    "env_ord_params demo_env = ge_ord_params ?g" "''START'' \<noteq> []"
    by (simp_all add: demo_env_def demo_genv_def)
  from grpc_mirrors_rest [OF arg this(1,2) set(1) this(3,4,5) cmd(1)] set(2) cmd(2) show ?thesis
    by auto
qed

end
