(* ===== verification/Mqtt_Bridge.thy ===== *)
theory Mqtt_Bridge
  imports Grpc_Api
begin

text \<open>
  The MQTT bridge (\<^verbatim>\<open>pkg/bridge/mqtt/bridge.go\<close>): topics, payloads and the callbacks that publish the
  reports of the GEM handler. The MQTT client is third-party code: whether it is connected and whether a
  publication succeeds are arguments, and so are the JSON texts; what is handed to the client is
  recorded. The lemmas show that topics tell the sources apart and that a report reaches the bridge and
  the gRPC streams together.
\<close>

record MqttConfig =
  mq_BrokerURL :: string
  mq_ClientID :: string
  mq_TopicPrefix :: string
  mq_QoS :: byte
  mq_Username :: string
  mq_Password :: string
  mq_TLSConfig :: bool
  mq_KeepAlive :: int
  mq_AutoReconnect :: bool
  mq_CleanSession :: bool

definition mqtt_DefaultConfig :: "string \<Rightarrow> string \<Rightarrow> MqttConfig" where
  "mqtt_DefaultConfig brokerURL topicPrefix =
     \<lparr>mq_BrokerURL = brokerURL, mq_ClientID = ''go-factory-io'', mq_TopicPrefix = topicPrefix, mq_QoS = 1,
      mq_Username = [], mq_Password = [], mq_TLSConfig = False, mq_KeepAlive = 30 * second, mq_AutoReconnect = True,
      mq_CleanSession = True\<rparr>"

text \<open>What the client was given: the options of a connection and the published messages with topic,
  quality of service, retained flag and payload.\<close>

record ClientOptions =
  co_Broker :: string
  co_ClientID :: string
  co_KeepAlive :: int
  co_AutoReconnect :: bool
  co_CleanSession :: bool
  co_credentials :: "(string \<times> string) option"
  co_TLS :: bool

record Bridge =
  br_config :: MqttConfig
  br_client :: "ClientOptions option"
  br_published :: "(string \<times> byte \<times> bool \<times> string) list"

definition NewBridge :: "MqttConfig \<Rightarrow> Bridge" where
  "NewBridge cfg =
     \<lparr>br_config = (if mq_KeepAlive cfg = 0 then cfg\<lparr>mq_KeepAlive := 30 * second\<rparr> else cfg), br_client = None, br_published = []\<rparr>"

definition bridge_Connect :: "bool \<Rightarrow> Bridge \<Rightarrow> Bridge \<times> bool" where
  "bridge_Connect connect_ok b =
     (let cfg = br_config b;
          opts = \<lparr>co_Broker = mq_BrokerURL cfg, co_ClientID = mq_ClientID cfg, co_KeepAlive = mq_KeepAlive cfg,
            co_AutoReconnect = mq_AutoReconnect cfg, co_CleanSession = mq_CleanSession cfg,
            co_credentials = (if mq_Username cfg \<noteq> [] then Some (mq_Username cfg, mq_Password cfg) else None),
            co_TLS = mq_TLSConfig cfg\<rparr>
      in (b\<lparr>br_client := Some opts\<rparr>, connect_ok))"

text \<open>The client at the time of a publication, and the encoder.\<close>

record mqtt_link =
  ml_connected :: bool
  ml_publish_ok :: bool
  ml_marshal :: "EventPayload \<Rightarrow> string option"

datatype mqtt_error = NotConnected | MarshalFailed | PublishFailed

definition publish :: "mqtt_link \<Rightarrow> string \<Rightarrow> EventPayload \<Rightarrow> Bridge \<Rightarrow> Bridge \<times> (mqtt_error, unit) res" where
  "publish ln topic msg b =
     (if br_client b = None \<or> \<not> ml_connected ln then (b, Err NotConnected)
      else case ml_marshal ln msg of
             None \<Rightarrow> (b, Err MarshalFailed)
           | Some data \<Rightarrow>
               (b\<lparr>br_published := br_published b @ [(topic, mq_QoS (br_config b), False, data)]\<rparr>,
                if ml_publish_ok ln then OK () else Err PublishFailed))"

definition event_topic :: "string \<Rightarrow> uint32 \<Rightarrow> string" where
  "event_topic pre ceid = pre @ ''/event/'' @ decimal (unat ceid)"

definition alarm_topic :: "string \<Rightarrow> uint32 \<Rightarrow> string" where
  "alarm_topic pre alid = pre @ ''/alarm/'' @ decimal (unat alid)"

definition sv_topic :: "string \<Rightarrow> uint32 \<Rightarrow> string" where
  "sv_topic pre svid = pre @ ''/sv/'' @ decimal (unat svid)"

definition status_topic :: "string \<Rightarrow> string" where
  "status_topic pre = pre @ ''/status''"

definition PublishStatus :: "mqtt_link \<Rightarrow> string \<Rightarrow> jsonv \<Rightarrow> Bridge \<Rightarrow> Bridge \<times> (mqtt_error, unit) res" where
  "PublishStatus ln now data b =
     publish ln (status_topic (mq_TopicPrefix (br_config b)))
       \<lparr>ep_Type = ''status'', ep_Timestamp = now, ep_Data = data\<rparr> b"

definition PublishSV :: "mqtt_link \<Rightarrow> string \<Rightarrow> uint32 \<Rightarrow> goval \<Rightarrow> Bridge \<Rightarrow> Bridge \<times> (mqtt_error, unit) res" where
  "PublishSV ln now svid v b =
     publish ln (sv_topic (mq_TopicPrefix (br_config b)) svid)
       \<lparr>ep_Type = ''status_variable'', ep_Timestamp = now,
        ep_Data = JObject [(''svid'', JInt (uint svid)), (''value'', JValue v)]\<rparr> b"

text \<open>The callbacks; the bridge lives in the world at the place \<open>upd\<close> updates, \<open>lnk\<close> reads the client and
  \<open>clock\<close> the formatted time. An error of \<open>publish\<close> is dropped.\<close>

definition AttachToHandler ::
  "('w \<Rightarrow> mqtt_link) \<Rightarrow> ('w \<Rightarrow> string) \<Rightarrow> ((Bridge \<Rightarrow> Bridge) \<Rightarrow> 'w \<Rightarrow> 'w) \<Rightarrow> 'w hooked \<Rightarrow> 'w hooked" where
  "AttachToHandler lnk clock upd hk =
     OnAlarmSent (\<lambda>alid is_set alarm w. upd (\<lambda>b. fst (publish (lnk w) (alarm_topic (mq_TopicPrefix (br_config b)) alid)
         \<lparr>ep_Type = ''alarm'', ep_Timestamp = clock w, ep_Data = alarm_data alid is_set alarm\<rparr> b)) w)
       (OnEventSent (\<lambda>dataID ceid w. upd (\<lambda>b. fst (publish (lnk w) (event_topic (mq_TopicPrefix (br_config b)) ceid)
         \<lparr>ep_Type = ''collection_event'', ep_Timestamp = clock w, ep_Data = event_data dataID ceid\<rparr> b)) w) hk)"

definition bridge_Close :: "bool \<Rightarrow> Bridge \<Rightarrow> bool" where
  "bridge_Close connected b \<longleftrightarrow> br_client b \<noteq> None \<and> connected"

section \<open>Topics\<close>

lemma decimal_inj: "decimal m = decimal n \<longleftrightarrow> m = n"
  by (metis digits_value_decimal option.inject)

text \<open>
  Topics. Under one prefix, the topics of two events, alarms or status variables are equal only for the
  same identifier, and topics of different kinds, the status topic included, are never equal, so a
  subscriber knows from the topic what it receives.
\<close>

theorem topics_distinct:
  "(event_topic pre a = event_topic pre b \<longleftrightarrow> a = b) \<and> (alarm_topic pre a = alarm_topic pre b \<longleftrightarrow> a = b) \<and>
   (sv_topic pre a = sv_topic pre b \<longleftrightarrow> a = b) \<and>
   distinct [event_topic pre a, alarm_topic pre b, sv_topic pre c, status_topic pre]"
  by (simp add: event_topic_def alarm_topic_def sv_topic_def status_topic_def decimal_inj word_unat_eq_iff)

section \<open>Reports at the edges\<close>

text \<open>The world of the simulator's integrations, and the handler as the command line sets it up: first the
  bridge, then the gRPC server.\<close>

record plant =
  pl_grpc :: GrpcServer
  pl_bridge :: Bridge
  pl_link :: mqtt_link
  pl_clock :: string

definition integrations :: "Handler \<Rightarrow> plant hooked" where
  "integrations h = grpc_register pl_clock pl_grpc_update (AttachToHandler pl_link pl_clock pl_bridge_update (plain h))"

text \<open>An event on one topic: every stream with room gets it, and it is published once if the client
  is connected and the event can be encoded.\<close>

definition fan_out :: "string \<Rightarrow> EventPayload \<Rightarrow> plant \<Rightarrow> plant" where
  "fan_out topic ev w =
     w\<lparr>pl_grpc := (pl_grpc w)\<lparr>gs_streams := map_vals (\<lambda>q. if length q < 256 then q @ [ev] else q) (gs_streams (pl_grpc w))\<rparr>,
       pl_bridge := (pl_bridge w)\<lparr>br_published := br_published (pl_bridge w) @
         (if br_client (pl_bridge w) \<noteq> None \<and> ml_connected (pl_link w)
          then (case ml_marshal (pl_link w) ev of
                  None \<Rightarrow> []
                | Some data \<Rightarrow> [(topic, mq_QoS (br_config (pl_bridge w)), False, data)])
          else [])\<rparr>\<rparr>"

lemma fan_out_callbacks:
  "pl_grpc_update (broadcastEvent (pl_clock w) ty d)
     (pl_bridge_update (\<lambda>b. fst (publish (pl_link w) (topic (mq_TopicPrefix (br_config b)))
        \<lparr>ep_Type = ty, ep_Timestamp = pl_clock w, ep_Data = d\<rparr> b)) w) =
   fan_out (topic (mq_TopicPrefix (br_config (pl_bridge w)))) \<lparr>ep_Type = ty, ep_Timestamp = pl_clock w, ep_Data = d\<rparr> w"
  by (auto simp: fan_out_def publish_def broadcastEvent_def grpc_cap_def Let_def split: option.splits)

lemma integrations_callbacks:
  "hk_handler (integrations h) = h"
  "fold (\<lambda>cb. cb d c) (hk_eventCallbacks (integrations h)) w =
     fan_out (event_topic (mq_TopicPrefix (br_config (pl_bridge w))) c)
       \<lparr>ep_Type = ''collection_event'', ep_Timestamp = pl_clock w, ep_Data = event_data d c\<rparr> w"
  "fold (\<lambda>cb. cb k b alarm) (hk_alarmCallbacks (integrations h)) w =
     fan_out (alarm_topic (mq_TopicPrefix (br_config (pl_bridge w))) k)
       \<lparr>ep_Type = ''alarm'', ep_Timestamp = pl_clock w, ep_Data = alarm_data k b alarm\<rparr> w"
  using fan_out_callbacks [where topic = "\<lambda>p. event_topic p c"] fan_out_callbacks [where topic = "\<lambda>p. alarm_topic p k"]
  by (simp_all add: integrations_def grpc_register_def AttachToHandler_def OnEventSent_def OnAlarmSent_def plain_def)

text \<open>C18. Reports reach the edges. A collection event or alarm whose report went out and was accepted by the session is
  delivered exactly once to every gRPC stream that has room and exactly once to the broker while it is connected, on
  the topic of its event or alarm; a disabled one, or one whose report failed, is delivered to neither.
\<close>

theorem reports_reach_the_edges:
  assumes "hk_SendEvent ok d c (integrations h) w = ((hk1, w1), r1)"
    and "hk_SendAlarm ok k b (integrations h) w = ((hk2, w2), r2)"
  shows "w1 = (if reported h (hk_handler hk1) \<and> ok
               then fan_out (event_topic (mq_TopicPrefix (br_config (pl_bridge w))) c)
                      \<lparr>ep_Type = ''collection_event'', ep_Timestamp = pl_clock w, ep_Data = event_data d c\<rparr> w
               else w) \<and>
         (if reported h (hk_handler hk2) \<and> ok
          then \<exists>alarm. GetAlarm (h_alarms (hk_handler hk2)) k = Some alarm \<and>
                 w2 = fan_out (alarm_topic (mq_TopicPrefix (br_config (pl_bridge w))) k)
                      \<lparr>ep_Type = ''alarm'', ep_Timestamp = pl_clock w, ep_Data = alarm_data k b alarm\<rparr> w
          else w2 = w)"
  using hk_SendEvent_world(1) [OF assms(1)] hk_SendAlarm_world(1) [OF assms(2)]
  by (simp add: integrations_callbacks cong: if_cong)

definition demo_plant :: plant where
  "demo_plant = \<lparr>pl_grpc = StreamEvents_begin 3 (grpc_NewServer []),
     pl_bridge = fst (bridge_Connect True (NewBridge (mqtt_DefaultConfig ''tcp://b'' ''f''))),
     pl_link = \<lparr>ml_connected = True, ml_publish_ok = True, ml_marshal = (\<lambda>e. Some (ep_Type e))\<rparr>, pl_clock = ''t''\<rparr>"

theorem reports_reach_the_edges_witness:
  "\<exists>hk1 w1 r1. hk_SendEvent True 3 1 (integrations event_handler) demo_plant = ((hk1, w1), r1) \<and>
     map (map ep_Type \<circ> snd) (gs_streams (pl_grpc w1)) = [[''collection_event'']] \<and>
     br_published (pl_bridge w1) = [(''f/event/1'', 1, False, ''collection_event'')]"
proof -
  obtain hk1 w1 r1 where run: "hk_SendEvent True 3 1 (integrations event_handler) demo_plant = ((hk1, w1), r1)"
    by (metis prod.collapse)
  obtain hk2 w2 r2 where al: "hk_SendAlarm True 3 True (integrations event_handler) demo_plant = ((hk2, w2), r2)"
    by (metis prod.collapse)
  have rv: "GetEventReportVIDs 1 (h_events event_handler) = OK [(5, [100])]"
    by (simp add: event_handler_def GetEventReportVIDs_def map_filter_simps)
  have v: "sv_value event_handler 100 = VUint32 7"
    using demo_handler_simps(3) by (simp add: event_handler_def sv_value_def)
  have "wf_item (event_report 3 1 [(5, [100])] event_handler)"
    by (simp add: event_report_def v u4_def [symmetric] NewList_def ptr_val_def max_len_def)
  then obtain data where enc: "Encode (Some (event_report 3 1 [(5, [100])] event_handler)) = OK data"
    using Encode_wf by blast
  have "IsEventEnabled 1 (h_events event_handler)" by (simp add: event_handler_def IsEventEnabled_def)
  then have "reported event_handler (hk_handler hk1)"
    using hk_SendEvent_world(2) [OF run] rv enc
    by (simp add: SendEvent_def send_primary_def Let_def reported_def integrations_callbacks(1))
  with reports_reach_the_edges [OF run al] run show ?thesis
    by (simp add: demo_plant_def fan_out_def StreamEvents_begin_def grpc_NewServer_def map_vals_def bridge_Connect_def
        NewBridge_def mqtt_DefaultConfig_def event_topic_def decimal.simps Let_def char_of_def bit_iff_odd)
qed

end
