(* ===== verification/Equipment_Sim.thy ===== *)
theory Equipment_Sim
  imports Gem_Wire Hsms_Session Go_Arith
begin

text \<open>
  The equipment simulator (\<^verbatim>\<open>examples/simulator/simulator.go\<close>): a GEM handler with registered variables
  and events, a loop that hands received messages to it and a loop that counts wafers and reports them.
  The two loops run side by side: a run is a sequence of received messages and ticks in any order. The
  samples of the random generator and the clock that the dynamic variables read are arguments. The lemmas
  show that a simulator without write access keeps its configuration and its constants and runs no
  command under any traffic, and that its reports are numbered and counted without a gap.
\<close>

section \<open>Construction\<close>

record EquipmentConfig =
  ListenAddress :: string
  eq_SessionID :: uint16
  ModelName :: string
  SoftwareRevision :: string
  EventInterval :: int
  AllowWrites :: bool

definition DefaultEquipmentConfig :: EquipmentConfig where
  "DefaultEquipmentConfig = \<lparr>ListenAddress = '':5000'', eq_SessionID = 1, ModelName = ''SIM-EQUIP-01'',
     SoftwareRevision = ''1.0.0'', EventInterval = 5 * second, AllowWrites = False\<rparr>"

text \<open>What the dynamic variables read: two samples in [0, 1) and the seconds of the clock.\<close>

record readings =
  rd_temperature :: float64
  rd_pressure :: float64
  rd_unix :: int

definition registerVariables :: "readings \<Rightarrow> VariableStore \<Rightarrow> VariableStore" where
  "registerVariables rd vars =
     (let ec = (\<lambda>i name v units. \<lparr>ECID = i, ec_Name = name, ec_Value = v, MinValue = VNil, MaxValue = VNil, ec_Units = units\<rparr>);
          vars = DefineEC (ec 1 ''ProcessTemperature'' (VFloat64 (f64_of_int 350)) ''C'') vars;
          vars = DefineEC (ec 2 ''ProcessPressure'' (VFloat64 (f64_of_int 760)) ''Torr'') vars;
          vars = DefineEC (ec 3 ''ProcessTime'' (VUint32 120) ''sec'') vars;
          vars = DefineSV \<lparr>SVID = 1001, sv_Name = ''WaferCount'', sv_Value = VUint32 0, sv_Units = ''pcs'', sv_update = None\<rparr> vars;
          vars = DefineSVDynamic 1002 ''Temperature'' ''C''
                   (\<lambda>_. VFloat64 (f64_add (f64_of_int 348) (f64_mul (rd_temperature rd) (f64_of_int 4)))) vars;
          vars = DefineSVDynamic 1003 ''Pressure'' ''Torr''
                   (\<lambda>_. VFloat64 (f64_add (f64_of_int 758) (f64_mul (rd_pressure rd) (f64_of_int 4)))) vars;
          vars = DefineSV \<lparr>SVID = 1004, sv_Name = ''ProcessState'', sv_Value = VString ''IDLE'', sv_Units = [], sv_update = None\<rparr> vars
      in DefineSVDynamic 1005 ''Uptime'' ''sec'' (\<lambda>_. VUint32 (word_of_int (rd_unix rd mod 86400))) vars)"

definition registerEvents :: "EventManager \<Rightarrow> EventManager" where
  "registerEvents em =
     (let em = DefineEvent 400 ''AlarmCleared'' (DefineEvent 300 ''AlarmSet''
                 (DefineEvent 200 ''LotComplete'' (DefineEvent 100 ''ProcessComplete'' em)));
          em = DefineReport 2 [1001] (DefineReport 1 [1001, 1002, 1003, 1004] em);
          em = ok_or em (LinkEventReport 100 [1] em)
      in ok_or em (LinkEventReport 200 [2] em))"

text \<open>The loops keep the handler and the counters of the event loop.\<close>

record Equipment =
  eq_session :: Session
  eq_handler :: Handler
  eq_config :: EquipmentConfig
  eq_dataID :: uint32
  eq_waferCount :: uint32

definition NewEquipment :: "readings \<Rightarrow> EquipmentConfig \<Rightarrow> Equipment" where
  "NewEquipment rd cfg =
     (let session = NewSession ((DefaultConfig RolePassive (eq_SessionID cfg))\<lparr>cfg_LinktestInterval := 0\<rparr>);
          h = NewHandler (eq_SessionID cfg) (ModelName cfg) (SoftwareRevision cfg);
          h = (if AllowWrites cfg then SetPolicy FullAccessPolicy h else h)
      in \<lparr>eq_session = session,
          eq_handler = h\<lparr>h_vars := registerVariables rd (h_vars h), h_events := registerEvents (h_events h)\<rparr>,
          eq_config = cfg, eq_dataID = 0, eq_waferCount = 0\<rparr>)"

section \<open>The loops\<close>

text \<open>One round of \<^verbatim>\<open>messageLoop\<close>: an error of the handler is only logged.\<close>

definition on_message :: "(uint32 list \<Rightarrow> uint32 list) \<Rightarrow> bool \<Rightarrow> Message \<Rightarrow> Equipment \<Rightarrow> Equipment" where
  "on_message ord send_ok msg eq = eq\<lparr>eq_handler := fst (HandleMessage ord send_ok msg (eq_handler eq))\<rparr>"

text \<open>One tick of \<^verbatim>\<open>eventLoop\<close>; \<^verbatim>\<open>SetSV\<close>'s error is ignored. No other code of the simulator writes the wafer
  count, so a tick is one step.\<close>

definition on_tick :: "bool \<Rightarrow> Equipment \<Rightarrow> Equipment" where
  "on_tick send_ok eq =
     (if \<not> IsCommunicating (h_state (eq_handler eq)) then eq
      else
        let waferCount = eq_waferCount eq + 1; h = eq_handler eq;
            h = h\<lparr>h_vars := ok_or (h_vars h) (SetSV 1001 (VUint32 waferCount) (h_vars h))\<rparr>;
            dataID = eq_dataID eq + 1
        in eq\<lparr>eq_handler := fst (SendEvent send_ok dataID 100 h), eq_dataID := dataID, eq_waferCount := waferCount\<rparr>)"

datatype eq_op = Received bool Message | Tick bool

fun eq_step :: "(uint32 list \<Rightarrow> uint32 list) \<Rightarrow> eq_op \<Rightarrow> Equipment \<Rightarrow> Equipment" where
  "eq_step ord (Received send_ok msg) eq = on_message ord send_ok msg eq"
| "eq_step ord (Tick send_ok) eq = on_tick send_ok eq"

definition eq_run :: "(uint32 list \<Rightarrow> uint32 list) \<Rightarrow> eq_op list \<Rightarrow> Equipment \<Rightarrow> Equipment" where
  "eq_run ord ops eq = fold (eq_step ord) ops eq"

section \<open>What the monitor policy leaves\<close>

definition replies :: "Message list \<Rightarrow> bool" where
  "replies ms \<longleftrightarrow> list_all (\<lambda>m. \<not> WBit (MHeader m)) ms"

lemma sendReply_replies:
  "\<exists>out. fst (sendReply ok req s f body h) = h\<lparr>h_outbox := h_outbox h @ out\<rparr> \<and> replies out"
proof (cases "case body of None \<Rightarrow> OK [] | Some _ \<Rightarrow> Encode body")
  case (OK data)
  then show ?thesis by (auto simp: sendReply_def replies_def NewDataMessage_def)
qed (auto simp: sendReply_def replies_def intro: exI [of _ "[]"])

text \<open>A message under the monitor policy touches the communication state, the audit trail and the
  outbox, to which it adds replies.\<close>

definition monitored :: "Handler \<Rightarrow> Handler \<Rightarrow> bool" where
  "monitored h h' \<longleftrightarrow>
     (\<exists>sm d out. h' = h\<lparr>h_state := sm, h_denied := d, h_outbox := h_outbox h @ out\<rparr> \<and>
        sm_controlState sm = sm_controlState (h_state h) \<and> replies out)"

lemma monitoredI:
  "h' = h\<lparr>h_state := sm, h_denied := d, h_outbox := h_outbox h @ out\<rparr> \<Longrightarrow>
     sm_controlState sm = sm_controlState (h_state h) \<Longrightarrow> replies out \<Longrightarrow> monitored h h'"
  by (auto simp: monitored_def)

lemma monitored_refl: "monitored h h"
  by (rule monitoredI [where sm = "h_state h" and d = "h_denied h" and out = "[]"]) (simp_all add: replies_def)

lemma monitored_reply:
  assumes "sm_controlState sm = sm_controlState (h_state h)"
  shows "monitored h (fst (sendReply ok req s f body (h\<lparr>h_state := sm, h_denied := d\<rparr>)))"
  using sendReply_replies [of ok req s f body "h\<lparr>h_state := sm, h_denied := d\<rparr>"] assms
  by (auto intro: monitoredI)

lemma monitor_builtin:
  assumes "IsAllowed MonitorPolicy s f" and "builtin ord s f data h = Some (OK (h', it))"
  shows "\<exists>sm. h' = h\<lparr>h_state := sm\<rparr> \<and> sm_controlState sm = sm_controlState (h_state h)"
proof -
  have "(s, f) \<notin> set writeMessages"
    using assms(1) by (auto simp: MonitorPolicy_def IsAllowed_iff writeMessages_def)
  moreover from assms(2) have "h' = h \<or> h' = fst (handleS1F13 h) \<or> (s, f) \<in> set writeMessages"
    by (cases rule: builtin_cases) (auto simp: writeMessages_def)
  ultimately consider "h' = h" | "h' = fst (handleS1F13 h)" by blast
  then show ?thesis
  proof cases
    case 1
    then show ?thesis by (intro exI [of _ "h_state h"]) simp
  next
    case 2
    have "\<exists>sm. h = h\<lparr>h_state := sm\<rparr> \<and> sm_controlState sm = sm_controlState (h_state h)"
      by (intro exI [of _ "h_state h"]) simp
    with 2 show ?thesis
      by (auto simp: handleS1F13_def Let_def ok_or_def EnableComm_def CommEstablished_def split: if_splits res.splits)
  qed
qed

lemma monitor_message:
  assumes "h_policy h = MonitorPolicy" and "h_customHandlers h = []"
  shows "monitored h (fst (HandleMessage ord ok msg h))"
proof -
  let ?s = "Stream (MHeader msg)" and ?f = "Function (MHeader msg)"
  have den: "monitored h (h\<lparr>h_denied := d\<rparr>)" for d
    by (rule monitoredI [where sm = "h_state h" and d = d and out = "[]"]) (simp_all add: replies_def)
  have same: "h = h\<lparr>h_state := h_state h, h_denied := h_denied h\<rparr>" by simp
  have rep: "monitored h (fst (sendReply ok msg a b body (h\<lparr>h_denied := d\<rparr>)))" for a b body d
    using monitored_reply [of "h_state h" h ok msg a b body d] by simp
  have rep0: "monitored h (fst (sendReply ok msg a b body h))" for a b body
    using rep [of a b body "h_denied h"] by simp
  have built: "monitored h h' \<and> monitored h (fst (sendReply ok msg a b body h'))"
    if "IsAllowed MonitorPolicy ?s ?f" "builtin ord ?s ?f (MData msg) h = Some (OK (h', it))" for h' it a b body
  proof -
    from monitor_builtin [OF that] obtain sm where "h' = h\<lparr>h_state := sm\<rparr>"
      "sm_controlState sm = sm_controlState (h_state h)" by blast
    then show ?thesis
      using monitored_reply [of sm h ok msg a b body "h_denied h"]
      by (auto intro: monitoredI [where sm = sm and d = "h_denied h" and out = "[]"] simp: replies_def)
  qed
  show ?thesis
    using den rep rep0 built monitored_refl assms
    by (auto simp: HandleMessage_def Let_def split: option.splits res.splits)
qed

section \<open>Runs of a simulator without write access\<close>

text \<open>The variables after \<open>w\<close> wafers, and the report of the event loop.\<close>

definition counted :: "uint32 \<Rightarrow> VariableStore \<Rightarrow> VariableStore" where
  "counted w vars = vars\<lparr>vs_svs := map_vals (\<lambda>sv. if SVID sv = 1001 then sv\<lparr>sv_Value := VUint32 w\<rparr> else sv) (vs_svs vars)\<rparr>"

definition process_report :: "readings \<Rightarrow> uint32 \<Rightarrow> Item" where
  "process_report rd k =
     NewList [Some (u4 k), Some (u4 100), Some (NewList [Some (NewList [Some (u4 1),
       Some (NewList [Some (u4 k),
         Some (NewF8 [f64_add (f64_of_int 348) (f64_mul (rd_temperature rd) (f64_of_int 4))]),
         Some (NewF8 [f64_add (f64_of_int 758) (f64_mul (rd_pressure rd) (f64_of_int 4))]),
         Some (NewASCII ''IDLE'')])])])]"

definition primaries :: "Handler \<Rightarrow> Message list" where
  "primaries h = filter (\<lambda>m. WBit (MHeader m)) (h_outbox h)"

lemma process_report_wf: "wf_item (process_report rd k)"
  by (simp add: process_report_def NewList_def NewF8_def NewASCII_def ptr_val_def max_len_def numeric_formats_def
      format_defs itemSize_def)

lemma registered_vars:
  "counted w (registerVariables rd NewVariableStore) =
     ok_or (counted v (registerVariables rd NewVariableStore))
       (SetSV 1001 (VUint32 w) (counted v (registerVariables rd NewVariableStore)))"
  by (simp add: counted_def registerVariables_def DefineEC_def DefineSV_def DefineSVDynamic_def NewVariableStore_def Let_def
      SetSV_def ok_or_def map_vals_def)

lemma process_report_sent:
  assumes "h_vars h = counted k (registerVariables rd NewVariableStore)" and "h_events h = registerEvents NewEventManager"
  shows "fst (SendEvent ok k 100 h) =
     h\<lparr>h_outbox := h_outbox h @ [NewDataMessage (h_sessionID h) 6 11 True 0 (item_bytes (process_report rd k))],
       h_eventsSent := h_eventsSent h @ (if ok then [(k, 100)] else [])\<rparr>"
proof -
  have en: "IsEventEnabled 100 (h_events h)" and vids: "GetEventReportVIDs 100 (h_events h) = OK [(1, [1001, 1002, 1003, 1004])]"
    by (simp_all add: assms(2) registerEvents_def DefineEvent_def DefineReport_def LinkEventReport_def NewEventManager_def
        IsEventEnabled_def GetEventReportVIDs_def ok_or_def Let_def map_filter_simps)
  have "event_report k 100 [(1, [1001, 1002, 1003, 1004])] h = process_report rd k"
    by (simp add: event_report_def process_report_def sv_value_def assms(1) counted_def registerVariables_def DefineEC_def
        DefineSV_def DefineSVDynamic_def NewVariableStore_def Let_def GetSV_def u4_def)
  then show ?thesis
    using en vids Encode_wf [OF process_report_wf [of rd k]]
    by (cases h) (simp add: SendEvent_def send_primary_def Let_def)
qed

lemma monitored_frame:
  assumes "monitored h h'"
  shows "h_vars h' = h_vars h" "h_events h' = h_events h" "h_alarms h' = h_alarms h" "h_executed h' = h_executed h"
    "h_policy h' = h_policy h" "h_customHandlers h' = h_customHandlers h" "h_sessionID h' = h_sessionID h"
    "sm_controlState (h_state h') = sm_controlState (h_state h)" "primaries h' = primaries h"
  using assms by (auto simp: monitored_def primaries_def replies_def list_all_iff filter_empty_conv)

definition read_only_config :: "readings \<Rightarrow> Equipment \<Rightarrow> bool" where
  "read_only_config rd eq \<longleftrightarrow> (case eq_handler eq of h \<Rightarrow>
     h_policy h = MonitorPolicy \<and> h_customHandlers h = [] \<and> h_events h = registerEvents NewEventManager \<and>
     h_alarms h = NewAlarmManager \<and> h_executed h = [] \<and> sm_controlState (h_state h) = sm_controlState NewStateMachine)"

text \<open>The state after \<open>n\<close> reports.\<close>

definition reported_upto :: "readings \<Rightarrow> nat \<Rightarrow> Equipment \<Rightarrow> bool" where
  "reported_upto rd n eq \<longleftrightarrow> (case eq_handler eq of h \<Rightarrow>
     h_vars h = counted (of_nat n) (registerVariables rd NewVariableStore) \<and>
     eq_dataID eq = of_nat n \<and> eq_waferCount eq = of_nat n \<and>
     primaries h = map (\<lambda>k. NewDataMessage (h_sessionID h) 6 11 True 0 (item_bytes (process_report rd (of_nat k)))) [1..<Suc n])"

lemma sim_start:
  assumes "\<not> AllowWrites cfg"
  shows "read_only_config rd (NewEquipment rd cfg) \<and> reported_upto rd 0 (NewEquipment rd cfg)"
proof -
  have "counted 0 (registerVariables rd NewVariableStore) = registerVariables rd NewVariableStore"
    by (simp add: counted_def registerVariables_def DefineEC_def DefineSV_def DefineSVDynamic_def NewVariableStore_def
        Let_def map_vals_def)
  then show ?thesis using assms
    by (simp add: read_only_config_def reported_upto_def NewEquipment_def NewHandler_def primaries_def Let_def)
qed

lemma sim_message:
  assumes "read_only_config rd eq" and "reported_upto rd n eq"
  shows "read_only_config rd (on_message ord ok msg eq) \<and> reported_upto rd n (on_message ord ok msg eq)"
  using assms monitored_frame [OF monitor_message [of "eq_handler eq" ord ok msg]]
  by (simp add: read_only_config_def reported_upto_def on_message_def)

lemma sim_tick:
  assumes "read_only_config rd eq" and "reported_upto rd n eq"
  shows "read_only_config rd (on_tick ok eq) \<and>
     reported_upto rd (if IsCommunicating (h_state (eq_handler eq)) then Suc n else n) (on_tick ok eq)"
proof (cases "IsCommunicating (h_state (eq_handler eq))")
  case False
  with assms show ?thesis by (simp add: on_tick_def)
next
  case True
  define h where "h = (eq_handler eq)\<lparr>h_vars := counted (of_nat (Suc n)) (registerVariables rd NewVariableStore)\<rparr>"
  have "of_nat n + 1 = (of_nat (Suc n) :: uint32)" by simp
  with True assms(2) have tick: "on_tick ok eq = eq\<lparr>eq_handler := fst (SendEvent ok (of_nat (Suc n)) 100 h),
      eq_dataID := of_nat (Suc n), eq_waferCount := of_nat (Suc n)\<rparr>"
    using registered_vars [of "of_nat (Suc n)" rd "of_nat n"]
    by (simp add: on_tick_def reported_upto_def h_def Let_def add.commute)
  have h: "h_vars h = counted (of_nat (Suc n)) (registerVariables rd NewVariableStore)"
    "h_events h = registerEvents NewEventManager"
    using assms(1) by (simp_all add: h_def read_only_config_def)
  define h' where "h' = fst (SendEvent ok (of_nat (Suc n)) 100 h)"
  obtain l where "h' = h\<lparr>h_outbox := h_outbox h @ [NewDataMessage (h_sessionID h) 6 11 True 0
      (item_bytes (process_report rd (of_nat (Suc n))))], h_eventsSent := l\<rparr>"
    unfolding h'_def process_report_sent [OF h] by blast
  then show ?thesis
    using True assms
    by (simp add: tick [folded h'_def] h_def read_only_config_def reported_upto_def primaries_def
        NewDataMessage_def del: of_nat_Suc)
qed

fun ticks :: "eq_op list \<Rightarrow> nat" where
  "ticks [] = 0"
| "ticks (Tick _ # ops) = Suc (ticks ops)"
| "ticks (Received _ _ # ops) = ticks ops"

lemma sim_run:
  assumes "read_only_config rd eq" and "reported_upto rd n eq"
  shows "\<exists>m. n \<le> m \<and> m \<le> n + ticks ops \<and> read_only_config rd (eq_run ord ops eq) \<and> reported_upto rd m (eq_run ord ops eq)"
  using assms
proof (induction ops arbitrary: eq n)
  case Nil
  then show ?case by (auto simp: eq_run_def)
next
  case (Cons op ops)
  let ?n = "case op of Received _ _ \<Rightarrow> n | Tick _ \<Rightarrow> if IsCommunicating (h_state (eq_handler eq)) then Suc n else n"
  have "read_only_config rd (eq_step ord op eq) \<and> reported_upto rd ?n (eq_step ord op eq)"
    using sim_message [OF Cons.prems] sim_tick [OF Cons.prems] by (cases op) auto
  with Cons.IH [of "eq_step ord op eq" ?n] obtain m where "?n \<le> m" "m \<le> ?n + ticks ops"
    "read_only_config rd (eq_run ord ops (eq_step ord op eq))" "reported_upto rd m (eq_run ord ops (eq_step ord op eq))"
    by blast
  moreover have "n \<le> ?n" "?n + ticks ops \<le> n + ticks (op # ops)" by (cases op; simp)+
  ultimately show ?case by (intro exI [of _ m]) (auto simp: eq_run_def)
qed



end
