(* ===== verification/Studio.thy ===== *)
theory Studio
  imports Sim_Host Equipment_Sim Validator_Report Validator_Timing Rest_Api
begin

text \<open>
  The studio server (\<^verbatim>\<open>pkg/studio/server.go\<close>): the WebSocket with its commands, the gate in front of the
  commands that drive equipment, the trace, and the HTTP endpoints. The host talks to equipment in a
  world \<open>'w\<close> through an exchange that is an argument, as in the model of the host. JSON decoding, the
  printing of items, the texts of errors and the decision of the WebSocket library about an origin are
  arguments; what is sent to clients is recorded. The lemmas show who can drive the equipment, and that
  the trace is complete and consistently numbered.
\<close>

section \<open>State\<close>

record StudioConfig =
  EquipmentAddr :: string
  sc_SessionID :: uint16
  sc_AllowedOrigins :: "string list"
  sc_Token :: string
  SimulatorDemo :: bool
  LoopbackOnly :: bool

record TraceEntry =
  te_ID :: uint64
  te_Timestamp :: int
  te_Direction :: SimDirection
  te_Stream :: byte
  te_Function :: byte
  te_WBit :: bool
  te_BodySML :: string
  te_Validation :: "ValidationResult list"

datatype ws_out = OutTrace TraceEntry | OutError string | OutScript ScriptResult | OutReport CoverageReport
  | OutStatus bool bool nat

text \<open>The server; \<open>sd_sent\<close> are the messages given to the sockets, each with its recipients.\<close>

record StudioServer =
  sd_config :: StudioConfig
  sd_schemas :: SchemaRegistry
  sd_host :: "Host option"
  sd_equip :: "Equipment option"
  sd_clients :: "nat list"
  sd_trace :: "TraceEntry list"
  sd_traceID :: uint64
  sd_sent :: "(nat list \<times> ws_out) list"

definition studio_NewServer :: "StudioConfig \<Rightarrow> StudioServer" where
  "studio_NewServer cfg =
     \<lparr>sd_config = cfg, sd_schemas = DefaultRegistry, sd_host = None, sd_equip = None, sd_clients = [], sd_trace = [],
      sd_traceID = 0, sd_sent = []\<rparr>"

record StudioRequest =
  sq_Method :: string
  sq_Authorization :: string
  sq_Origin :: string
  sq_token :: string

text \<open>What the outside contributes: the equipment behind the host, the standard library and the
  WebSocket library.\<close>

record 'w studio_env =
  sv_send :: "'w exchange"
  sv_raw :: "byte list \<Rightarrow> 'w \<Rightarrow> 'w"
  sv_conn :: "bool \<times> bool \<times> bool"
  sv_rand :: "nat \<Rightarrow> byte"
  sv_cancelled :: "nat \<Rightarrow> bool"
  sv_now :: int
  sv_item_text :: "Item \<Rightarrow> string"
  sv_error_text :: "sml_error \<Rightarrow> string"
  sv_json_send :: "byte list \<Rightarrow> (byte \<times> byte \<times> bool \<times> string) option"
  sv_json_name :: "byte list \<Rightarrow> string option"
  sv_json_type :: "byte list \<Rightarrow> string option"
  sv_json_index :: "byte list \<Rightarrow> int option"
  sv_accept :: "string list \<Rightarrow> StudioRequest \<Rightarrow> bool"
  sv_url_host :: "string \<Rightarrow> string option"
  sv_equal_fold :: "string \<Rightarrow> string \<Rightarrow> bool"
  sv_report_json :: "CoverageReport \<Rightarrow> jsonv"
  sv_entry_json :: "TraceEntry \<Rightarrow> jsonv"
  sv_report_orders :: "((byte \<times> byte) list \<Rightarrow> (byte \<times> byte) list) \<times> (string list \<Rightarrow> string list)"

section \<open>Credentials\<close>

definition tokenOK :: "StudioRequest \<Rightarrow> StudioServer \<Rightarrow> bool" where
  "tokenOK r s =
     (case BearerToken (sq_Authorization r) of
        Some presented \<Rightarrow> CompareToken (sc_Token (sd_config s)) presented
      | None \<Rightarrow> CompareToken (sc_Token (sd_config s)) (sq_token r))"

definition simulatorDemo :: "StudioServer \<Rightarrow> bool" where
  "simulatorDemo s \<longleftrightarrow> SimulatorDemo (sd_config s) \<and> EquipmentAddr (sd_config s) = []"

definition originPatterns :: "'w studio_env \<Rightarrow> string list \<Rightarrow> string list" where
  "originPatterns env origins =
     filter (\<lambda>h. h \<noteq> []) (map (\<lambda>o'. case sv_url_host env o' of Some h \<Rightarrow> if h \<noteq> [] then h else o' | None \<Rightarrow> o') origins)"

section \<open>The trace\<close>

definition broadcast :: "ws_out \<Rightarrow> StudioServer \<Rightarrow> StudioServer" where
  "broadcast m s = s\<lparr>sd_sent := sd_sent s @ [(sd_clients s, m)]\<rparr>"

definition sendTo :: "nat \<Rightarrow> ws_out \<Rightarrow> StudioServer \<Rightarrow> StudioServer" where
  "sendTo c m s = s\<lparr>sd_sent := sd_sent s @ [([c], m)]\<rparr>"

definition onMessage :: "'w studio_env \<Rightarrow> interception \<Rightarrow> StudioServer \<Rightarrow> StudioServer" where
  "onMessage env ic s =
     (let n = sd_traceID s + 1;
          entry = \<lparr>te_ID = n, te_Timestamp = sv_now env, te_Direction = ic_dir ic, te_Stream = ic_stream ic,
            te_Function = ic_function ic, te_WBit = False,
            te_BodySML = (case ic_body ic of None \<Rightarrow> [] | Some it \<Rightarrow> sv_item_text env it), te_Validation = ic_results ic\<rparr>
      in broadcast (OutTrace entry) (s\<lparr>sd_traceID := n, sd_trace := sd_trace s @ [entry]\<rparr>))"

text \<open>After an operation of the host: its interceptor was called for the new entries of its log.\<close>

definition host_did :: "'w studio_env \<Rightarrow> Host \<Rightarrow> Host \<Rightarrow> StudioServer \<Rightarrow> StudioServer" where
  "host_did env h h' s = fold (onMessage env) (drop (length (ho_log h)) (ho_log h')) (s\<lparr>sd_host := Some h'\<rparr>)"

section \<open>Commands\<close>

definition after_send ::
  "'w studio_env \<Rightarrow> Host \<Rightarrow> StudioServer \<Rightarrow> (Host \<times> 'w) \<times> (host_error, item_ptr) res \<Rightarrow> (unit, StudioServer \<times> 'w) res" where
  "after_send env h s res =
     (case res of (_, Panic) \<Rightarrow> Panic | ((h', w'), _) \<Rightarrow> OK (host_did env h h' s, w'))"

definition handleWSSend :: "'w studio_env \<Rightarrow> byte list \<Rightarrow> StudioServer \<Rightarrow> 'w \<Rightarrow> (unit, StudioServer \<times> 'w) res" where
  "handleWSSend env data s w =
     (case sv_json_send env data of
        None \<Rightarrow> OK (s, w)
      | Some (stream, function, wbit, body) \<Rightarrow>
          (case sd_host s of
             None \<Rightarrow> OK (broadcast (OutError ''host not connected'') s, w)
           | Some h \<Rightarrow>
               if body = [] then after_send env h s (SendRaw (sv_send env) stream function wbit None h w)
               else (case ParseSML body of
                       Panic \<Rightarrow> Panic
                     | Err e \<Rightarrow> OK (broadcast (OutError (''SML parse error: '' @ sv_error_text env e)) s, w)
                     | OK it \<Rightarrow> after_send env h s (SendRaw (sv_send env) stream function wbit (Some it) h w))))"

definition handleWSQuickSend :: "'w studio_env \<Rightarrow> byte list \<Rightarrow> StudioServer \<Rightarrow> 'w \<Rightarrow> (unit, StudioServer \<times> 'w) res" where
  "handleWSQuickSend env data s w =
     (case sv_json_name env data of
        None \<Rightarrow> OK (s, w)
      | Some name \<Rightarrow>
          (case sd_host s of
             None \<Rightarrow> OK (broadcast (OutError ''host not connected'') s, w)
           | Some h \<Rightarrow>
               if name = ''establish_comm'' then after_send env h s (EstablishComm (sv_send env) h w)
               else if name = ''are_you_there'' then after_send env h s (AreYouThere (sv_send env) h w)
               else if name = ''request_online'' then after_send env h s (RequestOnline (sv_send env) h w)
               else if name = ''request_offline'' then after_send env h s (RequestOffline (sv_send env) h w)
               else if name = ''rcmd_start'' then after_send env h s (SendRCMD (sv_send env) ''START'' [] h w)
               else OK (s, w)))"

definition handleWSFault :: "'w studio_env \<Rightarrow> byte list \<Rightarrow> StudioServer \<Rightarrow> 'w \<Rightarrow> StudioServer \<times> 'w" where
  "handleWSFault env data s w =
     (case (sv_json_type env data, sd_host s) of
        (Some fault, Some h) \<Rightarrow>
          (case sv_conn env of (conn, wr) \<Rightarrow>
           case Inject fault conn wr (sv_rand env) (ho_session h) of (session, bytes, r) \<Rightarrow>
             (s\<lparr>sd_host := Some (h\<lparr>ho_session := session\<rparr>)\<rparr>, if bytes = [] then w else sv_raw env bytes w))
      | _ \<Rightarrow> (s, w))"

definition handleWSRunScript :: "'w studio_env \<Rightarrow> byte list \<Rightarrow> StudioServer \<Rightarrow> 'w \<Rightarrow> (unit, StudioServer \<times> 'w) res" where
  "handleWSRunScript env data s w =
     (case (sv_json_index env data, sd_host s) of
        (Some i, Some h) \<Rightarrow>
          if i < 0 \<or> int (length BuiltinScenarios) \<le> i then OK (s, w)
          else bind_res (Run (sv_send env) (sv_cancelled env) (BuiltinScenarios ! nat i) h w)
                 (\<lambda>(result, h', w'). OK (broadcast (OutScript result) (host_did env h h' s), w'))
      | _ \<Rightarrow> OK (s, w))"

definition coverage_of :: "'w studio_env \<Rightarrow> StudioServer \<Rightarrow> CoverageReport" where
  "coverage_of env s = GenerateReport (fst (sv_report_orders env)) (snd (sv_report_orders env)) (sd_schemas s)"

definition handleWSReport :: "'w studio_env \<Rightarrow> nat \<Rightarrow> StudioServer \<Rightarrow> StudioServer" where
  "handleWSReport env c s = sendTo c (OutReport (coverage_of env s)) s"

definition sendStatus :: "nat \<Rightarrow> StudioServer \<Rightarrow> StudioServer" where
  "sendStatus c s = sendTo c (OutStatus (sd_host s \<noteq> None) (sd_equip s \<noteq> None) (length (sd_trace s))) s"

definition mutatingWSCommands :: "string list" where
  "mutatingWSCommands = [''send'', ''quick_send'', ''fault'', ''run_script'']"

definition IsMutatingWSCommand :: "string \<Rightarrow> bool" where
  "IsMutatingWSCommand cmd \<longleftrightarrow> cmd \<in> set mutatingWSCommands"

definition handleWSCommand ::
  "'w studio_env \<Rightarrow> nat \<Rightarrow> string \<Rightarrow> byte list \<Rightarrow> bool \<Rightarrow> StudioServer \<Rightarrow> 'w \<Rightarrow> (unit, StudioServer \<times> 'w) res" where
  "handleWSCommand env c ty data privileged s w =
     (if IsMutatingWSCommand ty \<and> \<not> privileged then
        OK (sendTo c (OutError (''command '' @ [CHR 0x27] @ ty @ [CHR 0x27] @
              '' requires the studio token; start with --studio-token or '' @ EnvStudioToken)) s, w)
      else if ty = ''send'' then handleWSSend env data s w
      else if ty = ''quick_send'' then handleWSQuickSend env data s w
      else if ty = ''fault'' then OK (handleWSFault env data s w)
      else if ty = ''run_script'' then handleWSRunScript env data s w
      else if ty = ''get_report'' then OK (handleWSReport env c s, w)
      else if ty = ''get_state'' then OK (sendStatus c s, w)
      else if ty = ''clear_trace'' then OK (s\<lparr>sd_trace := []\<rparr>, w)
      else OK (s, w))"

section \<open>The socket\<close>

text \<open>A socket: the request is checked, the library accepts it, and the messages are handled one by one
  until the read fails; \<open>None\<close> is a message that is no envelope.\<close>

definition ws_open :: "'w studio_env \<Rightarrow> StudioRequest \<Rightarrow> nat \<Rightarrow> StudioServer \<Rightarrow> (StudioServer \<times> bool) option" where
  "ws_open env r c s =
     (if sc_Token (sd_config s) \<noteq> [] \<and> \<not> tokenOK r s then None
      else if \<not> sv_accept env (originPatterns env (sc_AllowedOrigins (sd_config s))) r then None
      else
        let privileged = (sc_Token (sd_config s) \<noteq> [] \<or> LoopbackOnly (sd_config s) \<or> simulatorDemo s)
        in Some (sendStatus c (s\<lparr>sd_clients := sd_clients s @ [c]\<rparr>), privileged))"

fun ws_read ::
  "'w studio_env \<Rightarrow> nat \<Rightarrow> bool \<Rightarrow> (string \<times> byte list) option list \<Rightarrow> StudioServer \<times> 'w \<Rightarrow> (unit, StudioServer \<times> 'w) res" where
  "ws_read env c privileged [] (s, w) = OK (s, w)"
| "ws_read env c privileged (None # ms) (s, w) = ws_read env c privileged ms (s, w)"
| "ws_read env c privileged (Some (ty, data) # ms) (s, w) =
     bind_res (handleWSCommand env c ty data privileged s w) (ws_read env c privileged ms)"

definition ws_close :: "nat \<Rightarrow> StudioServer \<Rightarrow> StudioServer" where
  "ws_close c s = s\<lparr>sd_clients := filter (\<lambda>x. x \<noteq> c) (sd_clients s)\<rparr>"

definition handleWS ::
  "'w studio_env \<Rightarrow> StudioRequest \<Rightarrow> nat \<Rightarrow> (string \<times> byte list) option list \<Rightarrow> StudioServer \<Rightarrow> 'w \<Rightarrow>
     (unit, StudioServer \<times> 'w) res" where
  "handleWS env r c ms s w =
     (case ws_open env r c s of
        None \<Rightarrow> OK (s, w)
      | Some (s1, privileged) \<Rightarrow>
          bind_res (ws_read env c privileged ms (s1, w)) (\<lambda>(s2, w2). OK (ws_close c s2, w2)))"

section \<open>Equipment and host\<close>

definition StartEquipment :: "readings \<Rightarrow> bool \<Rightarrow> StudioServer \<Rightarrow> StudioServer \<times> bool" where
  "StartEquipment rd start_ok s =
     (s\<lparr>sd_equip := Some (NewEquipment rd \<lparr>ListenAddress = ''127.0.0.1:0'', eq_SessionID = sc_SessionID (sd_config s),
        ModelName = ''STUDIO-EQUIP'', SoftwareRevision = ''1.0.0'', EventInterval = 5000000000, AllowWrites = True\<rparr>)\<rparr>, start_ok)"

definition ConnectHost :: "bool \<Rightarrow> bool \<Rightarrow> ip \<Rightarrow> bool \<Rightarrow> StudioServer \<Rightarrow> StudioServer \<times> (hsms_error, unit) res" where
  "ConnectHost net_ok tls_ok peer w s =
     (case host_Connect net_ok tls_ok peer w (SetInterceptor (NewHost (sc_SessionID (sd_config s)))) of
        (h, r) \<Rightarrow> (s\<lparr>sd_host := Some h\<rparr>, r))"

definition StopAll :: "StudioServer \<Rightarrow> StudioServer" where
  "StopAll s = s\<lparr>sd_host := map_option host_Close (sd_host s),
     sd_equip := map_option (\<lambda>eq. eq\<lparr>eq_session := Close (eq_session eq)\<rparr>) (sd_equip s)\<rparr>"

section \<open>The HTTP endpoints\<close>

definition studio_cors ::
  "'w studio_env \<Rightarrow> (StudioRequest \<Rightarrow> StudioServer \<Rightarrow> Response) \<Rightarrow> StudioRequest \<Rightarrow> StudioServer \<Rightarrow> Response" where
  "studio_cors env nxt r s =
     (let allowed = OriginAllowed (sv_equal_fold env) (sc_AllowedOrigins (sd_config s)) (sq_Origin r);
          hs = (if allowed then [(''Access-Control-Allow-Origin'', sq_Origin r),
                  (''Access-Control-Allow-Methods'', ''GET, POST, OPTIONS''),
                  (''Access-Control-Allow-Headers'', ''Content-Type, Authorization''), (''Vary'', ''Origin'')] else [])
      in if sq_Method r = ''OPTIONS'' then \<lparr>rsp_status = (if allowed then 204 else 403), rsp_headers = hs, rsp_body = None\<rparr>
         else let rsp = nxt r s in rsp\<lparr>rsp_headers := hs @ rsp_headers rsp\<rparr>)"

definition studio_auth ::
  "(StudioRequest \<Rightarrow> StudioServer \<Rightarrow> Response) \<Rightarrow> StudioRequest \<Rightarrow> StudioServer \<Rightarrow> Response" where
  "studio_auth nxt r s =
     (if sc_Token (sd_config s) = [] then nxt r s
      else if \<not> tokenOK r s then writeError 401 ''invalid or missing token''
      else nxt r s)"

definition studio_health :: Response where
  "studio_health = writeJSON 200 (JObject [(''status'', JString ''ok''), (''service'', JString ''secsgem-studio''),
     (''version'', JString ''0.1.0'')])"

definition studio_status :: "StudioRequest \<Rightarrow> StudioServer \<Rightarrow> Response" where
  "studio_status r s =
     writeData (JObject [(''connected'', JBool (sd_host s \<noteq> None)), (''embedded'', JBool (sd_equip s \<noteq> None)),
       (''traceCount'', JInt (int (length (sd_trace s))))])"

definition studio_report :: "'w studio_env \<Rightarrow> StudioRequest \<Rightarrow> StudioServer \<Rightarrow> Response" where
  "studio_report env r s = writeData (sv_report_json env (coverage_of env s))"

definition studio_trace :: "'w studio_env \<Rightarrow> StudioRequest \<Rightarrow> StudioServer \<Rightarrow> Response" where
  "studio_trace env r s = writeData (JArray (map (sv_entry_json env) (sd_trace s)))"

text \<open>The paths of \<^verbatim>\<open>setupRoutes\<close> below \<^verbatim>\<open>/api\<close> and the health check; \<open>static\<close> serves the embedded files.\<close>

definition studio_serve ::
  "'w studio_env \<Rightarrow> (string \<Rightarrow> Response) \<Rightarrow> string \<Rightarrow> StudioRequest \<Rightarrow> StudioServer \<Rightarrow> Response" where
  "studio_serve env static path r s =
     (if path = ''/health'' then studio_health
      else if path = ''/api/status'' then studio_cors env (studio_auth studio_status) r s
      else if path = ''/api/report'' then studio_cors env (studio_auth (studio_report env)) r s
      else if path = ''/api/trace'' then studio_cors env (studio_auth (studio_trace env)) r s
      else static path)"

section \<open>Who can drive the equipment\<close>

lemma unprivileged_command:
  assumes "handleWSCommand env c ty data False s w = OK (s', w')"
  shows "w' = w \<and> sd_host s' = sd_host s"
proof (cases "IsMutatingWSCommand ty")
  case True
  with assms show ?thesis by (auto simp: handleWSCommand_def sendTo_def)
next
  case False
  with assms show ?thesis
    by (auto simp: handleWSCommand_def IsMutatingWSCommand_def mutatingWSCommands_def handleWSReport_def sendStatus_def
        sendTo_def split: if_split_asm)
qed

lemma unprivileged_socket:
  "ws_read env c False ms (s, w) = OK (s', w') \<Longrightarrow> w' = w \<and> sd_host s' = sd_host s"
proof (induction ms arbitrary: s w)
  case (Cons m ms)
  show ?case
  proof (cases m)
    case (Some p)
    then obtain ty data where m: "m = Some (ty, data)" by (cases p) auto
    with Cons.prems obtain s1 w1 where "handleWSCommand env c ty data False s w = OK (s1, w1)"
      "ws_read env c False ms (s1, w1) = OK (s', w')"
      by (auto simp: bind_res_eq_OK)
    with Cons.IH unprivileged_command show ?thesis by metis
  qed (use Cons in simp)
qed simp

lemma ws_open_effect:
  assumes "ws_open env r c s = Some (s1, p)"
  shows "sd_host s1 = sd_host s" and "sd_config s1 = sd_config s"
    and "p \<longleftrightarrow> sc_Token (sd_config s) \<noteq> [] \<or> LoopbackOnly (sd_config s) \<or> simulatorDemo s"
    and "sc_Token (sd_config s) \<noteq> [] \<Longrightarrow> tokenOK r s"
  using assms by (auto simp: ws_open_def Let_def sendStatus_def sendTo_def split: if_split_asm)

text \<open>C13. Who can drive the equipment through the studio. Whatever is sent over a socket, if it changes the
  equipment or the connection to it, then with a token configured the request carried that token, as
  its bearer credential or, without one, in the query; and without a token the server is bound to the loopback
  interface or is a demonstration without external equipment.
\<close>

theorem studio_control:
  assumes "handleWS env r c ms s w = OK (s', w')" and "w' \<noteq> w \<or> sd_host s' \<noteq> sd_host s"
  shows "if sc_Token (sd_config s) \<noteq> []
         then case BearerToken (sq_Authorization r) of
                Some t \<Rightarrow> t = sc_Token (sd_config s)
              | None \<Rightarrow> sq_token r = sc_Token (sd_config s)
         else LoopbackOnly (sd_config s) \<or> SimulatorDemo (sd_config s) \<and> EquipmentAddr (sd_config s) = []"
proof -
  obtain s1 p where op: "ws_open env r c s = Some (s1, p)"
    using assms by (auto simp: handleWS_def split: option.splits)
  with assms(1) obtain s2 where rd: "ws_read env c p ms (s1, w) = OK (s2, w')" "s' = ws_close c s2"
    by (auto simp: handleWS_def bind_res_eq_OK)
  have p
  proof (rule ccontr)
    assume "\<not> p"
    with rd(1) have "ws_read env c False ms (s1, w) = OK (s2, w')" by simp
    from unprivileged_socket [OF this] have "w' = w" "sd_host s2 = sd_host s1" by auto
    with assms(2) rd(2) ws_open_effect(1) [OF op] show False by (simp add: ws_close_def)
  qed
  with ws_open_effect(3,4) [OF op] show ?thesis
    by (auto simp: simulatorDemo_def tokenOK_def CompareToken_iff split: option.splits)
qed

definition demo_studio_env :: "nat studio_env" where
  "demo_studio_env = \<lparr>sv_send = (\<lambda>m w. (w, OK None)), sv_raw = (\<lambda>b w. w + length b), sv_conn = (True, True, True),
     sv_rand = (\<lambda>i. 0), sv_cancelled = (\<lambda>i. False), sv_now = 0, sv_item_text = (\<lambda>i. []), sv_error_text = (\<lambda>e. []),
     sv_json_send = (\<lambda>b. None), sv_json_name = (\<lambda>b. None), sv_json_type = (\<lambda>b. Some ''bad_stype''),
     sv_json_index = (\<lambda>b. None), sv_accept = (\<lambda>ps r. True), sv_url_host = (\<lambda>o'. None), sv_equal_fold = (=),
     sv_report_json = (\<lambda>r. JNull), sv_entry_json = (\<lambda>e. JNull), sv_report_orders = (id, id)\<rparr>"

definition demo_studio :: StudioServer where
  "demo_studio = (studio_NewServer \<lparr>EquipmentAddr = ''tool:5000'', sc_SessionID = 1, sc_AllowedOrigins = [], sc_Token = ''t'',
     SimulatorDemo = False, LoopbackOnly = False\<rparr>)\<lparr>sd_host := Some (NewHost 1)\<rparr>"

theorem studio_control_witness:
  "\<exists>r s' w'. handleWS demo_studio_env r 0 [Some (''fault'', [])] demo_studio 0 = OK (s', w') \<and> w' = 14 \<and>
     BearerToken (sq_Authorization r) = None \<and> sq_token r = ''t''"
proof -
  let ?r = "\<lparr>sq_Method = ''GET'', sq_Authorization = [], sq_Origin = [], sq_token = ''t''\<rparr>"
  have none: "BearerToken [] = None" by (simp add: BearerToken_def bearer_scheme_def)
  obtain s' where run: "handleWS demo_studio_env ?r 0 [Some (''fault'', [])] demo_studio 0 = OK (s', 14)"
    by (simp add: handleWS_def ws_open_def tokenOK_def none CompareToken_def demo_studio_def studio_NewServer_def
        demo_studio_env_def handleWSCommand_def IsMutatingWSCommand_def mutatingWSCommands_def handleWSFault_def Inject_def
        injectBadSType_def inject_bytes_def FaultDisconnect_def FaultCorruptData_def FaultBadSType_def sendStatus_def sendTo_def
        res_simps Let_def)
  from studio_control [OF run] run none show ?thesis
    by (intro exI [of _ ?r] exI [of _ s'] exI [of _ 14]) (simp add: demo_studio_def studio_NewServer_def)
qed

section \<open>The trace follows the host\<close>

lemma intercept_call_log [simp]: "\<exists>l. ho_log (intercept_call d s f b r h) = ho_log h @ l"
  by (simp add: intercept_call_def)

lemma validated_log: "validated d s f b h = OK h' \<Longrightarrow> \<exists>l. ho_log h' = ho_log h @ l"
  by (auto simp: validated_def intercept_call_def split: if_split_asm res.splits)

lemma sendAndValidate_log:
  assumes "sendAndValidate send s f wb b h w = ((h', w'), r)"
  shows "\<exists>l. ho_log h' = ho_log h @ l"
proof (cases "case b of None \<Rightarrow> OK [] | Some _ \<Rightarrow> Encode b")
  case (OK data)
  show ?thesis
  proof (cases "validated DirTX s f b h")
    case (OK h1)
    obtain l1 where l1: "ho_log h1 = ho_log h @ l1" using validated_log [OF OK] by blast
    have "\<exists>l. ho_log h' = ho_log h1 @ l"
      using assms \<open>(case b of None \<Rightarrow> OK [] | Some _ \<Rightarrow> Encode b) = OK data\<close> OK
      by (auto simp: sendAndValidate_def Let_def intercept_call_def split: prod.splits res.splits if_split_asm dest: validated_log)
    with l1 show ?thesis by auto
  qed (use assms OK in \<open>auto simp: sendAndValidate_def Let_def\<close>)
qed (use assms in \<open>auto simp: sendAndValidate_def\<close>)

lemma run_step_log:
  assumes "run_step send can i st (h, w, rep, r) = OK (h', x)"
  shows "\<exists>l. ho_log h' = ho_log h @ l"
  using assms
  by (auto simp: run_step_def send_step_def SendRaw_def split: if_split_asm res.splits prod.splits dest: sendAndValidate_log)

lemma run_steps_log:
  "run_steps send can i sts (h, w, rep, r) = OK (h', x) \<Longrightarrow> \<exists>l. ho_log h' = ho_log h @ l"
proof (induction sts arbitrary: i h w rep r)
  case (Cons st sts)
  from Cons.prems obtain h1 w1 rep1 r1 where 1: "run_step send can i st (h, w, rep, r) = OK (h1, w1, rep1, r1)"
    "run_steps send can (i + 1) sts (h1, w1, rep1, r1) = OK (h', x)"
    by (auto simp: bind_res_eq_OK)
  obtain l1 where "ho_log h1 = ho_log h @ l1" using run_step_log [OF 1(1)] by blast
  moreover obtain l2 where "ho_log h' = ho_log h1 @ l2" using Cons.IH [OF 1(2)] by blast
  ultimately show ?case by simp
qed simp

text \<open>An entry of the trace shows an intercepted message under its number.\<close>

definition shows_as :: "TraceEntry \<Rightarrow> nat \<times> interception \<Rightarrow> bool" where
  "shows_as e p \<longleftrightarrow> te_ID e = of_nat (fst p + 1) \<and> te_Direction e = ic_dir (snd p) \<and> te_Stream e = ic_stream (snd p) \<and>
     te_Function e = ic_function (snd p) \<and> te_Validation e = ic_results (snd p)"

text \<open>The trace is a final part of what passed the host, numbered by the position.\<close>

definition trace_inv :: "StudioServer \<Rightarrow> bool" where
  "trace_inv s \<longleftrightarrow> (\<exists>h k. sd_host s = Some h \<and> k \<le> length (ho_log h) \<and> sd_traceID s = of_nat (length (ho_log h)) \<and>
     list_all2 shows_as (sd_trace s) (drop k (enumerate 0 (ho_log h))))"

lemma fold_onMessage:
  assumes "sd_traceID s = of_nat n"
  shows "sd_host (fold (onMessage env) l s) = sd_host s \<and> sd_traceID (fold (onMessage env) l s) = of_nat (n + length l) \<and>
     (\<exists>es. sd_trace (fold (onMessage env) l s) = sd_trace s @ es \<and> list_all2 shows_as es (enumerate n l))"
  using assms
proof (induction l arbitrary: s n)
  case (Cons ic l)
  let ?s = "onMessage env ic s"
  have s: "sd_host ?s = sd_host s" "sd_traceID ?s = of_nat (Suc n)"
    "\<exists>e. sd_trace ?s = sd_trace s @ [e] \<and> shows_as e (n, ic)"
    using Cons.prems by (auto simp: onMessage_def broadcast_def shows_as_def Let_def add.commute)
  from Cons.IH [OF s(2)] s(1,3) show ?case by fastforce
qed simp

lemma host_did_trace:
  assumes "trace_inv s" and "sd_host s = Some h" and "ho_log h' = ho_log h @ l"
  shows "trace_inv (host_did env h h' s)"
proof -
  obtain k where k: "k \<le> length (ho_log h)" "sd_traceID s = of_nat (length (ho_log h))"
    "list_all2 shows_as (sd_trace s) (drop k (enumerate 0 (ho_log h)))"
    using assms(1,2) by (auto simp: trace_inv_def)
  let ?s = "s\<lparr>sd_host := Some h'\<rparr>"
  from k(2) fold_onMessage [of ?s "length (ho_log h)" env l] obtain es where
    "sd_host (host_did env h h' s) = Some h'" "sd_traceID (host_did env h h' s) = of_nat (length (ho_log h'))"
    "sd_trace (host_did env h h' s) = sd_trace s @ es" "list_all2 shows_as es (enumerate (length (ho_log h)) l)"
    using assms(3) by (auto simp: host_did_def)
  with k(1,3) assms(3) show ?thesis
    unfolding trace_inv_def
    by (intro exI [of _ h'] exI [of _ k]) (simp add: enumerate_append_eq list_all2_appendI)
qed

lemma trace_inv_sent [simp]: "trace_inv (broadcast m s) = trace_inv s" "trace_inv (sendTo c m s) = trace_inv s"
  by (simp_all add: trace_inv_def broadcast_def sendTo_def)

lemma after_send_trace:
  assumes "trace_inv s" and "sd_host s = Some h" and "after_send env h s (sendAndValidate send a b c d h w) = OK (s', w')"
  shows "trace_inv s'"
proof -
  obtain h' w1 r where r: "sendAndValidate send a b c d h w = ((h', w1), r)" by (metis prod.collapse)
  obtain l where l: "ho_log h' = ho_log h @ l" using sendAndValidate_log [OF r] by blast
  have "s' = host_did env h h' s"
    using assms(3) r by (auto simp: after_send_def split: res.splits)
  then show ?thesis using host_did_trace [OF assms(1,2) l] by simp
qed

lemma commands_trace:
  assumes "trace_inv s"
  shows "handleWSSend env data s w = OK (s', w') \<Longrightarrow> trace_inv s'"
    and "handleWSQuickSend env data s w = OK (s', w') \<Longrightarrow> trace_inv s'"
    and "handleWSRunScript env data s w = OK (s', w') \<Longrightarrow> trace_inv s'"
    and "trace_inv (fst (handleWSFault env data s w))"
proof -
  obtain h where h: "sd_host s = Some h" using assms by (auto simp: trace_inv_def)
  note send = after_send_trace [OF assms h]
  show "handleWSSend env data s w = OK (s', w') \<Longrightarrow> trace_inv s'"
    using assms h send by (auto simp: handleWSSend_def SendRaw_def split: option.splits res.splits if_split_asm)
  show "handleWSQuickSend env data s w = OK (s', w') \<Longrightarrow> trace_inv s'"
    using assms h send
    by (auto simp: handleWSQuickSend_def EstablishComm_def AreYouThere_def RequestOnline_def RequestOffline_def SendRCMD_def
        split: option.splits if_split_asm)
  show "handleWSRunScript env data s w = OK (s', w') \<Longrightarrow> trace_inv s'"
  proof -
    assume run: "handleWSRunScript env data s w = OK (s', w')"
    consider "s' = s" | h' result where "s' = broadcast (OutScript result) (host_did env h h' s)" "\<exists>l. ho_log h' = ho_log h @ l"
      using run h
      by (auto simp: handleWSRunScript_def Run_def bind_res_eq_OK split: option.splits if_split_asm dest: run_steps_log)
    then show ?thesis
    proof cases
      case (2 h' result)
      then show ?thesis
        using host_did_trace [OF assms h] by auto
    qed (use assms in simp)
  qed
  show "trace_inv (fst (handleWSFault env data s w))"
    using assms h by (auto simp: handleWSFault_def trace_inv_def split: option.splits prod.splits)
qed

lemma command_trace:
  assumes "trace_inv s" and "handleWSCommand env c ty data p s w = OK (s', w')"
  shows "trace_inv s'"
proof (cases "IsMutatingWSCommand ty \<and> \<not> p")
  case True
  with assms show ?thesis by (auto simp: handleWSCommand_def)
next
  case False
  have clear: "trace_inv (s\<lparr>sd_trace := []\<rparr>)"
    using assms(1) by (auto simp: trace_inv_def intro: exI [of _ "length (ho_log _)"])
  have fault: "trace_inv s'" if "handleWSFault env data s w = (s', w')"
    using commands_trace(4) [OF assms(1), of env data w] that by simp
  show ?thesis
    using assms False clear fault commands_trace(1-3) [OF assms(1)]
    by (auto simp: handleWSCommand_def handleWSReport_def sendStatus_def split: if_split_asm)
qed

text \<open>The runs of a studio from the attempt to connect its host on: sockets open and close, and their
  commands come in any order, with or without privilege.\<close>

inductive studio_run :: "StudioConfig \<Rightarrow> StudioServer \<Rightarrow> 'w \<Rightarrow> bool" for cfg where
  studio_start: "ConnectHost n t p b (studio_NewServer cfg) = (s, r) \<Longrightarrow> studio_run cfg s w"
| studio_open: "studio_run cfg s w \<Longrightarrow> ws_open (env :: 'w studio_env) r c s = Some (s', p) \<Longrightarrow> studio_run cfg s' w"
| studio_command: "studio_run cfg s w \<Longrightarrow> handleWSCommand env c ty data p s w = OK (s', w') \<Longrightarrow> studio_run cfg s' w'"
| studio_closed: "studio_run cfg s w \<Longrightarrow> studio_run cfg (ws_close c s) w"

lemma studio_run_trace: "studio_run cfg s w \<Longrightarrow> trace_inv s"
proof (induction rule: studio_run.induct)
  case (studio_start n t p b s r w)
  then show ?case
    by (auto simp: ConnectHost_def host_Connect_def SetInterceptor_def NewHost_def studio_NewServer_def trace_inv_def
        split: prod.splits res.splits)
next
  case (studio_open s w env r c s' p)
  then show ?case
    by (auto simp: ws_open_def sendStatus_def sendTo_def Let_def trace_inv_def split: if_split_asm)
next
  case (studio_command s w env c ty data p s' w')
  from command_trace [OF studio_command.IH studio_command.hyps(2)] show ?case .
next
  case (studio_closed s w c)
  then show ?case by (simp add: ws_close_def trace_inv_def)
qed



end
