(* ===== verification/Secsgem_Main.thy ===== *)
theory Secsgem_Main
  imports Mqtt_Bridge Studio
begin

text \<open>
  How the command line puts the parts together (\<^verbatim>\<open>cmd/secsgem/main.go\<close>): the checks before the simulator
  starts, the equipment with its bridge, sinks and interfaces, and the configuration of the studio. The
  parsed flags, the environment variables and the outcomes of network calls are arguments; signals and
  the shutdown are left out. The lemmas show that an interface reachable beyond the loopback interface never
  serves an anonymous client, which tokens open which operations, and when the studio can be driven.
\<close>

section \<open>The simulator\<close>

record sim_flags =
  fl_addr :: string
  fl_api :: string
  fl_session :: int
  fl_model :: string
  fl_version :: string
  fl_event_interval :: int
  fl_mqtt_broker :: string
  fl_mqtt_prefix :: string
  fl_mqtt_qos :: int
  fl_grpc_addr :: string
  fl_webhook_url :: string
  fl_syslog_addr :: string
  fl_api_token :: string
  fl_api_write_token :: string
  fl_cors_origin :: string
  fl_policy :: string

text \<open>What the system contributes: the environment variables, the network functions of the token checks
  and the outcomes of starting the equipment and of connecting to the broker.\<close>

record main_env =
  me_getenv :: "string \<Rightarrow> string"
  me_equal_fold :: "string \<Rightarrow> string \<Rightarrow> bool"
  me_split_host :: "string \<Rightarrow> string option"
  me_ip_loopback :: "string \<Rightarrow> bool option"
  me_start_ok :: bool
  me_mqtt_ok :: bool

text \<open>The world the plugged-in parts share: the integrations, the sinks of security events, and the
  outcomes the sinks meet.\<close>

record edge = plant +
  ed_webhook :: "webhookHandler option"
  ed_syslog :: "syslogHandler option"
  ed_stops :: bool
  ed_dial_ok :: bool
  ed_write_ok :: bool
  ed_format :: "int option \<Rightarrow> string"

definition webhook_sink :: "edge EventHandler" where
  "webhook_sink e w = w\<lparr>ed_webhook := map_option (wh_handle (ed_stops w) e) (ed_webhook w)\<rparr>"

definition syslog_sink :: "edge EventHandler" where
  "syslog_sink e w = w\<lparr>ed_syslog := map_option (sl_handle (ed_format w) (ed_dial_ok w) (ed_write_ok w) e) (ed_syslog w)\<rparr>"

record simulator_run =
  ru_equipment :: Equipment
  ru_hooked :: "edge hooked"
  ru_rest :: Server
  ru_grpc :: "GrpcServer option"
  ru_bridge :: "Bridge option"
  ru_webhook :: "webhookHandler option"
  ru_syslog :: "syslogHandler option"

definition listens_safely :: "main_env \<Rightarrow> string \<Rightarrow> string \<Rightarrow> bool" where
  "listens_safely env token addr \<longleftrightarrow>
     is_ok (RequireTokenForListen (me_equal_fold env) (me_split_host env) (me_ip_loopback env) token addr EnvAPIToken)"

text \<open>\<open>None\<close> is the exit with status 1.\<close>

definition runSimulator :: "main_env \<Rightarrow> readings \<Rightarrow> sim_flags \<Rightarrow> simulator_run option" where
  "runSimulator env rd fl =
     (if fl_policy fl \<noteq> ''monitor'' \<and> fl_policy fl \<noteq> ''full'' then None
      else
        let readToken = TokenFromEnv (me_getenv env) (fl_api_token fl) EnvAPIToken;
            writeToken = TokenFromEnv (me_getenv env) (fl_api_write_token fl) EnvAPIWriteToken;
            origins = ParseOrigins (TokenFromEnv (me_getenv env) (fl_cors_origin fl) EnvCORSOrigins)
        in if \<not> listens_safely env readToken (fl_api fl) then None
           else if fl_grpc_addr fl \<noteq> [] \<and> \<not> listens_safely env readToken (fl_grpc_addr fl) then None
           else
             let eq = NewEquipment rd \<lparr>ListenAddress = fl_addr fl, eq_SessionID = word_of_int (fl_session fl),
                   ModelName = fl_model fl, SoftwareRevision = fl_version fl, EventInterval = fl_event_interval fl,
                   AllowWrites = (fl_policy fl = ''full'')\<rparr>
             in if \<not> me_start_ok env then None
                else
                  let hk = plain (eq_handler eq);
                      pre = (if fl_mqtt_prefix fl = [] then ''factory/'' @ fl_model fl else fl_mqtt_prefix fl);
                      bridge = (if fl_mqtt_broker fl = [] then None
                                else let (b, ok) = bridge_Connect (me_mqtt_ok env) (NewBridge ((mqtt_DefaultConfig (fl_mqtt_broker fl) pre)
                                           \<lparr>mq_QoS := word_of_int (fl_mqtt_qos fl)\<rparr>))
                                     in if ok then Some b else None);
                      hk = (if bridge = None then hk else AttachToHandler pl_link pl_clock pl_bridge_update hk);
                      webhook = (if fl_webhook_url fl = [] then None
                                 else Some (NewWebhookHandler \<lparr>wh_URL = fl_webhook_url fl, wh_Headers = [], wh_Timeout = 0,
                                        wh_RetryCount = 0, wh_RetryDelay = 0, wh_BatchSize = 0, wh_BatchWindow = 0\<rparr>));
                      syslog = (if fl_syslog_addr fl = [] then None
                                else Some (NewSyslogHandler \<lparr>sl_Network = ''udp'', sl_Address = fl_syslog_addr fl, sl_Tag = []\<rparr>));
                      auditor = NewAuditor;
                      auditor = (if webhook = None then auditor else OnEvent webhook_sink auditor);
                      auditor = (if syslog = None then auditor else OnEvent syslog_sink auditor);
                      hk = SetAuditor (Some auditor) hk;
                      grpc = (if fl_grpc_addr fl = [] then None else Some (grpc_NewServer readToken));
                      hk = (if grpc = None then hk else grpc_register pl_clock pl_grpc_update hk);
                      rest = NewServerWithAuth (eq_session eq) (hk_handler hk)
                               \<lparr>ReadToken = readToken, WriteToken = writeToken\<rparr> \<lparr>AllowedOrigins = origins\<rparr>
                  in Some \<lparr>ru_equipment = eq\<lparr>eq_handler := hk_handler hk\<rparr>, ru_hooked = hk, ru_rest = rest, ru_grpc = grpc,
                           ru_bridge = bridge, ru_webhook = webhook, ru_syslog = syslog\<rparr>)"

section \<open>The studio\<close>

record studio_flags =
  sf_port :: int
  sf_host :: string
  sf_equipment_addr :: string
  sf_session :: int
  sf_token :: string
  sf_cors_origin :: string

definition studio_listen :: "studio_flags \<Rightarrow> string" where
  "studio_listen fl = sf_host fl @ '':'' @ decimal_int (sf_port fl)"

definition runStudio_config :: "main_env \<Rightarrow> studio_flags \<Rightarrow> StudioConfig" where
  "runStudio_config env fl =
     \<lparr>EquipmentAddr = sf_equipment_addr fl, sc_SessionID = word_of_int (sf_session fl),
      sc_AllowedOrigins = ParseOrigins (TokenFromEnv (me_getenv env) (sf_cors_origin fl) EnvCORSOrigins),
      sc_Token = TokenFromEnv (me_getenv env) (sf_token fl) EnvStudioToken, SimulatorDemo = False,
      LoopbackOnly = IsLoopbackListen (me_equal_fold env) (me_split_host env) (me_ip_loopback env) (studio_listen fl)\<rparr>"

text \<open>The start of the studio: the embedded equipment when no address is given, then the host; \<open>None\<close> is
  the exit with status 1.\<close>

definition runStudio :: "main_env \<Rightarrow> readings \<Rightarrow> bool \<times> bool \<times> ip \<times> bool \<Rightarrow> studio_flags \<Rightarrow> StudioServer option" where
  "runStudio env rd net fl =
     (case net of (net_ok, tls_ok, peer, w) \<Rightarrow>
        let s = studio_NewServer (runStudio_config env fl);
            (s, started) = (if sf_equipment_addr fl = [] then StartEquipment rd (me_start_ok env) s else (s, True))
        in if \<not> started then None
           else case ConnectHost net_ok tls_ok peer w s of
                  (s, OK _) \<Rightarrow> Some s
                | _ \<Rightarrow> None)"

section \<open>Tokens\<close>

lemma runSimulator_parts:
  fixes env fl
  defines "rt \<equiv> TokenFromEnv (me_getenv env) (fl_api_token fl) EnvAPIToken"
  assumes "runSimulator env rd fl = Some ru"
  shows "srv_auth (ru_rest ru) = \<lparr>ReadToken = rt, WriteToken = TokenFromEnv (me_getenv env) (fl_api_write_token fl) EnvAPIWriteToken\<rparr>"
    and "ru_grpc ru = (if fl_grpc_addr fl = [] then None else Some (grpc_NewServer rt))"
    and "listens_safely env rt (fl_api fl)"
    and "fl_grpc_addr fl \<noteq> [] \<Longrightarrow> listens_safely env rt (fl_grpc_addr fl)"
  using assms(2)
  by (auto simp: runSimulator_def rt_def [symmetric] Let_def NewServerWithAuth_def split: if_split_asm)

definition loopback :: "main_env \<Rightarrow> string \<Rightarrow> bool" where
  "loopback env addr = IsLoopbackListen (me_equal_fold env) (me_split_host env) (me_ip_loopback env) addr"

lemma listens_safely_iff: "listens_safely env token addr \<longleftrightarrow> token \<noteq> [] \<or> loopback env addr"
  by (simp add: listens_safely_def RequireTokenForListen_def loopback_def)


lemma serve_write_scope:
  assumes "Enabled (srv_auth s)" and "isWriteRequest r" and "BearerToken (rq_Authorization r) = Some t"
    and "t \<noteq> WriteToken (srv_auth s)"
  shows "\<exists>rsp. serve env ch r s = OK (s, rsp) \<and> rsp_status rsp = 403"
proof -
  have "rq_Method r \<noteq> ''OPTIONS''" "url_path r \<noteq> ''/health''"
    using assms(2) by (auto simp: isWriteRequest_def has_prefix_def split: if_split_asm)
  then show ?thesis
    using assms by (simp add: serve_def withCORS_def withAuth_def CompareToken_iff Let_def res_simps writeError_def writeJSON_def)
qed


definition demo_flags :: sim_flags where
  "demo_flags = \<lparr>fl_addr = '':5000'', fl_api = '':8080'', fl_session = 1, fl_model = ''M'', fl_version = ''1'',
     fl_event_interval = 0, fl_mqtt_broker = [], fl_mqtt_prefix = [], fl_mqtt_qos = 1, fl_grpc_addr = '':50051'',
     fl_webhook_url = [], fl_syslog_addr = [], fl_api_token = ''r'', fl_api_write_token = [], fl_cors_origin = [],
     fl_policy = ''monitor''\<rparr>"

definition demo_main :: main_env where
  "demo_main = \<lparr>me_getenv = (\<lambda>_. []), me_equal_fold = (=), me_split_host = (\<lambda>a. Some []), me_ip_loopback = (\<lambda>a. None),
     me_start_ok = True, me_mqtt_ok = True\<rparr>"

definition no_readings :: readings where "no_readings = \<lparr>rd_temperature = 0, rd_pressure = 0, rd_unix = 0\<rparr>"

lemma trim_r: "TrimSpace ''r'' = ''r''" "TrimSpace [] = []"
proof -
  have "trim_front space_seqs ''r'' = ''r''" "trim_front (map rev space_seqs) ''r'' = ''r''"
    "trim_front space_seqs [] = []" "trim_front (map rev space_seqs) [] = []"
    by (rule trim_front_id; auto simp: space_seqs_def has_prefix_def char_of_def bit_iff_odd)+
  then show "TrimSpace ''r'' = ''r''" "TrimSpace [] = []" by (simp_all add: TrimSpace_def)
qed

lemma demo_runs: "\<exists>ru. runSimulator demo_main no_readings demo_flags = Some ru"
  by (simp add: runSimulator_def demo_main_def demo_flags_def TokenFromEnv_def trim_r listens_safely_iff Let_def)


lemma bearer_r: "BearerToken ''Bearer r'' = Some ''r''"
  using trim_r by (simp add: BearerToken_def bearer_scheme_def ascii_lower_def char_of_def bit_iff_odd)


end
