(* ===== verification/Go_Quote.thy ===== *)
theory Go_Quote
  imports Go_Strconv
begin

text \<open>
  Text as Go prints it: \<^verbatim>\<open>strconv.Quote\<close> (the format \<^verbatim>\<open>%q\<close>) over the UTF-8 decoding of a string,
  \<^verbatim>\<open>%.1f\<close> of a float, and lower-case hexadecimal digits. Which runes beyond ASCII are printable is a
  Unicode table and an argument. The reading of a literal is defined as the reference: the lemmas show that
  a quoted string is read back, byte for byte, also where it is no valid UTF-8.
\<close>

section \<open>UTF-8\<close>

definition in_range :: "nat \<Rightarrow> nat \<Rightarrow> char \<Rightarrow> bool" where
  "in_range lo hi c \<longleftrightarrow> lo \<le> ccode c \<and> ccode c \<le> hi"

definition continuation :: "char \<Rightarrow> bool" where
  "continuation c = in_range 0x80 0xBF c"

text \<open>\<^verbatim>\<open>utf8.DecodeRuneInString\<close> on a string that starts with a byte beyond ASCII: the rune and its
  width; \<open>None\<close> is the error of width 1.\<close>

fun decode_rune :: "string \<Rightarrow> (nat \<times> nat) option" where
  "decode_rune (a # b # s) =
     (if in_range 0xC2 0xDF a then
        (if continuation b then Some ((ccode a - 0xC0) * 64 + (ccode b - 0x80), 2) else None)
      else if in_range 0xE0 0xEF a then
        (case s of
           c # _ \<Rightarrow>
             if in_range (if ccode a = 0xE0 then 0xA0 else 0x80) (if ccode a = 0xED then 0x9F else 0xBF) b \<and> continuation c
             then Some ((ccode a - 0xE0) * 4096 + (ccode b - 0x80) * 64 + (ccode c - 0x80), 3) else None
         | _ \<Rightarrow> None)
      else if in_range 0xF0 0xF4 a then
        (case s of
           c # d # _ \<Rightarrow>
             if in_range (if ccode a = 0xF0 then 0x90 else 0x80) (if ccode a = 0xF4 then 0x8F else 0xBF) b
                \<and> continuation c \<and> continuation d
             then Some ((ccode a - 0xF0) * 262144 + (ccode b - 0x80) * 4096 + (ccode c - 0x80) * 64 + (ccode d - 0x80), 4)
             else None
         | _ \<Rightarrow> None)
      else None)"
| "decode_rune _ = None"

text \<open>\<^verbatim>\<open>utf8.AppendRune\<close>.\<close>

definition encode_rune :: "nat \<Rightarrow> string" where
  "encode_rune r =
     (if r < 0x80 then [char_of r]
      else if r < 0x800 then [char_of (0xC0 + r div 64), char_of (0x80 + r mod 64)]
      else if r < 0x10000 then
        [char_of (0xE0 + r div 4096), char_of (0x80 + r div 64 mod 64), char_of (0x80 + r mod 64)]
      else [char_of (0xF0 + r div 262144), char_of (0x80 + r div 4096 mod 64), char_of (0x80 + r div 64 mod 64),
            char_of (0x80 + r mod 64)])"

lemma char_of_ccode: "n = ccode c \<Longrightarrow> char_of n = c"
  by simp

lemma sextets: "y < 64 \<Longrightarrow> (x * 64 + y) div 64 = x" "y < 64 \<Longrightarrow> (x * 64 + y) mod 64 = y" for x y :: nat
  by simp_all

lemma sextets_div: "r div 4096 = r div 64 div 64" "r div 262144 = r div 64 div 64 div 64" for r :: nat
  by (simp_all flip: div_mult2_eq)

lemma in_range_offset: "in_range lo hi c \<Longrightarrow> ccode c = lo + (ccode c - lo) \<and> ccode c - lo \<le> hi - lo"
  by (simp add: in_range_def diff_le_mono)

lemma encode_decode_rune:
  assumes "decode_rune s = Some (r, w)"
  shows "encode_rune r = take w s" "w \<le> length s" "0 < w" "r < 0x110000" "0x80 \<le> r"
proof -
  obtain a b t where s: "s = a # b # t" using assms by (cases s rule: decode_rune.cases) auto
  consider (two) "in_range 0xC2 0xDF a" "continuation b" "r = (ccode a - 0xC0) * 64 + (ccode b - 0x80)" "w = 2"
    | (three) c u where "t = c # u" "in_range 0xE0 0xEF a" "ccode a = 0xE0 \<longrightarrow> 0xA0 \<le> ccode b" "continuation b" "continuation c"
        "r = (ccode a - 0xE0) * 4096 + (ccode b - 0x80) * 64 + (ccode c - 0x80)" "w = 3"
    | (four) c d u where "t = c # d # u" "in_range 0xF0 0xF4 a" "ccode a = 0xF0 \<longrightarrow> 0x90 \<le> ccode b"
        "ccode a = 0xF4 \<longrightarrow> ccode b \<le> 0x8F" "continuation b" "continuation c" "continuation d"
        "r = (ccode a - 0xF0) * 262144 + (ccode b - 0x80) * 4096 + (ccode c - 0x80) * 64 + (ccode d - 0x80)" "w = 4"
    using assms unfolding s by (auto simp: continuation_def in_range_def split: if_split_asm list.split_asm)
  then have "encode_rune r = take w s \<and> w \<le> length s \<and> 0 < w \<and> r < 0x110000 \<and> 0x80 \<le> r"
  proof cases
    case two
    define x y where xy: "x = ccode a - 0xC0" "y = ccode b - 0x80"
    with two have c: "ccode a = 0xC0 + x" "ccode b = 0x80 + y" "2 \<le> x" "x < 32" "y < 64"
      by (auto simp: in_range_def continuation_def)
    from two xy have r: "r = x * 64 + y" by simp
    have d: "r div 64 = x" "r mod 64 = y" unfolding r using c(5) by (rule sextets)+
    have b: "\<not> r < 0x80" "r < 0x800" using r c(3-5) by linarith+
    have "encode_rune r = [a, b]"
      unfolding encode_rune_def using b d by (simp only: if_True if_False c(1,2) [symmetric] char_of_char)
    with b show ?thesis using two(4) s by simp
  next
    case three
    define x y z where xy: "x = ccode a - 0xE0" "y = ccode b - 0x80" "z = ccode c - 0x80"
    with three have c: "ccode a = 0xE0 + x" "ccode b = 0x80 + y" "ccode c = 0x80 + z" "x < 16" "y < 64" "z < 64" "0 < x \<or> 32 \<le> y"
      using three(3) three(2,4,5) [unfolded in_range_def continuation_def] by linarith+
    from three xy have r: "r = (x * 64 + y) * 64 + z" by simp
    have d: "r div 64 = x * 64 + y" "r mod 64 = z" unfolding r using c(6) by (rule sextets)+
    then have d': "r div 4096 = x" "r div 64 mod 64 = y" unfolding sextets_div using c(5) by (simp_all only: sextets)
    have "0x800 \<le> r" unfolding r using c(7) by auto
    moreover have "r < 0x10000" unfolding r using c(4-6) by auto
    ultimately have b: "\<not> r < 0x80" "\<not> r < 0x800" "r < 0x10000" by linarith+
    have "encode_rune r = [a, b, c]"
      unfolding encode_rune_def d'(2) using b d(2) d'(1) by (simp only: if_True if_False c(1-3) [symmetric] char_of_char)
    with b show ?thesis using three(1,7) s by simp
  next
    case four
    define x y z u' where xy: "x = ccode a - 0xF0" "y = ccode b - 0x80" "z = ccode c - 0x80" "u' = ccode d - 0x80"
    note o = four(2,5-7) [unfolded continuation_def, THEN in_range_offset, folded xy]
    have x: "ccode a = 0xF0 + x" "x \<le> 4" using o(1) by simp_all
    have y: "ccode b = 0x80 + y" "y \<le> 63" using o(2) by simp_all
    have z: "ccode c = 0x80 + z" "z \<le> 63" using o(3) by simp_all
    have u: "ccode d = 0x80 + u'" "u' \<le> 63" using o(4) by simp_all
    have low: "0 < x \<or> 16 \<le> y" using four(3) x(1) y(1) by (cases "x = 0") simp_all
    have high: "x < 4 \<or> y < 16" using four(4) x y(1) by (cases "x = 4") simp_all
    have c: "ccode a = 0xF0 + x" "ccode b = 0x80 + y" "ccode c = 0x80 + z" "ccode d = 0x80 + u'"
      "x < 5" "y < 64" "z < 64" "u' < 64" "0 < x \<or> 16 \<le> y" "x < 4 \<or> y < 16"
      using x y z u low high by simp_all
    have "r = x * 262144 + y * 4096 + z * 64 + u'" using four(8) unfolding xy by simp
    then have r: "r = ((x * 64 + y) * 64 + z) * 64 + u'" by simp
    have d: "r div 64 = (x * 64 + y) * 64 + z" "r mod 64 = u'" unfolding r using c(8) by (rule sextets)+
    then have d': "r div 4096 = x * 64 + y" "r div 64 mod 64 = z" unfolding sextets_div using c(7) by (simp_all only: sextets)
    then have d'': "r div 4096 mod 64 = y" "r div 262144 = x"
      using c(6) d unfolding sextets_div by (simp_all only: sextets)
    have "0x10000 \<le> r" unfolding r using c(9) by auto
    moreover have "r < 0x110000" 
      using c(10) by (rule disjE) (use r c(5-8) in \<open>simp_all\<close>)
    ultimately have b: "\<not> r < 0x80" "\<not> r < 0x800" "\<not> r < 0x10000" "r < 0x110000" by linarith+
    have "encode_rune r = [a, b, c, d]"
      unfolding encode_rune_def d'(2) d''(1) using b d(2) d''(2) by (simp only: if_True if_False c(1-4) [symmetric] char_of_char)
    with b show ?thesis using four(1,9) s by simp
  qed
  then show "encode_rune r = take w s" "w \<le> length s" "0 < w" "r < 0x110000" "0x80 \<le> r" by blast+
qed

section \<open>Quoted strings\<close>

definition lower_hex :: "nat \<Rightarrow> char" where
  "lower_hex n = (if n < 10 then char_of (48 + n) else char_of (87 + n))"

text \<open>The last \<open>k\<close> hexadecimal digits of a number.\<close>

fun hex_digits :: "nat \<Rightarrow> nat \<Rightarrow> string" where
  "hex_digits 0 n = []"
| "hex_digits (Suc k) n = hex_digits k (n div 16) @ [lower_hex (n mod 16)]"

definition quote_byte :: "char \<Rightarrow> string" where
  "quote_byte c =
     (if c = CHR 0x22 \<or> c = CHR 0x5C then [CHR 0x5C, c]
      else if in_range 0x20 0x7E c then [c]
      else if c = CHR 0x07 then [CHR 0x5C, CHR ''a''] else if c = CHR 0x08 then [CHR 0x5C, CHR ''b'']
      else if c = CHR 0x0C then [CHR 0x5C, CHR ''f''] else if c = CHR 0x0A then [CHR 0x5C, CHR ''n'']
      else if c = CHR 0x0D then [CHR 0x5C, CHR ''r''] else if c = CHR 0x09 then [CHR 0x5C, CHR ''t'']
      else if c = CHR 0x0B then [CHR 0x5C, CHR ''v'']
      else [CHR 0x5C, CHR ''x''] @ hex_digits 2 (ccode c))"

text \<open>The first rune of a string as it is printed, and its width.\<close>

definition quote_rune :: "(nat \<Rightarrow> bool) \<Rightarrow> string \<Rightarrow> string \<times> nat" where
  "quote_rune isprint s =
     (if ccode (hd s) < 128 then (quote_byte (hd s), 1)
      else case decode_rune s of
        None \<Rightarrow> ([CHR 0x5C, CHR ''x''] @ hex_digits 2 (ccode (hd s)), 1)
      | Some (r, w) \<Rightarrow>
          (if isprint r then take w s
           else if r < 0x10000 then [CHR 0x5C, CHR ''u''] @ hex_digits 4 r
           else [CHR 0x5C, CHR ''U''] @ hex_digits 8 r, w))"

lemma quote_rune_width: "s \<noteq> [] \<Longrightarrow> 0 < snd (quote_rune isprint s) \<and> snd (quote_rune isprint s) \<le> length s"
  using encode_decode_rune [of s] by (cases s) (auto simp: quote_rune_def split: option.split)

function quote_runes :: "(nat \<Rightarrow> bool) \<Rightarrow> string \<Rightarrow> string" where
  "quote_runes isprint s =
     (if s = [] then [] else fst (quote_rune isprint s) @ quote_runes isprint (drop (snd (quote_rune isprint s)) s))"
  by pat_completeness auto
termination
  by (relation "measure (\<lambda>(_, s). length s)") (auto intro!: diff_less simp: quote_rune_width)

declare quote_runes.simps [simp del]

definition Quote :: "(nat \<Rightarrow> bool) \<Rightarrow> string \<Rightarrow> string" where
  "Quote isprint s = [CHR 0x22] @ quote_runes isprint s @ [CHR 0x22]"

section \<open>Reading a literal\<close>

definition simple_escape :: "char \<Rightarrow> char option" where
  "simple_escape c =
     (if c = CHR ''a'' then Some (CHR 0x07) else if c = CHR ''b'' then Some (CHR 0x08)
      else if c = CHR ''f'' then Some (CHR 0x0C) else if c = CHR ''n'' then Some (CHR 0x0A)
      else if c = CHR ''r'' then Some (CHR 0x0D) else if c = CHR ''t'' then Some (CHR 0x09)
      else if c = CHR ''v'' then Some (CHR 0x0B)
      else if c = CHR 0x5C \<or> c = CHR 0x22 then Some c else None)"

definition hex_number :: "nat \<Rightarrow> string \<Rightarrow> nat option" where
  "hex_number k s = (if length s < k then None else digits_value False 16 0 (take k s))"

definition escape_width :: "char \<Rightarrow> nat" where
  "escape_width c = (if c = CHR ''x'' then 2 else if c = CHR ''u'' then 4 else if c = CHR ''U'' then 8 else 0)"

text \<open>The body of a literal in double quotes, read rune by rune; \<open>None\<close> is a syntax error.\<close>

function unquote_body :: "string \<Rightarrow> string option" where
  "unquote_body s =
     (case s of
        [] \<Rightarrow> Some []
      | c # t \<Rightarrow>
          if c = CHR 0x22 \<or> c = CHR 0x0A then None
          else if c \<noteq> CHR 0x5C then map_option ((#) c) (unquote_body t)
          else case t of
            [] \<Rightarrow> None
          | e # u \<Rightarrow>
              if escape_width e = 0 then
                (case simple_escape e of None \<Rightarrow> None | Some d \<Rightarrow> map_option ((#) d) (unquote_body u))
              else
                (case hex_number (escape_width e) u of
                   None \<Rightarrow> None
                 | Some n \<Rightarrow>
                     if e \<noteq> CHR ''x'' \<and> 0x110000 \<le> n then None
                     else map_option ((@) (if e = CHR ''x'' then [char_of n] else encode_rune n))
                            (unquote_body (drop (escape_width e) u))))"
  by pat_completeness auto
termination by (relation "measure length") auto

declare unquote_body.simps [simp del]

definition Unquote :: "string \<Rightarrow> string option" where
  "Unquote s =
     (if length s < 2 \<or> hd s \<noteq> CHR 0x22 \<or> last s \<noteq> CHR 0x22 then None else unquote_body (butlast (tl s)))"

text \<open>A piece of text that reads as the given bytes, whatever follows.\<close>

definition reads :: "string \<Rightarrow> string \<Rightarrow> bool" where
  "reads u p \<longleftrightarrow> (\<forall>rest. unquote_body (u @ rest) = (case unquote_body rest of None \<Rightarrow> None | Some t \<Rightarrow> Some (p @ t)))"

lemma reads_append: "reads u p \<Longrightarrow> reads v q \<Longrightarrow> reads (u @ v) (p @ q)"
  by (simp add: reads_def split: option.split)

lemma reads_Nil [simp]: "reads [] []"
  by (simp add: reads_def split: option.split)

lemma reads_raw: "c \<noteq> CHR 0x22 \<Longrightarrow> c \<noteq> CHR 0x0A \<Longrightarrow> c \<noteq> CHR 0x5C \<Longrightarrow> reads [c] [c]"
  by (simp add: reads_def unquote_body.simps [of "c # _"] split: option.split)

lemma reads_raws: "(\<And>c. c \<in> set s \<Longrightarrow> 128 \<le> ccode c) \<Longrightarrow> reads s s"
proof (induction s)
  case (Cons c s)
  then have "128 \<le> ccode c" by simp
  then have "c \<noteq> CHR 0x22" "c \<noteq> CHR 0x0A" "c \<noteq> CHR 0x5C" by auto
  from reads_append [OF reads_raw [OF this] Cons.IH] Cons.prems show ?case by simp
qed simp

lemma reads_simple: "escape_width e = 0 \<Longrightarrow> simple_escape e = Some d \<Longrightarrow> reads [CHR 0x5C, e] [d]"
  by (simp add: reads_def unquote_body.simps [of "CHR 0x5C # _"] split: option.split)

lemma lower_hex_code: "n < 16 \<Longrightarrow> ccode (lower_hex n) = (if n < 10 then 48 + n else 87 + n)"
  by (simp add: lower_hex_def)

lemma digit_lower_hex: "n < 16 \<Longrightarrow> digit_of (lower_hex n) = Some n"
proof -
  assume "n < 16"
  then have "\<not> n < 10 \<Longrightarrow> (87 + n) div 32 = 3" by (intro div_nat_eqI) simp_all
  with \<open>n < 16\<close> show ?thesis by (auto simp: digit_of_def lower_code_def Let_def lower_hex_code)
qed

lemma digits_hex: "digits_value False 16 a (hex_digits k n) = Some (16 ^ k * a + n mod 16 ^ k)"
proof (induction k arbitrary: n)
  case (Suc k)
  have "n mod (16 * 16 ^ k) = 16 * (n div 16 mod 16 ^ k) + n mod 16"
    by (rule mod_mult2_eq)
  with Suc show ?case by (simp add: digits_value_append digit_lower_hex algebra_simps)
qed simp

lemma length_hex_digits [simp]: "length (hex_digits k n) = k"
  by (induction k arbitrary: n) simp_all

lemma reads_hex:
  assumes "k = escape_width e" "0 < k" "n < 16 ^ k" "e = CHR ''x'' \<or> n < 0x110000"
  shows "reads ([CHR 0x5C, e] @ hex_digits k n) (if e = CHR ''x'' then [char_of n] else encode_rune n)"
proof -
  have "hex_number k (hex_digits k n @ rest) = Some n" for rest
    using assms(3) digits_hex [of 0 k n] by (simp add: hex_number_def)
  then show ?thesis
    using assms by (auto simp: reads_def unquote_body.simps [of "CHR 0x5C # _"] split: option.split)
qed

section \<open>A quoted string reads back\<close>

lemma high_bytes:
  assumes "decode_rune s = Some (r, w)" and "c \<in> set (take w s)"
  shows "128 \<le> ccode c"
  using assms
  by (cases s rule: decode_rune.cases)
    (auto simp: in_range_def continuation_def split: if_split_asm list.split_asm)

lemma escapes_read:
  "reads [CHR 0x5C, CHR ''a''] [CHR 0x07]" "reads [CHR 0x5C, CHR ''b''] [CHR 0x08]"
  "reads [CHR 0x5C, CHR ''f''] [CHR 0x0C]" "reads [CHR 0x5C, CHR ''n''] [CHR 0x0A]"
  "reads [CHR 0x5C, CHR ''r''] [CHR 0x0D]" "reads [CHR 0x5C, CHR ''t''] [CHR 0x09]"
  "reads [CHR 0x5C, CHR ''v''] [CHR 0x0B]"
  "reads [CHR 0x5C, CHR 0x5C] [CHR 0x5C]" "reads [CHR 0x5C, CHR 0x22] [CHR 0x22]"
  by (rule reads_simple; simp add: escape_width_def simple_escape_def)+

lemma hex_byte_reads: "reads ([CHR 0x5C, CHR ''x''] @ hex_digits 2 (ccode c)) [c]"
  using reads_hex [of 2 "CHR ''x''" "ccode c"] by (simp add: escape_width_def)

lemma quote_byte_reads: "reads (quote_byte c) [c]"
proof -
  have raw: "reads [c] [c]" if "in_range 0x20 0x7E c" "c \<noteq> CHR 0x22" "c \<noteq> CHR 0x5C"
    using that by (intro reads_raw) (auto simp: in_range_def)
  show ?thesis
    unfolding quote_byte_def using raw hex_byte_reads [of c] escapes_read by (simp split: if_split)
qed

lemma quote_rune_reads:
  assumes "s \<noteq> []"
  shows "reads (fst (quote_rune isprint s)) (take (snd (quote_rune isprint s)) s)"
proof (cases "ccode (hd s) < 128")
  case True
  with assms show ?thesis using quote_byte_reads [of "hd s"] by (cases s) (simp_all add: quote_rune_def)
next
  case high: False
  show ?thesis
  proof (cases "decode_rune s")
    case None
    with hex_byte_reads [of "hd s"] high assms show ?thesis by (cases s) (simp_all add: quote_rune_def)
  next
    case (Some p)
    then obtain r w where p: "decode_rune s = Some (r, w)" by (cases p) simp
    note r = encode_decode_rune [OF p]
    have u: "reads ([CHR 0x5C, CHR ''u''] @ hex_digits 4 r) (take w s)" if "r < 0x10000"
      using reads_hex [of 4 "CHR ''u''" r] that r(1,4) by (simp add: escape_width_def)
    have U: "reads ([CHR 0x5C, CHR ''U''] @ hex_digits 8 r) (take w s)"
      using reads_hex [of 8 "CHR ''U''" r] r(1,4) by (simp add: escape_width_def)
    have "reads (take w s) (take w s)" using high_bytes [OF p] by (rule reads_raws)
    with p high u U show ?thesis by (simp add: quote_rune_def)
  qed
qed

lemma quote_runes_reads: "reads (quote_runes isprint s) s"
proof (induction isprint s rule: quote_runes.induct)
  case (1 isprint s)
  show ?case
  proof (cases "s = []")
    case False
    from reads_append [OF quote_rune_reads [OF False, of isprint] "1.IH" [OF False]] False
    show ?thesis unfolding quote_runes.simps [of isprint s] by simp
  qed (simp add: quote_runes.simps)
qed

lemma unquote_reads: "reads u s \<Longrightarrow> Unquote ([CHR 0x22] @ u @ [CHR 0x22]) = Some s"
  using unquote_body.simps [of "[]"] by (auto simp: reads_def Unquote_def dest: spec [of _ "[]"])

text \<open>Every string, valid UTF-8 or not, is read back from its quoted form.\<close>

lemma Unquote_Quote: "Unquote (Quote isprint s) = Some s"
  unfolding Quote_def by (intro unquote_reads quote_runes_reads)

text \<open>A quoted string has no control byte and ends where it should.\<close>

lemma hex_digits_code: "c \<in> set (hex_digits k n) \<Longrightarrow> in_range 48 57 c \<or> in_range 97 102 c"
  by (induction k arbitrary: n) (auto simp: in_range_def lower_hex_code split: if_split_asm)

lemma quote_byte_code: "d \<in> set (quote_byte c) \<Longrightarrow> 32 \<le> ccode d"
  using hex_digits_code [of d 2 "ccode c"] by (auto simp: quote_byte_def in_range_def split: if_split_asm)

lemma quote_rune_code: "c \<in> set (fst (quote_rune isprint s)) \<Longrightarrow> 32 \<le> ccode c"
  using high_bytes [of s _ _ c] hex_digits_code [of c]
  by (fastforce simp: quote_rune_def in_range_def dest: quote_byte_code split: option.split_asm if_split_asm)

lemma quote_runes_code: "c \<in> set (quote_runes isprint s) \<Longrightarrow> 32 \<le> ccode c"
proof (induction isprint s rule: quote_runes.induct)
  case (1 isprint s)
  then show ?case
    using quote_rune_code [of c isprint s] by (cases "s = []") (auto simp: quote_runes.simps [of isprint s] quote_runes.simps [of isprint "[]"])
qed

lemma Quote_code: "c \<in> set (Quote isprint s) \<Longrightarrow> 32 \<le> ccode c"
  using quote_runes_code [of c] by (auto simp: Quote_def)

section \<open>Decimals\<close>

text \<open>\<^verbatim>\<open>%.1f\<close> of a finite float: its exact value, rounded to tenths.\<close>

definition fixed1 :: "float64 \<Rightarrow> string" where
  "fixed1 x =
     (let tenths = rne (10 * mag_units (f64_mag x)) (2 ^ 1074)
      in (if f64_neg x then ''-'' else []) @ decimal (tenths div 10) @ ''.'' @ decimal (tenths mod 10))"

end
