(* ===== verification/Message_Security.thy ===== *)
theory Message_Security
  imports Secs2_Roundtrip Go_Quote
begin

text \<open>
  Protection and observation of payloads in \<^verbatim>\<open>pkg/security\<close>: encryption (\<^verbatim>\<open>encryption.go\<close>), the forensic
  recorder (\<^verbatim>\<open>recorder.go\<close>) and the collector of message patterns (\<^verbatim>\<open>anomaly.go\<close>). AES-GCM is an argument
  \<open>aead\<close> with the law that opening undoes sealing; nonces, times, their formatting and the detector of
  anomalies are arguments too. The lemmas show that an encrypted message is recovered, what can be read back
  from a recorded line, and that the statistics agree with the messages that were recorded.
\<close>

section \<open>Encryption\<close>

text \<open>An AEAD with 12 byte nonces: sealing and opening under a key.\<close>

record aead =
  ae_Seal :: "byte list \<Rightarrow> byte list \<Rightarrow> byte list \<Rightarrow> byte list"
  ae_Open :: "byte list \<Rightarrow> byte list \<Rightarrow> byte list \<Rightarrow> byte list option"

definition NonceSize :: nat where "NonceSize = 12"

definition opens_sealed :: "aead \<Rightarrow> bool" where
  "opens_sealed gcm \<longleftrightarrow>
     (\<forall>key nonce pt. length key = 32 \<and> length nonce = NonceSize \<longrightarrow>
        ae_Open gcm key nonce (ae_Seal gcm key nonce pt) = Some pt)"

datatype crypt_error = KeySize nat | TooShort | OpenFailed | NonceFailed

record MessageEncryptor =
  mx_key :: "byte list"
  mx_keyID :: string

definition NewMessageEncryptor :: "byte list \<Rightarrow> string \<Rightarrow> (crypt_error, MessageEncryptor) res" where
  "NewMessageEncryptor key keyID =
     (if length key \<noteq> 32 then Err (KeySize (length key)) else OK \<lparr>mx_key = key, mx_keyID = keyID\<rparr>)"

text \<open>\<open>nonce\<close> is what the random source returned, \<open>None\<close> when it failed.\<close>

definition Encrypt :: "aead \<Rightarrow> byte list option \<Rightarrow> byte list \<Rightarrow> MessageEncryptor \<Rightarrow> (crypt_error, byte list) res" where
  "Encrypt gcm nonce plaintext e =
     (case nonce of
        None \<Rightarrow> Err NonceFailed
      | Some n \<Rightarrow> OK (n @ ae_Seal gcm (mx_key e) n plaintext))"

definition Decrypt :: "aead \<Rightarrow> byte list \<Rightarrow> MessageEncryptor \<Rightarrow> (crypt_error, byte list) res" where
  "Decrypt gcm data e =
     (if length data < NonceSize then Err TooShort
      else case ae_Open gcm (mx_key e) (take NonceSize data) (drop NonceSize data) of
             None \<Rightarrow> Err OpenFailed
           | Some plaintext \<Rightarrow> OK plaintext)"

definition RotateKey :: "byte list \<Rightarrow> string \<Rightarrow> MessageEncryptor \<Rightarrow> (crypt_error, MessageEncryptor) res" where
  "RotateKey newKey newKeyID e =
     (if length newKey \<noteq> 32 then Err (KeySize (length newKey)) else OK (e\<lparr>mx_key := newKey, mx_keyID := newKeyID\<rparr>))"

definition KeyID :: "MessageEncryptor \<Rightarrow> string" where "KeyID e = mx_keyID e"

definition enc_GenerateKey :: "byte list option \<Rightarrow> (crypt_error, byte list) res" where
  "enc_GenerateKey random = (case random of None \<Rightarrow> Err NonceFailed | Some key \<Rightarrow> OK key)"

section \<open>The recorder\<close>

datatype RecDirection = DirInbound | DirOutbound

fun RecDirection_String :: "RecDirection \<Rightarrow> string" where
  "RecDirection_String DirInbound = ''IN''"
| "RecDirection_String DirOutbound = ''OUT''"

record MessageRecord =
  mr_Time :: int
  mr_Direction :: RecDirection
  mr_Stream :: byte
  mr_Function :: byte
  mr_SessionID :: uint16
  mr_SystemID :: uint32
  mr_DataLen :: nat
  mr_RawHex :: string

definition EncodeToString :: "byte list \<Rightarrow> string" where
  "EncodeToString bs = concat (map (\<lambda>b. [lower_hex (unat b div 16), lower_hex (unat b mod 16)]) bs)"

definition MessageRecord_String :: "(int \<Rightarrow> string) \<Rightarrow> MessageRecord \<Rightarrow> string" where
  "MessageRecord_String fmt r =
     fmt (mr_Time r) @ '' '' @ RecDirection_String (mr_Direction r) @ '' S'' @ decimal (unat (mr_Stream r)) @ ''F'' @
     decimal (unat (mr_Function r)) @ '' sess='' @ decimal (unat (mr_SessionID r)) @ '' sys='' @
     decimal (unat (mr_SystemID r)) @ '' len='' @ decimal (mr_DataLen r) @ '' data='' @ mr_RawHex r"

record MessageRecorder =
  rec_maxHex :: nat
  rec_enabled :: bool
  rec_out :: string

definition NewMessageRecorder :: "int \<Rightarrow> MessageRecorder" where
  "NewMessageRecorder maxHexBytes =
     \<lparr>rec_maxHex = (if maxHexBytes \<le> 0 then 256 else nat maxHexBytes), rec_enabled = True, rec_out = []\<rparr>"

definition NewFileRecorder :: "bool \<Rightarrow> MessageRecorder option" where
  "NewFileRecorder open_ok = (if open_ok then Some (NewMessageRecorder 256) else None)"

definition message_record ::
  "int \<Rightarrow> RecDirection \<Rightarrow> byte \<Rightarrow> byte \<Rightarrow> uint16 \<Rightarrow> uint32 \<Rightarrow> byte list \<Rightarrow> MessageRecorder \<Rightarrow> MessageRecord" where
  "message_record now dir stream function sessionID systemID data mr =
     \<lparr>mr_Time = now, mr_Direction = dir, mr_Stream = stream, mr_Function = function, mr_SessionID = sessionID,
      mr_SystemID = systemID, mr_DataLen = length data,
      mr_RawHex = EncodeToString (if length data > rec_maxHex mr then take (rec_maxHex mr) data else data)\<rparr>"

definition rec_Record ::
  "(int \<Rightarrow> string) \<Rightarrow> int \<Rightarrow> RecDirection \<Rightarrow> byte \<Rightarrow> byte \<Rightarrow> uint16 \<Rightarrow> uint32 \<Rightarrow> byte list \<Rightarrow> MessageRecorder \<Rightarrow> MessageRecorder" where
  "rec_Record fmt now dir stream function sessionID systemID data mr =
     (if \<not> rec_enabled mr then mr
      else mr\<lparr>rec_out := rec_out mr @
             MessageRecord_String fmt (message_record now dir stream function sessionID systemID data mr) @ [CHR 0x0A]\<rparr>)"

definition SetEnabled :: "bool \<Rightarrow> MessageRecorder \<Rightarrow> MessageRecorder" where
  "SetEnabled enabled mr = mr\<lparr>rec_enabled := enabled\<rparr>"

definition IsEnabled :: "MessageRecorder \<Rightarrow> bool" where "IsEnabled mr = rec_enabled mr"

section \<open>Patterns\<close>

record MessagePattern =
  mp_Stream :: byte
  mp_Function :: byte
  mp_Source :: string
  mp_DataSize :: int
  mp_Timestamp :: int
  mp_InterArrival :: int
  mp_IsReply :: bool

text \<open>The detector is an interface: its state, how it scores a pattern, and how it learns.\<close>

record 'd detector =
  dt_state :: 'd
  dt_Analyze :: "'d \<Rightarrow> MessagePattern \<Rightarrow> float64 \<times> 'd"
  dt_Train :: "'d \<Rightarrow> MessagePattern \<Rightarrow> 'd"

text \<open>\<open>pc_alerts\<close> are the calls of the alert callback.\<close>

record 'd PatternCollector =
  pc_detector :: "'d detector option"
  pc_threshold :: float64
  pc_lastSeen :: "(string, int) gomap"
  pc_sfCounts :: "(byte \<times> byte, uint64) gomap"
  pc_totalMsgs :: uint64
  pc_alertCount :: uint64
  pc_onAlert :: bool
  pc_alerts :: "(MessagePattern \<times> float64) list"

definition NewPatternCollector :: "'d detector option \<Rightarrow> float64 \<Rightarrow> 'd PatternCollector" where
  "NewPatternCollector detector threshold =
     \<lparr>pc_detector = detector, pc_threshold = threshold, pc_lastSeen = [], pc_sfCounts = [], pc_totalMsgs = 0,
      pc_alertCount = 0, pc_onAlert = False, pc_alerts = []\<rparr>"

definition OnAlert :: "bool \<Rightarrow> 'd PatternCollector \<Rightarrow> 'd PatternCollector" where
  "OnAlert fn pc = pc\<lparr>pc_onAlert := fn\<rparr>"

definition count_of :: "(byte \<times> byte, uint64) gomap \<Rightarrow> byte \<times> byte \<Rightarrow> uint64" where
  "count_of m k = (case map_of m k of None \<Rightarrow> 0 | Some n \<Rightarrow> n)"

definition pc_Record :: "int \<Rightarrow> byte \<Rightarrow> byte \<Rightarrow> string \<Rightarrow> int \<Rightarrow> bool \<Rightarrow> 'd PatternCollector \<Rightarrow> 'd PatternCollector" where
  "pc_Record now stream function source dataSize isReply pc =
     (let interArrival = (case map_of (pc_lastSeen pc) source of None \<Rightarrow> 0 | Some t \<Rightarrow> Sub_time now t);
          key = (stream, function);
          pc = pc\<lparr>pc_lastSeen := AList.update source now (pc_lastSeen pc),
                  pc_sfCounts := AList.update key (count_of (pc_sfCounts pc) key + 1) (pc_sfCounts pc),
                  pc_totalMsgs := pc_totalMsgs pc + 1\<rparr>;
          pattern = \<lparr>mp_Stream = stream, mp_Function = function, mp_Source = source, mp_DataSize = dataSize,
                     mp_Timestamp = now, mp_InterArrival = interArrival, mp_IsReply = isReply\<rparr>
      in case pc_detector pc of
           None \<Rightarrow> pc
         | Some d \<Rightarrow>
             (case dt_Analyze d (dt_state d) pattern of (score, d') \<Rightarrow>
                let pc = pc\<lparr>pc_detector := Some (d\<lparr>dt_state := d'\<rparr>)\<rparr>
                in if f64_less (pc_threshold pc) score \<and> pc_onAlert pc
                   then pc\<lparr>pc_alertCount := pc_alertCount pc + 1, pc_alerts := pc_alerts pc @ [(pattern, score)]\<rparr>
                   else pc))"

definition pc_Train :: "int \<Rightarrow> byte \<Rightarrow> byte \<Rightarrow> string \<Rightarrow> int \<Rightarrow> 'd PatternCollector \<Rightarrow> 'd PatternCollector" where
  "pc_Train now stream function source dataSize pc =
     (case pc_detector pc of
        None \<Rightarrow> pc
      | Some d \<Rightarrow>
          pc\<lparr>pc_detector := Some (d\<lparr>dt_state := dt_Train d (dt_state d) \<lparr>mp_Stream = stream, mp_Function = function,
             mp_Source = source, mp_DataSize = dataSize, mp_Timestamp = now, mp_InterArrival = 0, mp_IsReply = False\<rparr>\<rparr>)\<rparr>)"

text \<open>\<^verbatim>\<open>string(rune(b))\<close> for a byte: its UTF-8 encoding. The sum of the digit zero and the byte wraps.\<close>

definition rune_string :: "byte \<Rightarrow> string" where
  "rune_string b = (let n = unat b in if n < 128 then [char_of n] else [char_of (192 + n div 64), char_of (128 + n mod 64)])"

definition sfKeyString :: "byte \<times> byte \<Rightarrow> string" where
  "sfKeyString k = ''S'' @ rune_string (48 + fst k) @ ''F'' @ rune_string (48 + snd k)"

record pattern_stats =
  ps_total :: uint64
  ps_alerts :: uint64
  ps_sources :: nat
  ps_distribution :: "(string, uint64) gomap"

definition pc_Stats :: "'d PatternCollector \<Rightarrow> pattern_stats" where
  "pc_Stats pc =
     \<lparr>ps_total = pc_totalMsgs pc, ps_alerts = pc_alertCount pc, ps_sources = length (pc_lastSeen pc),
      ps_distribution = fold (\<lambda>(k, v) m. AList.update (sfKeyString k) v m) (pc_sfCounts pc) []\<rparr>"

definition AlertCount :: "'d PatternCollector \<Rightarrow> uint64" where "AlertCount pc = pc_alertCount pc"

definition NoopDetector :: "unit detector" where
  "NoopDetector = \<lparr>dt_state = (), dt_Analyze = (\<lambda>_ _. (f64_of_int 0, ())), dt_Train = (\<lambda>_ _. ())\<rparr>"

definition ThresholdDetector :: "int \<Rightarrow> unit detector" where
  "ThresholdDetector MaxDataSize =
     \<lparr>dt_state = (), dt_Analyze = (\<lambda>_ p. (if MaxDataSize > 0 \<and> mp_DataSize p > MaxDataSize then f64_of_int 1 else f64_of_int 0, ())),
      dt_Train = (\<lambda>_ _. ())\<rparr>"

section \<open>Encrypted messages come back\<close>

lemma decrypt_encrypt:
  assumes "opens_sealed gcm" and "length (mx_key e) = 32" and "length nonce = NonceSize"
  shows "\<exists>c. Encrypt gcm (Some nonce) pt e = OK c \<and> Decrypt gcm c e = OK pt"
  using assms by (simp add: Encrypt_def Decrypt_def opens_sealed_def)

text \<open>Encrypted transport. With an AEAD that opens what it sealed, an encryptor made from a 32 byte key
  turns every well-formed item into bytes from which it gets the same item back, also after any
  number of key changes once the key is the old one again; keys of any other length are refused, and
  input shorter than a nonce is an error.
\<close>

theorem encrypted_item_recovered:
  assumes "opens_sealed gcm" and "NewMessageEncryptor key keyID = OK e" and "length nonce = 12" and "wf_item it"
    and "RotateKey key2 keyID2 e = OK e2" and "RotateKey key keyID3 e2 = OK e3" and "length short < 12"
  shows "\<exists>data c. Encode (Some it) = OK data \<and> Encrypt gcm (Some nonce) data e = OK c \<and>
           (\<forall>d \<in> {e, e3}. Decrypt gcm c d = OK data) \<and> Decode data = OK (norm_item it) \<and>
           (\<forall>d. Decrypt gcm short d = Err TooShort)"
proof -
  have k: "mx_key e = key" "mx_key e3 = key" "length key = 32"
    using assms(2,5,6) by (auto simp: NewMessageEncryptor_def RotateKey_def split: if_split_asm)
  have enc: "Encode (Some it) = OK (item_bytes it)" using Encode_wf [OF assms(4)] .
  obtain c where c: "Encrypt gcm (Some nonce) (item_bytes it) e = OK c" "Decrypt gcm c e = OK (item_bytes it)"
    using decrypt_encrypt [OF assms(1), of e nonce] k assms(3) by (auto simp: NonceSize_def)
  have "Decrypt gcm c e3 = Decrypt gcm c e" using k by (simp add: Decrypt_def)
  with c(2) have "Decrypt gcm c e3 = OK (item_bytes it)" by simp
  with enc c show ?thesis
    using Decode_item_bytes [OF assms(4)] assms(7) by (auto simp: Decrypt_def NonceSize_def)
qed

text \<open>An AEAD that only appends a tag, to show that the law can be met.\<close>

definition tagging :: aead where
  "tagging = \<lparr>ae_Seal = (\<lambda>k n p. p @ replicate 16 0),
     ae_Open = (\<lambda>k n c. if length c < 16 then None else Some (take (length c - 16) c))\<rparr>"

theorem encrypted_item_recovered_witness:
  "\<exists>e data c. NewMessageEncryptor (replicate 32 7) ''k'' = OK e \<and> Encode (Some (NewASCII ''HOST'')) = OK data \<and>
     Encrypt tagging (Some (replicate 12 1)) data e = OK c \<and> Decrypt tagging c e = OK data"
proof -
  have a: "opens_sealed tagging" by (simp add: opens_sealed_def tagging_def)
  let ?e = "\<lparr>mx_key = replicate 32 7, mx_keyID = ''k''\<rparr>"
  have n: "NewMessageEncryptor (replicate 32 7) ''k'' = OK ?e"
    "RotateKey (replicate 32 8) ''l'' ?e = OK (?e\<lparr>mx_key := replicate 32 8, mx_keyID := ''l''\<rparr>)"
    "RotateKey (replicate 32 7) ''m'' (?e\<lparr>mx_key := replicate 32 8, mx_keyID := ''l''\<rparr>) = OK (?e\<lparr>mx_keyID := ''m''\<rparr>)"
    by (simp_all add: NewMessageEncryptor_def RotateKey_def)
  have wf: "wf_item (NewASCII ''HOST'')" by (simp add: NewASCII_def max_len_def)
  from encrypted_item_recovered [OF a n(1) _ wf n(2,3), of "replicate 12 1" "[]"] n(1) show ?thesis by auto
qed

section \<open>What a record keeps\<close>

definition hex_value :: "char \<Rightarrow> nat" where
  "hex_value c = (let n = ccode c in if n < 58 then n - 48 else n - 87)"

fun unhex :: "string \<Rightarrow> byte list" where
  "unhex (a # b # s) = of_nat (16 * hex_value a + hex_value b) # unhex s"
| "unhex _ = []"

lemma hex_value_digit [simp]: "n < 16 \<Longrightarrow> hex_value (lower_hex n) = n"
  by (simp add: hex_value_def lower_hex_code Let_def)

lemma unhex_encode: "unhex (EncodeToString bs) = bs"
proof (induction bs)
  case (Cons b bs)
  have "unat b < 256" by (rule unat_byte_less)
  then have "unat b div 16 < 16" by simp
  moreover have "of_nat (16 * (unat b div 16) + unat b mod 16) = b" by simp
  ultimately show ?case using Cons by (simp add: EncodeToString_def)
qed (simp add: EncodeToString_def)

lemma length_EncodeToString: "length (EncodeToString bs) = 2 * length bs"
  by (induction bs) (simp_all add: EncodeToString_def)

lemma hex_no_newline: "CHR 0x0A \<notin> set (EncodeToString bs)"
proof -
  have ne: "CHR 0x0A \<noteq> lower_hex n" if "n < 16" for n
  proof
    assume "CHR 0x0A = lower_hex n"
    then have "ccode (CHR 0x0A) = ccode (lower_hex n)" by (rule arg_cong)
    then show False using lower_hex_code [OF that] by (simp split: if_split_asm)
  qed
  have "CHR 0x0A \<noteq> lower_hex (unat b div 16)" "CHR 0x0A \<noteq> lower_hex (unat b mod 16)" for b :: byte
    using unat_byte_less [of b] by (auto intro!: ne)
  then show ?thesis by (auto simp: EncodeToString_def)
qed

lemma decimal_no_newline: "CHR 0x0A \<notin> set (decimal n)"
proof
  assume "CHR 0x0A \<in> set (decimal n)"
  then have "48 \<le> ccode (CHR 0x0A)" by (rule conjunct1 [OF set_decimal])
  then show False by simp
qed

text \<open>
  The forensic record. While recording is on, a message adds one line, provided that times print on one; the line
  ends with the hexadecimal form of the first bytes of the payload, 256 unless configured otherwise, from which exactly these
  bytes can be read back, and states the full length; while it is off nothing is written.
\<close>

theorem record_keeps_message:
  assumes "\<And>t. CHR 0x0A \<notin> set (fmt t)"
  shows "rec_out (rec_Record fmt now dir s f sess sys data mr) =
           rec_out mr @ (if rec_enabled mr
             then MessageRecord_String fmt (message_record now dir s f sess sys data mr) @ [CHR 0x0A] else []) \<and>
         CHR 0x0A \<notin> set (MessageRecord_String fmt (message_record now dir s f sess sys data mr)) \<and>
         unhex (mr_RawHex (message_record now dir s f sess sys data mr)) = take (rec_maxHex mr) data \<and>
         length (mr_RawHex (message_record now dir s f sess sys data mr)) = 2 * min (rec_maxHex mr) (length data) \<and>
         mr_DataLen (message_record now dir s f sess sys data mr) = length data"
  using assms hex_no_newline decimal_no_newline
  by (cases dir) (auto simp: rec_Record_def message_record_def MessageRecord_String_def unhex_encode length_EncodeToString)

theorem record_keeps_message_witness:
  "unhex (mr_RawHex (message_record 0 DirInbound 1 13 1 7 [1, 2, 255] (NewMessageRecorder 0))) = [1, 2, 255]"
  using record_keeps_message [of "\<lambda>t. []" 0 DirInbound 1 13 1 7 "[1, 2, 255]" "NewMessageRecorder 0"]
  by (simp add: NewMessageRecorder_def)

section \<open>The statistics\<close>

record observed =
  ob_now :: int
  ob_stream :: byte
  ob_function :: byte
  ob_source :: string
  ob_size :: int
  ob_reply :: bool

definition pc_observe :: "observed list \<Rightarrow> 'd PatternCollector \<Rightarrow> 'd PatternCollector" where
  "pc_observe obs pc =
     fold (\<lambda>o'. pc_Record (ob_now o') (ob_stream o') (ob_function o') (ob_source o') (ob_size o') (ob_reply o')) obs pc"

lemma pc_Record_fields:
  fixes pc :: "'d PatternCollector" and now s f src sz rep
  defines "pc' \<equiv> pc_Record now s f src sz rep pc"
  shows "pc_lastSeen pc' = AList.update src now (pc_lastSeen pc)"
    "pc_sfCounts pc' = AList.update (s, f) (count_of (pc_sfCounts pc) (s, f) + 1) (pc_sfCounts pc)"
    "pc_totalMsgs pc' = pc_totalMsgs pc + 1" "pc_onAlert pc' = pc_onAlert pc" "pc_threshold pc' = pc_threshold pc"
    "pc_alerts pc' \<noteq> pc_alerts pc \<Longrightarrow> \<exists>p score. pc_alerts pc' = pc_alerts pc @ [(p, score)] \<and>
        pc_alertCount pc' = pc_alertCount pc + 1 \<and> f64_less (pc_threshold pc) score \<and> pc_onAlert pc"
    "pc_alerts pc' = pc_alerts pc \<Longrightarrow> pc_alertCount pc' = pc_alertCount pc"
  by (auto simp: pc'_def pc_Record_def Let_def split: option.splits prod.splits)

lemma keys_of_update: "set (map fst (AList.update k v m)) = insert k (set (map fst m))"
  by (induction m) auto

lemma rune_string_prefix:
  assumes "rune_string a @ x = rune_string b @ y"
  shows "a = b \<and> x = y"
proof -
  have lt: "unat a < 256" "unat b < 256" by (rule unat_byte_less)+
  have "unat a div 64 < 4" "unat b div 64 < 4" using lt by simp_all
  have code: "of_char (char_of n :: char) = n" if "n < 256" for n :: nat using that by simp
  have eq: "(char_of m :: char) = char_of n \<longleftrightarrow> m = n" if "m < 256" "n < 256" for m n :: nat
    using code [OF that(1)] code [OF that(2)] by metis
  have hi: "192 + n div 64 < 256" "128 + n mod 64 < 256" if "n < 256" for n :: nat using that by simp_all
  have "unat a = unat b \<and> x = y"
  proof (cases "unat a < 128")
    case True
    then show ?thesis using assms eq lt hi [OF lt(2)] by (auto simp: rune_string_def Let_def split: if_split_asm)
  next
    case False
    then have "\<not> unat b < 128"
      using assms eq lt hi [OF lt(1)] by (auto simp: rune_string_def Let_def split: if_split_asm)
    then have "unat a div 64 = unat b div 64" "unat a mod 64 = unat b mod 64" "x = y"
      using False assms eq hi [OF lt(1)] hi [OF lt(2)] by (auto simp: rune_string_def Let_def)
    then show ?thesis by (metis div_mult_mod_eq)
  qed
  then show ?thesis by (simp add: word_unat_eq_iff)
qed

lemma sfKeyString_inj: "sfKeyString k = sfKeyString l \<longleftrightarrow> k = l"
proof
  assume eq: "sfKeyString k = sfKeyString l"
  then have "rune_string (48 + fst k) @ ''F'' @ rune_string (48 + snd k) @ [] =
      rune_string (48 + fst l) @ ''F'' @ rune_string (48 + snd l) @ []" by (simp add: sfKeyString_def)
  from rune_string_prefix [OF this] have "fst k = fst l" "rune_string (48 + snd k) @ [] = rune_string (48 + snd l) @ []"
    by auto
  with rune_string_prefix [OF this(2)] show "k = l" by (simp add: prod_eq_iff)
qed simp

lemma distribution_lookup:
  assumes "inj key" and "distinct (map fst m)"
  shows "map_of (fold (\<lambda>(k, v) m. AList.update (key k) v m) m acc) (key k) =
     (case map_of m k of None \<Rightarrow> map_of acc (key k) | Some v \<Rightarrow> Some v)"
  using assms(2)
proof (induction m arbitrary: acc)
  case (Cons p m)
  obtain a v where p: "p = (a, v)" by (cases p)
  have "map_of m a = None" using Cons.prems p by (simp add: map_of_eq_None_iff)
  with Cons p assms(1) show ?case by (auto simp: update_conv' inj_eq split: option.split)
qed simp

definition seen :: "byte \<Rightarrow> byte \<Rightarrow> observed list \<Rightarrow> nat" where
  "seen s f obs = length (filter (\<lambda>o'. ob_stream o' = s \<and> ob_function o' = f) obs)"

definition stats_inv :: "observed list \<Rightarrow> 'd PatternCollector \<Rightarrow> bool" where
  "stats_inv obs pc \<longleftrightarrow>
     pc_totalMsgs pc = of_nat (length obs) \<and>
     distinct (map fst (pc_lastSeen pc)) \<and> set (map fst (pc_lastSeen pc)) = ob_source ` set obs \<and>
     distinct (map fst (pc_sfCounts pc)) \<and>
     (\<forall>s f. map_of (pc_sfCounts pc) (s, f) = (if seen s f obs = 0 then None else Some (of_nat (seen s f obs)))) \<and>
     pc_alertCount pc = of_nat (length (pc_alerts pc)) \<and>
     list_all (\<lambda>(p, score). f64_less (pc_threshold pc) score) (pc_alerts pc)"

lemma stats_inv_record:
  assumes "stats_inv obs pc"
  shows "stats_inv (obs @ [o'])
     (pc_Record (ob_now o') (ob_stream o') (ob_function o') (ob_source o') (ob_size o') (ob_reply o') pc)"
    (is "stats_inv _ ?pc")
proof -
  note fld = pc_Record_fields [where pc = pc and now = "ob_now o'" and s = "ob_stream o'" and f = "ob_function o'"
      and src = "ob_source o'" and sz = "ob_size o'" and rep = "ob_reply o'"]
  have snoc: "seen s f (obs @ [o']) = seen s f obs + (if ob_stream o' = s \<and> ob_function o' = f then 1 else 0)" for s f
    by (simp add: seen_def)
  have cnt: "count_of (pc_sfCounts pc) (s, f) = of_nat (seen s f obs)" for s f
    using assms by (simp add: stats_inv_def count_of_def)
  have "map_of (pc_sfCounts ?pc) (s, f) =
      (if seen s f (obs @ [o']) = 0 then None else Some (of_nat (seen s f (obs @ [o']))))" for s f
    using assms cnt by (auto simp: fld snoc stats_inv_def update_conv' add.commute)
  moreover have "pc_alertCount ?pc = of_nat (length (pc_alerts ?pc)) \<and>
      list_all (\<lambda>(p, score). f64_less (pc_threshold ?pc) score) (pc_alerts ?pc)"
  proof (cases "pc_alerts ?pc = pc_alerts pc")
    case True
    then show ?thesis using fld(5,7) assms by (simp add: stats_inv_def)
  next
    case False
    then obtain p score where "pc_alerts ?pc = pc_alerts pc @ [(p, score)]" "pc_alertCount ?pc = pc_alertCount pc + 1"
      "f64_less (pc_threshold pc) score" using fld(6) by blast
    then show ?thesis using fld(5) assms by (simp add: stats_inv_def)
  qed
  moreover have "set (map fst (pc_lastSeen ?pc)) = ob_source ` set (obs @ [o'])"
    using assms by (simp only: fld keys_of_update) (simp add: stats_inv_def)
  ultimately show ?thesis
    using assms by (simp add: stats_inv_def fld distinct_update)
qed

lemma stats_inv_run: "stats_inv obs (pc_observe obs (NewPatternCollector det thr))"
proof (induction obs rule: rev_induct)
  case Nil
  show ?case by (simp add: stats_inv_def pc_observe_def NewPatternCollector_def seen_def)
next
  case (snoc o' obs)
  from stats_inv_record [OF this, of o'] show ?case by (simp add: pc_observe_def)
qed

text \<open>
  The statistics of the traffic. Whatever the messages and the detector, the report counts every message once, in
  total and under the name of its stream and function, where different pairs have different names;
  it counts the different sources; and there is an alert for a message only if its score is above
  the threshold.
\<close>

theorem statistics_exact:
  fixes obs :: "observed list" and det :: "'d detector option" and thr :: float64
  defines "pc \<equiv> pc_observe obs (NewPatternCollector det thr)"
  shows "ps_total (pc_Stats pc) = of_nat (length obs) \<and>
         ps_sources (pc_Stats pc) = card (ob_source ` set obs) \<and>
         (\<forall>s f. map_of (ps_distribution (pc_Stats pc)) (sfKeyString (s, f)) =
                  (if seen s f obs = 0 then None else Some (of_nat (seen s f obs)))) \<and>
         ps_alerts (pc_Stats pc) = of_nat (length (pc_alerts pc)) \<and>
         list_all (\<lambda>(p, score). f64_less (pc_threshold pc) score) (pc_alerts pc)"
proof -
  have inv: "stats_inv obs pc" unfolding pc_def by (rule stats_inv_run)
  have "inj sfKeyString" by (simp add: inj_def sfKeyString_inj)
  from distribution_lookup [OF this, of "pc_sfCounts pc" "[]"] inv
  have "map_of (ps_distribution (pc_Stats pc)) (sfKeyString (s, f)) =
      (if seen s f obs = 0 then None else Some (of_nat (seen s f obs)))" for s f
    by (simp add: pc_Stats_def stats_inv_def)
  moreover have "length (pc_lastSeen pc) = card (ob_source ` set obs)"
    using inv by (metis stats_inv_def distinct_card length_map)
  ultimately show ?thesis using inv by (simp add: stats_inv_def pc_Stats_def)
qed

end
