(* ===== verification/Certificates.thy ===== *)
theory Certificates
  imports Go_Prelude Go_Arith
begin

text \<open>
  Certificates in \<^verbatim>\<open>pkg/security\<close>: the check for revocation (\<^verbatim>\<open>revocation.go\<close>), the key store behind a hardware
  module's interface (\<^verbatim>\<open>hsm.go\<close>) and the TLS configurations (\<^verbatim>\<open>tls.go\<close>). Of a certificate only the
  fields the code reads are kept; signing, files and what a distribution point serves are arguments. The
  lemmas show how old the list behind a positive answer can be, when a certificate is accepted, that
  a signer of the module signs like the key it stands for, and what the configurations require.
\<close>

section \<open>Revocation\<close>

record Certificate =
  ct_SerialNumber :: int
  ct_CommonName :: string
  ct_CRLDistributionPoints :: "string list"
  ct_OCSPServer :: "string list"
  ct_Raw :: "byte list"

text \<open>A revocation list is the list of its serial numbers.\<close>

type_synonym RevocationList = "int list"

record crlEntry =
  cr_list :: RevocationList
  cr_fetchedAt :: int

record RevocationChecker =
  rv_crlCache :: "(string, crlEntry) gomap"
  rv_cacheTTL :: int

definition NewRevocationChecker :: "int \<Rightarrow> RevocationChecker" where
  "NewRevocationChecker cacheTTL =
     \<lparr>rv_crlCache = [], rv_cacheTTL = (if cacheTTL = 0 then 3600000000000 else cacheTTL)\<rparr>"

datatype rev_error = FetchFailed | RevokedByCRL int string | Unverified string | OCSPBuild | RevokedByOCSP string

text \<open>\<open>served\<close> is what the distribution points serve at the time of the call: the parsed list, or \<open>None\<close> when the request,
  the status, the body or the parsing fails.\<close>

definition fetchCRL :: "(string \<Rightarrow> RevocationList option) \<Rightarrow> int \<Rightarrow> string \<Rightarrow> RevocationChecker \<Rightarrow>
    RevocationChecker \<times> (rev_error, RevocationList) res" where
  "fetchCRL served now url rc =
     (let fetch = (case served url of
            None \<Rightarrow> (rc, Err FetchFailed)
          | Some crl \<Rightarrow> (rc\<lparr>rv_crlCache := AList.update url \<lparr>cr_list = crl, cr_fetchedAt = now\<rparr> (rv_crlCache rc)\<rparr>, OK crl))
      in case map_of (rv_crlCache rc) url of
           Some e \<Rightarrow> if Sub_time now (cr_fetchedAt e) < rv_cacheTTL rc then (rc, OK (cr_list e)) else fetch
         | None \<Rightarrow> fetch)"

fun crl_loop :: "(string \<Rightarrow> RevocationList option) \<Rightarrow> int \<Rightarrow> Certificate \<Rightarrow> string list \<Rightarrow> RevocationChecker \<Rightarrow>
    RevocationChecker \<times> (rev_error, unit) res" where
  "crl_loop served now cert [] rc = (rc, Err (Unverified (ct_CommonName cert)))"
| "crl_loop served now cert (url # urls) rc =
     (case fetchCRL served now url rc of
        (rc, OK crl) \<Rightarrow>
          (rc, if ct_SerialNumber cert \<in> set crl then Err (RevokedByCRL (ct_SerialNumber cert) url) else OK ())
      | (rc, _) \<Rightarrow> crl_loop served now cert urls rc)"

definition CheckCRL :: "(string \<Rightarrow> RevocationList option) \<Rightarrow> int \<Rightarrow> Certificate \<Rightarrow> RevocationChecker \<Rightarrow>
    RevocationChecker \<times> (rev_error, unit) res" where
  "CheckCRL served now cert rc =
     (if ct_CRLDistributionPoints cert = [] then (rc, OK ())
      else crl_loop served now cert (ct_CRLDistributionPoints cert) rc)"

text \<open>Building a request is not implemented: it always fails, and the code after it is never reached.\<close>

definition buildOCSPRequest :: "Certificate \<Rightarrow> Certificate \<Rightarrow> (rev_error, byte list) res" where
  "buildOCSPRequest cert issuer = Err OCSPBuild"

definition parseOCSPResponse :: "byte list \<Rightarrow> int option" where
  "parseOCSPResponse data = None"

fun ocsp_loop :: "(string \<Rightarrow> byte list option) \<Rightarrow> Certificate \<Rightarrow> string list \<Rightarrow> (rev_error, unit) res" where
  "ocsp_loop post cert [] = OK ()"
| "ocsp_loop post cert (server # servers) =
     (case post server of
        None \<Rightarrow> ocsp_loop post cert servers
      | Some body \<Rightarrow>
          (case parseOCSPResponse body of
             None \<Rightarrow> ocsp_loop post cert servers
           | Some status \<Rightarrow>
               if status = 0 then OK ()
               else if status = 1 then Err (RevokedByOCSP (ct_CommonName cert))
               else ocsp_loop post cert servers))"

definition CheckOCSP :: "(string \<Rightarrow> byte list option) \<Rightarrow> Certificate \<Rightarrow> Certificate \<Rightarrow> (rev_error, unit) res" where
  "CheckOCSP post cert issuer =
     (if ct_OCSPServer cert = [] then OK ()
      else bind_res (buildOCSPRequest cert issuer) (\<lambda>_. ocsp_loop post cert (ct_OCSPServer cert)))"

definition VerifyCertificate ::
  "(string \<Rightarrow> RevocationList option) \<Rightarrow> (string \<Rightarrow> byte list option) \<Rightarrow> int \<Rightarrow> Certificate \<Rightarrow> Certificate option \<Rightarrow> RevocationChecker \<Rightarrow>
    RevocationChecker \<times> (rev_error, unit) res" where
  "VerifyCertificate served post now cert issuer rc =
     (case CheckCRL served now cert rc of
        (rc, OK _) \<Rightarrow> (rc, case issuer of None \<Rightarrow> OK () | Some i \<Rightarrow> CheckOCSP post cert i)
      | (rc, r) \<Rightarrow> (rc, r))"

definition ClearCache :: "RevocationChecker \<Rightarrow> RevocationChecker" where
  "ClearCache rc = rc\<lparr>rv_crlCache := []\<rparr>"

section \<open>The key store\<close>

datatype hsm_error = KeyNotFound string | NoCertificate string | GenerateFailed | SignFailed

type_synonym ('d, 's) Signer = "'d \<Rightarrow> (hsm_error, 's) res"

record ('d, 's) softKey =
  sk_signer :: "('d, 's) Signer"
  sk_cert :: "Certificate option"

type_synonym ('d, 's) SoftwareKeyStore = "(string, ('d, 's) softKey) gomap"

definition NewSoftwareKeyStore :: "('d, 's) SoftwareKeyStore" where "NewSoftwareKeyStore = []"

definition ks_GenerateKey ::
  "('d, 's) Signer option \<Rightarrow> string \<Rightarrow> ('d, 's) SoftwareKeyStore \<Rightarrow> (hsm_error, ('d, 's) SoftwareKeyStore) res" where
  "ks_GenerateKey generated keyID ks =
     (case generated of
        None \<Rightarrow> Err GenerateFailed
      | Some key \<Rightarrow> OK (AList.update keyID \<lparr>sk_signer = key, sk_cert = None\<rparr> ks))"

definition ImportKey ::
  "string \<Rightarrow> ('d, 's) Signer \<Rightarrow> Certificate option \<Rightarrow> ('d, 's) SoftwareKeyStore \<Rightarrow> ('d, 's) SoftwareKeyStore" where
  "ImportKey keyID signer cert ks = AList.update keyID \<lparr>sk_signer = signer, sk_cert = cert\<rparr> ks"

definition ks_Sign :: "('d, 's) SoftwareKeyStore \<Rightarrow> string \<Rightarrow> 'd \<Rightarrow> (hsm_error, 's) res" where
  "ks_Sign ks keyID digest =
     (case map_of ks keyID of None \<Rightarrow> Err (KeyNotFound keyID) | Some k \<Rightarrow> sk_signer k digest)"

definition GetCertificate :: "('d, 's) SoftwareKeyStore \<Rightarrow> string \<Rightarrow> (hsm_error, Certificate) res" where
  "GetCertificate ks keyID =
     (case map_of ks keyID of
        None \<Rightarrow> Err (KeyNotFound keyID)
      | Some k \<Rightarrow> (case sk_cert k of None \<Rightarrow> Err (NoCertificate keyID) | Some c \<Rightarrow> OK c))"

definition GetSigner :: "('d, 's) SoftwareKeyStore \<Rightarrow> string \<Rightarrow> (hsm_error, ('d, 's) Signer) res" where
  "GetSigner ks keyID = (case map_of ks keyID of None \<Rightarrow> Err (KeyNotFound keyID) | Some k \<Rightarrow> OK (sk_signer k))"

definition ListKeys :: "(string list \<Rightarrow> string list) \<Rightarrow> ('d, 's) SoftwareKeyStore \<Rightarrow> string list" where
  "ListKeys ord ks = ord (map fst ks)"

record ('d, 's) tls_cert =
  tc_Certificate :: "byte list list"
  tc_PrivateKey :: "('d, 's) Signer"
  tc_Leaf :: Certificate

definition TLSCertificate :: "('d, 's) SoftwareKeyStore \<Rightarrow> string \<Rightarrow> (hsm_error, ('d, 's) tls_cert) res" where
  "TLSCertificate ks keyID =
     (case map_of ks keyID of
        None \<Rightarrow> Err (KeyNotFound keyID)
      | Some k \<Rightarrow>
          (case sk_cert k of
             None \<Rightarrow> Err (NoCertificate keyID)
           | Some c \<Rightarrow> OK \<lparr>tc_Certificate = [ct_Raw c], tc_PrivateKey = sk_signer k, tc_Leaf = c\<rparr>))"

text \<open>The signer over any key store: signing is the store's.\<close>

definition hsmSigner_Sign :: "('ks \<Rightarrow> string \<Rightarrow> 'd \<Rightarrow> (hsm_error, 's) res) \<Rightarrow> 'ks \<Rightarrow> string \<Rightarrow> ('d, 's) Signer" where
  "hsmSigner_Sign sign ks keyID digest = sign ks keyID digest"

section \<open>TLS\<close>

datatype client_auth = NoClientCert | RequireAndVerifyClientCert

text \<open>A configuration over certificates \<open>'c\<close> and pools of authorities \<open>'p\<close>.\<close>

record ('c, 'p) tls_config =
  tl_MinVersion :: nat
  tl_CurvePreferences :: "string list"
  tl_CipherSuites :: "string list"
  tl_Certificates :: "'c list"
  tl_ClientCAs :: "'p option"
  tl_RootCAs :: "'p option"
  tl_ClientAuth :: client_auth
  tl_ServerName :: string

definition default_suites :: "string list" where
  "default_suites =
     [''TLS_ECDHE_ECDSA_WITH_AES_128_GCM_SHA256'', ''TLS_ECDHE_RSA_WITH_AES_128_GCM_SHA256'',
      ''TLS_ECDHE_ECDSA_WITH_AES_256_GCM_SHA384'', ''TLS_ECDHE_RSA_WITH_AES_256_GCM_SHA384'',
      ''TLS_ECDHE_ECDSA_WITH_CHACHA20_POLY1305'', ''TLS_ECDHE_RSA_WITH_CHACHA20_POLY1305'']"

definition DefaultTLSConfig :: "('c, 'p) tls_config" where
  "DefaultTLSConfig =
     \<lparr>tl_MinVersion = 0x0303, tl_CurvePreferences = [''X25519'', ''CurveP256''], tl_CipherSuites = default_suites,
      tl_Certificates = [], tl_ClientCAs = None, tl_RootCAs = None, tl_ClientAuth = NoClientCert, tl_ServerName = []\<rparr>"

datatype tls_error = LoadCert | ReadCA | ParseCA

text \<open>\<open>load\<close> reads a key pair, \<open>ca\<close> a file of authorities and whether it has a certificate in it.\<close>

definition load_ca :: "(string \<Rightarrow> bool option) \<Rightarrow> string \<Rightarrow> (tls_error, string) res" where
  "load_ca ca caFile =
     (case ca caFile of None \<Rightarrow> Err ReadCA | Some False \<Rightarrow> Err ParseCA | Some True \<Rightarrow> OK caFile)"

definition LoadServerTLS ::
  "(string \<Rightarrow> string \<Rightarrow> string option) \<Rightarrow> (string \<Rightarrow> bool option) \<Rightarrow> string \<Rightarrow> string \<Rightarrow> string \<Rightarrow> (tls_error, (string, string) tls_config) res" where
  "LoadServerTLS load ca certFile keyFile caFile =
     (case load certFile keyFile of
        None \<Rightarrow> Err LoadCert
      | Some cert \<Rightarrow>
          let cfg = DefaultTLSConfig\<lparr>tl_Certificates := [cert]\<rparr>
          in if caFile \<noteq> [] then
               bind_res (load_ca ca caFile) (\<lambda>pool.
                 OK (cfg\<lparr>tl_ClientCAs := Some pool, tl_ClientAuth := RequireAndVerifyClientCert\<rparr>))
             else OK cfg)"

definition LoadClientTLS ::
  "(string \<Rightarrow> string \<Rightarrow> string option) \<Rightarrow> (string \<Rightarrow> bool option) \<Rightarrow> string \<Rightarrow> string \<Rightarrow> string \<Rightarrow> (tls_error, (string, string) tls_config) res" where
  "LoadClientTLS load ca certFile keyFile caFile =
     bind_res (if certFile \<noteq> [] \<and> keyFile \<noteq> []
               then (case load certFile keyFile of None \<Rightarrow> Err LoadCert | Some cert \<Rightarrow> OK (DefaultTLSConfig\<lparr>tl_Certificates := [cert]\<rparr>))
               else OK DefaultTLSConfig)
       (\<lambda>cfg. if caFile \<noteq> [] then bind_res (load_ca ca caFile) (\<lambda>pool. OK (cfg\<lparr>tl_RootCAs := Some pool\<rparr>)) else OK cfg)"

subsection \<open>Certificates for tests\<close>

text \<open>
  Of a template only what the code sets. The random source and the standard library's cryptography are
  arguments: the \<open>i\<close>-th generated key, the signing of a template by a parent, the parsing of a certificate, the
  pairing of a certificate with its key, and the \<open>i\<close>-th reading of the clock.
\<close>

record cert_template =
  tp_SerialNumber :: int
  tp_Organization :: "string list"
  tp_CommonName :: string
  tp_NotBefore :: int
  tp_NotAfter :: int
  tp_KeyUsage :: "string list"
  tp_ExtKeyUsage :: "string list"
  tp_BasicConstraintsValid :: bool
  tp_IsCA :: bool
  tp_IPAddresses :: "nat list list"
  tp_DNSNames :: "string list"

record ('k, 'd, 'x, 'c) crypto =
  cy_key :: "nat \<Rightarrow> 'k option"
  cy_self :: "cert_template \<Rightarrow> 'k \<Rightarrow> 'd option"
  cy_issue :: "cert_template \<Rightarrow> 'x \<Rightarrow> 'k \<Rightarrow> 'k \<Rightarrow> 'd option"
  cy_parse :: "'d \<Rightarrow> 'x option"
  cy_pair :: "'d \<Rightarrow> 'k \<Rightarrow> 'c option"
  cy_now :: "nat \<Rightarrow> int"

definition day :: int where "day = 24 * 3600 * 1000000000"

definition ca_template :: "(nat \<Rightarrow> int) \<Rightarrow> cert_template" where
  "ca_template now =
     \<lparr>tp_SerialNumber = 1, tp_Organization = [''Test CA''], tp_CommonName = [], tp_NotBefore = now 0, tp_NotAfter = now 1 + day,
      tp_KeyUsage = [''CertSign'', ''CRLSign''], tp_ExtKeyUsage = [], tp_BasicConstraintsValid = True, tp_IsCA = True,
      tp_IPAddresses = [], tp_DNSNames = []\<rparr>"

text \<open>\<open>t\<close> is the number of clock readings before.\<close>

definition leaf_template :: "(nat \<Rightarrow> int) \<Rightarrow> nat \<Rightarrow> string \<Rightarrow> cert_template" where
  "leaf_template now t name =
     \<lparr>tp_SerialNumber = now t, tp_Organization = [], tp_CommonName = name, tp_NotBefore = now (t + 1), tp_NotAfter = now (t + 2) + day,
      tp_KeyUsage = [''DigitalSignature''], tp_ExtKeyUsage = [''ServerAuth'', ''ClientAuth''], tp_BasicConstraintsValid = False,
      tp_IsCA = False, tp_IPAddresses = [[127, 0, 0, 1]], tp_DNSNames = [''localhost'']\<rparr>"

definition generateCert :: "('k, 'd, 'x, 'c) crypto \<Rightarrow> nat \<Rightarrow> nat \<Rightarrow> 'x \<Rightarrow> 'k \<Rightarrow> string \<Rightarrow> 'c option" where
  "generateCert cy i t caCert caKey name =
     Option.bind (cy_key cy i) (\<lambda>key.
     Option.bind (cy_issue cy (leaf_template (cy_now cy) t name) caCert key caKey) (\<lambda>der.
     cy_pair cy der key))"

definition GenerateTestTLSConfigs ::
  "('k, 'd, 'x, 'c) crypto \<Rightarrow> (('c, 'x list) tls_config \<times> ('c, 'x list) tls_config) option" where
  "GenerateTestTLSConfigs cy =
     Option.bind (cy_key cy 0) (\<lambda>caKey.
     Option.bind (cy_self cy (ca_template (cy_now cy)) caKey) (\<lambda>caDER.
     Option.bind (cy_parse cy caDER) (\<lambda>caCert.
     let caPool = [caCert] in
     Option.bind (generateCert cy 1 2 caCert caKey ''server'') (\<lambda>serverCert.
     Option.bind (generateCert cy 2 5 caCert caKey ''client'') (\<lambda>clientCert.
     Some (DefaultTLSConfig\<lparr>tl_Certificates := [serverCert], tl_ClientCAs := Some caPool,
             tl_ClientAuth := RequireAndVerifyClientCert\<rparr>,
           DefaultTLSConfig\<lparr>tl_Certificates := [clientCert], tl_RootCAs := Some caPool, tl_ServerName := ''localhost''\<rparr>))))))"

section \<open>How fresh an answer is\<close>

text \<open>A history of checks: \<open>world t url\<close> is what the point serves at time \<open>t\<close>; the checker runs at times that
  do not go back.\<close>

definition cache_ok :: "(int \<Rightarrow> string \<Rightarrow> RevocationList option) \<Rightarrow> int \<Rightarrow> RevocationChecker \<Rightarrow> bool" where
  "cache_ok world now rc \<longleftrightarrow>
     (\<forall>url e. map_of (rv_crlCache rc) url = Some e \<longrightarrow>
        world (cr_fetchedAt e) url = Some (cr_list e) \<and> cr_fetchedAt e \<le> now)"

inductive checker_run :: "(int \<Rightarrow> string \<Rightarrow> RevocationList option) \<Rightarrow> int \<Rightarrow> int \<Rightarrow> RevocationChecker \<Rightarrow> bool" for world ttl where
  checker_new: "checker_run world ttl now (NewRevocationChecker ttl)"
| checker_time: "checker_run world ttl now rc \<Longrightarrow> now \<le> later \<Longrightarrow> checker_run world ttl later rc"
| checker_verify: "checker_run world ttl now rc \<Longrightarrow> VerifyCertificate (world now) post now cert issuer rc = (rc', r) \<Longrightarrow>
    checker_run world ttl now rc'"
| checker_clear: "checker_run world ttl now rc \<Longrightarrow> checker_run world ttl now (ClearCache rc)"

lemma fetchCRL_ok:
  assumes "cache_ok world now rc" and "fetchCRL (world now) now url rc = (rc', r)"
  shows "cache_ok world now rc'" and "rv_cacheTTL rc' = rv_cacheTTL rc"
    and "r = OK crl \<Longrightarrow> \<exists>t \<le> now. world t url = Some crl \<and> (t = now \<or> Sub_time now t < rv_cacheTTL rc)"
  using assms
  by (auto simp: fetchCRL_def cache_ok_def update_conv' Let_def split: option.splits if_split_asm)

lemma crl_loop_ok:
  assumes "cache_ok world now rc" and "crl_loop (world now) now cert urls rc = (rc', r)"
  shows "cache_ok world now rc' \<and> rv_cacheTTL rc' = rv_cacheTTL rc \<and>
     (r = OK () \<longrightarrow> (\<exists>url \<in> set urls. \<exists>t \<le> now. \<exists>crl. world t url = Some crl \<and> ct_SerialNumber cert \<notin> set crl \<and>
        (t = now \<or> Sub_time now t < rv_cacheTTL rc)))"
  using assms
proof (induction urls arbitrary: rc)
  case (Cons url urls)
  obtain rc1 r1 where f: "fetchCRL (world now) now url rc = (rc1, r1)" by fastforce
  note ok = fetchCRL_ok [OF Cons.prems(1) f]
  show ?case
  proof (cases r1)
    case (OK crl)
    with Cons.prems(2) f have "rc' = rc1" "r = OK () \<Longrightarrow> ct_SerialNumber cert \<notin> set crl"
      by (auto split: if_split_asm)
    with ok OK show ?thesis by fastforce
  next
    case (Err e)
    with Cons.prems(2) f have "crl_loop (world now) now cert urls rc1 = (rc', r)" by simp
    from Cons.IH [OF ok(1) this] ok(2) show ?thesis by auto
  next
    case Panic
    with Cons.prems(2) f have "crl_loop (world now) now cert urls rc1 = (rc', r)" by simp
    from Cons.IH [OF ok(1) this] ok(2) show ?thesis by auto
  qed
qed auto

lemma CheckCRL_ok:
  assumes "cache_ok world now rc" and "CheckCRL (world now) now cert rc = (rc', r)"
  shows "cache_ok world now rc' \<and> rv_cacheTTL rc' = rv_cacheTTL rc \<and>
     (r = OK () \<longrightarrow> ct_CRLDistributionPoints cert = [] \<or>
       (\<exists>url \<in> set (ct_CRLDistributionPoints cert). \<exists>t \<le> now. \<exists>crl. world t url = Some crl \<and>
          ct_SerialNumber cert \<notin> set crl \<and> (t = now \<or> Sub_time now t < rv_cacheTTL rc)))"
proof (cases "ct_CRLDistributionPoints cert = []")
  case True
  with assms show ?thesis by (simp add: CheckCRL_def)
next
  case False
  with assms(2) have "crl_loop (world now) now cert (ct_CRLDistributionPoints cert) rc = (rc', r)" by (simp add: CheckCRL_def)
  from crl_loop_ok [OF assms(1) this] show ?thesis by blast
qed

lemma VerifyCertificate_cases:
  assumes "VerifyCertificate served post now cert issuer rc = (rc', r)"
  obtains r1 where "CheckCRL served now cert rc = (rc', r1)" "r = OK () \<Longrightarrow> r1 = OK ()"
    "r = OK () \<Longrightarrow> issuer = None \<or> ct_OCSPServer cert = []"
  using assms
  by (auto simp: VerifyCertificate_def CheckOCSP_def buildOCSPRequest_def split: prod.splits res.splits option.splits if_split_asm)

definition effective_ttl :: "int \<Rightarrow> int" where
  "effective_ttl ttl = (if ttl = 0 then 3600000000000 else ttl)"

lemma checker_run_ok: "checker_run world ttl now rc \<Longrightarrow> cache_ok world now rc \<and> rv_cacheTTL rc = effective_ttl ttl"
proof (induction rule: checker_run.induct)
  case (checker_new now)
  show ?case by (simp add: cache_ok_def NewRevocationChecker_def effective_ttl_def)
next
  case (checker_time now rc later)
  then show ?case by (fastforce simp: cache_ok_def)
next
  case (checker_verify now rc post cert issuer rc' r)
  from checker_verify(2) obtain r1 where "CheckCRL (world now) now cert rc = (rc', r1)"
    by (rule VerifyCertificate_cases)
  with checker_verify CheckCRL_ok show ?case by metis
next
  case (checker_clear now rc)
  then show ?case by (simp add: cache_ok_def ClearCache_def)
qed


definition demo_cert :: Certificate where
  "demo_cert = \<lparr>ct_SerialNumber = 7, ct_CommonName = ''eq'', ct_CRLDistributionPoints = [''a'', ''b''], ct_OCSPServer = [], ct_Raw = []\<rparr>"


section \<open>The signer of a key store\<close>

text \<open>The interface of a key store, as far as a signer relies on it: the signer a store hands out
  signs as the store does.\<close>

locale key_store =
  fixes sign :: "'ks \<Rightarrow> string \<Rightarrow> 'd \<Rightarrow> (hsm_error, 's) res"
    and get_signer :: "'ks \<Rightarrow> string \<Rightarrow> (hsm_error, ('d, 's) Signer) res"
  assumes signer_signs: "get_signer ks k = OK sg \<Longrightarrow> sign ks k d = sg d"
    and unknown_key: "get_signer ks k = Err e \<Longrightarrow> sign ks k d = Err e"
begin

lemma module_signer: "get_signer ks k = OK sg \<Longrightarrow> hsmSigner_Sign sign ks k = sg"
  by (rule ext) (simp add: hsmSigner_Sign_def signer_signs)

lemma module_signer_unknown: "get_signer ks k = Err e \<Longrightarrow> hsmSigner_Sign sign ks k d = Err e"
  by (simp add: hsmSigner_Sign_def unknown_key)

end

interpretation soft: key_store ks_Sign GetSigner
  by unfold_locales (auto simp: ks_Sign_def GetSigner_def split: option.splits)

text \<open>
  Keys in the store. After a key is imported, the signer over the store and the private key of the
  certificate it makes for TLS both sign with exactly that key, and the keys under other names are
  as before.
\<close>

theorem imported_key_signs:
  fixes ks :: "('d, 's) SoftwareKeyStore" and sg :: "('d, 's) Signer" and k :: string and cert :: Certificate
  defines "ks' \<equiv> ImportKey k sg (Some cert) ks"
  shows "hsmSigner_Sign ks_Sign ks' k = sg \<and>
         (\<exists>tc. TLSCertificate ks' k = OK tc \<and> tc_PrivateKey tc = sg \<and> tc_Leaf tc = cert \<and> tc_Certificate tc = [ct_Raw cert]) \<and>
         (\<forall>j. j \<noteq> k \<longrightarrow> GetSigner ks' j = GetSigner ks j \<and> GetCertificate ks' j = GetCertificate ks j)"
proof (intro conjI allI impI)
  have "GetSigner ks' k = OK sg" by (simp add: ks'_def ImportKey_def GetSigner_def update_conv')
  then show "hsmSigner_Sign ks_Sign ks' k = sg" by (rule soft.module_signer)
  show "\<exists>tc. TLSCertificate ks' k = OK tc \<and> tc_PrivateKey tc = sg \<and> tc_Leaf tc = cert \<and> tc_Certificate tc = [ct_Raw cert]"
    by (simp add: ks'_def ImportKey_def TLSCertificate_def update_conv')
  fix j
  assume "j \<noteq> k"
  then show "GetSigner ks' j = GetSigner ks j" "GetCertificate ks' j = GetCertificate ks j"
    by (simp_all add: ks'_def ImportKey_def GetSigner_def GetCertificate_def update_conv')
qed

theorem imported_key_signs_witness:
  "hsmSigner_Sign ks_Sign (ImportKey ''k'' (\<lambda>d. OK (rev d)) (Some demo_cert) NewSoftwareKeyStore) ''k'' [1::nat, 2] = OK [2, 1]"
  using imported_key_signs [of "''k''" "\<lambda>d :: nat list. OK (rev d)" demo_cert NewSoftwareKeyStore] by simp

section \<open>What the configurations require\<close>

lemma default_tls:
  "tl_MinVersion DefaultTLSConfig = 0x0303" "tl_ClientAuth DefaultTLSConfig = NoClientCert" "tl_Certificates DefaultTLSConfig = []"
  "tl_ClientCAs DefaultTLSConfig = None" "tl_RootCAs DefaultTLSConfig = None" "tl_CipherSuites DefaultTLSConfig = default_suites"
  by (simp_all add: DefaultTLSConfig_def)

lemma load_ca_OK: "load_ca ca f = OK pool \<longleftrightarrow> ca f = Some True \<and> pool = f"
  by (auto simp: load_ca_def split: option.splits bool.splits)

text \<open>
  TLS configurations. Whatever files are given, a configuration that is returned demands at least
  version 1.2 and offers ephemeral key exchange with authenticated encryption only; a server asks for client
  certificates exactly if a file of authorities is named; a client presents a certificate
  exactly if both its files are named.
\<close>

theorem tls_configurations:
  assumes "LoadServerTLS load ca certFile keyFile caFile = OK server"
    and "LoadClientTLS load ca certFile2 keyFile2 caFile2 = OK client"
  shows "(\<forall>cfg \<in> {server, client}. tl_MinVersion cfg = 0x0303 \<and> tl_CipherSuites cfg = default_suites) \<and>
         (tl_ClientAuth server = RequireAndVerifyClientCert \<longleftrightarrow> caFile \<noteq> []) \<and>
         (tl_ClientCAs server = (if caFile \<noteq> [] then Some caFile else None)) \<and>
         (tl_Certificates client \<noteq> [] \<longleftrightarrow> certFile2 \<noteq> [] \<and> keyFile2 \<noteq> []) \<and>
         (tl_RootCAs client = (if caFile2 \<noteq> [] then Some caFile2 else None))"
  using assms
  by (auto simp: LoadServerTLS_def LoadClientTLS_def bind_res_eq_OK load_ca_OK default_tls Let_def
      split: option.splits if_split_asm)

theorem tls_configurations_witness:
  "\<exists>server. LoadServerTLS (\<lambda>c k. Some c) (\<lambda>f. Some True) ''c'' ''k'' ''ca'' = OK server \<and>
     tl_ClientAuth server = RequireAndVerifyClientCert"
proof -
  obtain server client where "LoadServerTLS (\<lambda>c k. Some c) (\<lambda>f. Some True) ''c'' ''k'' ''ca'' = OK server"
    "LoadClientTLS (\<lambda>c k. Some c) (\<lambda>f. Some True) [] [] [] = OK client"
    by (simp add: LoadServerTLS_def LoadClientTLS_def load_ca_def res_simps Let_def)
  from tls_configurations [OF this] this show ?thesis by simp
qed

definition issued_for :: "('k, 'd, 'x, 'c) crypto \<Rightarrow> 'x \<Rightarrow> 'k \<Rightarrow> string \<Rightarrow> 'c \<Rightarrow> bool" where
  "issued_for cy caCert caKey host c \<longleftrightarrow>
     (\<exists>i t name key der. cy_key cy i = Some key \<and> 0 < i \<and> cy_issue cy (leaf_template (cy_now cy) t name) caCert key caKey = Some der \<and>
        cy_pair cy der key = Some c \<and> host \<in> set (tp_DNSNames (leaf_template (cy_now cy) t name)) \<and>
        {''ServerAuth'', ''ClientAuth''} \<subseteq> set (tp_ExtKeyUsage (leaf_template (cy_now cy) t name)) \<and>
        tp_NotAfter (leaf_template (cy_now cy) t name) = cy_now cy (t + 2) + day)"

lemma leaf_template_parts:
  "tp_DNSNames (leaf_template now t name) = [''localhost'']" "tp_ExtKeyUsage (leaf_template now t name) = [''ServerAuth'', ''ClientAuth'']"
  "tp_NotAfter (leaf_template now t name) = now (t + 2) + day"
  by (simp_all add: leaf_template_def)

text \<open>
  What the test configurations promise each other. When the generator succeeds, the server demands client
  certificates and both sides trust exactly one authority; each side presents one certificate, which that
  authority's key issued, for both directions, under the name the client asks for, with its own key, and
  not valid for more than a day beyond the clock readings.
\<close>

theorem test_tls_pair:
  assumes "GenerateTestTLSConfigs cy = Some (server, client)"
  shows "\<exists>caCert caKey caDER sc cc. cy_key cy 0 = Some caKey \<and> cy_self cy (ca_template (cy_now cy)) caKey = Some caDER \<and>
           cy_parse cy caDER = Some caCert \<and>
           tl_ClientAuth server = RequireAndVerifyClientCert \<and> tl_ClientCAs server = Some [caCert] \<and> tl_RootCAs client = Some [caCert] \<and>
           tl_Certificates server = [sc] \<and> issued_for cy caCert caKey (tl_ServerName client) sc \<and>
           tl_Certificates client = [cc] \<and> issued_for cy caCert caKey (tl_ServerName client) cc \<and>
           tl_MinVersion server = 0x0303 \<and> tl_MinVersion client = 0x0303"
proof -
  from assms obtain caKey caDER caCert sc cc where 1: "cy_key cy 0 = Some caKey"
    "cy_self cy (ca_template (cy_now cy)) caKey = Some caDER" "cy_parse cy caDER = Some caCert"
    "generateCert cy 1 2 caCert caKey ''server'' = Some sc" "generateCert cy 2 5 caCert caKey ''client'' = Some cc"
    and 2: "server = DefaultTLSConfig\<lparr>tl_Certificates := [sc], tl_ClientCAs := Some [caCert],
             tl_ClientAuth := RequireAndVerifyClientCert\<rparr>"
      "client = DefaultTLSConfig\<lparr>tl_Certificates := [cc], tl_RootCAs := Some [caCert], tl_ServerName := ''localhost''\<rparr>"
    by (auto simp: GenerateTestTLSConfigs_def bind_eq_Some_conv Let_def)
  have "issued_for cy caCert caKey ''localhost'' c" if "generateCert cy i t caCert caKey name = Some c" "0 < i" for i t name c
    using that by (simp add: generateCert_def issued_for_def bind_eq_Some_conv leaf_template_parts) blast
  from this [OF 1(4)] this [OF 1(5)] 1 2 show ?thesis by (simp add: DefaultTLSConfig_def)
qed

theorem test_tls_pair_witness:
  "\<exists>server client. GenerateTestTLSConfigs \<lparr>cy_key = Some, cy_self = (\<lambda>t k. Some k), cy_issue = (\<lambda>t p k s. Some (k + 10 * s)),
       cy_parse = Some, cy_pair = (\<lambda>d k. Some d), cy_now = int\<rparr> = Some (server, client) \<and>
     tl_ClientAuth server = RequireAndVerifyClientCert"
proof -
  let ?cy = "\<lparr>cy_key = Some, cy_self = (\<lambda>t k. Some k), cy_issue = (\<lambda>t p k s. Some (k + 10 * s)),
       cy_parse = Some, cy_pair = (\<lambda>d k. Some d), cy_now = int\<rparr> :: (nat, nat, nat, nat) crypto"
  obtain server client where "GenerateTestTLSConfigs ?cy = Some (server, client)"
    by (simp add: GenerateTestTLSConfigs_def generateCert_def Let_def)
  from test_tls_pair [OF this] this show ?thesis by blast
qed

end
