(* ===== verification/Connect_Command.thy ===== *)
theory Connect_Command
  imports Sim_Host
begin

text \<open>
  The command \<^verbatim>\<open>connect\<close> of the command line (\<^verbatim>\<open>cmd/secsgem/main.go\<close>): a host that opens a session,
  establishes communication, asks for the identification and the variables of the equipment, and then shows
  what it receives. The session is the one of \<open>Hsms_Session\<close>; the exchange of one message is an argument,
  as in \<open>Sim_Host\<close>, and so is the outcome of the Select handshake. What the program logs is a list of the
  items it shows. The lemmas say what it shows of an equipment and what it does to it.
\<close>

section \<open>The command\<close>

datatype command = CmdUsage | CmdSimulate | CmdConnect | CmdStudio | CmdVersion

text \<open>The choice of \<^verbatim>\<open>main\<close> by the arguments; \<open>CmdUsage\<close> ends with status 1.\<close>

definition main_command :: "string list \<Rightarrow> command" where
  "main_command args =
     (if length args < 2 then CmdUsage
      else if args ! 1 = ''simulate'' then CmdSimulate
      else if args ! 1 = ''connect'' then CmdConnect
      else if args ! 1 = ''studio'' then CmdStudio
      else if args ! 1 = ''version'' then CmdVersion
      else CmdUsage)"

record connect_flags =
  cf_session :: int
  cf_args :: "string list"

text \<open>What is logged: the body of an answer or of a received message.\<close>

datatype shown =
    ShowReply byte Item
  | ShowFailed byte
  | ShowReceived byte byte nat
  | ShowBody Item

definition show_reply :: "byte \<Rightarrow> Message option \<Rightarrow> shown list" where
  "show_reply f reply =
     (case reply of
        None \<Rightarrow> []
      | Some m \<Rightarrow> if MData m = [] then [] else (case Decode (MData m) of OK it \<Rightarrow> [ShowReply f it] | _ \<Rightarrow> []))"

definition sendS1F1 :: "'w exchange \<Rightarrow> uint16 \<Rightarrow> 'w \<Rightarrow> 'w \<times> shown list" where
  "sendS1F1 send sessionID w =
     (case send (NewDataMessage sessionID 1 1 True 0 []) w of
        (w, OK reply) \<Rightarrow> (w, show_reply 2 reply)
      | (w, _) \<Rightarrow> (w, [ShowFailed 1]))"

definition sendS1F11 :: "'w exchange \<Rightarrow> uint16 \<Rightarrow> 'w \<Rightarrow> 'w \<times> shown list" where
  "sendS1F11 send sessionID w =
     (case send (NewDataMessage sessionID 1 11 True 0 []) w of
        (w, OK reply) \<Rightarrow> (w, show_reply 12 reply)
      | (w, _) \<Rightarrow> (w, [ShowFailed 11]))"

text \<open>The goroutine that receives: the messages up to the first error.\<close>

definition show_received :: "Message \<Rightarrow> shown list" where
  "show_received m =
     ShowReceived (Stream (MHeader m)) (Function (MHeader m)) (length (MData m)) #
       (if MData m = [] then [] else (case Decode (MData m) of OK it \<Rightarrow> [ShowBody it] | _ \<Rightarrow> []))"

fun receive_loop :: "Message option list \<Rightarrow> shown list" where
  "receive_loop [] = []"
| "receive_loop (None # rs) = []"
| "receive_loop (Some m # rs) = show_received m @ receive_loop rs"

text \<open>The first result is \<open>None\<close> when the program exits with status 1; the error of the encoder is ignored.\<close>

definition connect_body :: "byte list" where
  "connect_body =
     (case Encode (Some (NewList [Some (NewASCII ''HOST''), Some (NewASCII ''1.0.0'')])) of OK data \<Rightarrow> data | _ \<Rightarrow> [])"

definition connect_session :: "connect_flags \<Rightarrow> Session" where
  "connect_session fl = NewSession (DefaultConfig RoleActive (word_of_int (cf_session fl)))"

definition runConnect ::
  "bool \<times> bool \<times> ip \<Rightarrow> bool \<Rightarrow> 'w exchange \<Rightarrow> connect_flags \<Rightarrow> 'w \<Rightarrow> 'w \<times> shown list option" where
  "runConnect net selected send fl w =
     (case net of (net_ok, tls_ok, peer) \<Rightarrow>
        if length (cf_args fl) < 1 then (w, None)
        else if \<not> is_ok (snd (Connect net_ok tls_ok peer (connect_session fl))) then (w, None)
        else if \<not> selected then (w, None)
        else case send (NewDataMessage (word_of_int (cf_session fl)) 1 13 True 0 connect_body) w of
               (w, OK reply) \<Rightarrow>
                 (case sendS1F1 send (word_of_int (cf_session fl)) w of
                    (w, l1) \<Rightarrow>
                      (case sendS1F11 send (word_of_int (cf_session fl)) w of
                         (w, l11) \<Rightarrow> (w, Some (show_reply 14 reply @ l1 @ l11))))
             | (w, _) \<Rightarrow> (w, None))"

section \<open>Against the equipment\<close>

lemma connect_body_bytes: "connect_body = item_bytes host_item"
proof -
  have "wf_item host_item" by (simp add: host_item_def wf_eval)
  from Encode_wf [OF this] show ?thesis by (simp add: connect_body_def host_item_def)
qed

lemma show_reply_item: "wf_item it \<Longrightarrow> show_reply f (Some (NewDataMessage sid s g b n (item_bytes it))) = [ShowReply f (norm_item it)]"
  using Decode_item_bytes [of it] item_bytes_nonempty [of it] by (simp add: show_reply_def NewDataMessage_def)

lemma show_reply_none: "show_reply f (Some (NewDataMessage sid s g b n [])) = []"
  by (simp add: show_reply_def NewDataMessage_def)

text \<open>
  One request over the link: what is shown of its answer, and what it leaves of the equipment.
\<close>

lemma link_vars:
  assumes "h_customHandlers h = []" and "f mod 2 = 1" and "wf_item it"
    and "builtin ord s f data h = Some (OK (hb, it))"
  shows "h_vars (fst (fst (direct_link ord (NewDataMessage sid s f True 0 data) (h, n)))) =
           (if IsAllowed (h_policy h) s f then h_vars hb else h_vars h)"
  using assms Encode_wf [OF assms(3)]
  by (simp add: direct_link_def HandleMessage_def IsControlMessage_def sendReply_def Let_def new_message_defs)

lemma link_shows:
  assumes "h_customHandlers h = []" and "f mod 2 = 1" and "wf_item it"
    and "builtin ord s f data h = Some (OK (hb, it))" and "same_equipment h hb" and "h_outbox hb = h_outbox h"
    and "h_vars hb = h_vars h"
  shows "\<exists>h' r. direct_link ord (NewDataMessage sid s f True 0 data) (h, n) = ((h', n + 1), OK r) \<and>
           show_reply g r = (if IsAllowed (h_policy h) s f then [ShowReply g (norm_item it)] else []) \<and>
           h_state h' = (if IsAllowed (h_policy h) s f then h_state hb else h_state h) \<and>
           same_equipment h h' \<and> h_vars h' = h_vars h"
  using link_request [OF assms(1-6), of sid n] link_vars [OF assms(1-4), of sid n] assms(7)
    show_reply_item [OF assms(3)] show_reply_none
  by (auto split: if_split_asm)

text \<open>
  The command against equipment without handlers of its own, over an established session: it ends, and
  it shows, for each of the three requests that the policy allows, the answer of the equipment in the order
  S1F14, S1F2, S1F12, the last with the variables the equipment had. The requests change nothing of the
  equipment but its communication state, and that only when S1F13 is allowed.
\<close>

theorem connect_shows_equipment:
  assumes "cf_args fl \<noteq> []" and "is_ok (snd (Connect net_ok tls_ok peer (connect_session fl)))"
    and "h_customHandlers h = []" and "length (h_mdln h) \<le> max_len" and "length (h_softrev h) \<le> max_len"
    and "handleS1F11 ord h = OK names" and "wf_item names"
  shows "\<exists>h'. runConnect (net_ok, tls_ok, peer) True (direct_link ord) fl (h, n) =
           ((h', n + 3),
            Some ((if IsAllowed (h_policy h) 1 13 then [ShowReply 14 (norm_item (snd (handleS1F13 h)))] else []) @
                  (if IsAllowed (h_policy h) 1 1 then [ShowReply 2 (norm_item (handleS1F1 h))] else []) @
                  (if IsAllowed (h_policy h) 1 11 then [ShowReply 12 (norm_item names)] else []))) \<and>
           h_state h' = (if IsAllowed (h_policy h) 1 13 then h_state (fst (handleS1F13 h)) else h_state h) \<and>
           h_vars h' = h_vars h \<and> same_equipment h h'"
proof -
  let ?sid = "word_of_int (cf_session fl) :: uint16"
  let ?p = "\<lambda>f. IsAllowed (h_policy h) 1 f"
  obtain h1 r1 where 1: "direct_link ord (NewDataMessage ?sid 1 13 True 0 connect_body) (h, n) = ((h1, n + 1), OK r1)"
    "show_reply 14 r1 = (if ?p 13 then [ShowReply 14 (norm_item (snd (handleS1F13 h)))] else [])"
    "h_state h1 = (if ?p 13 then h_state (fst (handleS1F13 h)) else h_state h)" "same_equipment h h1" "h_vars h1 = h_vars h"
    using link_shows [OF assms(3) _ wf_replies(2) [OF assms(4,5)], of 13 ord 1 connect_body "fst (handleS1F13 h)" ?sid n 14]
    by (auto simp: builtin_def same_equipment_def handleS1F13_def Let_def)
  then have e1: "h_customHandlers h1 = []" "h_policy h1 = h_policy h" "h_mdln h1 = h_mdln h" "h_softrev h1 = h_softrev h"
    using assms(3) by (simp_all add: same_equipment_def)
  have names1: "handleS1F1 h1 = handleS1F1 h" by (simp add: handleS1F1_def e1)
  obtain h2 r2 where 2: "direct_link ord (NewDataMessage ?sid 1 1 True 0 []) (h1, n + 1) = ((h2, n + 1 + 1), OK r2)"
    "show_reply 2 r2 = (if ?p 1 then [ShowReply 2 (norm_item (handleS1F1 h))] else [])"
    "h_state h2 = h_state h1" "same_equipment h1 h2" "h_vars h2 = h_vars h1"
    using link_shows [OF e1(1), of 1 "handleS1F1 h1" ord 1 "[]" h1 ?sid "n + 1" 2] wf_replies(1) [OF assms(4,5)] e1 names1
    by (auto simp: builtin_def same_equipment_def)
  then have e2: "h_customHandlers h2 = []" "h_policy h2 = h_policy h"
    using e1 by (simp_all add: same_equipment_def)
  have names2: "handleS1F11 ord h2 = OK names"
    using assms(6) 1(5) 2(5) by (simp add: handleS1F11_def)
  obtain h3 r3 where 3: "direct_link ord (NewDataMessage ?sid 1 11 True 0 []) (h2, n + 1 + 1) = ((h3, n + 1 + 1 + 1), OK r3)"
    "show_reply 12 r3 = (if ?p 11 then [ShowReply 12 (norm_item names)] else [])"
    "h_state h3 = h_state h2" "same_equipment h2 h3" "h_vars h3 = h_vars h2"
    using link_shows [OF e2(1) _ assms(7), of 11 ord 1 "[]" h2 ?sid "n + 1 + 1" 12] e2 names2
    by (auto simp: builtin_def same_equipment_def keep_def)
  have "runConnect (net_ok, tls_ok, peer) True (direct_link ord) fl (h, n) =
      ((h3, n + 1 + 1 + 1), Some (show_reply 14 r1 @ show_reply 2 r2 @ show_reply 12 r3))"
    using assms(1,2) by (simp add: runConnect_def sendS1F1_def sendS1F11_def 1(1) 2(1) 3(1) [simplified])
  moreover have "n + 1 + 1 + 1 = n + 3" by simp
  moreover have "same_equipment h h3" using 1(4) 2(4) 3(4) by (simp add: same_equipment_def)
  ultimately show ?thesis using 1(2,3,5) 2(2,3,5) 3(2,3,5) by auto
qed

definition demo_connect :: connect_flags where
  "demo_connect = \<lparr>cf_session = 1, cf_args = [''h:5000'']\<rparr>"

theorem connect_shows_equipment_witness:
  "\<exists>h' out. runConnect (True, True, []) True (direct_link id) demo_connect
       (SetPolicy FullAccessPolicy (NewHandler 1 ''EQ'' ''1.0''), 0) = ((h', 3), Some out) \<and>
     length out = 3 \<and> IsCommunicating (h_state h')"
proof -
  let ?h = "SetPolicy FullAccessPolicy (NewHandler 1 ''EQ'' ''1.0'')"
  have p: "IsAllowed (h_policy ?h) 1 f" for f by (simp add: SetPolicy_def FullAccessPolicy_def IsAllowed_def)
  have names: "handleS1F11 id ?h = OK (NewList [])" "wf_item (NewList [])"
    by (simp_all add: handleS1F11_def SetPolicy_def NewHandler_def ListSVIDs_def NewVariableStore_def wf_eval)
  have h: "h_customHandlers ?h = []" "length (h_mdln ?h) \<le> max_len" "length (h_softrev ?h) \<le> max_len"
    by (simp_all add: SetPolicy_def NewHandler_def max_len_def)
  have net: "cf_args demo_connect \<noteq> []" "is_ok (snd (Connect True True [] (connect_session demo_connect)))"
    by (simp_all add: demo_connect_def connect_session_def Connect_def NewSession_def DefaultConfig_def connectActive_def Let_def)
  have "IsCommunicating (h_state (fst (handleS1F13 ?h)))"
    by (simp add: handleS1F13_def SetPolicy_def NewHandler_def NewStateMachine_def EnableComm_def CommEstablished_def
        notifyChange_def ok_or_def IsCommunicating_def Let_def)
  with connect_shows_equipment [OF net h names, of 0] p show ?thesis by fastforce
qed

end
