(* ===== verification/Opcua_Client.thy ===== *)
theory Opcua_Client
  imports Go_Prelude
begin

text \<open>
  The OPC UA client (\<^verbatim>\<open>pkg/transport/opcua/client.go\<close>). The library it wraps is an argument: its calls are the
  fields of \<open>ua_lib\<close>, on connections \<open>'c\<close>, node ids \<open>'n\<close>, values \<open>'v\<close>, subscriptions \<open>'s\<close> and a world
  \<open>'l\<close> of the library and the server. The calls made on connections and subscriptions are recorded.
  An operation is one step: the model is of a client that one goroutine uses. The lemmas show that only open
  connections are used, what a read of several nodes returns and when it panics, and which subscriptions are kept.
\<close>

section \<open>Configuration\<close>

record opcua_Config =
  oc_Endpoint :: string
  oc_SecurityPolicy :: string
  oc_SecurityMode :: string
  oc_CertFile :: string
  oc_KeyFile :: string
  oc_Username :: string
  oc_Password :: string
  oc_RequestTimeout :: int

definition opcua_DefaultConfig :: "string \<Rightarrow> opcua_Config" where
  "opcua_DefaultConfig endpoint =
     \<lparr>oc_Endpoint = endpoint, oc_SecurityPolicy = ''None'', oc_SecurityMode = ''None'', oc_CertFile = [], oc_KeyFile = [],
      oc_Username = [], oc_Password = [], oc_RequestTimeout = 10 * 1000000000\<rparr>"

text \<open>The options of the library; a security mode is given by its name.\<close>

datatype ua_option =
    OptSecurityPolicy string
  | OptSecurityMode string
  | OptCertificateFile string
  | OptPrivateKeyFile string
  | OptAuthUsername string string
  | OptAuthAnonymous

definition connect_options :: "opcua_Config \<Rightarrow> ua_option list" where
  "connect_options cfg =
     [OptSecurityPolicy (oc_SecurityPolicy cfg)]
     @ (if oc_SecurityMode cfg \<noteq> [] \<and> oc_SecurityMode cfg \<noteq> ''None'' then [OptSecurityMode (oc_SecurityMode cfg)] else [])
     @ (if oc_CertFile cfg \<noteq> [] \<and> oc_KeyFile cfg \<noteq> []
        then [OptCertificateFile (oc_CertFile cfg), OptPrivateKeyFile (oc_KeyFile cfg)] else [])
     @ (if oc_Username cfg \<noteq> [] then [OptAuthUsername (oc_Username cfg) (oc_Password cfg)] else [OptAuthAnonymous])"

section \<open>The library\<close>

definition StatusOK :: uint32 where
  "StatusOK = 0"

record 'n ua_reference =
  rf_NodeID :: 'n
  rf_BrowseName :: string
  rf_DisplayName :: string
  rf_NodeClass :: string

record ('c, 'n, 'v, 's, 'l) ua_lib =
  ua_NewClient :: "string \<Rightarrow> ua_option list \<Rightarrow> 'l \<Rightarrow> 'c option \<times> 'l"
  ua_Connect :: "'c \<Rightarrow> 'l \<Rightarrow> bool \<times> 'l"
  ua_Close :: "'c \<Rightarrow> 'l \<Rightarrow> bool \<times> 'l"
  ua_ParseNodeID :: "string \<Rightarrow> 'n option"
  ua_NodeString :: "'n \<Rightarrow> string"
  ua_Read :: "'c \<Rightarrow> 'n list \<Rightarrow> 'l \<Rightarrow> (uint32 \<times> 'v) list option \<times> 'l"
  ua_Write :: "'c \<Rightarrow> 'n \<Rightarrow> 'v \<Rightarrow> 'l \<Rightarrow> uint32 list option \<times> 'l"
  ua_Browse :: "'c \<Rightarrow> 'n \<Rightarrow> 'l \<Rightarrow> 'n ua_reference list list option \<times> 'l"
  ua_NewNodeMonitor :: "'c \<Rightarrow> 'l \<Rightarrow> bool \<times> 'l"
  ua_ChanSubscribe :: "'c \<Rightarrow> int \<Rightarrow> string list \<Rightarrow> 'l \<Rightarrow> ('s \<times> uint32) option \<times> 'l"
  ua_Unsubscribe :: "'s \<Rightarrow> 'l \<Rightarrow> bool \<times> 'l"

datatype ('c, 'n, 'v, 's) ua_call =
    CallConnect 'c bool
  | CallClose 'c
  | CallRead 'c "'n list"
  | CallWrite 'c 'n 'v
  | CallBrowse 'c 'n
  | CallMonitor 'c
  | CallSubscribe 'c "string list" "('s \<times> uint32) option"
  | CallUnsubscribe uint32 's

datatype ua_error =
    ErrCreateClient
  | ErrConnect string
  | ErrClose
  | ErrParseNode string
  | ErrNotConnected
  | ErrRead string
  | ErrReadMany
  | ErrNoResults string
  | ErrReadStatus string uint32
  | ErrWrite
  | ErrWriteStatus uint32
  | ErrBrowse
  | ErrMonitor
  | ErrSubscribe
  | ErrNoSubscription uint32
  | ErrUnsubscribe

section \<open>The client\<close>

record ('c, 'n, 'v, 's) opcua_Client =
  oc_config :: opcua_Config
  oc_client :: "'c option"
  oc_subs :: "(uint32, 's) gomap"
  oc_calls :: "('c, 'n, 'v, 's) ua_call list"

definition opcua_NewClient :: "opcua_Config \<Rightarrow> ('c, 'n, 'v, 's) opcua_Client" where
  "opcua_NewClient cfg = \<lparr>oc_config = cfg, oc_client = None, oc_subs = [], oc_calls = []\<rparr>"

definition record_call :: "('c, 'n, 'v, 's) ua_call \<Rightarrow> ('c, 'n, 'v, 's) opcua_Client \<Rightarrow> ('c, 'n, 'v, 's) opcua_Client" where
  "record_call x c = c\<lparr>oc_calls := oc_calls c @ [x]\<rparr>"

definition oc_Connect ::
  "('c, 'n, 'v, 's, 'l) ua_lib \<Rightarrow> ('c, 'n, 'v, 's) opcua_Client \<times> 'l \<Rightarrow>
     (ua_error, unit) res \<times> ('c, 'n, 'v, 's) opcua_Client \<times> 'l" where
  "oc_Connect lib = (\<lambda>(c, l).
     case ua_NewClient lib (oc_Endpoint (oc_config c)) (connect_options (oc_config c)) l of
       (None, l) \<Rightarrow> (Err ErrCreateClient, c, l)
     | (Some h, l) \<Rightarrow>
         (case ua_Connect lib h l of
            (False, l) \<Rightarrow> (Err (ErrConnect (oc_Endpoint (oc_config c))), record_call (CallConnect h False) c, l)
          | (True, l) \<Rightarrow> (OK (), record_call (CallConnect h True) c\<lparr>oc_client := Some h\<rparr>, l)))"

definition oc_Close ::
  "('c, 'n, 'v, 's, 'l) ua_lib \<Rightarrow> ('c, 'n, 'v, 's) opcua_Client \<times> 'l \<Rightarrow>
     (ua_error, unit) res \<times> ('c, 'n, 'v, 's) opcua_Client \<times> 'l" where
  "oc_Close lib = (\<lambda>(c, l).
     case oc_client c of
       None \<Rightarrow> (OK (), c, l)
     | Some h \<Rightarrow>
         (case ua_Close lib h l of
            (ok, l) \<Rightarrow> (if ok then OK () else Err ErrClose, record_call (CallClose h) (c\<lparr>oc_client := None\<rparr>), l)))"

definition oc_ReadValue ::
  "('c, 'n, 'v, 's, 'l) ua_lib \<Rightarrow> string \<Rightarrow> ('c, 'n, 'v, 's) opcua_Client \<times> 'l \<Rightarrow>
     (ua_error, 'v) res \<times> ('c, 'n, 'v, 's) opcua_Client \<times> 'l" where
  "oc_ReadValue lib nodeID = (\<lambda>(c, l).
     case ua_ParseNodeID lib nodeID of
       None \<Rightarrow> (Err (ErrParseNode nodeID), c, l)
     | Some n \<Rightarrow>
         (case oc_client c of
            None \<Rightarrow> (Err ErrNotConnected, c, l)
          | Some h \<Rightarrow>
              (case ua_Read lib h [n] l of
                 (resp, l) \<Rightarrow>
                   ((case resp of
                       None \<Rightarrow> Err (ErrRead nodeID)
                     | Some [] \<Rightarrow> Err (ErrNoResults nodeID)
                     | Some ((st, v) # _) \<Rightarrow> if st \<noteq> StatusOK then Err (ErrReadStatus nodeID st) else OK v),
                    record_call (CallRead h [n]) c, l))))"

fun parse_nodes :: "(string \<Rightarrow> 'n option) \<Rightarrow> string list \<Rightarrow> (ua_error, 'n list) res" where
  "parse_nodes p [] = OK []"
| "parse_nodes p (nid # nids) =
     (case p nid of None \<Rightarrow> Err (ErrParseNode nid)
      | Some n \<Rightarrow> bind_res (parse_nodes p nids) (\<lambda>ns. OK (n # ns)))"

text \<open>
  The loop over the results: the first list is what is left of \<^verbatim>\<open>nodeIDs\<close> from the index on, and reading
  past its end panics.
\<close>

fun collect_results :: "string list \<Rightarrow> (uint32 \<times> 'v) list \<Rightarrow> (string, 'v) gomap \<Rightarrow> (ua_error, (string, 'v) gomap) res" where
  "collect_results nids [] m = OK m"
| "collect_results nids ((st, v) # rs) m =
     (if st = StatusOK then
        (case nids of [] \<Rightarrow> Panic | nid # _ \<Rightarrow> collect_results (tl nids) rs (AList.update nid v m))
      else collect_results (tl nids) rs m)"

definition oc_ReadMultiple ::
  "('c, 'n, 'v, 's, 'l) ua_lib \<Rightarrow> string list \<Rightarrow> ('c, 'n, 'v, 's) opcua_Client \<times> 'l \<Rightarrow>
     (ua_error, (string, 'v) gomap) res \<times> ('c, 'n, 'v, 's) opcua_Client \<times> 'l" where
  "oc_ReadMultiple lib nodeIDs = (\<lambda>(c, l).
     case parse_nodes (ua_ParseNodeID lib) nodeIDs of
       Panic \<Rightarrow> (Panic, c, l)
     | Err e \<Rightarrow> (Err e, c, l)
     | OK ns \<Rightarrow>
         (case oc_client c of
            None \<Rightarrow> (Err ErrNotConnected, c, l)
          | Some h \<Rightarrow>
              (case ua_Read lib h ns l of
                 (resp, l) \<Rightarrow>
                   ((case resp of None \<Rightarrow> Err ErrReadMany | Some rs \<Rightarrow> collect_results nodeIDs rs []),
                    record_call (CallRead h ns) c, l))))"

definition oc_WriteValue ::
  "('c, 'n, 'v, 's, 'l) ua_lib \<Rightarrow> string \<Rightarrow> 'v \<Rightarrow> ('c, 'n, 'v, 's) opcua_Client \<times> 'l \<Rightarrow>
     (ua_error, unit) res \<times> ('c, 'n, 'v, 's) opcua_Client \<times> 'l" where
  "oc_WriteValue lib nodeID v = (\<lambda>(c, l).
     case ua_ParseNodeID lib nodeID of
       None \<Rightarrow> (Err (ErrParseNode nodeID), c, l)
     | Some n \<Rightarrow>
         (case oc_client c of
            None \<Rightarrow> (Err ErrNotConnected, c, l)
          | Some h \<Rightarrow>
              (case ua_Write lib h n v l of
                 (resp, l) \<Rightarrow>
                   ((case resp of
                       None \<Rightarrow> Err ErrWrite
                     | Some [] \<Rightarrow> OK ()
                     | Some (st # _) \<Rightarrow> if st \<noteq> StatusOK then Err (ErrWriteStatus st) else OK ()),
                    record_call (CallWrite h n v) c, l))))"

record NodeInfo =
  ni_NodeID :: string
  ni_BrowseName :: string
  ni_DisplayName :: string
  ni_NodeClass :: string

definition node_info :: "('n \<Rightarrow> string) \<Rightarrow> 'n ua_reference \<Rightarrow> NodeInfo" where
  "node_info str r =
     \<lparr>ni_NodeID = str (rf_NodeID r), ni_BrowseName = rf_BrowseName r, ni_DisplayName = rf_DisplayName r,
      ni_NodeClass = rf_NodeClass r\<rparr>"

definition oc_BrowseNode ::
  "('c, 'n, 'v, 's, 'l) ua_lib \<Rightarrow> string \<Rightarrow> ('c, 'n, 'v, 's) opcua_Client \<times> 'l \<Rightarrow>
     (ua_error, NodeInfo list) res \<times> ('c, 'n, 'v, 's) opcua_Client \<times> 'l" where
  "oc_BrowseNode lib nodeID = (\<lambda>(c, l).
     case ua_ParseNodeID lib nodeID of
       None \<Rightarrow> (Err (ErrParseNode nodeID), c, l)
     | Some n \<Rightarrow>
         (case oc_client c of
            None \<Rightarrow> (Err ErrNotConnected, c, l)
          | Some h \<Rightarrow>
              (case ua_Browse lib h n l of
                 (resp, l) \<Rightarrow>
                   ((case resp of
                       None \<Rightarrow> Err ErrBrowse
                     | Some [] \<Rightarrow> OK []
                     | Some (refs # _) \<Rightarrow> OK (map (node_info (ua_NodeString lib)) refs)),
                    record_call (CallBrowse h n) c, l))))"

definition oc_Subscribe ::
  "('c, 'n, 'v, 's, 'l) ua_lib \<Rightarrow> string list \<Rightarrow> int \<Rightarrow> ('c, 'n, 'v, 's) opcua_Client \<times> 'l \<Rightarrow>
     (ua_error, uint32) res \<times> ('c, 'n, 'v, 's) opcua_Client \<times> 'l" where
  "oc_Subscribe lib nodeIDs interval = (\<lambda>(c, l).
     case oc_client c of
       None \<Rightarrow> (Err ErrNotConnected, c, l)
     | Some h \<Rightarrow>
         (case ua_NewNodeMonitor lib h l of
            (False, l) \<Rightarrow> (Err ErrMonitor, record_call (CallMonitor h) c, l)
          | (True, l) \<Rightarrow>
              (case ua_ChanSubscribe lib h interval nodeIDs l of
                 (None, l) \<Rightarrow> (Err ErrSubscribe, record_call (CallSubscribe h nodeIDs None) (record_call (CallMonitor h) c), l)
               | (Some (sub, i), l) \<Rightarrow>
                   (OK i, record_call (CallSubscribe h nodeIDs (Some (sub, i))) (record_call (CallMonitor h) c)
                            \<lparr>oc_subs := AList.update i sub (oc_subs c)\<rparr>, l))))"

definition oc_Unsubscribe ::
  "('c, 'n, 'v, 's, 'l) ua_lib \<Rightarrow> uint32 \<Rightarrow> ('c, 'n, 'v, 's) opcua_Client \<times> 'l \<Rightarrow>
     (ua_error, unit) res \<times> ('c, 'n, 'v, 's) opcua_Client \<times> 'l" where
  "oc_Unsubscribe lib subID = (\<lambda>(c, l).
     case map_of (oc_subs c) subID of
       None \<Rightarrow> (Err (ErrNoSubscription subID), c, l)
     | Some sub \<Rightarrow>
         (case ua_Unsubscribe lib sub l of
            (ok, l) \<Rightarrow> (if ok then OK () else Err ErrUnsubscribe,
                       record_call (CallUnsubscribe subID sub) (c\<lparr>oc_subs := AList.delete subID (oc_subs c)\<rparr>), l)))"

text \<open>
  The goroutine of a subscription: what its \<^verbatim>\<open>select\<close> chooses, in order. The result is the calls of the
  handler, and whether the goroutine has returned.
\<close>

datatype ('n, 'v) sub_event =
    SubDone
  | SubClosed
  | SubError
  | SubChange 'n 'v int

fun deliver_changes :: "('n \<Rightarrow> string) \<Rightarrow> ('n, 'v) sub_event list \<Rightarrow> (string \<times> 'v \<times> int) list \<times> bool" where
  "deliver_changes str [] = ([], False)"
| "deliver_changes str (SubDone # es) = ([], True)"
| "deliver_changes str (SubClosed # es) = ([], True)"
| "deliver_changes str (SubError # es) = deliver_changes str es"
| "deliver_changes str (SubChange n v t # es) =
     (let (hs, fin) = deliver_changes str es in ((str n, v, t) # hs, fin))"

section \<open>Runs of a client\<close>

datatype 'v oc_op =
    OpConnect
  | OpClose
  | OpReadValue string
  | OpReadMultiple "string list"
  | OpWriteValue string 'v
  | OpBrowseNode string
  | OpSubscribe "string list" int
  | OpUnsubscribe uint32

fun oc_step :: "('c, 'n, 'v, 's, 'l) ua_lib \<Rightarrow> 'v oc_op \<Rightarrow> ('c, 'n, 'v, 's) opcua_Client \<times> 'l \<Rightarrow>
    ('c, 'n, 'v, 's) opcua_Client \<times> 'l" where
  "oc_step lib OpConnect st = snd (oc_Connect lib st)"
| "oc_step lib OpClose st = snd (oc_Close lib st)"
| "oc_step lib (OpReadValue n) st = snd (oc_ReadValue lib n st)"
| "oc_step lib (OpReadMultiple ns) st = snd (oc_ReadMultiple lib ns st)"
| "oc_step lib (OpWriteValue n v) st = snd (oc_WriteValue lib n v st)"
| "oc_step lib (OpBrowseNode n) st = snd (oc_BrowseNode lib n st)"
| "oc_step lib (OpSubscribe ns i) st = snd (oc_Subscribe lib ns i st)"
| "oc_step lib (OpUnsubscribe i) st = snd (oc_Unsubscribe lib i st)"

definition oc_run :: "('c, 'n, 'v, 's, 'l) ua_lib \<Rightarrow> 'v oc_op list \<Rightarrow> ('c, 'n, 'v, 's) opcua_Client \<times> 'l \<Rightarrow>
    ('c, 'n, 'v, 's) opcua_Client \<times> 'l" where
  "oc_run lib ops st = fold (oc_step lib) ops st"

section \<open>Only open connections are used\<close>

fun call_on :: "('c, 'n, 'v, 's) ua_call \<Rightarrow> 'c option" where
  "call_on (CallConnect _ _) = None"
| "call_on (CallClose h) = Some h"
| "call_on (CallRead h _) = Some h"
| "call_on (CallWrite h _ _) = Some h"
| "call_on (CallBrowse h _) = Some h"
| "call_on (CallMonitor h) = Some h"
| "call_on (CallSubscribe h _ _) = Some h"
| "call_on (CallUnsubscribe _ _) = None"

text \<open>After these calls the connection was opened and not closed since.\<close>

definition open_after :: "('c, 'n, 'v, 's) ua_call list \<Rightarrow> 'c \<Rightarrow> bool" where
  "open_after cs h \<longleftrightarrow> (\<exists>xs ys. cs = xs @ CallConnect h True # ys \<and> CallClose h \<notin> set ys)"

definition calls_open :: "('c, 'n, 'v, 's) ua_call list \<Rightarrow> bool" where
  "calls_open cs \<longleftrightarrow> (\<forall>i < length cs. \<forall>h. call_on (cs ! i) = Some h \<longrightarrow> open_after (take i cs) h)"

definition oc_inv :: "('c, 'n, 'v, 's) opcua_Client \<Rightarrow> bool" where
  "oc_inv c \<longleftrightarrow> calls_open (oc_calls c) \<and> (\<forall>h. oc_client c = Some h \<longrightarrow> open_after (oc_calls c) h)"

lemma open_after_snoc:
  "open_after (cs @ [x]) h \<longleftrightarrow> x = CallConnect h True \<or> open_after cs h \<and> x \<noteq> CallClose h"
proof
  assume "open_after (cs @ [x]) h"
  then obtain xs ys where *: "cs @ [x] = xs @ CallConnect h True # ys" "CallClose h \<notin> set ys"
    by (auto simp: open_after_def)
  show "x = CallConnect h True \<or> open_after cs h \<and> x \<noteq> CallClose h"
  proof (cases ys rule: rev_cases)
    case Nil
    with * show ?thesis by simp
  next
    case (snoc ys' y)
    with * have "cs = xs @ CallConnect h True # ys'" "x = y" by simp_all
    with * snoc show ?thesis by (auto simp: open_after_def)
  qed
next
  assume r: "x = CallConnect h True \<or> open_after cs h \<and> x \<noteq> CallClose h"
  show "open_after (cs @ [x]) h"
  proof (cases "x = CallConnect h True")
    case True
    then show ?thesis unfolding open_after_def by (intro exI [of _ cs] exI [of _ "[]"]) simp
  next
    case False
    with r obtain xs ys where "cs = xs @ CallConnect h True # ys" "CallClose h \<notin> set ys" "x \<noteq> CallClose h"
      by (auto simp: open_after_def)
    then show ?thesis unfolding open_after_def by (intro exI [of _ xs] exI [of _ "ys @ [x]"]) auto
  qed
qed

lemma calls_open_snoc:
  "calls_open (cs @ [x]) \<longleftrightarrow> calls_open cs \<and> (\<forall>h. call_on x = Some h \<longrightarrow> open_after cs h)"
  by (auto simp: calls_open_def nth_append less_Suc_eq)

text \<open>One recorded call that is on the client's connection, or on none, and closes nothing.\<close>

lemma record_call_inv:
  assumes "oc_inv c" "call_on x = oc_client c \<or> call_on x = None" "\<And>h. x \<noteq> CallClose h"
  shows "oc_inv (record_call x c)"
  using assms by (auto simp: oc_inv_def record_call_def calls_open_snoc open_after_snoc)

lemma oc_inv_subs [simp]: "oc_inv (c\<lparr>oc_subs := m\<rparr>) = oc_inv c"
  by (simp add: oc_inv_def)

lemma record_call_frame [simp]:
  "oc_client (record_call x c) = oc_client c" "oc_subs (record_call x c) = oc_subs c"
  "oc_config (record_call x c) = oc_config c" "oc_calls (record_call x c) = oc_calls c @ [x]"
  by (simp_all add: record_call_def)

lemma oc_Connect_inv:
  assumes "oc_inv c"
  shows "oc_inv (fst (snd (oc_Connect lib (c, l))))"
  using assms
  by (auto simp: oc_Connect_def oc_inv_def calls_open_snoc open_after_snoc split: prod.split option.split bool.split)

lemma oc_Close_inv:
  assumes "oc_inv c"
  shows "oc_inv (fst (snd (oc_Close lib (c, l))))"
  using assms by (auto simp: oc_Close_def oc_inv_def calls_open_snoc split: prod.split option.split)

lemma oc_request_inv:
  assumes "oc_inv c"
  shows "oc_inv (fst (snd (oc_ReadValue lib n (c, l))))" "oc_inv (fst (snd (oc_ReadMultiple lib ns (c, l))))"
    "oc_inv (fst (snd (oc_WriteValue lib n v (c, l))))" "oc_inv (fst (snd (oc_BrowseNode lib n (c, l))))"
    "oc_inv (fst (snd (oc_Subscribe lib ns i (c, l))))" "oc_inv (fst (snd (oc_Unsubscribe lib k (c, l))))"
  using assms
  by (auto simp: oc_ReadValue_def oc_ReadMultiple_def oc_WriteValue_def oc_BrowseNode_def oc_Subscribe_def
      oc_Unsubscribe_def split: prod.split option.split res.split bool.split intro!: record_call_inv)

lemma oc_step_inv: "oc_inv (fst st) \<Longrightarrow> oc_inv (fst (oc_step lib x st))"
  by (cases st; cases x) (simp_all add: oc_Connect_inv oc_Close_inv oc_request_inv)

lemma oc_run_inv: "oc_inv (fst st) \<Longrightarrow> oc_inv (fst (oc_run lib ops st))"
  by (induction ops arbitrary: st) (simp_all add: oc_run_def oc_step_inv)


section \<open>Reading several nodes\<close>

definition good_results :: "string list \<Rightarrow> (uint32 \<times> 'v) list \<Rightarrow> (string \<times> 'v) list" where
  "good_results nids rs = map (\<lambda>(nid, st, v). (nid, v)) (filter (\<lambda>(nid, st, v). st = StatusOK) (zip nids rs))"

lemma good_results_Nil [simp]: "good_results [] rs = []" "good_results nids [] = []"
  by (simp_all add: good_results_def)

lemma good_results_Cons [simp]:
  "good_results (nid # nids) ((st, v) # rs) = (if st = StatusOK then [(nid, v)] else []) @ good_results nids rs"
  by (simp add: good_results_def)

lemma collect_results_spec:
  "(if \<exists>r \<in> set (drop (length nids) rs). fst r = StatusOK then collect_results nids rs m = Panic
    else \<exists>m'. collect_results nids rs m = OK m' \<and> map_of m' = map_of m ++ map_of (rev (good_results nids rs)))"
proof (induction nids rs m rule: collect_results.induct)
  case (2 nids st v rs m)
  show ?case
  proof (cases nids)
    case Nil
    with 2(2) [unfolded Nil list.sel] show ?thesis by (auto split: if_split_asm)
  next
    case (Cons nid nids')
    note IH = 2 [unfolded Cons list.sel]
    show ?thesis
    proof (cases "st = StatusOK")
      case True
      have "map_of (AList.update nid v m) = map_of m ++ [nid \<mapsto> v]"
        by (simp only: update_conv' map_add_upd map_add_empty)
      with IH(1) [OF True refl] True show ?thesis by (auto simp: Cons fun_upd_def [symmetric] split: if_split_asm)
    next
      case False
      with IH(2) show ?thesis by (simp add: Cons split: if_split_asm)
    qed
  qed
qed simp

lemma good_results_distinct:
  assumes "distinct nids" "length rs = length nids" "i < length nids"
  shows "map_of (rev (good_results nids rs)) (nids ! i) = (if fst (rs ! i) = StatusOK then Some (snd (rs ! i)) else None)"
proof -
  have keys: "map fst (good_results nids rs) = map fst (filter (\<lambda>(nid, st, v). st = StatusOK) (zip nids rs))"
    by (simp add: good_results_def case_prod_beta comp_def)
  have zip: "distinct (map fst (zip nids rs))" using assms by simp
  have dist: "distinct (map fst (rev (good_results nids rs)))"
    using distinct_map_filter [OF zip, of "\<lambda>(nid, st, v). st = StatusOK"] keys by (simp add: rev_map [symmetric])
  have mem: "(nids ! i, v) \<in> set (good_results nids rs) \<longleftrightarrow> rs ! i = (StatusOK, v)" for v
  proof
    assume "(nids ! i, v) \<in> set (good_results nids rs)"
    then obtain k where "k < length nids" "nids ! k = nids ! i" "rs ! k = (StatusOK, v)"
      using assms by (auto simp: good_results_def set_zip)
    with assms show "rs ! i = (StatusOK, v)" by (simp add: nth_eq_iff_index_eq)
  next
    assume "rs ! i = (StatusOK, v)"
    then show "(nids ! i, v) \<in> set (good_results nids rs)"
      using assms by (force simp: good_results_def set_zip)
  qed
  show ?thesis
  proof (cases "fst (rs ! i) = StatusOK")
    case True
    then have "(nids ! i, snd (rs ! i)) \<in> set (rev (good_results nids rs))"
      using mem [of "snd (rs ! i)"] by (cases "rs ! i") simp
    with dist True show ?thesis by (simp add: map_of_is_SomeI del: map_of_eq_Some_iff)
  next
    case False
    have "map_of (rev (good_results nids rs)) (nids ! i) = None"
    proof (rule ccontr)
      assume "\<not> ?thesis"
      then obtain v where "(nids ! i, v) \<in> set (good_results nids rs)" by (auto dest!: map_of_SomeD)
      with mem [of v] False show False by simp
    qed
    with False show ?thesis by simp
  qed
qed

text \<open>
  Reading several different nodes, when the server sends one result for each: the map has exactly the values
  of the nodes that were read well, each under its own name.
\<close>

theorem read_multiple_exact:
  assumes "oc_client c = Some h" and "parse_nodes (ua_ParseNodeID lib) nids = OK ns"
    and "ua_Read lib h ns l = (Some rs, l')" and "distinct nids" and "length rs = length nids"
  shows "\<exists>m. oc_ReadMultiple lib nids (c, l) = (OK m, record_call (CallRead h ns) c, l')
      \<and> dom (map_of m) \<subseteq> set nids
      \<and> (\<forall>i < length nids. map_of m (nids ! i) = (if fst (rs ! i) = StatusOK then Some (snd (rs ! i)) else None))"
proof -
  from assms(5) collect_results_spec [of nids rs "[]"]
  obtain m where "collect_results nids rs [] = OK m" and m: "map_of m = map_of (rev (good_results nids rs))"
    by auto
  with assms(1-3) have "oc_ReadMultiple lib nids (c, l) = (OK m, record_call (CallRead h ns) c, l')"
    by (simp add: oc_ReadMultiple_def)
  moreover have "dom (map_of m) \<subseteq> set nids"
    unfolding m dom_map_of_conv_image_fst by (auto simp: good_results_def dest: set_zip_leftD)
  ultimately show ?thesis
    using good_results_distinct [OF assms(4,5)] m by (intro exI [of _ m]) simp
qed

text \<open>
  A server that sends more good results than nodes were asked for makes the client panic: the loop indexes
  the names by the position of the result.
\<close>

theorem read_multiple_surplus:
  assumes "oc_client c = Some h" and "parse_nodes (ua_ParseNodeID lib) nids = OK ns"
    and "ua_Read lib h ns l = (Some rs, l')" and "r \<in> set (drop (length nids) rs)" and "fst r = StatusOK"
  shows "fst (oc_ReadMultiple lib nids (c, l)) = Panic"
  using collect_results_spec [of nids rs "[]"] assms by (auto simp: oc_ReadMultiple_def split: if_split_asm)

section \<open>Subscriptions\<close>

fun sub_effect :: "('c, 'n, 'v, 's) ua_call \<Rightarrow> (uint32 \<rightharpoonup> 's) \<Rightarrow> uint32 \<rightharpoonup> 's" where
  "sub_effect (CallSubscribe _ _ (Some (sub, i))) m = m(i \<mapsto> sub)"
| "sub_effect (CallUnsubscribe i _) m = m(i := None)"
| "sub_effect _ m = m"

definition live_subs :: "('c, 'n, 'v, 's) ua_call list \<Rightarrow> uint32 \<rightharpoonup> 's" where
  "live_subs cs = fold sub_effect cs Map.empty"

lemma live_subs_append [simp]: "live_subs (cs @ xs) = fold sub_effect xs (live_subs cs)"
  by (simp add: live_subs_def)

lemma oc_step_subs:
  assumes "map_of (oc_subs (fst st)) = live_subs (oc_calls (fst st))"
  shows "map_of (oc_subs (fst (oc_step lib x st))) = live_subs (oc_calls (fst (oc_step lib x st)))"
proof -
  obtain c l where st: "st = (c, l)" by (cases st)
  show ?thesis
    using assms unfolding st
    by (cases x) (auto simp: oc_Connect_def oc_Close_def oc_ReadValue_def oc_ReadMultiple_def oc_WriteValue_def
        oc_BrowseNode_def oc_Subscribe_def oc_Unsubscribe_def update_conv' delete_conv'
        split: prod.split option.split res.split bool.split)
qed

text \<open>
  The client's table holds exactly the subscriptions made and not yet removed, over all connections: a
  close leaves them in the table, although their connection is gone.
\<close>

theorem subscriptions_kept:
  fixes lib :: "('c, 'n, 'v, 's, 'l) ua_lib"
  assumes "oc_run lib ops (opcua_NewClient cfg, l) = (c, l')"
  shows "map_of (oc_subs c) = live_subs (oc_calls c)"
    and "oc_subs (fst (snd (oc_Close lib (c, l')))) = oc_subs c"
proof -
  have "map_of (oc_subs (fst st)) = live_subs (oc_calls (fst st)) \<Longrightarrow>
      map_of (oc_subs (fst (oc_run lib ops st))) = live_subs (oc_calls (fst (oc_run lib ops st)))" for st
    by (induction ops arbitrary: st) (simp_all add: oc_run_def oc_step_subs)
  from this [of "(opcua_NewClient cfg, l)"] assms show "map_of (oc_subs c) = live_subs (oc_calls c)"
    by (simp add: opcua_NewClient_def live_subs_def)
  show "oc_subs (fst (snd (oc_Close lib (c, l')))) = oc_subs c"
    by (simp add: oc_Close_def split: option.split prod.split)
qed

section \<open>An example\<close>

text \<open>A library whose connections are numbered; its server knows two nodes, the second with a bad status.\<close>

definition demo_lib :: "(nat, string, int, nat, nat) ua_lib" where
  "demo_lib =
     \<lparr>ua_NewClient = (\<lambda>_ _ l. (Some l, Suc l)), ua_Connect = (\<lambda>_ l. (True, l)), ua_Close = (\<lambda>_ l. (True, l)),
      ua_ParseNodeID = Some, ua_NodeString = id,
      ua_Read = (\<lambda>_ ns l. (Some (map (\<lambda>n. if n = ''a'' then (StatusOK, 7) else (1, 0)) ns), l)),
      ua_Write = (\<lambda>_ _ _ l. (Some [StatusOK], l)), ua_Browse = (\<lambda>_ _ l. (Some [[]], l)),
      ua_NewNodeMonitor = (\<lambda>_ l. (True, l)), ua_ChanSubscribe = (\<lambda>_ _ _ l. (Some (l, word_of_nat l), Suc l)),
      ua_Unsubscribe = (\<lambda>_ l. (True, l))\<rparr>"

lemmas oc_defs = demo_lib_def opcua_NewClient_def oc_Connect_def oc_Close_def oc_ReadMultiple_def oc_Subscribe_def
  oc_WriteValue_def record_call_def opcua_DefaultConfig_def StatusOK_def


theorem read_multiple_exact_witness:
  "\<exists>m. fst (oc_ReadMultiple demo_lib [''a'', ''b''] (oc_run demo_lib [OpConnect] (opcua_NewClient (opcua_DefaultConfig ''u''), 0))) = OK m
     \<and> map_of m ''a'' = Some 7 \<and> map_of m ''b'' = None"
proof -
  let ?st = "oc_run demo_lib [OpConnect] (opcua_NewClient (opcua_DefaultConfig ''u''), 0)"
  have "oc_client (fst ?st) = Some 0" by (simp add: oc_run_def oc_defs)
  moreover have "parse_nodes (ua_ParseNodeID demo_lib) [''a'', ''b''] = OK [''a'', ''b'']" by (simp add: demo_lib_def)
  moreover have "ua_Read demo_lib 0 [''a'', ''b''] (snd ?st) = (Some [(StatusOK, 7), (1, 0)], snd ?st)" by (simp add: demo_lib_def)
  moreover have "distinct [''a'', ''b'']" "length [(StatusOK, 7 :: int), (1, 0)] = length [''a'', ''b'']" by simp_all
  ultimately have "\<exists>m. oc_ReadMultiple demo_lib [''a'', ''b''] (fst ?st, snd ?st)
        = (OK m, record_call (CallRead 0 [''a'', ''b'']) (fst ?st), snd ?st)
      \<and> dom (map_of m) \<subseteq> set [''a'', ''b'']
      \<and> (\<forall>i < length [''a'', ''b'']. map_of m ([''a'', ''b''] ! i)
         = (if fst ([(StatusOK, 7 :: int), (1, 0)] ! i) = StatusOK then Some (snd ([(StatusOK, 7 :: int), (1, 0)] ! i)) else None))"
    by (intro read_multiple_exact)
  then obtain m where m: "oc_ReadMultiple demo_lib [''a'', ''b''] (fst ?st, snd ?st)
        = (OK m, record_call (CallRead 0 [''a'', ''b'']) (fst ?st), snd ?st)"
      "\<forall>i < length [''a'', ''b'']. map_of m ([''a'', ''b''] ! i)
         = (if fst ([(StatusOK, 7 :: int), (1, 0)] ! i) = StatusOK then Some (snd ([(StatusOK, 7 :: int), (1, 0)] ! i)) else None)"
    by blast
  from m(2) have "map_of m ''a'' = Some 7" "map_of m ''b'' = None"
    by (simp_all add: All_less_Suc StatusOK_def)
  with m(1) show ?thesis by (metis fst_conv prod.collapse)
qed

end
