(* ===== verification/Metrics.thy ===== *)
theory Metrics
  imports Go_Quote Rate_Limiter
begin

text \<open>
  The metrics of the simulator (\<^verbatim>\<open>pkg/metrics/metrics.go\<close>): the counters, the labels of the GEM state, and
  the text that the HTTP handler writes for a Prometheus server, with the formats \<^verbatim>\<open>%d\<close>, \<^verbatim>\<open>%q\<close> and
  \<^verbatim>\<open>%.1f\<close> it uses. Which runes beyond ASCII are printable is an argument.
  The lemmas show that a reader of the text gets back every counter.
\<close>

section \<open>The collector\<close>

record Collector =
  mc_startTime :: int
  ConnectionsTotal :: int
  ConnectionsActive :: int
  ConnectionsFailed :: int
  ReconnectsTotal :: int
  MessagesReceived :: int
  MessagesSent :: int
  MessagesDropped :: int
  DecodeErrors :: int
  TLSHandshakeFail :: int
  AuthFailures :: int
  RateLimited :: int
  AlarmsActive :: int
  AlarmsTotal :: int
  mc_commState :: string
  mc_controlState :: string
  mc_equipment :: string

definition NewCollector :: "int \<Rightarrow> string \<Rightarrow> Collector" where
  "NewCollector now equipment =
     \<lparr>mc_startTime = now, ConnectionsTotal = 0, ConnectionsActive = 0, ConnectionsFailed = 0, ReconnectsTotal = 0,
      MessagesReceived = 0, MessagesSent = 0, MessagesDropped = 0, DecodeErrors = 0, TLSHandshakeFail = 0,
      AuthFailures = 0, RateLimited = 0, AlarmsActive = 0, AlarmsTotal = 0,
      mc_commState = ''DISABLED'', mc_controlState = ''OFFLINE/EQUIPMENT'', mc_equipment = equipment\<rparr>"

definition SetGEMState :: "string \<Rightarrow> string \<Rightarrow> Collector \<Rightarrow> Collector" where
  "SetGEMState comm control c = c\<lparr>mc_commState := comm, mc_controlState := control\<rparr>"

section \<open>The text\<close>

definition metric_lines :: "string \<Rightarrow> string \<Rightarrow> string \<Rightarrow> string \<Rightarrow> string \<Rightarrow> string list" where
  "metric_lines name about kind labels v =
     [''# HELP '' @ name @ '' '' @ about, ''# TYPE '' @ name @ '' '' @ kind, name @ ''{'' @ labels @ ''} '' @ v]"

definition counters :: "Collector \<Rightarrow> (string \<times> string \<times> string \<times> int) list" where
  "counters c =
     [(''secsgem_connections_total'', ''Total connections (cumulative).'', ''counter'', ConnectionsTotal c),
      (''secsgem_connections_active'', ''Currently active connections.'', ''gauge'', ConnectionsActive c),
      (''secsgem_connections_failed'', ''Failed connection attempts.'', ''counter'', ConnectionsFailed c),
      (''secsgem_reconnects_total'', ''Reconnection attempts.'', ''counter'', ReconnectsTotal c),
      (''secsgem_messages_received_total'', ''Messages received.'', ''counter'', MessagesReceived c),
      (''secsgem_messages_sent_total'', ''Messages sent.'', ''counter'', MessagesSent c),
      (''secsgem_messages_dropped_total'', ''Messages dropped.'', ''counter'', MessagesDropped c),
      (''secsgem_decode_errors_total'', ''SECS-II decode errors.'', ''counter'', DecodeErrors c),
      (''secsgem_tls_handshake_failures_total'', ''TLS handshake failures.'', ''counter'', TLSHandshakeFail c),
      (''secsgem_auth_failures_total'', ''Authentication failures.'', ''counter'', AuthFailures c),
      (''secsgem_rate_limited_total'', ''Messages rate limited.'', ''counter'', RateLimited c),
      (''secsgem_alarms_active'', ''Currently active alarms.'', ''gauge'', AlarmsActive c),
      (''secsgem_alarms_total'', ''Total alarms triggered.'', ''counter'', AlarmsTotal c)]"

definition metrics_lines :: "(nat \<Rightarrow> bool) \<Rightarrow> int \<Rightarrow> Collector \<Rightarrow> string list" where
  "metrics_lines isprint now c =
     (let equip = ''equipment='' @ Quote isprint (mc_equipment c) in
      metric_lines ''secsgem_uptime_seconds'' ''Time since daemon start.'' ''gauge'' equip
        (fixed1 (Seconds (Sub_time now (mc_startTime c))))
      @ concat (map (\<lambda>(name, about, kind, v). metric_lines name about kind equip (decimal_int v)) (counters c))
      @ metric_lines ''secsgem_gem_info'' ''GEM state information.'' ''gauge''
          (equip @ '',comm_state='' @ Quote isprint (mc_commState c) @ '',control_state='' @ Quote isprint (mc_controlState c)) ''1'')"

definition metrics_Handler :: "(nat \<Rightarrow> bool) \<Rightarrow> int \<Rightarrow> Collector \<Rightarrow> string" where
  "metrics_Handler isprint now c = concat (map (\<lambda>l. l @ [CHR 0x0A]) (metrics_lines isprint now c))"

section \<open>Reading the text\<close>

text \<open>A reader of the text format: lines that are no comment, the name up to the brace, the value after
  the last blank.\<close>

fun lines_of :: "string \<Rightarrow> string list" where
  "lines_of [] = []"
| "lines_of (c # s) =
     (if c = CHR 0x0A then [] # lines_of s
      else case lines_of s of [] \<Rightarrow> [[c]] | l # ls \<Rightarrow> (c # l) # ls)"

definition sample :: "string \<Rightarrow> (string \<times> string) option" where
  "sample l =
     (if l = [] \<or> hd l = CHR ''#'' then None
      else Some (takeWhile (\<lambda>c. c \<noteq> CHR ''{'') l, rev (takeWhile (\<lambda>c. c \<noteq> CHR '' '') (rev l))))"

definition scrape :: "string \<Rightarrow> (string \<times> string) list" where
  "scrape body = List.map_filter sample (lines_of body)"

lemma lines_of_line: "CHR 0x0A \<notin> set l \<Longrightarrow> lines_of (l @ CHR 0x0A # s) = l # lines_of s"
  by (induction l) auto

lemma lines_of_lines:
  "\<forall>l \<in> set ls. CHR 0x0A \<notin> set l \<Longrightarrow> lines_of (concat (map (\<lambda>l. l @ [CHR 0x0A]) ls)) = ls"
  by (induction ls) (simp_all add: lines_of_line)

lemma takeWhile_name: "c \<notin> set xs \<Longrightarrow> takeWhile (\<lambda>d. d \<noteq> c) (xs @ c # ys) = xs"
  by (induction xs) auto

lemma sample_metric:
  assumes "CHR ''{'' \<notin> set name" and "CHR '' '' \<notin> set v" and "name \<noteq> []" and "hd name \<noteq> CHR ''#''"
  shows "List.map_filter sample (metric_lines name about kind labels v @ ls) = (name, v) # List.map_filter sample ls"
proof -
  have "sample (name @ ''{'' @ labels @ ''} '' @ v) = Some (name, v)"
    using assms takeWhile_name [of "CHR ''{''" name "labels @ ''} '' @ v"]
      takeWhile_name [of "CHR '' ''" "rev v" "CHR ''}'' # rev labels @ CHR ''{'' # rev name"]
    by (simp add: sample_def)
  moreover have "sample (''# HELP '' @ x) = None" "sample (''# TYPE '' @ x) = None" for x by (simp_all add: sample_def)
  ultimately show ?thesis by (simp add: metric_lines_def List.map_filter_simps)
qed

lemma decimal_int_chars: "c \<in> set (decimal_int i) \<Longrightarrow> c = CHR ''-'' \<or> (48 \<le> ccode c \<and> ccode c \<le> 57)"
  by (auto simp: decimal_int_def dest: set_decimal split: if_split_asm)

lemma decimal_int_plain [simp]: "CHR '' '' \<notin> set (decimal_int i)" "CHR 0x0A \<notin> set (decimal_int i)"
  using decimal_int_chars [of "CHR '' ''" i] decimal_int_chars [of "CHR 0x0A" i] by auto

lemma fixed1_plain [simp]: "CHR '' '' \<notin> set (fixed1 x)" "CHR 0x0A \<notin> set (fixed1 x)"
  using set_decimal [of "CHR '' ''"] set_decimal [of "CHR 0x0A"] by (auto simp: fixed1_def Let_def)

lemma Quote_plain: "CHR 0x0A \<notin> set (Quote isprint s)"
  using Quote_code [of "CHR 0x0A" isprint s] by auto

lemma metric_lines_plain:
  assumes "CHR 0x0A \<notin> set (name @ about @ kind @ labels @ v)"
  shows "\<forall>l \<in> set (metric_lines name about kind labels v). CHR 0x0A \<notin> set l"
  using assms by (auto simp: metric_lines_def)

lemma sample_counters:
  assumes "\<forall>(name, about, kind, v) \<in> set rows. CHR ''{'' \<notin> set name \<and> name \<noteq> [] \<and> hd name \<noteq> CHR ''#''"
  shows "List.map_filter sample (concat (map (\<lambda>(name, about, kind, v). metric_lines name about kind labels (decimal_int v)) rows) @ ls)
           = map (\<lambda>(name, about, kind, v). (name, decimal_int v)) rows @ List.map_filter sample ls"
  using assms by (induction rows) (auto simp: sample_metric)

lemma counter_lines_plain:
  assumes "\<forall>(name, about, kind, v) \<in> set rows. CHR 0x0A \<notin> set (name @ about @ kind)" and "CHR 0x0A \<notin> set labels"
  shows "\<forall>l \<in> set (concat (map (\<lambda>(name, about, kind, v). metric_lines name about kind labels (decimal_int v)) rows)). CHR 0x0A \<notin> set l"
  using assms(1)
proof (induction rows)
  case (Cons r rows)
  obtain name about kind v where r: "r = (name, about, kind, v)" by (cases r)
  have first: "\<forall>l \<in> set (metric_lines name about kind labels (decimal_int v)). CHR 0x0A \<notin> set l"
    by (rule metric_lines_plain) (use Cons.prems r assms(2) in simp)
  from Cons.prems have rest: "\<forall>(name, about, kind, v) \<in> set rows. CHR 0x0A \<notin> set (name @ about @ kind)"
    unfolding list.set ball_simps by (rule conjunct2)
  show ?case
    unfolding r list.map concat.simps prod.case set_append ball_Un using first Cons.IH [OF rest] by (rule conjI)
qed simp

lemma metrics_lines_plain:
  "\<forall>l \<in> set (metrics_lines isprint now c). CHR 0x0A \<notin> set l"
proof -
  note q = Quote_plain [of isprint]
  let ?equip = "''equipment='' @ Quote isprint (mc_equipment c)"
  have rows: "\<forall>(name, about, kind, v) \<in> set (counters c). CHR 0x0A \<notin> set (name @ about @ kind)"
    by (simp add: counters_def)
  have equip: "CHR 0x0A \<notin> set ?equip" using q by simp
  note lines = counter_lines_plain [OF rows equip]
  have ends: "\<forall>l \<in> set (metric_lines ''secsgem_uptime_seconds'' ''Time since daemon start.'' ''gauge'' ?equip
        (fixed1 (Seconds (Sub_time now (mc_startTime c))))). CHR 0x0A \<notin> set l"
    "\<forall>l \<in> set (metric_lines ''secsgem_gem_info'' ''GEM state information.'' ''gauge''
          (?equip @ '',comm_state='' @ Quote isprint (mc_commState c) @ '',control_state='' @ Quote isprint (mc_controlState c)) ''1'').
        CHR 0x0A \<notin> set l"
    by (rule metric_lines_plain; use q in simp)+
  show ?thesis
    unfolding metrics_lines_def Let_def set_append using lines ends by blast
qed

text \<open>
  The text reads back. Whatever the labels contain, a reader of the text gets the uptime, then exactly the
  thirteen counters in their order, each with its number in decimal, then the state line; so it finds every
  counter under its name.
\<close>

theorem metrics_scraped:
  shows "scrape (metrics_Handler isprint now c) =
           (''secsgem_uptime_seconds'', fixed1 (Seconds (Sub_time now (mc_startTime c)))) #
           map (\<lambda>(name, about, kind, v). (name, decimal_int v)) (counters c) @ [(''secsgem_gem_info'', ''1'')]"
    and "(name, about, kind, v) \<in> set (counters c) \<Longrightarrow>
           map_of (scrape (metrics_Handler isprint now c)) name = Some (decimal_int v)"
proof -
  have last: "List.map_filter sample (metric_lines ''secsgem_gem_info'' a k l ''1'') = [(''secsgem_gem_info'', ''1'')]" for a k l
    using sample_metric [of "''secsgem_gem_info''" "''1''" a k l "[]"] by (simp add: List.map_filter_simps)
  have rows: "\<forall>(name, about, kind, v) \<in> set (counters c). CHR ''{'' \<notin> set name \<and> name \<noteq> [] \<and> hd name \<noteq> CHR ''#''"
    by (simp add: counters_def)
  show s: "scrape (metrics_Handler isprint now c) =
           (''secsgem_uptime_seconds'', fixed1 (Seconds (Sub_time now (mc_startTime c)))) #
           map (\<lambda>(name, about, kind, v). (name, decimal_int v)) (counters c) @ [(''secsgem_gem_info'', ''1'')]"
    unfolding scrape_def metrics_Handler_def lines_of_lines [OF metrics_lines_plain]
    by (simp add: metrics_lines_def Let_def sample_metric sample_counters [OF rows] last)
  have "distinct (map fst (scrape (metrics_Handler isprint now c)))"
    unfolding s by (simp add: counters_def)
  then show "map_of (scrape (metrics_Handler isprint now c)) name = Some (decimal_int v)"
    if "(name, about, kind, v) \<in> set (counters c)"
    using that by (force simp: s intro!: map_of_is_SomeI)
qed

theorem metrics_scraped_witness:
  "map_of (scrape (metrics_Handler (\<lambda>_. True) 5 ((NewCollector 0 ''EQ'')\<lparr>AlarmsTotal := 12\<rparr>))) ''secsgem_alarms_total'' = Some ''12''"
proof -
  have "decimal_int 12 = ''12''" by (simp add: decimal_int_def decimal.simps char_of_def bit_iff_odd)
  with metrics_scraped(2) [of "''secsgem_alarms_total''" "''Total alarms triggered.''" "''counter''" 12
      "(NewCollector 0 ''EQ'')\<lparr>AlarmsTotal := 12\<rparr>" "\<lambda>_. True" 5]
  show ?thesis by (simp add: counters_def)
qed

end
