(* ===== verification/Item_Text.thy ===== *)
theory Item_Text
  imports Go_Quote Sml_Parser
begin

text \<open>
  The text of an item (\<^verbatim>\<open>String\<close> in \<^verbatim>\<open>item.go\<close>), which the studio shows in a browser, and its escaping of
  markup. The tables of printable runes and the shortest decimal of a float are arguments. The lemmas
  show that the text of any item has exactly the angle brackets of its structure, so that no content can become markup, and
  that the literal of a string is read back as that string.
\<close>

section \<open>Markup\<close>

definition markup :: "char list" where
  "markup = [CHR ''<'', CHR ''>'', CHR ''&'']"

definition markup_byte :: "char \<Rightarrow> string" where
  "markup_byte c =
     (if c = CHR ''<'' then [CHR 0x5C] @ ''x3c'' else if c = CHR ''>'' then [CHR 0x5C] @ ''x3e''
      else if c = CHR ''&'' then [CHR 0x5C] @ ''x26'' else [c])"

definition markupEscaper :: "string \<Rightarrow> string" where
  "markupEscaper s = concat (map markup_byte s)"

definition quoteASCII :: "(nat \<Rightarrow> bool) \<Rightarrow> string \<Rightarrow> string" where
  "quoteASCII isprint s = markupEscaper (Quote isprint s)"

lemma markupEscaper_append [simp]: "markupEscaper (s @ t) = markupEscaper s @ markupEscaper t"
  by (simp add: markupEscaper_def)

lemma markupEscaper_id: "set s \<inter> set markup = {} \<Longrightarrow> markupEscaper s = s"
  by (induction s) (auto simp: markupEscaper_def markup_byte_def markup_def)

lemma markupEscaper_plain: "set (markupEscaper s) \<inter> set markup = {}"
  by (induction s) (auto simp: markupEscaper_def markup_byte_def markup_def)

lemma markup_hex: "hex_digits 2 (ccode (CHR ''<'')) = ''3c''" "hex_digits 2 (ccode (CHR ''>'')) = ''3e''"
  "hex_digits 2 (ccode (CHR ''&'')) = ''26''"
  by code_simp+

lemma markup_bytes_read: "c \<in> set markup \<Longrightarrow> reads (markupEscaper [c]) [c]"
  using hex_byte_reads [of "CHR ''<''"] hex_byte_reads [of "CHR ''>''"] hex_byte_reads [of "CHR ''&''"]
  unfolding markup_hex by (auto simp: markup_def markupEscaper_def markup_byte_def)

text \<open>What \<^verbatim>\<open>%q\<close> prints for one rune has markup only where it prints that very byte.\<close>

lemma quote_byte_markup: "d \<in> set (quote_byte c) \<Longrightarrow> d \<in> set markup \<Longrightarrow> quote_byte c = [c] \<and> d = c"
  using hex_digits_code [of d 2 "ccode c"]
  by (auto simp: quote_byte_def in_range_def markup_def split: if_split_asm)

lemma escaped_rune_reads:
  assumes "s \<noteq> []"
  shows "reads (markupEscaper (fst (quote_rune isprint s))) (take (snd (quote_rune isprint s)) s)"
proof (cases "set (fst (quote_rune isprint s)) \<inter> set markup = {}")
  case True
  then show ?thesis using quote_rune_reads [OF assms] by (simp add: markupEscaper_id)
next
  case False
  then obtain d where d: "d \<in> set (fst (quote_rune isprint s))" "d \<in> set markup" by auto
  from d(2) have low: "ccode d < 128" "\<not> in_range 48 57 d" "\<not> in_range 97 102 d" "d \<noteq> CHR 0x5C" "d \<noteq> CHR ''x''" "d \<noteq> CHR ''u''" "d \<noteq> CHR ''U''"
    by (auto simp: markup_def in_range_def)
  have "ccode (hd s) < 128"
    using d(1) low high_bytes [of s _ _ d] hex_digits_code [of d]
    by (fastforce simp: quote_rune_def split: if_split_asm option.split_asm)
  with d have "quote_byte (hd s) = [hd s]" "d = hd s" "quote_rune isprint s = (quote_byte (hd s), 1)"
    using quote_byte_markup [of d "hd s"] by (simp_all add: quote_rune_def)
  with markup_bytes_read [OF d(2)] assms show ?thesis by (cases s) simp_all
qed

lemma escaped_runes_read: "reads (markupEscaper (quote_runes isprint s)) s"
proof (induction isprint s rule: quote_runes.induct)
  case (1 isprint s)
  show ?case
  proof (cases "s = []")
    case False
    from reads_append [OF escaped_rune_reads [OF False, of isprint] "1.IH" [OF False]] False
    show ?thesis unfolding quote_runes.simps [of isprint s] by simp
  qed (simp add: quote_runes.simps markupEscaper_def)
qed

lemma Unquote_quoteASCII: "Unquote (quoteASCII isprint s) = Some s"
proof -
  have "markupEscaper (Quote isprint s) = [CHR 0x22] @ markupEscaper (quote_runes isprint s) @ [CHR 0x22]"
    by (simp add: Quote_def markupEscaper_def markup_byte_def)
  then show ?thesis
    unfolding quoteASCII_def by (simp only: unquote_reads [OF escaped_runes_read])
qed

section \<open>The text of an item\<close>

record text_env =
  tx_isprint :: "nat \<Rightarrow> bool"
  tx_float32 :: "float32 \<Rightarrow> string"
  tx_float64 :: "float64 \<Rightarrow> string"

text \<open>\<^verbatim>\<open>%v\<close> of a slice.\<close>

fun spaced_texts :: "string list \<Rightarrow> string" where
  "spaced_texts [] = []"
| "spaced_texts [s] = s"
| "spaced_texts (s # t # ss) = s @ '' '' @ spaced_texts (t # ss)"

definition slice_text :: "('a \<Rightarrow> string) \<Rightarrow> 'a list \<Rightarrow> string" where
  "slice_text str xs = ''['' @ spaced_texts (map str xs) @ '']''"

definition bool_text :: "bool \<Rightarrow> string" where
  "bool_text b = (if b then ''true'' else ''false'')"

definition hex_text :: "byte list \<Rightarrow> string" where
  "hex_text bs = concat (map (\<lambda>b. hex_digits 2 (unat b)) bs)"

text \<open>\<^verbatim>\<open>x, _ := f()\<close>: an error leaves the zero value.\<close>

definition or_zero :: "'a \<Rightarrow> ('e, 'a) res \<Rightarrow> ('e, 'a) res" where
  "or_zero z r = (case r of Err _ \<Rightarrow> OK z | _ \<Rightarrow> r)"

definition item_line :: "nat \<Rightarrow> string \<Rightarrow> nat \<Rightarrow> string \<Rightarrow> string" where
  "item_line depth name n v =
     concat (replicate depth ''  '') @ ''<'' @ name @ '' ['' @ decimal n @ ''] '' @ v @ ''>''"

fun formatString :: "text_env \<Rightarrow> nat \<Rightarrow> Item \<Rightarrow> (secs2_error, string) res"
and format_children :: "text_env \<Rightarrow> nat \<Rightarrow> goval list \<Rightarrow> (secs2_error, string) res" where
  "formatString tx depth (MkItem f vs) =
     (let it = Some (MkItem f vs); indent = concat (replicate depth ''  '') in
      if f = FormatList then
        (if vs = [] then OK (indent @ ''<L [0]>'')
         else bind_res (format_children tx (Suc depth) vs)
                (\<lambda>t. OK (indent @ ''<L ['' @ decimal (length vs) @ '']'' @ [CHR 0x0A] @ t @ indent @ ''>'')))
      else if f = FormatASCII then
        bind_res (or_zero [] (ToASCII it)) (\<lambda>s. OK (item_line depth ''A'' (length s) (quoteASCII (tx_isprint tx) s)))
      else if f = FormatBinary then
        bind_res (or_zero [] (ToBinary it)) (\<lambda>d. OK (item_line depth ''B'' (length d) (hex_text d)))
      else if f = FormatBoolean then
        bind_res (or_zero [] (ToBooleans it)) (\<lambda>xs. OK (item_line depth ''BOOLEAN'' (length xs) (slice_text bool_text xs)))
      else if f \<in> {FormatI1, FormatI2, FormatI4, FormatI8} then
        bind_res (or_zero [] (ToInt64s it))
          (\<lambda>xs. OK (item_line depth (Format_String f) (length xs) (slice_text (\<lambda>w. decimal_int (sint w)) xs)))
      else if f \<in> {FormatU1, FormatU2, FormatU4, FormatU8} then
        bind_res (or_zero [] (ToUint64s it))
          (\<lambda>xs. OK (item_line depth (Format_String f) (length xs) (slice_text (\<lambda>w. decimal (unat w)) xs)))
      else if f = FormatF4 then
        bind_res (assert_all as_float32 vs) (\<lambda>xs. OK (item_line depth ''F4'' (length xs) (slice_text (tx_float32 tx) xs)))
      else if f = FormatF8 then
        bind_res (assert_all as_float64 vs) (\<lambda>xs. OK (item_line depth ''F8'' (length xs) (slice_text (tx_float64 tx) xs)))
      else OK (indent @ ''<UNKNOWN>''))"
| "format_children tx depth [] = OK []"
| "format_children tx depth (v # vs) =
     (case v of
        VItem it \<Rightarrow> bind_res (formatString tx depth it) (\<lambda>s.
                      bind_res (format_children tx depth vs) (\<lambda>t. OK (s @ [CHR 0x0A] @ t)))
      | _ \<Rightarrow> Panic)"

definition Item_String :: "text_env \<Rightarrow> item_ptr \<Rightarrow> (secs2_error, string) res" where
  "Item_String tx p = (case p of None \<Rightarrow> Panic | Some it \<Rightarrow> formatString tx 0 it)"

section \<open>The text has no markup but its structure\<close>

fun nodes :: "Item \<Rightarrow> nat"
and child_nodes :: "goval \<Rightarrow> nat" where
  "nodes (MkItem f vs) = 1 + (if f = FormatList then sum_list (map child_nodes vs) else 0)"
| "child_nodes (VItem it) = nodes it"
| "child_nodes _ = 0"

definition brackets :: "string \<Rightarrow> nat \<Rightarrow> bool" where
  "brackets t n \<longleftrightarrow> count_list t (CHR ''<'') = n \<and> count_list t (CHR ''>'') = n \<and> CHR ''&'' \<notin> set t"

definition no_markup :: "string \<Rightarrow> bool" where
  "no_markup t \<longleftrightarrow> set t \<inter> set markup = {}"

definition plain_floats :: "text_env \<Rightarrow> bool" where
  "plain_floats tx \<longleftrightarrow> (\<forall>w. no_markup (tx_float32 tx w)) \<and> (\<forall>w. no_markup (tx_float64 tx w))"

lemma no_markup_append [simp]: "no_markup (s @ t) \<longleftrightarrow> no_markup s \<and> no_markup t"
  by (auto simp: no_markup_def)

lemma no_markup_Nil [simp]: "no_markup []"
  by (simp add: no_markup_def)

lemma no_markup_Cons [simp]: "no_markup (c # s) \<longleftrightarrow> c \<notin> set markup \<and> no_markup s"
  by (auto simp: no_markup_def)

lemma no_markup_concat: "(\<And>s. s \<in> set ss \<Longrightarrow> no_markup s) \<Longrightarrow> no_markup (concat ss)"
  by (induction ss) auto

lemma brackets_append: "brackets s m \<Longrightarrow> brackets t n \<Longrightarrow> brackets (s @ t) (m + n)"
  by (simp add: brackets_def)

lemma brackets_plain: "no_markup t \<Longrightarrow> brackets t 0"
  by (auto simp: brackets_def no_markup_def markup_def count_list_0_iff)

lemma no_markup_decimal [simp]: "no_markup (decimal n)"
proof -
  have "c \<notin> set markup" if "c \<in> set (decimal n)" for c
    using set_decimal [OF that] by (auto simp: markup_def)
  then show ?thesis by (auto simp: no_markup_def)
qed

lemma no_markup_decimal_int [simp]: "no_markup (decimal_int i)"
  by (simp add: decimal_int_def markup_def)

lemma no_markup_indent [simp]: "no_markup (concat (replicate d ''  ''))"
  by (rule no_markup_concat) (auto simp: markup_def)

lemma no_markup_quote [simp]: "no_markup (quoteASCII isprint s)"
  by (simp add: no_markup_def quoteASCII_def markupEscaper_plain)

lemma no_markup_hex [simp]: "no_markup (hex_text bs)"
proof -
  have "no_markup (hex_digits 2 n)" for n
    using hex_digits_code [of _ 2 n] by (fastforce simp: no_markup_def markup_def in_range_def)
  then show ?thesis unfolding hex_text_def by (intro no_markup_concat) auto
qed

lemma no_markup_slice: "(\<And>x. no_markup (str x)) \<Longrightarrow> no_markup (slice_text str xs)"
proof -
  assume str: "\<And>x. no_markup (str x)"
  have "no_markup (spaced_texts (map str xs))"
  proof (induction xs)
    case (Cons x xs)
    then show ?case using str by (cases xs) (simp_all add: markup_def)
  qed simp
  then show ?thesis by (simp add: slice_text_def markup_def)
qed

lemma item_line_brackets:
  assumes "no_markup name" and "no_markup v"
  shows "brackets (item_line d name n v) 1"
proof -
  have "brackets (concat (replicate d ''  '')) 0" "brackets (name @ '' ['' @ decimal n @ ''] '' @ v) 0"
    using assms by (auto intro!: brackets_plain simp: markup_def)
  then show ?thesis by (auto simp: item_line_def brackets_def)
qed

lemma bool_text_plain: "no_markup (bool_text b)"
  by (simp add: bool_text_def markup_def)

lemma format_names_plain: "f \<in> {FormatI1, FormatI2, FormatI4, FormatI8, FormatU1, FormatU2, FormatU4, FormatU8} \<Longrightarrow>
    no_markup (Format_String f)"
  by (auto simp: Format_String_def format_defs markup_def)

lemma those_total: "(\<And>v. v \<in> set vs \<Longrightarrow> cast v \<noteq> None) \<Longrightarrow> \<exists>xs. those (map cast vs) = Some xs"
  by (induction vs) fastforce+

lemma assert_all_OK: "(\<And>v. v \<in> set vs \<Longrightarrow> cast v \<noteq> None) \<Longrightarrow> \<exists>xs. assert_all cast vs = OK xs"
  using those_total [of vs cast] by (auto simp: assert_all_def)

lemma elem_cast:
  "elem_ok FormatF4 v \<Longrightarrow> as_float32 v \<noteq> None" "elem_ok FormatF8 v \<Longrightarrow> as_float64 v \<noteq> None"
  "elem_ok FormatBoolean v \<Longrightarrow> as_bool v \<noteq> None"
  by (cases v; simp add: format_defs)+

lemma switch_all_no_panic: "or_zero [] (switch_all cast s f vs) \<noteq> Panic \<and> (\<forall>e. or_zero [] (switch_all cast s f vs) \<noteq> Err e)"
  by (simp add: switch_all_def or_zero_def split: option.split)

text \<open>The leaves, one line each.\<close>

lemma line_text:
  assumes "\<exists>x. r = OK x" and "no_markup name" and "\<And>x. no_markup (v x)"
  shows "\<exists>t. bind_res r (\<lambda>x. OK (item_line d name (n x) (v x))) = OK t \<and> brackets t 1"
  using assms item_line_brackets by auto

lemma leaf_text:
  assumes "plain_floats tx" and "wf_item (MkItem f vs)" and "f \<noteq> FormatList"
  shows "\<exists>t. formatString tx d (MkItem f vs) = OK t \<and> brackets t 1"
proof -
  have ints: "\<exists>x. or_zero [] (switch_all cast w f vs) = OK x" for cast :: "goval \<Rightarrow> uint64 option" and w
    using switch_all_no_panic [of cast w f vs] by (cases "or_zero [] (switch_all cast w f vs)") auto
  have floats: "no_markup (tx_float32 tx w)" "no_markup (tx_float64 tx w')" for w w'
    using assms(1) by (simp_all add: plain_floats_def)
  consider "f = FormatASCII" | "f = FormatBinary" | "f = FormatBoolean" | "f \<in> {FormatI1, FormatI2, FormatI4, FormatI8}"
    | "f \<in> {FormatU1, FormatU2, FormatU4, FormatU8}" | "f = FormatF4" | "f = FormatF8"
    using assms(2,3) by (auto simp: numeric_formats_def split: if_split_asm)
  then show ?thesis
  proof cases
    case 1
    with assms(2) have "\<exists>s. or_zero [] (ToASCII (Some (MkItem f vs))) = OK s"
      by (auto simp: or_zero_def format_defs split: list.split_asm goval.split_asm)
    with 1 show ?thesis
      using line_text [of _ "''A''" "quoteASCII (tx_isprint tx)" d length] by (simp add: Let_def format_defs markup_def)
  next
    case 2
    with assms(2) have "\<exists>s. or_zero [] (ToBinary (Some (MkItem f vs))) = OK s"
      by (auto simp: or_zero_def format_defs split: list.split_asm goval.split_asm)
    with 2 show ?thesis
      using line_text [of _ "''B''" hex_text d length] by (simp add: Let_def format_defs markup_def)
  next
    case 3
    with assms(2) have "\<forall>v \<in> set vs. as_bool v \<noteq> None" using elem_cast(3) by (auto simp: format_defs)
    then obtain xs where "(assert_all as_bool vs :: (secs2_error, bool list) res) = OK xs"
      using assert_all_OK [of vs as_bool] by blast
    with 3 have "\<exists>s. or_zero [] (ToBooleans (Some (MkItem f vs))) = OK s" by (simp add: or_zero_def)
    with 3 show ?thesis
      using line_text [of _ "''BOOLEAN''" "slice_text bool_text" d length] no_markup_slice [of bool_text, OF bool_text_plain]
      by (simp add: Let_def format_defs markup_def)
  next
    case 4
    then have "no_markup (Format_String f)" using format_names_plain by blast
    with 4 show ?thesis
      using line_text [OF ints, of "Format_String f" "slice_text (\<lambda>w. decimal_int (sint w))" to_int64 _ d length]
        no_markup_slice [of "\<lambda>w. decimal_int (sint w)"]
      by (auto simp: Let_def format_defs)
  next
    case 5
    then have "no_markup (Format_String f)" using format_names_plain by blast
    with 5 show ?thesis
      using line_text [OF ints, of "Format_String f" "slice_text (\<lambda>w. decimal (unat w))" to_uint64 _ d length]
        no_markup_slice [of "\<lambda>w. decimal (unat w)"]
      by (auto simp: Let_def format_defs)
  next
    case 6
    with assms(2) have "\<exists>s. assert_all as_float32 vs = OK s"
      using assert_all_OK [of vs as_float32] elem_cast(1) by (auto simp: format_defs)
    with 6 show ?thesis
      using line_text [of "assert_all as_float32 vs" "''F4''" "slice_text (tx_float32 tx)" d length] no_markup_slice [of "tx_float32 tx", OF floats(1)]
      by (simp add: Let_def format_defs markup_def)
  next
    case 7
    with assms(2) have "\<exists>s. assert_all as_float64 vs = OK s"
      using assert_all_OK [of vs as_float64] elem_cast(2) by (auto simp: format_defs)
    with 7 show ?thesis
      using line_text [of "assert_all as_float64 vs" "''F8''" "slice_text (tx_float64 tx)" d length] no_markup_slice [of "tx_float64 tx", OF floats(2)]
      by (simp add: Let_def format_defs markup_def)
  qed
qed

lemma item_text:
  assumes "plain_floats tx"
  shows "wf_item it \<Longrightarrow> \<exists>t. formatString tx d it = OK t \<and> brackets t (nodes it)"
    and "\<forall>v \<in> set vs. wf_child v \<Longrightarrow> \<exists>t. format_children tx d vs = OK t \<and> brackets t (sum_list (map child_nodes vs))"
  using assms
proof (induction tx d it and tx d vs rule: formatString_format_children.induct)
  case (1 tx depth f vs)
  show ?case
  proof (cases "f = FormatList")
    case True
    show ?thesis
    proof (cases "vs = []")
      case empty: True
      have "brackets (concat (replicate depth ''  '')) 0" by (simp add: brackets_plain)
      then have "brackets (concat (replicate depth ''  '') @ ''<L [0]>'') 1" by (simp add: brackets_def)
      with True empty show ?thesis by (simp add: Let_def)
    next
      case False
      have "\<forall>v \<in> set vs. wf_child v" using "1.prems"(1) True by simp
      from "1.IH" [OF refl refl True False this "1.prems"(2)]
      obtain t where t: "format_children tx (Suc depth) vs = OK t" "brackets t (sum_list (map child_nodes vs))" by blast
      have i: "brackets (concat (replicate depth ''  '')) 0" "brackets (decimal (length vs)) 0" by (simp_all add: brackets_plain)
      then have "brackets (concat (replicate depth ''  '') @ ''<L ['' @ decimal (length vs) @ '']'' @ [CHR 0x0A] @ t
            @ concat (replicate depth ''  '') @ ''>'') (1 + sum_list (map child_nodes vs))"
        using t(2) by (auto simp: brackets_def)
      with True False t(1) show ?thesis by (simp add: Let_def)
    qed
  next
    case False
    with leaf_text [OF "1.prems"(2,1) False, of depth] show ?thesis by simp
  qed
next
  case (2 tx depth)
  show ?case by (simp add: brackets_plain)
next
  case (3 tx depth v vs)
  then obtain it where v: "v = VItem it" "wf_item it" by (cases v) auto
  from "3.IH"(1) [OF v "3.prems"(2)] obtain s where s: "formatString tx depth it = OK s" "brackets s (nodes it)" by blast
  have "\<forall>v \<in> set vs. wf_child v" using "3.prems"(1) by simp
  from "3.IH"(2) [OF v(1) s(1) this "3.prems"(2)]
  obtain t where t: "format_children tx depth vs = OK t" "brackets t (sum_list (map child_nodes vs))" by blast
  note st = s t
  then have "brackets (s @ [CHR 0x0A] @ t) (nodes it + sum_list (map child_nodes vs))" by (auto simp: brackets_def)
  with v st show ?case by simp
qed

text \<open>C20. The text of an item is safe to show. Every well-formed item has a text, and the text has exactly one opening and
  one closing angle bracket for each item of the tree and no ampersand: nothing that the strings in it
  contain can become markup.
\<close>

theorem item_text_safe:
  assumes "wf_item it" and "plain_floats tx"
  shows "\<exists>t. Item_String tx (Some it) = OK t \<and> count_list t (CHR ''<'') = nodes it \<and>
           count_list t (CHR ''>'') = nodes it \<and> CHR ''&'' \<notin> set t"
  using item_text(1) [OF assms(2,1), of 0] by (simp add: Item_String_def brackets_def)

text \<open>C21. The text of a string is reversible. Whatever bytes a string has, valid UTF-8 or not, and whichever
  runes are printable, its text holds a literal without markup, which reads as exactly that string.
\<close>

theorem ascii_text_reversible:
  "\<exists>lit. Item_String tx (Some (NewASCII s)) = OK (''<A ['' @ decimal (length s) @ ''] '' @ lit @ ''>'') \<and>
     Unquote lit = Some s \<and> set lit \<inter> {CHR ''<'', CHR ''>'', CHR ''&''} = {}"
proof (intro exI conjI)
  show "Item_String tx (Some (NewASCII s)) = OK (''<A ['' @ decimal (length s) @ ''] '' @ quoteASCII (tx_isprint tx) s @ ''>'')"
    by (simp add: Item_String_def NewASCII_def or_zero_def item_line_def Let_def format_defs)
  show "set (quoteASCII (tx_isprint tx) s) \<inter> {CHR ''<'', CHR ''>'', CHR ''&''} = {}"
    using no_markup_quote [of "tx_isprint tx" s] by (simp add: no_markup_def markup_def)
qed (rule Unquote_quoteASCII)

section \<open>The text is not the notation of the scripts\<close>

lemma formatString_ends:
  "formatString tx 0 it = OK t \<Longrightarrow> t \<noteq> [] \<and> hd t = CHR ''<'' \<and> last t = CHR ''>''"
  by (cases it) (auto simp: Let_def bind_res_eq_OK item_line_def split: if_split_asm)

lemma ParseSML_bracket:
  assumes "t \<noteq> []" and "hd t = CHR ''<''" and "last t = CHR ''>''"
  shows "\<exists>e. ParseSML t = Err e"
proof -
  let ?p = "\<lparr>sml_input = t, sml_pos = 0\<rparr>"
  have trim: "TrimSpace t = t" using assms by (intro TrimSpace_printable) (simp_all add: printable_def)
  have run: "space_run t = 0" using assms(1,2) by (cases t) (simp_all add: space_run_stop blank_def)
  obtain token q where token: "readToken (skipSpace ?p) = (token, q)" by (cases "readToken (skipSpace ?p)")
  then have "token = [] \<or> hd token = CHR ''<''"
    using assms(1,2) run by (cases t) (auto simp: readToken_def skipSpace_def sml_rest_def advance_def Let_def split: if_split_asm)
  then have "\<not> has_prefix token ''L''" "parseScalar token q = Err (SmlUnknown token (sml_pos q))"
    by (cases token; simp add: has_prefix_def parseScalar_def)+
  with token trim assms(1) show ?thesis
    by (auto simp: ParseSML_def Let_def parseItem.simps [of ?p])
qed

text \<open>
  What the program prints for an item it cannot read as an item of a script: for every item with a text,
  the parser of the scripts refuses that text.
\<close>

theorem printed_not_parsed:
  assumes "Item_String tx p = OK t"
  shows "\<exists>e. ParseSML t = Err e"
  using assms formatString_ends ParseSML_bracket by (fastforce simp: Item_String_def split: option.split_asm)

definition demo_tx :: text_env where
  "demo_tx = \<lparr>tx_isprint = (\<lambda>_. True), tx_float32 = (\<lambda>_. ''0''), tx_float64 = (\<lambda>_. ''0'')\<rparr>"

theorem item_text_safe_witness:
  "\<exists>t. Item_String demo_tx (Some (NewList [Some (NewASCII ''<b>&''), Some (NewU1 [7])])) = OK t \<and>
     count_list t (CHR ''<'') = 3 \<and> CHR ''&'' \<notin> set t"
proof -
  have "wf_item (NewList [Some (NewASCII ''<b>&''), Some (NewU1 [7])])"
    by (simp add: new_item_defs ptr_val_def format_defs max_len_def numeric_formats_def itemSize_def)
  moreover have "plain_floats demo_tx" by (simp add: plain_floats_def demo_tx_def markup_def)
  ultimately show ?thesis
    using item_text_safe [of "NewList [Some (NewASCII ''<b>&''), Some (NewU1 [7])]" demo_tx]
    by (auto simp: new_item_defs ptr_val_def format_defs)
qed

theorem printed_not_parsed_witness:
  "\<exists>t e. Item_String demo_tx (Some (NewList [])) = OK t \<and> t = ''<L [0]>'' \<and> ParseSML t = Err e"
proof -
  have "Item_String demo_tx (Some (NewList [])) = OK ''<L [0]>''"
    by (simp add: Item_String_def NewList_def format_defs Let_def)
  from printed_not_parsed [OF this] this show ?thesis by blast
qed

end
