(* ===== verification/Equipment_Wire.thy ===== *)
theory Equipment_Wire
  imports Sim_Host Gem_Hooks
begin

text \<open>
  Host and equipment put together: the host's session, the bytes on the connection, the equipment's session and its
  message loop with the GEM handler. One exchange of a host runs through all of them. The main theorem
  shows that it is exactly the direct exchange \<open>direct_link\<close> that the scenarios are proved about, so that what
  holds for the handler holds for a host at the other end of a connection; and that this ends when the
  host's counter of system ids wraps around.
\<close>

section \<open>Both ends of a connection\<close>

record wire_link =
  lk_host :: Session
  lk_eq :: Session
  lk_handler :: Handler

text \<open>The read loop on the bytes that arrive, with a rate limiter that allows them and writes that succeed.\<close>

fun read_steps :: "Message list \<Rightarrow> Session \<Rightarrow> (hsms_error, Session) res" where
  "read_steps [] s = OK s"
| "read_steps (m # ms) s = bind_res (readLoop_step True True (OK m) s) (read_steps ms)"

definition limit_of :: "Session \<Rightarrow> nat" where
  "limit_of s = maxMessageSize (cfg_MaxMessageSize (ss_config s))"

definition bytes_arrive :: "byte list \<Rightarrow> Session \<Rightarrow> (hsms_error, Session) res" where
  "bytes_arrive bytes s = read_steps (fst (read_messages (limit_of s) bytes)) s"

text \<open>What a session wrote since it was \<open>s\<close>.\<close>

definition written :: "Session \<Rightarrow> Session \<Rightarrow> byte list" where
  "written s s' = concat (drop (length (ss_sent s)) (ss_sent s'))"

text \<open>One round of the equipment's message loop: the message received goes to the handler, whose
  replies go out through \<^verbatim>\<open>SendMessage\<close>.\<close>

definition send_all :: "Message list \<Rightarrow> Session \<Rightarrow> Session" where
  "send_all ms s = fold (\<lambda>m s. fst (SendMessage_begin True m s)) ms s"

definition serve_one ::
  "(uint32 list \<Rightarrow> uint32 list) \<Rightarrow> Session \<Rightarrow> Handler \<Rightarrow> (unit, Session \<times> Handler) res" where
  "serve_one ord s h =
     (case ReceiveMessage s of
        None \<Rightarrow> OK (s, h)
      | Some (m, s') \<Rightarrow>
          (case HandleMessage ord True m h of
             (h', Panic) \<Rightarrow> Panic
           | (h', _) \<Rightarrow> OK (send_all (drop (length (h_outbox h)) (h_outbox h')) s', h')))"

text \<open>One call of \<^verbatim>\<open>SendMessage\<close> at the host, with everything it causes at the other end, up to its
  return: with the reply in its channel, or with the timeout when there is none.\<close>

definition call_returns :: "Session \<Rightarrow> Session \<Rightarrow> Session \<times> (unit, Message option) res" where
  "call_returns before s =
     (if length (ss_waiting s) = length (ss_waiting before) then (s, OK None)
      else let wt = ss_waiting s ! length (ss_waiting before) in
        case map_of (ss_chans s) (w_chan wt) of
          Some rsp \<Rightarrow> (wait_reply wt rsp s, OK (Some rsp))
        | None \<Rightarrow> (wait_fails wt s, Err ()))"

definition wire_exchange :: "(uint32 list \<Rightarrow> uint32 list) \<Rightarrow> wire_link exchange" where
  "wire_exchange ord msg lk =
     (case SendMessage_begin True msg (lk_host lk) of
        (host, OK _) \<Rightarrow>
          (case bytes_arrive (written (lk_host lk) host) (lk_eq lk) of
             OK eq1 \<Rightarrow>
               (case serve_one ord eq1 (lk_handler lk) of
                  OK (eq2, h) \<Rightarrow>
                    (case bytes_arrive (written eq1 eq2) host of
                       OK host2 \<Rightarrow>
                         let (host3, r) = call_returns (lk_host lk) host2
                         in (\<lparr>lk_host = host3, lk_eq = eq2, lk_handler = h\<rparr>, r)
                     | _ \<Rightarrow> (\<lparr>lk_host = host, lk_eq = eq2, lk_handler = h\<rparr>, Panic))
                | _ \<Rightarrow> (\<lparr>lk_host = host, lk_eq = eq1, lk_handler = lk_handler lk\<rparr>, Panic))
           | _ \<Rightarrow> (\<lparr>lk_host = host, lk_eq = lk_eq lk, lk_handler = lk_handler lk\<rparr>, Panic))
      | (host, _) \<Rightarrow> (\<lparr>lk_host = host, lk_eq = lk_eq lk, lk_handler = lk_handler lk\<rparr>, Err ()))"

section \<open>Readiness\<close>

definition up :: "Session \<Rightarrow> bool" where
  "up s \<longleftrightarrow> ss_state s = StateSelected \<and> (case ss_conn s of None \<Rightarrow> False | Some c \<Rightarrow> c_open c) \<and> ss_pending s = []"

definition fresh_chans :: "Session \<Rightarrow> bool" where
  "fresh_chans s \<longleftrightarrow> (\<forall>c \<ge> ss_nextChan s. map_of (ss_chans s) c = None)"

definition link_ready :: "wire_link \<Rightarrow> bool" where
  "link_ready lk \<longleftrightarrow> up (lk_host lk) \<and> fresh_chans (lk_host lk) \<and> up (lk_eq lk) \<and> ss_inbound (lk_eq lk) = []"

definition small :: "nat \<Rightarrow> Message \<Rightarrow> bool" where
  "small limit m \<longleftrightarrow> 10 + length (MData m) \<le> limit \<and> 14 + length (MData m) < 2 ^ 32"

definition link_abs :: "wire_link \<Rightarrow> Handler \<times> uint32" where
  "link_abs lk = (lk_handler lk, ss_nextSystemID (lk_host lk))"

text \<open>The request as the host sends it.\<close>

definition numbered :: "uint32 \<Rightarrow> Message \<Rightarrow> Message" where
  "numbered n m = m\<lparr>MHeader := (MHeader m)\<lparr>SystemID := n\<rparr>\<rparr>"

section \<open>The handler answers at most once\<close>

lemma builtin_outbox:
  assumes "builtin ord s f data h = Some (OK (h', it))"
  shows "h_outbox h' = h_outbox h"
  using assms
proof (cases rule: builtin_cases)
  case S1F13
  then show ?thesis using handle_state_frame(1) [of h] by auto
next
  case S1F15
  then show ?thesis using handle_state_frame(2) [of h] by auto
next
  case S1F17
  then show ?thesis using handle_state_frame(3) [of h] by auto
qed (auto dest!: handleS2F15_frame handle_events_frame handleS2F41_frame handleS5F3_frame)

definition one_answer :: "Message \<Rightarrow> Handler \<Rightarrow> Handler \<Rightarrow> bool" where
  "one_answer m h h' \<longleftrightarrow> h_outbox h' = h_outbox h \<or>
     (\<exists>f d. h_outbox h' =
        h_outbox h @ [NewDataMessage (SessionID (MHeader m)) (Stream (MHeader m)) f False (SystemID (MHeader m)) d])"

lemma one_answer_none: "h_outbox h' = h_outbox h \<Longrightarrow> one_answer m h h'"
  by (simp add: one_answer_def)

lemma one_answer_reply:
  "h_outbox h1 = h_outbox h \<Longrightarrow> one_answer m h (fst (sendReply ok m (Stream (MHeader m)) f body h1))"
  unfolding one_answer_def
  using sendReply_frame [of ok m "Stream (MHeader m)" f body h1 "fst (sendReply ok m (Stream (MHeader m)) f body h1)"
      "snd (sendReply ok m (Stream (MHeader m)) f body h1)"] by auto blast

lemma HandleMessage_outbox: "one_answer m h (fst (HandleMessage ord ok m h))"
  unfolding HandleMessage_def Let_def
  by (auto intro!: one_answer_none one_answer_reply simp: builtin_outbox split: option.split res.split)

section \<open>One message across\<close>

lemma write_up:
  assumes "up s" and "fits m"
  shows "writeMessage True m s = OK (s\<lparr>ss_sent := ss_sent s @ [frame m]\<rparr>)"
  using assms by (auto simp: writeMessage_def up_def MarshalBinary_frame split: option.split_asm)

lemma arrives_one:
  assumes "small (limit_of s) m" and "Stream (MHeader m) < 128"
  shows "bytes_arrive (frame m) s = bind_res (handleMessage True m s) OK"
proof -
  have "fits m" "10 + length (MData m) \<le> limit_of s" using assms(1) by (simp_all add: small_def fits_def)
  then have "readMessage (limit_of s) (frame m) = OK (m, [])"
    using readMessage_frame [OF _ assms(2), of "limit_of s" "[]"] by simp
  moreover have "read_messages (limit_of s) [] = ([], Some ErrEOF)"
    by (simp add: read_messages.simps readMessage_def read_full_def)
  ultimately have "fst (read_messages (limit_of s) (frame m)) = [m]"
    by (subst read_messages.simps) simp
  then show ?thesis by (cases "handleMessage True m s") (simp_all add: bytes_arrive_def readLoop_step_def)
qed

lemma arrives_nothing: "bytes_arrive [] s = OK s"
  by (simp add: bytes_arrive_def read_messages.simps readMessage_def read_full_def)

text \<open>The equipment's side: it handles the request and writes what the handler answered.\<close>

lemma equipment_serves:
  assumes "up s" and "ss_inbound s = []" and "small (limit_of s) m" and "Stream (MHeader m) < 128"
    and "HSType (MHeader m) = STypeDataMessage" and "SystemID (MHeader m) \<noteq> 0"
    and "HandleMessage ord True m h = (h', r)" and "r \<noteq> Panic"
    and "list_all (small lim) (drop (length (h_outbox h)) (h_outbox h'))"
  shows "\<exists>s1 s2. bytes_arrive (frame m) s = OK s1 \<and> serve_one ord s1 h = OK (s2, h') \<and>
           written s1 s2 = concat (map frame (drop (length (h_outbox h)) (h_outbox h'))) \<and> up s2 \<and> ss_inbound s2 = [] \<and>
           ss_config s2 = ss_config s"
proof -
  let ?s1 = "s\<lparr>ss_inbound := [m]\<rparr>"
  let ?out = "drop (length (h_outbox h)) (h_outbox h')"
  let ?s2 = "s\<lparr>ss_inbound := [], ss_sent := ss_sent s @ map frame ?out\<rparr>"
  have a: "bytes_arrive (frame m) s = OK ?s1"
    using assms(1,2,5) by (simp add: arrives_one [OF assms(3,4)] handleMessage_def up_def inbound_cap_def)
  have up: "up (s\<lparr>ss_inbound := []\<rparr>)" using assms(1) by (simp add: up_def)
  from HandleMessage_outbox [of m h ord True] assms(7)
  consider "?out = []" | f d where "?out = [NewDataMessage (SessionID (MHeader m)) (Stream (MHeader m)) f False (SystemID (MHeader m)) d]"
    by (auto simp: one_answer_def)
  then have "send_all ?out (s\<lparr>ss_inbound := []\<rparr>) = ?s2"
  proof cases
    case 1
    then show ?thesis by (simp add: send_all_def)
  next
    case (2 f d)
    let ?m = "NewDataMessage (SessionID (MHeader m)) (Stream (MHeader m)) f False (SystemID (MHeader m)) d"
    have "fits ?m" using assms(9) 2 by (simp add: small_def fits_def)
    from write_up [OF up this] have "SendMessage_begin True ?m (s\<lparr>ss_inbound := []\<rparr>) = (?s2, OK ())"
      using assms(1,6) 2 by (simp add: SendMessage_begin_def assign_sys_def up_def NewDataMessage_def zero_header_def stype_defs)
    with 2 show ?thesis by (simp add: send_all_def)
  qed
  moreover have "ReceiveMessage ?s1 = Some (m, s\<lparr>ss_inbound := []\<rparr>)" by (simp add: ReceiveMessage_def)
  ultimately have "serve_one ord ?s1 h = OK (?s2, h')"
    using assms(7,8) by (cases r) (simp_all add: serve_one_def)
  moreover have "written ?s1 ?s2 = concat (map frame ?out)" by (simp add: written_def)
  moreover have "up ?s2" using assms(1) by (simp add: up_def)
  ultimately show ?thesis using a by (intro exI [of _ ?s1] exI [of _ ?s2]) simp
qed

text \<open>The host's side: the call up to its wait, the answer, and its return.\<close>

definition asks :: "Message \<Rightarrow> bool" where
  "asks m \<longleftrightarrow> WBit (MHeader m) \<and> Function (MHeader m) mod 2 = 1"

definition call_of :: "Session \<Rightarrow> waiter" where
  "call_of s = \<lparr>w_chan = ss_nextChan s, w_sys = ss_nextSystemID s + 1, w_kind = WSend\<rparr>"

definition asked :: "Message \<Rightarrow> Session \<Rightarrow> Session" where
  "asked m s =
     (if asks m then s\<lparr>ss_nextSystemID := ss_nextSystemID s + 1, ss_nextChan := Suc (ss_nextChan s),
        ss_pending := [(ss_nextSystemID s + 1, ss_nextChan s)], ss_sent := ss_sent s @ [frame (numbered (ss_nextSystemID s + 1) m)],
        ss_waiting := ss_waiting s @ [call_of s]\<rparr>
      else s\<lparr>ss_nextSystemID := ss_nextSystemID s + 1, ss_sent := ss_sent s @ [frame (numbered (ss_nextSystemID s + 1) m)]\<rparr>)"

lemma host_sends:
  assumes "up s" and "HSType (MHeader m) = STypeDataMessage" and "SystemID (MHeader m) = 0" and "fits m"
  shows "SendMessage_begin True m s = (asked m s, OK ())" and "written s (asked m s) = frame (numbered (ss_nextSystemID s + 1) m)"
proof -
  have fits: "fits (numbered n m)" for n using assms(4) by (simp add: fits_def numbered_def)
  have up: "up (s\<lparr>ss_nextSystemID := n\<rparr>)" for n using assms(1) by (simp add: up_def)
  have wrote: "writeMessage True (numbered n m) t = OK (t\<lparr>ss_sent := ss_sent t @ [frame (numbered n m)]\<rparr>)"
    if "ss_conn t = ss_conn s" for n t
    using assms(1) that fits by (auto simp: writeMessage_def up_def MarshalBinary_frame split: option.split_asm)
  show "SendMessage_begin True m s = (asked m s, OK ())"
    using assms(1-3) wrote
    by (cases "WBit (MHeader m) \<and> Function (MHeader m) mod 2 = 1")
      (simp_all add: SendMessage_begin_def assign_sys_def next_sys_def sendAndWait_begin_def asked_def asks_def call_of_def up_def
        stype_defs Let_def numbered_def)
  show "written s (asked m s) = frame (numbered (ss_nextSystemID s + 1) m)" by (simp add: written_def asked_def)
qed

lemma host_returns:
  assumes "up s" and "fresh_chans s" and "HSType (MHeader m) = STypeDataMessage"
    and "out = [] \<or> (\<exists>a. out = [a] \<and> SystemID (MHeader a) = ss_nextSystemID s + 1 \<and> HSType (MHeader a) = STypeDataMessage \<and>
           Stream (MHeader a) < 128)"
    and "list_all (small (limit_of s)) out"
  shows "\<exists>s2 s3. bytes_arrive (concat (map frame out)) (asked m s) = OK s2 \<and>
           call_returns s s2 = (s3, if \<not> asks m then OK None else case out of [] \<Rightarrow> Err () | a # _ \<Rightarrow> OK (Some a)) \<and>
           up s3 \<and> fresh_chans s3 \<and> ss_nextSystemID s3 = ss_nextSystemID s + 1 \<and> ss_config s3 = ss_config s"
proof (cases "out = []")
  case True
  then show ?thesis
    using assms(1,2) arrives_nothing [of "asked m s"]
    by (auto simp: asked_def call_returns_def call_of_def wait_fails_def end_wait_def up_def fresh_chans_def Let_def nth_append
        split: option.split_asm)
next
  case False
  then obtain a where a: "out = [a]" "SystemID (MHeader a) = ss_nextSystemID s + 1" "HSType (MHeader a) = STypeDataMessage"
    "Stream (MHeader a) < 128" using assms(4) by blast
  have "small (limit_of (asked m s)) a" using assms(5) a(1) by (simp add: asked_def limit_of_def)
  from arrives_one [OF this a(4)]
  have arr: "bytes_arrive (concat (map frame out)) (asked m s) = bind_res (handleMessage True a (asked m s)) OK" by (simp add: a(1))
  show ?thesis
  proof (cases "asks m")
    case True
    have "map_of (ss_chans s) (ss_nextChan s) = None" using assms(2) by (simp add: fresh_chans_def)
    with True a have "handleMessage True a (asked m s) =
        OK ((asked m s)\<lparr>ss_chans := AList.update (ss_nextChan s) a (ss_chans s)\<rparr>)"
      by (simp add: handleMessage_def asked_def)
    with arr True assms(1,2) a show ?thesis
      by (auto simp: asked_def call_returns_def call_of_def wait_reply_def end_wait_def up_def fresh_chans_def Let_def nth_append
          update_conv' split: option.split_asm)
  next
    case no: False
    then have "handleMessage True a (asked m s) =
        OK ((asked m s)\<lparr>ss_inbound := if length (ss_inbound s) < inbound_cap then ss_inbound s @ [a] else ss_inbound s\<rparr>)"
      using assms(1) a(3) by (simp add: handleMessage_def asked_def up_def)
    with arr no assms(1,2) show ?thesis
      by (auto simp: asked_def call_returns_def up_def fresh_chans_def split: option.split_asm)
  qed
qed

section \<open>The exchange on the wire is the direct exchange\<close>

text \<open>What a request and its answer have to be: a data message without an identifier, both within the limits of
  the receivers, and a handler that does not panic.\<close>

definition exchange_ok :: "(uint32 list \<Rightarrow> uint32 list) \<Rightarrow> Message \<Rightarrow> wire_link \<Rightarrow> bool" where
  "exchange_ok ord msg lk \<longleftrightarrow>
     (let (h', r) = HandleMessage ord True (numbered (ss_nextSystemID (lk_host lk) + 1) msg) (lk_handler lk) in
      HSType (MHeader msg) = STypeDataMessage \<and> SystemID (MHeader msg) = 0 \<and> Stream (MHeader msg) < 128 \<and>
      small (limit_of (lk_eq lk)) msg \<and> r \<noteq> Panic \<and>
      list_all (small (limit_of (lk_host lk))) (drop (length (h_outbox (lk_handler lk))) (h_outbox h')))"

definition same_limits :: "wire_link \<Rightarrow> wire_link \<Rightarrow> bool" where
  "same_limits lk lk' \<longleftrightarrow> limit_of (lk_host lk') = limit_of (lk_host lk) \<and> limit_of (lk_eq lk') = limit_of (lk_eq lk)"

lemma wire_simulates:
  assumes "link_ready lk" and "exchange_ok ord msg lk" and "ss_nextSystemID (lk_host lk) + 1 \<noteq> 0"
  shows "\<exists>lk' r. wire_exchange ord msg lk = (lk', r) \<and> direct_link ord msg (link_abs lk) = (link_abs lk', r) \<and> link_ready lk' \<and>
    same_limits lk lk'"
proof -
  let ?s = "lk_host lk" and ?h = "lk_handler lk" and ?n = "ss_nextSystemID (lk_host lk) + 1"
  let ?m = "numbered ?n msg"
  obtain h' r where hm: "HandleMessage ord True ?m ?h = (h', r)" by fastforce
  let ?out = "drop (length (h_outbox ?h)) (h_outbox h')"
  have ok: "HSType (MHeader msg) = STypeDataMessage" "SystemID (MHeader msg) = 0" "Stream (MHeader msg) < 128"
    "small (limit_of (lk_eq lk)) msg" "r \<noteq> Panic" "list_all (small (limit_of ?s)) ?out"
    using assms(2) hm by (simp_all add: exchange_ok_def)
  have ready: "up ?s" "fresh_chans ?s" "up (lk_eq lk)" "ss_inbound (lk_eq lk) = []"
    using assms(1) by (simp_all add: link_ready_def)
  have hdr: "HSType (MHeader ?m) = STypeDataMessage" "Stream (MHeader ?m) < 128" "SystemID (MHeader ?m) \<noteq> 0" "MData ?m = MData msg"
    "SystemID (MHeader ?m) = ?n"
    using ok assms(3) by (simp_all add: numbered_def)
  have "fits msg" "small (limit_of (lk_eq lk)) ?m" using ok(4) by (simp_all add: fits_def small_def numbered_def)
  note sent = host_sends [OF ready(1) ok(1,2) this(1)]
  from equipment_serves [OF ready(3,4) \<open>small (limit_of (lk_eq lk)) ?m\<close> hdr(2,1,3) hm ok(5,6)]
  obtain e1 e2 where e: "bytes_arrive (frame ?m) (lk_eq lk) = OK e1" "serve_one ord e1 ?h = OK (e2, h')"
    "written e1 e2 = concat (map frame ?out)" "up e2" "ss_inbound e2 = []" "ss_config e2 = ss_config (lk_eq lk)" by blast
  have out: "?out = [] \<or> (\<exists>a. ?out = [a] \<and> SystemID (MHeader a) = ?n \<and> HSType (MHeader a) = STypeDataMessage \<and> Stream (MHeader a) < 128)"
    using HandleMessage_outbox [of ?m ?h ord True] hm hdr by (auto simp: one_answer_def NewDataMessage_def)
  from host_returns [OF ready(1,2) ok(1) out ok(6)] obtain s2 s3 where
    s: "bytes_arrive (concat (map frame ?out)) (asked msg ?s) = OK s2"
      "call_returns ?s s2 = (s3, if \<not> asks msg then OK None else case ?out of [] \<Rightarrow> Err () | a # _ \<Rightarrow> OK (Some a))"
      "up s3" "fresh_chans s3" "ss_nextSystemID s3 = ?n" "ss_config s3 = ss_config ?s" by blast
  let ?lk' = "\<lparr>lk_host = s3, lk_eq = e2, lk_handler = h'\<rparr>"
  let ?r = "if \<not> asks msg then OK None else case ?out of [] \<Rightarrow> Err () | a # _ \<Rightarrow> OK (Some a)"
  have "wire_exchange ord msg lk = (?lk', ?r)"
    by (simp add: wire_exchange_def sent e s del: if_not_P)
  moreover have "filter (\<lambda>a. SystemID (MHeader a) = ?n) ?out = ?out" using out by auto
  then have "direct_link ord msg (link_abs lk) = (link_abs ?lk', ?r)"
    using hm ok(2) s(5) by (simp add: direct_link_def link_abs_def asks_def Let_def numbered_def)
  moreover have "link_ready ?lk'" "same_limits lk ?lk'" using s e by (simp_all add: link_ready_def same_limits_def limit_of_def)
  ultimately show ?thesis by blast
qed

text \<open>C4. The exchange of a host with the equipment, across both sessions and the bytes between them, is
  the direct exchange with the handler: the same reply or the same failure, the same equipment
  afterwards, and the link is ready for the next request. The one exception is the system id 0.
\<close>

theorem wire_refines_link:
  assumes "link_ready lk" and "exchange_ok ord msg lk" and "ss_nextSystemID (lk_host lk) + 1 \<noteq> 0"
  shows "\<exists>lk' r. wire_exchange ord msg lk = (lk', r) \<and> direct_link ord msg (link_abs lk) = (link_abs lk', r) \<and> link_ready lk'"
  using wire_simulates [OF assms] by blast

section \<open>When the counter wraps around\<close>

text \<open>The number 0 stands for a message without a number, also in a reply: the equipment gives the reply to
  request 0 a number of its own.\<close>

lemma equipment_renumbers:
  assumes "up s" and "ss_inbound s = []" and "small (limit_of s) m" and "Stream (MHeader m) < 128"
    and "HSType (MHeader m) = STypeDataMessage" and "SystemID (MHeader m) = 0"
    and "HandleMessage ord True m h = (h', r)" and "r \<noteq> Panic"
    and "drop (length (h_outbox h)) (h_outbox h') = [a]" and "fits a"
  shows "\<exists>s1 s2. bytes_arrive (frame m) s = OK s1 \<and> serve_one ord s1 h = OK (s2, h') \<and>
           written s1 s2 = frame (numbered (ss_nextSystemID s + 1) a)"
proof -
  let ?s1 = "s\<lparr>ss_inbound := [m]\<rparr>" and ?s0 = "s\<lparr>ss_inbound := []\<rparr>"
  let ?s2 = "s\<lparr>ss_inbound := [], ss_nextSystemID := ss_nextSystemID s + 1,
     ss_sent := ss_sent s @ [frame (numbered (ss_nextSystemID s + 1) a)]\<rparr>"
  have a: "HSType (MHeader a) = STypeDataMessage" "\<not> asks a" "SystemID (MHeader a) = 0"
    using HandleMessage_outbox [of m h ord True] assms(6,7,9) by (auto simp: one_answer_def NewDataMessage_def asks_def)
  have "up ?s0" using assms(1) by (simp add: up_def)
  from host_sends(1) [OF this a(1,3) assms(10)] a(2)
  have "send_all [a] ?s0 = ?s2" by (simp add: send_all_def asked_def)
  moreover have "ReceiveMessage ?s1 = Some (m, ?s0)" by (simp add: ReceiveMessage_def)
  ultimately have "serve_one ord ?s1 h = OK (?s2, h')"
    using assms(7-9) by (cases r) (simp_all add: serve_one_def)
  moreover have "bytes_arrive (frame m) s = OK ?s1"
    using assms(1,2,5) by (simp add: arrives_one [OF assms(3,4)] handleMessage_def up_def inbound_cap_def)
  moreover have "written ?s1 ?s2 = frame (numbered (ss_nextSystemID s + 1) a)" by (simp add: written_def)
  ultimately show ?thesis by blast
qed

text \<open>C26. After the request with the highest number the counter wraps around to 0, and that number is lost: the
  request takes effect and the handler answers it, but the equipment's session sends the answer under
  another number, so that the host's call ends with a timeout although the direct exchange
  returns the answer.
\<close>

theorem wrapped_id_times_out:
  assumes "link_ready lk" and "exchange_ok ord msg lk" and "asks msg"
    and "ss_nextSystemID (lk_host lk) = 0xFFFFFFFF" and "ss_nextSystemID (lk_eq lk) \<noteq> 0xFFFFFFFF"
    and "direct_link ord msg (link_abs lk) = ((h', 0), OK (Some a))"
  shows "snd (wire_exchange ord msg lk) = Err () \<and> lk_handler (fst (wire_exchange ord msg lk)) = h'"
proof -
  let ?s = "lk_host lk" and ?h = "lk_handler lk" and ?m = "numbered 0 msg"
  have n: "ss_nextSystemID ?s + 1 = 0" using assms(4) by simp
  have "ss_nextSystemID (lk_eq lk) = 0xFFFFFFFF" if "ss_nextSystemID (lk_eq lk) + 1 = 0"
  proof -
    have "ss_nextSystemID (lk_eq lk) + 1 - 1 = 0 - 1" using that by (rule arg_cong)
    then show ?thesis by simp
  qed
  with assms(5) have k: "ss_nextSystemID (lk_eq lk) + 1 \<noteq> 0" by blast
  obtain h1 r where hm: "HandleMessage ord True ?m ?h = (h1, r)" by fastforce
  let ?out = "drop (length (h_outbox ?h)) (h_outbox h1)"
  have ok: "HSType (MHeader msg) = STypeDataMessage" "SystemID (MHeader msg) = 0" "Stream (MHeader msg) < 128"
    "small (limit_of (lk_eq lk)) msg" "r \<noteq> Panic" "list_all (small (limit_of ?s)) ?out"
    using assms(2) hm n by (simp_all add: exchange_ok_def)
  have ready: "up ?s" "fresh_chans ?s" "up (lk_eq lk)" "ss_inbound (lk_eq lk) = []"
    using assms(1) by (simp_all add: link_ready_def)
  have hdr: "HSType (MHeader ?m) = STypeDataMessage" "Stream (MHeader ?m) < 128" "SystemID (MHeader ?m) = 0"
    using ok by (simp_all add: numbered_def)
  have "?out = [] \<or> (\<exists>b. ?out = [b] \<and> HSType (MHeader b) = STypeDataMessage \<and> Stream (MHeader b) < 128)"
    using HandleMessage_outbox [of ?m ?h ord True] hm hdr by (auto simp: one_answer_def NewDataMessage_def)
  moreover have h1: "h1 = h'" "?out \<noteq> []"
    using assms(3,6) hm n ok(2) by (auto simp: direct_link_def link_abs_def Let_def numbered_def asks_def split: list.split_asm)
  ultimately obtain b where b: "?out = [b]" "HSType (MHeader b) = STypeDataMessage" "Stream (MHeader b) < 128" by blast
  have small: "fits msg" "small (limit_of (lk_eq lk)) ?m" "fits b" "small (limit_of ?s) (numbered i b)" for i
    using ok(4,6) b(1) by (simp_all add: fits_def small_def numbered_def)
  note sent = host_sends [OF ready(1) ok(1,2) small(1), unfolded n]
  from equipment_renumbers [OF ready(3,4) small(2) hdr(2,1,3) hm ok(5) b(1) small(3)] obtain e1 e2 where
    e: "bytes_arrive (frame ?m) (lk_eq lk) = OK e1" "serve_one ord e1 ?h = OK (e2, h1)"
      "written e1 e2 = frame (numbered (ss_nextSystemID (lk_eq lk) + 1) b)" by blast
  let ?b = "numbered (ss_nextSystemID (lk_eq lk) + 1) b"
  let ?s2 = "(asked msg ?s)\<lparr>ss_inbound := if length (ss_inbound ?s) < inbound_cap then ss_inbound ?s @ [?b] else ss_inbound ?s\<rparr>"
  have b': "SystemID (MHeader ?b) = ss_nextSystemID (lk_eq lk) + 1" "HSType (MHeader ?b) = STypeDataMessage" "Stream (MHeader ?b) < 128"
    using b by (simp_all add: numbered_def)
  have "small (limit_of (asked msg ?s)) ?b" using small(4) by (simp add: limit_of_def asked_def)
  from arrives_one [OF this b'(3)] have "bytes_arrive (frame ?b) (asked msg ?s) = OK ?s2"
    using ready(1) k b' assms(3) n by (simp add: handleMessage_def asked_def up_def)
  moreover have "call_returns ?s ?s2 = (wait_fails (call_of ?s) ?s2, Err ())"
    using ready(2) assms(3) by (simp add: call_returns_def asked_def call_of_def fresh_chans_def Let_def)
  ultimately show ?thesis using h1(1) by (simp add: wire_exchange_def sent e)
qed

section \<open>Opening the link\<close>

text \<open>A host that connects and selects, and passive equipment that listens, accepts the connection from \<open>peer\<close>
  and answers; \<open>None\<close> when a call fails.\<close>

definition select_over :: "Session \<Rightarrow> Session \<Rightarrow> (Session \<times> Session) option" where
  "select_over host eq =
     (case Select_begin True host of
        (host1, OK _) \<Rightarrow>
          (case bytes_arrive (written host host1) eq of
             OK eq1 \<Rightarrow>
               (case bytes_arrive (written eq eq1) host1 of
                  OK host2 \<Rightarrow>
                    let wt = ss_waiting host2 ! length (ss_waiting host)
                    in map_option (\<lambda>rsp. (wait_reply wt rsp host2, eq1)) (map_of (ss_chans host2) (w_chan wt))
                | _ \<Rightarrow> None)
           | _ \<Rightarrow> None)
      | _ \<Rightarrow> None)"

definition open_link :: "Config \<Rightarrow> Config \<Rightarrow> ip \<Rightarrow> Handler \<Rightarrow> wire_link option" where
  "open_link hcfg ecfg peer h =
     (case (Connect True True [] (NewSession ecfg), Connect True True [] (NewSession hcfg)) of
        ((eq, OK _), (host, OK _)) \<Rightarrow>
          map_option (\<lambda>(host, eq). \<lparr>lk_host = host, lk_eq = eq, lk_handler = h\<rparr>) (select_over host (acceptAndRun peer eq))
      | _ \<Rightarrow> None)"

lemma select_over_connected:
  assumes "ss_state host = StateConnected" and "ss_state eq = StateConnected"
    and "ss_conn host = Some ch" "c_open ch" and "ss_conn eq = Some ce" "c_open ce"
    and "ss_pending host = []" "ss_pending eq = []" "ss_chans host = []" and "ss_nextSystemID host = 0"
    and "10 \<le> limit_of host" and "10 \<le> limit_of eq"
  shows "\<exists>host' eq'. select_over host eq = Some (host', eq') \<and> up host' \<and> up eq' \<and> fresh_chans host' \<and>
     ss_nextSystemID host' = 1 \<and> ss_inbound eq' = ss_inbound eq \<and> ss_config host' = ss_config host \<and> ss_config eq' = ss_config eq"
proof -
  let ?sid = "cfg_SessionID (ss_config host)"
  let ?req = "NewSelectReq ?sid 1" and ?rsp = "NewSelectRsp ?sid 1 SelectStatusSuccess"
  let ?wt = "\<lparr>w_chan = ss_nextChan host, w_sys = 1, w_kind = WSelect\<rparr>"
  let ?host1 = "host\<lparr>ss_nextSystemID := 1, ss_nextChan := Suc (ss_nextChan host), ss_pending := [(1, ss_nextChan host)],
     ss_sent := ss_sent host @ [frame ?req], ss_waiting := ss_waiting host @ [?wt]\<rparr>"
  let ?eq1 = "eq\<lparr>ss_sent := ss_sent eq @ [frame ?rsp], ss_state := StateSelected\<rparr>"
  have small: "small n ?req" "small n ?rsp" "Stream (MHeader ?req) < 128" "Stream (MHeader ?rsp) < 128" if "10 \<le> n" for n
    using that by (simp_all add: small_def new_message_defs SelectStatusSuccess_def)
  have fits: "fits ?req" "fits ?rsp" by (simp_all add: fits_def new_message_defs)
  have 1: "Select_begin True host = (?host1, OK ())"
    using assms by (simp add: Select_begin_def next_sys_def sendAndWait_begin_def writeMessage_def MarshalBinary_frame [OF fits(1)]
        Let_def) (simp add: new_message_defs)
  have req: "SessionID (MHeader ?req) = ?sid" "SystemID (MHeader ?req) = 1" "HSType (MHeader ?req) = STypeSelectReq"
    "STypeSelectReq \<noteq> STypeDataMessage" by (simp_all add: new_message_defs stype_defs)
  have "writeMessage True ?rsp eq = OK (eq\<lparr>ss_sent := ss_sent eq @ [frame ?rsp]\<rparr>)"
    using assms by (simp add: writeMessage_def MarshalBinary_frame [OF fits(2)])
  then have 2: "bytes_arrive (frame ?req) eq = OK ?eq1"
    using assms arrives_one [OF small(1,3) [OF assms(12)]] req by (simp add: handleMessage_def handleSelectReq_def or_return_def)
  have 3: "bytes_arrive (frame ?rsp) ?host1 = OK (?host1\<lparr>ss_chans := [(ss_nextChan host, ?rsp)]\<rparr>)"
    using assms arrives_one [of ?host1 ?rsp] small(2,4) [OF assms(11)] by (simp add: handleMessage_def limit_of_def) (simp add: new_message_defs)
  have w: "written host ?host1 = frame ?req" "written eq ?eq1 = frame ?rsp" by (simp_all add: written_def)
  let ?host3 = "wait_reply ?wt ?rsp (?host1\<lparr>ss_chans := [(ss_nextChan host, ?rsp)]\<rparr>)"
  have "select_over host eq = Some (?host3, ?eq1)"
    unfolding select_over_def 1 prod.case res.case w 2 3 by (simp add: nth_append Let_def)
  moreover have "up ?host3" "fresh_chans ?host3" "ss_nextSystemID ?host3 = 1" "ss_config ?host3 = ss_config host"
    using assms
    by (simp_all add: wait_reply_def end_wait_def Select_finish_def up_def fresh_chans_def Let_def new_message_defs stype_defs
        SelectStatusSuccess_def)
  moreover have "up ?eq1" using assms by (simp add: up_def)
  ultimately show ?thesis by auto
qed

lemma open_link_ready:
  assumes "cfg_Role hcfg = RoleActive" and "cfg_Role ecfg = RolePassive"
    and "cfg_AllowedPeers ecfg = [] \<or> isAllowed peer (cfg_AllowedPeers ecfg)"
    and "10 \<le> maxMessageSize (cfg_MaxMessageSize hcfg)" and "10 \<le> maxMessageSize (cfg_MaxMessageSize ecfg)"
  shows "\<exists>lk. open_link hcfg ecfg peer h = Some lk \<and> link_ready lk \<and> lk_handler lk = h \<and> ss_nextSystemID (lk_host lk) = 1 \<and>
     limit_of (lk_host lk) = maxMessageSize (cfg_MaxMessageSize hcfg) \<and> limit_of (lk_eq lk) = maxMessageSize (cfg_MaxMessageSize ecfg)"
proof -
  define s0 where "s0 = (if cfg_TLS hcfg then audit TLSHandshakeOK ((NewSession hcfg)\<lparr>ss_state := StateConnecting\<rparr>)
    else (NewSession hcfg)\<lparr>ss_state := StateConnecting\<rparr>)"
  define host where "host = startLoops (s0\<lparr>ss_conn := Some \<lparr>c_peer = [], c_open = True\<rparr>, ss_state := StateConnected\<rparr>)"
  define eq0 where "eq0 = (NewSession ecfg)\<lparr>ss_state := StateConnecting, ss_listener := Some True\<rparr>"
  define eq where "eq = startLoops (eq0\<lparr>ss_conn := Some \<lparr>c_peer = peer, c_open = True\<rparr>, ss_state := StateConnected\<rparr>)"
  have s0: "ss_config s0 = hcfg" "ss_pending s0 = []" "ss_chans s0 = []" "ss_nextSystemID s0 = 0" "ss_waiting s0 = []"
    by (simp_all add: s0_def NewSession_def)
  have c: "Connect True True [] (NewSession ecfg) = (eq0, OK ())" "Connect True True [] (NewSession hcfg) = (host, OK ())"
    using assms(1,2)
    by (simp_all add: Connect_def connectActive_def listenPassive_def NewSession_def eq0_def host_def s0_def Let_def)
  have a: "acceptAndRun peer eq0 = eq" using assms(3) by (auto simp: acceptAndRun_def eq0_def eq_def NewSession_def)
  have "\<exists>host' eq'. select_over host eq = Some (host', eq') \<and> up host' \<and> up eq' \<and> fresh_chans host' \<and>
      ss_nextSystemID host' = 1 \<and> ss_inbound eq' = ss_inbound eq \<and> ss_config host' = ss_config host \<and> ss_config eq' = ss_config eq"
    using assms(4,5) s0
    by (intro select_over_connected [where ch = "\<lparr>c_peer = [], c_open = True\<rparr>" and ce = "\<lparr>c_peer = peer, c_open = True\<rparr>"])
      (simp_all add: host_def eq_def eq0_def NewSession_def limit_of_def)
  moreover have "ss_inbound eq = []" "ss_config eq = ecfg" "ss_config host = hcfg"
    using s0 by (simp_all add: eq_def eq0_def host_def NewSession_def)
  ultimately show ?thesis
    unfolding open_link_def c prod.case res.case a by (auto simp: link_ready_def limit_of_def)
qed

section \<open>Scripts over the wire\<close>

text \<open>What a host relies on when an exchange is implemented by another: the same answers, and a state that
  stays related.\<close>

locale exchange_refinement =
  fixes conc :: "'c exchange" and abst :: "'a exchange" and abs_of :: "'c \<Rightarrow> 'a"
    and ok :: "Message \<Rightarrow> 'c \<Rightarrow> bool" and keeps :: "'c \<Rightarrow> 'c \<Rightarrow> bool"
  assumes simulates: "ok m c \<Longrightarrow> \<exists>c' r. conc m c = (c', r) \<and> abst m (abs_of c) = (abs_of c', r) \<and> keeps c c'"
    and keeps_refl: "keeps c c"
begin

lemma send_simulates:
  assumes "\<And>data. (case body of None \<Rightarrow> OK [] | Some _ \<Rightarrow> Encode body) = OK data \<Longrightarrow>
      ok (NewDataMessage (ho_sessionID ho) s f w 0 data) c"
    and "SendRaw abst s f w body ho (abs_of c) = ((ho', a), r)"
  shows "\<exists>c'. SendRaw conc s f w body ho c = ((ho', c'), r) \<and> abs_of c' = a \<and> keeps c c'"
proof (cases "case body of None \<Rightarrow> OK [] | Some _ \<Rightarrow> Encode body")
  case (OK data)
  obtain c' q where c': "conc (NewDataMessage (ho_sessionID ho) s f w 0 data) c = (c', q)"
    "abst (NewDataMessage (ho_sessionID ho) s f w 0 data) (abs_of c) = (abs_of c', q)" "keeps c c'"
    using simulates [OF assms(1) [OF OK]] by blast
  show ?thesis
    using assms(2) OK c' keeps_refl
    by (auto simp: SendRaw_def sendAndValidate_def Let_def split: res.split_asm if_split_asm option.split_asm)
qed (use assms(2) keeps_refl in \<open>auto simp: SendRaw_def sendAndValidate_def\<close>)

end

definition wire_ok :: "(uint32 list \<Rightarrow> uint32 list) \<Rightarrow> Message \<Rightarrow> wire_link \<Rightarrow> bool" where
  "wire_ok ord msg lk \<longleftrightarrow> link_ready lk \<and> exchange_ok ord msg lk \<and> ss_nextSystemID (lk_host lk) + 1 \<noteq> 0"

definition wire_keeps :: "wire_link \<Rightarrow> wire_link \<Rightarrow> bool" where
  "wire_keeps lk lk' \<longleftrightarrow> (link_ready lk \<longrightarrow> link_ready lk') \<and> same_limits lk lk'"

interpretation wire: exchange_refinement "wire_exchange ord" "direct_link ord" link_abs "wire_ok ord" wire_keeps for ord
proof
  fix m lk
  assume "wire_ok ord m lk"
  with wire_simulates [of lk ord m] show "\<exists>lk' r. wire_exchange ord m lk = (lk', r) \<and>
      direct_link ord m (link_abs lk) = (link_abs lk', r) \<and> wire_keeps lk lk'"
    by (auto simp: wire_ok_def wire_keeps_def)
qed (simp add: wire_keeps_def same_limits_def)

lemma builtin_wire_ok:
  assumes "link_ready lk" and "ss_nextSystemID (lk_host lk) + 1 \<noteq> 0" and "h_customHandlers (lk_handler lk) = []"
    and "builtin ord s f data (lk_handler lk) = Some (OK (hb, it))" and "wf_item it" and "s < 128"
    and "10 + length data \<le> limit_of (lk_eq lk)" and "14 + length data < 2 ^ 32"
    and "10 + length (item_bytes it) \<le> limit_of (lk_host lk)" and "14 + length (item_bytes it) < 2 ^ 32"
  shows "wire_ok ord (NewDataMessage sid s f True 0 data) lk"
  using assms builtin_outbox [OF assms(4)] Encode_wf [OF assms(5)]
  by (simp add: wire_ok_def exchange_ok_def small_def numbered_def new_message_defs HandleMessage_def IsControlMessage_def sendReply_def
      Let_def)

lemma header_bytes_le: "length (header_bytes f n) \<le> 4"
  by (simp add: header_bytes_def len_count_def)

lemma reply_lengths:
  "length (item_bytes (handleS1F1 h)) \<le> 12 + length (h_mdln h) + length (h_softrev h)"
  "length (item_bytes (snd (handleS1F13 h))) \<le> 21 + length (h_mdln h) + length (h_softrev h)"
  "length (item_bytes (ack b)) \<le> 5" "length (item_bytes host_item) \<le> 21"
proof -
  have ascii: "length (item_bytes (NewASCII t)) \<le> 4 + length t" for t
    using header_bytes_le [of FormatASCII "length t"] by (simp add: NewASCII_def format_defs)
  have pair: "length (item_bytes (NewList [Some i, Some j])) \<le> 4 + length (item_bytes i) + length (item_bytes j)" for i j
    using header_bytes_le [of FormatList "Suc (Suc 0)"] by (simp add: NewList_def ptr_val_def)
  show ack: "length (item_bytes (ack b)) \<le> 5" for b
    using header_bytes_le [of FormatBinary 1] by (simp add: ack_def NewBinary_def format_defs)
  show s1f1: "length (item_bytes (handleS1F1 h)) \<le> 12 + length (h_mdln h) + length (h_softrev h)"
    using pair [of "NewASCII (h_mdln h)" "NewASCII (h_softrev h)"] ascii [of "h_mdln h"] ascii [of "h_softrev h"]
    by (simp add: handleS1F1_def)
  show "length (item_bytes (snd (handleS1F13 h))) \<le> 21 + length (h_mdln h) + length (h_softrev h)"
    using pair [of "ack 0" "handleS1F1 h"] ack [of 0] s1f1 by (simp add: handleS1F13_def handleS1F1_def Let_def)
  show "length (item_bytes host_item) \<le> 21"
    using pair [of "NewASCII ''HOST''" "NewASCII ''1.0.0''"] ascii [of "''HOST''"] ascii [of "''1.0.0''"] by (simp add: host_item_def)
qed

text \<open>Equipment that the setup script can be run against, and a counter that does not wrap around in three requests.\<close>

definition setup_ready :: "nat \<Rightarrow> wire_link \<Rightarrow> bool" where
  "setup_ready k lk \<longleftrightarrow> link_ready lk \<and> h_customHandlers (lk_handler lk) = [] \<and>
     length (h_mdln (lk_handler lk)) + length (h_softrev (lk_handler lk)) + 31 \<le> min (limit_of (lk_host lk)) max_len \<and>
     31 \<le> limit_of (lk_eq lk) \<and> unat (ss_nextSystemID (lk_host lk)) + k < 2 ^ 32"

lemma setup_readyD:
  assumes "setup_ready (Suc k) lk"
  shows "link_ready lk" "h_customHandlers (lk_handler lk) = []" "ss_nextSystemID (lk_host lk) + 1 \<noteq> 0"
    "length (h_mdln (lk_handler lk)) \<le> max_len" "length (h_softrev (lk_handler lk)) \<le> max_len"
    "wire_keeps lk lk' \<Longrightarrow> link_abs lk' = (h', ss_nextSystemID (lk_host lk) + 1) \<Longrightarrow> same_equipment (lk_handler lk) h' \<Longrightarrow> setup_ready k lk'"
proof -
  let ?n = "ss_nextSystemID (lk_host lk)"
  have lt: "unat ?n + 1 < 2 ^ LENGTH(32)" using assms by (simp add: setup_ready_def)
  then have n: "unat (?n + 1) = unat ?n + 1" using unat_add_lem [of ?n 1] by simp
  then show "?n + 1 \<noteq> 0" by (metis add_is_0 one_neq_zero unat_0)
  show "wire_keeps lk lk' \<Longrightarrow> link_abs lk' = (h', ?n + 1) \<Longrightarrow> same_equipment (lk_handler lk) h' \<Longrightarrow> setup_ready k lk'"
    using assms n by (simp add: setup_ready_def wire_keeps_def same_limits_def link_abs_def same_equipment_def)
qed (use assms in \<open>simp_all add: setup_ready_def\<close>)

lemma setup_request:
  assumes "setup_ready (Suc k) lk" and "\<And>d. builtin ord 1 f d (lk_handler lk) = Some (OK (hb, it))" and "wf_item it"
    and "length (item_bytes it) \<le> 21 + length (h_mdln (lk_handler lk)) + length (h_softrev (lk_handler lk))"
    and "body \<in> {None, Some host_item}"
    and "SendRaw (direct_link ord) 1 f True body ho (link_abs lk) = ((ho, h', ss_nextSystemID (lk_host lk) + 1), r)"
  shows "\<exists>lk'. SendRaw (wire_exchange ord) 1 f True body ho lk = ((ho, lk'), r) \<and>
     link_abs lk' = (h', ss_nextSystemID (lk_host lk) + 1) \<and> wire_keeps lk lk'"
proof (rule wire.send_simulates [OF _ assms(6)])
  fix data :: "byte list"
  assume "(case body of None \<Rightarrow> OK [] | Some _ \<Rightarrow> Encode body) = OK data"
  then have "length data \<le> 21"
    using assms(5) reply_lengths(4) Encode_wf [of host_item] by (auto simp: host_item_def wf_eval)
  with assms(1) show "wire_ok ord (NewDataMessage (ho_sessionID ho) 1 f True 0 data) lk"
    using assms(4) by (intro builtin_wire_ok [OF setup_readyD(1,3,2) [OF assms(1)] assms(2,3)]) (auto simp: setup_ready_def max_len_def)
qed

lemma link_abs_eq: "link_abs l = (h, n) \<longleftrightarrow> lk_handler l = h \<and> ss_nextSystemID (lk_host l) = n"
  by (simp add: link_abs_def)

lemma wire_S1F13:
  assumes "setup_ready (Suc k) lk" and "\<not> ho_intercept ho"
  shows "\<exists>lk' it. SendRaw (wire_exchange ord) 1 13 True (Some host_item) ho lk =
           ((ho, lk'), OK (if IsAllowed (h_policy (lk_handler lk)) 1 13 then Some it else None)) \<and> it_format it = FormatList \<and>
           h_state (lk_handler lk') = (if IsAllowed (h_policy (lk_handler lk)) 1 13
              then h_state (fst (handleS1F13 (lk_handler lk))) else h_state (lk_handler lk)) \<and>
           same_equipment (lk_handler lk) (lk_handler lk') \<and> setup_ready k lk'"
proof -
  let ?h = "lk_handler lk" and ?n = "ss_nextSystemID (lk_host lk)"
  note ready = setup_readyD [OF assms(1)]
  obtain h' it where h': "SendRaw (direct_link ord) 1 13 True (Some host_item) ho (?h, ?n) =
      ((ho, h', ?n + 1), OK (if IsAllowed (h_policy ?h) 1 13 then Some it else None))" "it_format it = FormatList"
    "h_state h' = (if IsAllowed (h_policy ?h) 1 13 then h_state (fst (handleS1F13 ?h)) else h_state ?h)" "same_equipment ?h h'"
    using request_S1F13 [OF assms(2) ready(2,4,5)] by blast
  have "builtin ord 1 13 d ?h = Some (OK (fst (handleS1F13 ?h), snd (handleS1F13 ?h)))" for d by (simp add: builtin_def)
  from setup_request [OF assms(1) this wf_replies(2) [OF ready(4,5)] reply_lengths(2) _ h'(1) [folded link_abs_def]]
  obtain lk' where "SendRaw (wire_exchange ord) 1 13 True (Some host_item) ho lk =
      ((ho, lk'), OK (if IsAllowed (h_policy ?h) 1 13 then Some it else None))" "link_abs lk' = (h', ?n + 1)" "wire_keeps lk lk'"
    by blast
  with h' ready(6) [of lk' h'] show ?thesis by (intro exI [of _ lk'] exI [of _ it]) (auto simp: link_abs_eq)
qed

lemma wire_S1F1:
  assumes "setup_ready (Suc k) lk" and "\<not> ho_intercept ho"
  shows "\<exists>lk' it. SendRaw (wire_exchange ord) 1 1 True None ho lk =
           ((ho, lk'), OK (if IsAllowed (h_policy (lk_handler lk)) 1 1 then Some it else None)) \<and> it_format it = FormatList \<and>
           h_state (lk_handler lk') = h_state (lk_handler lk) \<and>
           same_equipment (lk_handler lk) (lk_handler lk') \<and> setup_ready k lk'"
proof -
  let ?h = "lk_handler lk" and ?n = "ss_nextSystemID (lk_host lk)"
  note ready = setup_readyD [OF assms(1)]
  obtain h' it where h': "SendRaw (direct_link ord) 1 1 True None ho (?h, ?n) =
      ((ho, h', ?n + 1), OK (if IsAllowed (h_policy ?h) 1 1 then Some it else None))" "it_format it = FormatList"
    "h_state h' = h_state ?h" "same_equipment ?h h'"
    using request_S1F1 [OF assms(2) ready(2,4,5)] by blast
  have "builtin ord 1 1 d ?h = Some (OK (?h, handleS1F1 ?h))" for d by (simp add: builtin_def)
  from setup_request [OF assms(1) this wf_replies(1) [OF ready(4,5)] _ _ h'(1) [folded link_abs_def]] reply_lengths(1) [of ?h]
  obtain lk' where "SendRaw (wire_exchange ord) 1 1 True None ho lk =
      ((ho, lk'), OK (if IsAllowed (h_policy ?h) 1 1 then Some it else None))" "link_abs lk' = (h', ?n + 1)" "wire_keeps lk lk'"
    by fastforce
  with h' ready(6) [of lk' h'] show ?thesis by (intro exI [of _ lk'] exI [of _ it]) (auto simp: link_abs_eq)
qed

lemma wire_S1F17:
  assumes "setup_ready (Suc k) lk" and "\<not> ho_intercept ho"
  shows "\<exists>lk' it. SendRaw (wire_exchange ord) 1 17 True None ho lk =
           ((ho, lk'), OK (if IsAllowed (h_policy (lk_handler lk)) 1 17 then Some it else None)) \<and> it_format it = FormatBinary \<and>
           h_state (lk_handler lk') = (if IsAllowed (h_policy (lk_handler lk)) 1 17
              then h_state (fst (handleS1F17 (lk_handler lk))) else h_state (lk_handler lk)) \<and> link_ready lk'"
proof -
  let ?h = "lk_handler lk" and ?n = "ss_nextSystemID (lk_host lk)"
  note ready = setup_readyD [OF assms(1)]
  obtain h' it where h': "SendRaw (direct_link ord) 1 17 True None ho (?h, ?n) =
      ((ho, h', ?n + 1), OK (if IsAllowed (h_policy ?h) 1 17 then Some it else None))" "it_format it = FormatBinary"
    "h_state h' = (if IsAllowed (h_policy ?h) 1 17 then h_state (fst (handleS1F17 ?h)) else h_state ?h)"
    using request_S1F17 [OF assms(2) ready(2)] by blast
  obtain a where a: "snd (handleS1F17 ?h) = ack a"
    by (cases "GoOnlineRemote (h_state ?h)") (auto simp: handleS1F17_def)
  have "builtin ord 1 17 d ?h = Some (OK (fst (handleS1F17 ?h), ack a))" for d by (simp add: builtin_def flip: a)
  from setup_request [OF assms(1) this wf_replies(3) [OF ready(4,5)] _ _ h'(1) [folded link_abs_def]] reply_lengths(3) [of a]
  obtain lk' where "SendRaw (wire_exchange ord) 1 17 True None ho lk =
      ((ho, lk'), OK (if IsAllowed (h_policy ?h) 1 17 then Some it else None))" "link_abs lk' = (h', ?n + 1)" "wire_keeps lk lk'"
    by fastforce
  with h' ready(1) show ?thesis by (intro exI [of _ lk'] exI [of _ it]) (auto simp: link_abs_eq wire_keeps_def)
qed

lemma setup_run_wire:
  assumes "setup_ready 3 lk" and "\<not> ho_intercept ho" and "sm_commState (h_state (lk_handler lk)) = CommDisabled"
  shows "\<exists>r lk'. Run (wire_exchange ord) cancelled (BuiltinScenarios ! 0) ho lk = OK (r, ho, lk') \<and>
           res_Passed r + res_Failed r = 6 \<and> link_ready lk' \<and>
           (res_Failed r = 0 \<longleftrightarrow> list_all (\<lambda>f. IsAllowed (h_policy (lk_handler lk)) 1 f) [13, 1, 17]) \<and>
           (res_Failed r = 0 \<longrightarrow> IsCommunicating (h_state (lk_handler lk')) \<and>
              sm_controlState (h_state (lk_handler lk')) = ControlOnlineRemote)"
proof -
  let ?p = "\<lambda>f. IsAllowed (h_policy (lk_handler lk)) 1 f"
  have "setup_ready (Suc (Suc (Suc 0))) lk" using assms(1) by (simp add: numeral_3_eq_3)
  from wire_S1F13 [OF this assms(2), of ord] obtain l1 i1 where
    1: "SendRaw (wire_exchange ord) 1 13 True (Some host_item) ho lk = ((ho, l1), OK (if ?p 13 then Some i1 else None))"
      "it_format i1 = FormatList" "setup_ready (Suc (Suc 0)) l1"
    and st1: "h_state (lk_handler l1) = (if ?p 13 then h_state (fst (handleS1F13 (lk_handler lk))) else h_state (lk_handler lk))"
    and same1: "same_equipment (lk_handler lk) (lk_handler l1)" by blast
  from wire_S1F1 [OF 1(3) assms(2), of ord] same1 obtain l2 i2 where
    2: "SendRaw (wire_exchange ord) 1 1 True None ho l1 = ((ho, l2), OK (if ?p 1 then Some i2 else None))"
      "it_format i2 = FormatList" "setup_ready (Suc 0) l2"
    and st2: "h_state (lk_handler l2) = h_state (lk_handler l1)" and same2: "h_policy (lk_handler l2) = h_policy (lk_handler lk)"
    unfolding same_equipment_def by auto
  from wire_S1F17 [OF 2(3) assms(2), of ord] obtain l3 i3 where
    3: "SendRaw (wire_exchange ord) 1 17 True None ho l2 = ((ho, l3), OK (if ?p 17 then Some i3 else None))"
      "it_format i3 = FormatBinary" "link_ready l3"
    and st3: "h_state (lk_handler l3) = (if ?p 17 then h_state (fst (handleS1F17 (lk_handler l2))) else h_state (lk_handler l2))"
    unfolding same2 by blast
  have "IsCommunicating (h_state (lk_handler l3)) \<and> sm_controlState (h_state (lk_handler l3)) = ControlOnlineRemote" if "?p 13" "?p 17"
    using that assms(3) st1 st2 st3
    by (simp add: handleS1F13_def handleS1F17_def EnableComm_def CommEstablished_def GoOnlineRemote_def notifyChange_def
        ok_or_def IsCommunicating_def Let_def)
  with setup_run [OF 1(1) 2(1) 3(1) 1(2) 2(2) 3(2), of cancelled] 3(3) show ?thesis by auto
qed

text \<open>C28. The setup script from a fresh start. A host connects to listening equipment that allows its address and selects; then it
  runs the built-in script. Whatever the policy of the equipment, the script ends with its six steps counted; it passes
  exactly when the policy allows its three requests, and then the equipment at the other end communicates and
  is online under remote control.
\<close>

theorem setup_over_wire:
  assumes "cfg_Role hcfg = RoleActive" and "cfg_Role ecfg = RolePassive"
    and "cfg_AllowedPeers ecfg = [] \<or> isAllowed peer (cfg_AllowedPeers ecfg)"
    and "length (h_mdln h) + length (h_softrev h) + 31 \<le> min (maxMessageSize (cfg_MaxMessageSize hcfg)) max_len"
    and "31 \<le> maxMessageSize (cfg_MaxMessageSize ecfg)"
    and "h_customHandlers h = []" and "\<not> ho_intercept ho" and "sm_commState (h_state h) = CommDisabled"
  shows "\<exists>lk r lk'. open_link hcfg ecfg peer h = Some lk \<and>
           Run (wire_exchange ord) cancelled (BuiltinScenarios ! 0) ho lk = OK (r, ho, lk') \<and>
           res_Passed r + res_Failed r = 6 \<and> link_ready lk' \<and>
           (res_Failed r = 0 \<longleftrightarrow> list_all (\<lambda>f. IsAllowed (h_policy h) 1 f) [13, 1, 17]) \<and>
           (res_Failed r = 0 \<longrightarrow> IsCommunicating (h_state (lk_handler lk')) \<and>
              sm_controlState (h_state (lk_handler lk')) = ControlOnlineRemote)"
proof -
  have "10 \<le> maxMessageSize (cfg_MaxMessageSize hcfg)" "10 \<le> maxMessageSize (cfg_MaxMessageSize ecfg)"
    using assms(4,5) by linarith+
  from open_link_ready [OF assms(1-3) this, of h] obtain lk where lk: "open_link hcfg ecfg peer h = Some lk" "link_ready lk"
    "lk_handler lk = h" "ss_nextSystemID (lk_host lk) = 1" "limit_of (lk_host lk) = maxMessageSize (cfg_MaxMessageSize hcfg)"
    "limit_of (lk_eq lk) = maxMessageSize (cfg_MaxMessageSize ecfg)" by blast
  then have "setup_ready 3 lk" using assms(4-6) by (simp add: setup_ready_def)
  from setup_run_wire [OF this assms(7)] lk(1,3) assms(8) show ?thesis by auto
qed

definition demo_eq :: Handler where
  "demo_eq = SetPolicy FullAccessPolicy (NewHandler 1 ''EQ'' ''1.0'')"

lemma demo_eq_parts:
  "h_mdln demo_eq = ''EQ''" "h_softrev demo_eq = ''1.0''" "h_customHandlers demo_eq = []" "sm_commState (h_state demo_eq) = CommDisabled"
  "IsAllowed (h_policy demo_eq) s f" "h_outbox demo_eq = []"
  by (simp_all add: demo_eq_def SetPolicy_def NewHandler_def NewStateMachine_def FullAccessPolicy_def IsAllowed_def)

theorem setup_over_wire_witness:
  "\<exists>lk r lk'. open_link (DefaultConfig RoleActive 1) (DefaultConfig RolePassive 1) [127, 0, 0, 1] demo_eq = Some lk \<and>
     Run (wire_exchange id) (\<lambda>_. False) (BuiltinScenarios ! 0) (NewHost 1) lk = OK (r, NewHost 1, lk') \<and>
     res_Passed r = 6 \<and> sm_controlState (h_state (lk_handler lk')) = ControlOnlineRemote"
proof -
  let ?h = "DefaultConfig RoleActive 1" and ?e = "DefaultConfig RolePassive 1"
  have "cfg_Role ?h = RoleActive" "cfg_Role ?e = RolePassive" "cfg_AllowedPeers ?e = [] \<or> isAllowed [127, 0, 0, 1] (cfg_AllowedPeers ?e)"
    "length (h_mdln demo_eq) + length (h_softrev demo_eq) + 31 \<le> min (maxMessageSize (cfg_MaxMessageSize ?h)) max_len"
    "31 \<le> maxMessageSize (cfg_MaxMessageSize ?e)" "\<not> ho_intercept (NewHost 1)"
    by (simp_all add: DefaultConfig_def maxMessageSize_def defaultMaxMessageSize_def demo_eq_parts max_len_def NewHost_def)
  from setup_over_wire [OF this(1-5) demo_eq_parts(3) this(6) demo_eq_parts(4), of id "\<lambda>_. False"] demo_eq_parts(5)
  show ?thesis by fastforce
qed

text \<open>A link that is up, with a host that has numbered \<open>n\<close> requests.\<close>

definition demo_session :: "Role \<Rightarrow> uint32 \<Rightarrow> Session" where
  "demo_session role n = (NewSession (DefaultConfig role 1))\<lparr>ss_state := StateSelected,
     ss_conn := Some \<lparr>c_peer = [], c_open = True\<rparr>, ss_started := True, ss_nextSystemID := n\<rparr>"

definition demo_link :: "uint32 \<Rightarrow> wire_link" where
  "demo_link n = \<lparr>lk_host = demo_session RoleActive n, lk_eq = demo_session RolePassive 0, lk_handler = demo_eq\<rparr>"

lemma demo_link_ready: "link_ready (demo_link n)" "ss_nextSystemID (lk_host (demo_link n)) = n" "ss_nextSystemID (lk_eq (demo_link n)) = 0"
  by (simp_all add: link_ready_def demo_link_def demo_session_def up_def fresh_chans_def NewSession_def)

lemma demo_exchange:
  "exchange_ok id (NewDataMessage 1 1 1 True 0 []) (demo_link n)"
  "\<exists>h' a. direct_link id (NewDataMessage 1 1 1 True 0 []) (link_abs (demo_link n)) = ((h', n + 1), OK (Some a)) \<and>
     Function (MHeader a) = 2"
proof -
  have wf: "wf_item (handleS1F1 demo_eq)" by (rule wf_replies(1)) (simp_all add: demo_eq_parts max_len_def)
  have "length (item_bytes (handleS1F1 demo_eq)) \<le> 17" using reply_lengths(1) [of demo_eq] by (simp add: demo_eq_parts)
  then show "exchange_ok id (NewDataMessage 1 1 1 True 0 []) (demo_link n)"
    by (simp add: exchange_ok_def small_def numbered_def new_message_defs HandleMessage_def IsControlMessage_def sendReply_def
        demo_link_def demo_eq_parts builtin_def Encode_wf [OF wf] stype_defs limit_of_def demo_session_def NewSession_def DefaultConfig_def
        maxMessageSize_def defaultMaxMessageSize_def)
  have "builtin id 1 1 [] demo_eq = Some (OK (demo_eq, handleS1F1 demo_eq))" by (simp add: builtin_def)
  from link_request [OF demo_eq_parts(3) _ wf this, of 1 n]
  show "\<exists>h' a. direct_link id (NewDataMessage 1 1 1 True 0 []) (link_abs (demo_link n)) = ((h', n + 1), OK (Some a)) \<and>
     Function (MHeader a) = 2"
    by (auto simp: same_equipment_def demo_eq_parts link_abs_def demo_link_ready demo_link_def demo_session_def new_message_defs)
qed

theorem wire_refines_link_witness:
  "\<exists>lk' a. wire_exchange id (NewDataMessage 1 1 1 True 0 []) (demo_link 7) = (lk', OK (Some a)) \<and> Function (MHeader a) = 2 \<and> link_ready lk'"
proof -
  have "ss_nextSystemID (lk_host (demo_link 7)) + 1 \<noteq> 0" by (simp add: demo_link_ready)
  from wire_refines_link [OF demo_link_ready(1) demo_exchange(1) this] demo_exchange(2) [of 7] show ?thesis by auto
qed

theorem wrapped_id_times_out_witness:
  "snd (wire_exchange id (NewDataMessage 1 1 1 True 0 []) (demo_link 0xFFFFFFFF)) = Err ()"
proof -
  obtain h' a where "direct_link id (NewDataMessage 1 1 1 True 0 []) (link_abs (demo_link 0xFFFFFFFF)) = ((h', 0), OK (Some a))"
    using demo_exchange(2) [of "0xFFFFFFFF"] by auto
  from wrapped_id_times_out [OF demo_link_ready(1) demo_exchange(1) _ _ _ this] show ?thesis
    by (simp add: demo_link_ready asks_def new_message_defs)
qed

end
