(* ===== verification/Command_Flags.thy ===== *)
theory Command_Flags
  imports Secsgem_Main Connect_Command
begin

text \<open>
  The command line before the guards (\<^verbatim>\<open>cmd/secsgem/main.go\<close>): the flag sets of the three commands, the parser of
  the package \<^verbatim>\<open>flag\<close> with the numbers and durations of its values, and the start and stop of the
  simulator. The lemmas show that every spelling of settings is read as these settings, and that
  equipment with write access needs a flag that asks for it.
\<close>

section \<open>Durations\<close>

text \<open>\<^verbatim>\<open>time.ParseDuration\<close>: numbers with units, in nanoseconds.\<close>

definition is_digit :: "char \<Rightarrow> bool" where "is_digit c \<longleftrightarrow> 48 \<le> ccode c \<and> ccode c \<le> 57"

fun leadingInt :: "nat \<Rightarrow> string \<Rightarrow> (nat \<times> string) option" where
  "leadingInt x [] = Some (x, [])"
| "leadingInt x (c # s) =
     (if \<not> is_digit c then Some (x, c # s)
      else if 2 ^ 63 div 10 < x then None
      else let y = x * 10 + (ccode c - 48) in if 2 ^ 63 < y then None else leadingInt y s)"

text \<open>Digits after the point that no longer fit are skipped.\<close>

fun leadingFraction :: "bool \<Rightarrow> nat \<Rightarrow> float64 \<Rightarrow> string \<Rightarrow> nat \<times> float64 \<times> string" where
  "leadingFraction overflow x scale [] = (x, scale, [])"
| "leadingFraction overflow x scale (c # s) =
     (if \<not> is_digit c then (x, scale, c # s)
      else if overflow \<or> (2 ^ 63 - 1) div 10 < x then leadingFraction True x scale s
      else let y = x * 10 + (ccode c - 48) in
        if 2 ^ 63 < y then leadingFraction True x scale s
        else leadingFraction False y (f64_mul scale (f64_of_int 10)) s)"

definition micro_signs :: "string list" where
  "micro_signs = [[CHR 0xC2, CHR 0xB5, CHR ''s''], [CHR 0xCE, CHR 0xBC, CHR ''s'']]"

definition unitMap :: "string \<Rightarrow> nat option" where
  "unitMap u =
     (if u = ''ns'' then Some 1 else if u = ''us'' \<or> u \<in> set micro_signs then Some 1000 else if u = ''ms'' then Some 1000000
      else if u = ''s'' then Some 1000000000 else if u = ''m'' then Some 60000000000
      else if u = ''h'' then Some 3600000000000 else None)"

text \<open>One number with its unit: its nanoseconds and the rest.\<close>

definition duration_part :: "string \<Rightarrow> (nat \<times> string) option" where
  "duration_part s =
     (case leadingInt 0 s of
        None \<Rightarrow> None
      | Some (v, r) \<Rightarrow>
          let pre = length r \<noteq> length s;
              dot = (r \<noteq> [] \<and> hd r = CHR ''.'');
              (f, scale, r') = (if dot then leadingFraction False 0 f64_one (tl r) else (0, f64_one, r));
              post = (dot \<and> length r' \<noteq> length (tl r));
              u = takeWhile (\<lambda>c. c \<noteq> CHR ''.'' \<and> \<not> is_digit c) r'
          in if \<not> pre \<and> \<not> post \<or> u = [] then None
             else case unitMap u of
                    None \<Rightarrow> None
                  | Some unit \<Rightarrow>
                      if 2 ^ 63 div unit < v then None
                      else
                        let w = v * unit + (if 0 < f then nat (f64_to_int64 (\<lambda>_. 0)
                                  (f64_mul (f64_of_int (int f)) (f64_div (f64_of_int (int unit)) scale))) else 0)
                        in if 2 ^ 63 < w then None else Some (w, drop (length u) r'))"

lemma leadingInt_le: "leadingInt x s = Some (v, r) \<Longrightarrow> length r \<le> length s"
  by (induction x s rule: leadingInt.induct) (auto simp: Let_def split: if_split_asm)

lemma leadingFraction_le: "leadingFraction ov x sc s = (f, scale, r) \<Longrightarrow> length r \<le> length s"
proof (induction s arbitrary: ov x sc)
  case (Cons c s)
  show ?case
    using Cons.prems Cons.IH by (auto simp: Let_def split: if_split_asm intro: le_SucI)
qed simp

lemma duration_part_shorter:
  assumes "duration_part s = Some (w, r)"
  shows "length r < length s"
proof -
  obtain v r1 where 1: "leadingInt 0 s = Some (v, r1)" using assms by (auto simp: duration_part_def split: option.split_asm)
  obtain f sc r2 where 2: "(if r1 \<noteq> [] \<and> hd r1 = CHR ''.'' then leadingFraction False 0 f64_one (tl r1) else (0, f64_one, r1)) = (f, sc, r2)"
    by (metis prod_cases3)
  have le: "length r1 \<le> length s" "length r2 \<le> length r1"
    using leadingInt_le [OF 1] leadingFraction_le [of False 0 f64_one "tl r1" f sc r2] 2 by (auto split: if_split_asm)
  let ?u = "takeWhile (\<lambda>c. c \<noteq> CHR ''.'' \<and> \<not> is_digit c) r2"
  have "?u \<noteq> []" "r = drop (length ?u) r2"
    using assms 1 2 by (auto simp: duration_part_def Let_def split: option.split_asm if_split_asm)
  then have "r2 \<noteq> []" "length r < length r2" by (auto simp: length_greater_0_conv) (cases r2; auto)
  with le show ?thesis by linarith
qed

function duration_parts :: "nat \<Rightarrow> string \<Rightarrow> nat option" where
  "duration_parts d s =
     (if s = [] then Some d
      else case duration_part s of
             None \<Rightarrow> None
           | Some x \<Rightarrow> if 2 ^ 63 < d + fst x then None else duration_parts (d + fst x) (snd x))"
  by pat_completeness auto
termination
proof (relation "measure (\<lambda>(d, s). length s)", goal_cases)
  case (2 d s x)
  then show ?case using duration_part_shorter [of s "fst x" "snd x"] by simp
qed simp

declare duration_parts.simps [simp del]

definition ParseDuration :: "string \<Rightarrow> int option" where
  "ParseDuration s =
     (let neg = (s \<noteq> [] \<and> hd s = CHR ''-''); t = drop_sign s
      in if t = ''0'' then Some 0
         else if t = [] then None
         else case duration_parts 0 t of
                None \<Rightarrow> None
              | Some d \<Rightarrow> if neg then Some (- int d) else if 2 ^ 63 - 1 < d then None else Some (int d))"

section \<open>Flags\<close>

datatype flag_val = FString string | FInt int | FDuration int

type_synonym FlagSet = "(string, flag_val) gomap"

text \<open>\<^verbatim>\<open>Set\<close> of the value a flag has.\<close>

fun flag_Set :: "flag_val \<Rightarrow> string \<Rightarrow> flag_val option" where
  "flag_Set (FString _) s = Some (FString s)"
| "flag_Set (FInt _) s = map_option FInt (ParseInt s 0 64)"
| "flag_Set (FDuration _) s = map_option FDuration (ParseDuration s)"

datatype flag_error = BadSyntax string | NotDefined string | NeedsArgument string | InvalidValue string string | ErrHelp

text \<open>A flag with its value after an equals sign, if it has one.\<close>

definition split_eq :: "string \<Rightarrow> string \<times> string option" where
  "split_eq s =
     (let name = takeWhile (\<lambda>c. c \<noteq> CHR ''='') s
      in (name, if CHR ''='' \<in> set s then Some (drop (Suc (length name)) s) else None))"

definition set_flag :: "string \<Rightarrow> string \<Rightarrow> FlagSet \<Rightarrow> (flag_error, FlagSet) res" where
  "set_flag name v fs =
     (case map_of fs name of
        None \<Rightarrow> if name = ''help'' \<or> name = ''h'' then Err ErrHelp else Err (NotDefined name)
      | Some cur \<Rightarrow>
          (case flag_Set cur v of
             None \<Rightarrow> Err (InvalidValue v name)
           | Some x \<Rightarrow> OK (AList.update name x fs)))"

fun parse_flags :: "FlagSet \<Rightarrow> string list \<Rightarrow> (flag_error, FlagSet \<times> string list) res" where
  "parse_flags fs [] = OK (fs, [])"
| "parse_flags fs (s # args) =
     (if length s < 2 \<or> hd s \<noteq> CHR ''-'' then OK (fs, s # args)
      else if s = ''--'' then OK (fs, args)
      else
        let name = drop (if s ! 1 = CHR ''-'' then 2 else 1) s in
        if name = [] \<or> hd name = CHR ''-'' \<or> hd name = CHR ''='' then Err (BadSyntax s)
        else
          case split_eq name of
            (name, Some v) \<Rightarrow> bind_res (set_flag name v fs) (\<lambda>fs. parse_flags fs args)
          | (name, None) \<Rightarrow>
              (case map_of fs name of
                 None \<Rightarrow> if name = ''help'' \<or> name = ''h'' then Err ErrHelp else Err (NotDefined name)
               | Some _ \<Rightarrow>
                   (case args of
                      [] \<Rightarrow> Err (NeedsArgument name)
                    | v # args' \<Rightarrow> bind_res (set_flag name v fs) (\<lambda>fs. parse_flags fs args'))))"

declare parse_flags.simps(2) [simp del]

definition str_flag :: "FlagSet \<Rightarrow> string \<Rightarrow> string" where
  "str_flag fs name = (case map_of fs name of Some (FString s) \<Rightarrow> s | _ \<Rightarrow> [])"

definition int_flag :: "FlagSet \<Rightarrow> string \<Rightarrow> int" where
  "int_flag fs name = (case map_of fs name of Some (FInt i) \<Rightarrow> i | Some (FDuration i) \<Rightarrow> i | _ \<Rightarrow> 0)"

section \<open>The commands\<close>

definition sim_flag_set :: FlagSet where
  "sim_flag_set =
     [(''addr'', FString '':5000''), (''api'', FString '':8080''), (''session'', FInt 1), (''model'', FString ''SIM-EQUIP-01''),
      (''version'', FString ''1.0.0''), (''event-interval'', FDuration (5 * Hsms_Session.second)), (''mqtt-broker'', FString []),
      (''mqtt-prefix'', FString []), (''mqtt-qos'', FInt 1), (''grpc-addr'', FString []), (''webhook-url'', FString []),
      (''syslog-addr'', FString []), (''api-token'', FString []), (''api-write-token'', FString []), (''cors-origin'', FString []),
      (''policy'', FString ''monitor'')]"

definition sim_flags_of :: "FlagSet \<Rightarrow> sim_flags" where
  "sim_flags_of fs =
     \<lparr>fl_addr = str_flag fs ''addr'', fl_api = str_flag fs ''api'', fl_session = int_flag fs ''session'', fl_model = str_flag fs ''model'',
      fl_version = str_flag fs ''version'', fl_event_interval = int_flag fs ''event-interval'',
      fl_mqtt_broker = str_flag fs ''mqtt-broker'', fl_mqtt_prefix = str_flag fs ''mqtt-prefix'', fl_mqtt_qos = int_flag fs ''mqtt-qos'',
      fl_grpc_addr = str_flag fs ''grpc-addr'', fl_webhook_url = str_flag fs ''webhook-url'', fl_syslog_addr = str_flag fs ''syslog-addr'',
      fl_api_token = str_flag fs ''api-token'', fl_api_write_token = str_flag fs ''api-write-token'',
      fl_cors_origin = str_flag fs ''cors-origin'', fl_policy = str_flag fs ''policy''\<rparr>"

definition connect_flag_set :: FlagSet where
  "connect_flag_set = [(''session'', FInt 1)]"

definition studio_flag_set :: FlagSet where
  "studio_flag_set =
     [(''port'', FInt 8080), (''host'', FString []), (''equipment-addr'', FString []), (''session'', FInt 1), (''studio-token'', FString []),
      (''cors-origin'', FString [])]"

definition studio_flags_of :: "FlagSet \<Rightarrow> studio_flags" where
  "studio_flags_of fs =
     \<lparr>sf_port = int_flag fs ''port'', sf_host = str_flag fs ''host'', sf_equipment_addr = str_flag fs ''equipment-addr'',
      sf_session = int_flag fs ''session'', sf_token = str_flag fs ''studio-token'', sf_cors_origin = str_flag fs ''cors-origin''\<rparr>"

text \<open>\<^verbatim>\<open>ExitOnError\<close>: help ends with status 0, any other error with status 2. A command of its own accord ends
  with status 1.\<close>

definition exit_on_error :: "(flag_error, 'a) res \<Rightarrow> ('a \<Rightarrow> 'b option) \<Rightarrow> nat + 'b" where
  "exit_on_error r k =
     (case r of
        OK x \<Rightarrow> (case k x of None \<Rightarrow> Inl 1 | Some y \<Rightarrow> Inr y)
      | Err e \<Rightarrow> Inl (if e = ErrHelp then 0 else 2)
      | Panic \<Rightarrow> Inl 2)"

definition simulate_command :: "main_env \<Rightarrow> readings \<Rightarrow> string list \<Rightarrow> nat + simulator_run" where
  "simulate_command env rd args =
     exit_on_error (parse_flags sim_flag_set args) (\<lambda>(fs, _). runSimulator env rd (sim_flags_of fs))"

definition studio_command :: "main_env \<Rightarrow> readings \<Rightarrow> bool \<times> bool \<times> ip \<times> bool \<Rightarrow> string list \<Rightarrow> nat + StudioServer" where
  "studio_command env rd net args =
     exit_on_error (parse_flags studio_flag_set args) (\<lambda>(fs, _). runStudio env rd net (studio_flags_of fs))"

definition connect_flags_of :: "string list \<Rightarrow> nat + connect_flags" where
  "connect_flags_of args =
     exit_on_error (parse_flags connect_flag_set args)
       (\<lambda>(fs, rest). if rest = [] then None else Some \<lparr>cf_session = int_flag fs ''session'', cf_args = rest\<rparr>)"

section \<open>Starting and stopping the simulator\<close>

definition eq_Start :: "bool \<Rightarrow> bool \<Rightarrow> Equipment \<Rightarrow> Equipment \<times> (hsms_error, unit) res" where
  "eq_Start net_ok tls_ok eq = (let (s, r) = Connect net_ok tls_ok [] (eq_session eq) in (eq\<lparr>eq_session := s\<rparr>, r))"

definition eq_Stop :: "Equipment \<Rightarrow> Equipment" where
  "eq_Stop eq = eq\<lparr>eq_session := Close (eq_session eq)\<rparr>"

text \<open>The end of \<^verbatim>\<open>runSimulator\<close> after a signal; the servers of the libraries stop with it.\<close>

definition sim_shutdown :: "simulator_run \<Rightarrow> simulator_run" where
  "sim_shutdown ru = ru\<lparr>ru_equipment := eq_Stop (ru_equipment ru)\<rparr>"

section \<open>Every spelling of settings is read\<close>

text \<open>A setting with one or two minus signs, its value in the same or in the next argument.\<close>

datatype spelling = Spelling bool bool string string

fun spell :: "spelling \<Rightarrow> string list" where
  "spell (Spelling two joined name v) =
     (let flag = (if two then ''--'' else ''-'') @ name in if joined then [flag @ ''='' @ v] else [flag, v])"

fun spelled_set :: "FlagSet \<Rightarrow> spelling list \<Rightarrow> (flag_error, FlagSet) res" where
  "spelled_set fs [] = OK fs"
| "spelled_set fs (Spelling two joined name v # sps) = bind_res (set_flag name v fs) (\<lambda>fs. spelled_set fs sps)"

definition flag_name :: "string \<Rightarrow> bool" where
  "flag_name s \<longleftrightarrow> s \<noteq> [] \<and> hd s \<noteq> CHR ''-'' \<and> CHR ''='' \<notin> set s"

definition flag_names :: "FlagSet \<Rightarrow> bool" where
  "flag_names fs \<longleftrightarrow> list_all flag_name (map fst fs)"

definition no_flag :: "string list \<Rightarrow> bool" where
  "no_flag rest \<longleftrightarrow> (case rest of [] \<Rightarrow> True | s # _ \<Rightarrow> length s < 2 \<or> hd s \<noteq> CHR ''-'')"

lemma split_eq_joined: "CHR ''='' \<notin> set name \<Longrightarrow> split_eq (name @ ''='' @ v) = (name, Some v)"
  by (simp add: split_eq_def takeWhile_append Let_def)

lemma split_eq_plain: "CHR ''='' \<notin> set name \<Longrightarrow> split_eq name = (name, None)"
  by (simp add: split_eq_def Let_def) (metis takeWhile_eq_all_conv)

lemma set_flag_OK:
  assumes "set_flag name v fs = OK fs'"
  shows "map_of fs name \<noteq> None" and "flag_names fs \<Longrightarrow> flag_names fs'"
proof -
  obtain cur x where x: "map_of fs name = Some cur" "fs' = AList.update name x fs"
    using assms by (auto simp: set_flag_def split: option.split_asm if_split_asm)
  then show "map_of fs name \<noteq> None" by simp
  have "fst ` set fs' = fst ` set fs"
    unfolding x(2) dom_update using map_of_SomeD [OF x(1)] by force
  then show "flag_names fs'" if "flag_names fs" using that by (simp add: flag_names_def list_all_iff)
qed

lemma parse_spell:
  assumes "flag_name name" and "map_of fs name \<noteq> None"
  shows "parse_flags fs (spell (Spelling two joined name v) @ args) = bind_res (set_flag name v fs) (\<lambda>fs. parse_flags fs args)"
proof -
  obtain c t where n: "name = c # t" "c \<noteq> CHR ''-''" "c \<noteq> CHR ''=''" "CHR ''='' \<notin> set name"
    using assms(1) by (cases name) (auto simp: flag_name_def)
  obtain cur where cur: "map_of fs name = Some cur" using assms(2) by blast
  note eqs = split_eq_joined [OF n(4), of v] split_eq_plain [OF n(4)]
  show ?thesis
    using n(2,3) eqs cur unfolding n(1)
    by (cases two; cases joined) (simp_all add: parse_flags.simps(2) Let_def)
qed

lemma flag_known: "flag_names fs \<Longrightarrow> map_of fs name \<noteq> None \<Longrightarrow> flag_name name"
  by (auto simp: flag_names_def list_all_iff dest!: map_of_SomeD)

text \<open>
  Every spelling of settings is read as these settings. Given any sequence of settings for the defined flags, each
  with one or two minus signs and its value after an equals sign or in the next argument, whatever the value looks
  like, the parser sets exactly these values in order and leaves the arguments after them.
\<close>

theorem settings_read:
  assumes "flag_names fs" and "spelled_set fs sps = OK fs'" and "no_flag rest"
  shows "parse_flags fs (concat (map spell sps) @ rest) = OK (fs', rest)"
  using assms
proof (induction sps arbitrary: fs)
  case Nil
  then show ?case by (cases rest) (auto simp: no_flag_def parse_flags.simps(2))
next
  case (Cons sp sps)
  obtain two joined name v where sp: "sp = Spelling two joined name v" by (cases sp)
  with Cons.prems(2) obtain fs1 where 1: "set_flag name v fs = OK fs1" "spelled_set fs1 sps = OK fs'"
    by (auto simp: bind_res_eq_OK)
  note known = set_flag_OK [OF 1(1)]
  from Cons.IH [OF known(2) [OF Cons.prems(1)] 1(2) Cons.prems(3)]
    parse_spell [OF flag_known [OF Cons.prems(1) known(1)] known(1), of two joined v "concat (map spell sps) @ rest"] 1(1)
  show ?case by (simp add: sp)
qed

section \<open>Write access needs a flag\<close>

definition asks_full :: "string list \<Rightarrow> bool" where
  "asks_full args \<longleftrightarrow> ''-policy=full'' \<in> set args \<or> ''--policy=full'' \<in> set args \<or>
     (\<exists>pre p post. args = pre @ p # ''full'' # post \<and> p \<in> {''-policy'', ''--policy''})"

lemma asks_full_Cons: "asks_full args \<Longrightarrow> asks_full (s # args)"
  unfolding asks_full_def by (metis append_Cons list.set_intros(2))

lemma asks_full_next: "p \<in> {''-policy'', ''--policy''} \<Longrightarrow> asks_full (p # ''full'' # args)"
  unfolding asks_full_def by (metis append_Nil)

lemma set_flag_policy:
  assumes "set_flag name v fs = OK fs'" and "str_flag fs' ''policy'' = ''full''"
  shows "str_flag fs ''policy'' = ''full'' \<or> name = ''policy'' \<and> v = ''full''"
proof -
  obtain cur x where x: "map_of fs name = Some cur" "flag_Set cur v = Some x" "fs' = AList.update name x fs"
    using assms(1) by (auto simp: set_flag_def split: option.split_asm if_split_asm)
  show ?thesis
    using assms(2) x by (cases cur) (auto simp: str_flag_def update_conv' split: if_split_asm)
qed

lemma split_eq_SomeD:
  assumes "split_eq s = (name, Some v)"
  shows "s = name @ ''='' @ v"
proof -
  let ?P = "\<lambda>c. c \<noteq> CHR ''=''"
  have 1: "CHR ''='' \<in> set s" "name = takeWhile ?P s" "v = drop (Suc (length name)) s"
    using assms by (auto simp: split_eq_def Let_def split: if_split_asm)
  obtain d where d: "dropWhile ?P s = CHR ''='' # d"
    using 1(1) hd_dropWhile [of ?P s] by (cases "dropWhile ?P s") auto
  have s: "s = name @ CHR ''='' # d" using takeWhile_dropWhile_id [of ?P s] unfolding d 1(2) by (rule sym)
  then have "drop (Suc (length name)) s = d" by (simp only: drop_append) simp
  with s 1(3) show ?thesis by simp
qed

lemma split_eq_NoneD:
  assumes "split_eq s = (name, None)"
  shows "s = name"
proof -
  have "CHR ''='' \<notin> set s" using assms by (simp add: split_eq_def Let_def split: if_split_asm)
  then show ?thesis using split_eq_plain assms by simp
qed

lemma dashes:
  assumes "\<not> length s < 2" and "hd s = CHR ''-''"
  shows "s = ''-'' @ drop (if s ! 1 = CHR ''-'' then 2 else 1) s \<or> s = ''--'' @ drop (if s ! 1 = CHR ''-'' then 2 else 1) s"
proof -
  obtain c t where "s = CHR ''-'' # c # t" using assms by (cases s; cases "tl s") auto
  then show ?thesis by simp
qed

lemma parse_policy:
  assumes "parse_flags fs args = OK (fs', rest)" and "str_flag fs' ''policy'' = ''full''" and "str_flag fs ''policy'' \<noteq> ''full''"
  shows "asks_full args"
  using assms
proof (induction "length args" arbitrary: fs args rule: less_induct)
  case less
  show ?case
  proof (cases args)
    case Nil
    with less.prems show ?thesis by simp
  next
    case (Cons s as)
    define nm where "nm = drop (if s ! 1 = CHR ''-'' then 2 else 1) s"
    have flag: "\<not> length s < 2" "hd s = CHR ''-''" "s \<noteq> ''--''" "\<not> (nm = [] \<or> hd nm = CHR ''-'' \<or> hd nm = CHR ''='')"
      using less.prems by (auto simp: Cons parse_flags.simps(2) nm_def Let_def split: if_split_asm)
    then have p: "parse_flags fs (s # as) =
        (case split_eq nm of
            (name, Some v) \<Rightarrow> bind_res (set_flag name v fs) (\<lambda>fs. parse_flags fs as)
          | (name, None) \<Rightarrow>
              (case map_of fs name of
                 None \<Rightarrow> if name = ''help'' \<or> name = ''h'' then Err ErrHelp else Err (NotDefined name)
               | Some _ \<Rightarrow>
                   (case as of
                      [] \<Rightarrow> Err (NeedsArgument name)
                    | v # args' \<Rightarrow> bind_res (set_flag name v fs) (\<lambda>fs. parse_flags fs args'))))"
      by (simp add: parse_flags.simps(2) nm_def)
    have s: "s = ''-'' @ nm \<or> s = ''--'' @ nm" using dashes [OF flag(1,2)] by (simp only: nm_def)
    obtain name ov where sp: "split_eq nm = (name, ov)" by fastforce
    obtain v tl fs1 where v: "set_flag name v fs = OK fs1" "parse_flags fs1 tl = OK (fs', rest)"
      "ov = Some v \<and> tl = as \<or> ov = None \<and> as = v # tl"
      using less.prems(1) p sp by (auto simp: Cons bind_res_eq_OK split: option.split_asm list.split_asm if_split_asm)
    show ?thesis
    proof (cases "str_flag fs1 ''policy'' = ''full''")
      case False
      have "length tl < length args" using v(3) by (auto simp: Cons)
      from less.hyps [OF this v(2) less.prems(2) False] v(3) show ?thesis by (auto simp: Cons intro: asks_full_Cons)
    next
      case True
      with set_flag_policy [OF v(1)] less.prems(3) have f: "name = ''policy''" "v = ''full''" by auto
      show ?thesis
      proof (cases ov)
        case None
        with v(3) sp f s split_eq_NoneD [of nm name] show ?thesis by (auto simp: Cons intro!: asks_full_next)
      next
        case (Some _)
        with v(3) sp f s split_eq_SomeD [of nm name v] show ?thesis by (auto simp: Cons asks_full_def)
      qed
    qed
  qed
qed

lemma hooked_equipment:
  assumes "runSimulator env rd fl = Some ru"
  shows "\<exists>cfg b. AllowWrites cfg = (fl_policy fl = ''full'') \<and>
     ru_equipment ru = (NewEquipment rd cfg)\<lparr>eq_handler := (eq_handler (NewEquipment rd cfg))\<lparr>h_auditor := b\<rparr>\<rparr>"
proof -
  let ?cfg = "\<lparr>ListenAddress = fl_addr fl, eq_SessionID = word_of_int (fl_session fl), ModelName = fl_model fl,
      SoftwareRevision = fl_version fl, EventInterval = fl_event_interval fl, AllowWrites = (fl_policy fl = ''full'')\<rparr>"
  have "ru_equipment ru = (NewEquipment rd ?cfg)\<lparr>eq_handler := (eq_handler (NewEquipment rd ?cfg))\<lparr>h_auditor := True\<rparr>\<rparr>"
    using assms
    by (auto simp: runSimulator_def Let_def SetAuditor_def AttachToHandler_def grpc_register_def OnAlarmSent_def OnEventSent_def plain_def
        split: if_split_asm)
  moreover have "AllowWrites ?cfg = (fl_policy fl = ''full'')" by simp
  ultimately show ?thesis by blast
qed

lemma auditor_frame: "primaries (h\<lparr>h_auditor := b\<rparr>) = primaries h"
  by (simp add: primaries_def)


section \<open>After the stop\<close>

text \<open>Once stopped, the simulator's session writes nothing any more.\<close>

lemma stopped_silent:
  assumes "\<not> ss_closed (eq_session (ru_equipment ru))"
  shows "ss_sent (fst (SendMessage_begin w m (eq_session (ru_equipment (sim_shutdown ru))))) = ss_sent (eq_session (ru_equipment ru))"
proof -
  let ?s = "eq_session (ru_equipment (sim_shutdown ru))"
  have c: "ss_sent ?s = ss_sent (eq_session (ru_equipment ru))" "\<forall>c. ss_conn ?s = Some c \<longrightarrow> \<not> c_open c"
    using assms by (auto simp: sim_shutdown_def eq_Stop_def Close_def)
  have w: "writeMessage w m t \<noteq> OK t'" if "ss_conn t = ss_conn ?s" for t t' m
    using c(2) that by (auto simp: writeMessage_def bind_res_eq_OK split: option.split_asm if_split_asm)
  have a: "ss_conn (fst (assign_sys m ?s)) = ss_conn ?s" "ss_sent (fst (assign_sys m ?s)) = ss_sent ?s"
    by (simp_all add: assign_sys_def next_sys_def Let_def)
  show ?thesis
    using c(1) a w
    by (auto simp: SendMessage_begin_def sendAndWait_begin_def Let_def case_prod_unfold split: res.split)
qed

section \<open>Examples\<close>

lemma duration_parts_bound: "duration_parts d s = Some e \<Longrightarrow> d \<le> 2 ^ 63 \<Longrightarrow> e \<le> 2 ^ 63"
proof (induction d s rule: duration_parts.induct)
  case (1 d s)
  show ?case
  proof (cases "s = []")
    case False
    then obtain x where "duration_part s = Some x" "d + fst x \<le> 2 ^ 63" "duration_parts (d + fst x) (snd x) = Some e"
      using "1.prems"(1) by (simp add: duration_parts.simps [of d s] split: option.split_asm if_split_asm)
    with "1.IH" [OF False] show ?thesis by simp
  qed (use 1 in \<open>simp add: duration_parts.simps\<close>)
qed

text \<open>A duration that is read is an \<^verbatim>\<open>int64\<close>.\<close>

lemma ParseDuration_bound: "ParseDuration s = Some d \<Longrightarrow> - (2 ^ 63) \<le> d \<and> d < 2 ^ 63"
  using duration_parts_bound [of 0 "drop_sign s"]
  by (auto simp: ParseDuration_def Let_def split: option.split_asm if_split_asm)

lemma duration_read: "ParseDuration ''-1h30m'' = Some (- 5400000000000)"
  by (simp add: ParseDuration_def drop_sign_def duration_parts.simps duration_part_def is_digit_def unitMap_def micro_signs_def Let_def)

definition demo_args :: "string list" where
  "demo_args = [''-api-token'', ''r'', ''--policy=monitor'']"

lemma demo_args_parsed:
  "parse_flags sim_flag_set demo_args = OK (AList.update ''policy'' (FString ''monitor'') (AList.update ''api-token'' (FString ''r'') sim_flag_set), [])"
  by (simp add: demo_args_def parse_flags.simps(2) sim_flag_set_def set_flag_def split_eq_def Let_def)

lemma demo_simulate: "\<exists>ru. simulate_command demo_main no_readings demo_args = Inr ru"
proof -
  let ?fl = "sim_flags_of (AList.update ''policy'' (FString ''monitor'') (AList.update ''api-token'' (FString ''r'') sim_flag_set))"
  have fl: "fl_policy ?fl = ''monitor''" "fl_api_token ?fl = ''r''" "fl_grpc_addr ?fl = []"
    by (simp_all add: sim_flags_of_def str_flag_def sim_flag_set_def)
  have "TokenFromEnv (me_getenv demo_main) ''r'' EnvAPIToken = ''r''" by (simp add: TokenFromEnv_def trim_r Let_def)
  then have "\<exists>ru. runSimulator demo_main no_readings ?fl = Some ru"
    by (simp add: runSimulator_def fl listens_safely_iff Let_def) (simp add: demo_main_def)
  then show ?thesis by (auto simp: simulate_command_def exit_on_error_def demo_args_parsed)
qed


theorem settings_read_witness:
  "parse_flags connect_flag_set [''-session=2'', ''--session'', ''7'', ''eq:5000''] = OK ([(''session'', FInt 7)], [''eq:5000''])"
proof -
  have "flag_names connect_flag_set" by (simp add: flag_names_def connect_flag_set_def flag_name_def)
  moreover have "ParseInt ''2'' 0 64 = Some 2" "ParseInt ''7'' 0 64 = Some 7"
    by (simp_all add: ParseInt_def ParseUint_def base_prefix_def digit_of_def lower_code_def Let_def)
  then have "spelled_set connect_flag_set [Spelling False True ''session'' ''2'', Spelling True False ''session'' ''7''] =
      OK [(''session'', FInt 7)]" by (simp add: connect_flag_set_def set_flag_def)
  moreover have "no_flag [''eq:5000'']" by (simp add: no_flag_def)
  ultimately show ?thesis
    using settings_read [of connect_flag_set "[Spelling False True ''session'' ''2'', Spelling True False ''session'' ''7'']"
        "[(''session'', FInt 7)]" "[''eq:5000'']"] by simp
qed

end
