(* ===== verification/Message_Types.thy ===== *)
theory Message_Types
  imports Secs2_Roundtrip E87_Carrier E90_Substrate E116_Ept Gem_Alarms Modbus Hsms_Session Mqtt_Bridge Go_Quote
begin

text \<open>
  The protocol-independent messages and the interface of a codec (\<^verbatim>\<open>pkg/message\<close>), and the names that the
  program prints for session types, ports, slots, substrates, alarm actions, Modbus exceptions and the summary of the performance
  tracker. The interface is the contract \<open>body_codec\<close>, which the SECS-II codec fulfils; the names are unambiguous.
\<close>

section \<open>Messages of any protocol\<close>

datatype FlowDirection = HostToEquipment | EquipmentToHost

record any_message =
  am_Stream :: byte
  am_Function :: byte
  am_WBit :: bool
  am_SystemID :: uint32
  am_Body :: goval

definition IsReply :: "any_message \<Rightarrow> bool" where
  "IsReply m \<longleftrightarrow> am_Function m mod 2 = 0"

definition IsPrimary :: "any_message \<Rightarrow> bool" where
  "IsPrimary m \<longleftrightarrow> am_Function m mod 2 = 1"

lemma word_mod_2: "(w :: byte) mod 2 = 0 \<or> w mod 2 = 1"
  by (metis bits_one_mod_two_eq_one even_iff_mod_2_eq_zero odd_iff_mod_2_eq_one)

text \<open>A message is either a primary or a reply, and the answer to a primary with the next function is a
  reply, also after function 255.\<close>

lemma primary_or_reply: "IsPrimary m \<longleftrightarrow> \<not> IsReply m"
  using word_mod_2 [of "am_Function m"] by (auto simp: IsPrimary_def IsReply_def)

lemma answer_is_reply: "IsPrimary m \<Longrightarrow> IsReply (m\<lparr>am_Function := am_Function m + 1\<rparr>)"
  by (simp add: IsPrimary_def IsReply_def flip: even_iff_mod_2_eq_zero odd_iff_mod_2_eq_one)

section \<open>Codecs\<close>

text \<open>What \<^verbatim>\<open>message.Codec\<close> promises its users: a decoded body can be encoded, and the bytes decode to it again.\<close>

locale body_codec =
  fixes enc :: "'b \<Rightarrow> ('e, byte list) res" and dec :: "byte list \<Rightarrow> ('e, 'b) res"
  assumes recodes: "dec data = OK body \<Longrightarrow> \<exists>bs. enc body = OK bs \<and> dec bs = OK body"
begin

text \<open>Encoding a decoded body is a normal form of its bytes: doing it again changes nothing.\<close>

lemma recode_stable: "dec data = OK body \<Longrightarrow> enc body = OK bs \<Longrightarrow> dec bs = OK body"
  using recodes by fastforce

lemma recode_unique:
  assumes "dec data = OK body" and "enc body = OK bs" and "dec data' = OK body'" and "enc body' = OK bs"
  shows "body = body'"
  using recode_stable [OF assms(1,2)] recode_stable [OF assms(3,4)] by simp

end

interpretation secs2: body_codec Codec_Encode Codec_Decode
proof
  fix data body
  assume "Codec_Decode data = OK body"
  then obtain it where it: "body = VItem it" "Decode data = OK it" by (auto simp: Codec_Decode_def bind_res_eq_OK)
  then have "decodeItem data 0 = OK (it, length data)" by (auto simp: Decode_def res_simps split: if_splits)
  note wf = decode_wf(1) [OF this]
  then show "\<exists>bs. Codec_Encode body = OK bs \<and> Codec_Decode bs = OK body"
    using Encode_wf [of it] Decode_item_bytes [of it] by (auto simp: it(1) Codec_Encode_def Codec_Decode_def)
qed

section \<open>Names\<close>

definition SType_String :: "SType \<Rightarrow> string" where
  "SType_String s =
     (if s = STypeDataMessage then ''DataMessage'' else if s = STypeSelectReq then ''Select.req''
      else if s = STypeSelectRsp then ''Select.rsp'' else if s = STypeDeselectReq then ''Deselect.req''
      else if s = STypeDeselectRsp then ''Deselect.rsp'' else if s = STypeLinktestReq then ''Linktest.req''
      else if s = STypeLinktestRsp then ''Linktest.rsp'' else if s = STypeRejectReq then ''Reject.req''
      else if s = STypeSeparateReq then ''Separate.req'' else ''Unknown('' @ decimal (unat s) @ '')'')"

fun LoadPortState_String :: "LoadPortState \<Rightarrow> string" where
  "LoadPortState_String PortOutOfService = ''OUT_OF_SERVICE''"
| "LoadPortState_String PortTransferBlocked = ''TRANSFER_BLOCKED''"
| "LoadPortState_String PortReadyToLoad = ''READY_TO_LOAD''"
| "LoadPortState_String PortTransferReady = ''TRANSFER_READY''"
| "LoadPortState_String PortReadyToUnload = ''READY_TO_UNLOAD''"

definition SlotState_String :: "SlotState \<Rightarrow> string" where
  "SlotState_String s =
     (if s = SlotEmpty then ''EMPTY'' else if s = SlotOccupied then ''OCCUPIED''
      else if s = SlotDoubleSlotted then ''DOUBLE_SLOTTED'' else if s = SlotCrossSlotted then ''CROSS_SLOTTED''
      else if s = SlotUnknown then ''UNKNOWN'' else ''INVALID'')"

fun SubstrateState_String :: "SubstrateState \<Rightarrow> string" where
  "SubstrateState_String SubstrateAtSource = ''AT_SOURCE''"
| "SubstrateState_String SubstrateInTransit = ''IN_TRANSIT''"
| "SubstrateState_String SubstrateAtProcess = ''AT_PROCESS''"
| "SubstrateState_String SubstrateProcessed = ''PROCESSED''"
| "SubstrateState_String SubstrateAtDest = ''AT_DESTINATION''"
| "SubstrateState_String SubstrateRejected = ''REJECTED''"

fun AlarmAction_String :: "AlarmAction \<Rightarrow> string" where
  "AlarmAction_String AlarmActionLogOnly = ''LOG_ONLY''"
| "AlarmAction_String AlarmActionForceIdle = ''FORCE_IDLE''"
| "AlarmAction_String AlarmActionForceOffline = ''FORCE_OFFLINE''"

text \<open>\<^verbatim>\<open>%02X\<close> of a byte.\<close>

definition upper_hex :: "nat \<Rightarrow> char" where
  "upper_hex d = char_of (if d < 10 then 48 + d else 55 + d)"

definition hex_upper2 :: "byte \<Rightarrow> string" where
  "hex_upper2 b = [upper_hex (unat b div 16), upper_hex (unat b mod 16)]"

definition ExceptionCode_String :: "ExceptionCode \<Rightarrow> string" where
  "ExceptionCode_String e =
     (if e = 0x01 then ''Illegal Function'' else if e = 0x02 then ''Illegal Data Address'' else if e = 0x03 then ''Illegal Data Value''
      else if e = 0x04 then ''Slave Device Failure'' else if e = 0x05 then ''Acknowledge'' else if e = 0x06 then ''Slave Device Busy''
      else if e = 0x08 then ''Memory Parity Error'' else if e = 0x0A then ''Gateway Path Unavailable''
      else if e = 0x0B then ''Gateway Target Device Failed to Respond''
      else ''Unknown Exception (0x'' @ hex_upper2 e @ '')'')"

definition ModbusError_Error :: "byte \<Rightarrow> ExceptionCode \<Rightarrow> string" where
  "ModbusError_Error fc e = ''modbus: function 0x'' @ hex_upper2 fc @ '' exception: '' @ ExceptionCode_String e"

text \<open>The summary of the performance tracker; \<open>percent\<close> is the product with 100.\<close>

definition percent :: "float64 \<Rightarrow> string" where
  "percent x = fixed1 (f64_mul x (f64_of_int 100)) @ ''%''"

definition Summary :: "(EPTState list \<Rightarrow> EPTState list) \<Rightarrow> int \<Rightarrow> EPTTracker \<Rightarrow> string" where
  "Summary ord now t =
     (let f = OEE ord now t; (total, defective) = UnitCounts t
      in ''OEE='' @ percent (fig_oee f) @ '' (A='' @ percent (fig_availability f) @ '' P='' @ percent (fig_performance f) @
         '' Q='' @ percent (fig_quality f) @ '') units='' @ decimal_int total @ '' defects='' @ decimal_int defective)"

section \<open>Names are unambiguous\<close>

lemma upper_hex_inj: "a < 16 \<Longrightarrow> b < 16 \<Longrightarrow> upper_hex a = upper_hex b \<Longrightarrow> a = b"
  by (auto simp: upper_hex_def split: if_split_asm)

lemma hex_upper2_inj: "hex_upper2 a = hex_upper2 b \<Longrightarrow> a = b"
proof -
  assume "hex_upper2 a = hex_upper2 b"
  moreover have "unat a div 16 < 16" "unat b div 16 < 16" using unsigned_less [of a, where ?'a = nat] unsigned_less [of b, where ?'a = nat] by simp_all
  ultimately have "unat a div 16 = unat b div 16" "unat a mod 16 = unat b mod 16"
    by (auto simp: hex_upper2_def intro: upper_hex_inj)
  then have "unat a = unat b" by (metis div_mult_mod_eq)
  then show ?thesis by (simp add: word_unat_eq_iff)
qed

text \<open>
  What the program prints names one thing only: two session types, two Modbus exceptions, two states of a port or a substrate or two
  alarm actions with the same name are the same, unknown codes included; the same holds for the defined states of a slot.
\<close>

theorem names_unambiguous:
  "inj SType_String \<and> inj ExceptionCode_String \<and> inj LoadPortState_String \<and> inj SubstrateState_String \<and> inj AlarmAction_String \<and>
   inj_on SlotState_String {SlotEmpty, SlotOccupied, SlotDoubleSlotted, SlotCrossSlotted, SlotUnknown}"
proof (intro conjI)
  show "inj SType_String"
    by (rule injI) (auto simp: SType_String_def decimal_inj word_unat_eq_iff [symmetric] split: if_split_asm)
  show "inj ExceptionCode_String"
    by (rule injI) (auto simp: ExceptionCode_String_def split: if_split_asm dest: hex_upper2_inj)
  show "inj LoadPortState_String"
  proof (rule injI)
    fix a b
    show "LoadPortState_String a = LoadPortState_String b \<Longrightarrow> a = b" by (cases a; cases b) simp_all
  qed
  show "inj SubstrateState_String"
  proof (rule injI)
    fix a b
    show "SubstrateState_String a = SubstrateState_String b \<Longrightarrow> a = b" by (cases a; cases b) simp_all
  qed
  show "inj AlarmAction_String"
  proof (rule injI)
    fix a b
    show "AlarmAction_String a = AlarmAction_String b \<Longrightarrow> a = b" by (cases a; cases b) simp_all
  qed
  show "inj_on SlotState_String {SlotEmpty, SlotOccupied, SlotDoubleSlotted, SlotCrossSlotted, SlotUnknown}"
    by (auto simp: inj_on_def SlotState_String_def SlotEmpty_def SlotOccupied_def SlotDoubleSlotted_def SlotCrossSlotted_def
        SlotUnknown_def)
qed

end
