(* ===== verification/Spec2Isabelle.thy ===== *)
theory Spec2Isabelle
  imports Secs2_Roundtrip Hsms_Session Gem_Wire Validator_State E90_Substrate E116_Ept Modbus
    Managed_Session Rate_Limiter Validator_Timing Validator_Report Rest_Api Sim_Host
    Secsgem_Main Message_Security Certificates Connect_Command Opcua_Client Metrics Item_Text
    Equipment_Wire Command_Flags Message_Types
begin

text \<open>
  A verification development for go-factory-io, a Go implementation of the SECS/GEM protocols for
  factory equipment.

  \<^bold>\<open>The program.\<close> A host and a piece of equipment exchange messages over TCP. The SECS-II layer
  (\<^verbatim>\<open>pkg/message/secs2\<close>) turns trees of typed items into bytes and back. The HSMS layer
  (\<^verbatim>\<open>pkg/transport/hsms\<close>) frames messages, runs the Select handshake, correlates replies with
  requests by their system id and watches the timers; \<^verbatim>\<open>pkg/session\<close> keeps such a session alive
  by reconnecting. The GEM driver (\<^verbatim>\<open>pkg/driver/gem\<close>) answers the messages: its handler dispatches
  on stream and function, after the session policy (\<^verbatim>\<open>pkg/security/policy.go\<close>) allowed them, and
  works on the state machine, the variables, the event reports, the alarms and the commands. Beside
  them are the managers of process jobs (E40), control jobs (E94), carriers and load ports (E87),
  substrates (E90) and equipment performance (E116). The validators (\<^verbatim>\<open>pkg/validator\<close>) check what a
  peer does: state transitions, message bodies, reply times, and they report which messages are
  implemented. A rate limiter (\<^verbatim>\<open>pkg/security/ratelimit.go\<close>) protects the session, and a Modbus TCP
  client (\<^verbatim>\<open>pkg/transport/modbus\<close>) and an OPC UA client (\<^verbatim>\<open>pkg/transport/opcua\<close>) are further transports.

  The equipment is offered to other programs by a REST interface (\<^verbatim>\<open>api/rest\<close>), a gRPC service
  (\<^verbatim>\<open>api/grpc\<close>) and an MQTT bridge (\<^verbatim>\<open>pkg/bridge\<close>); the first two ask for an API token
  (\<^verbatim>\<open>pkg/security/apitoken.go\<close>), and all three learn of collection events by hooking into the GEM
  handler. The simulator (\<^verbatim>\<open>pkg/simulator\<close>, \<^verbatim>\<open>examples/simulator\<close>) plays scripts as a host, injects faults and
  runs a piece of equipment; the studio (\<^verbatim>\<open>pkg/studio\<close>) shows its messages in a browser and takes
  commands over a web socket. The command line (\<^verbatim>\<open>cmd/secsgem\<close>) refuses unsafe listeners and puts
  these parts together. The rest of \<^verbatim>\<open>pkg/security\<close> encrypts messages, records and replays them, detects
  anomalies, keeps keys, checks revocation lists, and reports security events to an audit log and a
  webhook.

  \<^bold>\<open>The theories.\<close>
  \<^item> \<open>Go_Prelude\<close>: Go's results as \<open>res\<close> (\<open>OK\<close>, \<open>Err\<close>, \<open>Panic\<close>), bytes and big-endian integers,
    maps as association lists with the contract \<open>keyed_store\<close>, iteration orders.
  \<^item> \<open>Go_Float\<close>, \<open>Go_Arith\<close>: \<^verbatim>\<open>float32\<close> and \<^verbatim>\<open>float64\<close> as bit patterns; order, conversions and
    correctly rounded arithmetic; \<^verbatim>\<open>int64\<close> wrap-around, durations and instants.
  \<^item> \<open>Secs2_Item\<close>, \<open>Secs2_Codec\<close>, \<open>Secs2_Roundtrip\<close>: items and their accessors (\<^verbatim>\<open>item.go\<close>,
    \<^verbatim>\<open>format.go\<close>), encoder and decoder (\<^verbatim>\<open>encode.go\<close>, \<^verbatim>\<open>decode.go\<close>), and what they are to each other.
  \<^item> \<open>Hsms_Message\<close>, \<open>Hsms_Session\<close>: headers, wire format and framing (\<^verbatim>\<open>message.go\<close>), and the
    session (\<^verbatim>\<open>session.go\<close>, \<^verbatim>\<open>config.go\<close>) as an interleaving of its calls, loops and timers.
  \<^item> \<open>Managed_Session\<close>: \<^verbatim>\<open>reconnect.go\<close>, the loop by itself and the manager interleaved with the
    sessions of \<open>Hsms_Session\<close>.
  \<^item> \<open>Gem_State\<close>, \<open>Gem_Variables\<close>, \<open>Gem_Events\<close>, \<open>Gem_Alarms\<close>, \<open>Security_Policy\<close>: \<^verbatim>\<open>state.go\<close>,
    \<^verbatim>\<open>variable.go\<close>, \<^verbatim>\<open>event.go\<close>, \<^verbatim>\<open>alarm.go\<close> with \<^verbatim>\<open>safety.go\<close>, \<^verbatim>\<open>policy.go\<close>. The contract
    \<open>switch_registry\<close> is shared by events and alarms.
  \<^item> \<open>Gem_Handler\<close>, \<open>Gem_Handler_Props\<close>, \<open>Gem_Wire\<close>: \<^verbatim>\<open>handler.go\<close> and \<^verbatim>\<open>command.go\<close>; frames and
    invariants; the requests and replies as bytes.
  \<^item> \<open>Job_Lifecycle\<close>, \<open>E40_ProcessJob\<close>, \<open>E94_ControlJob\<close>, \<open>E87_Carrier\<close>, \<open>E90_Substrate\<close>, \<open>E116_Ept\<close>:
    the contracts \<open>lifecycle\<close> and \<open>job_manager\<close>, interpreted for the managers, and the managers.
  \<^item> \<open>Validator_State\<close>, \<open>Validator_Schema\<close>, \<open>Validator_Timing\<close>, \<open>Validator_Report\<close>: \<^verbatim>\<open>state.go\<close>,
    \<^verbatim>\<open>schema.go\<close> with the table of standard schemas, \<^verbatim>\<open>timing.go\<close>, \<^verbatim>\<open>report.go\<close>.
  \<^item> \<open>Rate_Limiter\<close>, \<open>Modbus\<close>, \<open>Opcua_Client\<close>: \<^verbatim>\<open>ratelimit.go\<close>; \<^verbatim>\<open>modbus/client.go\<close>, \<^verbatim>\<open>protocol.go\<close>,
    \<^verbatim>\<open>errors.go\<close>; \<^verbatim>\<open>opcua/client.go\<close>, with the library it wraps as an argument.
  \<^item> \<open>Go_Quote\<close>, \<open>Item_Text\<close>: \<^verbatim>\<open>%q\<close> with UTF-8 and a reference reader of its literals; the text of an item
    (\<^verbatim>\<open>String\<close> in \<^verbatim>\<open>item.go\<close>) with its escaping of markup.
  \<^item> \<open>Equipment_Wire\<close>: a host's session, the bytes, the equipment's session and the handler put together, with the
    contract \<open>exchange_refinement\<close> between the exchange on the wire and the direct one.
  \<^item> \<open>Message_Types\<close>: \<^verbatim>\<open>pkg/message\<close> with the contract \<open>body_codec\<close>, and the names printed for states and codes.
  \<^item> \<open>Go_Strconv\<close>, \<open>Api_Token\<close>, \<open>Event_Stream\<close>: number parsing and printing; tokens, roles and
    their check (\<^verbatim>\<open>apitoken.go\<close>); bounded channels of subscribers, with the contract
    \<open>event_stream\<close> that \<open>Rest_Api\<close> and \<open>Grpc_Api\<close> interpret.
  \<^item> \<open>Rest_Api\<close>, \<open>Grpc_Api\<close>, \<open>Mqtt_Bridge\<close>, \<open>Gem_Hooks\<close>: \<^verbatim>\<open>api/rest/handler.go\<close>,
    \<^verbatim>\<open>api/grpc/server.go\<close>, \<^verbatim>\<open>pkg/bridge/mqtt/bridge.go\<close>, and the chains of event hooks they build on the GEM
    handler.
  \<^item> \<open>Sml_Parser\<close>, \<open>Sim_Host\<close>, \<open>Equipment_Sim\<close>, \<open>Studio\<close>: the SML parser, scripts, faults and scenarios
    of \<^verbatim>\<open>pkg/simulator\<close>; \<^verbatim>\<open>examples/simulator\<close>; \<^verbatim>\<open>pkg/studio\<close>.
  \<^item> \<open>Security_Events\<close>, \<open>Message_Security\<close>, \<open>Certificates\<close>: \<^verbatim>\<open>event.go\<close>, \<^verbatim>\<open>e191.go\<close>, \<^verbatim>\<open>webhook.go\<close>;
    \<^verbatim>\<open>encryption.go\<close>, \<^verbatim>\<open>recorder.go\<close>, \<^verbatim>\<open>anomaly.go\<close>; \<^verbatim>\<open>tls.go\<close>, \<^verbatim>\<open>revocation.go\<close>, \<^verbatim>\<open>hsm.go\<close> with the contract
    \<open>key_store\<close>.
  \<^item> \<open>Metrics\<close>: the counters and their Prometheus text (\<^verbatim>\<open>pkg/metrics\<close>).
  \<^item> \<open>Secsgem_Main\<close>, \<open>Connect_Command\<close>, \<open>Command_Flags\<close>: \<^verbatim>\<open>cmd/secsgem/main.go\<close>, its guards, how it connects the
    parts above, the host of its \<^verbatim>\<open>connect\<close> command, and its flags with the parsers of \<^verbatim>\<open>flag\<close> and of durations.

  \<^bold>\<open>How code becomes definitions.\<close> A struct is a record and a method a function on it that keeps
  the method's name (with a prefix where two types share a name) and its order of guards. Errors are
  values of \<open>res\<close>; an index out of range, a failed type assertion, a nil dereference and a close of a
  closed channel are \<open>Panic\<close>. Machine integers are words or wrap explicitly where the width matters.
  A method that holds the mutex for its whole body is one step; one that releases it, or waits, is
  split where it does (\<^verbatim>\<open>ReadyToUnload\<close>, \<^verbatim>\<open>sendAndWait\<close>, \<^verbatim>\<open>connect\<close>). What the environment decides is
  an argument: the clock, the network's success and the bytes it delivers, the order in which Go
  ranges over a map, registered handlers and callbacks, and the value of a float conversion that is
  out of range. Calls of callbacks, sent messages and audit entries are recorded in lists.

  \<^bold>\<open>What is shown.\<close>
  \<^item> Codec: encoding and decoding are inverse up to the normal form of an item; the decoder is total,
    returns only well-formed items that use the whole input, and rejects every proper prefix;
    re-encoding is stable. The text of an item has no markup but its structure, and the literal of a string reads
    as that string. Framing recovers the messages of a byte stream and respects the limit.
  \<^item> Session: nothing is delivered or sent without Select; replies reach the call that asked; peers
    outside the allowlist are never served. Both ends: an exchange across two sessions and the bytes between
    them is the direct exchange with the handler, until the host's counter wraps around; the setup script, run
    from fresh sessions, brings the equipment at the other end online. Manager: one goroutine per start, bounded retries and
    delays, termination of the reconnect loop, and a race between \<^verbatim>\<open>Stop\<close> and \<^verbatim>\<open>connect\<close>.
  \<^item> GEM: the policy is enforced; the handler keeps the invariant of all stores; requests have their
    documented effect on the wire; severe alarms force the equipment offline; every message the
    handler produces passes the schema the validator has for it.
  \<^item> Managers: reported histories are linked and follow the tables; carriers and ports correspond;
    a substrate's log is a path; the validator's tables accept what the managers report.
  \<^item> Numbers: the durations of E116 add up to the elapsed time and its figures lie between 0 and 1;
    the bucket of the rate limiter stays within its size and limits bursts; the timing validator's
    floating point test decides the 80 percent threshold exactly.
  \<^item> Modbus: data survive the codecs, reads return what the device sent, a reply is accepted only
    with the identifier of its request. OPC UA: only open connections are used, and reading several nodes
    returns each good value under its name.

  \<^item> Interfaces: where tokens are configured, a REST request changes the equipment only with the write
    token and reads only with one of them; a simulator bound beyond the loopback interface never serves
    anonymous clients; write access to its equipment needs a flag that asks for it; gRPC and REST writes have the same effect, but the read token opens every gRPC
    procedure (a finding); event streams keep the order of the events, and an accepted report reaches
    every stream with room and the connected broker exactly once.
  \<^item> Simulator and studio: without write access the simulator keeps its configuration and numbers its
    reports without a gap; every spelling of an item is parsed as that item; the built-in scripts end and pass
    against the equipment; the studio is driven only with its token, on the loopback interface or in a
    demonstration; its trace is a final part of the messages that passed the host.
  \<^item> Security tools: the auditor is told exactly of the denials; the webhook's batches are all events in
    order, with bounded retries; an encrypted item is recovered; the recorder keeps the bytes and the
    statistics are exact; a certificate is accepted only on a list served within the cache time; the pair of
    TLS configurations for tests trusts one authority; the metrics text reads back as the counters.

  \<^bold>\<open>Bounds.\<close> There is no fuel: recursion is structural or has a termination proof, except for the
  reconnect loop, which is a partial function whose domain is characterised. Hypotheses with
  numbers: a clock that advances less than \<open>2 ^ 63\<close> nanoseconds (292 years) in a run of E116 or
  between two calls of the limiter; bursts below \<open>2 ^ 53\<close>, where integers are exact doubles; timeouts
  below \<open>2 ^ 50\<close> nanoseconds (13 days); SECS-II lengths of 24 bits, HSMS lengths of 32 bits.

  \<^bold>\<open>Not modelled.\<close> Goroutine scheduling inside a critical section and the Go memory model; logging
  and the text of most errors; the usage text and the delivery of signals; accessors that return a field. Code outside the
  repository is an argument of the definitions that call it: the ciphers, signatures and certificate checks, JSON and
  YAML, the HTTP, MQTT and OPC UA clients, web sockets. Of the standard library, the table of printable runes and
  the shortest decimals of floats are arguments.
\<close>

end
